(* ===== verification/Prelude.thy ===== *)
theory Prelude
  imports Main "HOL-Library.Char_ord"
begin

text \<open>
  Shared vocabulary of the development: the theorem collections the component
  proofs draw on, the Python string operations the sources use (on strings of
  code points below 256, which is what the type \<open>string\<close> holds), decimal
  rendering and parsing of integers, the table operations of a relational
  session over a list of rows, and the locale of transition systems from which
  every reachability invariant of the components is obtained.
\<close>

named_theorems table_simps \<open>how the table operations act on rows\<close>
named_theorems model_defs \<open>definitions of the service operations, unfolded by their own lemmas\<close>

section \<open>Python strings\<close>

definition is_space :: "char \<Rightarrow> bool" where
  "is_space c = (let k = of_char c :: nat in
     (9 \<le> k \<and> k \<le> 13) \<or> (28 \<le> k \<and> k \<le> 32) \<or> k = 133 \<or> k = 160)"

text \<open>\<open>str.strip()\<close>: white space removed at both ends.\<close>

definition strip :: "string \<Rightarrow> string" where
  "strip s = rev (dropWhile is_space (rev (dropWhile is_space s)))"

text \<open>\<open>str.lower()\<close> on one code point below 256.\<close>

definition lower_char :: "char \<Rightarrow> char" where
  "lower_char c = (let k = of_char c :: nat in
     if (65 \<le> k \<and> k \<le> 90) \<or> (192 \<le> k \<and> k \<le> 222 \<and> k \<noteq> 215) then char_of (k + 32) else c)"

definition lower :: "string \<Rightarrow> string" where
  "lower s = map lower_char s"

lemma of_char_less_256: "(of_char c :: nat) < 256"
  using of_char_of[where 'a=nat] by (cases c) (simp add: of_char_def horner_sum_simps split: bool.split)

lemma of_char_lower:
  "(of_char (lower_char c) :: nat) =
     (let k = of_char c in
      if (65 \<le> k \<and> k \<le> 90) \<or> (192 \<le> k \<and> k \<le> 222 \<and> k \<noteq> 215) then k + 32 else k)"
proof -
  have "(of_char c :: nat) < 256" by (rule of_char_less_256)
  then show ?thesis by (auto simp: lower_char_def Let_def)
qed

lemma lower_char_idem [simp]: "lower_char (lower_char c) = lower_char c"
  by (subst lower_char_def) (auto simp: of_char_lower Let_def)

lemma is_space_lower [simp]: "is_space (lower_char c) = is_space c"
  unfolding is_space_def of_char_lower Let_def by (auto split: if_splits)

lemma is_space_lower_comp [simp]: "is_space \<circ> lower_char = is_space"
  by (rule ext) simp

lemma lower_idem [simp]: "lower (lower s) = lower s"
  by (simp add: lower_def)

lemma dropWhile_lower: "dropWhile is_space (lower s) = lower (dropWhile is_space s)"
  by (simp add: lower_def dropWhile_map)

lemma rev_lower: "rev (lower s) = lower (rev s)"
  by (simp add: lower_def rev_map)

lemma strip_lower: "strip (lower s) = lower (strip s)"
  by (simp add: strip_def dropWhile_lower rev_lower)

lemma dropWhile_all_drop: "dropWhile P (dropWhile P xs) = dropWhile P xs"
  by (induction xs) auto

lemma dropWhile_rev_dropWhile:
  "dropWhile P (rev (dropWhile P (rev (dropWhile P xs)))) = rev (dropWhile P (rev (dropWhile P xs)))"
proof (cases "dropWhile P xs")
  case Nil
  then show ?thesis by (simp only: rev.simps dropWhile.simps)
next
  case (Cons y ys)
  then have "\<not> P y" by (metis hd_dropWhile list.distinct(1) list.sel(1))
  then have "\<exists>zs. dropWhile P (rev ys @ [y]) = zs @ [y]"
    by (induction "rev ys" arbitrary: ys rule: list.induct)
       (auto simp: dropWhile_append)
  then obtain zs where "dropWhile P (rev (dropWhile P xs)) = zs @ [y]"
    using Cons by auto
  then show ?thesis using \<open>\<not> P y\<close> by simp
qed

lemma strip_idem [simp]: "strip (strip s) = strip s"
  by (simp add: strip_def dropWhile_rev_dropWhile dropWhile_all_drop)

section \<open>Integers in decimal\<close>

definition digit_char :: "nat \<Rightarrow> char" where
  "digit_char d = ''0123456789'' ! d"

fun str_nat :: "nat \<Rightarrow> string" where
  "str_nat n = (if n < 10 then [digit_char n] else str_nat (n div 10) @ [digit_char (n mod 10)])"

declare str_nat.simps [simp del]

text \<open>\<open>str(i)\<close> of an integer.\<close>

definition str_int :: "int \<Rightarrow> string" where
  "str_int i = (if i < 0 then CHR ''-'' # str_nat (nat (- i)) else str_nat (nat i))"

definition digit_val :: "char \<Rightarrow> nat option" where
  "digit_val c = (let k = of_char c :: nat in if 48 \<le> k \<and> k \<le> 57 then Some (k - 48) else None)"

text \<open>The digits of an \<open>int()\<close> literal: an underscore may stand between two digits.\<close>

fun scan_digits :: "nat \<Rightarrow> string \<Rightarrow> nat option" where
  "scan_digits acc [] = Some acc"
| "scan_digits acc (c # cs) =
     (case digit_val c of
        Some d \<Rightarrow> scan_digits (acc * 10 + d) cs
      | None \<Rightarrow>
          if c = CHR ''_'' \<and> cs \<noteq> [] \<and> digit_val (hd cs) \<noteq> None then scan_digits acc cs else None)"

definition scan_nat :: "string \<Rightarrow> nat option" where
  "scan_nat s = (case s of [] \<Rightarrow> None
     | c # cs \<Rightarrow> if digit_val c = None then None else scan_digits 0 s)"

text \<open>\<open>int(s)\<close>; \<open>None\<close> is the \<open>ValueError\<close>.\<close>

definition py_int :: "string \<Rightarrow> int option" where
  "py_int s = (case strip s of
       [] \<Rightarrow> None
     | c # cs \<Rightarrow>
         if c = CHR ''-'' then map_option (\<lambda>n. - int n) (scan_nat cs)
         else if c = CHR ''+'' then map_option int (scan_nat cs)
         else map_option int (scan_nat (c # cs)))"

lemma digit_cases: "d < 10 \<Longrightarrow> d = 0 \<or> d = 1 \<or> d = 2 \<or> d = 3 \<or> d = 4 \<or> d = 5 \<or> d = 6 \<or> d = 7 \<or> d = 8 \<or> d = (9::nat)"
  by arith

lemma digit_val_char: "d < 10 \<Longrightarrow> digit_val (digit_char d) = Some d"
  by (drule digit_cases) (auto simp: digit_char_def digit_val_def)

lemma digit_char_not_space: "d < 10 \<Longrightarrow> \<not> is_space (digit_char d)"
  by (drule digit_cases) (auto simp: digit_char_def is_space_def)

lemma digit_char_not_sign:
  "d < 10 \<Longrightarrow> digit_char d \<noteq> CHR ''-'' \<and> digit_char d \<noteq> CHR ''+'' \<and> digit_char d \<noteq> CHR '':''"
  by (drule digit_cases) (auto simp: digit_char_def)

lemma str_nat_nonempty: "str_nat n \<noteq> []"
  by (subst str_nat.simps) simp

lemma set_str_nat: "set (str_nat n) \<subseteq> digit_char ` {0..<10}"
proof (induction n rule: str_nat.induct)
  case (1 n)
  show ?case
  proof (cases "n < 10")
    case True
    then show ?thesis by (subst str_nat.simps) auto
  next
    case False
    then have "set (str_nat (n div 10)) \<subseteq> digit_char ` {0..<10}" using 1 by simp
    with False show ?thesis by (subst str_nat.simps) auto
  qed
qed

lemma hd_str_nat: "\<exists>d < 10. hd (str_nat n) = digit_char d"
proof -
  have "hd (str_nat n) \<in> digit_char ` {0..<10}"
    using set_str_nat[of n] hd_in_set[OF str_nat_nonempty[of n]] by (rule subsetD)
  then show ?thesis by auto
qed

lemma scan_digits_append_digit:
  "scan_digits acc xs = Some m \<Longrightarrow> d < 10 \<Longrightarrow> scan_digits acc (xs @ [digit_char d]) = Some (m * 10 + d)"
  by (induction acc xs rule: scan_digits.induct)
     (auto simp: digit_val_char split: option.splits if_splits)

lemma scan_digits_str_nat: "scan_digits 0 (str_nat n) = Some n"
proof (induction n rule: str_nat.induct)
  case (1 n)
  show ?case
  proof (cases "n < 10")
    case True
    then show ?thesis by (subst str_nat.simps) (simp add: digit_val_char)
  next
    case False
    then have "scan_digits 0 (str_nat (n div 10)) = Some (n div 10)" using 1 by simp
    then have "scan_digits 0 (str_nat (n div 10) @ [digit_char (n mod 10)]) = Some (n div 10 * 10 + n mod 10)"
      by (rule scan_digits_append_digit) simp
    with False show ?thesis by (subst str_nat.simps) simp
  qed
qed

text \<open>\<open>sep.join(parts)\<close>.\<close>

fun join :: "string \<Rightarrow> string list \<Rightarrow> string" where
  "join sep [] = []"
| "join sep [s] = s"
| "join sep (s # ss) = s @ sep @ join sep ss"

definition pad_zeros :: "nat \<Rightarrow> string \<Rightarrow> string" where
  "pad_zeros n s = replicate (n - length s) (CHR ''0'') @ s"

lemma scan_digits_pad: "scan_digits 0 (pad_zeros k s) = scan_digits 0 s"
proof -
  have "scan_digits 0 (replicate n (CHR ''0'') @ s) = scan_digits 0 s" for n
    by (induction n) (simp_all add: digit_val_def)
  then show ?thesis by (simp add: pad_zeros_def)
qed

lemma length_str_nat: "n < 10 ^ k \<Longrightarrow> 0 < k \<Longrightarrow> length (str_nat n) \<le> k"
proof (induction k arbitrary: n)
  case (Suc k)
  show ?case
  proof (cases "n < 10")
    case False
    have "n div 10 < 10 ^ k" using Suc.prems(1) by (simp add: less_mult_imp_div_less mult.commute)
    moreover have "0 < k" using False Suc.prems(1) by (cases k) auto
    ultimately show ?thesis using Suc.IH[of "n div 10"] False by (subst str_nat.simps) simp
  qed (subst str_nat.simps, simp)
qed simp

lemma str_nat_inj: "str_nat m = str_nat n \<longleftrightarrow> m = n"
  by (metis option.inject scan_digits_str_nat)

lemma pad_str_nat_inj: "pad_zeros k (str_nat m) = pad_zeros k (str_nat n) \<Longrightarrow> m = n"
  by (metis option.inject scan_digits_pad scan_digits_str_nat)

lemma scan_nat_str_nat: "scan_nat (str_nat n) = Some n"
proof -
  obtain c cs where s: "str_nat n = c # cs" using str_nat_nonempty by (cases "str_nat n") auto
  then obtain d where "d < 10" "c = digit_char d" using hd_str_nat[of n] by auto
  then show ?thesis using s scan_digits_str_nat[of n] by (simp add: scan_nat_def digit_val_char)
qed

lemma strip_no_space: "(\<forall>c \<in> set s. \<not> is_space c) \<Longrightarrow> strip s = s"
proof -
  assume s: "\<forall>c \<in> set s. \<not> is_space c"
  have "dropWhile is_space t = t" if "set t = set s" for t
    using that s by (cases t) auto
  then show ?thesis by (simp add: strip_def)
qed

lemma str_nat_no_space: "c \<in> set (str_nat n) \<Longrightarrow> \<not> is_space c"
  using set_str_nat[of n] digit_char_not_space by auto

lemma str_int_no_space: "c \<in> set (str_int i) \<Longrightarrow> \<not> is_space c"
  using str_nat_no_space by (auto simp: str_int_def is_space_def split: if_splits)

text \<open>Parsing undoes rendering.\<close>

lemma py_int_str_int [simp]: "py_int (str_int i) = Some i"
proof -
  have strip: "strip (str_int i) = str_int i"
    using str_int_no_space by (blast intro: strip_no_space)
  show ?thesis
  proof (cases "i < 0")
    case True
    then show ?thesis using strip
      by (simp add: py_int_def str_int_def scan_nat_str_nat)
  next
    case False
    obtain c cs where s: "str_nat (nat i) = c # cs" using str_nat_nonempty by (cases "str_nat (nat i)") auto
    then obtain d where "d < 10" "c = digit_char d" using hd_str_nat[of "nat i"] by auto
    then have "c \<noteq> CHR ''-''" "c \<noteq> CHR ''+''" using digit_char_not_sign by auto
    then show ?thesis using strip False s scan_nat_str_nat[of "nat i"]
      by (simp add: py_int_def str_int_def)
  qed
qed

lemma str_int_inj: "str_int i = str_int j \<longleftrightarrow> i = j"
  by (metis option.inject py_int_str_int)

lemma str_int_no_colon: "CHR '':'' \<notin> set (str_int i)"
proof -
  have "CHR '':'' \<notin> set (str_nat n)" for n
    using set_str_nat[of n] digit_char_not_sign by fastforce
  then show ?thesis by (auto simp: str_int_def)
qed

section \<open>Looking up by a key\<close>

lemma find_key_map:
  assumes "\<And>x. key (g x) = key x"
  shows "find (\<lambda>x. key x = k) (map g xs) = map_option g (find (\<lambda>x. key x = k) xs)"
  by (induction xs) (auto simp: assms)

lemma find_key_Some: "find (\<lambda>x. key x = k) xs = Some y \<Longrightarrow> y \<in> set xs \<and> key y = k"
  by (auto simp: find_Some_iff)

lemma find_key_mem:
  assumes "distinct (map key xs)" "c \<in> set xs"
  shows "find (\<lambda>x. key x = key c) xs = Some c"
proof (cases "find (\<lambda>x. key x = key c) xs")
  case None
  then show ?thesis using assms(2) by (auto simp: find_None_iff)
next
  case (Some y)
  then show ?thesis using assms find_key_Some[OF Some] by (auto simp: distinct_map inj_on_def)
qed

lemma find_key_append_new:
  "find (\<lambda>x. key x = key y) xs = None \<Longrightarrow>
   find (\<lambda>x. key x = k) (xs @ [y]) = (if k = key y then Some y else find (\<lambda>x. key x = k) xs)"
  by (induction xs) (auto split: if_splits)

lemma find_key_iff:
  assumes "distinct (map key xs)"
  shows "find (\<lambda>x. key x = k) xs = Some y \<longleftrightarrow> y \<in> set xs \<and> key y = k"
  using find_key_mem[OF assms, of y] find_key_Some[of key k xs y] by auto

section \<open>Dicts in order of insertion\<close>

fun dict_put :: "'k \<Rightarrow> 'v \<Rightarrow> ('k \<times> 'v) list \<Rightarrow> ('k \<times> 'v) list" where
  "dict_put k v [] = [(k, v)]"
| "dict_put k v ((k', v') # kvs) = (if k' = k then (k, v) # kvs else (k', v') # dict_put k v kvs)"

lemma map_of_dict_put: "map_of (dict_put k v d) = (map_of d)(k \<mapsto> v)"
  by (induction k v d rule: dict_put.induct) auto

lemma fst_dict_put: "fst ` set (dict_put k v d) = insert k (fst ` set d)"
  by (induction k v d rule: dict_put.induct) auto

lemma distinct_dict_put: "distinct (map fst d) \<Longrightarrow> distinct (map fst (dict_put k v d))"
proof (induction k v d rule: dict_put.induct)
  case (2 k v k' v' kvs)
  then show ?case using fst_dict_put[of k v kvs] by auto
qed simp

section \<open>Transition systems\<close>

text \<open>
  A component whose operations keep an invariant: one rule per operation in
  \<open>step\<close>, the invariant in \<open>inv\<close>. Clients get the invariant in every state
  reached from a good one.
\<close>

locale transition_system =
  fixes step :: "'s \<Rightarrow> 's \<Rightarrow> bool"
    and inv :: "'s \<Rightarrow> bool"
  assumes step_inv: "inv s \<Longrightarrow> step s t \<Longrightarrow> inv t"
begin

lemma reach_inv: "step\<^sup>*\<^sup>* s t \<Longrightarrow> inv s \<Longrightarrow> inv t"
  by (induction rule: rtranclp_induct) (auto intro: step_inv)

end

end
