(* ===== verification/Tables.thy ===== *)
theory Tables
  imports Prelude
begin

text \<open>
  Relational tables as an ORM session sees them: the rows in storage order and
  the sequence that hands out primary keys. The operations are the ones the
  services issue: lookup by primary key (\<open>session.get\<close>), filtered selection,
  attribute updates flushed by a commit, deletion by predicate and insertion with
  the declared constraints. A sequence is not rolled back, so a refused insertion
  still consumes a key. The locale \<open>repository\<close> is the contract the services
  rely on; every primary-key table interprets it.
\<close>

section \<open>Rows and sequences\<close>

record 'r table =
  rows :: "'r list"
  next_id :: int

definition get_row :: "('r \<Rightarrow> int) \<Rightarrow> 'r table \<Rightarrow> int \<Rightarrow> 'r option" where
  "get_row pk t i = find (\<lambda>r. pk r = i) (rows t)"

definition select_rows :: "('r \<Rightarrow> bool) \<Rightarrow> 'r table \<Rightarrow> 'r list" where
  "select_rows p t = filter p (rows t)"

definition update_rows :: "('r \<Rightarrow> bool) \<Rightarrow> ('r \<Rightarrow> 'r) \<Rightarrow> 'r table \<Rightarrow> 'r table" where
  "update_rows p f t = t\<lparr>rows := map (\<lambda>r. if p r then f r else r) (rows t)\<rparr>"

definition delete_rows :: "('r \<Rightarrow> bool) \<Rightarrow> 'r table \<Rightarrow> 'r table" where
  "delete_rows p t = t\<lparr>rows := filter (\<lambda>r. \<not> p r) (rows t)\<rparr>"

definition append_row :: "(int \<Rightarrow> 'r) \<Rightarrow> 'r table \<Rightarrow> 'r table" where
  "append_row mk t = t\<lparr>rows := rows t @ [mk (next_id t)], next_id := next_id t + 1\<rparr>"

definition burn_id :: "'r table \<Rightarrow> 'r table" where
  "burn_id t = t\<lparr>next_id := next_id t + 1\<rparr>"

definition set_row :: "('r \<Rightarrow> int) \<Rightarrow> int \<Rightarrow> ('r \<Rightarrow> 'r) \<Rightarrow> 'r table \<Rightarrow> 'r table" where
  "set_row pk i f t = update_rows (\<lambda>r. pk r = i) f t"

definition has_id :: "('r \<Rightarrow> int) \<Rightarrow> 'r table \<Rightarrow> int \<Rightarrow> bool" where
  "has_id pk t i = list_ex (\<lambda>r. pk r = i) (rows t)"

text \<open>Keys are unique and below the sequence.\<close>

definition wf_table :: "('r \<Rightarrow> int) \<Rightarrow> 'r table \<Rightarrow> bool" where
  "wf_table pk t = (distinct (map pk (rows t)) \<and> list_all (\<lambda>r. pk r < next_id t) (rows t))"

definition empty_table :: "'r table" where
  "empty_table = \<lparr>rows = [], next_id = 1\<rparr>"

lemma rows_empty [table_simps]: "rows empty_table = []"
  by (simp add: empty_table_def)

lemma rows_update [table_simps]: "rows (update_rows p f t) = map (\<lambda>r. if p r then f r else r) (rows t)"
  by (simp add: update_rows_def)

lemma rows_set [table_simps]: "rows (set_row pk i f t) = map (\<lambda>r. if pk r = i then f r else r) (rows t)"
  by (simp add: set_row_def update_rows_def)

lemma rows_delete [table_simps]: "rows (delete_rows p t) = filter (\<lambda>r. \<not> p r) (rows t)"
  by (simp add: delete_rows_def)

lemma rows_append [table_simps]: "rows (append_row mk t) = rows t @ [mk (next_id t)]"
  by (simp add: append_row_def)

lemma rows_burn [table_simps]: "rows (burn_id t) = rows t"
  by (simp add: burn_id_def)

lemma next_id_ops [table_simps]:
  "next_id (update_rows p f t) = next_id t"
  "next_id (set_row pk i f t) = next_id t"
  "next_id (delete_rows p t) = next_id t"
  "next_id (append_row mk t) = next_id t + 1"
  "next_id (burn_id t) = next_id t + 1"
  by (simp_all add: update_rows_def set_row_def delete_rows_def append_row_def burn_id_def)

lemma has_id_iff [table_simps]: "has_id pk t i \<longleftrightarrow> (\<exists>r \<in> set (rows t). pk r = i)"
  by (auto simp: has_id_def list_ex_iff)

lemma get_row_Some: "get_row pk t i = Some r \<Longrightarrow> r \<in> set (rows t) \<and> pk r = i"
  by (auto simp: get_row_def find_Some_iff)

lemma get_row_None: "get_row pk t i = None \<longleftrightarrow> (\<forall>r \<in> set (rows t). pk r \<noteq> i)"
  by (auto simp: get_row_def find_None_iff)

lemma get_row_has_id: "has_id pk t i \<longleftrightarrow> (\<exists>r. get_row pk t i = Some r)"
  by (metis get_row_None get_row_Some has_id_iff not_Some_eq)

lemma wf_tableD:
  assumes "wf_table pk t" "r \<in> set (rows t)" "s \<in> set (rows t)" "pk r = pk s"
  shows "r = s"
  using assms by (auto simp: wf_table_def distinct_map inj_on_def)

lemma get_row_mem:
  assumes "wf_table pk t" "r \<in> set (rows t)"
  shows "get_row pk t (pk r) = Some r"
proof (cases "get_row pk t (pk r)")
  case None
  with assms show ?thesis by (auto simp: get_row_None)
next
  case (Some s)
  with get_row_Some[OF Some] assms show ?thesis using wf_tableD by fastforce
qed

section \<open>What every operation keeps of the key invariant\<close>

lemma wf_table_empty: "wf_table pk empty_table"
  by (simp add: wf_table_def empty_table_def)

lemma wf_table_append:
  assumes "wf_table pk t" "\<And>i. pk (mk i) = i"
  shows "wf_table pk (append_row mk t)"
  using assms by (fastforce simp: wf_table_def append_row_def list_all_iff)

lemma wf_table_burn: "wf_table pk t \<Longrightarrow> wf_table pk (burn_id t)"
  by (fastforce simp: wf_table_def burn_id_def list_all_iff)

lemma map_pk_update:
  "(\<And>r. pk (f r) = pk r) \<Longrightarrow> map pk (map (\<lambda>r. if p r then f r else r) xs) = map pk xs"
  by (induction xs) auto

lemma wf_table_update:
  assumes "wf_table pk t" "\<And>r. pk (f r) = pk r"
  shows "wf_table pk (update_rows p f t)"
  using assms map_pk_update[of pk f p "rows t"]
  by (auto simp: wf_table_def update_rows_def list_all_iff simp del: map_map)

lemma wf_table_set:
  assumes "wf_table pk t" "\<And>r. pk (f r) = pk r"
  shows "wf_table pk (set_row pk i f t)"
  unfolding set_row_def using assms by (rule wf_table_update)

lemma wf_table_delete: "wf_table pk t \<Longrightarrow> wf_table pk (delete_rows p t)"
  by (auto simp: wf_table_def delete_rows_def list_all_iff distinct_map_filter)

lemma get_append_new:
  assumes "wf_table pk t" "\<And>i. pk (mk i) = i"
  shows "get_row pk (append_row mk t) (next_id t) = Some (mk (next_id t))"
  using get_row_mem[OF wf_table_append[OF assms], of "mk (next_id t)"] assms(2)
  by (simp add: rows_append)

lemma find_append_Some: "find P xs = Some y \<Longrightarrow> find P (xs @ ys) = Some y"
  by (induction xs) (auto split: if_splits)

lemma get_append_old: "get_row pk t i = Some r \<Longrightarrow> get_row pk (append_row mk t) i = Some r"
  by (simp add: get_row_def append_row_def find_append_Some)

lemma find_map_same:
  "(\<And>r. pk (f r) = pk r) \<Longrightarrow>
   find (\<lambda>r. pk r = i) (map (\<lambda>r. if pk r = j then f r else r) xs) =
   map_option (\<lambda>r. if pk r = j then f r else r) (find (\<lambda>r. pk r = i) xs)"
  by (induction xs) auto

lemma get_set_row:
  assumes "\<And>r. pk (f r) = pk r"
  shows "get_row pk (set_row pk j f t) i =
    (if i = j then map_option f (get_row pk t i) else get_row pk t i)"
proof -
  have "get_row pk (set_row pk j f t) i =
      map_option (\<lambda>r. if pk r = j then f r else r) (get_row pk t i)"
    using find_map_same[of pk f i j "rows t", OF assms] by (simp add: get_row_def rows_set)
  then show ?thesis
    using get_row_Some[of pk t i] by (cases "get_row pk t i") auto
qed

lemma has_id_mono:
  "pk ` set (rows t) \<subseteq> pk ` set (rows t') \<Longrightarrow> has_id pk t i \<Longrightarrow> has_id pk t' i"
  unfolding has_id_iff by (metis image_eqI image_iff subset_iff)

lemma has_id_set_row [simp]: "(\<And>r. pk (f r) = pk r) \<Longrightarrow> has_id pk (set_row pk j f t) i = has_id pk t i"
  unfolding has_id_iff rows_set by (auto split: if_splits)

lemma has_id_append: "has_id pk t i \<Longrightarrow> has_id pk (append_row mk t) i"
  by (auto simp: has_id_iff rows_append)

lemma has_id_burn [simp]: "has_id pk (burn_id t) i = has_id pk t i"
  by (simp add: has_id_iff rows_burn)

section \<open>Counting rows\<close>

definition count_rows :: "('r \<Rightarrow> bool) \<Rightarrow> 'r table \<Rightarrow> nat" where
  "count_rows p t = length (select_rows p t)"

lemma count_append: "count_rows p (append_row mk t) = count_rows p t + (if p (mk (next_id t)) then 1 else 0)"
  by (simp add: count_rows_def select_rows_def rows_append)

lemma count_burn: "count_rows p (burn_id t) = count_rows p t"
  by (simp add: count_rows_def select_rows_def rows_burn)

lemma length_filter_set:
  assumes "distinct (map pk xs)" "r \<in> set xs"
  shows "length (filter p (map (\<lambda>x. if pk x = pk r then f x else x) xs)) + (if p r then 1 else 0) =
    length (filter p xs) + (if p (f r) then 1 else 0)"
  using assms
proof (induction xs)
  case Nil
  then show ?case by simp
next
  case (Cons x xs)
  show ?case
  proof (cases "r = x")
    case True
    then have "map (\<lambda>x. if pk x = pk r then f x else x) xs = xs"
      using Cons.prems by (intro map_idI) (auto simp: image_iff)
    then show ?thesis using True by simp
  next
    case False
    then have "r \<in> set xs" using Cons.prems by simp
    moreover have "pk x \<noteq> pk r" using Cons.prems calculation by auto
    ultimately show ?thesis using Cons by (simp split: if_splits)
  qed
qed

text \<open>Changing one row changes a count by what that row contributes.\<close>

lemma count_set_row:
  assumes "wf_table pk t" "r \<in> set (rows t)" "pk r = i"
  shows "count_rows p (set_row pk i f t) + (if p r then 1 else 0) =
    count_rows p t + (if p (f r) then 1 else 0)"
  using length_filter_set[of pk "rows t" r p f] assms
  by (simp add: count_rows_def select_rows_def rows_set wf_table_def)

lemma count_rows_cong:
  "(\<And>r. r \<in> set (rows t) \<Longrightarrow> p r = q r) \<Longrightarrow> count_rows p t = count_rows q t"
  by (simp add: count_rows_def select_rows_def cong: filter_cong)

section \<open>The contract of a table with a primary key\<close>

locale repository =
  fixes pk :: "'r \<Rightarrow> int"
    and lookup :: "'r table \<Rightarrow> int \<Rightarrow> 'r option"
    and insert_new :: "(int \<Rightarrow> 'r) \<Rightarrow> 'r table \<Rightarrow> 'r table"
    and modify :: "int \<Rightarrow> ('r \<Rightarrow> 'r) \<Rightarrow> 'r table \<Rightarrow> 'r table"
    and ok :: "'r table \<Rightarrow> bool"
  assumes lookup_pk: "lookup t i = Some r \<Longrightarrow> pk r = i"
    and lookup_insert: "ok t \<Longrightarrow> (\<And>i. pk (mk i) = i) \<Longrightarrow>
      lookup (insert_new mk t) (next_id t) = Some (mk (next_id t))"
    and lookup_insert_old: "lookup t i = Some r \<Longrightarrow> lookup (insert_new mk t) i = Some r"
    and lookup_modify: "(\<And>r. pk (f r) = pk r) \<Longrightarrow>
      lookup (modify j f t) i = (if i = j then map_option f (lookup t i) else lookup t i)"
    and ok_insert: "ok t \<Longrightarrow> (\<And>i. pk (mk i) = i) \<Longrightarrow> ok (insert_new mk t)"
    and ok_modify: "ok t \<Longrightarrow> (\<And>r. pk (f r) = pk r) \<Longrightarrow> ok (modify j f t)"
begin

lemma lookup_modify_same:
  assumes "\<And>r. pk (f r) = pk r" "lookup t i = Some r"
  shows "lookup (modify i f t) i = Some (f r)"
  using lookup_modify[of f i t i] assms by simp

lemma lookup_modify_other:
  assumes "\<And>r. pk (f r) = pk r" "i \<noteq> j"
  shows "lookup (modify j f t) i = lookup t i"
  using lookup_modify[of f j t i] assms by simp

lemma lookup_modify_twice:
  assumes "\<And>r. pk (f r) = pk r" "\<And>r. pk (g r) = pk r" "i \<noteq> j" "lookup t i = Some r" "lookup t j = Some s"
  shows "lookup (modify j g (modify i f t)) i = Some (f r) \<and> lookup (modify j g (modify i f t)) j = Some (g s)"
  using assms by (simp add: lookup_modify)

end

lemma repository_table: "repository pk (get_row pk) append_row (set_row pk) (wf_table pk)"
proof
  show "get_row pk t i = Some r \<Longrightarrow> pk r = i" for t i r by (rule get_row_Some[THEN conjunct2])
  show "wf_table pk t \<Longrightarrow> (\<And>i. pk (mk i) = i) \<Longrightarrow>
      get_row pk (append_row mk t) (next_id t) = Some (mk (next_id t))" for t mk
    by (rule get_append_new)
  show "get_row pk t i = Some r \<Longrightarrow> get_row pk (append_row mk t) i = Some r" for t i r mk
    by (rule get_append_old)
  show "(\<And>r. pk (f r) = pk r) \<Longrightarrow> get_row pk (set_row pk j f t) i =
      (if i = j then map_option f (get_row pk t i) else get_row pk t i)" for f j t i
    by (rule get_set_row)
  show "wf_table pk t \<Longrightarrow> (\<And>i. pk (mk i) = i) \<Longrightarrow> wf_table pk (append_row mk t)" for t mk
    by (rule wf_table_append)
  show "wf_table pk t \<Longrightarrow> (\<And>r. pk (f r) = pk r) \<Longrightarrow> wf_table pk (set_row pk j f t)" for t f j
    by (rule wf_table_set)
qed

end
