(* ===== verification/Models.thy ===== *)
theory Models
  imports Complex_Main Tables
begin

text \<open>
  The data model of \<open>src/fleet_management/models\<close> and the exceptions of
  \<open>exceptions.py\<close>: one record per mapped class, one datatype per enumeration,
  the database as the record of its tables, and the insertion of a row under the
  column widths, unique constraints and foreign keys the classes declare.
  An instant is an integer number of microseconds (the resolution of
  \<open>datetime\<close>) since the epoch, in UTC; a Python float is the rational number it
  denotes.
\<close>

type_synonym instant = int

section \<open>Exceptions\<close>

text \<open>
  The domain errors, the \<open>HTTPException\<close> of the web layer (status and detail)
  and the exceptions of the libraries and of Python that cross a component boundary.
\<close>

datatype exn =
    NotFoundError string
  | VehicleNotAvailableError string
  | StationFullError string
  | DependencyUnavailableError string
  | EmailAlreadyRegisteredError string
  | ConsentDeniedError (cd_purpose: string) (cd_reason: string)
  | HTTPException nat string
  | InvalidTokenError
  | PyJWTError
  | TypeError
  | IntegrityError
  | DataError
  | MultipleResultsFound
  | AttributeError
  | IndexError
  | KeyError string
  | ValueError string
  | ValidationError
  | RedisConnectionError
  | RedisTimeoutError
  | RedisResponseError
  | TimeoutError
  | RetryExhaustedError string nat exn
  | AssertionError
  | OSError
  | ZeroDivisionError
  | OverflowError
  | RuntimeError string
  | SystemExit string
  | CalledProcessError
  | KeyboardInterrupt

type_synonym 'a result = "exn + 'a"

definition bind_result :: "'a result \<Rightarrow> ('a \<Rightarrow> 'b result) \<Rightarrow> 'b result" where
  "bind_result m f = (case m of Inl e \<Rightarrow> Inl e | Inr x \<Rightarrow> f x)"

lemma bind_result_simps [simp]:
  "bind_result (Inl e) f = Inl e"
  "bind_result (Inr x) f = f x"
  by (simp_all add: bind_result_def)

lemma bind_result_Inr: "bind_result m f = Inr y \<longleftrightarrow> (\<exists>x. m = Inr x \<and> f x = Inr y)"
  by (cases m) auto

text \<open>\<open>Result.scalar_one_or_none()\<close> of the rows a query returned.\<close>

fun scalar_one_or_none :: "'r list \<Rightarrow> 'r option result" where
  "scalar_one_or_none [] = Inr None"
| "scalar_one_or_none [r] = Inr (Some r)"
| "scalar_one_or_none (_ # _ # _) = Inl MultipleResultsFound"

section \<open>Stations, renters, vehicles, rentals\<close>

record station =
  st_id :: int
  st_address :: string
  st_capacity :: int

record renter =
  rt_id :: int
  rt_full_name :: string
  rt_license_number :: string
  rt_user_id :: "int option"

datatype vehicle_status = AVAILABLE | RENTED | MAINTENANCE

record vehicle =
  v_id :: int
  v_license_plate :: string
  v_model :: string
  v_status :: vehicle_status
  v_station_id :: int

datatype rental_status = ACTIVE | COMPLETED | CANCELLED

record rental =
  r_id :: int
  r_renter_id :: int
  r_vehicle_id :: int
  r_start_station_id :: int
  r_end_station_id :: "int option"
  r_started_at :: instant
  r_ended_at :: "instant option"
  r_status :: rental_status

record telemetry_reading =
  tr_id :: int
  tr_vehicle_id :: int
  tr_recorded_at :: instant
  tr_latitude :: rat
  tr_longitude :: rat
  tr_fuel_level :: rat
  tr_is_locked :: bool

section \<open>Accounts\<close>

datatype user_role = ADMIN | USER

record user =
  u_id :: int
  u_email :: string
  u_hashed_password :: string
  u_full_name :: string
  u_role :: user_role
  u_phone :: "string option"
  u_is_active :: bool
  u_created_at :: instant
  u_anonymized_at :: "instant option"

section \<open>Privacy tables\<close>

datatype consent_purpose = MARKETING_EMAIL | OPTIONAL_ANALYTICS | PERSONALIZATION
datatype consent_status = GRANTED | WITHDRAWN
datatype consent_action = GRANT | REVOKE
datatype marketing_status = QUEUED | SENT | SKIPPED

record user_consent =
  c_id :: int
  c_user_id :: int
  c_purpose :: consent_purpose
  c_status :: consent_status
  c_policy_version :: string
  c_granted_at :: "instant option"
  c_withdrawn_at :: "instant option"
  c_updated_at :: instant
  c_source :: string

record consent_history_row =
  h_id :: int
  h_user_id :: int
  h_purpose :: consent_purpose
  h_action :: consent_action
  h_policy_version :: string
  h_source :: string
  h_occurred_at :: instant

record user_activity_row =
  a_id :: int
  a_user_id :: int
  a_action :: string
  a_occurred_at :: instant
  a_ip_address :: "string option"
  a_user_agent :: "string option"

record audit_event =
  ae_id :: int
  ae_event_type :: string
  ae_actor_id :: "int option"
  ae_subject_id :: "int option"
  ae_result :: string
  ae_correlation_id :: string
  ae_occurred_at :: instant

record marketing_message =
  m_id :: int
  m_user_id :: int
  m_campaign :: string
  m_status :: marketing_status
  m_created_at :: instant
  m_processed_at :: "instant option"

record analytics_event =
  an_id :: int
  an_user_id :: int
  an_event_name :: string
  an_occurred_at :: instant

text \<open>
  A purpose is stored as text, so \<open>ORDER BY purpose\<close> is the alphabetical order
  of the names, which is the order of declaration.
\<close>

definition purpose_value :: "consent_purpose \<Rightarrow> string" where
  "purpose_value p = (case p of MARKETING_EMAIL \<Rightarrow> ''MARKETING_EMAIL''
     | OPTIONAL_ANALYTICS \<Rightarrow> ''OPTIONAL_ANALYTICS'' | PERSONALIZATION \<Rightarrow> ''PERSONALIZATION'')"

instantiation consent_purpose :: linorder
begin

fun purpose_rank :: "consent_purpose \<Rightarrow> nat" where
  "purpose_rank MARKETING_EMAIL = 0"
| "purpose_rank OPTIONAL_ANALYTICS = 1"
| "purpose_rank PERSONALIZATION = 2"

definition less_eq_consent_purpose :: "consent_purpose \<Rightarrow> consent_purpose \<Rightarrow> bool" where
  "less_eq_consent_purpose p q = (purpose_rank p \<le> purpose_rank q)"

definition less_consent_purpose :: "consent_purpose \<Rightarrow> consent_purpose \<Rightarrow> bool" where
  "less_consent_purpose p q = (purpose_rank p < purpose_rank q)"

instance
proof
  fix p q r :: consent_purpose
  show "(p < q) = (p \<le> q \<and> \<not> q \<le> p)" by (auto simp: less_eq_consent_purpose_def less_consent_purpose_def)
  show "p \<le> p" by (simp add: less_eq_consent_purpose_def)
  show "p \<le> q \<Longrightarrow> q \<le> r \<Longrightarrow> p \<le> r" by (simp add: less_eq_consent_purpose_def)
  show "p \<le> q \<Longrightarrow> q \<le> p \<Longrightarrow> p = q" by (cases p; cases q) (auto simp: less_eq_consent_purpose_def)
  show "p \<le> q \<or> q \<le> p" by (auto simp: less_eq_consent_purpose_def)
qed

end

section \<open>The database\<close>

record database =
  stations :: "station table"
  renters :: "renter table"
  vehicles :: "vehicle table"
  rentals :: "rental table"
  telemetry_readings :: "telemetry_reading table"
  users :: "user table"
  user_consents :: "user_consent table"
  consent_history :: "consent_history_row table"
  user_activity :: "user_activity_row table"
  audit_events :: "audit_event table"
  marketing_messages :: "marketing_message table"
  analytics_events :: "analytics_event table"

definition empty_db :: database where
  "empty_db = \<lparr>stations = empty_table, renters = empty_table, vehicles = empty_table,
     rentals = empty_table, telemetry_readings = empty_table, users = empty_table,
     user_consents = empty_table, consent_history = empty_table, user_activity = empty_table,
     audit_events = empty_table, marketing_messages = empty_table, analytics_events = empty_table\<rparr>"

text \<open>
  Flushing one new object: a value wider than its column is a \<open>DataError\<close>, a
  violated unique or foreign-key constraint an \<open>IntegrityError\<close>; both undo the
  insertion. The texts are PostgreSQL's, which hold no NUL character; where a text
  comes from a client, a property says so.
\<close>

definition insert_row :: "('r \<Rightarrow> bool) \<Rightarrow> ('r \<Rightarrow> bool) \<Rightarrow> (int \<Rightarrow> 'r) \<Rightarrow> 'r table \<Rightarrow> 'r result \<times> 'r table" where
  "insert_row fits ok mk t =
     (let r = mk (next_id t) in
      if \<not> fits r then (Inl DataError, burn_id t)
      else if \<not> ok r then (Inl IntegrityError, burn_id t)
      else (Inr r, append_row mk t))"

definition int4 :: "int \<Rightarrow> bool" where
  "int4 n = (- (2 ^ 31) \<le> n \<and> n < 2 ^ 31)"

definition opt_width :: "nat \<Rightarrow> string option \<Rightarrow> bool" where
  "opt_width n s = (case s of None \<Rightarrow> True | Some x \<Rightarrow> length x \<le> n)"

definition station_fits :: "station \<Rightarrow> bool" where
  "station_fits r = (length (st_address r) \<le> 200 \<and> int4 (st_capacity r))"

definition renter_fits :: "renter \<Rightarrow> bool" where
  "renter_fits r = (length (rt_full_name r) \<le> 150 \<and> length (rt_license_number r) \<le> 50)"

definition renter_ok :: "database \<Rightarrow> renter \<Rightarrow> bool" where
  "renter_ok db r =
     (\<not> list_ex (\<lambda>s. rt_license_number s = rt_license_number r) (rows (renters db)) \<and>
      (case rt_user_id r of None \<Rightarrow> True
       | Some u \<Rightarrow> has_id u_id (users db) u \<and> \<not> list_ex (\<lambda>s. rt_user_id s = Some u) (rows (renters db))))"

definition vehicle_fits :: "vehicle \<Rightarrow> bool" where
  "vehicle_fits r = (length (v_license_plate r) \<le> 20 \<and> length (v_model r) \<le> 100)"

definition vehicle_ok :: "database \<Rightarrow> vehicle \<Rightarrow> bool" where
  "vehicle_ok db r =
     (\<not> list_ex (\<lambda>s. v_license_plate s = v_license_plate r) (rows (vehicles db)) \<and>
      has_id st_id (stations db) (v_station_id r))"

definition rental_ok :: "database \<Rightarrow> rental \<Rightarrow> bool" where
  "rental_ok db r =
     (has_id rt_id (renters db) (r_renter_id r) \<and> has_id v_id (vehicles db) (r_vehicle_id r) \<and>
      has_id st_id (stations db) (r_start_station_id r) \<and>
      (case r_end_station_id r of None \<Rightarrow> True | Some s \<Rightarrow> has_id st_id (stations db) s))"

definition user_fits :: "user \<Rightarrow> bool" where
  "user_fits r = (length (u_email r) \<le> 254 \<and> length (u_hashed_password r) \<le> 255 \<and>
     length (u_full_name r) \<le> 150 \<and> opt_width 32 (u_phone r))"

definition user_ok :: "database \<Rightarrow> user \<Rightarrow> bool" where
  "user_ok db r = (\<not> list_ex (\<lambda>s. u_email s = u_email r) (rows (users db)))"

definition consent_fits :: "user_consent \<Rightarrow> bool" where
  "consent_fits r = (length (c_policy_version r) \<le> 20 \<and> length (c_source r) \<le> 50)"

definition consent_ok :: "database \<Rightarrow> user_consent \<Rightarrow> bool" where
  "consent_ok db r =
     (has_id u_id (users db) (c_user_id r) \<and>
      \<not> list_ex (\<lambda>s. c_user_id s = c_user_id r \<and> c_purpose s = c_purpose r) (rows (user_consents db)))"

definition history_fits :: "consent_history_row \<Rightarrow> bool" where
  "history_fits r = (length (h_policy_version r) \<le> 20 \<and> length (h_source r) \<le> 50)"

definition activity_fits :: "user_activity_row \<Rightarrow> bool" where
  "activity_fits r = (length (a_action r) \<le> 64 \<and> opt_width 45 (a_ip_address r) \<and> opt_width 255 (a_user_agent r))"

text \<open>
  The text columns of an audit row. Its two ids are integers of 32 bits: the actor is the key
  of an account, and the subject is one too or was checked by \<open>subject_access\<close>, which fails
  before an id that does not fit gets here.
\<close>

definition audit_fits :: "audit_event \<Rightarrow> bool" where
  "audit_fits r = (length (ae_event_type r) \<le> 64 \<and> length (ae_result r) \<le> 64 \<and> length (ae_correlation_id r) \<le> 64)"

definition message_fits :: "marketing_message \<Rightarrow> bool" where
  "message_fits r = (length (m_campaign r) \<le> 64)"

definition analytics_fits :: "analytics_event \<Rightarrow> bool" where
  "analytics_fits r = (length (an_event_name r) \<le> 64)"

text \<open>The tables with a generated key all provide the repository contract.\<close>

interpretation station_repo: repository st_id "get_row st_id" append_row "set_row st_id" "wf_table st_id"
  by (rule repository_table)

interpretation renter_repo: repository rt_id "get_row rt_id" append_row "set_row rt_id" "wf_table rt_id"
  by (rule repository_table)

interpretation vehicle_repo: repository v_id "get_row v_id" append_row "set_row v_id" "wf_table v_id"
  by (rule repository_table)

interpretation rental_repo: repository r_id "get_row r_id" append_row "set_row r_id" "wf_table r_id"
  by (rule repository_table)

interpretation user_repo: repository u_id "get_row u_id" append_row "set_row u_id" "wf_table u_id"
  by (rule repository_table)

interpretation consent_repo: repository c_id "get_row c_id" append_row "set_row c_id" "wf_table c_id"
  by (rule repository_table)

interpretation message_repo: repository m_id "get_row m_id" append_row "set_row m_id" "wf_table m_id"
  by (rule repository_table)

lemma insert_row_cases:
  obtains (data) "insert_row fits ok mk t = (Inl DataError, burn_id t)" "\<not> fits (mk (next_id t))"
  | (integrity) "insert_row fits ok mk t = (Inl IntegrityError, burn_id t)" "fits (mk (next_id t))" "\<not> ok (mk (next_id t))"
  | (inserted) "insert_row fits ok mk t = (Inr (mk (next_id t)), append_row mk t)" "fits (mk (next_id t))" "ok (mk (next_id t))"
  by (auto simp: insert_row_def Let_def)

lemma insert_row_Inr:
  "insert_row fits ok mk t = (Inr r, t') \<longleftrightarrow>
     fits (mk (next_id t)) \<and> ok (mk (next_id t)) \<and> r = mk (next_id t) \<and> t' = append_row mk t"
  by (auto simp: insert_row_def Let_def)

lemma insert_row_wf:
  assumes "wf_table pk t" "\<And>i. pk (mk i) = i"
  shows "wf_table pk (snd (insert_row fits ok mk t))"
  by (rule insert_row_cases[of fits ok mk t]) (auto simp: assms wf_table_append wf_table_burn)

lemma scalar_unique:
  assumes "distinct (map key xs)"
  shows "scalar_one_or_none (filter (\<lambda>r. key r = k) xs) = Inr (find (\<lambda>r. key r = k) xs)"
  using assms
proof (induction xs)
  case Nil
  show ?case by simp
next
  case (Cons x xs)
  show ?case
  proof (cases "key x = k")
    case True
    then have "filter (\<lambda>r. key r = k) xs = []"
      using Cons.prems by (auto simp: filter_empty_conv image_iff)
    then show ?thesis using True by simp
  next
    case False
    then show ?thesis using Cons by simp
  qed
qed

end
