(* ===== verification/Stations.thy ===== *)
theory Stations
  imports Models
begin

text \<open>
  \<open>services/station_service.py\<close>: a station by id, the vehicles parked at it
  (everything assigned to it that is not rented out) and the free-slot test that
  guards the return of a vehicle.
\<close>

definition get_station :: "database \<Rightarrow> int \<Rightarrow> station result" where
  "get_station db station_id =
     (case get_row st_id (stations db) station_id of
        None \<Rightarrow> Inl (NotFoundError (''Station '' @ str_int station_id @ '' not found''))
      | Some station \<Rightarrow> Inr station)"

definition count_parked_vehicles :: "database \<Rightarrow> int \<Rightarrow> int" where
  "count_parked_vehicles db station_id =
     int (count_rows (\<lambda>v. v_station_id v = station_id \<and> v_status v \<noteq> RENTED) (vehicles db))"

definition has_free_slot :: "database \<Rightarrow> int \<Rightarrow> bool result" where
  "has_free_slot db station_id =
     bind_result (get_station db station_id) (\<lambda>station.
       Inr (count_parked_vehicles db station_id < st_capacity station))"

lemma get_station_Inr: "get_station db s = Inr x \<longleftrightarrow> get_row st_id (stations db) s = Some x"
  by (auto simp: get_station_def split: option.splits)

lemma get_station_Inl: "get_station db s = Inl e \<Longrightarrow> e = NotFoundError (''Station '' @ str_int s @ '' not found'')"
  by (auto simp: get_station_def split: option.splits)

lemma has_free_slot_Inr:
  "has_free_slot db s = Inr b \<longleftrightarrow>
     (\<exists>x. get_row st_id (stations db) s = Some x \<and> b = (count_parked_vehicles db s < st_capacity x))"
  by (auto simp: has_free_slot_def bind_result_Inr get_station_Inr)

section \<open>The contract rentals rely on\<close>

definition station_capacity :: "database \<Rightarrow> int \<Rightarrow> int option" where
  "station_capacity db s = map_option st_capacity (get_row st_id (stations db) s)"

locale parking =
  fixes free :: "'d \<Rightarrow> int \<Rightarrow> bool result"
    and parked :: "'d \<Rightarrow> int \<Rightarrow> int"
    and capacity :: "'d \<Rightarrow> int \<Rightarrow> int option"
  assumes free_True: "free d s = Inr True \<Longrightarrow> \<exists>c. capacity d s = Some c \<and> parked d s < c"
    and free_False: "free d s = Inr False \<Longrightarrow> \<exists>c. capacity d s = Some c \<and> c \<le> parked d s"
    and free_error: "free d s = Inl e \<Longrightarrow> capacity d s = None"
begin

lemma free_known: "capacity d s = Some c \<Longrightarrow> free d s = Inr (parked d s < c)"
proof (cases "free d s")
  case (Inl e)
  then show "capacity d s = Some c \<Longrightarrow> free d s = Inr (parked d s < c)" using free_error by fastforce
next
  case (Inr b)
  then show "capacity d s = Some c \<Longrightarrow> free d s = Inr (parked d s < c)"
    using free_True[of d s] free_False[of d s] by (cases b) auto
qed

text \<open>One arrival after a positive answer does not overfill the station.\<close>

lemma arrival_fits:
  assumes "free d s = Inr True" "parked d' s \<le> parked d s + 1" "capacity d' s = capacity d s"
  shows "\<exists>c. capacity d' s = Some c \<and> parked d' s \<le> c"
  using free_True[OF assms(1)] assms by auto

end

interpretation station_parking: parking has_free_slot count_parked_vehicles station_capacity
proof
  show "has_free_slot d s = Inr True \<Longrightarrow> \<exists>c. station_capacity d s = Some c \<and> count_parked_vehicles d s < c" for d s
    by (auto simp: has_free_slot_Inr station_capacity_def)
  show "has_free_slot d s = Inr False \<Longrightarrow> \<exists>c. station_capacity d s = Some c \<and> c \<le> count_parked_vehicles d s" for d s
    by (auto simp: has_free_slot_Inr station_capacity_def)
  show "has_free_slot d s = Inl e \<Longrightarrow> station_capacity d s = None" for d s e
    by (auto simp: has_free_slot_def bind_result_def get_station_def station_capacity_def split: option.splits)
qed

end
