(* ===== verification/Rentals.thy ===== *)
theory Rentals
  imports Stations
begin

text \<open>
  The stateful part of \<open>services/rental_service.py\<close>. Each operation is a read
  phase (lookups and guards) followed by a commit phase (the flush of the session's
  changes); the phases are separate definitions because requests interleave
  between them, and the operation is their composition. \<open>fleet_ok\<close> is the
  invariant of the fleet tables: keys, references, and that a vehicle is rented
  exactly when one active rental holds it.
\<close>

section \<open>Starting a rental\<close>

definition start_rental_check :: "database \<Rightarrow> int \<Rightarrow> vehicle result" where
  "start_rental_check db vehicle_id =
     (case get_row v_id (vehicles db) vehicle_id of
        None \<Rightarrow> Inl (NotFoundError (''Vehicle '' @ str_int vehicle_id @ '' not found''))
      | Some vehicle \<Rightarrow>
          if v_status vehicle \<noteq> AVAILABLE
          then Inl (VehicleNotAvailableError (''Vehicle '' @ str_int vehicle_id @ '' is not available''))
          else Inr vehicle)"

definition new_rental :: "int \<Rightarrow> vehicle \<Rightarrow> instant \<Rightarrow> int \<Rightarrow> rental" where
  "new_rental renter_id vehicle now i =
     \<lparr>r_id = i, r_renter_id = renter_id, r_vehicle_id = v_id vehicle,
      r_start_station_id = v_station_id vehicle, r_end_station_id = None,
      r_started_at = now, r_ended_at = None, r_status = ACTIVE\<rparr>"

definition start_rental_commit :: "int \<Rightarrow> vehicle \<Rightarrow> instant \<Rightarrow> database \<Rightarrow> rental result \<times> database" where
  "start_rental_commit renter_id vehicle now db =
     (case insert_row (\<lambda>_. True) (rental_ok db) (new_rental renter_id vehicle now) (rentals db) of
        (Inl e, t) \<Rightarrow> (Inl e, db\<lparr>rentals := t\<rparr>)
      | (Inr rental, t) \<Rightarrow>
          (Inr rental,
           db\<lparr>rentals := t,
              vehicles := set_row v_id (v_id vehicle) (\<lambda>v. v\<lparr>v_status := RENTED\<rparr>) (vehicles db)\<rparr>))"

definition start_rental :: "database \<Rightarrow> int \<Rightarrow> int \<Rightarrow> instant \<Rightarrow> rental result \<times> database" where
  "start_rental db renter_id vehicle_id now =
     (case start_rental_check db vehicle_id of
        Inl e \<Rightarrow> (Inl e, db)
      | Inr vehicle \<Rightarrow> start_rental_commit renter_id vehicle now db)"

section \<open>Ending a rental\<close>

definition end_rental_check :: "database \<Rightarrow> int \<Rightarrow> int \<Rightarrow> (rental \<times> vehicle) result" where
  "end_rental_check db rental_id end_station_id =
     (case get_row r_id (rentals db) rental_id of
        None \<Rightarrow> Inl (NotFoundError (''Rental '' @ str_int rental_id @ '' not found''))
      | Some rental \<Rightarrow>
          if r_status rental \<noteq> ACTIVE
          then Inl (VehicleNotAvailableError (''Rental '' @ str_int rental_id @ '' is not active''))
          else bind_result (has_free_slot db end_station_id) (\<lambda>free.
            if \<not> free
            then Inl (StationFullError (''Station '' @ str_int end_station_id @ '' has no free slots''))
            else case get_row v_id (vehicles db) (r_vehicle_id rental) of
                None \<Rightarrow> Inl AttributeError
              | Some vehicle \<Rightarrow> Inr (rental, vehicle)))"

definition completed :: "int \<Rightarrow> instant \<Rightarrow> rental \<Rightarrow> rental" where
  "completed end_station_id now r =
     r\<lparr>r_ended_at := Some now, r_end_station_id := Some end_station_id, r_status := COMPLETED\<rparr>"

definition returned :: "int \<Rightarrow> vehicle \<Rightarrow> vehicle" where
  "returned end_station_id v = v\<lparr>v_status := AVAILABLE, v_station_id := end_station_id\<rparr>"

definition end_rental_commit :: "rental \<Rightarrow> vehicle \<Rightarrow> int \<Rightarrow> instant \<Rightarrow> database \<Rightarrow> rental result \<times> database" where
  "end_rental_commit rental vehicle end_station_id now db =
     (Inr (completed end_station_id now rental),
      db\<lparr>rentals := set_row r_id (r_id rental) (completed end_station_id now) (rentals db),
         vehicles := set_row v_id (v_id vehicle) (returned end_station_id) (vehicles db)\<rparr>)"

definition end_rental :: "database \<Rightarrow> int \<Rightarrow> int \<Rightarrow> instant \<Rightarrow> rental result \<times> database" where
  "end_rental db rental_id end_station_id now =
     (case end_rental_check db rental_id end_station_id of
        Inl e \<Rightarrow> (Inl e, db)
      | Inr (rental, vehicle) \<Rightarrow> end_rental_commit rental vehicle end_station_id now db)"

section \<open>The invariant of the fleet\<close>

definition active_count :: "database \<Rightarrow> int \<Rightarrow> nat" where
  "active_count db vid = count_rows (\<lambda>r. r_vehicle_id r = vid \<and> r_status r = ACTIVE) (rentals db)"

definition keys_ok :: "database \<Rightarrow> bool" where
  "keys_ok db = (wf_table st_id (stations db) \<and> wf_table rt_id (renters db) \<and>
     wf_table v_id (vehicles db) \<and> wf_table r_id (rentals db))"

definition refs_ok :: "database \<Rightarrow> bool" where
  "refs_ok db = (list_all (\<lambda>v. has_id st_id (stations db) (v_station_id v)) (rows (vehicles db)) \<and>
     list_all (rental_ok db) (rows (rentals db)))"

definition active_ok :: "database \<Rightarrow> bool" where
  "active_ok db = list_all (\<lambda>v. active_count db (v_id v) = (if v_status v = RENTED then 1 else 0)) (rows (vehicles db))"

definition rental_lifecycle :: "rental \<Rightarrow> bool" where
  "rental_lifecycle r = (case r_status r of
       ACTIVE \<Rightarrow> r_ended_at r = None \<and> r_end_station_id r = None
     | COMPLETED \<Rightarrow> r_ended_at r \<noteq> None \<and> r_end_station_id r \<noteq> None
     | CANCELLED \<Rightarrow> True)"

definition fleet_ok :: "database \<Rightarrow> bool" where
  "fleet_ok db = (keys_ok db \<and> refs_ok db \<and> active_ok db \<and> list_all rental_lifecycle (rows (rentals db)))"

lemma fleet_ok_empty: "fleet_ok empty_db"
  by (simp add: fleet_ok_def keys_ok_def refs_ok_def active_ok_def empty_db_def wf_table_empty rows_empty)

lemma pk_simps [simp]:
  "r_id (completed s now r) = r_id r" "v_id (returned s v) = v_id v" "r_id (new_rental i v now k) = k"
  "r_vehicle_id (completed s now r) = r_vehicle_id r" "r_status (completed s now r) = COMPLETED"
  "r_renter_id (completed s now r) = r_renter_id r" "r_started_at (completed s now r) = r_started_at r"
  "r_start_station_id (completed s now r) = r_start_station_id r"
  "r_end_station_id (completed s now r) = Some s" "r_ended_at (completed s now r) = Some now"
  "v_status (returned s v) = AVAILABLE" "v_station_id (returned s v) = s"
  "r_status (new_rental i v now k) = ACTIVE" "r_vehicle_id (new_rental i v now k) = v_id v"
  "rental_lifecycle (new_rental i v now k)" "rental_lifecycle (completed s now r)"
  by (simp_all add: completed_def returned_def new_rental_def rental_lifecycle_def)

section \<open>Starting keeps the invariant\<close>

lemma start_rental_check_Inr:
  "start_rental_check db vid = Inr v \<longleftrightarrow> get_row v_id (vehicles db) vid = Some v \<and> v_status v = AVAILABLE"
  by (auto simp: start_rental_check_def split: option.splits)

lemma start_rental_cases:
  obtains (refused) e where "start_rental db rid vid now = (Inl e, db)" "start_rental_check db vid = Inl e"
  | (violated) v where "start_rental db rid vid now = (Inl IntegrityError, db\<lparr>rentals := burn_id (rentals db)\<rparr>)"
      "start_rental_check db vid = Inr v" "\<not> rental_ok db (new_rental rid v now (next_id (rentals db)))"
  | (started) v where
      "start_rental db rid vid now = (Inr (new_rental rid v now (next_id (rentals db))),
         db\<lparr>rentals := append_row (new_rental rid v now) (rentals db),
            vehicles := set_row v_id (v_id v) (\<lambda>v. v\<lparr>v_status := RENTED\<rparr>) (vehicles db)\<rparr>)"
      "start_rental_check db vid = Inr v" "rental_ok db (new_rental rid v now (next_id (rentals db)))"
proof (cases "start_rental_check db vid")
  case (Inl e)
  then show ?thesis using refused by (simp add: start_rental_def)
next
  case (Inr v)
  show ?thesis
    by (rule insert_row_cases[of "\<lambda>_. True" "rental_ok db" "new_rental rid v now" "rentals db"])
       (use Inr violated started in \<open>auto simp: start_rental_def start_rental_commit_def\<close>)
qed

lemma rental_ok_cong [simp]: "rental_ok (db\<lparr>rentals := t\<rparr>) = rental_ok db"
  by (auto simp: rental_ok_def fun_eq_iff split: option.split)

lemma rental_ok_mono:
  assumes "rental_ok db r"
    and "\<And>i. has_id rt_id (renters db) i \<Longrightarrow> has_id rt_id (renters db') i"
    and "\<And>i. has_id v_id (vehicles db) i \<Longrightarrow> has_id v_id (vehicles db') i"
    and "\<And>i. has_id st_id (stations db) i \<Longrightarrow> has_id st_id (stations db') i"
  shows "rental_ok db' r"
  using assms by (auto simp: rental_ok_def split: option.splits)

lemma fleet_ok_burn_rentals: "fleet_ok db \<Longrightarrow> fleet_ok (db\<lparr>rentals := burn_id (rentals db)\<rparr>)"
  by (simp add: fleet_ok_def keys_ok_def refs_ok_def active_ok_def active_count_def count_burn rows_burn
      wf_table_burn)

lemma fleet_ok_started:
  assumes ok: "fleet_ok db" and v: "get_row v_id (vehicles db) vid = Some v" "v_status v = AVAILABLE"
    and r: "rental_ok db (new_rental rid v now (next_id (rentals db)))"
  shows "fleet_ok (db\<lparr>rentals := append_row (new_rental rid v now) (rentals db),
    vehicles := set_row v_id (v_id v) (\<lambda>v. v\<lparr>v_status := RENTED\<rparr>) (vehicles db)\<rparr>)" (is "fleet_ok ?db'")
proof -
  have vin: "v \<in> set (rows (vehicles db))" using get_row_Some[OF v(1)] by simp
  have keys: "keys_ok ?db'" using ok by (simp add: fleet_ok_def keys_ok_def wf_table_append wf_table_set)
  have ro: "rental_ok db x \<Longrightarrow> rental_ok ?db' x" for x by (erule rental_ok_mono) simp_all
  have refs: "refs_ok ?db'"
    using ok r ro by (auto simp: fleet_ok_def refs_ok_def rows_append rows_set list_all_iff)
  have cnt: "active_count ?db' k = active_count db k + (if k = v_id v then 1 else 0)" for k
    by (simp add: active_count_def count_append)
  have "active_count db (v_id v) = 0" using ok vin v(2) by (auto simp: fleet_ok_def active_ok_def list_all_iff)
  then have act: "active_ok ?db'"
    using ok unfolding active_ok_def cnt by (auto simp: fleet_ok_def active_ok_def list_all_iff rows_set)
  have "list_all rental_lifecycle (rows (rentals ?db'))"
    using ok by (simp add: fleet_ok_def rows_append)
  with keys refs act show ?thesis by (simp add: fleet_ok_def)
qed

lemma start_rental_fleet_ok:
  assumes "fleet_ok db"
  shows "fleet_ok (snd (start_rental db rid vid now))"
  by (rule start_rental_cases[of db rid vid now])
     (use assms fleet_ok_burn_rentals fleet_ok_started in \<open>auto simp: start_rental_check_Inr\<close>)

section \<open>Ending keeps the invariant\<close>

lemma end_rental_check_Inr:
  "end_rental_check db rid sid = Inr (r, v) \<longleftrightarrow>
     get_row r_id (rentals db) rid = Some r \<and> r_status r = ACTIVE \<and> has_free_slot db sid = Inr True \<and>
     get_row v_id (vehicles db) (r_vehicle_id r) = Some v"
  by (auto simp: end_rental_check_def bind_result_def split: option.splits if_splits sum.splits)

lemma end_rental_cases:
  obtains (refused) e where "end_rental db rid sid now = (Inl e, db)" "end_rental_check db rid sid = Inl e"
  | (ended) r v where "end_rental_check db rid sid = Inr (r, v)"
      "end_rental db rid sid now = (Inr (completed sid now r),
        db\<lparr>rentals := set_row r_id (r_id r) (completed sid now) (rentals db),
           vehicles := set_row v_id (v_id v) (returned sid) (vehicles db)\<rparr>)"
  by (cases "end_rental_check db rid sid") (auto simp: end_rental_def end_rental_commit_def)

lemma active_count_completed:
  assumes "wf_table r_id (rentals db)" "r \<in> set (rows (rentals db))" "r_status r = ACTIVE"
    "rentals db' = set_row r_id (r_id r) (completed s now) (rentals db)"
  shows "active_count db' k = active_count db k - (if k = r_vehicle_id r then 1 else 0)"
  using count_set_row[OF assms(1,2) refl, of "\<lambda>x. r_vehicle_id x = k \<and> r_status x = ACTIVE" "completed s now"] assms(3,4)
  by (auto simp: active_count_def split: if_splits)

lemma fleet_ok_ended:
  assumes ok: "fleet_ok db" and c: "end_rental_check db rid sid = Inr (r, v)"
  shows "fleet_ok (db\<lparr>rentals := set_row r_id (r_id r) (completed sid now) (rentals db),
    vehicles := set_row v_id (v_id v) (returned sid) (vehicles db)\<rparr>)" (is "fleet_ok ?db'")
proof -
  have r: "r \<in> set (rows (rentals db))" "r_status r = ACTIVE"
    and v: "v \<in> set (rows (vehicles db))" "v_id v = r_vehicle_id r"
    and st: "has_id st_id (stations db) sid"
    using c by (auto simp: end_rental_check_Inr has_free_slot_Inr has_id_iff dest!: get_row_Some)
  have keys: "keys_ok ?db'" using ok by (simp add: fleet_ok_def keys_ok_def wf_table_set)
  have ro: "rental_ok db x \<Longrightarrow> rental_ok ?db' x" for x by (erule rental_ok_mono) simp_all
  have "rental_ok db x \<Longrightarrow> rental_ok db (completed sid now x)" for x using st by (simp add: rental_ok_def)
  then have refs: "refs_ok ?db'"
    using ok st ro by (auto simp: fleet_ok_def refs_ok_def rows_set list_all_iff)
  have cnt: "active_count ?db' k = active_count db k - (if k = r_vehicle_id r then 1 else 0)" for k
    using ok r by (intro active_count_completed[where r = r and s = sid and now = now]) (auto simp: fleet_ok_def keys_ok_def)
  have "active_count db (r_vehicle_id r) \<le> 1"
    using ok v by (auto simp: fleet_ok_def active_ok_def list_all_iff split: if_splits)
  then have act: "active_ok ?db'"
    using ok v(2) unfolding active_ok_def cnt by (auto simp: fleet_ok_def active_ok_def list_all_iff rows_set)
  have "list_all rental_lifecycle (rows (rentals ?db'))"
    using ok by (auto simp: fleet_ok_def rows_set list_all_iff)
  with keys refs act show ?thesis by (simp add: fleet_ok_def)
qed

lemma end_rental_fleet_ok:
  assumes "fleet_ok db"
  shows "fleet_ok (snd (end_rental db rid sid now))"
  by (rule end_rental_cases[of db rid sid now]) (use assms fleet_ok_ended in auto)

text \<open>A foreign key makes the missing-vehicle branch of \<open>end_rental\<close> unreachable.\<close>

lemma end_rental_no_attribute_error:
  assumes "fleet_ok db"
  shows "end_rental_check db rid sid \<noteq> Inl AttributeError"
proof
  assume a: "end_rental_check db rid sid = Inl AttributeError"
  then obtain r where r: "get_row r_id (rentals db) rid = Some r"
    and v: "get_row v_id (vehicles db) (r_vehicle_id r) = None"
    by (auto simp: end_rental_check_def has_free_slot_def bind_result_def get_station_def
        split: option.splits if_splits sum.splits)
  have "rental_ok db r" using assms get_row_Some[OF r] by (auto simp: fleet_ok_def refs_ok_def list_all_iff)
  then show False using v by (simp add: rental_ok_def get_row_has_id)
qed

section \<open>Parking\<close>

lemma parked_after_return:
  assumes "wf_table v_id (vehicles db)" "v \<in> set (rows (vehicles db))"
  shows "count_parked_vehicles (db\<lparr>rentals := t, vehicles := set_row v_id (v_id v) (returned s) (vehicles db)\<rparr>) k
    \<le> count_parked_vehicles db k + (if k = s then 1 else 0)"
  using count_set_row[OF assms refl, of "\<lambda>v. v_station_id v = k \<and> v_status v \<noteq> RENTED" "returned s"]
  by (auto simp: count_parked_vehicles_def split: if_splits)

lemma parked_after_start:
  assumes "wf_table v_id (vehicles db)" "v \<in> set (rows (vehicles db))" "v_status v = AVAILABLE"
  shows "count_parked_vehicles (db\<lparr>rentals := t,
      vehicles := set_row v_id (v_id v) (\<lambda>v. v\<lparr>v_status := RENTED\<rparr>) (vehicles db)\<rparr>) k
    = count_parked_vehicles db k - (if k = v_station_id v then 1 else 0)"
  using count_set_row[OF assms(1,2) refl, of "\<lambda>v. v_station_id v = k \<and> v_status v \<noteq> RENTED" "\<lambda>v. v\<lparr>v_status := RENTED\<rparr>"]
    assms(3)
  by (auto simp: count_parked_vehicles_def split: if_splits)

lemma rental_ok_new:
  assumes "fleet_ok db" "get_row v_id (vehicles db) vid = Some v"
  shows "rental_ok db (new_rental rid v now k) = has_id rt_id (renters db) rid"
proof -
  have "v \<in> set (rows (vehicles db))" using get_row_Some[OF assms(2)] by simp
  then have "has_id v_id (vehicles db) (v_id v)" "has_id st_id (stations db) (v_station_id v)"
    using assms(1) by (auto simp: has_id_iff fleet_ok_def refs_ok_def list_all_iff)
  then show ?thesis by (simp add: rental_ok_def new_rental_def)
qed

text \<open>What a successful start leaves in the tables.\<close>

lemma started_lookup:
  assumes ok: "fleet_ok db" and v: "get_row v_id (vehicles db) vid = Some v"
    and db': "db' = db\<lparr>rentals := append_row (new_rental rid v now) (rentals db),
      vehicles := set_row v_id (v_id v) (\<lambda>v. v\<lparr>v_status := RENTED\<rparr>) (vehicles db)\<rparr>"
  shows "get_row r_id (rentals db') (next_id (rentals db)) = Some (new_rental rid v now (next_id (rentals db)))"
    "get_row v_id (vehicles db') i = (if i = vid then Some (v\<lparr>v_status := RENTED\<rparr>) else get_row v_id (vehicles db) i)"
proof -
  have vid: "v_id v = vid" using get_row_Some[OF v] by simp
  show "get_row r_id (rentals db') (next_id (rentals db)) = Some (new_rental rid v now (next_id (rentals db)))"
    using ok by (simp add: db' fleet_ok_def keys_ok_def rental_repo.lookup_insert)
  show "get_row v_id (vehicles db') i = (if i = vid then Some (v\<lparr>v_status := RENTED\<rparr>) else get_row v_id (vehicles db) i)"
    using v by (simp add: db' vid vehicle_repo.lookup_modify)
qed

lemma ended_lookup:
  assumes c: "end_rental_check db rid sid = Inr (r, v)"
    and db': "db' = db\<lparr>rentals := set_row r_id (r_id r) (completed sid now) (rentals db),
      vehicles := set_row v_id (v_id v) (returned sid) (vehicles db)\<rparr>"
  shows "get_row r_id (rentals db') i = (if i = rid then Some (completed sid now r) else get_row r_id (rentals db) i)"
    "get_row v_id (vehicles db') i = (if i = r_vehicle_id r then Some (returned sid v) else get_row v_id (vehicles db) i)"
proof -
  have r: "get_row r_id (rentals db) rid = Some r" "r_id r = rid"
    and v: "get_row v_id (vehicles db) (r_vehicle_id r) = Some v" "v_id v = r_vehicle_id r"
    using c by (auto simp: end_rental_check_Inr dest: get_row_Some)
  show "get_row r_id (rentals db') i = (if i = rid then Some (completed sid now r) else get_row r_id (rentals db) i)"
    using r by (simp add: db' rental_repo.lookup_modify)
  show "get_row v_id (vehicles db') i = (if i = r_vehicle_id r then Some (returned sid v) else get_row v_id (vehicles db) i)"
    using v by (simp add: db' vehicle_repo.lookup_modify)
qed

section \<open>A small fleet for the witnesses\<close>

definition demo_vehicle :: vehicle where
  "demo_vehicle = \<lparr>v_id = 1, v_license_plate = ''AA0001BB'', v_model = ''Leaf'', v_status = AVAILABLE, v_station_id = 1\<rparr>"

definition demo_db :: database where
  "demo_db = empty_db\<lparr>
     stations := \<lparr>rows = [\<lparr>st_id = 1, st_address = ''Maidan'', st_capacity = 2\<rparr>, \<lparr>st_id = 2, st_address = ''Obolon'', st_capacity = 1\<rparr>], next_id = 3\<rparr>,
     renters := \<lparr>rows = [\<lparr>rt_id = 1, rt_full_name = ''Ann'', rt_license_number = ''L1'', rt_user_id = None\<rparr>,
                        \<lparr>rt_id = 2, rt_full_name = ''Bob'', rt_license_number = ''L2'', rt_user_id = None\<rparr>], next_id = 3\<rparr>,
     vehicles := \<lparr>rows = [demo_vehicle], next_id = 2\<rparr>\<rparr>"

lemmas demo_simps = demo_db_def demo_vehicle_def empty_db_def empty_table_def get_row_def

lemma demo_fleet_ok: "fleet_ok demo_db"
  by (simp add: fleet_ok_def keys_ok_def refs_ok_def active_ok_def active_count_def count_rows_def select_rows_def
      wf_table_def has_id_def demo_simps)

lemma demo_lookup:
  "get_row v_id (vehicles demo_db) 1 = Some demo_vehicle" "v_status demo_vehicle = AVAILABLE" "v_id demo_vehicle = 1"
  "v_station_id demo_vehicle = 1" "has_id rt_id (renters demo_db) 1" "has_id rt_id (renters demo_db) 2"
  "next_id (rentals demo_db) = 1"
  by (simp_all add: has_id_def demo_simps)

definition demo_db1 :: database where
  "demo_db1 = snd (start_rental demo_db 1 1 500)"

lemma demo_start: "start_rental demo_db 1 1 500 = (Inr (new_rental 1 demo_vehicle 500 1), demo_db1)"
  by (simp add: demo_db1_def start_rental_def start_rental_check_def start_rental_commit_def insert_row_def
      Let_def demo_lookup rental_ok_new[OF demo_fleet_ok demo_lookup(1)])

lemma demo_db1_ok: "fleet_ok demo_db1"
  unfolding demo_db1_def by (rule start_rental_fleet_ok[OF demo_fleet_ok])

lemma demo_free: "has_free_slot demo_db1 2 = Inr True"
  by (simp add: demo_db1_def start_rental_def start_rental_check_def start_rental_commit_def insert_row_def
      Let_def demo_lookup rental_ok_new[OF demo_fleet_ok demo_lookup(1)])
     (simp add: has_free_slot_def get_station_def count_parked_vehicles_def count_rows_def select_rows_def
      rows_set demo_simps)

section \<open>Properties\<close>

text \<open>
  C1: \<open>start_rental\<close> on every branch. An unknown vehicle and a vehicle that is not
  available are refused and nothing changes; an unknown renter is caught by the
  foreign key at commit and no row changes; otherwise an active rental is stored
  that starts at the vehicle's station, and that vehicle alone becomes rented.
\<close>

theorem start_rental_spec:
  assumes "fleet_ok db" and "start_rental db renter_id vehicle_id now = (res, db')"
  shows "case get_row v_id (vehicles db) vehicle_id of
      None \<Rightarrow> res = Inl (NotFoundError (''Vehicle '' @ str_int vehicle_id @ '' not found'')) \<and> db' = db
    | Some v \<Rightarrow>
        if v_status v \<noteq> AVAILABLE then
          res = Inl (VehicleNotAvailableError (''Vehicle '' @ str_int vehicle_id @ '' is not available'')) \<and> db' = db
        else if \<not> has_id rt_id (renters db) renter_id then
          res = Inl IntegrityError \<and> vehicles db' = vehicles db \<and> rows (rentals db') = rows (rentals db)
        else \<exists>r. res = Inr r \<and> get_row r_id (rentals db') (r_id r) = Some r \<and>
          rows (rentals db') = rows (rentals db) @ [r] \<and>
          r_status r = ACTIVE \<and> r_renter_id r = renter_id \<and> r_vehicle_id r = vehicle_id \<and>
          r_start_station_id r = v_station_id v \<and> r_started_at r = now \<and> r_ended_at r = None \<and>
          (\<forall>i. get_row v_id (vehicles db') i =
            (if i = vehicle_id then Some (v\<lparr>v_status := RENTED\<rparr>) else get_row v_id (vehicles db) i))"
proof (cases rule: start_rental_cases[of db renter_id vehicle_id now])
  case (refused e)
  then show ?thesis using assms(2) by (auto simp: start_rental_check_def split: option.splits if_splits)
next
  case (violated v)
  then show ?thesis using assms rental_ok_new[OF assms(1)]
    by (auto simp: start_rental_check_Inr rows_burn)
next
  case (started v)
  then have v: "get_row v_id (vehicles db) vehicle_id = Some v" "v_status v = AVAILABLE" "v_id v = vehicle_id"
    by (auto simp: start_rental_check_Inr dest: get_row_Some)
  have "has_id rt_id (renters db) renter_id" using started rental_ok_new[OF assms(1) v(1)] by simp
  moreover have "db' = db\<lparr>rentals := append_row (new_rental renter_id v now) (rentals db),
      vehicles := set_row v_id (v_id v) (\<lambda>v. v\<lparr>v_status := RENTED\<rparr>) (vehicles db)\<rparr>"
    using started assms(2) by simp
  ultimately show ?thesis using started assms(2) v started_lookup[OF assms(1) v(1)]
    by (auto simp: new_rental_def rows_append)
qed

theorem start_rental_spec_witness:
  "\<exists>r db'. start_rental demo_db 1 1 500 = (Inr r, db') \<and> r_vehicle_id r = 1 \<and> r_status r = ACTIVE \<and>
     get_row v_id (vehicles db') 1 = Some (demo_vehicle\<lparr>v_status := RENTED\<rparr>)"
proof -
  obtain res db' where e: "start_rental demo_db 1 1 500 = (res, db')" by (cases "start_rental demo_db 1 1 500")
  show ?thesis using start_rental_spec[OF demo_fleet_ok e] e by (auto simp: demo_lookup)
qed

text \<open>
  C2: a successful \<open>end_rental\<close> never overfills the station: afterwards the
  vehicles parked there are at most its capacity, and at no other station has the
  number of parked vehicles grown. A full station is refused with no change.
\<close>

theorem end_rental_capacity:
  assumes "fleet_ok db" and "end_rental db rental_id end_station_id now = (res, db')"
  shows "case res of
      Inl e \<Rightarrow> db' = db
    | Inr r \<Rightarrow>
        (\<exists>c. station_capacity db' end_station_id = Some c \<and> count_parked_vehicles db' end_station_id \<le> c) \<and>
        (\<forall>s. s \<noteq> end_station_id \<longrightarrow> count_parked_vehicles db' s \<le> count_parked_vehicles db s)"
proof (cases rule: end_rental_cases[of db rental_id end_station_id now])
  case (refused e)
  then show ?thesis using assms(2) by auto
next
  case (ended r v)
  then have v: "v \<in> set (rows (vehicles db))" and free: "has_free_slot db end_station_id = Inr True"
    by (auto simp: end_rental_check_Inr dest: get_row_Some)
  have wf: "wf_table v_id (vehicles db)" using assms(1) by (simp add: fleet_ok_def keys_ok_def)
  have parked: "count_parked_vehicles db' s \<le> count_parked_vehicles db s + (if s = end_station_id then 1 else 0)" for s
    using ended assms(2) parked_after_return[OF wf v] by auto
  have "station_capacity db' end_station_id = station_capacity db end_station_id"
    using ended assms(2) by (auto simp: station_capacity_def)
  then have "\<exists>c. station_capacity db' end_station_id = Some c \<and> count_parked_vehicles db' end_station_id \<le> c"
    using station_parking.arrival_fits[OF free] parked[of end_station_id] by simp
  moreover have "\<forall>s. s \<noteq> end_station_id \<longrightarrow> count_parked_vehicles db' s \<le> count_parked_vehicles db s"
  proof (intro allI impI)
    fix s assume "s \<noteq> end_station_id"
    then show "count_parked_vehicles db' s \<le> count_parked_vehicles db s" using parked[of s] by simp
  qed
  ultimately show ?thesis using ended assms(2) by auto
qed

theorem end_rental_capacity_witness:
  "\<exists>r db'. end_rental demo_db1 1 2 900 = (Inr r, db') \<and>
     (\<exists>c. station_capacity db' 2 = Some c \<and> count_parked_vehicles db' 2 \<le> c)"
proof -
  obtain res db' where e: "end_rental demo_db1 1 2 900 = (res, db')" by (cases "end_rental demo_db1 1 2 900")
  have db1: "demo_db1 = demo_db\<lparr>rentals := append_row (new_rental 1 demo_vehicle 500) (rentals demo_db),
      vehicles := set_row v_id (v_id demo_vehicle) (\<lambda>v. v\<lparr>v_status := RENTED\<rparr>) (vehicles demo_db)\<rparr>"
    using demo_start by (cases rule: start_rental_cases[of demo_db 1 1 500])
      (auto simp: start_rental_check_Inr demo_lookup)
  have "end_rental_check demo_db1 1 2 = Inr (new_rental 1 demo_vehicle 500 1, demo_vehicle\<lparr>v_status := RENTED\<rparr>)"
    using started_lookup[OF demo_fleet_ok demo_lookup(1) db1] demo_free
    by (simp add: end_rental_check_Inr demo_lookup)
  then have "\<exists>r. res = Inr r" using e by (auto simp: end_rental_def end_rental_commit_def)
  then show ?thesis using end_rental_capacity[OF demo_db1_ok e] e by auto
qed

text \<open>
  Renting and returning a vehicle. A started rental can be ended at any
  existing station with a free slot at that moment; then the rental is completed
  with the return time and station, and the vehicle is available at that station.
\<close>

lemma start_end_rental:
  assumes "fleet_ok db" and "start_rental db renter_id vehicle_id t0 = (Inr r, db1)"
    and "has_free_slot db1 station = Inr True"
  shows "\<exists>v db2. end_rental db1 (r_id r) station t1 = (Inr (completed station t1 r), db2) \<and>
    get_row r_id (rentals db2) (r_id r) = Some (completed station t1 r) \<and>
    get_row v_id (vehicles db) vehicle_id = Some v \<and>
    get_row v_id (vehicles db2) vehicle_id = Some (v\<lparr>v_status := AVAILABLE, v_station_id := station\<rparr>) \<and>
    fleet_ok db2"
proof (cases rule: start_rental_cases[of db renter_id vehicle_id t0])
  case (started v)
  then have v: "get_row v_id (vehicles db) vehicle_id = Some v"
    and r: "r = new_rental renter_id v t0 (next_id (rentals db))"
    and db1: "db1 = db\<lparr>rentals := append_row (new_rental renter_id v t0) (rentals db),
      vehicles := set_row v_id (v_id v) (\<lambda>v. v\<lparr>v_status := RENTED\<rparr>) (vehicles db)\<rparr>"
    using assms(2) by (auto simp: start_rental_check_Inr)
  have rv: "r_vehicle_id r = vehicle_id" using get_row_Some[OF v] r by simp
  have look: "get_row r_id (rentals db1) (r_id r) = Some r"
    "get_row v_id (vehicles db1) vehicle_id = Some (v\<lparr>v_status := RENTED\<rparr>)"
    using started_lookup[OF assms(1) v db1] r by auto
  have c: "end_rental_check db1 (r_id r) station = Inr (r, v\<lparr>v_status := RENTED\<rparr>)"
    using look rv assms(3) r by (simp add: end_rental_check_Inr)
  define db2 where "db2 = db1\<lparr>rentals := set_row r_id (r_id r) (completed station t1) (rentals db1),
      vehicles := set_row v_id (v_id (v\<lparr>v_status := RENTED\<rparr>)) (returned station) (vehicles db1)\<rparr>"
  have "fleet_ok db1" using start_rental_fleet_ok[OF assms(1), of renter_id vehicle_id t0] assms(2) by simp
  then have "fleet_ok db2" unfolding db2_def using c by (rule fleet_ok_ended)
  then show ?thesis using c ended_lookup[OF c db2_def] rv v
    by (auto simp: end_rental_def end_rental_commit_def db2_def returned_def)
qed (use assms(2) in auto)

end
