(* ===== verification/RentalRace.thy ===== *)
theory RentalRace
  imports Rentals
begin

text \<open>
  Concurrent calls of \<open>start_rental\<close>. Every request has its own session; its read
  phase (\<open>start_rental_check\<close>, a plain SELECT without a row lock) and its commit
  phase (\<open>start_rental_commit\<close>) are separate steps between which other requests
  run. The step relation is over the shared committed database and the phase of
  every request.
\<close>

datatype phase =
    Requested int int
  | Checked int vehicle
  | Finished "rental result"

record requests =
  shared :: database
  phases :: "nat \<Rightarrow> phase"

inductive request_step :: "requests \<Rightarrow> requests \<Rightarrow> bool" where
  refuse: "phases s i = Requested rid vid \<Longrightarrow> start_rental_check (shared s) vid = Inl e \<Longrightarrow>
     request_step s (s\<lparr>phases := (phases s)(i := Finished (Inl e))\<rparr>)"
| check: "phases s i = Requested rid vid \<Longrightarrow> start_rental_check (shared s) vid = Inr v \<Longrightarrow>
     request_step s (s\<lparr>phases := (phases s)(i := Checked rid v)\<rparr>)"
| commit: "phases s i = Checked rid v \<Longrightarrow> start_rental_commit rid v now (shared s) = (res, db') \<Longrightarrow>
     request_step s (s\<lparr>shared := db', phases := (phases s)(i := Finished res)\<rparr>)"

inductive_cases request_stepE: "request_step s t"

text \<open>
  A commit is safe exactly when what was read still holds: the invariant survives
  if the vehicle is still available when the session commits.
\<close>

lemma commit_fresh_fleet_ok:
  assumes "fleet_ok db" "get_row v_id (vehicles db) (v_id v) = Some v" "v_status v = AVAILABLE"
  shows "fleet_ok (snd (start_rental_commit rid v now db))"
proof -
  have "start_rental_check db (v_id v) = Inr v" using assms by (simp add: start_rental_check_Inr)
  then have "start_rental_commit rid v now db = start_rental db rid (v_id v) now"
    by (simp add: start_rental_def)
  then show ?thesis using start_rental_fleet_ok[OF assms(1)] by simp
qed

text \<open>A request is fresh when the row it read is still the stored one.\<close>

definition fresh :: "requests \<Rightarrow> bool" where
  "fresh s = (\<forall>i rid v. phases s i = Checked rid v \<longrightarrow>
     get_row v_id (vehicles (shared s)) (v_id v) = Some v \<and> v_status v = AVAILABLE)"

text \<open>The steps of a scheduler that holds a lock on what was read: a commit needs every read to be fresh.\<close>

definition locked_step :: "requests \<Rightarrow> requests \<Rightarrow> bool" where
  "locked_step s t = (request_step s t \<and> fresh s)"

interpretation locked: transition_system locked_step "\<lambda>s. fleet_ok (shared s)"
proof
  fix s t assume ok: "fleet_ok (shared s)" and "locked_step s t"
  then have st: "request_step s t" and fr: "fresh s" by (simp_all add: locked_step_def)
  from st show "fleet_ok (shared t)"
  proof (cases rule: request_step.cases)
    case (commit i rid v now res db')
    then have "get_row v_id (vehicles (shared s)) (v_id v) = Some v" "v_status v = AVAILABLE"
      using fr by (auto simp: fresh_def)
    then have "fleet_ok (snd (start_rental_commit rid v now (shared s)))" by (rule commit_fresh_fleet_ok[OF ok])
    then show ?thesis using commit by simp
  qed (use ok in simp_all)
qed

lemma locked_fleet_ok: "locked_step\<^sup>*\<^sup>* s t \<Longrightarrow> fleet_ok (shared s) \<Longrightarrow> fleet_ok (shared t)"
  by (rule locked.reach_inv)

section \<open>Two requests for one vehicle\<close>

definition two_requests :: requests where
  "two_requests = \<lparr>shared = demo_db, phases = (\<lambda>i. if i = 0 then Requested 1 1 else Requested 2 1)\<rparr>"

definition both_checked :: requests where
  "both_checked = \<lparr>shared = demo_db,
     phases = (phases two_requests)(0 := Checked 1 demo_vehicle, 1 := Checked 2 demo_vehicle)\<rparr>"

lemma two_requests_check: "request_step\<^sup>*\<^sup>* two_requests both_checked"
proof -
  define mid where "mid = two_requests\<lparr>phases := (phases two_requests)(0 := Checked 1 demo_vehicle)\<rparr>"
  have c: "start_rental_check demo_db 1 = Inr demo_vehicle" by (simp add: start_rental_check_Inr demo_lookup)
  have "request_step two_requests mid" unfolding mid_def
    by (rule request_step.check[where rid = 1 and vid = 1]) (simp_all add: two_requests_def c)
  moreover have "request_step mid (mid\<lparr>phases := (phases mid)(1 := Checked 2 demo_vehicle)\<rparr>)"
    by (rule request_step.check[where rid = 2 and vid = 1]) (simp_all add: mid_def two_requests_def c)
  moreover have "mid\<lparr>phases := (phases mid)(1 := Checked 2 demo_vehicle)\<rparr> = both_checked"
    by (simp add: mid_def both_checked_def two_requests_def)
  ultimately show ?thesis by (metis converse_rtranclp_into_rtranclp rtranclp.rtrancl_refl)
qed

lemma demo_commit:
  assumes "rid = 1 \<or> rid = 2" "db = demo_db \<or> db = snd (start_rental_commit 1 demo_vehicle 500 demo_db)"
  shows "start_rental_commit rid demo_vehicle now db =
    (Inr (new_rental rid demo_vehicle now (next_id (rentals db))),
     db\<lparr>rentals := append_row (new_rental rid demo_vehicle now) (rentals db),
        vehicles := set_row v_id 1 (\<lambda>v. v\<lparr>v_status := RENTED\<rparr>) (vehicles db)\<rparr>)"
  using assms
  by (auto simp: start_rental_commit_def insert_row_def Let_def rental_ok_def new_rental_def has_id_def rows_set demo_simps)

section \<open>Properties\<close>

text \<open>
  C38: concurrent starts can double-book. From a fleet that satisfies the invariant,
  two requests for the same available vehicle, each reading before the other
  commits, both succeed and leave two active rentals of that vehicle: the read
  takes no row lock, and nothing in the commit checks the status again.
\<close>

theorem start_rental_race:
  "\<exists>t r1 r2. request_step\<^sup>*\<^sup>* two_requests t \<and> fleet_ok (shared two_requests) \<and>
      phases t 0 = Finished (Inr r1) \<and> phases t 1 = Finished (Inr r2) \<and> r_id r1 \<noteq> r_id r2 \<and>
      r_vehicle_id r1 = 1 \<and> r_vehicle_id r2 = 1 \<and> active_count (shared t) 1 = 2"
proof -
  define s1 where "s1 = both_checked\<lparr>shared := snd (start_rental_commit 1 demo_vehicle 500 demo_db),
    phases := (phases both_checked)(0 := Finished (Inr (new_rental 1 demo_vehicle 500 1)))\<rparr>"
  define s2 where "s2 = s1\<lparr>shared := snd (start_rental_commit 2 demo_vehicle 501 (shared s1)),
    phases := (phases s1)(1 := Finished (Inr (new_rental 2 demo_vehicle 501 2)))\<rparr>"
  have c1: "start_rental_commit 1 demo_vehicle 500 demo_db =
      (Inr (new_rental 1 demo_vehicle 500 1), shared s1)"
    using demo_commit[of 1 demo_db 500] by (simp add: s1_def demo_lookup)
  have n1: "next_id (rentals (shared s1)) = 2"
    by (simp add: s1_def demo_commit[of 1 demo_db 500] append_row_def demo_lookup)
  have c2: "start_rental_commit 2 demo_vehicle 501 (shared s1) =
      (Inr (new_rental 2 demo_vehicle 501 2), shared s2)"
    using demo_commit[of 2 "shared s1" 501] n1 by (simp add: s1_def s2_def)
  have "request_step both_checked s1" unfolding s1_def
    by (rule request_step.commit[where rid = 1 and v = demo_vehicle and now = 500])
       (use c1 in \<open>simp_all add: both_checked_def s1_def\<close>)
  moreover have "request_step s1 s2" unfolding s2_def
    by (rule request_step.commit[where rid = 2 and v = demo_vehicle and now = 501])
       (use c2 in \<open>simp_all add: both_checked_def s1_def s2_def\<close>)
  ultimately have reach: "request_step\<^sup>*\<^sup>* two_requests s2"
    using two_requests_check by (meson rtranclp.rtrancl_into_rtrancl)
  have "rentals (shared s2) = append_row (new_rental 2 demo_vehicle 501) (append_row (new_rental 1 demo_vehicle 500) (rentals demo_db))"
    using demo_commit[of 1 demo_db 500] demo_commit[of 2 "shared s1" 501] by (simp add: s1_def s2_def)
  then have act: "active_count (shared s2) 1 = 2"
    by (simp add: active_count_def count_append demo_lookup) (simp add: count_rows_def select_rows_def demo_simps)
  have "phases s2 0 = Finished (Inr (new_rental 1 demo_vehicle 500 1))"
    "phases s2 1 = Finished (Inr (new_rental 2 demo_vehicle 501 2))" by (simp_all add: s2_def s1_def)
  moreover have "fleet_ok (shared two_requests)" by (simp add: two_requests_def demo_fleet_ok)
  moreover have "r_id (new_rental 1 demo_vehicle 500 1) \<noteq> r_id (new_rental 2 demo_vehicle 501 2)"
    "r_vehicle_id (new_rental 1 demo_vehicle 500 1) = 1" "r_vehicle_id (new_rental 2 demo_vehicle 501 2) = 1"
    by (simp_all add: demo_lookup)
  ultimately show ?thesis using reach act by blast
qed

end
