(* ===== verification/ReturnRace.thy ===== *)
theory ReturnRace
  imports RentalRace
begin

text \<open>
  Concurrent calls of \<open>end_rental\<close>, in the style of \<open>RentalRace\<close>: each request reads (the rental, the
  free slots of the station and the vehicle, all without a lock) and commits later. Lemmas: sessions
  whose reads still hold when they commit keep every station within its capacity; two sessions
  that interleave overfill a station.
\<close>

datatype return_phase =
    Return_requested int int
  | Return_checked rental vehicle int
  | Return_finished "rental result"

record returns =
  common :: database
  return_phases :: "nat \<Rightarrow> return_phase"

inductive return_step :: "returns \<Rightarrow> returns \<Rightarrow> bool" where
  refuse: "return_phases s i = Return_requested rental_id station_id \<Longrightarrow> end_rental_check (common s) rental_id station_id = Inl e \<Longrightarrow>
     return_step s (s\<lparr>return_phases := (return_phases s)(i := Return_finished (Inl e))\<rparr>)"
| check: "return_phases s i = Return_requested rental_id station_id \<Longrightarrow> end_rental_check (common s) rental_id station_id = Inr (r, v) \<Longrightarrow>
     return_step s (s\<lparr>return_phases := (return_phases s)(i := Return_checked r v station_id)\<rparr>)"
| commit: "return_phases s i = Return_checked r v station_id \<Longrightarrow> end_rental_commit r v station_id now (common s) = (res, db') \<Longrightarrow>
     return_step s (s\<lparr>common := db', return_phases := (return_phases s)(i := Return_finished res)\<rparr>)"

section \<open>With locks\<close>

definition within_capacity :: "database \<Rightarrow> bool" where
  "within_capacity db = (\<forall>s c. station_capacity db s = Some c \<longrightarrow> count_parked_vehicles db s \<le> c)"

text \<open>What a lock on the rows that were read gives: each check still holds.\<close>

definition reads_hold :: "returns \<Rightarrow> bool" where
  "reads_hold s = (\<forall>i r v station_id. return_phases s i = Return_checked r v station_id \<longrightarrow>
     end_rental_check (common s) (r_id r) station_id = Inr (r, v))"

definition locked_return :: "returns \<Rightarrow> returns \<Rightarrow> bool" where
  "locked_return s t = (return_step s t \<and> reads_hold s)"

lemma end_rental_within:
  assumes "fleet_ok db" "within_capacity db" "end_rental_check db rental_id station_id = Inr (r, v)"
  shows "fleet_ok (snd (end_rental_commit r v station_id now db))" "within_capacity (snd (end_rental_commit r v station_id now db))"
proof -
  let ?db = "snd (end_rental_commit r v station_id now db)"
  have e: "end_rental db rental_id station_id now = end_rental_commit r v station_id now db" using assms(3) by (simp add: end_rental_def)
  show "fleet_ok ?db" using end_rental_fleet_ok[OF assms(1), of rental_id station_id now] e by simp
  have v: "v \<in> set (rows (vehicles db))" and free: "has_free_slot db station_id = Inr True"
    using assms(3) by (auto simp: end_rental_check_Inr dest: get_row_Some)
  have wf: "wf_table v_id (vehicles db)" using assms(1) by (simp add: fleet_ok_def keys_ok_def)
  show "within_capacity ?db"
    unfolding within_capacity_def
  proof (intro allI impI)
    fix s c assume c: "station_capacity ?db s = Some c"
    then have c0: "station_capacity db s = Some c" by (simp add: end_rental_commit_def station_capacity_def)
    have p: "count_parked_vehicles ?db s \<le> count_parked_vehicles db s + (if s = station_id then 1 else 0)"
      using parked_after_return[OF wf v] by (simp add: end_rental_commit_def)
    show "count_parked_vehicles ?db s \<le> c"
    proof (cases "s = station_id")
      case True
      then show ?thesis using station_parking.arrival_fits[OF free, of ?db] c c0 p by fastforce
    next
      case False
      then show ?thesis using assms(2) c0 p by (fastforce simp: within_capacity_def)
    qed
  qed
qed

interpretation locked_returns: transition_system locked_return "\<lambda>s. fleet_ok (common s) \<and> within_capacity (common s)"
proof
  fix s t assume ok: "fleet_ok (common s) \<and> within_capacity (common s)" and "locked_return s t"
  then have st: "return_step s t" and held: "reads_hold s" by (simp_all add: locked_return_def)
  from st show "fleet_ok (common t) \<and> within_capacity (common t)"
  proof (cases rule: return_step.cases)
    case (commit i r v station_id now res db')
    then have "end_rental_check (common s) (r_id r) station_id = Inr (r, v)" using held by (auto simp: reads_hold_def)
    from end_rental_within[OF _ _ this, of now] ok show ?thesis using commit by simp
  qed (use ok in simp_all)
qed

text \<open>Sessions that lock keep every station within its capacity.\<close>

lemma locked_returns_within:
  "locked_return\<^sup>*\<^sup>* s t \<Longrightarrow> fleet_ok (common s) \<Longrightarrow> within_capacity (common s) \<Longrightarrow> within_capacity (common t)"
  using locked_returns.reach_inv by blast

section \<open>Two returns to the last free slot\<close>

definition rented_vehicle :: "int \<Rightarrow> vehicle" where
  "rented_vehicle i = \<lparr>v_id = i, v_license_plate = str_int i, v_model = ''M'', v_status = RENTED, v_station_id = 1\<rparr>"

definition open_rental :: "int \<Rightarrow> rental" where
  "open_rental i = \<lparr>r_id = i, r_renter_id = 1, r_vehicle_id = i, r_start_station_id = 1, r_end_station_id = None,
     r_started_at = 0, r_ended_at = None, r_status = ACTIVE\<rparr>"

definition two_trips_db :: database where
  "two_trips_db = empty_db\<lparr>stations := \<lparr>rows = [\<lparr>st_id = 1, st_address = ''A'', st_capacity = 1\<rparr>], next_id = 2\<rparr>,
     renters := \<lparr>rows = [\<lparr>rt_id = 1, rt_full_name = ''R'', rt_license_number = ''L'', rt_user_id = None\<rparr>], next_id = 2\<rparr>,
     vehicles := \<lparr>rows = [rented_vehicle 1, rented_vehicle 2], next_id = 3\<rparr>,
     rentals := \<lparr>rows = [open_rental 1, open_rental 2], next_id = 3\<rparr>\<rparr>"

definition two_returns :: returns where
  "two_returns = \<lparr>common = two_trips_db, return_phases = (\<lambda>i. if i = 0 then Return_requested 1 1 else Return_requested 2 1)\<rparr>"

lemma two_trips_check:
  "end_rental_check two_trips_db 1 1 = Inr (open_rental 1, rented_vehicle 1)"
  "end_rental_check two_trips_db 2 1 = Inr (open_rental 2, rented_vehicle 2)"
  by code_simp+

lemma two_trips_ok: "fleet_ok two_trips_db" "within_capacity two_trips_db"
proof -
  show "fleet_ok two_trips_db" by code_simp
  show "within_capacity two_trips_db"
    by (auto simp: within_capacity_def two_trips_db_def station_capacity_def count_parked_vehicles_def count_rows_def select_rows_def
        rented_vehicle_def get_row_def split: if_splits)
qed

lemma overfull:
  "let db1 = snd (end_rental_commit (open_rental 1) (rented_vehicle 1) 1 10 two_trips_db);
       db2 = snd (end_rental_commit (open_rental 2) (rented_vehicle 2) 1 11 db1)
   in station_capacity db2 1 = Some 1 \<and> count_parked_vehicles db2 1 = 2"
  by code_simp

definition returned_db1 :: database where
  "returned_db1 = snd (end_rental_commit (open_rental 1) (rented_vehicle 1) 1 10 two_trips_db)"

definition returned_db2 :: database where
  "returned_db2 = snd (end_rental_commit (open_rental 2) (rented_vehicle 2) 1 11 returned_db1)"

text \<open>
  C39: concurrent returns can overfill a station. From a fleet that satisfies the invariant and has every
  station within its capacity, two returns to the last free slot, each reading before the other commits, both
  succeed and leave two vehicles on one slot: nothing in the commit counts again.
\<close>

theorem return_race:
  "\<exists>t r1 r2. return_step\<^sup>*\<^sup>* two_returns t \<and> fleet_ok (common two_returns) \<and> within_capacity (common two_returns) \<and>
     return_phases t 0 = Return_finished (Inr r1) \<and> return_phases t 1 = Return_finished (Inr r2) \<and> r_status r1 = COMPLETED \<and> r_status r2 = COMPLETED \<and>
     station_capacity (common t) 1 = Some 1 \<and> count_parked_vehicles (common t) 1 = 2"
proof -
  let ?r1 = "completed 1 10 (open_rental 1)" and ?r2 = "completed 1 11 (open_rental 2)"
  define s1 where "s1 = two_returns\<lparr>return_phases := (return_phases two_returns)(0 := Return_checked (open_rental 1) (rented_vehicle 1) 1)\<rparr>"
  define s2 where "s2 = s1\<lparr>return_phases := (return_phases s1)(1 := Return_checked (open_rental 2) (rented_vehicle 2) 1)\<rparr>"
  define s3 where "s3 = s2\<lparr>common := returned_db1, return_phases := (return_phases s2)(0 := Return_finished (Inr ?r1))\<rparr>"
  define s4 where "s4 = s3\<lparr>common := returned_db2, return_phases := (return_phases s3)(1 := Return_finished (Inr ?r2))\<rparr>"
  have "return_step two_returns s1" unfolding s1_def
    by (rule return_step.check[where rental_id = 1]) (simp_all add: two_returns_def two_trips_check)
  moreover have "return_step s1 s2" unfolding s2_def
    by (rule return_step.check[where rental_id = 2]) (simp_all add: s1_def two_returns_def two_trips_check)
  moreover have "return_step s2 s3" unfolding s3_def
    by (rule return_step.commit[where r = "open_rental 1" and v = "rented_vehicle 1" and station_id = 1 and now = 10])
       (simp_all add: s2_def s1_def two_returns_def returned_db1_def end_rental_commit_def)
  moreover have "return_step s3 s4" unfolding s4_def
    by (rule return_step.commit[where r = "open_rental 2" and v = "rented_vehicle 2" and station_id = 1 and now = 11])
       (simp_all add: s3_def s2_def s1_def returned_db2_def end_rental_commit_def)
  ultimately have "return_step\<^sup>*\<^sup>* two_returns s4" by (meson r_into_rtranclp rtranclp.rtrancl_into_rtrancl)
  moreover have "return_phases s4 0 = Return_finished (Inr ?r1)" "return_phases s4 1 = Return_finished (Inr ?r2)" "common s4 = returned_db2"
    by (simp_all add: s4_def s3_def)
  moreover have "station_capacity returned_db2 1 = Some 1 \<and> count_parked_vehicles returned_db2 1 = 2"
    using overfull by (simp add: returned_db1_def returned_db2_def Let_def)
  ultimately show ?thesis using two_trips_ok by (intro exI[of _ s4] exI[of _ ?r1] exI[of _ ?r2]) (simp add: two_returns_def)
qed

end
