(* ===== verification/AuditLog.thy ===== *)
theory AuditLog
  imports Models
begin

text \<open>
  \<open>services/audit_service.py\<close>: the audit row staged in the caller's transaction,
  the audit row committed on its own, and the activity row with its truncated user
  agent. \<open>bind_db\<close> sequences two committed operations and stops at the first
  exception.
\<close>

definition bind_db :: "'a result \<times> database \<Rightarrow> ('a \<Rightarrow> database \<Rightarrow> 'b result \<times> database) \<Rightarrow> 'b result \<times> database" where
  "bind_db m f = (case m of (Inl e, db) \<Rightarrow> (Inl e, db) | (Inr x, db) \<Rightarrow> f x db)"

lemma bind_db_simps [simp]:
  "bind_db (Inl e, db) f = (Inl e, db)"
  "bind_db (Inr x, db) f = f x db"
  by (simp_all add: bind_db_def)

lemma bind_db_Inr:
  "bind_db m f = (Inr y, db') \<longleftrightarrow> (\<exists>x db. m = (Inr x, db) \<and> f x db = (Inr y, db'))"
  by (cases m; cases "fst m") auto

definition audit_row :: "string \<Rightarrow> int option \<Rightarrow> int option \<Rightarrow> string \<Rightarrow> string \<Rightarrow> instant \<Rightarrow> int \<Rightarrow> audit_event" where
  "audit_row event_type actor_id subject_id result correlation_id now i =
     \<lparr>ae_id = i, ae_event_type = event_type, ae_actor_id = actor_id, ae_subject_id = subject_id,
      ae_result = result, ae_correlation_id = correlation_id, ae_occurred_at = now\<rparr>"

definition add_audit_event ::
  "string \<Rightarrow> int option \<Rightarrow> int option \<Rightarrow> string \<Rightarrow> string \<Rightarrow> instant \<Rightarrow> database \<Rightarrow> unit result \<times> database" where
  "add_audit_event event_type actor_id subject_id result correlation_id now db =
     (case insert_row audit_fits (\<lambda>_. True)
        (audit_row event_type actor_id subject_id result correlation_id now) (audit_events db) of
        (Inl e, t) \<Rightarrow> (Inl e, db\<lparr>audit_events := t\<rparr>)
      | (Inr _, t) \<Rightarrow> (Inr (), db\<lparr>audit_events := t\<rparr>))"

definition record_audit_event ::
  "string \<Rightarrow> int option \<Rightarrow> int option \<Rightarrow> string \<Rightarrow> string \<Rightarrow> instant \<Rightarrow> database \<Rightarrow> unit result \<times> database" where
  "record_audit_event event_type actor_id subject_id result correlation_id now db =
     add_audit_event event_type actor_id subject_id result correlation_id now db"

definition activity_row :: "int \<Rightarrow> string \<Rightarrow> string option \<Rightarrow> string option \<Rightarrow> instant \<Rightarrow> int \<Rightarrow> user_activity_row" where
  "activity_row user_id action ip_address user_agent now i =
     \<lparr>a_id = i, a_user_id = user_id, a_action = action, a_occurred_at = now, a_ip_address = ip_address,
      a_user_agent = (case user_agent of None \<Rightarrow> None | Some ua \<Rightarrow> if ua = [] then None else Some (take 255 ua))\<rparr>"

definition record_activity ::
  "database \<Rightarrow> int \<Rightarrow> string \<Rightarrow> string option \<Rightarrow> string option \<Rightarrow> instant \<Rightarrow> unit result \<times> database" where
  "record_activity db user_id action ip_address user_agent now =
     (case insert_row activity_fits (\<lambda>r. has_id u_id (users db) (a_user_id r))
        (activity_row user_id action ip_address user_agent now) (user_activity db) of
        (Inl e, t) \<Rightarrow> (Inl e, db\<lparr>user_activity := t\<rparr>)
      | (Inr _, t) \<Rightarrow> (Inr (), db\<lparr>user_activity := t\<rparr>))"

lemma add_audit_event_cases:
  obtains (failed) "add_audit_event et a s r cid now db = (Inl DataError, db\<lparr>audit_events := burn_id (audit_events db)\<rparr>)"
      "\<not> (length et \<le> 64 \<and> length r \<le> 64 \<and> length cid \<le> 64)"
  | (added) "add_audit_event et a s r cid now db =
      (Inr (), db\<lparr>audit_events := append_row (audit_row et a s r cid now) (audit_events db)\<rparr>)"
      "length et \<le> 64" "length r \<le> 64" "length cid \<le> 64"
  by (auto simp: add_audit_event_def insert_row_def Let_def audit_fits_def audit_row_def split: if_splits)

lemma add_audit_event_ok:
  "length et \<le> 64 \<Longrightarrow> length r \<le> 64 \<Longrightarrow> length cid \<le> 64 \<Longrightarrow>
   add_audit_event et a s r cid now db =
     (Inr (), db\<lparr>audit_events := append_row (audit_row et a s r cid now) (audit_events db)\<rparr>)"
  by (rule add_audit_event_cases[where et = et and r = r and cid = cid and a = a and s = s and now = now and db = db]) auto

text \<open>A stored user agent always fits its column.\<close>

lemma activity_row_agent: "opt_width 255 (a_user_agent (activity_row u act ip ua now i))"
  by (simp add: activity_row_def opt_width_def split: option.split)

lemma record_activity_ok:
  assumes "has_id u_id (users db) u" "opt_width 45 host" "length action \<le> 64"
  shows "record_activity db u action host ua now =
    (Inr (), db\<lparr>user_activity := append_row (activity_row u action host ua now) (user_activity db)\<rparr>)"
  using assms activity_row_agent[of u action host ua now "next_id (user_activity db)"]
  by (simp add: record_activity_def insert_row_def Let_def activity_fits_def activity_row_def)

end
