(* ===== verification/Consent.thy ===== *)
theory Consent
  imports AuditLog
begin

text \<open>
  \<open>services/consent_service.py\<close>: the consent rows, the append-only history that
  is the evidence for them, and the policy gate. The abstract specification is the
  replay of the history; \<open>evidence_ok\<close> says that the current rows are its value.
  The locale \<open>consent_gate\<close> is the contract the consent-dependent services rely on.
\<close>

section \<open>The gate\<close>

definition CURRENT_POLICY_VERSION :: string where
  "CURRENT_POLICY_VERSION = ''2026-01''"

definition REASON_GRANTED :: string where "REASON_GRANTED = ''granted''"
definition REASON_MISSING :: string where "REASON_MISSING = ''no_consent_on_record''"
definition REASON_WITHDRAWN :: string where "REASON_WITHDRAWN = ''consent_withdrawn''"
definition REASON_VERSION :: string where "REASON_VERSION = ''policy_version_mismatch''"

record gate_decision =
  gd_allowed :: bool
  gd_reason :: string

definition gd_label :: "gate_decision \<Rightarrow> string" where
  "gd_label d = (if gd_allowed d then ''ALLOW'' else ''DENY'')"

record consent_change =
  cc_consent :: "user_consent option"
  cc_changed :: bool

definition get_current :: "database \<Rightarrow> int \<Rightarrow> consent_purpose \<Rightarrow> user_consent option result" where
  "get_current db user_id purpose =
     scalar_one_or_none (select_rows (\<lambda>c. c_user_id c = user_id \<and> c_purpose c = purpose) (user_consents db))"

definition decide :: "user_consent option \<Rightarrow> string \<Rightarrow> gate_decision" where
  "decide consent required_version =
     (case consent of
        None \<Rightarrow> \<lparr>gd_allowed = False, gd_reason = REASON_MISSING\<rparr>
      | Some c \<Rightarrow>
          if c_status c \<noteq> GRANTED then \<lparr>gd_allowed = False, gd_reason = REASON_WITHDRAWN\<rparr>
          else if c_policy_version c \<noteq> required_version then \<lparr>gd_allowed = False, gd_reason = REASON_VERSION\<rparr>
          else \<lparr>gd_allowed = True, gd_reason = REASON_GRANTED\<rparr>)"

definition gate_check :: "database \<Rightarrow> int \<Rightarrow> consent_purpose \<Rightarrow> string \<Rightarrow> gate_decision result" where
  "gate_check db user_id purpose required_version =
     bind_result (get_current db user_id purpose) (\<lambda>consent. Inr (decide consent required_version))"

section \<open>Granting and revoking\<close>

definition history_row ::
  "int \<Rightarrow> consent_purpose \<Rightarrow> consent_action \<Rightarrow> string \<Rightarrow> string \<Rightarrow> instant \<Rightarrow> int \<Rightarrow> consent_history_row" where
  "history_row user_id purpose action policy_version source now i =
     \<lparr>h_id = i, h_user_id = user_id, h_purpose = purpose, h_action = action,
      h_policy_version = policy_version, h_source = source, h_occurred_at = now\<rparr>"

definition history_ok :: "database \<Rightarrow> consent_history_row \<Rightarrow> bool" where
  "history_ok db h = has_id u_id (users db) (h_user_id h)"

definition new_consent :: "int \<Rightarrow> consent_purpose \<Rightarrow> string \<Rightarrow> string \<Rightarrow> instant \<Rightarrow> int \<Rightarrow> user_consent" where
  "new_consent user_id purpose policy_version source now i =
     \<lparr>c_id = i, c_user_id = user_id, c_purpose = purpose, c_status = GRANTED, c_policy_version = policy_version,
      c_granted_at = Some now, c_withdrawn_at = None, c_updated_at = now, c_source = source\<rparr>"

definition granted :: "string \<Rightarrow> string \<Rightarrow> instant \<Rightarrow> user_consent \<Rightarrow> user_consent" where
  "granted policy_version source now c =
     c\<lparr>c_status := GRANTED, c_policy_version := policy_version, c_granted_at := Some now,
       c_updated_at := now, c_source := source\<rparr>"

definition withdrawn :: "string \<Rightarrow> instant \<Rightarrow> user_consent \<Rightarrow> user_consent" where
  "withdrawn source now c =
     c\<lparr>c_status := WITHDRAWN, c_withdrawn_at := Some now, c_updated_at := now, c_source := source\<rparr>"

text \<open>
  The flush of a session that adds or changes one consent row and adds its history
  row. A failure of either undoes both; only sequences keep what they handed out.
\<close>

definition write_consent ::
  "user_consent result \<times> user_consent table \<Rightarrow> (int \<Rightarrow> consent_history_row) \<Rightarrow> database
     \<Rightarrow> consent_change result \<times> database" where
  "write_consent row hist db =
     (case row of
        (Inl e, t) \<Rightarrow> (Inl e, db\<lparr>user_consents := t\<rparr>)
      | (Inr c, t) \<Rightarrow>
          (case insert_row history_fits (history_ok db) hist (consent_history db) of
             (Inl e, h) \<Rightarrow> (Inl e, db\<lparr>user_consents := (user_consents db)\<lparr>next_id := next_id t\<rparr>, consent_history := h\<rparr>)
           | (Inr _, h) \<Rightarrow>
               (Inr \<lparr>cc_consent = Some c, cc_changed = True\<rparr>, db\<lparr>user_consents := t, consent_history := h\<rparr>)))"

definition change_consent :: "user_consent \<Rightarrow> (user_consent \<Rightarrow> user_consent) \<Rightarrow> database \<Rightarrow> user_consent result \<times> user_consent table" where
  "change_consent c f db =
     (if consent_fits (f c) then (Inr (f c), set_row c_id (c_id c) f (user_consents db))
      else (Inl DataError, user_consents db))"

text \<open>
  \<open>_grant_once\<close>: the row as read from \<open>seen\<close> (the state of the read), the flush
  against \<open>db\<close> (what is committed by then).
\<close>

definition grant_once ::
  "database \<Rightarrow> database \<Rightarrow> int \<Rightarrow> consent_purpose \<Rightarrow> string \<Rightarrow> string \<Rightarrow> instant \<Rightarrow> consent_change result \<times> database" where
  "grant_once seen db user_id purpose policy_version source now =
     (case get_current seen user_id purpose of
        Inl e \<Rightarrow> (Inl e, db)
      | Inr consent \<Rightarrow>
          (case consent of
             Some c \<Rightarrow>
               if c_status c = GRANTED \<and> c_policy_version c = policy_version
               then (Inr \<lparr>cc_consent = Some c, cc_changed = False\<rparr>, db)
               else write_consent (change_consent c (granted policy_version source now) db)
                      (history_row user_id purpose GRANT policy_version source now) db
           | None \<Rightarrow>
               write_consent
                 (insert_row consent_fits (consent_ok db) (new_consent user_id purpose policy_version source now) (user_consents db))
                 (history_row user_id purpose GRANT policy_version source now) db))"

text \<open>\<open>grant\<close>: a constraint violation in the first attempt rolls back and tries once more.\<close>

definition grant_from ::
  "database \<Rightarrow> database \<Rightarrow> int \<Rightarrow> consent_purpose \<Rightarrow> string \<Rightarrow> string \<Rightarrow> instant \<Rightarrow> instant \<Rightarrow> consent_change result \<times> database" where
  "grant_from seen db user_id purpose policy_version source now now' =
     (case grant_once seen db user_id purpose policy_version source now of
        (Inl IntegrityError, db') \<Rightarrow> grant_once db' db' user_id purpose policy_version source now'
      | r \<Rightarrow> r)"

definition grant ::
  "database \<Rightarrow> int \<Rightarrow> consent_purpose \<Rightarrow> string \<Rightarrow> string \<Rightarrow> instant \<Rightarrow> consent_change result \<times> database" where
  "grant db user_id purpose policy_version source now =
     grant_from db db user_id purpose policy_version source now now"

definition revoke ::
  "database \<Rightarrow> int \<Rightarrow> consent_purpose \<Rightarrow> string \<Rightarrow> instant \<Rightarrow> consent_change result \<times> database" where
  "revoke db user_id purpose source now =
     (case get_current db user_id purpose of
        Inl e \<Rightarrow> (Inl e, db)
      | Inr None \<Rightarrow> (Inr \<lparr>cc_consent = None, cc_changed = False\<rparr>, db)
      | Inr (Some c) \<Rightarrow>
          if c_status c = WITHDRAWN then (Inr \<lparr>cc_consent = Some c, cc_changed = False\<rparr>, db)
          else write_consent (change_consent c (withdrawn source now) db)
                 (history_row user_id purpose REVOKE (c_policy_version c) source now) db)"

definition withdraw_all :: "database \<Rightarrow> int \<Rightarrow> string \<Rightarrow> instant \<Rightarrow> nat \<times> database" where
  "withdraw_all db user_id source now =
     (let p = (\<lambda>c. c_user_id c = user_id \<and> c_status c = GRANTED);
          consents = select_rows p (user_consents db)
      in (length consents,
          db\<lparr>user_consents := update_rows p (withdrawn source now) (user_consents db),
             consent_history := fold (\<lambda>c. append_row (history_row user_id (c_purpose c) REVOKE (c_policy_version c) source now))
               consents (consent_history db)\<rparr>))"

definition list_current :: "database \<Rightarrow> int \<Rightarrow> user_consent list" where
  "list_current db user_id = sort_key c_purpose (select_rows (\<lambda>c. c_user_id c = user_id) (user_consents db))"

definition list_history :: "database \<Rightarrow> int \<Rightarrow> consent_history_row list" where
  "list_history db user_id = sort_key h_id (select_rows (\<lambda>h. h_user_id h = user_id) (consent_history db))"

section \<open>Invariant and abstract specification\<close>

definition consent_key :: "user_consent \<Rightarrow> int \<times> consent_purpose" where
  "consent_key c = (c_user_id c, c_purpose c)"

definition consents_ok :: "database \<Rightarrow> bool" where
  "consents_ok db =
     (wf_table u_id (users db) \<and> wf_table c_id (user_consents db) \<and> wf_table h_id (consent_history db) \<and>
      distinct (map consent_key (rows (user_consents db))) \<and>
      list_all (\<lambda>c. has_id u_id (users db) (c_user_id c) \<and> consent_fits c) (rows (user_consents db)))"

text \<open>What the history says: the last action for a user and purpose, with its version.\<close>

fun status_of_action :: "consent_action \<Rightarrow> consent_status" where
  "status_of_action GRANT = GRANTED"
| "status_of_action REVOKE = WITHDRAWN"

type_synonym consent_state = "(int \<times> consent_purpose) \<rightharpoonup> (consent_status \<times> string)"

definition apply_history :: "consent_history_row \<Rightarrow> consent_state \<Rightarrow> consent_state" where
  "apply_history h m = m((h_user_id h, h_purpose h) \<mapsto> (status_of_action (h_action h), h_policy_version h))"

definition replay :: "consent_history_row list \<Rightarrow> consent_state" where
  "replay hs = fold apply_history hs Map.empty"

definition current_state :: "database \<Rightarrow> consent_state" where
  "current_state db = (\<lambda>k. map_option (\<lambda>c. (c_status c, c_policy_version c))
     (find (\<lambda>c. consent_key c = k) (rows (user_consents db))))"

definition evidence_ok :: "database \<Rightarrow> bool" where
  "evidence_ok db = (current_state db = replay (rows (consent_history db)))"

lemma consent_keys [simp]:
  "c_id (granted v s now c) = c_id c" "c_id (withdrawn s now c) = c_id c" "c_id (new_consent u p v s now i) = i"
  "consent_key (granted v s now c) = consent_key c" "consent_key (withdrawn s now c) = consent_key c"
  "consent_key (new_consent u p v s now i) = (u, p)"
  "h_id (history_row u p a v s now i) = i"
  "c_user_id (granted v s now c) = c_user_id c" "c_user_id (withdrawn s now c) = c_user_id c"
  "c_status (granted v s now c) = GRANTED" "c_status (withdrawn s now c) = WITHDRAWN"
  "c_policy_version (granted v s now c) = v" "c_policy_version (withdrawn s now c) = c_policy_version c"
  "c_status (new_consent u p v s now i) = GRANTED" "c_policy_version (new_consent u p v s now i) = v"
  "c_purpose (granted v s now c) = c_purpose c" "c_purpose (withdrawn s now c) = c_purpose c"
  by (simp_all add: granted_def withdrawn_def new_consent_def consent_key_def history_row_def)

lemma replay_append: "replay (hs @ [h]) = apply_history h (replay hs)"
  by (simp add: replay_def)

lemma get_current_ok:
  assumes "consents_ok db"
  shows "get_current db u p = Inr (find (\<lambda>c. consent_key c = (u, p)) (rows (user_consents db)))"
proof -
  have "(\<lambda>c. c_user_id c = u \<and> c_purpose c = p) = (\<lambda>c. consent_key c = (u, p))"
    by (auto simp: consent_key_def fun_eq_iff)
  then show ?thesis using assms scalar_unique[of consent_key]
    by (simp add: get_current_def select_rows_def consents_ok_def)
qed

text \<open>The gate reads the current state: allowed exactly when granted for the required version.\<close>

lemma gate_check_ok:
  assumes "consents_ok db"
  shows "\<exists>d. gate_check db u p v = Inr d \<and> (gd_allowed d \<longleftrightarrow> current_state db (u, p) = Some (GRANTED, v))"
  unfolding gate_check_def get_current_ok[OF assms] current_state_def
  by (cases "find (\<lambda>c. consent_key c = (u, p)) (rows (user_consents db))")
     (auto simp: decide_def split: if_splits)

section \<open>How one change acts on the current state\<close>

lemma current_state_set:
  assumes ok: "consents_ok db" and c: "c \<in> set (rows (user_consents db))"
    and f: "\<And>x. c_id (f x) = c_id x" "\<And>x. consent_key (f x) = consent_key x"
    and db': "user_consents db' = set_row c_id (c_id c) f (user_consents db)"
  shows "current_state db' = (current_state db)(consent_key c \<mapsto> (c_status (f c), c_policy_version (f c)))"
proof
  fix k
  let ?g = "\<lambda>x. if c_id x = c_id c then f x else x"
  let ?find = "find (\<lambda>x. consent_key x = k) (rows (user_consents db))"
  have mapped: "find (\<lambda>x. consent_key x = k) (rows (user_consents db')) = map_option ?g ?find"
    unfolding db' rows_set by (rule find_key_map) (simp add: f)
  show "current_state db' k = ((current_state db)(consent_key c \<mapsto> (c_status (f c), c_policy_version (f c)))) k"
  proof (cases "k = consent_key c")
    case True
    then have "?find = Some c" using ok c by (simp add: consents_ok_def find_key_mem)
    then show ?thesis using mapped True by (simp add: current_state_def)
  next
    case False
    have "?g x = x" if "?find = Some x" for x
      using find_key_Some[OF that] False ok c wf_tableD[of c_id "user_consents db" x c]
      by (auto simp: consents_ok_def)
    then have "map_option ?g ?find = ?find" by (cases ?find) auto
    then show ?thesis using mapped False by (simp add: current_state_def)
  qed
qed

lemma current_state_append:
  assumes "current_state db (consent_key (mk (next_id (user_consents db)))) = None"
    and "user_consents db' = append_row mk (user_consents db)"
  shows "current_state db' = (current_state db)(consent_key (mk (next_id (user_consents db))) \<mapsto>
    (c_status (mk (next_id (user_consents db))), c_policy_version (mk (next_id (user_consents db)))))"
  using assms find_key_append_new[of consent_key "mk (next_id (user_consents db))" "rows (user_consents db)"]
  by (auto simp: current_state_def rows_append fun_eq_iff)

text \<open>One recorded change: exactly one history row, and the state it describes.\<close>

definition consent_step :: "database \<Rightarrow> database \<Rightarrow> int \<Rightarrow> consent_purpose \<Rightarrow> consent_action \<Rightarrow> string \<Rightarrow> bool" where
  "consent_step db db' u p a v \<longleftrightarrow>
     (\<exists>t h row. db' = db\<lparr>user_consents := t, consent_history := h\<rparr> \<and> consents_ok db' \<and>
        current_state db' = (current_state db)((u, p) \<mapsto> (status_of_action a, v)) \<and>
        rows h = rows (consent_history db) @ [row] \<and>
        h_user_id row = u \<and> h_purpose row = p \<and> h_action row = a \<and> h_policy_version row = v)"

text \<open>A refused change: the rows are what they were.\<close>

definition consent_refused :: "database \<Rightarrow> database \<Rightarrow> bool" where
  "consent_refused db db' \<longleftrightarrow>
     (\<exists>t h. db' = db\<lparr>user_consents := t, consent_history := h\<rparr> \<and> consents_ok db' \<and>
        rows t = rows (user_consents db) \<and> rows h = rows (consent_history db))"

lemma consent_refused_state: "consent_refused db db' \<Longrightarrow> current_state db' = current_state db"
  by (auto simp: consent_refused_def current_state_def)

lemma consent_refused_ok: "consent_refused db db' \<Longrightarrow> consents_ok db'"
  by (auto simp: consent_refused_def)

lemma consent_step_ok: "consent_step db db' u p a v \<Longrightarrow> consents_ok db'"
  by (auto simp: consent_step_def)

lemma consent_step_state:
  "consent_step db db' u p a v \<Longrightarrow> current_state db' = (current_state db)((u, p) \<mapsto> (status_of_action a, v))"
  by (auto simp: consent_step_def)

lemma consent_step_users: "consent_step db db' u p a v \<Longrightarrow> users db' = users db"
  by (auto simp: consent_step_def)

lemma consent_refused_users: "consent_refused db db' \<Longrightarrow> users db' = users db"
  by (auto simp: consent_refused_def)

lemma consent_step_evidence:
  assumes "evidence_ok db" "consent_step db db' u p a v"
  shows "evidence_ok db'"
proof -
  obtain t h row where db': "db' = db\<lparr>user_consents := t, consent_history := h\<rparr>"
    and st: "current_state db' = (current_state db)((u, p) \<mapsto> (status_of_action a, v))"
    and h: "rows h = rows (consent_history db) @ [row]"
    and row: "h_user_id row = u" "h_purpose row = p" "h_action row = a" "h_policy_version row = v"
    using assms(2) unfolding consent_step_def by blast
  have "replay (rows (consent_history db')) = apply_history row (replay (rows (consent_history db)))"
    using h db' by (simp add: replay_append)
  then show ?thesis using assms(1) st row by (simp add: evidence_ok_def apply_history_def)
qed

lemma consent_refused_evidence: "evidence_ok db \<Longrightarrow> consent_refused db db' \<Longrightarrow> evidence_ok db'"
  by (auto simp: evidence_ok_def consent_refused_def current_state_def)

lemma consents_ok_update:
  assumes ok: "consents_ok db"
    and t: "wf_table c_id t" "distinct (map consent_key (rows t))"
      "\<And>c. c \<in> set (rows t) \<Longrightarrow> has_id u_id (users db) (c_user_id c) \<and> consent_fits c"
    and h: "wf_table h_id h"
  shows "consents_ok (db\<lparr>user_consents := t, consent_history := h\<rparr>)"
  using assms by (simp add: consents_ok_def list_all_iff)

lemma refused_burn:
  assumes "consents_ok db"
    "t = user_consents db \<or> t = burn_id (user_consents db)" "h = consent_history db \<or> h = burn_id (consent_history db)"
  shows "consent_refused db (db\<lparr>user_consents := t, consent_history := h\<rparr>)"
  unfolding consent_refused_def using assms
  by (intro exI[of _ t] exI[of _ h] conjI refl consents_ok_update)
     (auto simp: consents_ok_def wf_table_burn rows_burn list_all_iff)

lemma change_consents_ok:
  assumes ok: "consents_ok db" and c: "c \<in> set (rows (user_consents db))"
    and f: "\<And>x. c_id (f x) = c_id x" "\<And>x. consent_key (f x) = consent_key x" and fits: "consent_fits (f c)"
    and h: "wf_table h_id h"
  shows "consents_ok (db\<lparr>user_consents := set_row c_id (c_id c) f (user_consents db), consent_history := h\<rparr>)"
proof (rule consents_ok_update[OF ok _ _ _ h])
  have key: "consent_key (if c_id x = c_id c then f x else x) = consent_key x" for x by (simp add: f)
  show "wf_table c_id (set_row c_id (c_id c) f (user_consents db))"
    using ok f by (simp add: consents_ok_def wf_table_set)
  show "distinct (map consent_key (rows (set_row c_id (c_id c) f (user_consents db))))"
    using ok key by (simp add: consents_ok_def rows_set o_def)
  fix y assume "y \<in> set (rows (set_row c_id (c_id c) f (user_consents db)))"
  then obtain x where x: "x \<in> set (rows (user_consents db))" "y = (if c_id x = c_id c then f x else x)"
    by (auto simp: rows_set)
  moreover have "c_id x = c_id c \<Longrightarrow> x = c" using ok x c wf_tableD by (auto simp: consents_ok_def)
  moreover have "c_user_id (f c) = c_user_id c" using f(2)[of c] by (simp add: consent_key_def)
  ultimately show "has_id u_id (users db) (c_user_id y) \<and> consent_fits y"
    using ok fits by (auto simp: consents_ok_def list_all_iff)
qed

text \<open>Changing a stored row: recorded, or refused because a value does not fit.\<close>

lemma write_change:
  assumes ok: "consents_ok db" and c: "c \<in> set (rows (user_consents db))" "consent_key c = (u, p)"
    and f: "\<And>x. c_id (f x) = c_id x" "\<And>x. consent_key (f x) = consent_key x"
      "c_status (f c) = status_of_action a" "c_policy_version (f c) = v"
    and fits: "consent_fits (f c) \<longleftrightarrow> length v \<le> 20 \<and> length s \<le> 50"
  shows "case write_consent (change_consent c f db) (history_row u p a v s now) db of
      (Inr ch, db') \<Rightarrow> ch = \<lparr>cc_consent = Some (f c), cc_changed = True\<rparr> \<and> consent_step db db' u p a v
    | (Inl e, db') \<Rightarrow> e = DataError \<and> consent_refused db db' \<and> \<not> (length v \<le> 20 \<and> length s \<le> 50)"
proof (cases "consent_fits (f c)")
  case False
  then have "write_consent (change_consent c f db) (history_row u p a v s now) db = (Inl DataError, db)"
    by (simp add: change_consent_def write_consent_def)
  moreover have "consent_refused db db" using refused_burn[OF ok, of "user_consents db" "consent_history db"] by simp
  ultimately show ?thesis using False fits by simp
next
  case True
  have "has_id u_id (users db) u" using ok c by (auto simp: consents_ok_def list_all_iff consent_key_def)
  then have w: "write_consent (change_consent c f db) (history_row u p a v s now) db =
      (Inr \<lparr>cc_consent = Some (f c), cc_changed = True\<rparr>,
       db\<lparr>user_consents := set_row c_id (c_id c) f (user_consents db),
          consent_history := append_row (history_row u p a v s now) (consent_history db)\<rparr>)"
    using True fits by (simp add: change_consent_def write_consent_def insert_row_def Let_def history_fits_def
        history_ok_def history_row_def)
  have "wf_table h_id (append_row (history_row u p a v s now) (consent_history db))"
    using ok by (simp add: consents_ok_def wf_table_append)
  note ok' = change_consents_ok[OF ok c(1) f(1,2) True this]
  have "consent_step db (db\<lparr>user_consents := set_row c_id (c_id c) f (user_consents db),
      consent_history := append_row (history_row u p a v s now) (consent_history db)\<rparr>) u p a v" (is "consent_step db ?db' u p a v")
    unfolding consent_step_def
    using ok' current_state_set[OF ok c(1) f(1,2), of ?db'] c(2) f(3,4)
    by (intro exI[of _ "user_consents ?db'"] exI[of _ "consent_history ?db'"]
        exI[of _ "history_row u p a v s now (next_id (consent_history db))"])
       (simp add: rows_append history_row_def)
  then show ?thesis using w by simp
qed

text \<open>Adding the first row of a user and purpose.\<close>

lemma write_new:
  assumes ok: "consents_ok db" and none: "current_state db (u, p) = None"
  shows "case write_consent
        (insert_row consent_fits (consent_ok db) (new_consent u p v s now) (user_consents db))
        (history_row u p GRANT v s now) db of
      (Inr ch, db') \<Rightarrow> cc_changed ch \<and> cc_consent ch \<noteq> None \<and> consent_step db db' u p GRANT v
    | (Inl e, db') \<Rightarrow> consent_refused db db' \<and> \<not> (has_id u_id (users db) u \<and> length v \<le> 20 \<and> length s \<le> 50)"
proof -
  let ?mk = "new_consent u p v s now" and ?h = "history_row u p GRANT v s now"
  have fits: "consent_fits (?mk i) \<longleftrightarrow> length v \<le> 20 \<and> length s \<le> 50"
    "history_fits (?h i) \<longleftrightarrow> length v \<le> 20 \<and> length s \<le> 50" for i
    by (simp_all add: consent_fits_def new_consent_def history_fits_def history_row_def)
  have nokey: "c \<in> set (rows (user_consents db)) \<Longrightarrow> consent_key c \<noteq> (u, p)" for c
    using none by (auto simp: current_state_def find_None_iff)
  then have newkey: "(u, p) \<notin> consent_key ` set (rows (user_consents db))" by force
  have cok: "consent_ok db (?mk i) \<longleftrightarrow> has_id u_id (users db) u" for i
    using nokey by (auto simp: consent_ok_def new_consent_def list_ex_iff consent_key_def)
  show ?thesis
  proof (cases rule: insert_row_cases[of consent_fits "consent_ok db" ?mk "user_consents db"])
    case data
    then show ?thesis using fits refused_burn[OF ok, of "burn_id (user_consents db)" "consent_history db"]
      by (simp add: write_consent_def)
  next
    case integrity
    then show ?thesis using cok refused_burn[OF ok, of "burn_id (user_consents db)" "consent_history db"]
      by (simp add: write_consent_def)
  next
    case inserted
    then have u: "has_id u_id (users db) u" and l: "length v \<le> 20" "length s \<le> 50" using fits cok by auto
    let ?db' = "db\<lparr>user_consents := append_row ?mk (user_consents db), consent_history := append_row ?h (consent_history db)\<rparr>"
    have w: "write_consent (insert_row consent_fits (consent_ok db) ?mk (user_consents db)) ?h db =
        (Inr \<lparr>cc_consent = Some (?mk (next_id (user_consents db))), cc_changed = True\<rparr>, ?db')"
      using inserted u l fits by (simp add: write_consent_def insert_row_def Let_def history_ok_def history_row_def)
    have "consents_ok ?db'"
    proof (rule consents_ok_update[OF ok])
      show "wf_table c_id (append_row ?mk (user_consents db))" using ok by (simp add: consents_ok_def wf_table_append)
      show "distinct (map consent_key (rows (append_row ?mk (user_consents db))))"
        using ok newkey by (simp add: consents_ok_def rows_append)
      show "wf_table h_id (append_row ?h (consent_history db))" using ok by (simp add: consents_ok_def wf_table_append)
      fix c assume "c \<in> set (rows (append_row ?mk (user_consents db)))"
      then show "has_id u_id (users db) (c_user_id c) \<and> consent_fits c"
        using ok u fits l by (auto simp: rows_append consents_ok_def list_all_iff new_consent_def)
    qed
    moreover have "current_state ?db' = (current_state db)((u, p) \<mapsto> (GRANTED, v))"
      using current_state_append[of db ?mk ?db'] none by simp
    ultimately have "consent_step db ?db' u p GRANT v" unfolding consent_step_def
      by (intro exI[of _ "user_consents ?db'"] exI[of _ "consent_history ?db'"] exI[of _ "?h (next_id (consent_history db))"])
         (simp add: rows_append history_row_def)
    then show ?thesis using w by simp
  qed
qed

section \<open>Outcomes of the operations\<close>

lemma current_state_find:
  "current_state db (u, p) = None \<longleftrightarrow> find (\<lambda>c. consent_key c = (u, p)) (rows (user_consents db)) = None"
  "find (\<lambda>c. consent_key c = (u, p)) (rows (user_consents db)) = Some c \<Longrightarrow>
     current_state db (u, p) = Some (c_status c, c_policy_version c)"
  by (simp_all add: current_state_def)

lemma refused_then_step:
  assumes "consent_refused db db1" "consent_step db1 db2 u p a v"
  shows "consent_step db db2 u p a v"
proof -
  obtain t1 h1 where 1: "db1 = db\<lparr>user_consents := t1, consent_history := h1\<rparr>" "rows t1 = rows (user_consents db)"
    "rows h1 = rows (consent_history db)" using assms(1) by (auto simp: consent_refused_def)
  obtain t2 h2 row where 2: "db2 = db1\<lparr>user_consents := t2, consent_history := h2\<rparr>" "consents_ok db2"
    "current_state db2 = (current_state db1)((u, p) \<mapsto> (status_of_action a, v))"
    "rows h2 = rows (consent_history db1) @ [row]" "h_user_id row = u" "h_purpose row = p" "h_action row = a"
    "h_policy_version row = v" using assms(2) unfolding consent_step_def by blast
  have "db2 = db\<lparr>user_consents := t2, consent_history := h2\<rparr>" using 1 2 by simp
  moreover have "current_state db1 = current_state db" using assms(1) by (rule consent_refused_state)
  ultimately show ?thesis unfolding consent_step_def using 1 2 by (intro exI[of _ t2] exI[of _ h2] exI[of _ row]) simp
qed

lemma grant_once_outcome:
  assumes ok: "consents_ok db"
  shows "case grant_once db db u p v s now of
      (Inr ch, db') \<Rightarrow> cc_consent ch \<noteq> None \<and>
        (if cc_changed ch then consent_step db db' u p GRANT v \<and> current_state db (u, p) \<noteq> Some (GRANTED, v)
         else db' = db \<and> current_state db (u, p) = Some (GRANTED, v))
    | (Inl e, db') \<Rightarrow> consent_refused db db' \<and> \<not> (has_id u_id (users db) u \<and> length v \<le> 20 \<and> length s \<le> 50)"
proof (cases "find (\<lambda>c. consent_key c = (u, p)) (rows (user_consents db))")
  case None
  then have "current_state db (u, p) = None" by (simp add: current_state_find)
  then show ?thesis using write_new[OF ok, where u = u and p = p and v = v and s = s and now = now] None
    by (simp add: grant_once_def get_current_ok[OF ok] split: prod.splits sum.splits)
next
  case (Some c)
  note c = find_key_Some[OF Some]
  show ?thesis
  proof (cases "c_status c = GRANTED \<and> c_policy_version c = v")
    case True
    then show ?thesis using Some current_state_find(2)[OF Some] by (simp add: grant_once_def get_current_ok[OF ok])
  next
    case False
    then have g: "grant_once db db u p v s now =
        write_consent (change_consent c (granted v s now) db) (history_row u p GRANT v s now) db"
      using Some by (auto simp: grant_once_def get_current_ok[OF ok])
    have "consent_fits (granted v s now c) \<longleftrightarrow> length v \<le> 20 \<and> length s \<le> 50"
      by (simp add: consent_fits_def granted_def)
    then show ?thesis unfolding g
      using write_change[OF ok, where c = c and u = u and p = p and f = "granted v s now" and a = GRANT and v = v and s = s and now = now] c False current_state_find(2)[OF Some]
      by (auto split: prod.splits sum.splits)
  qed
qed

lemma grant_outcome:
  assumes ok: "consents_ok db"
  shows "case grant db u p v s now of
      (Inr ch, db') \<Rightarrow> cc_consent ch \<noteq> None \<and>
        (if cc_changed ch then consent_step db db' u p GRANT v \<and> current_state db (u, p) \<noteq> Some (GRANTED, v)
         else db' = db \<and> current_state db (u, p) = Some (GRANTED, v))
    | (Inl e, db') \<Rightarrow> consent_refused db db' \<and> \<not> (has_id u_id (users db) u \<and> length v \<le> 20 \<and> length s \<le> 50)"
proof (cases "\<exists>db1. grant_once db db u p v s now = (Inl IntegrityError, db1)")
  case False
  then have "grant db u p v s now = grant_once db db u p v s now"
    by (auto simp: grant_def grant_from_def split: prod.splits sum.splits exn.splits)
  then show ?thesis using grant_once_outcome[OF ok, where u = u and p = p and v = v and s = s and now = now] by simp
next
  case True
  then obtain db1 where one: "grant_once db db u p v s now = (Inl IntegrityError, db1)" by blast
  then have r: "consent_refused db db1" and bad: "\<not> (has_id u_id (users db) u \<and> length v \<le> 20 \<and> length s \<le> 50)"
    using grant_once_outcome[OF ok, where u = u and p = p and v = v and s = s and now = now] by simp_all
  have ok1: "consents_ok db1" using r by (rule consent_refused_ok)
  have g: "grant db u p v s now = grant_once db1 db1 u p v s now" using one by (simp add: grant_def grant_from_def)
  have st: "current_state db1 = current_state db" using r by (rule consent_refused_state)
  obtain res db2 where two: "grant_once db1 db1 u p v s now = (res, db2)" by (cases "grant_once db1 db1 u p v s now")
  show ?thesis
  proof (cases res)
    case (Inl e)
    then have "consent_refused db1 db2" using grant_once_outcome[OF ok1, where u = u and p = p and v = v and s = s and now = now] two by simp
    then have "consent_refused db db2" using r by (force simp: consent_refused_def)
    then show ?thesis using g two Inl bad by simp
  next
    case (Inr ch)
    have "current_state db (u, p) \<noteq> Some (GRANTED, v)"
      using grant_once_outcome[OF ok, where u = u and p = p and v = v and s = s and now = now] one ok
      by (auto simp: grant_once_def get_current_ok current_state_def write_consent_def split: option.splits if_splits)
    then have "consent_step db1 db2 u p GRANT v"
      using grant_once_outcome[OF ok1, where u = u and p = p and v = v and s = s and now = now] two Inr st by (auto split: if_splits)
    then have "consent_step db db2 u p GRANT v" using r by (rule refused_then_step[rotated])
    moreover have "cc_changed ch" "cc_consent ch \<noteq> None"
      using grant_once_outcome[OF ok1, where u = u and p = p and v = v and s = s and now = now] two Inr st
        \<open>current_state db (u, p) \<noteq> Some (GRANTED, v)\<close> by (auto split: if_splits)
    ultimately show ?thesis using g two Inr \<open>current_state db (u, p) \<noteq> Some (GRANTED, v)\<close> by simp
  qed
qed

lemma revoke_outcome:
  assumes ok: "consents_ok db"
  shows "case revoke db u p s now of
      (Inr ch, db') \<Rightarrow>
        (if cc_changed ch then (\<exists>v. current_state db (u, p) = Some (GRANTED, v) \<and> consent_step db db' u p REVOKE v)
         else db' = db \<and> (\<forall>v. current_state db (u, p) \<noteq> Some (GRANTED, v)))
    | (Inl e, db') \<Rightarrow> consent_refused db db' \<and> length s > 50"
proof (cases "find (\<lambda>c. consent_key c = (u, p)) (rows (user_consents db))")
  case None
  then show ?thesis by (simp add: revoke_def get_current_ok[OF ok] current_state_find(1)[THEN iffD2])
next
  case (Some c)
  note c = find_key_Some[OF Some] and cs = current_state_find(2)[OF Some]
  show ?thesis
  proof (cases "c_status c = WITHDRAWN")
    case True
    then show ?thesis using Some cs by (simp add: revoke_def get_current_ok[OF ok])
  next
    case False
    then have gr: "c_status c = GRANTED" by (cases "c_status c") auto
    have r: "revoke db u p s now = write_consent (change_consent c (withdrawn s now) db)
        (history_row u p REVOKE (c_policy_version c) s now) db"
      using Some False by (simp add: revoke_def get_current_ok[OF ok])
    have "consent_fits c" using ok c by (auto simp: consents_ok_def list_all_iff)
    then have "consent_fits (withdrawn s now c) \<longleftrightarrow> length (c_policy_version c) \<le> 20 \<and> length s \<le> 50"
      by (simp add: consent_fits_def withdrawn_def)
    then show ?thesis unfolding r
      using write_change[OF ok, where c = c and u = u and p = p and f = "withdrawn s now" and a = REVOKE
        and v = "c_policy_version c" and s = s and now = now] c gr cs \<open>consent_fits c\<close>
      by (auto simp: consent_fits_def split: prod.splits sum.splits)
  qed
qed

section \<open>Withdrawing everything\<close>

lemma fold_map_upd:
  "distinct (map k cs) \<Longrightarrow> fold (\<lambda>c m. m(k c \<mapsto> v c)) cs m x =
     (case find (\<lambda>c. k c = x) cs of None \<Rightarrow> m x | Some c \<Rightarrow> Some (v c))"
proof (induction cs arbitrary: m)
  case Nil
  then show ?case by simp
next
  case (Cons c cs)
  show ?case
  proof (cases "k c = x")
    case True
    then have "find (\<lambda>c. k c = x) cs = None" using Cons.prems by (auto simp: find_None_iff image_iff)
    then show ?thesis using Cons True by simp
  next
    case False
    then show ?thesis using Cons by (simp split: option.splits)
  qed
qed

lemma find_filter_key:
  assumes "distinct (map key xs)"
  shows "find (\<lambda>c. key c = k) (filter P xs) =
    (case find (\<lambda>c. key c = k) xs of None \<Rightarrow> None | Some c \<Rightarrow> if P c then Some c else None)"
  using assms
proof (induction xs)
  case Nil
  then show ?case by simp
next
  case (Cons x xs)
  show ?case
  proof (cases "key x = k")
    case True
    then have "find (\<lambda>c. key c = k) xs = None" using Cons.prems by (auto simp: find_None_iff image_iff)
    then show ?thesis using Cons True by simp
  next
    case False
    then show ?thesis using Cons by (simp split: option.splits)
  qed
qed

lemma replay_fold_append:
  "replay (rows (fold (\<lambda>c. append_row (history_row u (c_purpose c) REVOKE (c_policy_version c) s now)) cs t)) =
     fold (\<lambda>c m. m((u, c_purpose c) \<mapsto> (WITHDRAWN, c_policy_version c))) cs (replay (rows t))"
proof (induction cs arbitrary: t)
  case Nil
  then show ?case by simp
next
  case (Cons c cs)
  then show ?case by (simp add: rows_append replay_append apply_history_def history_row_def)
qed

lemma wf_fold_append:
  assumes "wf_table pk t" "\<And>c i. pk (mk c i) = i"
  shows "wf_table pk (fold (\<lambda>c. append_row (mk c)) cs t)"
  using assms(1) by (induction cs arbitrary: t) (simp_all add: wf_table_append assms(2))

lemma rows_fold_append:
  "\<exists>rs. rows (fold (\<lambda>c. append_row (mk c)) cs t) = rows t @ rs \<and> length rs = length cs \<and> (\<forall>x \<in> set rs. \<exists>c \<in> set cs. \<exists>i. x = mk c i)"
proof (induction cs arbitrary: t)
  case Nil
  then show ?case by simp
next
  case (Cons c cs)
  obtain rs where "rows (fold (\<lambda>c. append_row (mk c)) cs (append_row (mk c) t)) = rows (append_row (mk c) t) @ rs"
    "length rs = length cs" "\<forall>x \<in> set rs. \<exists>c \<in> set cs. \<exists>i. x = mk c i" using Cons by blast
  then show ?case by (intro exI[of _ "mk c (next_id t) # rs"]) (auto simp: rows_append)
qed

definition all_withdrawn :: "int \<Rightarrow> consent_state \<Rightarrow> consent_state" where
  "all_withdrawn u m = (\<lambda>(u', p). if u' = u then map_option (\<lambda>(st, v). (WITHDRAWN, v)) (m (u', p)) else m (u', p))"

lemma withdraw_all_state:
  assumes ok: "consents_ok db"
  shows "current_state (snd (withdraw_all db u s now)) = all_withdrawn u (current_state db)"
proof
  fix k :: "int \<times> consent_purpose"
  let ?g = "\<lambda>c. if c_user_id c = u \<and> c_status c = GRANTED then withdrawn s now c else c"
  let ?find = "find (\<lambda>c. consent_key c = k) (rows (user_consents db))"
  have find: "find (\<lambda>c. consent_key c = k) (map ?g (rows (user_consents db))) = map_option ?g ?find"
    by (rule find_key_map) simp
  show "current_state (snd (withdraw_all db u s now)) k = all_withdrawn u (current_state db) k"
  proof (cases ?find)
    case None
    then show ?thesis using find
      by (cases k) (auto simp: withdraw_all_def current_state_def all_withdrawn_def rows_update Let_def)
  next
    case (Some c)
    then have "k = (c_user_id c, c_purpose c)" using find_key_Some[OF Some] by (simp add: consent_key_def)
    then show ?thesis using find Some
      by (cases "c_status c") (auto simp: withdraw_all_def current_state_def all_withdrawn_def rows_update Let_def)
  qed
qed

lemma withdraw_all_ok:
  assumes ok: "consents_ok db" and s: "length s \<le> 50"
  shows "consents_ok (snd (withdraw_all db u s now))"
proof -
  let ?p = "\<lambda>c. c_user_id c = u \<and> c_status c = GRANTED"
  have key: "consent_key (if ?p x then withdrawn s now x else x) = consent_key x" for x by simp
  have "consents_ok (db\<lparr>user_consents := update_rows ?p (withdrawn s now) (user_consents db),
      consent_history := fold (\<lambda>c. append_row (history_row u (c_purpose c) REVOKE (c_policy_version c) s now))
        (select_rows ?p (user_consents db)) (consent_history db)\<rparr>)"
  proof (rule consents_ok_update[OF ok])
    show "wf_table c_id (update_rows ?p (withdrawn s now) (user_consents db))"
      using ok by (simp add: consents_ok_def wf_table_update)
    show "distinct (map consent_key (rows (update_rows ?p (withdrawn s now) (user_consents db))))"
      using ok key by (simp add: consents_ok_def rows_update o_def)
    show "wf_table h_id (fold (\<lambda>c. append_row (history_row u (c_purpose c) REVOKE (c_policy_version c) s now))
        (select_rows ?p (user_consents db)) (consent_history db))"
      using ok by (intro wf_fold_append) (simp_all add: consents_ok_def)
    fix c assume "c \<in> set (rows (update_rows ?p (withdrawn s now) (user_consents db)))"
    then show "has_id u_id (users db) (c_user_id c) \<and> consent_fits c"
      using ok s by (auto simp: rows_update consents_ok_def list_all_iff consent_fits_def withdrawn_def)
  qed
  then show ?thesis by (simp add: withdraw_all_def Let_def)
qed

lemma withdraw_all_evidence:
  assumes ok: "consents_ok db" and ev: "evidence_ok db"
  shows "evidence_ok (snd (withdraw_all db u s now))"
proof -
  let ?p = "\<lambda>c. c_user_id c = u \<and> c_status c = GRANTED"
  let ?cs = "filter ?p (rows (user_consents db))"
  have dist: "distinct (map consent_key (rows (user_consents db)))" using ok by (simp add: consents_ok_def)
  have keys: "map (\<lambda>c. (u, c_purpose c)) ?cs = map consent_key ?cs" by (auto simp: consent_key_def)
  have dist': "distinct (map (\<lambda>c. (u, c_purpose c)) ?cs)"
    unfolding keys using dist by (rule distinct_map_filter)
  have same: "find (\<lambda>c. (u, c_purpose c) = k) ?cs = find (\<lambda>c. consent_key c = k) ?cs" for k
    by (rule find_cong) (auto simp: consent_key_def)
  have "fold (\<lambda>c m. m((u, c_purpose c) \<mapsto> (WITHDRAWN, c_policy_version c))) ?cs (current_state db) =
      all_withdrawn u (current_state db)" (is "?l = ?r")
  proof
    fix k :: "int \<times> consent_purpose"
    have "?l k = (case find (\<lambda>c. consent_key c = k) ?cs of None \<Rightarrow> current_state db k
        | Some c \<Rightarrow> Some (WITHDRAWN, c_policy_version c))"
      using fold_map_upd[OF dist', of "\<lambda>c. (WITHDRAWN, c_policy_version c)" "current_state db" k] by (simp add: same)
    also have "\<dots> = ?r k"
    proof (cases "find (\<lambda>c. consent_key c = k) (rows (user_consents db))")
      case None
      then show ?thesis using find_filter_key[OF dist, of k ?p]
        by (cases k) (auto simp: current_state_def all_withdrawn_def)
    next
      case (Some c)
      then show ?thesis using find_filter_key[OF dist, of k ?p] find_key_Some[OF Some]
        by (cases "c_status c"; cases k) (auto simp: current_state_def all_withdrawn_def consent_key_def)
    qed
    finally show "?l k = ?r k" .
  qed
  then have "replay (rows (consent_history (snd (withdraw_all db u s now)))) = all_withdrawn u (current_state db)"
    using ev by (simp add: withdraw_all_def Let_def select_rows_def replay_fold_append evidence_ok_def)
  then show ?thesis using withdraw_all_state[OF ok] by (simp add: evidence_ok_def)
qed

section \<open>The contract of the gate\<close>

datatype consent_op =
    GrantOp int consent_purpose string string instant
  | RevokeOp int consent_purpose string instant

fun apply_consent_op :: "consent_op \<Rightarrow> database \<Rightarrow> database" where
  "apply_consent_op (GrantOp u p v s now) db = snd (grant db u p v s now)"
| "apply_consent_op (RevokeOp u p s now) db = snd (revoke db u p s now)"

fun op_grants :: "consent_op \<Rightarrow> (int \<times> consent_purpose) option" where
  "op_grants (GrantOp u p v s now) = Some (u, p)"
| "op_grants (RevokeOp u p s now) = None"

definition gate_allows :: "database \<Rightarrow> int \<Rightarrow> consent_purpose \<Rightarrow> string \<Rightarrow> bool" where
  "gate_allows db u p v = (case gate_check db u p v of Inl e \<Rightarrow> False | Inr d \<Rightarrow> gd_allowed d)"

locale consent_gate =
  fixes allowed :: "'d \<Rightarrow> int \<Rightarrow> consent_purpose \<Rightarrow> string \<Rightarrow> bool"
    and run_op :: "'o \<Rightarrow> 'd \<Rightarrow> 'd"
    and grants :: "'o \<Rightarrow> (int \<times> consent_purpose) option"
    and ok :: "'d \<Rightarrow> bool"
  assumes ok_op: "ok d \<Longrightarrow> ok (run_op x d)"
    and only_grant: "ok d \<Longrightarrow> allowed (run_op x d) u p v \<Longrightarrow> allowed d u p v \<or> grants x = Some (u, p)"
begin

lemma denied_until_granted:
  "ok d \<Longrightarrow> \<not> allowed d u p v \<Longrightarrow> (\<And>x. x \<in> set ops \<Longrightarrow> grants x \<noteq> Some (u, p)) \<Longrightarrow>
   \<not> allowed (fold run_op ops d) u p v"
proof (induction ops arbitrary: d)
  case Nil
  then show ?case by simp
next
  case (Cons x ops)
  then have "\<not> allowed (run_op x d) u p v" using only_grant by force
  then show ?case using Cons ok_op by simp
qed

lemma ok_run: "ok d \<Longrightarrow> ok (fold run_op ops d)"
  by (induction ops arbitrary: d) (auto intro: ok_op)

end

lemma gate_allows_iff: "consents_ok db \<Longrightarrow> gate_allows db u p v \<longleftrightarrow> current_state db (u, p) = Some (GRANTED, v)"
  using gate_check_ok[of db u p v] by (auto simp: gate_allows_def)

lemma consent_op_ok:
  assumes "consents_ok db"
  shows "consents_ok (apply_consent_op x db) \<and> users (apply_consent_op x db) = users db"
proof (cases x)
  case (GrantOp u p v s now)
  then show ?thesis using assms grant_outcome[OF assms, where u = u and p = p and v = v and s = s and now = now]
    by (auto split: prod.splits sum.splits if_splits
        dest: consent_step_ok consent_refused_ok consent_step_users consent_refused_users)
next
  case (RevokeOp u p s now)
  then show ?thesis using assms revoke_outcome[OF assms, where u = u and p = p and s = s and now = now]
    by (auto split: prod.splits sum.splits if_splits
        dest: consent_step_ok consent_refused_ok consent_step_users consent_refused_users)
qed

lemma consent_op_evidence:
  assumes "consents_ok db" "evidence_ok db"
  shows "evidence_ok (apply_consent_op x db)"
proof (cases x)
  case (GrantOp u p v s now)
  then show ?thesis using assms grant_outcome[OF assms(1), where u = u and p = p and v = v and s = s and now = now]
    by (auto split: prod.splits sum.splits if_splits intro: consent_step_evidence consent_refused_evidence)
next
  case (RevokeOp u p s now)
  then show ?thesis using assms revoke_outcome[OF assms(1), where u = u and p = p and s = s and now = now]
    by (auto split: prod.splits sum.splits if_splits intro: consent_step_evidence consent_refused_evidence)
qed

lemma grant_state:
  assumes "consents_ok db"
  shows "current_state (snd (grant db u p v s now)) k \<in> {current_state db k, if k = (u, p) then Some (GRANTED, v) else current_state db k}"
  using grant_outcome[OF assms, where u = u and p = p and v = v and s = s and now = now]
  by (auto split: prod.splits sum.splits if_splits dest: consent_step_state consent_refused_state)

lemma revoke_state:
  assumes "consents_ok db"
  shows "current_state (snd (revoke db u p s now)) k = current_state db k \<or>
    (k = (u, p) \<and> (\<exists>v. current_state (snd (revoke db u p s now)) k = Some (WITHDRAWN, v)))"
  using revoke_outcome[OF assms, where u = u and p = p and s = s and now = now]
  by (auto split: prod.splits sum.splits if_splits dest: consent_step_state consent_refused_state)

interpretation consent_ops: consent_gate gate_allows apply_consent_op op_grants consents_ok
proof
  fix d x u p v
  show "consents_ok d \<Longrightarrow> consents_ok (apply_consent_op x d)" using consent_op_ok by blast
  assume ok: "consents_ok d" and a: "gate_allows (apply_consent_op x d) u p v"
  have ok': "consents_ok (apply_consent_op x d)" using ok consent_op_ok by blast
  show "gate_allows d u p v \<or> op_grants x = Some (u, p)"
  proof (cases x)
    case (GrantOp u' p' v' s now)
    then show ?thesis using a ok' ok grant_state[OF ok, where u = u' and p = p' and v = v' and s = s and now = now and k = "(u, p)"]
      by (auto simp: gate_allows_iff split: if_splits)
  next
    case (RevokeOp u' p' s now)
    then show ?thesis using a ok' ok revoke_state[OF ok, where u = u' and p = p' and s = s and now = now and k = "(u, p)"]
      by (auto simp: gate_allows_iff)
  qed
qed

lemma revoke_denies:
  assumes "consents_ok db" "revoke db u p s now = (Inr ch, db')"
  shows "\<not> gate_allows db' u p v"
proof -
  have "consents_ok db'" using consent_op_ok[OF assms(1), of "RevokeOp u p s now"] assms(2) by simp
  then show ?thesis using revoke_outcome[OF assms(1), where u = u and p = p and s = s and now = now] assms(2)
    by (auto simp: gate_allows_iff split: if_splits dest: consent_step_state)
qed

section \<open>Racing first grants\<close>

text \<open>
  Two sessions read that no row exists; the other one commits its grant first. The
  flush of this one then violates the unique constraint, and the second attempt
  finds the row.
\<close>

lemma grant_once_conflict:
  assumes ok: "consents_ok db" and seen: "get_current seen u p = Inr None"
    and row: "current_state db (u, p) \<noteq> None" and l: "length v \<le> 20" "length s \<le> 50"
  shows "grant_once seen db u p v s now = (Inl IntegrityError, db\<lparr>user_consents := burn_id (user_consents db)\<rparr>)"
proof -
  obtain c where "find (\<lambda>c. consent_key c = (u, p)) (rows (user_consents db)) = Some c"
    using row current_state_find(1) by (metis option.exhaust)
  then have "c \<in> set (rows (user_consents db))" "consent_key c = (u, p)" using find_key_Some[of consent_key "(u, p)"] by auto
  then have "\<not> consent_ok db (new_consent u p v s now (next_id (user_consents db)))"
    by (auto simp: consent_ok_def new_consent_def consent_key_def list_ex_iff)
  then show ?thesis using seen l
    by (simp add: grant_once_def insert_row_def Let_def write_consent_def consent_fits_def new_consent_def)
qed

lemma get_current_None: "consents_ok db \<Longrightarrow> current_state db (u, p) = None \<Longrightarrow> get_current db u p = Inr None"
  by (simp add: get_current_ok current_state_find)

section \<open>A small account for the witnesses\<close>

definition demo_user :: user where
  "demo_user = \<lparr>u_id = 1, u_email = ''ann@example.com'', u_hashed_password = ''h'', u_full_name = ''Ann'', u_role = USER,
     u_phone = None, u_is_active = True, u_created_at = 0, u_anonymized_at = None\<rparr>"

definition demo_consent :: user_consent where
  "demo_consent = new_consent 1 MARKETING_EMAIL ''2026-01'' ''api'' 10 1"

definition consent_demo_db :: database where
  "consent_demo_db = empty_db\<lparr>users := \<lparr>rows = [demo_user], next_id = 2\<rparr>,
     user_consents := \<lparr>rows = [demo_consent], next_id = 2\<rparr>,
     consent_history := \<lparr>rows = [history_row 1 MARKETING_EMAIL GRANT ''2026-01'' ''api'' 10 1], next_id = 2\<rparr>\<rparr>"

lemmas consent_demo_simps = consent_demo_db_def demo_user_def demo_consent_def new_consent_def history_row_def
  empty_db_def empty_table_def

lemma consent_demo_ok: "consents_ok consent_demo_db" "evidence_ok consent_demo_db"
  by (simp_all add: consents_ok_def evidence_ok_def wf_table_def consent_key_def has_id_def consent_fits_def
      current_state_def replay_def apply_history_def consent_demo_simps fun_eq_iff)

lemma consent_demo_user: "has_id u_id (users consent_demo_db) 1"
  by (simp add: has_id_def consent_demo_simps)

lemma consent_demo_state:
  "current_state consent_demo_db (1, MARKETING_EMAIL) = Some (GRANTED, ''2026-01'')"
  "current_state consent_demo_db (1, OPTIONAL_ANALYTICS) = None"
  by (simp_all add: current_state_def consent_key_def consent_demo_simps)

section \<open>Properties\<close>

text \<open>
  C3: the consent table is at all times the replay of the append-only history. Each
  of \<open>grant\<close>, \<open>revoke\<close> and \<open>withdraw_all\<close>, whether it succeeds, changes nothing
  or is refused, keeps the rows equal to what the evidence log says, so any consent
  state can be proved from the log alone.
\<close>

theorem consent_rows_refine_history:
  assumes "consents_ok db" "evidence_ok db"
  shows "evidence_ok (snd (grant db user_id purpose policy_version source now)) \<and>
    evidence_ok (snd (revoke db user_id purpose source now)) \<and>
    evidence_ok (snd (withdraw_all db user_id source now))"
  using consent_op_evidence[OF assms, of "GrantOp user_id purpose policy_version source now"]
    consent_op_evidence[OF assms, of "RevokeOp user_id purpose source now"]
    withdraw_all_evidence[OF assms]
  by simp_all

theorem consent_rows_refine_history_witness:
  "consents_ok consent_demo_db \<and> evidence_ok consent_demo_db \<and>
   evidence_ok (snd (revoke consent_demo_db 1 MARKETING_EMAIL ''web'' 20))"
  using consent_demo_ok consent_rows_refine_history[OF consent_demo_ok] by simp

text \<open>
  A withdrawal takes effect for the very next check and stays in effect. After
  \<open>revoke\<close> returns, the gate denies the purpose for every policy version, and goes
  on denying it through any further grants and revokes that do not grant this
  purpose to this user.
\<close>

lemma revoke_takes_effect:
  assumes "consents_ok db" and "revoke db user_id purpose source now = (Inr change, db')"
    and "list_all (\<lambda>x. op_grants x \<noteq> Some (user_id, purpose)) later"
  shows "\<exists>d. gate_check (fold apply_consent_op later db') user_id purpose version = Inr d \<and> \<not> gd_allowed d \<and>
    gd_label d = ''DENY''"
proof -
  have ok': "consents_ok db'"
    using consent_op_ok[OF assms(1), of "RevokeOp user_id purpose source now"] assms(2) by simp
  have "\<not> gate_allows (fold apply_consent_op later db') user_id purpose version"
    using ok' revoke_denies[OF assms(1,2)] assms(3)
    by (intro consent_ops.denied_until_granted) (auto simp: list_all_iff)
  moreover have "consents_ok (fold apply_consent_op later db')" using ok' by (rule consent_ops.ok_run)
  ultimately show ?thesis using gate_check_ok[of "fold apply_consent_op later db'" user_id purpose version]
    by (auto simp: gate_allows_iff gd_label_def)
qed

text \<open>
  C28: \<open>grant\<close> allows the purpose and is idempotent. For a known user and values
  that fit, it succeeds, the gate then allows exactly this version, and repeating
  the call reports no change and leaves the whole database as it was.
\<close>

lemma grant_effective_idempotent:
  assumes "consents_ok db" and "has_id u_id (users db) user_id"
    and "length policy_version \<le> 20" and "length source \<le> 50"
  shows "\<exists>change db' again. grant db user_id purpose policy_version source now = (Inr change, db') \<and>
    gate_allows db' user_id purpose policy_version \<and>
    grant db' user_id purpose policy_version source' now' = (Inr again, db') \<and> \<not> cc_changed again"
proof -
  obtain res db' where g: "grant db user_id purpose policy_version source now = (res, db')"
    by (cases "grant db user_id purpose policy_version source now")
  note out = grant_outcome[OF assms(1), where u = user_id and p = purpose and v = policy_version and s = source and now = now]
  obtain change where res: "res = Inr change" using out assms g by (cases res) auto
  have ok': "consents_ok db'"
    using consent_op_ok[OF assms(1), of "GrantOp user_id purpose policy_version source now"] g by simp
  have st: "current_state db' (user_id, purpose) = Some (GRANTED, policy_version)"
    using out g res by (auto split: if_splits dest: consent_step_state)
  then obtain c where c: "find (\<lambda>c. consent_key c = (user_id, purpose)) (rows (user_consents db')) = Some c"
    and cs: "c_status c = GRANTED" "c_policy_version c = policy_version"
    by (auto simp: current_state_def)
  have "grant db' user_id purpose policy_version source' now' = (Inr \<lparr>cc_consent = Some c, cc_changed = False\<rparr>, db')"
    by (simp add: grant_def grant_from_def grant_once_def get_current_ok[OF ok'] c cs)
  then show ?thesis using g res st ok' by (auto simp: gate_allows_iff)
qed

text \<open>
  C30: racing first grants. When two sessions both saw no consent row and the other
  one's grant of the same version commits first, this \<open>grant\<close> catches the
  constraint violation, retries, succeeds without a change, and there is still one
  row and one history entry for the user and purpose.
\<close>

theorem grant_race_resolved:
  assumes "consents_ok db" and "current_state db (user_id, purpose) = None"
    and "grant db user_id purpose policy_version other t = (Inr first, db1)"
    and "length source \<le> 50" and "length policy_version \<le> 20"
  shows "\<exists>change db2. grant_from db db1 user_id purpose policy_version source now now' = (Inr change, db2) \<and>
    \<not> cc_changed change \<and> rows (user_consents db2) = rows (user_consents db1) \<and>
    rows (consent_history db2) = rows (consent_history db1)"
proof -
  note out = grant_outcome[OF assms(1), where u = user_id and p = purpose and v = policy_version and s = other and now = t]
  have st: "current_state db1 (user_id, purpose) = Some (GRANTED, policy_version)"
    using out assms(2,3) by (auto split: if_splits dest: consent_step_state)
  have ok1: "consents_ok db1"
    using consent_op_ok[OF assms(1), of "GrantOp user_id purpose policy_version other t"] assms(3) by simp
  define db2 where "db2 = db1\<lparr>user_consents := burn_id (user_consents db1)\<rparr>"
  have "grant_once db db1 user_id purpose policy_version source now = (Inl IntegrityError, db2)"
    unfolding db2_def using assms st by (intro grant_once_conflict[OF ok1 get_current_None[OF assms(1,2)]]) auto
  then have g: "grant_from db db1 user_id purpose policy_version source now now' =
      grant_once db2 db2 user_id purpose policy_version source now'"
    by (simp add: grant_from_def)
  have "consent_refused db1 db2" unfolding db2_def
    using refused_burn[OF ok1, of "burn_id (user_consents db1)" "consent_history db1"] by simp
  then have ok2: "consents_ok db2" and st2: "current_state db2 (user_id, purpose) = Some (GRANTED, policy_version)"
    using st consent_refused_ok consent_refused_state by metis+
  obtain c where "find (\<lambda>c. consent_key c = (user_id, purpose)) (rows (user_consents db2)) = Some c"
    "c_status c = GRANTED" "c_policy_version c = policy_version" using st2 by (auto simp: current_state_def)
  then have "grant_once db2 db2 user_id purpose policy_version source now' =
      (Inr \<lparr>cc_consent = Some c, cc_changed = False\<rparr>, db2)"
    by (simp add: grant_once_def get_current_ok[OF ok2])
  then show ?thesis using g by (auto simp: db2_def rows_burn)
qed

theorem grant_race_resolved_witness:
  "\<exists>first db1 change db2. grant consent_demo_db 1 OPTIONAL_ANALYTICS ''2026-01'' ''web'' 30 = (Inr first, db1) \<and>
     grant_from consent_demo_db db1 1 OPTIONAL_ANALYTICS ''2026-01'' ''api'' 31 32 = (Inr change, db2) \<and> \<not> cc_changed change"
proof -
  obtain res db1 where g: "grant consent_demo_db 1 OPTIONAL_ANALYTICS ''2026-01'' ''web'' 30 = (res, db1)"
    by (cases "grant consent_demo_db 1 OPTIONAL_ANALYTICS ''2026-01'' ''web'' 30")
  moreover obtain first where "res = Inr first"
    using grant_outcome[OF consent_demo_ok(1), where u = 1 and p = OPTIONAL_ANALYTICS and v = "''2026-01''" and s = "''web''" and now = 30]
      g consent_demo_user by (cases res) auto
  ultimately show ?thesis
    using grant_race_resolved[OF consent_demo_ok(1) consent_demo_state(2), of "''2026-01''" "''web''" 30 first db1 "''api''" 31 32]
    by auto
qed

end
