(* ===== verification/Marketing.thy ===== *)
theory Marketing
  imports Consent
begin

text \<open>
  \<open>services/marketing_service.py\<close>: the consent-dependent actions. Queueing a
  marketing e-mail and recording an analytics event ask the gate first and leave an
  audit row when it denies; the dispatcher asks it again for every queued message,
  decides the whole queue before it touches a row, and then applies the verdicts.
\<close>

section \<open>Gated actions\<close>

definition require_consent ::
  "database \<Rightarrow> int \<Rightarrow> consent_purpose \<Rightarrow> int \<Rightarrow> string \<Rightarrow> instant \<Rightarrow> unit result \<times> database" where
  "require_consent db user_id purpose actor_id correlation_id now =
     (case gate_check db user_id purpose CURRENT_POLICY_VERSION of
        Inl e \<Rightarrow> (Inl e, db)
      | Inr decision \<Rightarrow>
          if gd_allowed decision then (Inr (), db)
          else bind_db
            (record_audit_event (lower (purpose_value purpose) @ ''_action'') (Some actor_id) (Some user_id)
               (''DENY:'' @ gd_reason decision) correlation_id now db)
            (\<lambda>_ db'. (Inl (ConsentDeniedError (purpose_value purpose) (gd_reason decision)), db')))"

definition new_message :: "int \<Rightarrow> string \<Rightarrow> instant \<Rightarrow> int \<Rightarrow> marketing_message" where
  "new_message user_id campaign now i =
     \<lparr>m_id = i, m_user_id = user_id, m_campaign = campaign, m_status = QUEUED, m_created_at = now, m_processed_at = None\<rparr>"

definition enqueue_marketing_email ::
  "database \<Rightarrow> int \<Rightarrow> string \<Rightarrow> int \<Rightarrow> string \<Rightarrow> instant \<Rightarrow> marketing_message result \<times> database" where
  "enqueue_marketing_email db user_id campaign actor_id correlation_id now =
     bind_db (require_consent db user_id MARKETING_EMAIL actor_id correlation_id now) (\<lambda>_ db.
       case insert_row message_fits (\<lambda>m. has_id u_id (users db) (m_user_id m)) (new_message user_id campaign now) (marketing_messages db) of
         (res, t) \<Rightarrow> (res, db\<lparr>marketing_messages := t\<rparr>))"

definition new_analytics :: "int \<Rightarrow> string \<Rightarrow> instant \<Rightarrow> int \<Rightarrow> analytics_event" where
  "new_analytics user_id event_name now i =
     \<lparr>an_id = i, an_user_id = user_id, an_event_name = event_name, an_occurred_at = now\<rparr>"

definition record_analytics_event ::
  "database \<Rightarrow> int \<Rightarrow> string \<Rightarrow> int \<Rightarrow> string \<Rightarrow> instant \<Rightarrow> analytics_event result \<times> database" where
  "record_analytics_event db user_id event_name actor_id correlation_id now =
     bind_db (require_consent db user_id OPTIONAL_ANALYTICS actor_id correlation_id now) (\<lambda>_ db.
       case insert_row analytics_fits (\<lambda>e. has_id u_id (users db) (an_user_id e)) (new_analytics user_id event_name now) (analytics_events db) of
         (res, t) \<Rightarrow> (res, db\<lparr>analytics_events := t\<rparr>))"

section \<open>Dispatch\<close>

record dispatch_outcome =
  do_message :: marketing_message
  do_allowed :: bool
  do_processed_at :: instant

definition do_status :: "dispatch_outcome \<Rightarrow> marketing_status" where
  "do_status out = (if do_allowed out then SENT else SKIPPED)"

definition do_apply :: "dispatch_outcome \<Rightarrow> database \<Rightarrow> database" where
  "do_apply out db = db\<lparr>marketing_messages :=
     set_row m_id (m_id (do_message out)) (\<lambda>m. m\<lparr>m_status := do_status out, m_processed_at := Some (do_processed_at out)\<rparr>)
       (marketing_messages db)\<rparr>"

definition verdict :: "database \<Rightarrow> marketing_message \<Rightarrow> instant \<Rightarrow> dispatch_outcome result" where
  "verdict db message processed_at =
     bind_result (gate_check db (m_user_id message) MARKETING_EMAIL CURRENT_POLICY_VERSION) (\<lambda>decision.
       Inr \<lparr>do_message = message, do_allowed = gd_allowed decision, do_processed_at = processed_at\<rparr>)"

fun collect :: "('a \<Rightarrow> 'b result) \<Rightarrow> 'a list \<Rightarrow> 'b list result" where
  "collect f [] = Inr []"
| "collect f (x # xs) = bind_result (f x) (\<lambda>y. bind_result (collect f xs) (\<lambda>ys. Inr (y # ys)))"

definition decide_queue :: "database \<Rightarrow> instant \<Rightarrow> dispatch_outcome list result" where
  "decide_queue db processed_at =
     collect (\<lambda>m. verdict db m processed_at) (select_rows (\<lambda>m. m_status m = QUEUED) (marketing_messages db))"

record dispatch_summary =
  ds_sent :: nat
  ds_skipped :: nat

definition summary :: "dispatch_outcome list \<Rightarrow> dispatch_summary" where
  "summary outcomes =
     \<lparr>ds_sent = length (filter (\<lambda>out. do_status out = SENT) outcomes),
      ds_skipped = length (filter (\<lambda>out. do_status out = SKIPPED) outcomes)\<rparr>"

definition dispatch_pending_marketing :: "database \<Rightarrow> instant \<Rightarrow> dispatch_summary result \<times> database" where
  "dispatch_pending_marketing db now =
     (case decide_queue db now of
        Inl e \<Rightarrow> (Inl e, db)
      | Inr outcomes \<Rightarrow> (Inr (summary outcomes), fold do_apply outcomes db))"

section \<open>The queue is decided as one\<close>

definition verdict_of :: "database \<Rightarrow> instant \<Rightarrow> marketing_message \<Rightarrow> dispatch_outcome" where
  "verdict_of db now m = \<lparr>do_message = m, do_allowed = gate_allows db (m_user_id m) MARKETING_EMAIL CURRENT_POLICY_VERSION,
     do_processed_at = now\<rparr>"

definition dispatched :: "database \<Rightarrow> instant \<Rightarrow> marketing_message \<Rightarrow> marketing_message" where
  "dispatched db now m = m\<lparr>m_status := (if gate_allows db (m_user_id m) MARKETING_EMAIL CURRENT_POLICY_VERSION then SENT else SKIPPED),
     m_processed_at := Some now\<rparr>"

lemma verdict_ok: "consents_ok db \<Longrightarrow> verdict db m now = Inr (verdict_of db now m)"
  using gate_check_ok[of db "m_user_id m" MARKETING_EMAIL CURRENT_POLICY_VERSION]
  by (auto simp: verdict_def verdict_of_def gate_allows_def)

lemma collect_Inr: "(\<And>x. x \<in> set xs \<Longrightarrow> f x = Inr (g x)) \<Longrightarrow> collect f xs = Inr (map g xs)"
  by (induction xs) auto

lemma decide_queue_ok:
  "consents_ok db \<Longrightarrow>
   decide_queue db now = Inr (map (verdict_of db now) (select_rows (\<lambda>m. m_status m = QUEUED) (marketing_messages db)))"
  unfolding decide_queue_def by (rule collect_Inr) (rule verdict_ok)

text \<open>Updating distinct rows one after the other is updating each of them once.\<close>

lemma rows_fold_set:
  assumes "distinct (map pk ys)" "\<And>y r. pk (f y r) = pk r"
  shows "rows (fold (\<lambda>y. set_row pk (pk y) (f y)) ys t) =
    map (\<lambda>r. case find (\<lambda>y. pk y = pk r) ys of None \<Rightarrow> r | Some y \<Rightarrow> f y r) (rows t)"
  using assms(1)
proof (induction ys arbitrary: t)
  case Nil
  then show ?case by simp
next
  case (Cons y ys)
  have "find (\<lambda>x. pk x = pk r) ys = None" if "pk r = pk y" for r
    using Cons.prems that by (auto simp: find_None_iff image_iff)
  then show ?case using Cons by (auto simp: rows_set assms(2) split: option.splits)
qed

lemma fold_do_apply:
  "fold do_apply outs db = db\<lparr>marketing_messages := fold (\<lambda>out. set_row m_id (m_id (do_message out))
     (\<lambda>m. m\<lparr>m_status := do_status out, m_processed_at := Some (do_processed_at out)\<rparr>)) outs (marketing_messages db)\<rparr>"
  by (induction outs arbitrary: db) (simp_all add: do_apply_def)

lemma dispatch_rows:
  assumes ok: "consents_ok db" and wf: "wf_table m_id (marketing_messages db)"
  shows "\<exists>t. dispatch_pending_marketing db now =
      (Inr (summary (map (verdict_of db now) (select_rows (\<lambda>m. m_status m = QUEUED) (marketing_messages db)))),
       db\<lparr>marketing_messages := t\<rparr>) \<and>
    rows t = map (\<lambda>m. if m_status m = QUEUED then dispatched db now m else m) (rows (marketing_messages db)) \<and>
    wf_table m_id t"
proof -
  let ?rows = "rows (marketing_messages db)" and ?q = "\<lambda>m. m_status m = QUEUED"
  let ?t = "fold (\<lambda>m. set_row m_id (m_id m) (\<lambda>x. x\<lparr>m_status := do_status (verdict_of db now m), m_processed_at := Some now\<rparr>))
    (filter ?q ?rows) (marketing_messages db)"
  have dist: "distinct (map m_id ?rows)" using wf by (simp add: wf_table_def)
  have "find (\<lambda>y. m_id y = m_id r) (filter ?q ?rows) = (if ?q r then Some r else None)" if "r \<in> set ?rows" for r
    using find_filter_key[OF dist, of "m_id r" ?q] find_key_mem[OF dist that] by simp
  then have rows: "rows ?t = map (\<lambda>m. if ?q m then dispatched db now m else m) ?rows"
    using rows_fold_set[OF distinct_map_filter[OF dist], of "\<lambda>m x. x\<lparr>m_status := do_status (verdict_of db now m), m_processed_at := Some now\<rparr>" ?q "marketing_messages db"]
    by (auto simp: dispatched_def do_status_def verdict_of_def)
  have "wf_table m_id (fold (\<lambda>m. set_row m_id (m_id m) (\<lambda>x. x\<lparr>m_status := do_status (verdict_of db now m), m_processed_at := Some now\<rparr>)) ms t)"
    if "wf_table m_id t" for ms t
    using that by (induction ms arbitrary: t) (simp_all add: wf_table_set)
  then have "wf_table m_id ?t" using wf by blast
  moreover have "fold do_apply (map (verdict_of db now) ms) db = db\<lparr>marketing_messages :=
      fold (\<lambda>m. set_row m_id (m_id m) (\<lambda>x. x\<lparr>m_status := do_status (verdict_of db now m), m_processed_at := Some now\<rparr>)) ms
        (marketing_messages db)\<rparr>" for ms
    by (subst fold_do_apply) (simp add: fold_map comp_def verdict_of_def)
  ultimately show ?thesis using rows
    by (intro exI[of _ ?t]) (simp add: dispatch_pending_marketing_def decide_queue_ok[OF ok] select_rows_def)
qed

lemma require_consent_cases:
  assumes "consents_ok db" "length correlation_id \<le> 64"
  obtains (allowed) "gate_allows db u p CURRENT_POLICY_VERSION" "require_consent db u p a correlation_id now = (Inr (), db)"
  | (denied) r where "\<not> gate_allows db u p CURRENT_POLICY_VERSION"
      "require_consent db u p a correlation_id now =
        (Inl (ConsentDeniedError (purpose_value p) r),
         db\<lparr>audit_events := append_row (audit_row (lower (purpose_value p) @ ''_action'') (Some a) (Some u) (''DENY:'' @ r) correlation_id now) (audit_events db)\<rparr>)"
proof -
  obtain d where d: "gate_check db u p CURRENT_POLICY_VERSION = Inr d" using gate_check_ok[OF assms(1)] by blast
  show ?thesis
  proof (cases "gd_allowed d")
    case True
    then show ?thesis using allowed d by (simp add: require_consent_def gate_allows_def)
  next
    case False
    have "gd_reason d \<in> {REASON_MISSING, REASON_WITHDRAWN, REASON_VERSION, REASON_GRANTED}"
      using d unfolding gate_check_def get_current_ok[OF assms(1)]
      by (auto simp: decide_def split: option.splits if_splits)
    then have l: "length (''DENY:'' @ gd_reason d) \<le> 64"
      by (auto simp: REASON_MISSING_def REASON_WITHDRAWN_def REASON_VERSION_def REASON_GRANTED_def)
    have le: "length (lower (purpose_value p) @ ''_action'') \<le> 64"
      by (cases p) (simp_all add: lower_def purpose_value_def)
    from denied[of "gd_reason d"] show ?thesis
      using d False add_audit_event_ok[OF le l assms(2), of "Some a" "Some u" now db]
      by (simp add: require_consent_def gate_allows_def record_audit_event_def)
  qed
qed


lemma marketing_event_type: "lower (purpose_value MARKETING_EMAIL) @ ''_action'' = ''marketing_email_action''"
  by code_simp

section \<open>Properties\<close>

text \<open>
  C4: the dispatcher honours the consent that holds when it runs. It returns (it
  never fails on a database whose consent rows are keyed), every queued message is
  marked SENT when the gate allows its owner and SKIPPED otherwise, with the one
  timestamp of the batch, every other message is left as it is, no other table is
  touched, the queue is empty afterwards, and the two tallies of the summary count
  the queue exactly.
\<close>

theorem dispatch_honours_consent:
  assumes "consents_ok db" and "wf_table m_id (marketing_messages db)"
  shows "\<exists>tally t. dispatch_pending_marketing db now = (Inr tally, db\<lparr>marketing_messages := t\<rparr>) \<and>
    rows t = map (\<lambda>m. if m_status m = QUEUED
        then m\<lparr>m_status := (if current_state db (m_user_id m, MARKETING_EMAIL) = Some (GRANTED, CURRENT_POLICY_VERSION)
               then SENT else SKIPPED), m_processed_at := Some now\<rparr>
        else m) (rows (marketing_messages db)) \<and>
    count_rows (\<lambda>m. m_status m = QUEUED) t = 0 \<and>
    ds_sent tally + ds_skipped tally = count_rows (\<lambda>m. m_status m = QUEUED) (marketing_messages db) \<and>
    count_rows (\<lambda>m. m_status m = SENT) t = count_rows (\<lambda>m. m_status m = SENT) (marketing_messages db) + ds_sent tally"
proof -
  let ?ms = "rows (marketing_messages db)" and ?g = "\<lambda>m. if m_status m = QUEUED then dispatched db now m else m"
  obtain t where t: "dispatch_pending_marketing db now =
      (Inr (summary (map (verdict_of db now) (select_rows (\<lambda>m. m_status m = QUEUED) (marketing_messages db)))),
       db\<lparr>marketing_messages := t\<rparr>)" "rows t = map ?g ?ms"
    using dispatch_rows[OF assms] by blast
  define outs where "outs = map (verdict_of db now) (filter (\<lambda>m. m_status m = QUEUED) ?ms)"
  have "filter (\<lambda>m. m_status m = QUEUED) (map ?g ?ms) = []"
    by (auto simp: filter_empty_conv dispatched_def split: if_splits)
  moreover have "length (filter (\<lambda>m. m_status m = SENT) (map ?g ms)) = length (filter (\<lambda>m. m_status m = SENT) ms) +
      length (filter (\<lambda>out. do_status out = SENT) (map (verdict_of db now) (filter (\<lambda>m. m_status m = QUEUED) ms)))" for ms
    by (induction ms) (auto simp: dispatched_def do_status_def verdict_of_def)
  from this[of ?ms] have "length (filter (\<lambda>m. m_status m = SENT) (map ?g ?ms)) =
      length (filter (\<lambda>m. m_status m = SENT) ?ms) + ds_sent (summary outs)"
    by (simp only: outs_def summary_def dispatch_summary.select_convs)
  moreover have "length (filter (\<lambda>out. do_status out = SENT) xs) + length (filter (\<lambda>out. do_status out = SKIPPED) xs) =
      length xs" for xs
    by (induction xs) (auto simp: do_status_def)
  from this[of outs] have "ds_sent (summary outs) + ds_skipped (summary outs) = length (filter (\<lambda>m. m_status m = QUEUED) ?ms)"
    by (simp only: summary_def dispatch_summary.select_convs) (simp add: outs_def)
  moreover have "map ?g ?ms = map (\<lambda>m. if m_status m = QUEUED
        then m\<lparr>m_status := (if current_state db (m_user_id m, MARKETING_EMAIL) = Some (GRANTED, CURRENT_POLICY_VERSION)
               then SENT else SKIPPED), m_processed_at := Some now\<rparr>
        else m) ?ms" using assms(1) by (simp add: dispatched_def gate_allows_iff)
  ultimately show ?thesis using t
    unfolding count_rows_def select_rows_def outs_def[symmetric] by (intro exI[of _ "summary outs"] exI[of _ t]) (simp only:, simp)
qed

definition marketing_demo_db :: database where
  "marketing_demo_db = consent_demo_db\<lparr>marketing_messages := \<lparr>rows = [new_message 1 ''spring'' 5 1], next_id = 2\<rparr>\<rparr>"

lemma marketing_demo_ok: "consents_ok marketing_demo_db" "wf_table m_id (marketing_messages marketing_demo_db)"
  using consent_demo_ok(1) by (simp_all add: marketing_demo_db_def consents_ok_def wf_table_def new_message_def)

theorem dispatch_honours_consent_witness:
  "\<exists>tally t. dispatch_pending_marketing marketing_demo_db 50 = (Inr tally, marketing_demo_db\<lparr>marketing_messages := t\<rparr>) \<and>
     ds_sent tally + ds_skipped tally = 1"
  using dispatch_honours_consent[OF marketing_demo_ok, of 50]
  by (auto simp: marketing_demo_db_def count_rows_def select_rows_def new_message_def)

text \<open>
  Without consent nothing optional happens, and the refusal is on record. When
  the gate does not allow the purpose, queueing an e-mail raises
  \<open>ConsentDeniedError\<close>, adds no message and appends exactly one audit row with the
  reason; with consent (and values that fit) it adds exactly one queued message and
  no audit row.
\<close>

lemma enqueue_needs_consent:
  assumes "consents_ok db" and "length correlation_id \<le> 64"
    and "has_id u_id (users db) user_id" and "length campaign \<le> 64"
  shows "if gate_allows db user_id MARKETING_EMAIL CURRENT_POLICY_VERSION
    then enqueue_marketing_email db user_id campaign actor_id correlation_id now =
      (Inr (new_message user_id campaign now (next_id (marketing_messages db))),
       db\<lparr>marketing_messages := append_row (new_message user_id campaign now) (marketing_messages db)\<rparr>)
    else \<exists>reason. enqueue_marketing_email db user_id campaign actor_id correlation_id now =
      (Inl (ConsentDeniedError ''MARKETING_EMAIL'' reason),
       db\<lparr>audit_events := append_row
         (audit_row ''marketing_email_action'' (Some actor_id) (Some user_id) (''DENY:'' @ reason) correlation_id now)
         (audit_events db)\<rparr>)"
proof (rule require_consent_cases[OF assms(1,2), of user_id MARKETING_EMAIL actor_id now])
  assume "gate_allows db user_id MARKETING_EMAIL CURRENT_POLICY_VERSION"
    "require_consent db user_id MARKETING_EMAIL actor_id correlation_id now = (Inr (), db)"
  then show ?thesis using assms(3,4)
    by (simp add: enqueue_marketing_email_def insert_row_def Let_def message_fits_def new_message_def)
next
  fix r
  assume "\<not> gate_allows db user_id MARKETING_EMAIL CURRENT_POLICY_VERSION"
    "require_consent db user_id MARKETING_EMAIL actor_id correlation_id now =
      (Inl (ConsentDeniedError (purpose_value MARKETING_EMAIL) r),
       db\<lparr>audit_events := append_row (audit_row (lower (purpose_value MARKETING_EMAIL) @ ''_action'') (Some actor_id)
         (Some user_id) (''DENY:'' @ r) correlation_id now) (audit_events db)\<rparr>)"
  then show ?thesis unfolding marketing_event_type by (auto simp: enqueue_marketing_email_def purpose_value_def)
qed

end
