(* ===== verification/Config.thy ===== *)
theory Config
  imports Models "HOL-Library.Sublist"
begin

text \<open>
  \<open>config.py\<close>: the settings object and the checks it runs on itself before the
  application starts. The URL parser of SQLAlchemy (\<open>make_url(...).database\<close>) is a
  parameter \<open>url_database\<close>.
\<close>

datatype environment = Sandbox | Production

definition MIN_PRODUCTION_SECRET_LENGTH :: nat where
  "MIN_PRODUCTION_SECRET_LENGTH = 32"

fun ALLOWED_DB_SUFFIXES :: "environment \<Rightarrow> string list" where
  "ALLOWED_DB_SUFFIXES Sandbox = [''_sandbox'', ''_test'']"
| "ALLOWED_DB_SUFFIXES Production = [''_production'']"

fun env_name :: "environment \<Rightarrow> string" where
  "env_name Sandbox = ''sandbox''"
| "env_name Production = ''production''"

definition env_file :: "string option \<Rightarrow> string" where
  "env_file app_env = ''.env.'' @ (case app_env of None \<Rightarrow> ''sandbox'' | Some e \<Rightarrow> e)"

record settings =
  app_env :: environment
  debug :: bool
  app_name :: string
  app_version :: string
  database_url :: string
  rabbitmq_url :: string
  redis_url :: string
  telemetry_queue :: string
  resilience_enabled :: bool
  redis_attempt_timeout_ms :: int
  redis_retry_max_attempts :: int
  redis_retry_base_delay_ms :: int
  redis_retry_max_delay_ms :: int
  list_cache_enabled :: bool
  list_cache_ttl_seconds :: int
  password_hash_workers :: int
  jwt_secret_key :: "string option"
  jwt_algorithm :: string
  access_token_expire_minutes :: int

definition default_settings :: "string \<Rightarrow> settings" where
  "default_settings url =
     \<lparr>app_env = Sandbox, debug = False, app_name = ''Fleet Management'', app_version = ''dev'', database_url = url,
      rabbitmq_url = ''amqp://localhost:5672/'', redis_url = ''redis://localhost:6379/0'', telemetry_queue = ''telemetry'',
      resilience_enabled = True, redis_attempt_timeout_ms = 200, redis_retry_max_attempts = 3,
      redis_retry_base_delay_ms = 50, redis_retry_max_delay_ms = 400, list_cache_enabled = True,
      list_cache_ttl_seconds = 30, password_hash_workers = 1, jwt_secret_key = None, jwt_algorithm = ''HS256'',
      access_token_expire_minutes = 30\<rparr>"

definition is_production :: "settings \<Rightarrow> bool" where
  "is_production s = (app_env s = Production)"

text \<open>\<open>repr\<close> of a string of code points below 256, as the error message quotes the name.\<close>

definition hex_digit :: "nat \<Rightarrow> char" where
  "hex_digit d = ''0123456789abcdef'' ! d"

definition repr_char :: "char \<Rightarrow> char \<Rightarrow> string" where
  "repr_char quote c =
     (let k = of_char c :: nat in
      if c = quote \<or> k = 92 then [CHR 0x5C, c]
      else if k = 9 then [CHR 0x5C, CHR ''t'']
      else if k = 10 then [CHR 0x5C, CHR ''n'']
      else if k = 13 then [CHR 0x5C, CHR ''r'']
      else if k < 32 \<or> (127 \<le> k \<and> k \<le> 160) \<or> k = 173
      then [CHR 0x5C, CHR ''x'', hex_digit (k div 16), hex_digit (k mod 16)]
      else [c])"

definition repr_str :: "string \<Rightarrow> string" where
  "repr_str s =
     (let quote = (if CHR 0x27 \<in> set s \<and> CHR 0x22 \<notin> set s then CHR 0x22 else CHR 0x27)
      in quote # concat (map (repr_char quote) s) @ [quote])"

fun join_or :: "string list \<Rightarrow> string" where
  "join_or [] = []"
| "join_or [s] = s"
| "join_or (s # t # ss) = s @ '' or '' @ join_or (t # ss)"

definition check_database_matches_environment :: "(string \<Rightarrow> string option result) \<Rightarrow> settings \<Rightarrow> unit result" where
  "check_database_matches_environment url_database s =
     bind_result (url_database (database_url s)) (\<lambda>name.
       let db_name = (case name of None \<Rightarrow> [] | Some n \<Rightarrow> n);
           suffixes = ALLOWED_DB_SUFFIXES (app_env s)
       in if \<not> list_ex (\<lambda>x. suffix x db_name) suffixes
          then Inl (ValueError (''APP_ENV='' @ env_name (app_env s) @ '' requires a database name ending with '' @
                 join_or suffixes @ '', got '' @ repr_str db_name @
                 ''; refusing to start against another environment's database''))
          else Inr ())"

definition check_production_safety :: "settings \<Rightarrow> unit result" where
  "check_production_safety s =
     (if debug s then Inl (ValueError ''DEBUG must be false when APP_ENV=production'')
      else if (case jwt_secret_key s of None \<Rightarrow> True | Some k \<Rightarrow> length k < MIN_PRODUCTION_SECRET_LENGTH)
      then Inl (ValueError (''JWT_SECRET_KEY (at least '' @ str_nat MIN_PRODUCTION_SECRET_LENGTH @
             '' characters) is required when APP_ENV=production''))
      else Inr ())"

definition check_environment_rules :: "(string \<Rightarrow> string option result) \<Rightarrow> settings \<Rightarrow> settings result" where
  "check_environment_rules url_database s =
     bind_result (check_database_matches_environment url_database s) (\<lambda>_.
       bind_result (if is_production s then check_production_safety s else Inr ()) (\<lambda>_. Inr s))"

section \<open>Properties\<close>

lemma database_matches:
  assumes "check_database_matches_environment url_database s = Inr ()"
  obtains name where "url_database (database_url s) = Inr (Some name)" "list_ex (\<lambda>x. suffix x name) (ALLOWED_DB_SUFFIXES (app_env s))"
proof -
  obtain n where n: "url_database (database_url s) = Inr n"
    "list_ex (\<lambda>x. suffix x (case n of None \<Rightarrow> [] | Some n \<Rightarrow> n)) (ALLOWED_DB_SUFFIXES (app_env s))"
    using assms by (auto simp: check_database_matches_environment_def bind_result_Inr Let_def split: if_splits)
  then show ?thesis using that by (cases n; cases "app_env s") auto
qed

text \<open>
  C25: the start-up checks keep the environments apart. Settings that pass never
  share a database name between sandbox and production, whatever the URL parser
  does, and production settings that pass have debugging off and a secret of at
  least 32 characters.
\<close>

theorem environments_isolated:
  assumes "check_environment_rules url_database s = Inr s'" and "check_environment_rules url_database p = Inr p'"
    and "app_env s = Sandbox" and "app_env p = Production"
  shows "url_database (database_url s) \<noteq> url_database (database_url p) \<and> database_url s \<noteq> database_url p \<and>
    \<not> debug p' \<and> (\<exists>k. jwt_secret_key p' = Some k \<and> 32 \<le> length k)"
proof -
  have s: "check_database_matches_environment url_database s = Inr ()"
    and p: "check_database_matches_environment url_database p = Inr ()" "check_production_safety p = Inr ()" "p' = p"
    using assms by (auto simp: check_environment_rules_def bind_result_Inr is_production_def split: if_splits)
  obtain n where n: "url_database (database_url s) = Inr (Some n)" "suffix ''_sandbox'' n \<or> suffix ''_test'' n"
    using database_matches[OF s] assms(3) by auto
  obtain m where m: "url_database (database_url p) = Inr (Some m)" "suffix ''_production'' m"
    using database_matches[OF p(1)] assms(4) by auto
  have "n \<noteq> m"
  proof
    assume "n = m"
    then have "suffix ''_sandbox'' ''_production'' \<or> suffix ''_test'' ''_production''"
      using n(2) m(2) suffix_length_suffix[of _ m "''_production''"] by auto
    then show False by (simp add: suffix_def Cons_eq_append_conv)
  qed
  then have "url_database (database_url s) \<noteq> url_database (database_url p)" using n(1) m(1) by simp
  moreover have "\<not> debug p' \<and> (\<exists>k. jwt_secret_key p' = Some k \<and> 32 \<le> length k)"
    using p(2,3) by (auto simp: check_production_safety_def MIN_PRODUCTION_SECRET_LENGTH_def split: if_splits option.splits)
  ultimately show ?thesis by auto
qed

definition after_slash :: "string \<Rightarrow> string option result" where
  "after_slash url = Inr (Some (rev (takeWhile (\<lambda>c. c \<noteq> CHR ''/'') (rev url))))"

definition production_settings :: settings where
  "production_settings = (default_settings ''pg://db/fleet_production'')\<lparr>app_env := Production,
     jwt_secret_key := Some ''0123456789012345678901234567890123''\<rparr>"

theorem environments_isolated_witness:
  "check_environment_rules after_slash (default_settings ''pg://db/fleet_sandbox'') = Inr (default_settings ''pg://db/fleet_sandbox'') \<and>
   check_environment_rules after_slash production_settings = Inr production_settings \<and>
   database_url (default_settings ''pg://db/fleet_sandbox'') \<noteq> database_url production_settings"
proof -
  have s: "check_environment_rules after_slash (default_settings ''pg://db/fleet_sandbox'') = Inr (default_settings ''pg://db/fleet_sandbox'')"
    by (simp add: check_environment_rules_def check_database_matches_environment_def after_slash_def default_settings_def
        is_production_def suffix_def)
  have p: "check_environment_rules after_slash production_settings = Inr production_settings"
    by (simp add: check_environment_rules_def check_database_matches_environment_def after_slash_def default_settings_def
        is_production_def production_settings_def check_production_safety_def MIN_PRODUCTION_SECRET_LENGTH_def suffix_def)
  show ?thesis using s p environments_isolated[OF s p] by (simp add: production_settings_def default_settings_def)
qed

end
