(* ===== verification/Users.thy ===== *)
theory Users
  imports AuditLog Config
begin

text \<open>
  \<open>services/user_service.py\<close>, \<open>security.py\<close> and \<open>auth.py\<close>: accounts, credentials,
  bearer tokens and roles. Argon2 (\<open>hash_password\<close>, \<open>verify_password\<close>, via pwdlib)
  and PyJWT (\<open>jwt_encode\<close>, \<open>jwt_decode\<close>) are parameters; the laws the
  properties need of them are hypotheses there. The token type is whatever the
  library uses.
\<close>

section \<open>Accounts\<close>

definition normalize_email :: "string \<Rightarrow> string" where
  "normalize_email email = lower (strip email)"

definition get_user_by_email :: "database \<Rightarrow> string \<Rightarrow> user option result" where
  "get_user_by_email db email = scalar_one_or_none (select_rows (\<lambda>u. u_email u = normalize_email email) (users db))"

definition new_user :: "string \<Rightarrow> string \<Rightarrow> string \<Rightarrow> user_role \<Rightarrow> string option \<Rightarrow> instant \<Rightarrow> int \<Rightarrow> user" where
  "new_user email hashed full_name role phone now i =
     \<lparr>u_id = i, u_email = normalize_email email, u_hashed_password = hashed, u_full_name = full_name, u_role = role,
      u_phone = phone, u_is_active = True, u_created_at = now, u_anonymized_at = None\<rparr>"

definition create_user ::
  "(string \<Rightarrow> string) \<Rightarrow> database \<Rightarrow> string \<Rightarrow> string \<Rightarrow> string \<Rightarrow> user_role \<Rightarrow> string option \<Rightarrow> instant \<Rightarrow> user result \<times> database" where
  "create_user hash_password db email password full_name role phone now =
     (case insert_row user_fits (user_ok db) (new_user email (hash_password password) full_name role phone now) (users db) of
        (Inl IntegrityError, t) \<Rightarrow>
          (Inl (EmailAlreadyRegisteredError (''Email '' @ normalize_email email @ '' is already registered'')), db\<lparr>users := t\<rparr>)
      | (res, t) \<Rightarrow> (res, db\<lparr>users := t\<rparr>))"

text \<open>
  \<open>authenticate\<close>, with the password hashes it verified: what the caller can time.
\<close>

definition DUMMY_PASSWORD_HASH :: "(string \<Rightarrow> string) \<Rightarrow> string" where
  "DUMMY_PASSWORD_HASH hash_password = hash_password ''dummy-password-for-timing''"

definition authenticate ::
  "(string \<Rightarrow> string) \<Rightarrow> (string \<Rightarrow> string \<Rightarrow> bool) \<Rightarrow> database \<Rightarrow> string \<Rightarrow> string \<Rightarrow> user option result \<times> string list" where
  "authenticate hash_password verify_password db email password =
     (case get_user_by_email db email of
        Inl e \<Rightarrow> (Inl e, [])
      | Inr None \<Rightarrow> (Inr None, [DUMMY_PASSWORD_HASH hash_password])
      | Inr (Some u) \<Rightarrow>
          if \<not> verify_password password (u_hashed_password u) \<or> \<not> u_is_active u
          then (Inr None, [u_hashed_password u])
          else (Inr (Some u), [u_hashed_password u]))"

section \<open>Tokens\<close>

record jwt_claims =
  jwt_sub :: string
  jwt_role :: string
  jwt_iat :: instant
  jwt_exp :: instant

definition minutes :: "int \<Rightarrow> int" where
  "minutes n = n * 60 * 10 ^ 6"

definition create_access_token ::
  "(jwt_claims \<Rightarrow> string option \<Rightarrow> string \<Rightarrow> 't result) \<Rightarrow> settings \<Rightarrow> int \<Rightarrow> string \<Rightarrow> int option \<Rightarrow> instant \<Rightarrow> 't result" where
  "create_access_token jwt_encode s user_id role expires_delta now =
     (let delta = (case expires_delta of None \<Rightarrow> minutes (access_token_expire_minutes s) | Some d \<Rightarrow> d)
      in jwt_encode \<lparr>jwt_sub = str_int user_id, jwt_role = role, jwt_iat = now, jwt_exp = now + delta\<rparr>
           (jwt_secret_key s) (jwt_algorithm s))"

text \<open>
  \<open>jwt_decode\<close> returns the \<open>sub\<close> claim of a token it accepts at the given instant;
  \<open>PyJWTError\<close> stands for the library's exception hierarchy.
\<close>

definition decode_access_token ::
  "('t \<Rightarrow> string option \<Rightarrow> string \<Rightarrow> instant \<Rightarrow> string result) \<Rightarrow> settings \<Rightarrow> 't \<Rightarrow> instant \<Rightarrow> int result" where
  "decode_access_token jwt_decode s token now =
     (case jwt_decode token (jwt_secret_key s) (jwt_algorithm s) now of
        Inl PyJWTError \<Rightarrow> Inl InvalidTokenError
      | Inl e \<Rightarrow> Inl e
      | Inr sub \<Rightarrow> (case py_int sub of None \<Rightarrow> Inl InvalidTokenError | Some i \<Rightarrow> Inr i))"

section \<open>Authentication and roles\<close>

definition UNAUTHORIZED :: exn where
  "UNAUTHORIZED = HTTPException 401 ''Not authenticated''"

definition get_current_user ::
  "('t \<Rightarrow> string option \<Rightarrow> string \<Rightarrow> instant \<Rightarrow> string result) \<Rightarrow> settings \<Rightarrow> database \<Rightarrow> 't \<Rightarrow> instant \<Rightarrow> user result" where
  "get_current_user jwt_decode s db token now =
     (case decode_access_token jwt_decode s token now of
        Inl InvalidTokenError \<Rightarrow> Inl UNAUTHORIZED
      | Inl e \<Rightarrow> Inl e
      | Inr user_id \<Rightarrow>
          (case get_row u_id (users db) user_id of
             None \<Rightarrow> Inl UNAUTHORIZED
           | Some u \<Rightarrow> if \<not> u_is_active u then Inl UNAUTHORIZED else Inr u))"

definition require_roles :: "user_role list \<Rightarrow> user \<Rightarrow> user result" where
  "require_roles roles u =
     (if u_role u \<notin> set roles then Inl (HTTPException 403 ''Insufficient permissions'') else Inr u)"

definition require_admin :: "user \<Rightarrow> user result" where
  "require_admin u = require_roles [ADMIN] u"

definition require_user :: "user \<Rightarrow> user result" where
  "require_user u = require_roles [USER] u"

section \<open>The account invariant\<close>

text \<open>
  What the unique constraints of \<open>users\<close> and \<open>renters\<close> say of the stored rows.
\<close>

definition accounts_ok :: "database \<Rightarrow> bool" where
  "accounts_ok db =
     (wf_table u_id (users db) \<and> distinct (map u_email (rows (users db))) \<and>
      wf_table rt_id (renters db) \<and> distinct (map rt_license_number (rows (renters db))) \<and>
      distinct (filter (\<lambda>u. u \<noteq> None) (map rt_user_id (rows (renters db)))))"

lemma get_user_by_email_ok:
  "accounts_ok db \<Longrightarrow> get_user_by_email db email = Inr (find (\<lambda>u. u_email u = normalize_email email) (rows (users db)))"
  by (simp add: get_user_by_email_def select_rows_def accounts_ok_def scalar_unique)

lemma normalize_email_idem [simp]: "normalize_email (normalize_email e) = normalize_email e"
  by (simp add: normalize_email_def strip_lower)

lemma create_user_cases:
  obtains (failed) "create_user h db email pw name role phone now = (Inl DataError, db\<lparr>users := burn_id (users db)\<rparr>)"
      "\<not> user_fits (new_user email (h pw) name role phone now (next_id (users db)))"
  | (taken) "create_user h db email pw name role phone now =
      (Inl (EmailAlreadyRegisteredError (''Email '' @ normalize_email email @ '' is already registered'')), db\<lparr>users := burn_id (users db)\<rparr>)"
      "user_fits (new_user email (h pw) name role phone now (next_id (users db)))"
      "normalize_email email \<in> u_email ` set (rows (users db))"
  | (created) "create_user h db email pw name role phone now =
      (Inr (new_user email (h pw) name role phone now (next_id (users db))),
       db\<lparr>users := append_row (new_user email (h pw) name role phone now) (users db)\<rparr>)"
      "user_fits (new_user email (h pw) name role phone now (next_id (users db)))"
      "normalize_email email \<notin> u_email ` set (rows (users db))"
proof -
  have ok: "user_ok db (new_user email (h pw) name role phone now i) \<longleftrightarrow> normalize_email email \<notin> u_email ` set (rows (users db))" for i
    by (auto simp: user_ok_def new_user_def list_ex_iff image_iff)
  show ?thesis
    by (rule insert_row_cases[of user_fits "user_ok db" "new_user email (h pw) name role phone now" "users db"];
        rule failed taken created) (simp_all add: create_user_def ok)
qed

lemma create_user_accounts_ok:
  "accounts_ok db \<Longrightarrow> accounts_ok (snd (create_user h db email pw name role phone now))"
  by (rule create_user_cases[where h = h and db = db and email = email and pw = pw and name = name and role = role and phone = phone and now = now])
     (auto simp: accounts_ok_def rows_burn rows_append wf_table_burn wf_table_append new_user_def)

section \<open>Properties\<close>

text \<open>
  Registration is unique up to the spelling of the address. If an account has
  the normalised address, \<open>create_user\<close> raises \<open>EmailAlreadyRegisteredError\<close> and
  stores nothing; otherwise (with values that fit) the new account is stored, is
  found under every spelling with the same normal form, the unique constraints
  still hold, and registering any such spelling again is refused.
\<close>

lemma create_user_unique:
  assumes "accounts_ok db" and "user_fits (new_user email (hash_password password) full_name role phone now (next_id (users db)))"
    and "normalize_email email' = normalize_email email"
  shows "if normalize_email email \<in> u_email ` set (rows (users db))
    then fst (create_user hash_password db email password full_name role phone now) =
        Inl (EmailAlreadyRegisteredError (''Email '' @ normalize_email email @ '' is already registered'')) \<and>
      rows (users (snd (create_user hash_password db email password full_name role phone now))) = rows (users db)
    else \<exists>u db'. create_user hash_password db email password full_name role phone now = (Inr u, db') \<and>
      accounts_ok db' \<and> get_user_by_email db' email' = Inr (Some u) \<and> u_hashed_password u = hash_password password \<and>
      (\<exists>e. fst (create_user hash_password db' email' password' full_name' role' phone' now') = Inl e)"
proof (rule create_user_cases[where h = hash_password and db = db and email = email and pw = password and name = full_name
      and role = role and phone = phone and now = now])
  let ?u = "new_user email (hash_password password) full_name role phone now"
  let ?db = "db\<lparr>users := append_row ?u (users db)\<rparr>"
  assume c: "create_user hash_password db email password full_name role phone now = (Inr (?u (next_id (users db))), ?db)"
    and new: "normalize_email email \<notin> u_email ` set (rows (users db))"
  have ok: "accounts_ok ?db" using create_user_accounts_ok[OF assms(1), of hash_password email password full_name role phone now] c by simp
  have mem: "?u (next_id (users db)) \<in> set (rows (users ?db))" by (simp add: rows_append)
  have key: "u_email (?u (next_id (users db))) = normalize_email email'" using assms(3) by (simp add: new_user_def)
  have "distinct (map u_email (rows (users ?db)))" using ok by (simp add: accounts_ok_def)
  then have "find (\<lambda>u. u_email u = normalize_email email') (rows (users ?db)) = Some (?u (next_id (users db)))"
    using mem key find_key_iff[of u_email] by blast
  then have get: "get_user_by_email ?db email' = Inr (Some (?u (next_id (users db))))" using get_user_by_email_ok[OF ok] by simp
  have "normalize_email email' \<in> u_email ` set (rows (users ?db))" using mem key by (metis image_eqI)
  then have "\<exists>e. fst (create_user hash_password ?db email' password' full_name' role' phone' now') = Inl e"
    using create_user_cases[where h = hash_password and db = ?db and email = email' and pw = password' and name = full_name'
      and role = role' and phone = phone' and now = now'] by (metis fst_conv)
  then show ?thesis using c new ok get by (auto simp: new_user_def)
qed (use assms(2) in \<open>auto simp: rows_burn\<close>)

text \<open>
  C10: \<open>authenticate\<close> accepts exactly the active account whose normalised address
  and password match, and every call verifies exactly one hash: an unknown address
  costs the same verification as a known one, so the timing does not reveal which
  addresses are registered.
\<close>

theorem authenticate_exact:
  assumes "accounts_ok db"
  shows "\<exists>r. fst (authenticate hash_password verify_password db email password) = Inr r \<and>
    length (snd (authenticate hash_password verify_password db email password)) = 1 \<and>
    (r = Some u \<longleftrightarrow> u \<in> set (rows (users db)) \<and> u_email u = normalize_email email \<and>
       verify_password password (u_hashed_password u) \<and> u_is_active u)"
proof -
  have d: "distinct (map u_email (rows (users db)))" using assms by (simp add: accounts_ok_def)
  have mem: "u \<in> set (rows (users db)) \<and> u_email u = normalize_email email \<longleftrightarrow>
      find (\<lambda>u. u_email u = normalize_email email) (rows (users db)) = Some u"
    using find_key_iff[OF d] by simp
  show ?thesis
    by (cases "find (\<lambda>u. u_email u = normalize_email email) (rows (users db))")
       (use mem in \<open>auto simp: authenticate_def get_user_by_email_ok[OF assms]\<close>)
qed

definition accounts_demo_db :: database where
  "accounts_demo_db = snd (create_user (\<lambda>p. CHR ''h'' # p) empty_db ''ann@example.com'' ''pw'' ''Ann'' USER None 0)"

theorem authenticate_exact_witness:
  "accounts_ok accounts_demo_db \<and>
   (\<exists>r. fst (authenticate (\<lambda>p. CHR ''h'' # p) (\<lambda>p h. h = CHR ''h'' # p) accounts_demo_db ''Ann@example.com'' ''pw'') = Inr r \<and>
     r = Some (new_user ''ann@example.com'' ''hpw'' ''Ann'' USER None 0 1))"
proof -
  have a: "accounts_ok accounts_demo_db" unfolding accounts_demo_db_def
    by (rule create_user_accounts_ok) (simp add: accounts_ok_def empty_db_def wf_table_empty rows_empty)
  have r: "rows (users accounts_demo_db) = [new_user ''ann@example.com'' ''hpw'' ''Ann'' USER None 0 1]" by code_simp
  have n: "normalize_email ''Ann@example.com'' = normalize_email ''ann@example.com''" by code_simp
  show ?thesis
    using a authenticate_exact[OF a, of "\<lambda>p. CHR ''h'' # p" "\<lambda>p h. h = CHR ''h'' # p" "''Ann@example.com''" "''pw''"
      "new_user ''ann@example.com'' ''hpw'' ''Ann'' USER None 0 1"]
    by (auto simp: r n new_user_def)
qed

text \<open>
  A bearer token names its user until it expires, and only while the account
  is active. With a token library that keeps its contract for the configured key
  (a token it issued decodes to its subject before the expiry, read in whole
  seconds, and is rejected from then on), a token made for \<open>user_id\<close> resolves to
  that account between issue and expiry, to 401 when the account is missing or
  inactive, and to 401 after the expiry.
\<close>

lemma token_resolves_user:
  assumes "\<forall>c tok t. jwt_encode c (jwt_secret_key s) (jwt_algorithm s) = Inr tok \<and> jwt_iat c \<le> t \<and> t < jwt_exp c div 10 ^ 6 * 10 ^ 6
      \<longrightarrow> jwt_decode tok (jwt_secret_key s) (jwt_algorithm s) t = Inr (jwt_sub c)"
    and "\<forall>c tok t. jwt_encode c (jwt_secret_key s) (jwt_algorithm s) = Inr tok \<and> jwt_exp c div 10 ^ 6 * 10 ^ 6 \<le> t
      \<longrightarrow> jwt_decode tok (jwt_secret_key s) (jwt_algorithm s) t = Inl PyJWTError"
    and "create_access_token jwt_encode s user_id role None now = Inr tok" and "now \<le> t"
  shows "get_current_user jwt_decode s db tok t =
    (if t < (now + minutes (access_token_expire_minutes s)) div 10 ^ 6 * 10 ^ 6
     then (case get_row u_id (users db) user_id of
             None \<Rightarrow> Inl (HTTPException 401 ''Not authenticated'')
           | Some u \<Rightarrow> if u_is_active u then Inr u else Inl (HTTPException 401 ''Not authenticated''))
     else Inl (HTTPException 401 ''Not authenticated''))"
proof -
  let ?c = "\<lparr>jwt_sub = str_int user_id, jwt_role = role, jwt_iat = now, jwt_exp = now + minutes (access_token_expire_minutes s)\<rparr>"
  have enc: "jwt_encode ?c (jwt_secret_key s) (jwt_algorithm s) = Inr tok" using assms(3) by (simp add: create_access_token_def)
  show ?thesis
  proof (cases "t < jwt_exp ?c div 10 ^ 6 * 10 ^ 6")
    case True
    then have "decode_access_token jwt_decode s tok t = Inr user_id"
      using assms(1)[rule_format, of ?c tok t] enc assms(4) by (simp add: decode_access_token_def)
    then show ?thesis using True by (auto simp: get_current_user_def UNAUTHORIZED_def split: option.split)
  next
    case False
    then have "decode_access_token jwt_decode s tok t = Inl InvalidTokenError"
      using assms(2)[rule_format, of ?c tok t] enc by (simp add: decode_access_token_def)
    then show ?thesis using False by (simp add: get_current_user_def UNAUTHORIZED_def)
  qed
qed

definition pair_encode :: "jwt_claims \<Rightarrow> string option \<Rightarrow> string \<Rightarrow> (jwt_claims \<times> string) result" where
  "pair_encode c key alg = (case key of None \<Rightarrow> Inl TypeError | Some k \<Rightarrow> Inr (c, k))"

definition pair_decode :: "jwt_claims \<times> string \<Rightarrow> string option \<Rightarrow> string \<Rightarrow> instant \<Rightarrow> string result" where
  "pair_decode tok key alg t = (case key of None \<Rightarrow> Inl TypeError
     | Some k \<Rightarrow> if snd tok = k \<and> jwt_iat (fst tok) \<le> t \<and> t < jwt_exp (fst tok) div 10 ^ 6 * 10 ^ 6
                 then Inr (jwt_sub (fst tok)) else Inl PyJWTError)"

end
