(* ===== verification/Erasure.thy ===== *)
theory Erasure
  imports Marketing Users
begin

text \<open>
  \<open>services/erasure_service.py\<close>: the right to erasure as one transaction. The
  random values (\<open>uuid4().hex\<close> for the address and for each renter, the hash of
  a random password) are arguments; the row lock of \<open>with_for_update\<close> orders two
  erasures of one subject, so the model is sequential.
\<close>

section \<open>The transaction\<close>

definition ANONYMIZED_NAME :: string where "ANONYMIZED_NAME = ''Anonymized User''"
definition EVENT_TYPE :: string where "EVENT_TYPE = ''user_anonymize''"

definition anon_email :: "string \<Rightarrow> string" where
  "anon_email hex = ''anon-'' @ hex @ ''@anon.invalid''"

definition anon_license :: "string \<Rightarrow> string" where
  "anon_license hex = ''anon-'' @ hex"

definition anonymize_user_row :: "string \<Rightarrow> string \<Rightarrow> instant \<Rightarrow> user \<Rightarrow> user" where
  "anonymize_user_row hex hashed now u =
     u\<lparr>u_email := anon_email hex, u_full_name := ANONYMIZED_NAME, u_phone := None, u_hashed_password := hashed,
       u_is_active := False, u_anonymized_at := Some now\<rparr>"

definition anonymize_renter :: "string \<Rightarrow> renter \<Rightarrow> renter" where
  "anonymize_renter hex r = r\<lparr>rt_full_name := ANONYMIZED_NAME, rt_license_number := anon_license hex\<rparr>"

text \<open>
  The flush of a changed user or renter: the statement fails when a value does not
  fit or the new address or licence belongs to another row.
\<close>

definition flush_user :: "user \<Rightarrow> (user \<Rightarrow> user) \<Rightarrow> database \<Rightarrow> database result" where
  "flush_user u f db =
     (if \<not> user_fits (f u) then Inl DataError
      else if list_ex (\<lambda>s. u_id s \<noteq> u_id u \<and> u_email s = u_email (f u)) (rows (users db)) then Inl IntegrityError
      else Inr (db\<lparr>users := set_row u_id (u_id u) f (users db)\<rparr>))"

definition flush_renter :: "renter \<Rightarrow> (renter \<Rightarrow> renter) \<Rightarrow> database \<Rightarrow> database result" where
  "flush_renter r f db =
     (if \<not> renter_fits (f r) then Inl DataError
      else if list_ex (\<lambda>s. rt_id s \<noteq> rt_id r \<and> rt_license_number s = rt_license_number (f r)) (rows (renters db))
      then Inl IntegrityError
      else Inr (db\<lparr>renters := set_row rt_id (rt_id r) f (renters db)\<rparr>))"

fun flush_renters :: "(int \<Rightarrow> string) \<Rightarrow> renter list \<Rightarrow> database \<Rightarrow> database result" where
  "flush_renters hex [] db = Inr db"
| "flush_renters hex (r # rs) db =
     bind_result (flush_renter r (anonymize_renter (hex (rt_id r))) db) (flush_renters hex rs)"

definition anonymize_renters :: "(int \<Rightarrow> string) \<Rightarrow> int \<Rightarrow> database \<Rightarrow> (nat \<times> database) result" where
  "anonymize_renters hex user_id db =
     (let rs = select_rows (\<lambda>r. rt_user_id r = Some user_id) (renters db)
      in bind_result (flush_renters hex rs db) (\<lambda>db'. Inr (length rs, db')))"

definition delete_counted :: "('r \<Rightarrow> bool) \<Rightarrow> 'r table \<Rightarrow> nat \<times> 'r table" where
  "delete_counted p t = (count_rows p t, delete_rows p t)"

definition erase ::
  "string \<Rightarrow> string \<Rightarrow> (int \<Rightarrow> string) \<Rightarrow> instant \<Rightarrow> instant \<Rightarrow> user \<Rightarrow> database \<Rightarrow> ((string \<times> nat) list \<times> database) result" where
  "erase user_hex hashed renter_hex now now' u db =
     bind_result (flush_user u (anonymize_user_row user_hex hashed now) db) (\<lambda>db.
     bind_result (anonymize_renters renter_hex (u_id u) db) (\<lambda>(renters_anonymized, db).
       let (activity, t) = delete_counted (\<lambda>a. a_user_id a = u_id u) (user_activity db);
           db = db\<lparr>user_activity := t\<rparr>;
           (marketing, t) = delete_counted (\<lambda>m. m_user_id m = u_id u) (marketing_messages db);
           db = db\<lparr>marketing_messages := t\<rparr>;
           (analytics, t) = delete_counted (\<lambda>e. an_user_id e = u_id u) (analytics_events db);
           db = db\<lparr>analytics_events := t\<rparr>;
           (consents, db) = withdraw_all db (u_id u) ''erasure'' now'
       in Inr ([(''renters_anonymized'', renters_anonymized), (''activity_deleted'', activity),
                (''marketing_messages_deleted'', marketing), (''analytics_events_deleted'', analytics),
                (''consents_withdrawn'', consents)], db)))"

text \<open>A rollback restores every row; only the sequences keep what they handed out.\<close>

definition rolled_back :: "database \<Rightarrow> database \<Rightarrow> database" where
  "rolled_back db staged =
     db\<lparr>consent_history := (consent_history db)\<lparr>next_id := next_id (consent_history staged)\<rparr>,
        audit_events := (audit_events db)\<lparr>next_id := next_id (audit_events staged)\<rparr>\<rparr>"

definition anonymize_user ::
  "string \<Rightarrow> string \<Rightarrow> (int \<Rightarrow> string) \<Rightarrow> database \<Rightarrow> int \<Rightarrow> int \<Rightarrow> string \<Rightarrow> instant \<Rightarrow> instant \<Rightarrow>
     (user \<times> string \<times> (string \<times> nat) list) result \<times> database" where
  "anonymize_user user_hex hashed renter_hex db subject_id actor_id correlation_id now now' =
     (case scalar_one_or_none (select_rows (\<lambda>u. u_id u = subject_id) (users db)) of
        Inl e \<Rightarrow> (Inl e, db)
      | Inr None \<Rightarrow> (Inl (NotFoundError ''User not found''), db)
      | Inr (Some u) \<Rightarrow>
          if u_anonymized_at u \<noteq> None
          then bind_db (record_audit_event EVENT_TYPE (Some actor_id) (Some (u_id u)) ''already_anonymized'' correlation_id now db)
                 (\<lambda>_ db. (Inr (u, ''already_anonymized'', []), db))
          else (case erase user_hex hashed renter_hex now now' u db of
                  Inl e \<Rightarrow> (Inl e, db)
                | Inr (actions, staged) \<Rightarrow>
                    (case add_audit_event EVENT_TYPE (Some actor_id) (Some (u_id u)) ''anonymized'' correlation_id now staged of
                       (Inl e, failed) \<Rightarrow> (Inl e, rolled_back db failed)
                     | (Inr _, db') \<Rightarrow> (Inr (anonymize_user_row user_hex hashed now u, ''anonymized'', actions), db'))))"

section \<open>What the flushes do\<close>

lemma anonymize_fields [simp]:
  "u_id (anonymize_user_row h p now u) = u_id u" "rt_id (anonymize_renter h r) = rt_id r"
  "rt_user_id (anonymize_renter h r) = rt_user_id r"
  "u_is_active (anonymize_user_row h p now u) = False" "u_email (anonymize_user_row h p now u) = anon_email h"
  by (simp_all add: anonymize_user_row_def anonymize_renter_def)

lemma select_by_id:
  "wf_table pk t \<Longrightarrow> scalar_one_or_none (select_rows (\<lambda>r. pk r = i) t) = Inr (get_row pk t i)"
  by (simp add: select_rows_def get_row_def wf_table_def scalar_unique)

text \<open>The unique \<open>user_id\<close> of renters leaves at most one renter per account.\<close>

lemma renters_of_user:
  assumes "distinct (filter (\<lambda>u. u \<noteq> None) (map rt_user_id rs))"
  shows "filter (\<lambda>r. rt_user_id r = Some i) rs = [] \<or> (\<exists>r. filter (\<lambda>r. rt_user_id r = Some i) rs = [r])"
  using assms
proof (induction rs)
  case Nil
  then show ?case by simp
next
  case (Cons r rs)
  show ?case
  proof (cases "rt_user_id r = Some i")
    case True
    then have "filter (\<lambda>r. rt_user_id r = Some i) rs = []"
      using Cons.prems by (force simp: filter_empty_conv)
    then show ?thesis using True by simp
  next
    case False
    then show ?thesis using Cons by (auto split: if_splits)
  qed
qed

definition erased_renters :: "(int \<Rightarrow> string) \<Rightarrow> int \<Rightarrow> renter table \<Rightarrow> renter table" where
  "erased_renters hex user_id t = update_rows (\<lambda>r. rt_user_id r = Some user_id) (\<lambda>r. anonymize_renter (hex (rt_id r)) r) t"

lemma set_row_as_update:
  assumes "wf_table pk t" "filter p (rows t) = [r]"
  shows "set_row pk (pk r) f t = update_rows p f t"
proof -
  have "r \<in> set (filter p (rows t))" using assms(2) by simp
  then have r: "r \<in> set (rows t)" "p r" by simp_all
  have "pk s = pk r \<longleftrightarrow> p s" if "s \<in> set (rows t)" for s
  proof
    assume "pk s = pk r"
    then show "p s" using wf_tableD[OF assms(1) that r(1)] r(2) by simp
  next
    assume "p s"
    then have "s \<in> set (filter p (rows t))" using that by simp
    then show "pk s = pk r" using assms(2) by simp
  qed
  then show ?thesis by (simp add: set_row_def update_rows_def cong: map_cong)
qed

lemma update_none: "filter p (rows t) = [] \<Longrightarrow> update_rows p f t = t"
  by (auto simp: update_rows_def filter_empty_conv intro!: map_idI table.equality)

lemma update_rows_cong: "(\<And>r. r \<in> set (rows t) \<Longrightarrow> p r \<Longrightarrow> f r = g r) \<Longrightarrow> update_rows p f t = update_rows p g t"
  by (simp add: update_rows_def cong: map_cong)

lemma anonymize_renters_ok:
  assumes ok: "accounts_ok base" and db: "renters db = renters base"
    and fresh: "list_all (\<lambda>r. length (hex (rt_id r)) \<le> 32 \<and>
      anon_license (hex (rt_id r)) \<notin> rt_license_number ` set (rows (renters base))) (rows (renters base))"
  shows "\<exists>n. anonymize_renters hex i db = Inr (n, db\<lparr>renters := erased_renters hex i (renters base)\<rparr>)"
proof -
  let ?p = "\<lambda>r. rt_user_id r = Some i"
  have wf: "wf_table rt_id (renters db)" using ok by (simp add: accounts_ok_def db)
  consider "filter ?p (rows (renters db)) = []" | r where "filter ?p (rows (renters db)) = [r]"
    using renters_of_user[of "rows (renters db)" i] ok by (auto simp: accounts_ok_def db)
  then show ?thesis
  proof cases
    case 1
    then show ?thesis by (simp add: anonymize_renters_def select_rows_def erased_renters_def update_none db[symmetric])
  next
    case 2
    have "r \<in> set (rows (renters base))" using arg_cong[OF 2, of set] by (auto simp: db)
    then have new: "length (hex (rt_id r)) \<le> 32" "anon_license (hex (rt_id r)) \<notin> rt_license_number ` set (rows (renters base))"
      using fresh by (auto simp: list_all_iff)
    have "renter_fits (anonymize_renter (hex (rt_id r)) r)"
      using new(1) by (simp add: renter_fits_def anonymize_renter_def ANONYMIZED_NAME_def anon_license_def)
    moreover have "\<not> list_ex (\<lambda>s. rt_id s \<noteq> rt_id r \<and> rt_license_number s = rt_license_number (anonymize_renter (hex (rt_id r)) r))
        (rows (renters db))"
      using new(2) by (auto simp: list_ex_iff anonymize_renter_def image_iff db)
    moreover have "set_row rt_id (rt_id r) (anonymize_renter (hex (rt_id r))) (renters db) = erased_renters hex i (renters db)"
    proof -
      have "s = r" if "s \<in> set (rows (renters db))" "?p s" for s
        using that arg_cong[OF 2, of set] by auto
      then show ?thesis unfolding erased_renters_def set_row_as_update[OF wf 2] by (intro update_rows_cong) simp
    qed
    ultimately show ?thesis using 2 by (simp add: anonymize_renters_def select_rows_def flush_renter_def db)
  qed
qed

lemma flush_user_ok:
  assumes "length hex \<le> 32" "length hashed \<le> 255" "anon_email hex \<notin> u_email ` set (rows (users db))"
  shows "flush_user u (anonymize_user_row hex hashed now) db =
    Inr (db\<lparr>users := set_row u_id (u_id u) (anonymize_user_row hex hashed now) (users db)\<rparr>)"
proof -
  have "user_fits (anonymize_user_row hex hashed now u)"
    using assms by (simp add: user_fits_def anonymize_user_row_def anon_email_def ANONYMIZED_NAME_def opt_width_def)
  moreover have "\<not> list_ex (\<lambda>s. u_id s \<noteq> u_id u \<and> u_email s = u_email (anonymize_user_row hex hashed now u)) (rows (users db))"
    using assms(3) by (auto simp: list_ex_iff image_iff)
  ultimately show ?thesis by (simp add: flush_user_def)
qed

section \<open>The erased database\<close>

text \<open>What the random generators are relied on for: short values nobody has yet.\<close>

definition fresh_random :: "string \<Rightarrow> string \<Rightarrow> (int \<Rightarrow> string) \<Rightarrow> database \<Rightarrow> bool" where
  "fresh_random user_hex hashed renter_hex db =
     (length user_hex \<le> 32 \<and> length hashed \<le> 255 \<and> anon_email user_hex \<notin> u_email ` set (rows (users db)) \<and>
      list_all (\<lambda>r. length (renter_hex (rt_id r)) \<le> 32 \<and>
        anon_license (renter_hex (rt_id r)) \<notin> rt_license_number ` set (rows (renters db))) (rows (renters db)))"

definition erased_tables :: "string \<Rightarrow> string \<Rightarrow> (int \<Rightarrow> string) \<Rightarrow> instant \<Rightarrow> int \<Rightarrow> database \<Rightarrow> database" where
  "erased_tables user_hex hashed renter_hex now i db =
     db\<lparr>users := set_row u_id i (anonymize_user_row user_hex hashed now) (users db),
        renters := erased_renters renter_hex i (renters db),
        user_activity := delete_rows (\<lambda>a. a_user_id a = i) (user_activity db),
        marketing_messages := delete_rows (\<lambda>m. m_user_id m = i) (marketing_messages db),
        analytics_events := delete_rows (\<lambda>e. an_user_id e = i) (analytics_events db)\<rparr>"

definition erased_db :: "string \<Rightarrow> string \<Rightarrow> (int \<Rightarrow> string) \<Rightarrow> instant \<Rightarrow> instant \<Rightarrow> int \<Rightarrow> database \<Rightarrow> database" where
  "erased_db user_hex hashed renter_hex now now' i db =
     snd (withdraw_all (erased_tables user_hex hashed renter_hex now i db) i ''erasure'' now')"

lemma erase_ok:
  assumes "accounts_ok db" "fresh_random user_hex hashed renter_hex db"
  shows "\<exists>actions. erase user_hex hashed renter_hex now now' u db = Inr (actions, erased_db user_hex hashed renter_hex now now' (u_id u) db)"
proof -
  let ?db1 = "db\<lparr>users := set_row u_id (u_id u) (anonymize_user_row user_hex hashed now) (users db)\<rparr>"
  let ?p = "\<lambda>r. rt_user_id r = Some (u_id u)"
  have flush: "flush_user u (anonymize_user_row user_hex hashed now) db = Inr ?db1"
    using assms(2) by (intro flush_user_ok) (simp_all add: fresh_random_def)
  obtain n where "anonymize_renters renter_hex (u_id u) ?db1 = Inr (n, ?db1\<lparr>renters := erased_renters renter_hex (u_id u) (renters db)\<rparr>)"
    using anonymize_renters_ok[where base = db and db = ?db1 and hex = renter_hex and i = "u_id u"] assms by (auto simp: fresh_random_def)
  then show ?thesis using flush
    by (simp add: erase_def delete_counted_def erased_db_def erased_tables_def split_beta Let_def)
qed

lemma anonymize_user_ok:
  assumes "accounts_ok db" "fresh_random user_hex hashed renter_hex db" "get_row u_id (users db) i = Some u"
    "u_anonymized_at u = None" "length correlation_id \<le> 64"
  shows "\<exists>actions. anonymize_user user_hex hashed renter_hex db i actor_id correlation_id now now' =
    (Inr (anonymize_user_row user_hex hashed now u, ''anonymized'', actions),
     (erased_db user_hex hashed renter_hex now now' i db)\<lparr>audit_events := append_row
       (audit_row ''user_anonymize'' (Some actor_id) (Some i) ''anonymized'' correlation_id now) (audit_events db)\<rparr>)"
proof -
  have i: "u_id u = i" using get_row_Some[OF assms(3)] by simp
  have wf: "wf_table u_id (users db)" using assms(1) by (simp add: accounts_ok_def)
  obtain actions where e: "erase user_hex hashed renter_hex now now' u db =
      Inr (actions, erased_db user_hex hashed renter_hex now now' i db)"
    using erase_ok[OF assms(1,2), of now now' u] i by auto
  have a: "audit_events (erased_db user_hex hashed renter_hex now now' i db) = audit_events db"
    by (simp add: erased_db_def erased_tables_def withdraw_all_def Let_def)
  show ?thesis using e i assms(4)
    by (auto simp: anonymize_user_def select_by_id[OF wf] assms(3) EVENT_TYPE_def add_audit_event_ok assms(5) a)
qed

lemma erased_consents_ok:
  assumes "consents_ok db"
  shows "consents_ok (erased_tables user_hex hashed renter_hex now i db)"
    "current_state (erased_tables user_hex hashed renter_hex now i db) = current_state db"
    "evidence_ok db \<Longrightarrow> evidence_ok (erased_tables user_hex hashed renter_hex now i db)"
proof -
  show "consents_ok (erased_tables user_hex hashed renter_hex now i db)"
    using assms by (simp add: consents_ok_def erased_tables_def wf_table_set)
qed (simp_all add: erased_tables_def current_state_def evidence_ok_def)

lemma erased_denies:
  assumes "consents_ok db"
  shows "consents_ok (erased_db user_hex hashed renter_hex now now' i db)"
    "current_state (erased_db user_hex hashed renter_hex now now' i db) = all_withdrawn i (current_state db)"
    "evidence_ok db \<Longrightarrow> evidence_ok (erased_db user_hex hashed renter_hex now now' i db)"
  using erased_consents_ok[OF assms]
  by (simp_all add: erased_db_def withdraw_all_ok withdraw_all_state withdraw_all_evidence)

lemma erased_db_tables [simp]:
  "users (erased_db h p f now now' i db) = set_row u_id i (anonymize_user_row h p now) (users db)"
  "renters (erased_db h p f now now' i db) = erased_renters f i (renters db)"
  "user_activity (erased_db h p f now now' i db) = delete_rows (\<lambda>a. a_user_id a = i) (user_activity db)"
  "marketing_messages (erased_db h p f now now' i db) = delete_rows (\<lambda>m. m_user_id m = i) (marketing_messages db)"
  "analytics_events (erased_db h p f now now' i db) = delete_rows (\<lambda>e. an_user_id e = i) (analytics_events db)"
  "rentals (erased_db h p f now now' i db) = rentals db"
  "vehicles (erased_db h p f now now' i db) = vehicles db"
  "stations (erased_db h p f now now' i db) = stations db"
  "telemetry_readings (erased_db h p f now now' i db) = telemetry_readings db"
  "audit_events (erased_db h p f now now' i db) = audit_events db"
  by (simp_all add: erased_db_def erased_tables_def withdraw_all_def Let_def)

lemma scalar_one_mem: "scalar_one_or_none xs = Inr (Some x) \<Longrightarrow> x \<in> set xs"
  by (cases xs rule: scalar_one_or_none.cases) auto

text \<open>The history grows by revocations of the account.\<close>

lemma erased_history:
  "\<exists>more. rows (consent_history (erased_db h p f now now' i db)) = rows (consent_history db) @ more \<and>
     list_all (\<lambda>h. h_user_id h = i \<and> h_action h = REVOKE) more"
proof -
  let ?mk = "\<lambda>c. history_row i (c_purpose c) REVOKE (c_policy_version c) ''erasure'' now'"
  let ?cs = "select_rows (\<lambda>c. c_user_id c = i \<and> c_status c = GRANTED) (user_consents db)"
  obtain more where "rows (fold (\<lambda>c. append_row (?mk c)) ?cs (consent_history db)) = rows (consent_history db) @ more"
    "\<forall>x \<in> set more. \<exists>c \<in> set ?cs. \<exists>k. x = ?mk c k" using rows_fold_append[of ?mk ?cs "consent_history db"] by blast
  then show ?thesis
    by (intro exI[of _ more]) (auto simp: erased_db_def erased_tables_def withdraw_all_def Let_def list_all_iff history_row_def)
qed

text \<open>An inactive account does not log in.\<close>

lemma inactive_not_authenticated:
  assumes wf: "wf_table u_id (users db)" and get: "get_row u_id (users db) i = Some u" and "\<not> u_is_active u"
    and a: "fst (authenticate hash_password verify_password db email password) = Inr (Some x)"
  shows "u_id x \<noteq> i"
proof -
  have "get_user_by_email db email = Inr (Some x)" and active: "u_is_active x"
    using a by (auto simp: authenticate_def split: sum.splits option.splits if_splits)
  then have "x \<in> set (rows (users db))"
    by (auto simp: get_user_by_email_def select_rows_def dest!: scalar_one_mem)
  then have "get_row u_id (users db) (u_id x) = Some x" by (rule get_row_mem[OF wf])
  then show ?thesis using get assms(3) active by auto
qed

lemma filter_update_other:
  "(\<And>x. q x \<Longrightarrow> p x \<and> p (f x)) \<Longrightarrow> filter (\<lambda>x. \<not> p x) (map (\<lambda>x. if q x then f x else x) xs) = filter (\<lambda>x. \<not> p x) xs"
  by (induction xs) auto

lemma distinct_map_set_fresh:
  assumes "distinct (map pk xs)" "distinct (map key xs)" "k \<notin> key ` set xs" "\<And>x. key (f x) = k"
  shows "distinct (map key (map (\<lambda>x. if pk x = i then f x else x) xs))"
  using assms(1,2,3)
proof (induction xs)
  case Nil
  then show ?case by simp
next
  case (Cons x xs)
  show ?case
  proof (cases "pk x = i")
    case True
    then have "map (\<lambda>x. if pk x = i then f x else x) xs = xs"
      using Cons.prems by (intro map_idI) (auto simp: image_iff)
    then show ?thesis using Cons.prems True assms(4) by (auto simp: image_iff)
  next
    case False
    then show ?thesis using Cons assms(4) by (auto simp: image_iff)
  qed
qed

lemma erased_accounts_ok:
  assumes "accounts_ok db" "fresh_random user_hex hashed renter_hex db"
  shows "accounts_ok (erased_db user_hex hashed renter_hex now now' i db)"
proof -
  have emails: "distinct (map u_email (rows (set_row u_id i (anonymize_user_row user_hex hashed now) (users db))))"
    unfolding rows_set using assms by (intro distinct_map_set_fresh[where k = "anon_email user_hex"])
      (simp_all add: accounts_ok_def wf_table_def fresh_random_def)
  let ?p = "\<lambda>r. rt_user_id r = Some i"
  have wf: "wf_table rt_id (renters db)" using assms(1) by (simp add: accounts_ok_def)
  have owners: "map rt_user_id (rows (erased_renters renter_hex i (renters db))) = map rt_user_id (rows (renters db))"
    by (simp add: erased_renters_def rows_update)
  have licences: "distinct (map rt_license_number (rows (erased_renters renter_hex i (renters db))))"
  proof -
    consider "filter ?p (rows (renters db)) = []" | r where "filter ?p (rows (renters db)) = [r]"
      using renters_of_user[of "rows (renters db)" i] assms(1) by (auto simp: accounts_ok_def)
    then show ?thesis
    proof cases
      case 1
      then show ?thesis using assms(1) by (simp add: erased_renters_def update_none accounts_ok_def)
    next
      case 2
      have r: "r \<in> set (rows (renters db))" using arg_cong[OF 2, of set] by auto
      have "s = r" if "s \<in> set (rows (renters db))" "?p s" for s using that arg_cong[OF 2, of set] by auto
      then have "erased_renters renter_hex i (renters db) = set_row rt_id (rt_id r) (anonymize_renter (renter_hex (rt_id r))) (renters db)"
        unfolding erased_renters_def set_row_as_update[OF wf 2] by (intro update_rows_cong) simp
      then show ?thesis using assms wf r
        by (simp only: rows_set, intro distinct_map_set_fresh[where k = "anon_license (renter_hex (rt_id r))"])
           (auto simp: accounts_ok_def wf_table_def fresh_random_def anonymize_renter_def list_all_iff)
    qed
  qed
  have "wf_table rt_id (erased_renters renter_hex i (renters db))"
    unfolding erased_renters_def using wf by (rule wf_table_update) simp
  then show ?thesis using assms(1) emails licences owners
    by (simp add: accounts_ok_def wf_table_set)
qed

lemma consents_ok_audit [simp]:
  "consents_ok (db\<lparr>audit_events := t\<rparr>) = consents_ok db" "current_state (db\<lparr>audit_events := t\<rparr>) = current_state db"
  "evidence_ok (db\<lparr>audit_events := t\<rparr>) = evidence_ok db" "accounts_ok (db\<lparr>audit_events := t\<rparr>) = accounts_ok db"
  by (simp_all add: consents_ok_def current_state_def evidence_ok_def accounts_ok_def)

lemma flush_renters_frame:
  "flush_renters hex rs db = Inr db' \<Longrightarrow> users db' = users db \<and> audit_events db' = audit_events db"
  by (induction rs arbitrary: db) (auto simp: bind_result_Inr flush_renter_def split: if_splits)

lemma erase_frame:
  assumes "erase user_hex hashed renter_hex now now' u db = Inr (actions, staged)"
  shows "users staged = set_row u_id (u_id u) (anonymize_user_row user_hex hashed now) (users db)"
    and "audit_events staged = audit_events db"
  using assms
  by (auto simp: erase_def bind_result_Inr flush_user_def anonymize_renters_def withdraw_all_def delete_counted_def Let_def
      dest!: flush_renters_frame split: if_splits)

lemmas erase_audit = erase_frame(2)

lemma anonymize_user_users:
  assumes "wf_table u_id (users db)"
    and "anonymize_user user_hex hashed renter_hex db i actor_id correlation_id now now' = (Inr (u', ''anonymized'', actions), db1)"
  shows "\<exists>u. get_row u_id (users db) i = Some u \<and> u' = anonymize_user_row user_hex hashed now u \<and>
    users db1 = set_row u_id i (anonymize_user_row user_hex hashed now) (users db)"
proof -
  obtain u where u: "get_row u_id (users db) i = Some u" "u_anonymized_at u = None"
    using assms(2) by (auto simp: anonymize_user_def select_by_id[OF assms(1)] bind_db_Inr split: option.splits if_splits)
  then obtain actions' staged where e: "erase user_hex hashed renter_hex now now' u db = Inr (actions', staged)"
    using assms(2) by (auto simp: anonymize_user_def select_by_id[OF assms(1)] split: sum.splits)
  have "u_id u = i" using get_row_Some[OF u(1)] by simp
  then show ?thesis using assms(2) u e erase_frame(1)[OF e]
    by (cases rule: add_audit_event_cases[where et = EVENT_TYPE and a = "Some actor_id" and s = "Some i"
        and r = "''anonymized''" and cid = correlation_id and now = now and db = staged])
       (auto simp: anonymize_user_def select_by_id[OF assms(1)])
qed

definition same_rows :: "database \<Rightarrow> database \<Rightarrow> bool" where
  "same_rows db db' =
     (rows (stations db') = rows (stations db) \<and> rows (renters db') = rows (renters db) \<and>
      rows (vehicles db') = rows (vehicles db) \<and> rows (rentals db') = rows (rentals db) \<and>
      rows (telemetry_readings db') = rows (telemetry_readings db) \<and> rows (users db') = rows (users db) \<and>
      rows (user_consents db') = rows (user_consents db) \<and> rows (consent_history db') = rows (consent_history db) \<and>
      rows (user_activity db') = rows (user_activity db) \<and> rows (audit_events db') = rows (audit_events db) \<and>
      rows (marketing_messages db') = rows (marketing_messages db) \<and> rows (analytics_events db') = rows (analytics_events db))"

section \<open>Properties\<close>

text \<open>
  C5: erasure is complete. With fresh random values, erasing an account that was
  not erased before succeeds and leaves nothing that identifies the subject: the
  user row carries only the random address, the fixed name, no phone and the given hash (of a
  random password), is inactive and marked; every renter of the account has the
  fixed name and a random licence; no activity, marketing or analytics row of the
  subject remains. Every purpose is denied, and stays denied over any consent operations of
  any users as long as none of them grants it to this account (the API would accept such a grant
  from an administrator, who alone can still act for the account). No address and
  password log in to the account.
\<close>

theorem erasure_complete:
  assumes "consents_ok db" and "accounts_ok db" and "fresh_random user_hex hashed renter_hex db"
    and "get_row u_id (users db) i = Some u" and "u_anonymized_at u = None" and "length correlation_id \<le> 64"
    and "\<forall>x \<in> set ops. op_grants x \<noteq> Some (i, purpose)"
  shows "\<exists>u' actions db'. anonymize_user user_hex hashed renter_hex db i actor_id correlation_id now now' =
      (Inr (u', ''anonymized'', actions), db') \<and>
    get_row u_id (users db') i = Some u' \<and>
    u' = \<lparr>u_id = i, u_email = ''anon-'' @ user_hex @ ''@anon.invalid'', u_hashed_password = hashed,
          u_full_name = ''Anonymized User'', u_role = u_role u, u_phone = None, u_is_active = False,
          u_created_at = u_created_at u, u_anonymized_at = Some now\<rparr> \<and>
    list_all (\<lambda>r. rt_user_id r = Some i \<longrightarrow>
      rt_full_name r = ''Anonymized User'' \<and> rt_license_number r = ''anon-'' @ renter_hex (rt_id r)) (rows (renters db')) \<and>
    list_all (\<lambda>a. a_user_id a \<noteq> i) (rows (user_activity db')) \<and>
    list_all (\<lambda>m. m_user_id m \<noteq> i) (rows (marketing_messages db')) \<and>
    list_all (\<lambda>e. an_user_id e \<noteq> i) (rows (analytics_events db')) \<and>
    \<not> gate_allows db' i purpose version \<and>
    \<not> gate_allows (fold apply_consent_op ops db') i purpose version \<and>
    (\<forall>x. fst (authenticate hash_password verify_password db' email password) = Inr (Some x) \<longrightarrow> u_id x \<noteq> i)"
proof -
  let ?db' = "(erased_db user_hex hashed renter_hex now now' i db)\<lparr>audit_events := append_row
       (audit_row ''user_anonymize'' (Some actor_id) (Some i) ''anonymized'' correlation_id now) (audit_events db)\<rparr>"
  obtain actions where a: "anonymize_user user_hex hashed renter_hex db i actor_id correlation_id now now' =
      (Inr (anonymize_user_row user_hex hashed now u, ''anonymized'', actions), ?db')"
    using anonymize_user_ok[OF assms(2-6)] by blast
  have i: "u_id u = i" using get_row_Some[OF assms(4)] by simp
  have g: "get_row u_id (users ?db') i = Some (anonymize_user_row user_hex hashed now u)"
    using assms(4) by (simp add: get_set_row)
  have ok: "consents_ok ?db'" using erased_denies(1)[OF assms(1)] by simp
  have denied: "\<not> gate_allows ?db' i purpose version"
    by (auto simp: gate_allows_iff[OF ok] erased_denies(2)[OF assms(1)] all_withdrawn_def split: option.splits)
  moreover have "\<not> gate_allows (fold apply_consent_op ops ?db') i purpose version"
    using consent_ops.denied_until_granted[OF ok denied] assms(7) by blast
  moreover have "\<forall>x. fst (authenticate hash_password verify_password ?db' email password) = Inr (Some x) \<longrightarrow> u_id x \<noteq> i"
    using inactive_not_authenticated[of ?db' i "anonymize_user_row user_hex hashed now u"] g assms(2) by (auto simp: accounts_ok_def wf_table_set)
  moreover have "anonymize_user_row user_hex hashed now u =
      \<lparr>u_id = i, u_email = ''anon-'' @ user_hex @ ''@anon.invalid'', u_hashed_password = hashed,
       u_full_name = ''Anonymized User'', u_role = u_role u, u_phone = None, u_is_active = False,
       u_created_at = u_created_at u, u_anonymized_at = Some now\<rparr>"
    using i by (simp add: anonymize_user_row_def ANONYMIZED_NAME_def anon_email_def)
  moreover have "list_all (\<lambda>r. rt_user_id r = Some i \<longrightarrow>
      rt_full_name r = ''Anonymized User'' \<and> rt_license_number r = ''anon-'' @ renter_hex (rt_id r)) (rows (renters ?db'))"
    by (auto simp: erased_renters_def rows_update list_all_iff anonymize_renter_def ANONYMIZED_NAME_def anon_license_def)
  moreover have "list_all (\<lambda>a. a_user_id a \<noteq> i) (rows (user_activity ?db')) \<and>
      list_all (\<lambda>m. m_user_id m \<noteq> i) (rows (marketing_messages ?db')) \<and>
      list_all (\<lambda>e. an_user_id e \<noteq> i) (rows (analytics_events ?db'))"
    by (simp add: rows_delete list_all_iff)
  ultimately show ?thesis using a g
    by (intro exI[of _ "anonymize_user_row user_hex hashed now u"] exI[of _ actions] exI[of _ ?db'] conjI) simp_all
qed


definition erasure_demo_db :: database where
  "erasure_demo_db = marketing_demo_db\<lparr>renters :=
     \<lparr>rows = [\<lparr>rt_id = 7, rt_full_name = ''Ann'', rt_license_number = ''AB123'', rt_user_id = Some 1\<rparr>], next_id = 8\<rparr>\<rparr>"

lemma erasure_demo_ok:
  "consents_ok erasure_demo_db" "evidence_ok erasure_demo_db" "accounts_ok erasure_demo_db"
  "get_row u_id (users erasure_demo_db) 1 = Some demo_user"
  "fresh_random ''0a1b'' ''hash'' (\<lambda>_. ''2c3d'') erasure_demo_db"
  using marketing_demo_ok(1) consent_demo_ok(2)
  by (simp_all add: erasure_demo_db_def marketing_demo_db_def consents_ok_def evidence_ok_def current_state_def)
     (simp_all add: accounts_ok_def fresh_random_def consent_demo_simps wf_table_def get_row_def anon_email_def anon_license_def)

theorem erasure_complete_witness:
  "\<exists>u' actions db'. anonymize_user ''0a1b'' ''hash'' (\<lambda>_. ''2c3d'') erasure_demo_db 1 9 ''c-1'' 70 71 =
      (Inr (u', ''anonymized'', actions), db') \<and>
    list_all (\<lambda>m. m_user_id m \<noteq> 1) (rows (marketing_messages db')) \<and>
    \<not> gate_allows (fold apply_consent_op [GrantOp 2 MARKETING_EMAIL ''2026-01'' ''api'' 72, RevokeOp 1 MARKETING_EMAIL ''api'' 73] db')
      1 MARKETING_EMAIL ''2026-01''"
proof -
  let ?ops = "[GrantOp 2 MARKETING_EMAIL ''2026-01'' ''api'' 72, RevokeOp 1 MARKETING_EMAIL ''api'' 73]"
  have "u_anonymized_at demo_user = None" "length ''c-1'' \<le> 64" "\<forall>x \<in> set ?ops. op_grants x \<noteq> Some (1, MARKETING_EMAIL)"
    by (simp_all add: demo_user_def)
  from erasure_complete[OF erasure_demo_ok(1,3,5,4) this, where actor_id = 9 and now = 70 and now' = 71 and version = "''2026-01''"]
  show ?thesis by blast
qed

text \<open>
  C22: erasure touches nothing else. Rentals, vehicles, stations and telemetry are
  kept as they are, every row of another user or renter is kept as it is (accounts, renters,
  consents, activity, marketing messages and analytics events), the
  consent history and the audit trail only grow (the history by revocations of this
  account, the audit trail by exactly one row, which holds ids and a result), and the keys, the unique constraints and the
  agreement of consents with their evidence still hold.
\<close>

theorem erasure_frame:
  assumes "consents_ok db" and "evidence_ok db" and "accounts_ok db" and "fresh_random user_hex hashed renter_hex db"
    and "get_row u_id (users db) i = Some u" and "u_anonymized_at u = None" and "length correlation_id \<le> 64"
  shows "\<exists>r db' more. anonymize_user user_hex hashed renter_hex db i actor_id correlation_id now now' = (Inr r, db') \<and>
    rentals db' = rentals db \<and> vehicles db' = vehicles db \<and> stations db' = stations db \<and>
    telemetry_readings db' = telemetry_readings db \<and>
    select_rows (\<lambda>x. u_id x \<noteq> i) (users db') = select_rows (\<lambda>x. u_id x \<noteq> i) (users db) \<and>
    select_rows (\<lambda>x. rt_user_id x \<noteq> Some i) (renters db') = select_rows (\<lambda>x. rt_user_id x \<noteq> Some i) (renters db) \<and>
    select_rows (\<lambda>x. c_user_id x \<noteq> i) (user_consents db') = select_rows (\<lambda>x. c_user_id x \<noteq> i) (user_consents db) \<and>
    rows (user_activity db') = select_rows (\<lambda>x. a_user_id x \<noteq> i) (user_activity db) \<and>
    rows (marketing_messages db') = select_rows (\<lambda>x. m_user_id x \<noteq> i) (marketing_messages db) \<and>
    rows (analytics_events db') = select_rows (\<lambda>x. an_user_id x \<noteq> i) (analytics_events db) \<and>
    rows (consent_history db') = rows (consent_history db) @ more \<and>
    list_all (\<lambda>h. h_user_id h = i \<and> h_action h = REVOKE) more \<and>
    audit_events db' = append_row (audit_row ''user_anonymize'' (Some actor_id) (Some i) ''anonymized'' correlation_id now) (audit_events db) \<and>
    consents_ok db' \<and> evidence_ok db' \<and> accounts_ok db'"
proof -
  let ?e = "erased_db user_hex hashed renter_hex now now' i db"
  let ?db' = "?e\<lparr>audit_events := append_row
       (audit_row ''user_anonymize'' (Some actor_id) (Some i) ''anonymized'' correlation_id now) (audit_events db)\<rparr>"
  obtain actions where a: "anonymize_user user_hex hashed renter_hex db i actor_id correlation_id now now' =
      (Inr (anonymize_user_row user_hex hashed now u, ''anonymized'', actions), ?db')"
    using anonymize_user_ok[OF assms(3-7)] by blast
  have "select_rows (\<lambda>x. u_id x \<noteq> i) (users ?db') = select_rows (\<lambda>x. u_id x \<noteq> i) (users db)"
    by (simp add: select_rows_def rows_set, rule filter_update_other) simp
  moreover have "select_rows (\<lambda>x. rt_user_id x \<noteq> Some i) (renters ?db') = select_rows (\<lambda>x. rt_user_id x \<noteq> Some i) (renters db)"
    by (simp add: erased_renters_def select_rows_def rows_update, rule filter_update_other) simp
  moreover have "select_rows (\<lambda>x. c_user_id x \<noteq> i) (user_consents ?db') = select_rows (\<lambda>x. c_user_id x \<noteq> i) (user_consents db)"
    by (simp add: erased_db_def erased_tables_def withdraw_all_def Let_def select_rows_def rows_update, rule filter_update_other) simp
  moreover obtain more where "rows (consent_history ?db') = rows (consent_history db) @ more" "list_all (\<lambda>h. h_user_id h = i \<and> h_action h = REVOKE) more"
    using erased_history[where h = user_hex and p = hashed and f = renter_hex and db = db and i = i and now = now and now' = now'] by auto
  moreover have "rows (user_activity ?db') = select_rows (\<lambda>x. a_user_id x \<noteq> i) (user_activity db)"
    "rows (marketing_messages ?db') = select_rows (\<lambda>x. m_user_id x \<noteq> i) (marketing_messages db)"
    "rows (analytics_events ?db') = select_rows (\<lambda>x. an_user_id x \<noteq> i) (analytics_events db)"
    by (simp_all add: rows_delete select_rows_def)
  moreover have "accounts_ok ?db'" using erased_accounts_ok[OF assms(3,4)] by simp
  ultimately show ?thesis using a erased_denies[OF assms(1)] assms(2) by (auto simp: erased_db_tables)
qed

theorem erasure_frame_witness:
  "\<exists>r db'. anonymize_user ''0a1b'' ''hash'' (\<lambda>_. ''2c3d'') erasure_demo_db 1 9 ''c-1'' 70 71 = (Inr r, db') \<and>
     rentals db' = rentals erasure_demo_db \<and> evidence_ok db' \<and> accounts_ok db'"
  using erasure_frame[OF erasure_demo_ok(1,2,3,5,4), of "''c-1''" 9 70 71] by (auto simp: demo_user_def)

text \<open>
  C23: erasure is all or nothing, for any input and any random values. Whenever
  \<open>anonymize_user\<close> raises (unknown subject, a colliding random value, a value that
  does not fit, a failing audit insert), every row of every table is what it was;
  whenever it returns, the audit trail has grown by exactly one row that records
  the status returned.
\<close>

theorem erasure_atomic:
  "case anonymize_user user_hex hashed renter_hex db i actor_id correlation_id now now' of
     (Inl e, db') \<Rightarrow> same_rows db db'
   | (Inr (u', status, actions), db') \<Rightarrow>
       audit_events db' = append_row (audit_row ''user_anonymize'' (Some actor_id) (Some (u_id u')) status correlation_id now) (audit_events db)"
proof (cases "scalar_one_or_none (select_rows (\<lambda>u. u_id u = i) (users db))")
  case (Inl e)
  then show ?thesis by (simp add: anonymize_user_def same_rows_def)
next
  case (Inr found)
  show ?thesis
  proof (cases found)
    case None
    then show ?thesis using Inr by (simp add: anonymize_user_def same_rows_def)
  next
    case (Some u)
    show ?thesis
    proof (cases "u_anonymized_at u = None")
      case True
      show ?thesis
      proof (cases "erase user_hex hashed renter_hex now now' u db")
        case (Inl e)
        then show ?thesis using Inr Some True by (simp add: anonymize_user_def same_rows_def)
      next
        case e: (Inr ad)
        then obtain actions staged where ad: "ad = (actions, staged)" by (cases ad)
        have "audit_events staged = audit_events db" using e ad erase_audit by blast
        then show ?thesis using Inr Some True e ad
          by (cases rule: add_audit_event_cases[where et = EVENT_TYPE and a = "Some actor_id" and s = "Some (u_id u)"
              and r = "''anonymized''" and cid = correlation_id and now = now and db = staged])
             (simp_all add: anonymize_user_def same_rows_def rolled_back_def EVENT_TYPE_def)
      qed
    next
      case False
      then show ?thesis using Inr Some
        by (cases rule: add_audit_event_cases[where et = EVENT_TYPE and a = "Some actor_id" and s = "Some (u_id u)"
            and r = "''already_anonymized''" and cid = correlation_id and now = now and db = db])
           (simp_all add: anonymize_user_def record_audit_event_def same_rows_def rows_burn EVENT_TYPE_def)
    qed
  qed
qed

text \<open>
  Repeating an erasure is a harmless no-op and an erased account is locked out.
  After a successful erasure a second call, by anyone and with other random values,
  reports \<open>already_anonymized\<close> and only appends its audit row; no address and
  password log in to the account; and every token that still decodes to it is
  answered with 401.
\<close>

lemma erasure_idempotent_lockout:
  assumes "wf_table u_id (users db)"
    and "anonymize_user user_hex hashed renter_hex db i actor_id correlation_id now now' = (Inr (u', ''anonymized'', actions), db1)"
    and "length correlation_id' \<le> 64"
  shows "anonymize_user user_hex' hashed' renter_hex' db1 i actor_id' correlation_id' t t' =
      (Inr (u', ''already_anonymized'', []), db1\<lparr>audit_events := append_row
        (audit_row ''user_anonymize'' (Some actor_id') (Some i) ''already_anonymized'' correlation_id' t) (audit_events db1)\<rparr>) \<and>
    (\<forall>x. fst (authenticate hash_password verify_password db1 email password) = Inr (Some x) \<longrightarrow> u_id x \<noteq> i) \<and>
    (decode_access_token jwt_decode s token t = Inr i \<longrightarrow>
      get_current_user jwt_decode s db1 token t = Inl (HTTPException 401 ''Not authenticated''))"
proof -
  obtain u where u: "get_row u_id (users db) i = Some u" and u': "u' = anonymize_user_row user_hex hashed now u"
    and db1: "users db1 = set_row u_id i (anonymize_user_row user_hex hashed now) (users db)"
    using anonymize_user_users[OF assms(1,2)] by blast
  have wf: "wf_table u_id (users db1)" unfolding db1 using assms(1) by (rule wf_table_set) simp
  have get: "get_row u_id (users db1) i = Some u'" unfolding db1 using u u' by (simp add: get_set_row)
  have f: "u_anonymized_at u' = Some now" "\<not> u_is_active u'" "u_id u' = i"
    using u' get_row_Some[OF u] by (simp_all add: anonymize_user_row_def)
  note auth = inactive_not_authenticated[OF wf get f(2)]
  have "anonymize_user user_hex' hashed' renter_hex' db1 i actor_id' correlation_id' t t' =
      (Inr (u', ''already_anonymized'', []), db1\<lparr>audit_events := append_row
        (audit_row ''user_anonymize'' (Some actor_id') (Some i) ''already_anonymized'' correlation_id' t) (audit_events db1)\<rparr>)"
    using f assms(3) by (simp add: anonymize_user_def select_by_id[OF wf] get record_audit_event_def EVENT_TYPE_def add_audit_event_ok)
  then show ?thesis using auth get f(2) by (auto simp: get_current_user_def UNAUTHORIZED_def)
qed

end
