(* ===== verification/Export.thy ===== *)
theory Export
  imports Erasure
begin

text \<open>
  \<open>services/export_service.py\<close> with the response models of \<open>schemas_privacy.py\<close>:
  the right of access. Each section of the export is a record with the fields the
  model lists, so what a section does not declare cannot leave the service.
\<close>

section \<open>Response models\<close>

record profile_section =
  pr_id :: int
  pr_email :: string
  pr_full_name :: string
  pr_phone :: "string option"
  pr_created_at :: instant

record settings_section =
  se_role :: string
  se_is_active :: bool
  se_anonymized :: bool

record renter_profile_section =
  rp_id :: int
  rp_full_name :: string
  rp_license_number :: string

record activity_item =
  ai_action :: string
  ai_occurred_at :: instant
  ai_ip_address :: "string option"
  ai_user_agent :: "string option"

record rental_item =
  ri_id :: int
  ri_vehicle_id :: int
  ri_start_station_id :: int
  ri_end_station_id :: "int option"
  ri_started_at :: instant
  ri_ended_at :: "instant option"
  ri_status :: string

record consent_current_item =
  cci_purpose :: consent_purpose
  cci_status :: consent_status
  cci_policy_version :: string
  cci_granted_at :: "instant option"
  cci_withdrawn_at :: "instant option"
  cci_updated_at :: instant
  cci_source :: string

record consent_history_item =
  chi_purpose :: consent_purpose
  chi_action :: consent_action
  chi_policy_version :: string
  chi_source :: string
  chi_occurred_at :: instant

record consents_section =
  cs_current :: "consent_current_item list"
  cs_history :: "consent_history_item list"

record marketing_item =
  mi_campaign :: string
  mi_status :: string
  mi_created_at :: instant
  mi_processed_at :: "instant option"

record analytics_item =
  ani_event_name :: string
  ani_occurred_at :: instant

record omission =
  om_category :: string
  om_reason :: string

record personal_data_export =
  ex_schema_version :: string
  ex_generated_at :: string
  ex_subject_id :: int
  ex_data_categories :: "string list"
  ex_profile :: profile_section
  ex_settings :: settings_section
  ex_renter_profile :: "renter_profile_section option"
  ex_activity :: "activity_item list"
  ex_rentals :: "rental_item list"
  ex_consents :: consents_section
  ex_marketing_messages :: "marketing_item list"
  ex_analytics_events :: "analytics_item list"
  ex_omissions :: "omission list"

fun role_value :: "user_role \<Rightarrow> string" where
  "role_value ADMIN = ''admin''"
| "role_value USER = ''user''"

fun rental_status_value :: "rental_status \<Rightarrow> string" where
  "rental_status_value ACTIVE = ''active''"
| "rental_status_value COMPLETED = ''completed''"
| "rental_status_value CANCELLED = ''cancelled''"

fun marketing_status_value :: "marketing_status \<Rightarrow> string" where
  "marketing_status_value QUEUED = ''QUEUED''"
| "marketing_status_value SENT = ''SENT''"
| "marketing_status_value SKIPPED = ''SKIPPED''"

definition profile_of :: "user \<Rightarrow> profile_section" where
  "profile_of u = \<lparr>pr_id = u_id u, pr_email = u_email u, pr_full_name = u_full_name u, pr_phone = u_phone u,
     pr_created_at = u_created_at u\<rparr>"

definition renter_profile_of :: "renter \<Rightarrow> renter_profile_section" where
  "renter_profile_of r = \<lparr>rp_id = rt_id r, rp_full_name = rt_full_name r, rp_license_number = rt_license_number r\<rparr>"

definition activity_item_of :: "user_activity_row \<Rightarrow> activity_item" where
  "activity_item_of a = \<lparr>ai_action = a_action a, ai_occurred_at = a_occurred_at a, ai_ip_address = a_ip_address a,
     ai_user_agent = a_user_agent a\<rparr>"

definition rental_item_of :: "rental \<Rightarrow> rental_item" where
  "rental_item_of r = \<lparr>ri_id = r_id r, ri_vehicle_id = r_vehicle_id r, ri_start_station_id = r_start_station_id r,
     ri_end_station_id = r_end_station_id r, ri_started_at = r_started_at r, ri_ended_at = r_ended_at r,
     ri_status = rental_status_value (r_status r)\<rparr>"

definition consent_item_of :: "user_consent \<Rightarrow> consent_current_item" where
  "consent_item_of c = \<lparr>cci_purpose = c_purpose c, cci_status = c_status c, cci_policy_version = c_policy_version c,
     cci_granted_at = c_granted_at c, cci_withdrawn_at = c_withdrawn_at c, cci_updated_at = c_updated_at c,
     cci_source = c_source c\<rparr>"

definition history_item_of :: "consent_history_row \<Rightarrow> consent_history_item" where
  "history_item_of h = \<lparr>chi_purpose = h_purpose h, chi_action = h_action h, chi_policy_version = h_policy_version h,
     chi_source = h_source h, chi_occurred_at = h_occurred_at h\<rparr>"

definition marketing_item_of :: "marketing_message \<Rightarrow> marketing_item" where
  "marketing_item_of m = \<lparr>mi_campaign = m_campaign m, mi_status = marketing_status_value (m_status m),
     mi_created_at = m_created_at m, mi_processed_at = m_processed_at m\<rparr>"

definition analytics_item_of :: "analytics_event \<Rightarrow> analytics_item" where
  "analytics_item_of e = \<lparr>ani_event_name = an_event_name e, ani_occurred_at = an_occurred_at e\<rparr>"

section \<open>Timestamps\<close>

text \<open>
  \<open>utc_iso\<close>: \<open>strftime\<close> of an instant, cut to milliseconds. The civil date is the
  proleptic Gregorian one, computed from the days since 1970-01-01 in eras of 400
  years that begin in March; years are from 1000 on, where \<open>%Y\<close> has four digits.
\<close>

definition civil :: "int \<Rightarrow> int \<times> int \<times> int" where
  "civil days =
     (let z = days + 719468; era = z div 146097; doe = z mod 146097;
          yoe = (doe - doe div 1460 + doe div 36524 - doe div 146096) div 365;
          doy = doe - (365 * yoe + yoe div 4 - yoe div 100);
          mp = (5 * doy + 2) div 153;
          d = doy - (153 * mp + 2) div 5 + 1;
          m = (if mp < 10 then mp + 3 else mp - 9)
      in (yoe + era * 400 + (if m \<le> 2 then 1 else 0), m, d))"

fun pad :: "nat \<Rightarrow> int \<Rightarrow> string" where
  "pad 0 n = []"
| "pad (Suc k) n = pad k (n div 10) @ [digit_char (nat (n mod 10))]"

definition utc_iso :: "instant \<Rightarrow> string" where
  "utc_iso t =
     (let (y, m, d) = civil (t div 86400000000); us = t mod 86400000000
      in pad 4 y @ ''-'' @ pad 2 m @ ''-'' @ pad 2 d @ ''T'' @
         pad 2 (us div 3600000000) @ '':'' @ pad 2 (us div 60000000 mod 60) @ '':'' @ pad 2 (us div 1000000 mod 60) @
         ''.'' @ pad 3 (us div 1000 mod 1000) @ ''Z'')"

section \<open>Building the export\<close>

definition EXPORT_SCHEMA_VERSION :: string where
  "EXPORT_SCHEMA_VERSION = ''1.0''"

definition DATA_CATEGORIES :: "string list" where
  "DATA_CATEGORIES = [''profile'', ''settings'', ''renter_profile'', ''activity'', ''rentals'', ''consents'',
     ''marketing_messages'', ''analytics_events'']"

definition OMISSIONS :: "omission list" where
  "OMISSIONS =
     [\<lparr>om_category = ''credentials'', om_reason = ''Password hash and tokens are security data, not personal data of the subject.''\<rparr>,
      \<lparr>om_category = ''telemetry'', om_reason = ''Vehicle telemetry describes vehicles and is not linked to a subject.''\<rparr>,
      \<lparr>om_category = ''audit_events'', om_reason = ''Audit trail holds only ids and results, kept for accountability.''\<rparr>]"

definition rentals_of :: "database \<Rightarrow> renter option \<Rightarrow> rental list" where
  "rentals_of db r = (case r of None \<Rightarrow> []
     | Some r \<Rightarrow> sort_key r_id (select_rows (\<lambda>x. r_renter_id x = rt_id r) (rentals db)))"

definition build_export :: "database \<Rightarrow> user \<Rightarrow> instant \<Rightarrow> personal_data_export result" where
  "build_export db subject now =
     (let uid = u_id subject
      in bind_result (scalar_one_or_none (select_rows (\<lambda>r. rt_user_id r = Some uid) (renters db))) (\<lambda>renter.
         Inr \<lparr>ex_schema_version = EXPORT_SCHEMA_VERSION,
              ex_generated_at = utc_iso now,
              ex_subject_id = uid,
              ex_data_categories = DATA_CATEGORIES,
              ex_profile = profile_of subject,
              ex_settings = \<lparr>se_role = role_value (u_role subject), se_is_active = u_is_active subject,
                se_anonymized = (u_anonymized_at subject \<noteq> None)\<rparr>,
              ex_renter_profile = map_option renter_profile_of renter,
              ex_activity = map activity_item_of (sort_key a_id (select_rows (\<lambda>a. a_user_id a = uid) (user_activity db))),
              ex_rentals = map rental_item_of (rentals_of db renter),
              ex_consents = \<lparr>cs_current = map consent_item_of (list_current db uid),
                cs_history = map history_item_of (list_history db uid)\<rparr>,
              ex_marketing_messages = map marketing_item_of (sort_key m_id (select_rows (\<lambda>m. m_user_id m = uid) (marketing_messages db))),
              ex_analytics_events = map analytics_item_of (sort_key an_id (select_rows (\<lambda>e. an_user_id e = uid) (analytics_events db))),
              ex_omissions = OMISSIONS\<rparr>))"

section \<open>What an export depends on\<close>

text \<open>
  The view of one subject: everything in the database that belongs to the account.
\<close>

definition renter_of_user :: "database \<Rightarrow> int \<Rightarrow> renter list" where
  "renter_of_user db uid = select_rows (\<lambda>r. rt_user_id r = Some uid) (renters db)"

definition same_subject :: "int \<Rightarrow> database \<Rightarrow> database \<Rightarrow> bool" where
  "same_subject uid db db' =
     (renter_of_user db' uid = renter_of_user db uid \<and>
      list_all (\<lambda>r. select_rows (\<lambda>x. r_renter_id x = rt_id r) (rentals db') = select_rows (\<lambda>x. r_renter_id x = rt_id r) (rentals db))
        (renter_of_user db uid) \<and>
      select_rows (\<lambda>a. a_user_id a = uid) (user_activity db') = select_rows (\<lambda>a. a_user_id a = uid) (user_activity db) \<and>
      select_rows (\<lambda>c. c_user_id c = uid) (user_consents db') = select_rows (\<lambda>c. c_user_id c = uid) (user_consents db) \<and>
      select_rows (\<lambda>h. h_user_id h = uid) (consent_history db') = select_rows (\<lambda>h. h_user_id h = uid) (consent_history db) \<and>
      select_rows (\<lambda>m. m_user_id m = uid) (marketing_messages db') = select_rows (\<lambda>m. m_user_id m = uid) (marketing_messages db) \<and>
      select_rows (\<lambda>e. an_user_id e = uid) (analytics_events db') = select_rows (\<lambda>e. an_user_id e = uid) (analytics_events db))"

lemma build_export_ok:
  assumes "accounts_ok db"
  shows "\<exists>r. scalar_one_or_none (renter_of_user db uid) = Inr r \<and> set_option r = set (renter_of_user db uid)"
proof -
  have "renter_of_user db uid = [] \<or> (\<exists>r. renter_of_user db uid = [r])"
    using renters_of_user[of "rows (renters db)" uid] assms by (simp add: accounts_ok_def renter_of_user_def select_rows_def)
  then show ?thesis by auto
qed

lemma build_export_fields:
  assumes "scalar_one_or_none (renter_of_user db (u_id s)) = Inr r"
  shows "\<exists>export. build_export db s now = Inr export \<and>
    ex_profile export = profile_of s \<and> se_anonymized (ex_settings export) = (u_anonymized_at s \<noteq> None) \<and>
    ex_renter_profile export = map_option renter_profile_of r \<and>
    ex_activity export = map activity_item_of (sort_key a_id (select_rows (\<lambda>a. a_user_id a = u_id s) (user_activity db))) \<and>
    ex_marketing_messages export = map marketing_item_of (sort_key m_id (select_rows (\<lambda>m. m_user_id m = u_id s) (marketing_messages db))) \<and>
    ex_analytics_events export = map analytics_item_of (sort_key an_id (select_rows (\<lambda>e. an_user_id e = u_id s) (analytics_events db))) \<and>
    cs_current (ex_consents export) = map consent_item_of (list_current db (u_id s))"
  using assms by (simp add: build_export_def renter_of_user_def Let_def)

lemma rentals_of_own:
  assumes "set_option r = set (renter_of_user db uid)"
  shows "rentals_of db r = sort_key r_id (select_rows (\<lambda>x. \<exists>s \<in> set (rows (renters db)).
    rt_user_id s = Some uid \<and> r_renter_id x = rt_id s) (rentals db))"
proof -
  have own: "(\<exists>s \<in> set (rows (renters db)). rt_user_id s = Some uid \<and> r_renter_id x = rt_id s) \<longleftrightarrow> (\<exists>s \<in> set_option r. r_renter_id x = rt_id s)" for x
    unfolding assms by (auto simp: renter_of_user_def select_rows_def)
  show ?thesis unfolding own by (cases r) (simp_all add: rentals_of_def select_rows_def)
qed

section \<open>Properties\<close>

text \<open>
  C15: an export is exactly the subject's own data. It succeeds for every account,
  it is complete (the profile and the renter profile, and in the sections of activity, rentals, consent
  history, marketing messages and analytics events exactly the rows of the account in key
  order, with the current consents in the order of their purposes), and it is a function of the subject's rows alone: two databases that agree on
  what belongs to the account give the same export, so no change to another
  person's data can show in it. The credential hash is not part of it: changing it
  does not change the export.
\<close>

theorem export_is_own_data:
  assumes "accounts_ok db" and "same_subject (u_id subject) db db'"
  shows "\<exists>export. build_export db subject now = Inr export \<and> build_export db' (subject\<lparr>u_hashed_password := other\<rparr>) now = Inr export \<and>
    ex_subject_id export = u_id subject \<and> ex_profile export = profile_of subject \<and>
    ex_settings export = \<lparr>se_role = role_value (u_role subject), se_is_active = u_is_active subject,
      se_anonymized = (u_anonymized_at subject \<noteq> None)\<rparr> \<and>
    set_option (ex_renter_profile export) = renter_profile_of ` {r \<in> set (rows (renters db)). rt_user_id r = Some (u_id subject)} \<and>
    ex_activity export = map activity_item_of (sort_key a_id (select_rows (\<lambda>a. a_user_id a = u_id subject) (user_activity db))) \<and>
    ex_rentals export = map rental_item_of (sort_key r_id (select_rows (\<lambda>x. \<exists>r \<in> set (rows (renters db)).
      rt_user_id r = Some (u_id subject) \<and> r_renter_id x = rt_id r) (rentals db))) \<and>
    cs_current (ex_consents export) = map consent_item_of (list_current db (u_id subject)) \<and>
    cs_current (ex_consents export) =
      map consent_item_of (sort_key c_purpose (select_rows (\<lambda>c. c_user_id c = u_id subject) (user_consents db))) \<and>
    cs_history (ex_consents export) =
      map history_item_of (sort_key h_id (select_rows (\<lambda>h. h_user_id h = u_id subject) (consent_history db))) \<and>
    ex_marketing_messages export =
      map marketing_item_of (sort_key m_id (select_rows (\<lambda>m. m_user_id m = u_id subject) (marketing_messages db))) \<and>
    ex_analytics_events export =
      map analytics_item_of (sort_key an_id (select_rows (\<lambda>e. an_user_id e = u_id subject) (analytics_events db))) \<and>
    set (ex_rentals export) = rental_item_of ` {x \<in> set (rows (rentals db)). \<exists>r \<in> set (rows (renters db)).
      rt_user_id r = Some (u_id subject) \<and> r_renter_id x = rt_id r}"
proof -
  let ?uid = "u_id subject"
  obtain r where r: "scalar_one_or_none (renter_of_user db ?uid) = Inr r" "set_option r = set (renter_of_user db ?uid)"
    using build_export_ok[OF assms(1)] by blast
  have r': "scalar_one_or_none (renter_of_user db' ?uid) = Inr r" using r(1) assms(2) by (simp add: same_subject_def)
  have rentals: "rentals_of db' r = rentals_of db r"
  proof (cases r)
    case (Some x)
    then have "x \<in> set (renter_of_user db ?uid)" using r(2) by auto
    then show ?thesis using assms(2) Some by (auto simp: rentals_of_def same_subject_def list_all_iff)
  qed (simp add: rentals_of_def)
  have own: "rentals_of db r = sort_key r_id (select_rows (\<lambda>x. \<exists>s \<in> set (rows (renters db)). rt_user_id s = Some ?uid \<and> r_renter_id x = rt_id s) (rentals db))"
    by (rule rentals_of_own[OF r(2)])
  then have "set (map rental_item_of (rentals_of db r)) = rental_item_of ` {x \<in> set (rows (rentals db)). \<exists>r \<in> set (rows (renters db)).
      rt_user_id r = Some ?uid \<and> r_renter_id x = rt_id r}" by (simp add: select_rows_def)
  moreover have "set_option (map_option renter_profile_of r) = renter_profile_of ` {s \<in> set (rows (renters db)). rt_user_id s = Some ?uid}"
    unfolding option.set_map r(2) by (simp add: renter_of_user_def select_rows_def)
  ultimately show ?thesis using r(1) r' rentals own assms(2)
    by (simp add: build_export_def renter_of_user_def[symmetric] list_current_def list_history_def same_subject_def profile_of_def Let_def)
qed

theorem export_is_own_data_witness:
  "\<exists>export. build_export erasure_demo_db demo_user 0 = Inr export \<and> ex_profile export = profile_of demo_user \<and>
     build_export erasure_demo_db (demo_user\<lparr>u_hashed_password := ''x''\<rparr>) 0 = Inr export"
  using export_is_own_data[OF erasure_demo_ok(3), of demo_user erasure_demo_db 0 "''x''"]
  by (auto simp: same_subject_def list_all_iff)

lemma erased_consents_withdrawn:
  "list_all (\<lambda>c. cci_status c = WITHDRAWN) (map consent_item_of (list_current (erased_db user_hex hashed renter_hex now now' i db) i))"
proof -
  let ?e = "erased_db user_hex hashed renter_hex now now' i db"
  have cs: "rows (user_consents ?e) = map (\<lambda>c. if c_user_id c = i \<and> c_status c = GRANTED then withdrawn ''erasure'' now' c else c)
      (rows (user_consents db))" by (simp add: erased_db_def erased_tables_def withdraw_all_def Let_def rows_update)
  have "c_status c = WITHDRAWN" if c: "c \<in> set (select_rows (\<lambda>c. c_user_id c = i) (user_consents ?e))" for c
  proof -
    have m: "c \<in> set (rows (user_consents ?e))" and u: "c_user_id c = i"
      using c unfolding select_rows_def set_filter by blast+
    from m obtain x where "c = (if c_user_id x = i \<and> c_status x = GRANTED then withdrawn ''erasure'' now' x else x)"
      unfolding cs set_map by (rule imageE)
    with u show ?thesis by (cases "c_status x") (auto split: if_splits)
  qed
  then show ?thesis by (auto simp: list_all_iff list_current_def consent_item_of_def)
qed

text \<open>
  C31: after an erasure the subject's export identifies nobody any more: the profile
  shows the random address, the fixed name and no phone, the renter profile the fixed name and a
  random licence number, the activity, marketing and analytics sections are empty, and
  every consent is withdrawn. What is left are keys and instants, the rentals and the consent history.
\<close>

theorem export_after_erasure:
  assumes "consents_ok db" and "accounts_ok db" and "fresh_random user_hex hashed renter_hex db"
    and "get_row u_id (users db) i = Some u" and "u_anonymized_at u = None" and "length correlation_id \<le> 64"
  shows "\<exists>u' actions db' export. anonymize_user user_hex hashed renter_hex db i actor_id correlation_id now now' =
      (Inr (u', ''anonymized'', actions), db') \<and> build_export db' u' later = Inr export \<and>
    pr_email (ex_profile export) = ''anon-'' @ user_hex @ ''@anon.invalid'' \<and> pr_full_name (ex_profile export) = ''Anonymized User'' \<and>
    pr_phone (ex_profile export) = None \<and> se_anonymized (ex_settings export) \<and>
    ex_profile export = \<lparr>pr_id = i, pr_email = ''anon-'' @ user_hex @ ''@anon.invalid'', pr_full_name = ''Anonymized User'',
      pr_phone = None, pr_created_at = u_created_at u\<rparr> \<and>
    list_all (\<lambda>r. rp_full_name r = ''Anonymized User'' \<and> rp_license_number r = ''anon-'' @ renter_hex (rp_id r))
      (case ex_renter_profile export of None \<Rightarrow> [] | Some r \<Rightarrow> [r]) \<and>
    ex_activity export = [] \<and> ex_marketing_messages export = [] \<and> ex_analytics_events export = [] \<and>
    list_all (\<lambda>c. cci_status c = WITHDRAWN) (cs_current (ex_consents export))"
proof -
  let ?e = "erased_db user_hex hashed renter_hex now now' i db"
  let ?u = "anonymize_user_row user_hex hashed now u"
  let ?db' = "?e\<lparr>audit_events := append_row
       (audit_row ''user_anonymize'' (Some actor_id) (Some i) ''anonymized'' correlation_id now) (audit_events db)\<rparr>"
  obtain actions where a: "anonymize_user user_hex hashed renter_hex db i actor_id correlation_id now now' =
      (Inr (?u, ''anonymized'', actions), ?db')" using anonymize_user_ok[OF assms(2-6)] by blast
  have i: "u_id u = i" using get_row_Some[OF assms(4)] by simp
  have ok: "accounts_ok ?db'" using erased_accounts_ok[OF assms(2,3)] by simp
  obtain r where r: "scalar_one_or_none (renter_of_user ?db' i) = Inr r" "set_option r = set (renter_of_user ?db' i)"
    using build_export_ok[OF ok] by blast
  have "rt_full_name x = ''Anonymized User'' \<and> rt_license_number x = ''anon-'' @ renter_hex (rt_id x)" if "x \<in> set_option r" for x
    using that unfolding r(2)
    by (auto simp: renter_of_user_def select_rows_def erased_renters_def rows_update anonymize_renter_def ANONYMIZED_NAME_def anon_license_def)
  then have renter: "list_all (\<lambda>r. rp_full_name r = ''Anonymized User'' \<and> rp_license_number r = ''anon-'' @ renter_hex (rp_id r)) (case map_option renter_profile_of r of None \<Rightarrow> [] | Some r \<Rightarrow> [r])"
    by (cases r) (simp_all add: renter_profile_of_def)
  have empty: "select_rows (\<lambda>a. a_user_id a = i) (user_activity ?db') = []"
    "select_rows (\<lambda>m. m_user_id m = i) (marketing_messages ?db') = []"
    "select_rows (\<lambda>e. an_user_id e = i) (analytics_events ?db') = []"
    by (simp_all add: select_rows_def rows_delete)
  have "list_current ?db' i = list_current ?e i" by (simp add: list_current_def)
  then have consents: "list_all (\<lambda>c. cci_status c = WITHDRAWN) (map consent_item_of (list_current ?db' i))"
    using erased_consents_withdrawn by simp
  have "scalar_one_or_none (renter_of_user ?db' (u_id ?u)) = Inr r" using r(1) i by simp
  note build_export_fields[OF this, of later]
  moreover have "u_anonymized_at ?u \<noteq> None" by (simp add: anonymize_user_row_def)
  ultimately obtain export where e: "build_export ?db' ?u later = Inr export"
      "ex_profile export = profile_of ?u" "se_anonymized (ex_settings export)" "ex_renter_profile export = map_option renter_profile_of r"
      "ex_activity export = []" "ex_marketing_messages export = []" "ex_analytics_events export = []"
      "cs_current (ex_consents export) = map consent_item_of (list_current ?db' i)"
    unfolding anonymize_fields(1) i empty by auto
  have prof: "ex_profile export = \<lparr>pr_id = i, pr_email = ''anon-'' @ user_hex @ ''@anon.invalid'', pr_full_name = ''Anonymized User'',
      pr_phone = None, pr_created_at = u_created_at u\<rparr>"
    using i by (simp add: e(2) profile_of_def anonymize_user_row_def anon_email_def ANONYMIZED_NAME_def)
  show ?thesis
  proof (intro exI conjI)
    show "anonymize_user user_hex hashed renter_hex db i actor_id correlation_id now now' = (Inr (?u, ''anonymized'', actions), ?db')" by (rule a)
    show "build_export ?db' ?u later = Inr export" by (rule e(1))
    show "list_all (\<lambda>r. rp_full_name r = ''Anonymized User'' \<and> rp_license_number r = ''anon-'' @ renter_hex (rp_id r))
      (case ex_renter_profile export of None \<Rightarrow> [] | Some r \<Rightarrow> [r])" unfolding e(4) by (rule renter)
    show "list_all (\<lambda>c. cci_status c = WITHDRAWN) (cs_current (ex_consents export))" unfolding e(8) by (rule consents)
  qed (simp_all only: prof e profile_section.simps)
qed

theorem export_after_erasure_witness:
  "\<exists>u' actions db' export. anonymize_user ''0a1b'' ''hash'' (\<lambda>_. ''2c3d'') erasure_demo_db 1 9 ''c-1'' 70 71 =
      (Inr (u', ''anonymized'', actions), db') \<and> build_export db' u' 90 = Inr export \<and>
     pr_full_name (ex_profile export) = ''Anonymized User'' \<and> ex_marketing_messages export = []"
  using export_after_erasure[OF erasure_demo_ok(1,3,5,4), of "''c-1''" 9 70 71 90] by (force simp: demo_user_def)

end
