(* ===== verification/PyFloat.thy ===== *)
theory PyFloat
  imports Complex_Main "HOL-Library.Log_Nat"
begin

text \<open>
  Python floats. A finite float is the rational number it denotes, and every
  arithmetic operation is the exact one followed by \<open>fl\<close>, rounding to 53
  significant bits with ties to even (IEEE 754 binary64). The exponent range is
  not bounded, so overflow to infinity and subnormals are outside the model; the
  sources compute with hours, seconds and prices, far from both ends. The laws
  proved here are what the components use: rounding is monotone, exact on
  integers up to \<open>2 ^ 53\<close> and on values already rounded, and within half a unit
  in the last place.
\<close>

section \<open>Definitions\<close>

text \<open>The exponent of a positive number: \<open>2 ^ e \<le> x < 2 ^ (e + 1)\<close>.\<close>

definition ilog2 :: "rat \<Rightarrow> int" where
  "ilog2 x = (if 1 \<le> x then bitlen \<lfloor>x\<rfloor> - 1 else - bitlen (\<lceil>1 / x\<rceil> - 1))"

text \<open>The nearest integer, the even one of two equally near.\<close>

definition round_half_even :: "rat \<Rightarrow> int" where
  "round_half_even x =
     (let f = \<lfloor>x\<rfloor>; d = x - of_int f in
      if d < 1 / 2 then f else if 1 / 2 < d then f + 1 else if even f then f else f + 1)"

definition fl_pos :: "rat \<Rightarrow> rat" where
  "fl_pos x = (let e = ilog2 x - 52 in of_int (round_half_even (x / 2 powi e)) * 2 powi e)"

definition fl :: "rat \<Rightarrow> rat" where
  "fl x = (if x = 0 then 0 else if x < 0 then - fl_pos (- x) else fl_pos x)"

text \<open>\<open>round(x, 2)\<close>: the decimal with two places nearest to the exact value, then the float nearest to it.\<close>

definition py_round2 :: "rat \<Rightarrow> rat" where
  "py_round2 x = fl (of_int (round_half_even (x * 100)) / 100)"

text \<open>
  \<open>sum\<close> of floats: since Python 3.12 a compensated summation that carries the
  rounding error of each addition in a second float and adds it at the end.
\<close>

fun cs_add :: "rat \<Rightarrow> rat \<times> rat \<Rightarrow> rat \<times> rat" where
  "cs_add x (hi, lo) =
     (let t = fl (hi + x) in
      if \<bar>x\<bar> \<le> \<bar>hi\<bar> then (t, fl (lo + fl (fl (hi - t) + x))) else (t, fl (lo + fl (fl (x - t) + hi))))"

definition py_sum :: "rat list \<Rightarrow> rat" where
  "py_sum xs = (case xs of [] \<Rightarrow> 0
     | y # ys \<Rightarrow> (let (hi, lo) = fold cs_add ys (y, 0) in if lo \<noteq> 0 then fl (hi + lo) else hi))"

section \<open>The exponent\<close>

lemma bitlen_bounds_int: "0 < n \<Longrightarrow> 2 ^ nat (bitlen n - 1) \<le> n \<and> n < 2 ^ nat (bitlen n)"
  using bitlen_bounds by blast

lemma bitlen_upper: "0 \<le> n \<Longrightarrow> n < 2 ^ nat (bitlen n)"
  by (cases "n = 0") (use bitlen_bounds[of n] in \<open>auto\<close>)

lemma powi_nat: "0 \<le> k \<Longrightarrow> (2::rat) powi k = 2 ^ nat k"
  by (simp add: power_int_def)

lemma powi_pos [simp]: "0 < (2::rat) powi k"
  by (simp add: zero_less_power_int)

lemma powi_less_iff: "(2::rat) powi j < 2 powi k \<longleftrightarrow> j < k"
  by (meson linorder_not_le one_less_numeral_iff power_int_increasing power_int_strict_increasing
      semiring_norm(76) less_imp_le)

lemma powi_Suc: "(2::rat) powi (k + 1) = 2 * 2 powi k"
  by (simp add: power_int_add)

lemma ilog2_bounds:
  assumes "0 < x"
  shows "2 powi (ilog2 x) \<le> x" "x < 2 powi (ilog2 x + 1)"
proof -
  have "2 powi (ilog2 x) \<le> x \<and> x < 2 powi (ilog2 x + 1)"
  proof (cases "1 \<le> x")
    case True
    then have fl1: "0 < \<lfloor>x\<rfloor>" by simp
    then have b: "2 ^ nat (bitlen \<lfloor>x\<rfloor> - 1) \<le> \<lfloor>x\<rfloor>" "\<lfloor>x\<rfloor> < 2 ^ nat (bitlen \<lfloor>x\<rfloor>)"
      using bitlen_bounds_int by blast+
    have pos: "1 \<le> bitlen \<lfloor>x\<rfloor>" using fl1 bitlen_ge_iff_power[of 1 "\<lfloor>x\<rfloor>"] by simp
    have "(2::rat) ^ nat (bitlen \<lfloor>x\<rfloor> - 1) \<le> of_int \<lfloor>x\<rfloor>"
      using b(1) by (metis of_int_le_iff of_int_numeral of_int_power)
    also have "\<dots> \<le> x" by simp
    finally have lo: "(2::rat) ^ nat (bitlen \<lfloor>x\<rfloor> - 1) \<le> x" .
    have "\<lfloor>x\<rfloor> + 1 \<le> 2 ^ nat (bitlen \<lfloor>x\<rfloor>)" using b(2) by simp
    then have "(of_int (\<lfloor>x\<rfloor> + 1) :: rat) \<le> 2 ^ nat (bitlen \<lfloor>x\<rfloor>)"
      by (metis of_int_le_iff of_int_numeral of_int_power)
    moreover have "x < of_int (\<lfloor>x\<rfloor> + 1)" by simp linarith
    ultimately have "x < 2 ^ nat (bitlen \<lfloor>x\<rfloor>)" by linarith
    with lo pos True show ?thesis by (simp add: ilog2_def powi_nat)
  next
    case False
    define n where "n = \<lceil>1 / x\<rceil> - 1"
    have "1 < 1 / x" using False assms by (simp add: field_simps)
    then have n0: "0 < n" unfolding n_def by (simp add: less_ceiling_iff)
    then have b: "2 ^ nat (bitlen n - 1) \<le> n" "n < 2 ^ nat (bitlen n)"
      using bitlen_bounds_int by blast+
    have pos: "1 \<le> bitlen n" using n0 bitlen_ge_iff_power[of 1 n] by simp
    have "\<lceil>1 / x\<rceil> \<le> 2 ^ nat (bitlen n)" using b(2) unfolding n_def by simp
    then have "(of_int \<lceil>1 / x\<rceil> :: rat) \<le> 2 ^ nat (bitlen n)"
      by (metis of_int_le_iff of_int_numeral of_int_power)
    moreover have "1 / x \<le> of_int \<lceil>1 / x\<rceil>" by simp
    ultimately have "1 / x \<le> 2 ^ nat (bitlen n)" by linarith
    then have u: "1 / x \<le> 2 powi (bitlen n)" using pos by (simp add: powi_nat)
    have "(2::rat) ^ nat (bitlen n - 1) \<le> of_int n"
      using b(1) by (metis of_int_le_iff of_int_numeral of_int_power)
    moreover have "of_int n < 1 / x" unfolding n_def by (simp add: ceiling_diff_one less_ceiling_iff) linarith
    ultimately have "2 ^ nat (bitlen n - 1) < 1 / x" by linarith
    then have l: "2 powi (bitlen n - 1) < 1 / x" using pos by (simp add: powi_nat)
    have "2 powi (- bitlen n) \<le> x" using u assms by (simp add: power_int_minus field_simps)
    moreover have "x < 2 powi (- (bitlen n - 1))"
      using l assms unfolding power_int_minus by (simp add: field_simps del: minus_diff_eq)
    ultimately show ?thesis using False unfolding ilog2_def n_def by simp
  qed
  then show "2 powi (ilog2 x) \<le> x" "x < 2 powi (ilog2 x + 1)" by blast+
qed

lemma ilog2_unique:
  assumes "2 powi k \<le> x" "x < 2 powi (k + 1)"
  shows "ilog2 x = k"
proof -
  have x: "0 < x" using assms(1) powi_pos[of k] by linarith
  have "(2::rat) powi (ilog2 x) < 2 powi (k + 1)" using ilog2_bounds[OF x] assms by linarith
  moreover have "(2::rat) powi k < 2 powi (ilog2 x + 1)" using ilog2_bounds[OF x] assms by linarith
  ultimately show ?thesis by (simp add: powi_less_iff)
qed

lemma ilog2_mono:
  assumes "0 < x" "x \<le> y"
  shows "ilog2 x \<le> ilog2 y"
proof -
  have "(2::rat) powi (ilog2 x) < 2 powi (ilog2 y + 1)"
    using ilog2_bounds[of x] ilog2_bounds[of y] assms by linarith
  then show ?thesis by (simp add: powi_less_iff)
qed

section \<open>Rounding to an integer\<close>

lemma round_half_even_int [simp]: "round_half_even (of_int n) = n"
  by (simp add: round_half_even_def)

lemma round_half_even_near: "\<bar>of_int (round_half_even x) - x\<bar> \<le> 1 / 2"
proof -
  have "of_int \<lfloor>x\<rfloor> \<le> x" "x < of_int \<lfloor>x\<rfloor> + 1" by linarith+
  then show ?thesis unfolding round_half_even_def Let_def by (simp add: abs_le_iff)
qed

lemma round_half_even_bounds: "\<lfloor>x\<rfloor> \<le> round_half_even x" "round_half_even x \<le> \<lfloor>x\<rfloor> + 1"
  by (simp_all add: round_half_even_def Let_def)

lemma round_half_even_mono:
  assumes "x \<le> y"
  shows "round_half_even x \<le> round_half_even y"
proof (cases "\<lfloor>x\<rfloor> = \<lfloor>y\<rfloor>")
  case True
  then show ?thesis using assms by (simp add: round_half_even_def Let_def)
next
  case False
  then have "\<lfloor>x\<rfloor> + 1 \<le> \<lfloor>y\<rfloor>" using assms floor_mono[of x y] by simp
  then show ?thesis using round_half_even_bounds[of x] round_half_even_bounds[of y] by linarith
qed

lemma round_half_even_le: "x \<le> of_int n \<Longrightarrow> round_half_even x \<le> n"
  using round_half_even_mono[of x "of_int n"] by simp

lemma round_half_even_ge: "of_int n \<le> x \<Longrightarrow> n \<le> round_half_even x"
  using round_half_even_mono[of "of_int n" x] by simp

section \<open>Rounding to 53 bits\<close>

lemma fl_pos_scaled:
  assumes "0 < x"
  shows "2 ^ 52 \<le> x / 2 powi (ilog2 x - 52)" "x / 2 powi (ilog2 x - 52) < 2 ^ 53"
proof -
  have e: "(2::rat) powi (ilog2 x) = 2 ^ 52 * 2 powi (ilog2 x - 52)"
    by (simp add: power_int_diff)
  show "2 ^ 52 \<le> x / 2 powi (ilog2 x - 52)"
    using ilog2_bounds(1)[OF assms] by (simp add: e pos_le_divide_eq)
  show "x / 2 powi (ilog2 x - 52) < 2 ^ 53"
    using ilog2_bounds(2)[OF assms] by (simp add: powi_Suc e pos_divide_less_eq)
qed

lemma fl_pos_bounds:
  assumes "0 < x"
  shows "2 powi (ilog2 x) \<le> fl_pos x" "fl_pos x \<le> 2 powi (ilog2 x + 1)"
proof -
  define e where "e = ilog2 x - 52"
  have e: "(2::rat) powi (ilog2 x) = 2 ^ 52 * 2 powi e"
    unfolding e_def by (simp add: power_int_diff)
  have "2 ^ 52 \<le> round_half_even (x / 2 powi e)"
    using fl_pos_scaled(1)[OF assms] unfolding e_def by (intro round_half_even_ge) simp
  moreover have "round_half_even (x / 2 powi e) \<le> 2 ^ 53"
    using fl_pos_scaled(2)[OF assms] unfolding e_def by (intro round_half_even_le) simp
  ultimately have "(2::rat) ^ 52 \<le> of_int (round_half_even (x / 2 powi e))"
    "of_int (round_half_even (x / 2 powi e)) \<le> (2::rat) ^ 53"
    by (metis of_int_le_iff of_int_numeral of_int_power)+
  then have "2 ^ 52 * 2 powi e \<le> fl_pos x" "fl_pos x \<le> 2 ^ 53 * 2 powi e"
    unfolding fl_pos_def Let_def e_def[symmetric] by (simp_all add: mult_right_mono less_imp_le)
  then show "2 powi (ilog2 x) \<le> fl_pos x" "fl_pos x \<le> 2 powi (ilog2 x + 1)"
    by (simp_all add: powi_Suc e)
qed

lemma fl_pos_mono:
  assumes "0 < x" "x \<le> y"
  shows "fl_pos x \<le> fl_pos y"
proof (cases "ilog2 x = ilog2 y")
  case True
  have "x / 2 powi (ilog2 y - 52) \<le> y / 2 powi (ilog2 y - 52)"
    using assms by (simp add: divide_right_mono less_imp_le)
  then have "round_half_even (x / 2 powi (ilog2 y - 52)) \<le> round_half_even (y / 2 powi (ilog2 y - 52))"
    by (rule round_half_even_mono)
  then show ?thesis unfolding fl_pos_def Let_def True by (simp add: mult_right_mono less_imp_le)
next
  case False
  then have "ilog2 x + 1 \<le> ilog2 y" using ilog2_mono[OF assms] by simp
  then have "(2::rat) powi (ilog2 x + 1) \<le> 2 powi (ilog2 y)" by (simp add: power_int_increasing)
  then show ?thesis using fl_pos_bounds[of x] fl_pos_bounds[of y] assms by linarith
qed

lemma fl_pos_error:
  assumes "0 < x"
  shows "\<bar>fl_pos x - x\<bar> \<le> x / 2 ^ 53"
proof -
  define e where "e = ilog2 x - 52"
  have "fl_pos x - x = (of_int (round_half_even (x / 2 powi e)) - x / 2 powi e) * 2 powi e"
    unfolding fl_pos_def Let_def e_def by (simp add: left_diff_distrib)
  then have "\<bar>fl_pos x - x\<bar> = \<bar>of_int (round_half_even (x / 2 powi e)) - x / 2 powi e\<bar> * 2 powi e"
    by (simp add: abs_mult)
  also have "\<dots> \<le> 1 / 2 * 2 powi e"
    by (rule mult_right_mono[OF round_half_even_near]) (simp add: less_imp_le)
  also have "\<dots> \<le> x / 2 ^ 53"
    using fl_pos_scaled(1)[OF assms] unfolding e_def by (simp add: pos_le_divide_eq)
  finally show ?thesis .
qed

lemma fl_pos_exact:
  assumes "0 < m" "m \<le> 2 ^ 53"
  shows "fl_pos (of_int m * 2 powi k) = of_int m * 2 powi k"
proof -
  define x where "x = (of_int m :: rat) * 2 powi k"
  define e where "e = ilog2 x - 52"
  have x: "0 < x" using assms by (simp add: x_def)
  have scaled: "x / 2 powi e = of_int m * 2 powi (k - e)"
    unfolding x_def by (simp add: power_int_diff)
  have m53: "(of_int m :: rat) \<le> 2 ^ 53" using assms(2) by (metis of_int_le_iff of_int_numeral of_int_power)
  have "\<exists>n. x / 2 powi e = of_int n"
  proof (cases "e \<le> k")
    case True
    then have "x / 2 powi e = of_int (m * 2 ^ nat (k - e))" by (simp add: scaled powi_nat)
    then show ?thesis by blast
  next
    case False
    have "of_int m * (2::rat) powi (k - e) \<le> 2 ^ 53 * 2 powi (k - e)" using m53 by (simp add: mult_right_mono less_imp_le)
    also have "\<dots> \<le> 2 ^ 53 * 2 powi (- 1)"
      using False by (intro mult_left_mono power_int_increasing) auto
    also have "\<dots> = (2::rat) ^ 52" by (simp add: power_int_minus)
    finally have up: "of_int m * (2::rat) powi (k - e) \<le> of_int (2 ^ 52)" by simp
    have "of_int (2 ^ 52) \<le> of_int m * (2::rat) powi (k - e)"
      using fl_pos_scaled(1)[OF x] scaled unfolding e_def by simp
    with up have "of_int m * (2::rat) powi (k - e) = of_int (2 ^ 52)" by (rule antisym)
    then show ?thesis using scaled by metis
  qed
  then obtain n where "x / 2 powi e = of_int n" by blast
  then have "fl_pos x = x / 2 powi e * 2 powi e"
    unfolding fl_pos_def Let_def e_def[symmetric] by simp
  then show ?thesis unfolding x_def by simp
qed

lemma fl_0 [simp]: "fl 0 = 0"
  by (simp add: fl_def)

lemma fl_neg: "fl (- x) = - fl x"
  by (simp add: fl_def)

lemma fl_pos_eq: "0 < x \<Longrightarrow> fl x = fl_pos x"
  by (simp add: fl_def)

lemma fl_pos_gt0: "0 < x \<Longrightarrow> 0 < fl_pos x"
  using fl_pos_bounds(1)[of x] powi_pos[of "ilog2 x"] by linarith

lemma fl_mono:
  assumes "x \<le> y"
  shows "fl x \<le> fl y"
proof -
  consider "0 < x" | "x \<le> 0" "0 \<le> y" | "y < 0" using assms by linarith
  then show ?thesis
  proof cases
    case 1
    then show ?thesis using assms by (simp add: fl_pos_eq fl_pos_mono)
  next
    case 2
    have "fl x \<le> 0" using 2 fl_pos_gt0[of "- x"] by (cases "x = 0") (auto simp: fl_def)
    moreover have "0 \<le> fl y" using 2 fl_pos_gt0[of y] by (cases "y = 0") (auto simp: fl_def)
    ultimately show ?thesis by linarith
  next
    case 3
    then have "fl_pos (- y) \<le> fl_pos (- x)" using assms by (intro fl_pos_mono) auto
    then show ?thesis using 3 assms by (simp add: fl_def)
  qed
qed

lemma fl_error: "\<bar>fl x - x\<bar> \<le> \<bar>x\<bar> / 2 ^ 53"
proof -
  consider "x = 0" | "0 < x" | "x < 0" by linarith
  then show ?thesis
  proof cases
    case 1
    then show ?thesis by simp
  next
    case 2
    then show ?thesis using fl_pos_error[of x] by (simp add: fl_pos_eq)
  next
    case 3
    then have "\<bar>fl_pos (- x) - (- x)\<bar> \<le> - x / 2 ^ 53" by (intro fl_pos_error) simp
    then show ?thesis using 3 by (simp add: fl_def abs_if split: if_splits)
  qed
qed

lemma fl_lower: "0 \<le> x \<Longrightarrow> x - x / 2 ^ 53 \<le> fl x"
  using fl_error[of x] by (simp only: abs_le_iff abs_of_nonneg) linarith

lemma fl_dyadic: "\<bar>m\<bar> \<le> 2 ^ 53 \<Longrightarrow> fl (of_int m * 2 powi k) = of_int m * 2 powi k"
proof -
  assume m: "\<bar>m\<bar> \<le> 2 ^ 53"
  consider "m = 0" | "0 < m" | "m < 0" by linarith
  then show ?thesis
  proof cases
    case 1
    then show ?thesis by simp
  next
    case 2
    then have "0 < of_int m * (2::rat) powi k" by simp
    then show ?thesis using 2 m by (simp add: fl_pos_eq fl_pos_exact)
  next
    case 3
    then have "0 < of_int (- m) * (2::rat) powi k" by (intro mult_pos_pos) auto
    then have "fl (of_int (- m) * 2 powi k) = of_int (- m) * 2 powi k"
      using 3 m by (simp only: fl_pos_eq) (rule fl_pos_exact, auto)
    then show ?thesis using fl_neg[of "of_int (- m) * 2 powi k"] by simp
  qed
qed

lemma fl_of_int: "\<bar>n\<bar> \<le> 2 ^ 53 \<Longrightarrow> fl (of_int n) = of_int n"
  using fl_dyadic[of n 0] by simp

lemma fl_pos_dyadic: "0 < x \<Longrightarrow> \<exists>m k. \<bar>m\<bar> \<le> 2 ^ 53 \<and> fl_pos x = of_int m * 2 powi k"
proof -
  assume x: "0 < x"
  have "round_half_even (x / 2 powi (ilog2 x - 52)) \<le> 2 ^ 53"
    using fl_pos_scaled(2)[OF x] by (intro round_half_even_le) simp
  moreover have "2 ^ 52 \<le> round_half_even (x / 2 powi (ilog2 x - 52))"
    using fl_pos_scaled(1)[OF x] by (intro round_half_even_ge) simp
  ultimately have "\<bar>round_half_even (x / 2 powi (ilog2 x - 52))\<bar> \<le> 2 ^ 53" by simp
  then show ?thesis unfolding fl_pos_def Let_def by blast
qed

text \<open>Every rounded value is a float: rounding again changes nothing.\<close>

lemma fl_form: "\<exists>m k. \<bar>m\<bar> \<le> 2 ^ 53 \<and> fl x = of_int m * 2 powi k"
proof -
  consider "x = 0" | "0 < x" | "x < 0" by linarith
  then show ?thesis
  proof cases
    case 1
    then show ?thesis by (intro exI[of _ 0]) simp
  next
    case 2
    then show ?thesis using fl_pos_dyadic[of x] by (simp add: fl_pos_eq)
  next
    case 3
    then obtain m k where "\<bar>m\<bar> \<le> 2 ^ 53" "fl_pos (- x) = of_int m * 2 powi k"
      using fl_pos_dyadic[of "- x"] by auto
    then have "\<bar>- m\<bar> \<le> 2 ^ 53" "fl x = of_int (- m) * 2 powi k" using 3 by (auto simp: fl_def)
    then show ?thesis by blast
  qed
qed

lemma fl_idem [simp]: "fl (fl x) = fl x"
  using fl_form[of x] fl_dyadic by metis

lemma fl_half:
  assumes "fl x = x"
  shows "fl (x / 2) = x / 2"
proof -
  obtain m k where mk: "\<bar>m\<bar> \<le> 2 ^ 53" "x = of_int m * 2 powi k" using fl_form[of x] assms by metis
  have "x / 2 = of_int m * 2 powi (k - 1)" by (simp add: mk(2) power_int_diff)
  then show ?thesis using fl_dyadic[OF mk(1)] by metis
qed

lemma fl_scale:
  assumes "fl x = x"
  shows "fl (x * 2 ^ n) = x * 2 ^ n"
proof -
  obtain m k where mk: "\<bar>m\<bar> \<le> 2 ^ 53" "x = of_int m * 2 powi k" using fl_form[of x] assms by metis
  have "x * 2 ^ n = of_int m * 2 powi (k + int n)" by (simp add: mk(2) power_int_add)
  then show ?thesis using fl_dyadic[OF mk(1)] by metis
qed

lemma fl_le_float: "x \<le> y \<Longrightarrow> fl y = y \<Longrightarrow> fl x \<le> y"
  using fl_mono[of x y] by simp

lemma fl_ge_float: "y \<le> x \<Longrightarrow> fl y = y \<Longrightarrow> y \<le> fl x"
  using fl_mono[of y x] by simp

lemma fl_nonneg: "0 \<le> x \<Longrightarrow> 0 \<le> fl x"
  by (rule fl_ge_float) simp_all

text \<open>Rounding to two places leaves an integer price alone.\<close>

lemma py_round2_of_int:
  assumes "\<bar>n\<bar> \<le> 2 ^ 53"
  shows "py_round2 (of_int n) = of_int n"
proof -
  have "(of_int n :: rat) * 100 = of_int (n * 100)" by simp
  then have "round_half_even (of_int n * 100) = n * 100" by (metis round_half_even_int)
  then show ?thesis using fl_of_int[OF assms] by (simp add: py_round2_def)
qed

lemma py_round2_mono: "x \<le> y \<Longrightarrow> py_round2 x \<le> py_round2 y"
proof -
  assume "x \<le> y"
  then have "round_half_even (x * 100) \<le> round_half_even (y * 100)" by (intro round_half_even_mono) simp
  then show ?thesis unfolding py_round2_def by (intro fl_mono divide_right_mono) auto
qed

end
