(* ===== verification/Pricing.thy ===== *)
theory Pricing
  imports Models PyFloat
begin

text \<open>
  The pure part of \<open>services/rental_service.py\<close>: the price of a rental, the
  discount policy written as lookup tables and the eligibility rules written as an
  ordered list. The branch-by-branch functions they replaced, kept in the
  golden-master tests, are the reference definitions.
\<close>

section \<open>Price of a rental\<close>

definition RATE_PER_HOUR :: rat where
  "RATE_PER_HOUR = 5"

definition MIN_BILLABLE_HOURS :: int where
  "MIN_BILLABLE_HOURS = 1"

text \<open>\<open>timedelta.total_seconds()\<close> of a duration in microseconds.\<close>

definition total_seconds :: "int \<Rightarrow> rat" where
  "total_seconds us = fl (of_int us / 1000000)"

definition calculate_cost :: "instant \<Rightarrow> instant \<Rightarrow> rat \<Rightarrow> rat" where
  "calculate_cost started_at ended_at rate_per_hour =
     (let duration_hours = fl (total_seconds (ended_at - started_at) / 3600);
          billable_hours = max \<lceil>duration_hours\<rceil> MIN_BILLABLE_HOURS
      in py_round2 (fl (fl (of_int billable_hours) * rate_per_hour)))"

section \<open>Discounts\<close>

text \<open>\<open>bisect.bisect_left\<close> on a tuple: the loop of the standard library.\<close>

function bisect_loop :: "int list \<Rightarrow> int \<Rightarrow> nat \<Rightarrow> nat \<Rightarrow> nat" where
  "bisect_loop a x lo hi =
     (if lo < hi then
        (let mid = (lo + hi) div 2 in
         if a ! mid < x then bisect_loop a x (mid + 1) hi else bisect_loop a x lo mid)
      else lo)"
  by pat_completeness auto
termination
  by (relation "measure (\<lambda>(a, x, lo, hi). hi - lo)") auto

declare bisect_loop.simps [simp del]

definition bisect_left :: "int list \<Rightarrow> int \<Rightarrow> nat" where
  "bisect_left a x = bisect_loop a x 0 (length a)"

text \<open>A subscript on a dict; a missing key raises.\<close>

definition dict_item :: "('k \<times> 'v) list \<Rightarrow> 'k \<Rightarrow> 'v result" where
  "dict_item d k = (case map_of d k of None \<Rightarrow> Inl (KeyError []) | Some v \<Rightarrow> Inr v)"

definition dict_get :: "('k \<times> 'v) list \<Rightarrow> 'k \<Rightarrow> 'v \<Rightarrow> 'v" where
  "dict_get d k dflt = (case map_of d k of None \<Rightarrow> dflt | Some v \<Rightarrow> v)"

definition ZONE_DISCOUNTS :: "(string \<times> int) list" where
  "ZONE_DISCOUNTS = [(''center'', 1), (''suburb'', -1)]"

definition VIP_DISCOUNT :: "((bool \<times> bool) \<times> int) list" where
  "VIP_DISCOUNT = [((True, True), 5), ((True, False), 10), ((False, True), 2), ((False, False), 5)]"

definition REGULAR_TIER_BOUNDS :: "int list" where
  "REGULAR_TIER_BOUNDS = [5, 20]"

definition REGULAR_DISCOUNT :: "((nat \<times> bool) \<times> int) list" where
  "REGULAR_DISCOUNT = [((0, False), 0), ((0, True), 0), ((1, False), 1), ((1, True), 4),
     ((2, False), 3), ((2, True), 3)]"

definition HOLIDAY_DISCOUNT :: "(bool \<times> int) list" where
  "HOLIDAY_DISCOUNT = [(True, 2), (False, 1)]"

definition vip_discount :: "int \<Rightarrow> string \<Rightarrow> int result" where
  "vip_discount rental_count vehicle_type =
     dict_item VIP_DISCOUNT (rental_count > 10, vehicle_type = ''premium'')"

definition regular_discount :: "int \<Rightarrow> bool \<Rightarrow> int result" where
  "regular_discount rental_count has_coupon =
     dict_item REGULAR_DISCOUNT (bisect_left REGULAR_TIER_BOUNDS rental_count, has_coupon)"

definition weekend_zone_discount :: "string list \<Rightarrow> int result" where
  "weekend_zone_discount station_zones = Inr (sum_list (map (\<lambda>zone. dict_get ZONE_DISCOUNTS zone 0) station_zones))"

definition holiday_discount :: "bool \<Rightarrow> int result" where
  "holiday_discount has_coupon = dict_item HOLIDAY_DISCOUNT has_coupon"

record discount_context =
  dc_rental_count :: int
  dc_is_vip :: bool
  dc_vehicle_type :: string
  dc_station_zones :: "string list"
  dc_has_coupon :: bool
  dc_is_weekend :: bool
  dc_is_holiday :: bool
  dc_is_corporate :: bool
  dc_is_night :: bool
  dc_trip_hours :: rat
  dc_is_birthday :: bool
  dc_returned_charged :: bool

type_synonym amount = "discount_context \<Rightarrow> int result"

definition flat :: "int \<Rightarrow> amount" where
  "flat n = (\<lambda>_. Inr n)"

definition BASE_DISCOUNT :: "(bool \<times> amount) list" where
  "BASE_DISCOUNT =
     [(True, \<lambda>c. vip_discount (dc_rental_count c) (dc_vehicle_type c)),
      (False, \<lambda>c. regular_discount (dc_rental_count c) (dc_has_coupon c))]"

definition SURCHARGE_RULES :: "((discount_context \<Rightarrow> bool list) \<times> (bool list \<times> amount) list) list" where
  "SURCHARGE_RULES =
     [(\<lambda>c. [dc_is_weekend c], [([True], \<lambda>c. weekend_zone_discount (dc_station_zones c))]),
      (\<lambda>c. [dc_is_holiday c], [([True], \<lambda>c. holiday_discount (dc_has_coupon c))]),
      (\<lambda>c. [dc_is_corporate c, dc_rental_count c > 5, dc_vehicle_type c \<noteq> ''premium''],
        [([True, True, True], flat 3)]),
      (\<lambda>c. [dc_is_night c, dc_trip_hours c \<ge> 3, dc_has_coupon c], [([True, True, False], flat 4)]),
      (\<lambda>c. [dc_is_birthday c, dc_is_vip c, dc_rental_count c > 3],
        [([True, True, True], flat 6), ([True, True, False], flat 6), ([True, False, True], flat 6)]),
      (\<lambda>c. [dc_returned_charged c, dc_vehicle_type c = ''electric'', dc_trip_hours c > 1],
        [([True, True, True], flat 2)])]"

fun sum_results :: "int result list \<Rightarrow> int result" where
  "sum_results [] = Inr 0"
| "sum_results (m # ms) = bind_result m (\<lambda>x. bind_result (sum_results ms) (\<lambda>y. Inr (x + y)))"

definition calculate_discount :: "discount_context \<Rightarrow> int result" where
  "calculate_discount ctx =
     bind_result (bind_result (dict_item BASE_DISCOUNT (dc_is_vip ctx)) (\<lambda>amt. amt ctx)) (\<lambda>base.
     bind_result (sum_results (map (\<lambda>(key, table). dict_get table (key ctx) (flat 0) ctx) SURCHARGE_RULES)) (\<lambda>extra.
     Inr (base + extra)))"

text \<open>The branch-heavy original, frozen in the golden-master test.\<close>

definition legacy_calculate_discount :: "discount_context \<Rightarrow> int" where
  "legacy_calculate_discount c =
     (if dc_is_vip c then
        (if dc_rental_count c > 10 then (if dc_vehicle_type c = ''premium'' then 5 else 10)
         else (if dc_vehicle_type c = ''premium'' then 2 else 5))
      else if dc_rental_count c > 20 then 3
      else if dc_rental_count c \<le> 5 then 0
      else (if dc_has_coupon c then 4 else 1))
     + (if dc_is_weekend c then sum_list (map (\<lambda>zone. dict_get ZONE_DISCOUNTS zone 0) (dc_station_zones c)) else 0)
     + (if dc_is_holiday c then (if dc_has_coupon c then 2 else 1) else 0)
     + (if dc_is_corporate c \<and> dc_rental_count c > 5 \<and> dc_vehicle_type c \<noteq> ''premium'' then 3 else 0)
     + (if dc_is_night c \<and> dc_trip_hours c \<ge> 3 \<and> \<not> dc_has_coupon c then 4 else 0)
     + (if dc_is_birthday c \<and> (dc_is_vip c \<or> dc_rental_count c > 3) then 6 else 0)
     + (if dc_returned_charged c \<and> dc_vehicle_type c = ''electric'' \<and> dc_trip_hours c > 1 then 2 else 0)"

section \<open>Eligibility\<close>

record eligibility_context =
  ec_renter_is_blacklisted :: bool
  ec_license_expired :: bool
  ec_has_unpaid_fees :: bool
  ec_active_rental_count :: int
  ec_vehicle_status :: vehicle_status
  ec_station_is_open :: bool
  ec_is_weekend :: bool
  ec_weekend_requires_deposit :: bool
  ec_has_deposit_on_file :: bool

definition deposit_missing :: "eligibility_context \<Rightarrow> bool" where
  "deposit_missing c = (ec_is_weekend c \<and> ec_weekend_requires_deposit c \<and> \<not> ec_has_deposit_on_file c)"

definition unpaid_fees_with_active_rental :: "eligibility_context \<Rightarrow> bool" where
  "unpaid_fees_with_active_rental c = (ec_has_unpaid_fees c \<and> ec_active_rental_count c > 0)"

definition unpaid_fees_without_deposit :: "eligibility_context \<Rightarrow> bool" where
  "unpaid_fees_without_deposit c = (ec_has_unpaid_fees c \<and> deposit_missing c)"

definition vehicle_unavailable :: "eligibility_context \<Rightarrow> bool" where
  "vehicle_unavailable c = (ec_vehicle_status c \<noteq> AVAILABLE)"

definition station_closed :: "eligibility_context \<Rightarrow> bool" where
  "station_closed c = (\<not> ec_station_is_open c)"

definition ELIGIBILITY_RULES :: "((eligibility_context \<Rightarrow> bool) \<times> string) list" where
  "ELIGIBILITY_RULES =
     [(ec_renter_is_blacklisted, ''Renter is blacklisted''),
      (ec_license_expired, ''License expired''),
      (unpaid_fees_with_active_rental, ''Unpaid fees with an active rental''),
      (unpaid_fees_without_deposit, ''Deposit required for unpaid fees on weekend''),
      (vehicle_unavailable, ''Vehicle not available''),
      (station_closed, ''Station is closed''),
      (deposit_missing, ''Deposit required on weekend'')]"

fun first_violated :: "(('c \<Rightarrow> bool) \<times> string) list \<Rightarrow> 'c \<Rightarrow> bool \<times> string" where
  "first_violated [] ctx = (True, ''OK'')"
| "first_violated ((is_violated, reason) # rules) ctx =
     (if is_violated ctx then (False, reason) else first_violated rules ctx)"

definition validate_rental_eligibility :: "eligibility_context \<Rightarrow> bool \<times> string" where
  "validate_rental_eligibility ctx = first_violated ELIGIBILITY_RULES ctx"

text \<open>The nested original, frozen in the characterization test.\<close>

definition legacy_validate_rental_eligibility :: "eligibility_context \<Rightarrow> bool \<times> string" where
  "legacy_validate_rental_eligibility c =
     (if ec_renter_is_blacklisted c then (False, ''Renter is blacklisted'')
      else if ec_license_expired c then (False, ''License expired'')
      else let missing = ec_is_weekend c \<and> ec_weekend_requires_deposit c \<and> \<not> ec_has_deposit_on_file c in
        if ec_has_unpaid_fees c \<and> ec_active_rental_count c > 0 then (False, ''Unpaid fees with an active rental'')
        else if ec_has_unpaid_fees c \<and> missing then (False, ''Deposit required for unpaid fees on weekend'')
        else if ec_vehicle_status c \<noteq> AVAILABLE then (False, ''Vehicle not available'')
        else if \<not> ec_station_is_open c then (False, ''Station is closed'')
        else if missing then (False, ''Deposit required on weekend'')
        else (True, ''OK''))"

section \<open>Billing\<close>

text \<open>The billed hours of a duration in microseconds, in exact arithmetic.\<close>

definition billed_hours :: "int \<Rightarrow> int" where
  "billed_hours us = max \<lceil>(of_int us :: rat) / 3600000000\<rceil> 1"

lemma float_hours_le_exact:
  assumes "us \<le> 3600000000 * n" "0 \<le> n" "n \<le> 10 ^ 6"
  shows "fl (total_seconds us / 3600) \<le> of_int n"
proof -
  have "(of_int us :: rat) / 1000000 \<le> of_int (3600 * n)"
    using assms(1) by (simp add: field_simps flip: of_int_le_iff[where 'a=rat])
  then have "total_seconds us \<le> of_int (3600 * n)"
    unfolding total_seconds_def using assms by (intro fl_le_float fl_of_int) auto
  then have "total_seconds us / 3600 \<le> of_int n" by simp
  then show ?thesis using assms by (intro fl_le_float fl_of_int) auto
qed

text \<open>
  One microsecond past a full hour survives both roundings: the error of the
  division by a million is below 0.41 microseconds and that of the division by
  3600 below the rest.
\<close>

lemma float_hours_gt_exact:
  assumes "3600000000 * n < us" "0 \<le> n" "n \<le> 10 ^ 6"
  shows "of_int n < fl (total_seconds us / 3600)"
proof -
  define s :: rat where "s = of_int (3600000000 * n + 1) / 1000000"
  have n: "0 \<le> (of_int n :: rat)" "(of_int n :: rat) \<le> 10 ^ 6"
    using assms(2,3) by (metis of_int_0_le_iff, metis of_int_le_iff of_int_numeral of_int_power)
  have s: "s = 3600 * of_int n + 1 / 1000000" by (simp add: s_def field_simps)
  have "s \<le> of_int us / 1000000"
    unfolding s_def using assms(1) by (intro divide_right_mono) (simp_all flip: of_int_le_iff[where 'a=rat])
  then have "fl s \<le> total_seconds us" unfolding total_seconds_def by (rule fl_mono)
  moreover have "s - s / 2 ^ 53 \<le> fl s" using n s by (intro fl_lower) simp
  ultimately have "s - s / 2 ^ 53 \<le> total_seconds us" by linarith
  then have t: "of_int n + 1 / 6000000000 \<le> total_seconds us / 3600"
    using n s by (simp add: field_simps)
  define h :: rat where "h = of_int n + 1 / 6000000000"
  have "h - h / 2 ^ 53 \<le> fl h" using n by (intro fl_lower) (simp add: h_def)
  moreover have "of_int n < h - h / 2 ^ 53" using n by (simp add: h_def field_simps)
  moreover have "fl h \<le> fl (total_seconds us / 3600)" using t by (intro fl_mono) (simp add: h_def)
  ultimately show ?thesis by linarith
qed

lemma float_billed_hours:
  assumes "us \<le> 3600000000 * 10 ^ 6"
  shows "max \<lceil>fl (total_seconds us / 3600)\<rceil> 1 = billed_hours us"
proof (cases "us \<le> 3600000000")
  case True
  have "fl (total_seconds us / 3600) \<le> of_int 1" using True by (intro float_hours_le_exact) auto
  then have "\<lceil>fl (total_seconds us / 3600)\<rceil> \<le> 1" by (simp add: ceiling_le_iff)
  moreover have "\<lceil>(of_int us :: rat) / 3600000000\<rceil> \<le> 1" using True by (simp add: ceiling_le_iff)
  ultimately show ?thesis by (simp add: billed_hours_def)
next
  case False
  define h where "h = \<lceil>(of_int us :: rat) / 3600000000\<rceil>"
  have "(of_int us :: rat) / 3600000000 \<le> of_int h" "of_int h - 1 < (of_int us :: rat) / 3600000000"
    unfolding h_def by linarith+
  then have "(of_int us :: rat) \<le> of_int (3600000000 * h)" "of_int (3600000000 * (h - 1)) < (of_int us :: rat)"
    by (simp_all add: field_simps)
  then have up: "us \<le> 3600000000 * h" and lo: "3600000000 * (h - 1) < us"
    by (simp_all only: of_int_le_iff of_int_less_iff)
  have h: "2 \<le> h" "h \<le> 10 ^ 6" using up lo False assms by simp_all
  have "fl (total_seconds us / 3600) \<le> of_int h" using up h by (intro float_hours_le_exact) auto
  moreover have "of_int (h - 1) < fl (total_seconds us / 3600)" using lo h by (intro float_hours_gt_exact) auto
  ultimately have "\<lceil>fl (total_seconds us / 3600)\<rceil> = h" by (intro ceiling_unique) auto
  then show ?thesis using h by (simp add: billed_hours_def h_def)
qed

lemma billed_hours_bounds:
  assumes "us \<le> 3600000000 * 10 ^ 6"
  shows "1 \<le> billed_hours us" "billed_hours us \<le> 10 ^ 6"
proof -
  show "1 \<le> billed_hours us" by (simp add: billed_hours_def)
  have "(of_int us :: rat) \<le> of_int (3600000000 * 10 ^ 6)" using assms by (simp only: of_int_le_iff)
  then show "billed_hours us \<le> 10 ^ 6" by (simp add: billed_hours_def ceiling_le_iff field_simps)
qed

lemma billed_hours_mono: "us \<le> us' \<Longrightarrow> billed_hours us \<le> billed_hours us'"
proof -
  assume "us \<le> us'"
  then have "(of_int us :: rat) / 3600000000 \<le> of_int us' / 3600000000" by (simp add: divide_right_mono)
  then have "\<lceil>(of_int us :: rat) / 3600000000\<rceil> \<le> \<lceil>(of_int us' :: rat) / 3600000000\<rceil>" by (rule ceiling_mono)
  then show ?thesis by (auto simp: billed_hours_def)
qed

lemma cost_at_rate:
  assumes "e - s \<le> 3600000000 * 10 ^ 6"
  shows "calculate_cost s e RATE_PER_HOUR = 5 * of_int (billed_hours (e - s))"
proof -
  let ?h = "billed_hours (e - s)"
  have h: "1 \<le> ?h" "?h \<le> 10 ^ 6" using billed_hours_bounds[OF assms] by blast+
  then have "fl (of_int ?h :: rat) = of_int ?h" by (intro fl_of_int) auto
  moreover have "fl (of_int ?h * 5) = of_int (?h * 5)" using h fl_of_int[of "?h * 5"] by simp
  moreover have "py_round2 (of_int (?h * 5)) = of_int (?h * 5)" using h by (intro py_round2_of_int) auto
  ultimately show ?thesis
    using float_billed_hours[OF assms]
    by (simp add: calculate_cost_def Let_def RATE_PER_HOUR_def MIN_BILLABLE_HOURS_def mult.commute)
qed

text \<open>For any rate, a longer rental never costs less (all lengths, rounding included).\<close>

lemma cost_mono:
  assumes "e \<le> e'" "0 \<le> rate"
  shows "calculate_cost s e rate \<le> calculate_cost s e' rate"
proof -
  have "total_seconds (e - s) \<le> total_seconds (e' - s)"
    unfolding total_seconds_def using assms by (intro fl_mono divide_right_mono) auto
  then have "fl (total_seconds (e - s) / 3600) \<le> fl (total_seconds (e' - s) / 3600)"
    by (intro fl_mono divide_right_mono) auto
  then have "\<lceil>fl (total_seconds (e - s) / 3600)\<rceil> \<le> \<lceil>fl (total_seconds (e' - s) / 3600)\<rceil>"
    by (rule ceiling_mono)
  then show ?thesis unfolding calculate_cost_def Let_def
    using assms(2) by (intro py_round2_mono fl_mono mult_right_mono) auto
qed

section \<open>Tables against branches\<close>

text \<open>The binary search counts the smaller elements of a sorted list.\<close>

lemma bisect_loop_spec:
  assumes "sorted a" "lo \<le> hi" "hi \<le> length a"
    "\<forall>i < lo. a ! i < x" "\<forall>i. hi \<le> i \<and> i < length a \<longrightarrow> x \<le> a ! i"
  shows "bisect_loop a x lo hi \<le> length a \<and> (\<forall>i < bisect_loop a x lo hi. a ! i < x) \<and>
    (\<forall>i. bisect_loop a x lo hi \<le> i \<and> i < length a \<longrightarrow> x \<le> a ! i)"
  using assms
proof (induction a x lo hi rule: bisect_loop.induct)
  case (1 a x lo hi)
  show ?case
  proof (cases "lo < hi")
    case False
    then have "bisect_loop a x lo hi = lo" by (simp add: bisect_loop.simps[of a x lo hi])
    then show ?thesis using False "1.prems" by simp
  next
    case True
    define mid where "mid = (lo + hi) div 2"
    have mid: "lo \<le> mid" "mid < hi" using True by (auto simp: mid_def)
    show ?thesis
    proof (cases "a ! mid < x")
      case lt: True
      have below: "\<forall>i < mid + 1. a ! i < x"
      proof (intro allI impI)
        fix i assume "i < mid + 1"
        then have "a ! i \<le> a ! mid" using "1.prems" mid by (intro sorted_nth_mono) auto
        then show "a ! i < x" using lt by simp
      qed
      have eq: "bisect_loop a x lo hi = bisect_loop a x (mid + 1) hi"
        using True lt by (simp only: bisect_loop.simps[of a x lo hi] mid_def Let_def if_True)
      show ?thesis unfolding eq
        by (rule "1.IH"(1)[OF True mid_def lt "1.prems"(1) _ "1.prems"(3) below "1.prems"(5)]) (use mid in linarith)
    next
      case ge: False
      have above: "\<forall>i. mid \<le> i \<and> i < length a \<longrightarrow> x \<le> a ! i"
      proof (intro allI impI)
        fix i assume i: "mid \<le> i \<and> i < length a"
        then have "a ! mid \<le> a ! i" using "1.prems" by (intro sorted_nth_mono) auto
        then show "x \<le> a ! i" using ge by simp
      qed
      have eq: "bisect_loop a x lo hi = bisect_loop a x lo mid"
        using True ge by (simp only: bisect_loop.simps[of a x lo hi] mid_def Let_def if_True if_False)
      show ?thesis unfolding eq
        by (rule "1.IH"(2)[OF True mid_def ge "1.prems"(1) mid(1) _ "1.prems"(4) above])
          (use mid "1.prems"(3) in linarith)
    qed
  qed
qed

lemma tier_cases:
  "bisect_left REGULAR_TIER_BOUNDS n = (if n \<le> 5 then 0 else if n \<le> 20 then 1 else 2)"
  by (simp add: bisect_left_def REGULAR_TIER_BOUNDS_def bisect_loop.simps Let_def numeral_2_eq_2)

lemma first_violated_OK:
  "fst (first_violated rules ctx) \<longleftrightarrow> (\<forall>(p, r) \<in> set rules. \<not> p ctx)"
  by (induction rules ctx rule: first_violated.induct) auto

lemma base_discount_cases:
  "bind_result (dict_item BASE_DISCOUNT (dc_is_vip c)) (\<lambda>amt. amt c) =
     Inr (if dc_is_vip c then
        (if dc_rental_count c > 10 then (if dc_vehicle_type c = ''premium'' then 5 else 10)
         else (if dc_vehicle_type c = ''premium'' then 2 else 5))
      else if dc_rental_count c > 20 then 3
      else if dc_rental_count c \<le> 5 then 0
      else (if dc_has_coupon c then 4 else 1))"
  by (simp add: dict_item_def BASE_DISCOUNT_def vip_discount_def VIP_DISCOUNT_def regular_discount_def
      REGULAR_DISCOUNT_def tier_cases)

lemma surcharge_cases:
  "sum_results (map (\<lambda>(key, table). dict_get table (key c) (flat 0) c) SURCHARGE_RULES) =
     Inr ((if dc_is_weekend c then sum_list (map (\<lambda>zone. dict_get ZONE_DISCOUNTS zone 0) (dc_station_zones c)) else 0)
     + (if dc_is_holiday c then (if dc_has_coupon c then 2 else 1) else 0)
     + (if dc_is_corporate c \<and> dc_rental_count c > 5 \<and> dc_vehicle_type c \<noteq> ''premium'' then 3 else 0)
     + (if dc_is_night c \<and> dc_trip_hours c \<ge> 3 \<and> \<not> dc_has_coupon c then 4 else 0)
     + (if dc_is_birthday c \<and> (dc_is_vip c \<or> dc_rental_count c > 3) then 6 else 0)
     + (if dc_returned_charged c \<and> dc_vehicle_type c = ''electric'' \<and> dc_trip_hours c > 1 then 2 else 0))"
proof -
  define w where "w = sum_list (map (\<lambda>zone. dict_get ZONE_DISCOUNTS zone 0) (dc_station_zones c))"
  have r1: "dict_get [([True], \<lambda>c. weekend_zone_discount (dc_station_zones c))] [dc_is_weekend c] (flat 0) c =
      Inr (if dc_is_weekend c then w else 0)"
    by (simp add: dict_get_def flat_def weekend_zone_discount_def w_def)
  have r2: "dict_get [([True], \<lambda>c. holiday_discount (dc_has_coupon c))] [dc_is_holiday c] (flat 0) c =
      Inr (if dc_is_holiday c then (if dc_has_coupon c then 2 else 1) else 0)"
    by (simp add: dict_get_def flat_def holiday_discount_def dict_item_def HOLIDAY_DISCOUNT_def)
  have one: "dict_get [(k, flat n)] k' (flat 0) c = Inr (if k' = k then n else 0)" for k k' :: "bool list" and n
    by (simp add: dict_get_def flat_def)
  have three: "dict_get [([True, True, True], flat 6), ([True, True, False], flat 6), ([True, False, True], flat 6)]
      [x, y, z] (flat 0) c = Inr (if x \<and> (y \<or> z) then 6 else 0)" for x y z
    by (simp add: dict_get_def flat_def)
  show ?thesis unfolding SURCHARGE_RULES_def
    by (simp only: list.map prod.case r1 r2 one three sum_results.simps bind_result_simps w_def list.inject)
       (simp add: add.assoc)
qed

section \<open>Properties\<close>

text \<open>
  C9: the price of a rental of up to a million hours is exactly five per started
  hour, with one hour as the minimum: the two float divisions and the rounding to
  cents of \<open>calculate_cost\<close> never change the number of billed hours.
\<close>

theorem calculate_cost_exact:
  assumes "ended_at - started_at \<le> 3600000000 * 10 ^ 6"
  shows "calculate_cost started_at ended_at RATE_PER_HOUR =
    5 * of_int (max \<lceil>(of_int (ended_at - started_at) :: rat) / 3600000000\<rceil> MIN_BILLABLE_HOURS)"
  using cost_at_rate[OF assms] by (simp add: billed_hours_def MIN_BILLABLE_HOURS_def)

theorem calculate_cost_exact_witness:
  "(3660000000 :: int) - 0 \<le> 3600000000 * 10 ^ 6 \<and> calculate_cost 0 3660000000 RATE_PER_HOUR = 10"
proof -
  have h: "(3660000000 :: int) - 0 \<le> 3600000000 * 10 ^ 6" by simp
  have c: "\<lceil>61 / 60 :: rat\<rceil> = 2" by (rule ceiling_unique) simp_all
  show ?thesis using h calculate_cost_exact[OF h] c by (simp add: MIN_BILLABLE_HOURS_def)
qed

text \<open>
  The lookup-table discount equals the branch-heavy original on every input,
  and no table lookup raises.
\<close>

lemma calculate_discount_eq_legacy:
  "calculate_discount ctx = Inr (legacy_calculate_discount ctx)"
  unfolding calculate_discount_def base_discount_cases surcharge_cases bind_result_simps
    legacy_calculate_discount_def
  by (simp only: add.assoc)

text \<open>
  The ordered eligibility rules give the verdict and the reason of the nested
  original on every input, and accept exactly when no rule is violated.
\<close>

lemma validate_rental_eligibility_eq_legacy:
  "validate_rental_eligibility ctx = legacy_validate_rental_eligibility ctx \<and>
   fst (validate_rental_eligibility ctx) = list_all (\<lambda>(violated, reason). \<not> violated ctx) ELIGIBILITY_RULES"
  by (simp add: validate_rental_eligibility_def first_violated_OK list_all_iff)
     (simp add: ELIGIBILITY_RULES_def legacy_validate_rental_eligibility_def
      unpaid_fees_with_active_rental_def unpaid_fees_without_deposit_def vehicle_unavailable_def
      station_closed_def deposit_missing_def Let_def)

end
