(* ===== verification/Resilience.thy ===== *)
theory Resilience
  imports Models PyFloat
begin

text \<open>
  \<open>resilience.py\<close>: the retry policy, its exponential backoff with equal jitter, and
  the retry loop. An operation is the outcome of each of its attempts (a time-out
  of \<open>wait_for\<close> is the outcome \<open>TimeoutError\<close>); the loop also returns the pauses it
  slept. The arithmetic is that of binary64 floats, with the one overflow that Python
  reports: from the 1025th failed attempt on, the delay cannot be computed. \<open>rand\<close> gives the random number drawn after each failed attempt. The locale
  \<open>retried\<close> is what a caller of the loop relies on, interpreted on \<open>call_with_retry\<close>.
\<close>

section \<open>The policy\<close>

record retry_policy =
  max_attempts :: int
  attempt_timeout :: rat
  base_delay :: rat
  max_delay :: rat

definition RetryPolicy :: "int \<Rightarrow> rat \<Rightarrow> rat \<Rightarrow> rat \<Rightarrow> retry_policy result" where
  "RetryPolicy n timeout base longest =
     (if n < 1 then Inl (ValueError ''max_attempts must be >= 1'')
      else if timeout \<le> 0 then Inl (ValueError ''attempt_timeout must be > 0'')
      else Inr \<lparr>max_attempts = n, attempt_timeout = timeout, base_delay = base, max_delay = longest\<rparr>)"

text \<open>
  In \<open>base_delay * 2 ** (attempt - 1)\<close> the power is an integer that is converted to a
  float, which fails from \<open>2 ** 1024\<close> on, whatever the base delay. A product beyond the
  floats is an infinity, and \<open>min\<close> answers \<open>max_delay\<close> as it does for the exact product.
\<close>

definition exponential :: "retry_policy \<Rightarrow> int \<Rightarrow> rat result" where
  "exponential policy attempt =
     (if 1024 \<le> attempt - 1 then Inl OverflowError
      else Inr (min (max_delay policy) (fl (base_delay policy * 2 ^ nat (attempt - 1)))))"

definition backoff_delay :: "retry_policy \<Rightarrow> int \<Rightarrow> rat \<Rightarrow> rat result" where
  "backoff_delay policy attempt r =
     bind_result (exponential policy attempt) (\<lambda>e. Inr (fl (fl (e / 2) + fl (fl (r * e) / 2))))"

fun exponentials :: "retry_policy \<Rightarrow> int list \<Rightarrow> rat list result" where
  "exponentials policy [] = Inr []"
| "exponentials policy (attempt # attempts) =
     bind_result (exponential policy attempt) (\<lambda>e. bind_result (exponentials policy attempts) (\<lambda>es. Inr (e # es)))"

definition worst_case_seconds :: "retry_policy \<Rightarrow> rat result" where
  "worst_case_seconds policy =
     bind_result (exponentials policy [1..max_attempts policy - 1]) (\<lambda>es.
       Inr (fl (fl (of_int (max_attempts policy) * attempt_timeout policy) + py_sum es)))"

section \<open>The loop\<close>

definition retryable :: "(exn \<Rightarrow> bool) \<Rightarrow> exn \<Rightarrow> bool" where
  "retryable retry_on e = (e = TimeoutError \<or> retry_on e)"

text \<open>The body of \<open>for attempt in range(1, max_attempts + 1)\<close>, with the iterations left.\<close>

fun retry_loop ::
  "(int \<Rightarrow> 'a result) \<Rightarrow> retry_policy \<Rightarrow> (exn \<Rightarrow> bool) \<Rightarrow> string \<Rightarrow> (int \<Rightarrow> rat) \<Rightarrow> nat \<Rightarrow> int \<Rightarrow> 'a result \<times> rat list" where
  "retry_loop operation policy retry_on name rand 0 attempt = (Inl AssertionError, [])"
| "retry_loop operation policy retry_on name rand (Suc left) attempt =
     (case operation attempt of
        Inr x \<Rightarrow> (Inr x, [])
      | Inl e \<Rightarrow>
          if \<not> retryable retry_on e then (Inl e, [])
          else if attempt = max_attempts policy then (Inl (RetryExhaustedError name (nat attempt) e), [])
          else (case backoff_delay policy attempt (rand attempt) of
                  Inl e' \<Rightarrow> (Inl e', [])
                | Inr pause \<Rightarrow>
                    (case retry_loop operation policy retry_on name rand left (attempt + 1) of
                       (res, pauses) \<Rightarrow> (res, pause # pauses))))"

definition call_with_retry ::
  "(int \<Rightarrow> 'a result) \<Rightarrow> retry_policy \<Rightarrow> (exn \<Rightarrow> bool) \<Rightarrow> string \<Rightarrow> (int \<Rightarrow> rat) \<Rightarrow> 'a result \<times> rat list" where
  "call_with_retry operation policy retry_on name rand =
     retry_loop operation policy retry_on name rand (nat (max_attempts policy)) 1"

section \<open>Backoff\<close>

definition floats :: "retry_policy \<Rightarrow> bool" where
  "floats policy = (fl (base_delay policy) = base_delay policy \<and> fl (max_delay policy) = max_delay policy)"

text \<open>Doubling a float is exact, so the exponential part is the documented one.\<close>

definition ceiling_delay :: "retry_policy \<Rightarrow> int \<Rightarrow> rat" where
  "ceiling_delay policy attempt = min (max_delay policy) (base_delay policy * 2 ^ nat (attempt - 1))"

definition jittered :: "rat \<Rightarrow> rat \<Rightarrow> rat" where
  "jittered e r = fl (fl (e / 2) + fl (fl (r * e) / 2))"

lemma ceiling_delay_float: "floats p \<Longrightarrow> fl (ceiling_delay p n) = ceiling_delay p n"
  by (auto simp: ceiling_delay_def floats_def min_def fl_scale)

lemma exponential_exact: "floats p \<Longrightarrow> n \<le> 1024 \<Longrightarrow> exponential p n = Inr (ceiling_delay p n)"
  by (simp add: exponential_def floats_def fl_scale ceiling_delay_def)

lemma backoff_delay_exact: "floats p \<Longrightarrow> n \<le> 1024 \<Longrightarrow> backoff_delay p n r = Inr (jittered (ceiling_delay p n) r)"
  by (simp add: backoff_delay_def exponential_exact jittered_def)

lemma backoff_delay_overflow: "1025 \<le> n \<Longrightarrow> backoff_delay p n r = Inl OverflowError"
  by (simp add: backoff_delay_def exponential_def)

lemma backoff_delay_Inr: "n \<le> 1024 \<Longrightarrow> \<exists>d. backoff_delay p n r = Inr d"
  by (simp add: backoff_delay_def exponential_def)

text \<open>The jitter keeps half of the delay and stays within it; with a negative limit both are below zero.\<close>

lemma jittered_bounds:
  assumes e: "fl e = e" and r: "0 \<le> r" "r \<le> 1"
  shows "min (e / 2) e \<le> jittered e r" "jittered e r \<le> max (e / 2) e"
proof -
  have half: "fl (e / 2) = e / 2" using e by (rule fl_half)
  have d: "jittered e r = fl (e / 2 + fl (r * e) / 2)"
    unfolding jittered_def half by (simp add: fl_half)
  have "min 0 e \<le> r * e" "r * e \<le> max 0 e"
    using r by (cases "0 \<le> e"; simp add: mult_left_le_one_le mult_nonneg_nonpos mult_left_le)+
  then have j: "min 0 e \<le> fl (r * e)" "fl (r * e) \<le> max 0 e"
    using e by (auto intro!: fl_ge_float fl_le_float simp: min_def max_def)
  show "min (e / 2) e \<le> jittered e r" unfolding d using j(1) half e by (intro fl_ge_float) (auto simp: min_def split: if_splits)
  show "jittered e r \<le> max (e / 2) e" unfolding d using j(2) half e by (intro fl_le_float) (auto simp: max_def split: if_splits)
qed

section \<open>The contract of a retried call\<close>

text \<open>
  The first attempt that succeeds or fails for good decides; if there is none, the
  call gives up after the last one.
\<close>

definition settles :: "(int \<Rightarrow> 'a result) \<Rightarrow> (exn \<Rightarrow> bool) \<Rightarrow> int \<Rightarrow> bool" where
  "settles operation retry_on i = (case operation i of Inr _ \<Rightarrow> True | Inl e \<Rightarrow> \<not> retryable retry_on e)"

definition error_of :: "'a result \<Rightarrow> exn" where
  "error_of r = (case r of Inl e \<Rightarrow> e | Inr _ \<Rightarrow> AssertionError)"

text \<open>The attempts that a policy can make before a delay overflows, and how it gives up after them.\<close>

definition attempts_made :: "retry_policy \<Rightarrow> int" where
  "attempts_made policy = min 1025 (max_attempts policy)"

definition giving_up :: "(int \<Rightarrow> 'a result) \<Rightarrow> retry_policy \<Rightarrow> string \<Rightarrow> exn" where
  "giving_up operation policy name =
     (if max_attempts policy \<le> 1025
      then RetryExhaustedError name (nat (max_attempts policy)) (error_of (operation (max_attempts policy)))
      else OverflowError)"

definition pause :: "retry_policy \<Rightarrow> (int \<Rightarrow> rat) \<Rightarrow> int \<Rightarrow> rat" where
  "pause policy rand i = projr (backoff_delay policy i (rand i))"

lemma retry_loop_spec:
  assumes "attempt + int left = max_attempts policy + 1" "0 < left" "attempt \<le> 1025"
  shows "retry_loop operation policy retry_on name rand left attempt =
    (case find (settles operation retry_on) [attempt..attempts_made policy] of
       Some n \<Rightarrow> (operation n, map (pause policy rand) [attempt..n - 1])
     | None \<Rightarrow> (Inl (giving_up operation policy name), map (pause policy rand) [attempt..attempts_made policy - 1]))"
  using assms
proof (induction left arbitrary: attempt)
  case 0
  then show ?case by simp
next
  case (Suc left)
  let ?L = "attempts_made policy"
  have range: "[attempt..?L] = attempt # [attempt + 1..?L]"
    using Suc.prems by (intro upto_rec1) (simp add: attempts_made_def)
  show ?case
  proof (cases "settles operation retry_on attempt")
    case True
    then show ?thesis by (cases "operation attempt") (simp_all add: range settles_def)
  next
    case ns: False
    then obtain e where e: "operation attempt = Inl e" "retryable retry_on e" by (auto simp: settles_def split: sum.splits)
    consider (last) "attempt = max_attempts policy" | (overflow) "attempt = 1025" "attempt < max_attempts policy"
      | (again) "attempt \<le> 1024" "attempt < max_attempts policy" using Suc.prems by linarith
    then show ?thesis
    proof cases
      case last
      then show ?thesis using e ns Suc.prems(3) by (simp add: error_of_def attempts_made_def giving_up_def)
    next
      case overflow
      then show ?thesis using e ns by (simp add: attempts_made_def giving_up_def backoff_delay_overflow)
    next
      case again
      obtain d where d: "backoff_delay policy attempt (rand attempt) = Inr d" using backoff_delay_Inr[OF again(1)] by blast
      have left: "0 < left" "attempt + 1 + int left = max_attempts policy + 1" "attempt + 1 \<le> 1025" using Suc.prems again by auto
      have more: "[attempt..?L - 1] = attempt # [attempt + 1..?L - 1]"
        using again by (intro upto_rec1) (simp add: attempts_made_def)
      have cut: "[attempt..n - 1] = attempt # [attempt + 1..n - 1]"
        if "find (settles operation retry_on) [attempt + 1..?L] = Some n" for n
      proof -
        have "n \<in> set [attempt + 1..?L]" using that unfolding find_Some_iff by (metis nth_mem)
        then show ?thesis by (intro upto_rec1) simp
      qed
      show ?thesis using Suc.IH[OF left(2,1,3)] e ns d again
        by (auto simp: range more cut pause_def split: option.splits)
    qed
  qed
qed

lemma call_with_retry_find:
  assumes "1 \<le> max_attempts policy"
  shows "call_with_retry operation policy retry_on name rand =
    (case find (settles operation retry_on) [1..attempts_made policy] of
       Some n \<Rightarrow> (operation n, map (pause policy rand) [1..n - 1])
     | None \<Rightarrow> (Inl (giving_up operation policy name), map (pause policy rand) [1..attempts_made policy - 1]))"
  unfolding call_with_retry_def using assms by (intro retry_loop_spec) auto

locale retried =
  fixes call :: "(int \<Rightarrow> 'a result) \<Rightarrow> 'a result"
    and attempts :: int
    and transient :: "exn \<Rightarrow> bool"
    and gave_up :: "exn \<Rightarrow> bool"
  assumes decides: "1 \<le> n \<Longrightarrow> n \<le> attempts \<Longrightarrow> (\<And>e. operation n = Inl e \<Longrightarrow> \<not> transient e) \<Longrightarrow>
      (\<And>i. 1 \<le> i \<Longrightarrow> i < n \<Longrightarrow> \<exists>e. operation i = Inl e \<and> transient e) \<Longrightarrow> call operation = operation n"
    and gives_up: "(\<And>i. 1 \<le> i \<Longrightarrow> i \<le> attempts \<Longrightarrow> \<exists>e. operation i = Inl e \<and> transient e) \<Longrightarrow>
      \<exists>e. call operation = Inl e \<and> gave_up e"
begin

text \<open>A call returns what one of its attempts did, and not a transient error, or gives up.\<close>

lemma outcome:
  "(\<exists>n. 1 \<le> n \<and> n \<le> attempts \<and> call operation = operation n \<and> (\<forall>e. operation n = Inl e \<longrightarrow> \<not> transient e)) \<or>
   (\<exists>e. call operation = Inl e \<and> gave_up e)"
proof -
  let ?S = "{i. 1 \<le> i \<and> i \<le> attempts \<and> (\<forall>e. operation i = Inl e \<longrightarrow> \<not> transient e)}"
  have transient: "\<exists>e. operation i = Inl e \<and> transient e" if "1 \<le> i" "i \<le> attempts" "i \<notin> ?S" for i
    using that by auto
  show ?thesis
  proof (cases "?S = {}")
    case True
    then show ?thesis using gives_up[of operation] transient by blast
  next
    case False
    have "finite ?S" by (rule finite_subset[of _ "{1..attempts}"]) auto
    then have n: "Min ?S \<in> ?S" "\<And>i. i \<in> ?S \<Longrightarrow> Min ?S \<le> i" using False Min_in Min_le by blast+
    have "\<exists>e. operation i = Inl e \<and> transient e" if "1 \<le> i" "i < Min ?S" for i
      using that n transient[of i] by fastforce
    then have "call operation = operation (Min ?S)" using n(1) by (intro decides) auto
    then show ?thesis using n(1) by blast
  qed
qed

text \<open>An operation that always has the same outcome: the outcome itself, or giving up.\<close>

lemma constant_outcome:
  assumes "1 \<le> attempts"
  shows "if (\<exists>e. r = Inl e \<and> transient e) then (\<exists>e. call (\<lambda>_. r) = Inl e \<and> gave_up e)
    else call (\<lambda>_. r) = r"
  using gives_up[of "\<lambda>_. r"] decides[of 1 "\<lambda>_. r"] assms by auto

end

text \<open>The first attempt that settles, by \<open>find\<close> over the range.\<close>

lemma find_upto_Some:
  assumes "find P [a..b] = Some n"
  shows "P n" "a \<le> n" "n \<le> b" "\<And>i. a \<le> i \<Longrightarrow> i < n \<Longrightarrow> \<not> P i"
proof -
  obtain k where k: "k < length [a..b]" "P ([a..b] ! k)" "n = [a..b] ! k" "\<And>j. j < k \<Longrightarrow> \<not> P ([a..b] ! j)"
    using assms unfolding find_Some_iff by auto
  then have n: "n = a + int k" by (simp add: nth_upto)
  show "P n" "a \<le> n" "n \<le> b" using k(1-3) n by auto
  show "\<not> P i" if "a \<le> i" "i < n" for i
    using k(4)[of "nat (i - a)"] that k(1) n by (simp add: nth_upto)
qed

lemma find_upto_None: "find P [a..b] = None \<Longrightarrow> a \<le> i \<Longrightarrow> i \<le> b \<Longrightarrow> \<not> P i"
  by (simp add: find_None_iff)

lemma settles_iff: "\<not> settles operation retry_on i \<longleftrightarrow> (\<exists>e. operation i = Inl e \<and> retryable retry_on e)"
  by (auto simp: settles_def split: sum.splits)

text \<open>How a call under a policy gives up: the attempts are exhausted, or the delay overflows.\<close>

definition gave_up :: "retry_policy \<Rightarrow> exn \<Rightarrow> bool" where
  "gave_up policy e =
     (if max_attempts policy \<le> 1025 then (\<exists>name last. e = RetryExhaustedError name (nat (max_attempts policy)) last)
      else e = OverflowError)"

lemma retried_call:
  assumes "1 \<le> max_attempts policy"
  shows "retried (\<lambda>operation. fst (call_with_retry operation policy retry_on name rand)) (attempts_made policy)
    (retryable retry_on) (gave_up policy)"
proof
  fix n and operation :: "int \<Rightarrow> 'a result"
  assume n: "1 \<le> n" "n \<le> attempts_made policy" "\<And>e. operation n = Inl e \<Longrightarrow> \<not> retryable retry_on e"
    and before: "\<And>i. 1 \<le> i \<Longrightarrow> i < n \<Longrightarrow> \<exists>e. operation i = Inl e \<and> retryable retry_on e"
  have s: "settles operation retry_on n" using n(3) by (auto simp: settles_def split: sum.splits)
  show "fst (call_with_retry operation policy retry_on name rand) = operation n"
  proof (cases "find (settles operation retry_on) [1..attempts_made policy]")
    case None
    then show ?thesis using find_upto_None[OF None n(1,2)] s by blast
  next
    case (Some m)
    have "m = n"
      using find_upto_Some[OF Some] before n s settles_iff[of operation retry_on] by (metis linorder_neqE_linordered_idom)
    then show ?thesis using Some by (simp add: call_with_retry_find[OF assms])
  qed
next
  fix operation :: "int \<Rightarrow> 'a result"
  assume "\<And>i. 1 \<le> i \<Longrightarrow> i \<le> attempts_made policy \<Longrightarrow> \<exists>e. operation i = Inl e \<and> retryable retry_on e"
  then have "find (settles operation retry_on) [1..attempts_made policy] = None"
    by (auto simp: find_None_iff settles_iff)
  then show "\<exists>e. fst (call_with_retry operation policy retry_on name rand) = Inl e \<and> gave_up policy e"
    by (simp add: call_with_retry_find[OF assms] gave_up_def giving_up_def)
qed

text \<open>
  Every policy the constructor accepts is a fixed point of \<open>at_least_once\<close>, so the
  interpretation covers every call the program makes.
\<close>

definition at_least_once :: "retry_policy \<Rightarrow> retry_policy" where
  "at_least_once policy = policy\<lparr>max_attempts := max 1 (max_attempts policy)\<rparr>"

lemma RetryPolicy_at_least_once: "RetryPolicy n timeout base longest = Inr policy \<Longrightarrow> at_least_once policy = policy"
  by (auto simp: RetryPolicy_def at_least_once_def split: if_splits)

interpretation retrying: retried "\<lambda>operation. fst (call_with_retry operation (at_least_once policy) retry_on name rand)"
  "attempts_made (at_least_once policy)" "retryable retry_on" "gave_up (at_least_once policy)" for policy retry_on name rand
  by (rule retried_call) (simp add: at_least_once_def)

section \<open>Properties\<close>

text \<open>
  C28: the retry loop does exactly what its policy says. A policy the constructor
  accepts makes at least one attempt and the "unreachable" assertion is never
  raised: the first attempt that returns or fails with an error that is not
  retried decides the call, after one pause for each earlier attempt. If there is
  none, a policy of up to 1025 attempts raises \<open>RetryExhaustedError\<close> with the last error
  after exactly \<open>max_attempts\<close> attempts and one pause fewer; a policy of more attempts makes 1025 of
  them and fails with the \<open>OverflowError\<close> of its own backoff. For delays that are finite floats and a base
  delay that is not negative (the constructor checks neither delay), every pause lies between half of the
  exponential delay \<open>min max_delay (base_delay * 2 ^ i)\<close> and all of it, so that it exceeds
  \<open>max_delay\<close> only where that is negative.
\<close>

theorem call_with_retry_spec:
  assumes "RetryPolicy n timeout base longest = Inr policy"
    and "fl base = base" and "fl longest = longest" and "0 \<le> base"
    and "\<forall>i. 0 \<le> rand i \<and> rand i < 1"
  shows "\<exists>res pauses. call_with_retry operation policy retry_on name rand = (res, pauses) \<and> 1 \<le> n \<and>
    (case find (settles operation retry_on) [1..min 1025 n] of
       Some k \<Rightarrow> res = operation k \<and> length pauses = nat (k - 1)
     | None \<Rightarrow>
         if n \<le> 1025 then res = Inl (RetryExhaustedError name (nat n) (error_of (operation n))) \<and> length pauses = nat (n - 1)
         else res = Inl OverflowError \<and> length pauses = 1024) \<and>
    (\<forall>i < length pauses. let e = min longest (base * 2 ^ i) in
       if 0 \<le> longest then 0 \<le> e / 2 \<and> e / 2 \<le> pauses ! i \<and> pauses ! i \<le> e else e \<le> pauses ! i \<and> pauses ! i \<le> e / 2)"
proof -
  have p: "1 \<le> n" "policy = \<lparr>max_attempts = n, attempt_timeout = timeout, base_delay = base, max_delay = longest\<rparr>"
    using assms(1) by (auto simp: RetryPolicy_def split: if_splits)
  have fl: "floats policy" using assms p(2) by (simp add: floats_def)
  have bounds: "let e = min longest (base * 2 ^ i) in
      if 0 \<le> longest then 0 \<le> e / 2 \<and> e / 2 \<le> map (pause policy rand) [1..m] ! i \<and> map (pause policy rand) [1..m] ! i \<le> e
      else e \<le> map (pause policy rand) [1..m] ! i \<and> map (pause policy rand) [1..m] ! i \<le> e / 2"
    if "i < nat m" "m \<le> 1024" for i m
  proof -
    let ?e = "ceiling_delay policy (1 + int i)"
    have e: "?e = min longest (base * 2 ^ i)" using p(2) by (simp add: ceiling_delay_def)
    have "map (pause policy rand) [1..m] ! i = pause policy rand (1 + int i)" using that by (simp add: nth_upto)
    also have "\<dots> = jittered ?e (rand (1 + int i))" using that backoff_delay_exact[OF fl] by (simp add: pause_def)
    finally have m: "map (pause policy rand) [1..m] ! i = jittered ?e (rand (1 + int i))" .
    have j: "min (?e / 2) ?e \<le> jittered ?e (rand (1 + int i))" "jittered ?e (rand (1 + int i)) \<le> max (?e / 2) ?e"
      using jittered_bounds[OF ceiling_delay_float[OF fl]] assms(5) by (simp_all add: less_imp_le)
    have "0 \<le> longest \<Longrightarrow> 0 \<le> ?e" "\<not> 0 \<le> longest \<Longrightarrow> ?e < 0" using assms(4) e by auto
    then show ?thesis unfolding m e[symmetric] Let_def using j by (auto simp: min_def max_def split: if_splits)
  qed
  have made: "attempts_made policy = min 1025 n" "max_attempts policy = n" using p(2) by (simp_all add: attempts_made_def)
  have call: "call_with_retry operation policy retry_on name rand =
    (case find (settles operation retry_on) [1..min 1025 n] of
       Some k \<Rightarrow> (operation k, map (pause policy rand) [1..k - 1])
     | None \<Rightarrow> (Inl (giving_up operation policy name), map (pause policy rand) [1..min 1025 n - 1]))"
    by (rule call_with_retry_find[of policy operation retry_on name rand, unfolded made, OF p(1)])
  show ?thesis
  proof (cases "find (settles operation retry_on) [1..min 1025 n]")
    case None
    then show ?thesis using call p(1) bounds[of _ "min 1025 n - 1"] by (auto simp: giving_up_def made(2))
  next
    case (Some k)
    then show ?thesis using call p(1) bounds[of _ "k - 1"] find_upto_Some(3)[OF Some] by auto
  qed
qed

theorem call_with_retry_spec_witness:
  "\<exists>policy. RetryPolicy 3 (1 / 4) (1 / 2) 2 = Inr policy \<and>
     (\<exists>pauses. call_with_retry (\<lambda>i. if i < 3 then Inl TimeoutError else Inr i) policy (\<lambda>_. False) ''op'' (\<lambda>_. 1 / 2) = (Inr 3, pauses) \<and>
       length pauses = 2)"
proof -
  have f: "fl (1 / 2) = 1 / 2" "fl 2 = 2" using fl_dyadic[of 1 "-1"] fl_of_int[of 2] by (simp_all add: power_int_minus)
  have r: "RetryPolicy 3 (1 / 4) (1 / 2) 2 = Inr \<lparr>max_attempts = 3, attempt_timeout = 1 / 4, base_delay = 1 / 2, max_delay = 2\<rparr>"
    by (simp add: RetryPolicy_def)
  have u: "[1..3] = [1, 2, 3 :: int]" by (simp add: upto.simps)
  show ?thesis
    using r call_with_retry_spec[OF r f, where rand = "\<lambda>_. 1 / 2" and operation = "\<lambda>i. if i < 3 then Inl TimeoutError else Inr i"
      and retry_on = "\<lambda>_. False" and name = "''op''"]
    by (auto simp: settles_def retryable_def u)
qed

end
