(* ===== verification/Cache.thy ===== *)
theory Cache
  imports Config Resilience "HOL-Library.AList"
begin

text \<open>
  \<open>cache.py\<close> and the part of Redis the program uses. The server is a map from keys
  to a string or a hash with an optional expiry; every command takes the fault that
  hits it: none, a failure before the server acted, or one after it (the reply was
  lost). Texts that \<open>repr(float)\<close> and \<open>isoformat()\<close> produce are kept as the value
  they denote, so reading them back is exact, as Python guarantees; \<open>Text\<close> is any
  other text. The JSON a pydantic adapter produces is a parameter \<open>dump\<close>.
\<close>

section \<open>The server\<close>

datatype redis_text = Text string | Float_repr rat | Iso instant

datatype redis_value = Str string | Hash "(string \<times> redis_text) list"

record redis_entry =
  e_value :: redis_value
  e_expires :: "instant option"

type_synonym redis = "string \<rightharpoonup> redis_entry"

datatype fault = No_fault | Before exn | After exn

fun fault_exn :: "fault \<Rightarrow> exn option" where
  "fault_exn No_fault = None"
| "fault_exn (Before e) = Some e"
| "fault_exn (After e) = Some e"

definition RedisError :: "exn \<Rightarrow> bool" where
  "RedisError e = (e = RedisConnectionError \<or> e = RedisTimeoutError \<or> e = RedisResponseError)"

definition live :: "redis \<Rightarrow> string \<Rightarrow> instant \<Rightarrow> redis_value option" where
  "live r key now = (case r key of
       None \<Rightarrow> None
     | Some e \<Rightarrow> (case e_expires e of
          None \<Rightarrow> Some (e_value e)
        | Some t \<Rightarrow> if t \<le> now then None else Some (e_value e)))"

definition seconds :: "int \<Rightarrow> int" where
  "seconds n = n * 10 ^ 6"

text \<open>A read: any fault loses the answer.\<close>

definition redis_get :: "fault \<Rightarrow> redis \<Rightarrow> string \<Rightarrow> instant \<Rightarrow> string option result" where
  "redis_get f r key now = (case fault_exn f of
       Some e \<Rightarrow> Inl e
     | None \<Rightarrow> (case live r key now of
          None \<Rightarrow> Inr None
        | Some (Str s) \<Rightarrow> Inr (Some s)
        | Some (Hash _) \<Rightarrow> Inl RedisResponseError))"

text \<open>A write: the server acts unless the fault came before it; the reply is an error if there was one.\<close>

definition redis_write :: "fault \<Rightarrow> (redis \<Rightarrow> 'a result \<times> redis) \<Rightarrow> redis \<Rightarrow> 'a result \<times> redis" where
  "redis_write f act r = (case f of
       No_fault \<Rightarrow> act r
     | Before e \<Rightarrow> (Inl e, r)
     | After e \<Rightarrow> (Inl e, snd (act r)))"

definition redis_set :: "fault \<Rightarrow> redis \<Rightarrow> string \<Rightarrow> string \<Rightarrow> int \<Rightarrow> instant \<Rightarrow> unit result \<times> redis" where
  "redis_set f r key s ex now = redis_write f (\<lambda>r.
     if ex \<le> 0 then (Inl RedisResponseError, r)
     else (Inr (), r(key \<mapsto> \<lparr>e_value = Str s, e_expires = Some (now + seconds ex)\<rparr>))) r"

definition redis_delete :: "fault \<Rightarrow> redis \<Rightarrow> string list \<Rightarrow> unit result \<times> redis" where
  "redis_delete f r ks = redis_write f (\<lambda>r. (Inr (), fold (\<lambda>k r. r(k := None)) ks r)) r"

section \<open>The list cache\<close>

definition STATIONS_LIST_KEY :: string where "STATIONS_LIST_KEY = ''cache:stations:list''"
definition VEHICLES_LIST_KEY :: string where "VEHICLES_LIST_KEY = ''cache:vehicles:list''"

definition get_retry_policy :: "settings \<Rightarrow> retry_policy option result" where
  "get_retry_policy s =
     (if \<not> resilience_enabled s then Inr None
      else bind_result (RetryPolicy (redis_retry_max_attempts s) (fl (of_int (redis_attempt_timeout_ms s) / 1000))
             (fl (of_int (redis_retry_base_delay_ms s) / 1000)) (fl (of_int (redis_retry_max_delay_ms s) / 1000)))
             (\<lambda>p. Inr (Some p)))"

definition read_through_json ::
  "settings \<Rightarrow> fault \<Rightarrow> fault \<Rightarrow> redis \<Rightarrow> string \<Rightarrow> ('a list \<Rightarrow> string) \<Rightarrow> 'a list \<Rightarrow> instant \<Rightarrow> string result \<times> redis" where
  "read_through_json s f_get f_set r key dump loaded now =
     (if \<not> list_cache_enabled s then (Inr (dump loaded), r)
      else
        let cached = (case redis_get f_get r key now of
              Inl e \<Rightarrow> if RedisError e then Inr None else Inl e
            | Inr c \<Rightarrow> Inr c)
        in case cached of
             Inl e \<Rightarrow> (Inl e, r)
           | Inr (Some body) \<Rightarrow> (Inr body, r)
           | Inr None \<Rightarrow>
               let payload = dump loaded
               in case redis_set f_set r key payload (list_cache_ttl_seconds s) now of
                    (Inl e, r') \<Rightarrow> if RedisError e then (Inr payload, r') else (Inl e, r')
                  | (Inr _, r') \<Rightarrow> (Inr payload, r'))"

definition invalidate :: "fault \<Rightarrow> redis \<Rightarrow> string list \<Rightarrow> unit result \<times> redis" where
  "invalidate f r ks = (case redis_delete f r ks of
       (Inl e, r') \<Rightarrow> if RedisError e then (Inr (), r') else (Inl e, r')
     | (Inr _, r') \<Rightarrow> (Inr (), r'))"

section \<open>Coherence\<close>

definition redis_fault :: "fault \<Rightarrow> bool" where
  "redis_fault f = (case fault_exn f of None \<Rightarrow> True | Some e \<Rightarrow> RedisError e)"

text \<open>The entry is missing, expired, or the given text.\<close>

definition coherent :: "redis \<Rightarrow> string \<Rightarrow> string \<Rightarrow> instant \<Rightarrow> bool" where
  "coherent r key body now = (live r key now = None \<or> live r key now = Some (Str body))"

text \<open>A key of the list cache: strings only, each of which expires within the TTL.\<close>

definition ttl_bounded :: "int \<Rightarrow> redis \<Rightarrow> string \<Rightarrow> instant \<Rightarrow> bool" where
  "ttl_bounded ttl r key now = (case r key of
       None \<Rightarrow> True
     | Some e \<Rightarrow> (\<exists>body. e_value e = Str body) \<and> (case e_expires e of None \<Rightarrow> False | Some t \<Rightarrow> t \<le> now + seconds ttl))"

lemma ttl_bounded_gone: "ttl_bounded ttl r key now \<Longrightarrow> live r key (now + seconds ttl) = None"
  by (auto simp: ttl_bounded_def live_def split: option.splits)

lemma live_mono: "live r key now' = Some v \<Longrightarrow> now \<le> now' \<Longrightarrow> live r key now = Some v"
  by (auto simp: live_def split: option.splits if_splits)

lemma coherent_later: "coherent r key body now \<Longrightarrow> now \<le> now' \<Longrightarrow> coherent r key body now'"
  unfolding coherent_def using live_mono[of r key now' _ now] by (cases "live r key now'") auto

lemma fold_delete: "fold (\<lambda>k r. r(k := None)) ks r key = (if key \<in> set ks then None else r key)"
  by (induction ks arbitrary: r) auto

lemma redis_set_cases:
  assumes "redis_fault f"
  obtains (stored) res where "redis_set f r key s ex now = (res, r(key \<mapsto> \<lparr>e_value = Str s, e_expires = Some (now + seconds ex)\<rparr>))"
      "\<And>e. res = Inl e \<Longrightarrow> RedisError e" "0 < ex"
  | (kept) e where "redis_set f r key s ex now = (Inl e, r)" "RedisError e"
  using assms
  by (cases f; cases "ex \<le> 0")
     (auto simp: redis_set_def redis_write_def redis_fault_def RedisError_def)

lemma read_through_spec:
  assumes "redis_fault f_get" "redis_fault f_set"
  shows "\<exists>body r'. read_through_json s f_get f_set r key dump loaded now = (Inr body, r') \<and>
    (body = dump loaded \<or> live r key now = Some (Str body)) \<and>
    (r' = r \<or> (body = dump loaded \<and> 0 < list_cache_ttl_seconds s \<and>
      r' = r(key \<mapsto> \<lparr>e_value = Str body, e_expires = Some (now + seconds (list_cache_ttl_seconds s))\<rparr>)))"
proof -
  let ?set = "redis_set f_set r key (dump loaded) (list_cache_ttl_seconds s) now"
  have set: "(case ?set of (Inl e, r') \<Rightarrow> if RedisError e then (Inr (dump loaded), r') else (Inl e, r') | (Inr _, r') \<Rightarrow> (Inr (dump loaded), r')) =
      (Inr (dump loaded), snd ?set) \<and>
    (snd ?set = r \<or> 0 < list_cache_ttl_seconds s \<and>
      snd ?set = r(key \<mapsto> \<lparr>e_value = Str (dump loaded), e_expires = Some (now + seconds (list_cache_ttl_seconds s))\<rparr>))"
    by (rule redis_set_cases[OF assms(2), of r key "dump loaded" "list_cache_ttl_seconds s" now])
       (auto split: sum.splits)
  have get: "redis_get f_get r key now = Inr None \<or> (\<exists>e. redis_get f_get r key now = Inl e \<and> RedisError e) \<or>
      (\<exists>body. redis_get f_get r key now = Inr (Some body) \<and> live r key now = Some (Str body))"
    using assms(1) by (auto simp: redis_get_def redis_fault_def RedisError_def split: option.splits redis_value.splits)
  show ?thesis using get set by (auto simp: read_through_json_def Let_def)
qed

lemma invalidate_spec:
  assumes "redis_fault f"
  shows "\<exists>r'. invalidate f r ks = (Inr (), r') \<and>
    (r' = r \<and> f \<noteq> No_fault \<or> r' = fold (\<lambda>k r. r(k := None)) ks r)"
  using assms by (cases f) (auto simp: invalidate_def redis_delete_def redis_write_def redis_fault_def)

section \<open>Properties\<close>

text \<open>
  C27: the list cache is an optimisation only. Whatever Redis error hits either
  command, a list request returns (never raises); if the stored entry is missing,
  expired or current, the answer is the current list and the entry is still
  missing, expired or current at any later time. A successful invalidation
  establishes that for every list, so a write followed by its invalidation is seen
  by the next read.
\<close>

theorem read_through_current:
  assumes "redis_fault f_get" and "redis_fault f_set" and "coherent r key (dump loaded) now" and "now \<le> later"
  shows "\<exists>r'. read_through_json s f_get f_set r key dump loaded now = (Inr (dump loaded), r') \<and>
    coherent r' key (dump loaded) later \<and>
    (\<exists>r''. invalidate No_fault r' [key] = (Inr (), r'') \<and> coherent r'' key (dump newer) later)"
proof -
  obtain body r' where r: "read_through_json s f_get f_set r key dump loaded now = (Inr body, r')"
    "body = dump loaded \<or> live r key now = Some (Str body)"
    "r' = r \<or> (body = dump loaded \<and> 0 < list_cache_ttl_seconds s \<and>
      r' = r(key \<mapsto> \<lparr>e_value = Str body, e_expires = Some (now + seconds (list_cache_ttl_seconds s))\<rparr>))"
    using read_through_spec[OF assms(1,2)] by blast
  have body: "body = dump loaded" using r(2) assms(3) by (auto simp: coherent_def)
  have "coherent r' key (dump loaded) later"
  proof (cases "r' = r")
    case True
    then show ?thesis using coherent_later[OF assms(3,4)] by simp
  next
    case False
    then show ?thesis using r(3) body by (auto simp: coherent_def live_def)
  qed
  moreover obtain r'' where "invalidate No_fault r' [key] = (Inr (), r'')" "r'' = fold (\<lambda>k r. r(k := None)) [key] r'"
    using invalidate_spec[of No_fault r' "[key]"] by (auto simp: redis_fault_def)
  ultimately show ?thesis using r(1) body by (auto simp: coherent_def live_def)
qed

theorem read_through_current_witness:
  "\<exists>r'. read_through_json (default_settings ''x'') No_fault (After RedisTimeoutError) Map.empty STATIONS_LIST_KEY (\<lambda>xs. ''[]'') ([] :: int list) 5 =
     (Inr ''[]'', r') \<and> coherent r' STATIONS_LIST_KEY ''[]'' 9"
  using read_through_current[of No_fault "After RedisTimeoutError" Map.empty STATIONS_LIST_KEY "\<lambda>xs. ''[]''" "[] :: int list" 5 9
      "default_settings ''x''" "[]"]
  by (auto simp: redis_fault_def RedisError_def coherent_def live_def)

datatype cache_op = List_request fault fault string instant | Invalidation fault instant

fun op_time :: "cache_op \<Rightarrow> instant" where
  "op_time (List_request _ _ _ t) = t"
| "op_time (Invalidation _ t) = t"

fun cache_run :: "settings \<Rightarrow> string \<Rightarrow> cache_op \<Rightarrow> redis \<Rightarrow> redis" where
  "cache_run s key (List_request f g body t) r = snd (read_through_json s f g r key (\<lambda>_. body) ([] :: unit list) t)"
| "cache_run s key (Invalidation f t) r = snd (invalidate f r [key])"

lemma redis_set_bounded:
  "ttl_bounded ex r key now \<Longrightarrow> ttl_bounded ex (snd (redis_set f r key b ex now)) key now"
  by (cases f) (auto simp: redis_set_def redis_write_def ttl_bounded_def)

lemma cache_run_bounded:
  assumes "ttl_bounded (list_cache_ttl_seconds s) r key now" "now \<le> op_time x"
  shows "ttl_bounded (list_cache_ttl_seconds s) (cache_run s key x r) key (op_time x)"
proof -
  have later: "ttl_bounded (list_cache_ttl_seconds s) r key (op_time x)"
    using assms by (auto simp: ttl_bounded_def split: option.splits)
  show ?thesis
  proof (cases x)
    case (List_request f g b t)
    then show ?thesis using later redis_set_bounded[of "list_cache_ttl_seconds s" r key t g b]
      by (auto simp: read_through_json_def Let_def split: sum.splits option.splits prod.splits)
  next
    case (Invalidation f t)
    then show ?thesis using later
      by (cases f) (auto simp: invalidate_def redis_delete_def redis_write_def ttl_bounded_def)
  qed
qed

text \<open>
  The TTL bounds how long a stale list can be served, even when an
  invalidation was lost or a slow reader stored an old list after it. If an entry
  expires within the TTL from now, then after any sequence of list requests and
  invalidations of the key, with any faults and in any order, and with time only
  moving forward, it still does; and an entry nobody stores again is gone once the
  TTL has passed.
\<close>

lemma stale_list_expires:
  assumes "ttl_bounded (list_cache_ttl_seconds s) r key now" and "sorted (now # map op_time xs)"
    and "r' = fold (cache_run s key) xs r"
  shows "ttl_bounded (list_cache_ttl_seconds s) r' key (last (now # map op_time xs)) \<and>
    live r' key (last (now # map op_time xs) + seconds (list_cache_ttl_seconds s)) = None"
proof -
  have b: "ttl_bounded (list_cache_ttl_seconds s) (fold (cache_run s key) xs r) key (last (now # map op_time xs))"
    using assms(1,2)
  proof (induction xs arbitrary: r now)
    case Nil
    then show ?case by simp
  next
    case (Cons x xs)
    then have "ttl_bounded (list_cache_ttl_seconds s) (cache_run s key x r) key (op_time x)"
      by (intro cache_run_bounded) auto
    from Cons.IH[OF this] Cons.prems(2) show ?case by simp
  qed
  show ?thesis unfolding assms(3) using b ttl_bounded_gone[OF b] by (rule conjI)
qed

end
