(* ===== verification/Telemetry.thy ===== *)
theory Telemetry
  imports Cache
begin

text \<open>
  The telemetry pipeline: \<open>telemetry/schemas.py\<close> (field bounds),
  \<open>telemetry/processor.py\<close> (storing a reading, caching the newest state) and
  \<open>telemetry/worker.py\<close> (one message and what the broker is told about it). The
  JSON parser of pydantic is a parameter \<open>parse\<close> that gives the typed fields or
  nothing; a database fault is the exception the session raises instead of working.
\<close>

section \<open>Messages\<close>

record telemetry_message =
  tm_vehicle_id :: int
  tm_recorded_at :: instant
  tm_latitude :: rat
  tm_longitude :: rat
  tm_fuel_level :: rat
  tm_is_locked :: bool

definition telemetry_valid :: "telemetry_message \<Rightarrow> bool" where
  "telemetry_valid m =
     (0 < tm_vehicle_id m \<and> -90 \<le> tm_latitude m \<and> tm_latitude m \<le> 90 \<and> -180 \<le> tm_longitude m \<and> tm_longitude m \<le> 180 \<and>
      0 \<le> tm_fuel_level m \<and> tm_fuel_level m \<le> 100)"

definition model_validate_json :: "('b \<Rightarrow> telemetry_message option) \<Rightarrow> 'b \<Rightarrow> telemetry_message result" where
  "model_validate_json parse body = (case parse body of
       None \<Rightarrow> Inl ValidationError
     | Some m \<Rightarrow> if telemetry_valid m then Inr m else Inl ValidationError)"

definition vehicle_state_key :: "int \<Rightarrow> string" where
  "vehicle_state_key vehicle_id = ''vehicle:'' @ str_int vehicle_id @ '':state''"

section \<open>Storing and caching\<close>

text \<open>
  \<open>db.get\<close> by a key that comes from outside: the driver refuses a number that is
  not a 32-bit integer before it runs the query.
\<close>

definition db_get :: "('r \<Rightarrow> int) \<Rightarrow> 'r table \<Rightarrow> int \<Rightarrow> 'r option result" where
  "db_get pk t i = (if int4 i then Inr (get_row pk t i) else Inl DataError)"

definition new_reading :: "telemetry_message \<Rightarrow> int \<Rightarrow> telemetry_reading" where
  "new_reading m i = \<lparr>tr_id = i, tr_vehicle_id = tm_vehicle_id m, tr_recorded_at = tm_recorded_at m,
     tr_latitude = tm_latitude m, tr_longitude = tm_longitude m, tr_fuel_level = tm_fuel_level m, tr_is_locked = tm_is_locked m\<rparr>"

definition same_reading :: "telemetry_message \<Rightarrow> telemetry_reading \<Rightarrow> bool" where
  "same_reading m r = (tr_vehicle_id r = tm_vehicle_id m \<and> tr_recorded_at r = tm_recorded_at m)"

definition save_reading :: "exn option \<Rightarrow> database \<Rightarrow> telemetry_message \<Rightarrow> bool result \<times> database" where
  "save_reading f_db db m = (case f_db of
       Some e \<Rightarrow> (Inl e, db)
     | None \<Rightarrow> (case db_get v_id (vehicles db) (tm_vehicle_id m) of
          Inl e \<Rightarrow> (Inl e, db)
        | Inr None \<Rightarrow> (Inl (NotFoundError (''Vehicle '' @ str_int (tm_vehicle_id m) @ '' not found'')), db)
        | Inr (Some _) \<Rightarrow>
            if list_ex (same_reading m) (rows (telemetry_readings db))
            then (Inr False, db\<lparr>telemetry_readings := burn_id (telemetry_readings db)\<rparr>)
            else (Inr True, db\<lparr>telemetry_readings := append_row (new_reading m) (telemetry_readings db)\<rparr>)))"

definition redis_hgetall :: "fault \<Rightarrow> redis \<Rightarrow> string \<Rightarrow> instant \<Rightarrow> (string \<times> redis_text) list result" where
  "redis_hgetall f r key now = (case fault_exn f of
       Some e \<Rightarrow> Inl e
     | None \<Rightarrow> (case live r key now of
          None \<Rightarrow> Inr []
        | Some (Hash h) \<Rightarrow> Inr h
        | Some (Str _) \<Rightarrow> Inl RedisResponseError))"

definition redis_hget :: "fault \<Rightarrow> redis \<Rightarrow> string \<Rightarrow> string \<Rightarrow> instant \<Rightarrow> redis_text option result" where
  "redis_hget f r key field now = bind_result (redis_hgetall f r key now) (\<lambda>h. Inr (map_of h field))"

definition redis_hset :: "fault \<Rightarrow> redis \<Rightarrow> string \<Rightarrow> (string \<times> redis_text) list \<Rightarrow> instant \<Rightarrow> unit result \<times> redis" where
  "redis_hset f r key mapping now = redis_write f (\<lambda>r. case live r key now of
       None \<Rightarrow> (Inr (), r(key \<mapsto> \<lparr>e_value = Hash mapping, e_expires = None\<rparr>))
     | Some (Hash h) \<Rightarrow> (Inr (), r(key \<mapsto> \<lparr>e_value = Hash (AList.merge h mapping), e_expires = (case r key of None \<Rightarrow> None | Some e \<Rightarrow> e_expires e)\<rparr>))
     | Some (Str _) \<Rightarrow> (Inl RedisResponseError, r)) r"

definition fromisoformat :: "redis_text \<Rightarrow> instant result" where
  "fromisoformat t = (case t of Iso i \<Rightarrow> Inr i | _ \<Rightarrow> Inl (ValueError ''Invalid isoformat string''))"

definition state_fields :: "telemetry_message \<Rightarrow> (string \<times> redis_text) list" where
  "state_fields m =
     [(''recorded_at'', Iso (tm_recorded_at m)), (''latitude'', Float_repr (tm_latitude m)),
      (''longitude'', Float_repr (tm_longitude m)), (''fuel_level'', Float_repr (tm_fuel_level m)),
      (''is_locked'', Text (if tm_is_locked m then ''1'' else ''0''))]"

definition update_vehicle_state :: "fault \<Rightarrow> fault \<Rightarrow> redis \<Rightarrow> telemetry_message \<Rightarrow> instant \<Rightarrow> bool result \<times> redis" where
  "update_vehicle_state f_get f_set r m now =
     (let key = vehicle_state_key (tm_vehicle_id m);
          newer = bind_result (redis_hget f_get r key ''recorded_at'' now) (\<lambda>cached_at. case cached_at of
              None \<Rightarrow> Inr True
            | Some t \<Rightarrow> bind_result (fromisoformat t) (\<lambda>i. Inr (\<not> tm_recorded_at m \<le> i)))
      in case newer of
           Inl e \<Rightarrow> (Inl e, r)
         | Inr False \<Rightarrow> (Inr False, r)
         | Inr True \<Rightarrow> (case redis_hset f_set r key (state_fields m) now of
              (Inl e, r') \<Rightarrow> (Inl e, r')
            | (Inr _, r') \<Rightarrow> (Inr True, r')))"

section \<open>The worker\<close>

datatype disposition = Ack | Reject | Nack_requeue

record faults =
  f_db :: "exn option"
  f_hget :: fault
  f_hset :: fault

definition no_faults :: faults where
  "no_faults = \<lparr>f_db = None, f_hget = No_fault, f_hset = No_fault\<rparr>"

definition handle_message ::
  "('b \<Rightarrow> telemetry_message option) \<Rightarrow> faults \<Rightarrow> 'b \<Rightarrow> instant \<Rightarrow> database \<times> redis \<Rightarrow> disposition \<times> database \<times> redis" where
  "handle_message parse f body now st =
     (case model_validate_json parse body of
        Inl _ \<Rightarrow> (Reject, st)
      | Inr m \<Rightarrow>
          (case save_reading (f_db f) (fst st) m of
             (Inl (NotFoundError _), db) \<Rightarrow> (Reject, db, snd st)
           | (Inl _, db) \<Rightarrow> (Nack_requeue, db, snd st)
           | (Inr _, db) \<Rightarrow>
               (case update_vehicle_state (f_hget f) (f_hset f) (snd st) m now of
                  (Inl (NotFoundError _), r) \<Rightarrow> (Reject, db, r)
                | (Inl _, r) \<Rightarrow> (Nack_requeue, db, r)
                | (Inr _, r) \<Rightarrow> (Ack, db, r))))"

definition CONNECT_ATTEMPTS :: nat where
  "CONNECT_ATTEMPTS = 10"

text \<open>
  \<open>connect_rabbitmq\<close> over the outcomes of its attempts, with the number of pauses.
\<close>

fun connect_loop :: "(nat \<Rightarrow> 'c result) \<Rightarrow> nat \<Rightarrow> nat \<Rightarrow> 'c result \<times> nat" where
  "connect_loop attempt_connect 0 attempt =
     (Inl (RuntimeError (''Could not connect to RabbitMQ after '' @ str_nat CONNECT_ATTEMPTS @ '' attempts'')), 0)"
| "connect_loop attempt_connect (Suc left) attempt =
     (case attempt_connect attempt of
        Inr c \<Rightarrow> (Inr c, 0)
      | Inl OSError \<Rightarrow> (case connect_loop attempt_connect left (attempt + 1) of (res, pauses) \<Rightarrow> (res, pauses + 1))
      | Inl e \<Rightarrow> (Inl e, 0))"

definition connect_rabbitmq :: "(nat \<Rightarrow> 'c result) \<Rightarrow> 'c result \<times> nat" where
  "connect_rabbitmq attempt_connect = connect_loop attempt_connect CONNECT_ATTEMPTS 1"

section \<open>The pipeline invariant\<close>

definition reading_key :: "telemetry_reading \<Rightarrow> int \<times> instant" where
  "reading_key r = (tr_vehicle_id r, tr_recorded_at r)"

text \<open>
  The stored readings are unique per vehicle and instant, and what the cache holds
  for a vehicle is the state of a message for that vehicle whose instant is stored.
\<close>

definition readings_ok :: "database \<Rightarrow> bool" where
  "readings_ok db = (wf_table tr_id (telemetry_readings db) \<and> distinct (map reading_key (rows (telemetry_readings db))))"

definition entry_of :: "telemetry_message \<Rightarrow> redis_entry" where
  "entry_of m = \<lparr>e_value = Hash (state_fields m), e_expires = None\<rparr>"

definition stored_at :: "database \<Rightarrow> int \<Rightarrow> instant \<Rightarrow> bool" where
  "stored_at db v t = list_ex (\<lambda>r. reading_key r = (v, t)) (rows (telemetry_readings db))"

definition cache_ok :: "database \<Rightarrow> redis \<Rightarrow> bool" where
  "cache_ok db r = (\<forall>v. r (vehicle_state_key v) = None \<or>
     (\<exists>m. r (vehicle_state_key v) = Some (entry_of m) \<and> tm_vehicle_id m = v \<and> stored_at db v (tm_recorded_at m)))"

definition cached_at :: "redis \<Rightarrow> int \<Rightarrow> instant option" where
  "cached_at r v = (case r (vehicle_state_key v) of
       None \<Rightarrow> None
     | Some e \<Rightarrow> (case (e_value e, e_expires e) of
          (Hash h, None) \<Rightarrow> (case map_of h ''recorded_at'' of Some (Iso t) \<Rightarrow> Some t | _ \<Rightarrow> None)
        | _ \<Rightarrow> None))"

lemma vehicle_state_key_inj [simp]: "vehicle_state_key i = vehicle_state_key j \<longleftrightarrow> i = j"
  by (simp add: vehicle_state_key_def str_int_inj)

lemma reading_of_message [simp]:
  "tr_id (new_reading m i) = i" "tr_vehicle_id (new_reading m i) = tm_vehicle_id m"
  "tr_recorded_at (new_reading m i) = tm_recorded_at m" "reading_key (new_reading m i) = (tm_vehicle_id m, tm_recorded_at m)"
  by (simp_all add: new_reading_def reading_key_def)

lemma state_recorded [simp]: "map_of (state_fields m) ''recorded_at'' = Some (Iso (tm_recorded_at m))"
  by (simp add: state_fields_def)

lemma state_override [simp]: "AList.merge (state_fields m') (state_fields m) = state_fields m"
  by (simp add: state_fields_def AList.merge_def)

lemma cached_at_entry:
  "r (vehicle_state_key v) = None \<Longrightarrow> cached_at r v = None"
  "r (vehicle_state_key v) = Some (entry_of m) \<Longrightarrow> cached_at r v = Some (tm_recorded_at m)"
  by (simp_all add: cached_at_def entry_of_def)

lemma live_entry:
  "r key = None \<Longrightarrow> live r key now = None"
  "r key = Some (entry_of m) \<Longrightarrow> live r key now = Some (Hash (state_fields m))"
  by (simp_all add: live_def entry_of_def)

lemma save_reading_cases:
  obtains (failed) e where "save_reading f db m = (Inl e, db)" "f = Some e \<or> (f = None \<and> \<not> int4 (tm_vehicle_id m) \<and> e = DataError)"
  | (unknown) msg where "save_reading f db m = (Inl (NotFoundError msg), db)" "f = None" "\<not> has_id v_id (vehicles db) (tm_vehicle_id m)"
  | (duplicate) "save_reading f db m = (Inr False, db\<lparr>telemetry_readings := burn_id (telemetry_readings db)\<rparr>)"
      "has_id v_id (vehicles db) (tm_vehicle_id m)" "stored_at db (tm_vehicle_id m) (tm_recorded_at m)"
  | (stored) "save_reading f db m = (Inr True, db\<lparr>telemetry_readings := append_row (new_reading m) (telemetry_readings db)\<rparr>)"
      "has_id v_id (vehicles db) (tm_vehicle_id m)" "\<not> stored_at db (tm_vehicle_id m) (tm_recorded_at m)"
proof -
  have dup: "list_ex (same_reading m) (rows (telemetry_readings db)) \<longleftrightarrow>
      stored_at db (tm_vehicle_id m) (tm_recorded_at m)"
    by (auto simp: list_ex_iff same_reading_def reading_key_def stored_at_def)
  show ?thesis
  proof (cases f)
    case (Some e)
    then show ?thesis using failed[of e] by (simp add: save_reading_def)
  next
    case None
    show ?thesis
    proof (cases "int4 (tm_vehicle_id m)")
      case False
      then show ?thesis using failed[of DataError] None by (simp add: save_reading_def db_get_def)
    next
      case True
      show ?thesis
      proof (cases "get_row v_id (vehicles db) (tm_vehicle_id m)")
        case None
        then show ?thesis using unknown \<open>f = None\<close> True by (simp add: save_reading_def db_get_def get_row_has_id)
      next
        case (Some v)
        then show ?thesis using duplicate stored None True dup
          by (cases "list_ex (same_reading m) (rows (telemetry_readings db))")
             (auto simp: save_reading_def db_get_def get_row_has_id)
      qed
    qed
  qed
qed

lemma update_cases:
  assumes "cache_ok db r"
  obtains (kept) e where "update_vehicle_state f g r m now = (Inl e, r)" "fault_exn f = Some e \<or> fault_exn g = Some e"
  | (old) t where "update_vehicle_state f g r m now = (Inr False, r)" "cached_at r (tm_vehicle_id m) = Some t" "tm_recorded_at m \<le> t"
  | (written) res where "update_vehicle_state f g r m now = (res, r(vehicle_state_key (tm_vehicle_id m) \<mapsto> entry_of m))"
      "\<And>t. cached_at r (tm_vehicle_id m) = Some t \<Longrightarrow> t < tm_recorded_at m" "res = Inr True \<or> (\<exists>e. res = Inl e \<and> fault_exn g = Some e)"
proof -
  let ?k = "vehicle_state_key (tm_vehicle_id m)"
  have hset: "(\<exists>e. redis_hset g r ?k (state_fields m) now = (Inl e, r) \<and> fault_exn g = Some e) \<or>
      (\<exists>res. redis_hset g r ?k (state_fields m) now = (res, r(?k \<mapsto> entry_of m)) \<and> (res = Inr () \<or> (\<exists>e. res = Inl e \<and> fault_exn g = Some e)))"
    if "r ?k = None \<or> r ?k = Some (entry_of m')" for m'
    using that by (cases g) (auto simp: redis_hset_def redis_write_def live_entry, auto simp: entry_of_def)
  show ?thesis
  proof (cases "fault_exn f")
    case (Some e)
    then show ?thesis using kept[of e] by (simp add: update_vehicle_state_def redis_hget_def redis_hgetall_def Let_def)
  next
    case None
    consider "r ?k = None" | m' where "r ?k = Some (entry_of m')" using assms unfolding cache_ok_def by metis
    then show ?thesis
    proof cases
      case 1
      then show ?thesis using None hset[of m] kept written
        by (auto simp: update_vehicle_state_def redis_hget_def redis_hgetall_def live_entry cached_at_entry Let_def)
    next
      case 2
      show ?thesis
      proof (cases "tm_recorded_at m \<le> tm_recorded_at m'")
        case True
        then show ?thesis using 2 None old[of "tm_recorded_at m'"]
          by (simp add: update_vehicle_state_def redis_hget_def redis_hgetall_def live_entry cached_at_entry fromisoformat_def Let_def)
      next
        case False
        then show ?thesis using 2 None hset[of m'] kept written
          by (auto simp: update_vehicle_state_def redis_hget_def redis_hgetall_def live_entry cached_at_entry fromisoformat_def Let_def)
      qed
    qed
  qed
qed

lemma save_ok:
  assumes "readings_ok db" "save_reading f db m = (res, db')"
  shows "readings_ok db'" "stored_at db v t \<Longrightarrow> stored_at db' v t"
    "res = Inr b \<Longrightarrow> stored_at db' (tm_vehicle_id m) (tm_recorded_at m)" "vehicles db' = vehicles db"
proof -
  have "readings_ok db' \<and> (stored_at db v t \<longrightarrow> stored_at db' v t) \<and>
      (res = Inr b \<longrightarrow> stored_at db' (tm_vehicle_id m) (tm_recorded_at m)) \<and> vehicles db' = vehicles db"
    by (rule save_reading_cases[of f db m])
       (use assms in \<open>auto simp: readings_ok_def stored_at_def rows_append rows_burn wf_table_append wf_table_burn list_ex_iff\<close>)
  then show "readings_ok db'" "stored_at db v t \<Longrightarrow> stored_at db' v t"
    "res = Inr b \<Longrightarrow> stored_at db' (tm_vehicle_id m) (tm_recorded_at m)" "vehicles db' = vehicles db" by blast+
qed

lemma update_ok:
  assumes "cache_ok db r" "stored_at db (tm_vehicle_id m) (tm_recorded_at m)" "update_vehicle_state f g r m now = (res, r')"
  shows "cache_ok db r'" "cached_at r v = Some t \<Longrightarrow> \<exists>t'. cached_at r' v = Some t' \<and> t \<le> t'"
    "res = Inr b \<Longrightarrow> \<exists>t'. cached_at r' (tm_vehicle_id m) = Some t' \<and> tm_recorded_at m \<le> t'"
proof -
  have "cache_ok db r' \<and> (cached_at r v = Some t \<longrightarrow> (\<exists>t'. cached_at r' v = Some t' \<and> t \<le> t')) \<and>
      (res = Inr b \<longrightarrow> (\<exists>t'. cached_at r' (tm_vehicle_id m) = Some t' \<and> tm_recorded_at m \<le> t'))"
  proof (rule update_cases[OF assms(1), of f g m now])
    fix res'
    let ?r = "r(vehicle_state_key (tm_vehicle_id m) \<mapsto> entry_of m)"
    assume w: "update_vehicle_state f g r m now = (res', ?r)" and lt: "\<And>t. cached_at r (tm_vehicle_id m) = Some t \<Longrightarrow> t < tm_recorded_at m"
    have r': "r' = ?r" using w assms(3) by simp
    have "cache_ok db ?r" using assms(1,2) by (auto simp: cache_ok_def)
    moreover have c: "cached_at ?r (tm_vehicle_id m) = Some (tm_recorded_at m)" by (rule cached_at_entry) simp
    moreover have "cached_at ?r v = cached_at r v" if "v \<noteq> tm_vehicle_id m" using that by (simp add: cached_at_def)
    ultimately show ?thesis unfolding r' using lt by (cases "v = tm_vehicle_id m") (auto intro: less_imp_le)
  qed (use assms in auto)
  then show "cache_ok db r'" "cached_at r v = Some t \<Longrightarrow> \<exists>t'. cached_at r' v = Some t' \<and> t \<le> t'"
    "res = Inr b \<Longrightarrow> \<exists>t'. cached_at r' (tm_vehicle_id m) = Some t' \<and> tm_recorded_at m \<le> t'" by blast+
qed

lemma cache_ok_mono: "cache_ok db r \<Longrightarrow> (\<And>v t. stored_at db v t \<Longrightarrow> stored_at db' v t) \<Longrightarrow> cache_ok db' r"
  unfolding cache_ok_def by blast

text \<open>What one message does, whatever fails on the way.\<close>

lemma handle_message_ok:
  assumes "readings_ok db" "cache_ok db r" "handle_message parse f body now (db, r) = (d, db', r')"
  shows "readings_ok db' \<and> cache_ok db' r' \<and> (stored_at db v t \<longrightarrow> stored_at db' v t) \<and>
    (cached_at r v = Some t \<longrightarrow> (\<exists>t'. cached_at r' v = Some t' \<and> t \<le> t')) \<and>
    (d = Ack \<longrightarrow> (\<exists>m. model_validate_json parse body = Inr m \<and> stored_at db' (tm_vehicle_id m) (tm_recorded_at m) \<and>
      (\<exists>t'. cached_at r' (tm_vehicle_id m) = Some t' \<and> tm_recorded_at m \<le> t')))"
proof (cases "model_validate_json parse body")
  case (Inl e)
  then show ?thesis using assms by (auto simp: handle_message_def)
next
  case (Inr m)
  obtain sres db1 where s: "save_reading (f_db f) db m = (sres, db1)" by (cases "save_reading (f_db f) db m")
  have ok1: "readings_ok db1" and mono: "\<And>v t. stored_at db v t \<Longrightarrow> stored_at db1 v t"
    using save_ok[OF assms(1) s] by blast+
  have c1: "cache_ok db1 r" using assms(2) mono by (rule cache_ok_mono)
  show ?thesis
  proof (cases sres)
    case (Inl e)
    then have "db' = db1" "r' = r" "d \<noteq> Ack" using assms(3) Inr s by (cases e; auto simp: handle_message_def)+
    then show ?thesis using ok1 c1 mono by auto
  next
    case b: (Inr b)
    obtain ures r1 where u: "update_vehicle_state (f_hget f) (f_hset f) r m now = (ures, r1)"
      by (cases "update_vehicle_state (f_hget f) (f_hset f) r m now")
    have st: "stored_at db1 (tm_vehicle_id m) (tm_recorded_at m)" using save_ok(3)[OF assms(1) s b] .
    have "db' = db1" "r' = r1" "d = Ack \<Longrightarrow> \<exists>x. ures = Inr x"
      using assms(3) Inr s b u by (auto simp: handle_message_def split: sum.splits exn.splits)
    then show ?thesis using ok1 mono st Inr update_ok[OF c1 st u] by auto
  qed
qed

definition pipeline_step :: "('b \<Rightarrow> telemetry_message option) \<Rightarrow> database \<times> redis \<Rightarrow> database \<times> redis \<Rightarrow> bool" where
  "pipeline_step parse st st' = (\<exists>f body now. snd (handle_message parse f body now st) = st')"

interpretation pipeline: transition_system "pipeline_step parse" "\<lambda>st. readings_ok (fst st) \<and> cache_ok (fst st) (snd st)" for parse
proof
  fix st st' :: "database \<times> redis"
  assume inv: "readings_ok (fst st) \<and> cache_ok (fst st) (snd st)" and "pipeline_step parse st st'"
  then obtain f body now where h: "snd (handle_message parse f body now st) = st'" by (auto simp: pipeline_step_def)
  obtain d db' r' where m: "handle_message parse f body now (fst st, snd st) = (d, db', r')" by (metis prod_cases3)
  have "readings_ok db' \<and> cache_ok db' r'"
    using handle_message_ok[of "fst st" "snd st", OF _ _ m] inv by blast
  then show "readings_ok (fst st') \<and> cache_ok (fst st') (snd st')" using m h by auto
qed

fun handle_all ::
  "('b \<Rightarrow> telemetry_message option) \<Rightarrow> (faults \<times> 'b \<times> instant) list \<Rightarrow> database \<times> redis \<Rightarrow> disposition list \<times> database \<times> redis" where
  "handle_all parse [] st = ([], st)"
| "handle_all parse ((f, body, now) # xs) st =
     (case handle_message parse f body now st of (d, st1) \<Rightarrow>
        (case handle_all parse xs st1 of (ds, st2) \<Rightarrow> (d # ds, st2)))"

lemma handle_all_ok:
  assumes "readings_ok db" "cache_ok db r" "handle_all parse xs (db, r) = (ds, db', r')"
  shows "readings_ok db' \<and> cache_ok db' r' \<and> length ds = length xs \<and>
    (\<forall>v t. stored_at db v t \<longrightarrow> stored_at db' v t) \<and>
    (\<forall>v t. cached_at r v = Some t \<longrightarrow> (\<exists>t'. cached_at r' v = Some t' \<and> t \<le> t')) \<and>
    (\<forall>i < length xs. ds ! i = Ack \<longrightarrow> (\<exists>m. model_validate_json parse (fst (snd (xs ! i))) = Inr m \<and>
       stored_at db' (tm_vehicle_id m) (tm_recorded_at m) \<and>
       (\<exists>t'. cached_at r' (tm_vehicle_id m) = Some t' \<and> tm_recorded_at m \<le> t')))"
  using assms
proof (induction xs arbitrary: db r ds)
  case Nil
  then show ?case by simp
next
  case (Cons x xs)
  obtain f body now where x: "x = (f, body, now)" by (cases x)
  obtain d db1 r1 where h: "handle_message parse f body now (db, r) = (d, db1, r1)" by (metis prod_cases3)
  obtain ds' db2 r2 where a: "handle_all parse xs (db1, r1) = (ds', db2, r2)" by (metis prod_cases3)
  have eq: "ds = d # ds'" "db' = db2" "r' = r2" using Cons.prems(3) x h a by simp_all
  note one = handle_message_ok[OF Cons.prems(1,2) h]
  have "readings_ok db1" "cache_ok db1 r1" using one by blast+
  note rest = Cons.IH[OF this a[folded eq(2,3)]]
  have ack: "\<exists>m. model_validate_json parse body = Inr m \<and> stored_at db' (tm_vehicle_id m) (tm_recorded_at m) \<and>
      (\<exists>t'. cached_at r' (tm_vehicle_id m) = Some t' \<and> tm_recorded_at m \<le> t')" if acked: "d = Ack"
  proof -
    obtain m t where "model_validate_json parse body = Inr m" "stored_at db1 (tm_vehicle_id m) (tm_recorded_at m)"
      "cached_at r1 (tm_vehicle_id m) = Some t" "tm_recorded_at m \<le> t" using one acked by blast
    then show ?thesis using rest order_trans by meson
  qed
  have "\<forall>i < length (x # xs). ds ! i = Ack \<longrightarrow> (\<exists>m. model_validate_json parse (fst (snd ((x # xs) ! i))) = Inr m \<and>
       stored_at db' (tm_vehicle_id m) (tm_recorded_at m) \<and>
       (\<exists>t'. cached_at r' (tm_vehicle_id m) = Some t' \<and> tm_recorded_at m \<le> t'))"
  proof (intro allI impI)
    fix i assume i: "i < length (x # xs)" "ds ! i = Ack"
    show "\<exists>m. model_validate_json parse (fst (snd ((x # xs) ! i))) = Inr m \<and>
       stored_at db' (tm_vehicle_id m) (tm_recorded_at m) \<and>
       (\<exists>t'. cached_at r' (tm_vehicle_id m) = Some t' \<and> tm_recorded_at m \<le> t')"
    proof (cases i)
      case 0
      then show ?thesis using i ack x eq(1) by simp
    next
      case (Suc j)
      then show ?thesis using i rest eq(1) by simp
    qed
  qed
  moreover have "(\<forall>v t. cached_at r v = Some t \<longrightarrow> (\<exists>t'. cached_at r' v = Some t' \<and> t \<le> t'))"
    using handle_message_ok[OF Cons.prems(1,2) h] rest order_trans by meson
  moreover have "\<forall>v t. stored_at db v t \<longrightarrow> stored_at db' v t"
    using handle_message_ok[OF Cons.prems(1,2) h] rest by blast
  ultimately show ?case using rest eq(1) by simp
qed

lemma count_key_one: "distinct (map key xs) \<Longrightarrow> x \<in> set xs \<Longrightarrow> length (filter (\<lambda>y. key y = key x) xs) = 1"
proof (induction xs)
  case (Cons y ys)
  then show ?case by (cases "x = y") (auto simp: filter_empty_conv image_iff)
qed simp

section \<open>Properties\<close>

text \<open>
  C7: at-least-once delivery loses nothing and the newest reading wins. Whatever
  faults hit a sequence of messages, in whatever order they arrive, every message
  the broker was told is done is stored, the cache of its vehicle is at least as
  new as the message and is itself a stored instant, the cache never moves back in
  time, and there is never more than one reading per vehicle and instant.
\<close>

theorem acked_telemetry_kept:
  assumes "readings_ok db" and "cache_ok db r" and "handle_all parse xs (db, r) = (ds, db', r')"
    and "i < length xs" and "ds ! i = Ack"
  shows "\<exists>m t. model_validate_json parse (fst (snd (xs ! i))) = Inr m \<and> stored_at db' (tm_vehicle_id m) (tm_recorded_at m) \<and>
    cached_at r' (tm_vehicle_id m) = Some t \<and> tm_recorded_at m \<le> t \<and> stored_at db' (tm_vehicle_id m) t \<and>
    distinct (map reading_key (rows (telemetry_readings db'))) \<and>
    (\<forall>v t. cached_at r v = Some t \<longrightarrow> (\<exists>t'. cached_at r' v = Some t' \<and> t \<le> t'))"
proof -
  note all = handle_all_ok[OF assms(1-3)]
  then obtain m t where m: "model_validate_json parse (fst (snd (xs ! i))) = Inr m" "stored_at db' (tm_vehicle_id m) (tm_recorded_at m)"
    "cached_at r' (tm_vehicle_id m) = Some t" "tm_recorded_at m \<le> t" using assms(4,5) by blast
  have "cache_ok db' r'" using all by blast
  then obtain m' where "r' (vehicle_state_key (tm_vehicle_id m)) = Some (entry_of m')" "stored_at db' (tm_vehicle_id m) (tm_recorded_at m')"
    using m(3) cached_at_entry(1) unfolding cache_ok_def by (metis option.distinct(1))
  then have "stored_at db' (tm_vehicle_id m) t" using m(3) cached_at_entry(2) by fastforce
  then show ?thesis using m all by (auto simp: readings_ok_def)
qed

definition telemetry_demo_db :: database where
  "telemetry_demo_db = empty_db\<lparr>vehicles := \<lparr>rows = [\<lparr>v_id = 4, v_license_plate = ''AA'', v_model = ''M'', v_status = AVAILABLE, v_station_id = 1\<rparr>],
     next_id = 5\<rparr>\<rparr>"

definition demo_reading :: "instant \<Rightarrow> telemetry_message" where
  "demo_reading t = \<lparr>tm_vehicle_id = 4, tm_recorded_at = t, tm_latitude = 50, tm_longitude = 30, tm_fuel_level = 75, tm_is_locked = True\<rparr>"

lemma telemetry_demo_ok: "readings_ok telemetry_demo_db" "cache_ok telemetry_demo_db Map.empty"
  by (simp_all add: readings_ok_def cache_ok_def telemetry_demo_db_def empty_db_def wf_table_empty rows_empty)

lemma telemetry_demo_run:
  "fst (handle_all Some [(no_faults, demo_reading 20, 1), (no_faults, demo_reading 10, 2)] (telemetry_demo_db, Map.empty)) = [Ack, Ack]"
  by (simp add: handle_message_def model_validate_json_def telemetry_valid_def demo_reading_def no_faults_def save_reading_def
      db_get_def int4_def telemetry_demo_db_def empty_db_def empty_table_def get_row_def append_row_def new_reading_def same_reading_def
      update_vehicle_state_def redis_hget_def redis_hgetall_def redis_hset_def redis_write_def live_def fromisoformat_def
      state_fields_def Let_def)

theorem acked_telemetry_kept_witness:
  "\<exists>db' r' m t. snd (handle_all Some [(no_faults, demo_reading 20, 1), (no_faults, demo_reading 10, 2)] (telemetry_demo_db, Map.empty)) = (db', r') \<and>
     model_validate_json Some (demo_reading 10) = Inr m \<and> cached_at r' (tm_vehicle_id m) = Some t \<and> 10 \<le> t"
proof -
  let ?xs = "[(no_faults, demo_reading 20, 1), (no_faults, demo_reading 10, 2)]"
  obtain ds db' r' where h: "handle_all Some ?xs (telemetry_demo_db, Map.empty) = (ds, db', r')" by (metis prod_cases3)
  moreover have "ds ! 1 = Ack" using telemetry_demo_run h by simp
  ultimately show ?thesis
    using acked_telemetry_kept[OF telemetry_demo_ok h, of 1] by (auto simp: model_validate_json_def demo_reading_def split: if_splits)
qed

text \<open>
  Redelivery is idempotent. When a message for a known vehicle is delivered
  again, after its first delivery was acknowledged or put back because something
  failed half way, a delivery without faults acknowledges it and there is exactly
  one stored reading for it; after an acknowledged first delivery, neither the
  stored readings nor the cache change.
\<close>

lemma redelivery_idempotent:
  assumes "readings_ok db" and "cache_ok db r" and "model_validate_json parse body = Inr m"
    and "has_id v_id (vehicles db) (tm_vehicle_id m)" and "int4 (tm_vehicle_id m)"
    and "handle_message parse f body now (db, r) = (d, db1, r1)"
  shows "\<exists>db2 r2. handle_message parse no_faults body later (db1, r1) = (Ack, db2, r2) \<and>
    count_rows (same_reading m) (telemetry_readings db2) = 1 \<and>
    (d = Ack \<longrightarrow> rows (telemetry_readings db2) = rows (telemetry_readings db1) \<and> r2 = r1)"
proof -
  note first = handle_message_ok[OF assms(1,2,6)]
  have ok1: "readings_ok db1" "cache_ok db1 r1" using first by blast+
  have v1: "has_id v_id (vehicles db1) (tm_vehicle_id m)"
    using assms(3,4,6) save_ok(4)[OF assms(1)] by (auto simp: handle_message_def split: prod.splits sum.splits exn.splits)
  obtain b db2 where s: "save_reading None db1 m = (Inr b, db2)" "b \<longleftrightarrow> \<not> stored_at db1 (tm_vehicle_id m) (tm_recorded_at m)"
      "\<not> b \<Longrightarrow> rows (telemetry_readings db2) = rows (telemetry_readings db1)"
    by (rule save_reading_cases[of None db1 m]) (use v1 assms(5) in \<open>auto simp: rows_burn\<close>)
  have ok2: "readings_ok db2" and st2: "stored_at db2 (tm_vehicle_id m) (tm_recorded_at m)"
    and mono: "\<And>v t. stored_at db1 v t \<Longrightarrow> stored_at db2 v t"
    using save_ok[OF ok1(1) s(1)] by blast+
  have c2: "cache_ok db2 r1" using ok1(2) mono by (rule cache_ok_mono)
  obtain b' r2 where u: "update_vehicle_state No_fault No_fault r1 m later = (Inr b', r2)"
      "\<And>t. cached_at r1 (tm_vehicle_id m) = Some t \<Longrightarrow> tm_recorded_at m \<le> t \<Longrightarrow> r2 = r1"
    by (rule update_cases[OF c2, of No_fault No_fault m later]) (auto dest: leD)
  have h: "handle_message parse no_faults body later (db1, r1) = (Ack, db2, r2)"
    using assms(3) s(1) u(1) by (simp add: handle_message_def no_faults_def)
  have "count_rows (same_reading m) (telemetry_readings db2) = 1"
  proof -
    have "same_reading m = (\<lambda>x. reading_key x = (tm_vehicle_id m, tm_recorded_at m))" by (auto simp: same_reading_def reading_key_def)
    moreover obtain x where "x \<in> set (rows (telemetry_readings db2))" "reading_key x = (tm_vehicle_id m, tm_recorded_at m)"
      using st2 by (auto simp: stored_at_def list_ex_iff)
    ultimately show ?thesis using ok2 count_key_one[of reading_key "rows (telemetry_readings db2)" x]
      by (simp add: count_rows_def select_rows_def readings_ok_def)
  qed
  moreover have "rows (telemetry_readings db2) = rows (telemetry_readings db1) \<and> r2 = r1" if "d = Ack"
    using first that assms(3) s u(2) by auto
  ultimately show ?thesis using h by blast
qed

text \<open>
  A message whose vehicle id does not fit the 32-bit key column passes
  validation (only \<open>gt=0\<close> is declared), makes the lookup fail in the driver rather
  than find nothing, and is therefore put back on the queue and not dropped like
  other unknown vehicles: on every delivery, in every state, and without any effect.
\<close>

lemma oversized_vehicle_id_requeued:
  assumes "model_validate_json parse body = Inr m" and "2 ^ 31 \<le> tm_vehicle_id m" and "f_db f = None"
  shows "handle_message parse f body now st = (Nack_requeue, st)"
proof -
  have "\<not> int4 (tm_vehicle_id m)" using assms(2) by (simp add: int4_def)
  then show ?thesis using assms(1,3) by (simp add: handle_message_def save_reading_def db_get_def)
qed

end
