(* ===== verification/VehicleState.thy ===== *)
theory VehicleState
  imports Telemetry
begin

text \<open>
  \<open>services/vehicle_state_service.py\<close>: the state of one vehicle (cache first, the
  database as the source of truth, degraded answers when Redis is down) and the
  positions of the whole fleet. The faults of the attempts of a retried read are a
  function of the attempt; \<open>rand\<close> draws the jitter.
\<close>

section \<open>One vehicle\<close>

datatype state_source = Cache_source | Database_source

record vehicle_state_read =
  vs_vehicle_id :: int
  vs_recorded_at :: instant
  vs_latitude :: rat
  vs_longitude :: rat
  vs_fuel_level :: rat
  vs_is_locked :: bool
  vs_source :: state_source
  vs_degraded :: bool

definition REDIS_TRANSIENT_ERRORS :: "exn \<Rightarrow> bool" where
  "REDIS_TRANSIENT_ERRORS e = (e = RedisConnectionError \<or> e = RedisTimeoutError)"

definition field :: "(string \<times> redis_text) list \<Rightarrow> string \<Rightarrow> redis_text result" where
  "field h k = (case map_of h k of None \<Rightarrow> Inl (KeyError k) | Some t \<Rightarrow> Inr t)"

definition py_float :: "redis_text \<Rightarrow> rat result" where
  "py_float t = (case t of Float_repr x \<Rightarrow> Inr x | _ \<Rightarrow> Inl (ValueError ''could not convert string to float''))"

definition from_cache :: "int \<Rightarrow> (string \<times> redis_text) list \<Rightarrow> vehicle_state_read result" where
  "from_cache vehicle_id cached =
     bind_result (bind_result (field cached ''recorded_at'') fromisoformat) (\<lambda>recorded_at.
     bind_result (bind_result (field cached ''latitude'') py_float) (\<lambda>latitude.
     bind_result (bind_result (field cached ''longitude'') py_float) (\<lambda>longitude.
     bind_result (bind_result (field cached ''fuel_level'') py_float) (\<lambda>fuel_level.
     bind_result (field cached ''is_locked'') (\<lambda>is_locked.
       Inr \<lparr>vs_vehicle_id = vehicle_id, vs_recorded_at = recorded_at, vs_latitude = latitude, vs_longitude = longitude,
            vs_fuel_level = fuel_level, vs_is_locked = (is_locked = Text ''1''), vs_source = Cache_source, vs_degraded = False\<rparr>)))))"

definition from_reading :: "telemetry_reading \<Rightarrow> bool \<Rightarrow> vehicle_state_read" where
  "from_reading r degraded =
     \<lparr>vs_vehicle_id = tr_vehicle_id r, vs_recorded_at = tr_recorded_at r, vs_latitude = tr_latitude r, vs_longitude = tr_longitude r,
      vs_fuel_level = tr_fuel_level r, vs_is_locked = tr_is_locked r, vs_source = Database_source, vs_degraded = degraded\<rparr>"

text \<open>\<open>ORDER BY recorded_at DESC LIMIT 1\<close> over the rows of the vehicle.\<close>

definition latest_reading :: "database \<Rightarrow> int \<Rightarrow> telemetry_reading option" where
  "latest_reading db vehicle_id =
     (case sort_key (\<lambda>r. - tr_recorded_at r) (select_rows (\<lambda>r. tr_vehicle_id r = vehicle_id) (telemetry_readings db)) of
        [] \<Rightarrow> None
      | r # _ \<Rightarrow> Some r)"

definition get_vehicle_state ::
  "database \<Rightarrow> redis \<Rightarrow> (int \<Rightarrow> fault) \<Rightarrow> int \<Rightarrow> retry_policy option \<Rightarrow> (int \<Rightarrow> rat) \<Rightarrow> instant \<Rightarrow> vehicle_state_read result" where
  "get_vehicle_state db r f vehicle_id policy rand now =
     (let key = vehicle_state_key vehicle_id;
          cached = (case policy of
              None \<Rightarrow> redis_hgetall (f 1) r key now
            | Some p \<Rightarrow> fst (call_with_retry (\<lambda>i. redis_hgetall (f i) r key now) p REDIS_TRANSIENT_ERRORS ''redis.hgetall'' rand))
      in case (policy, cached) of
           (Some _, Inl (RetryExhaustedError _ _ _)) \<Rightarrow>
             (case latest_reading db vehicle_id of
                None \<Rightarrow> Inl (DependencyUnavailableError (''State of vehicle '' @ str_int vehicle_id @ '' is temporarily unavailable''))
              | Some reading \<Rightarrow> Inr (from_reading reading True))
         | (_, Inl e) \<Rightarrow> Inl e
         | (_, Inr h) \<Rightarrow>
             if h \<noteq> [] then from_cache vehicle_id h
             else (case latest_reading db vehicle_id of
                     None \<Rightarrow> Inl (NotFoundError (''No telemetry for vehicle '' @ str_int vehicle_id))
                   | Some reading \<Rightarrow> Inr (from_reading reading False)))"

section \<open>The fleet\<close>

text \<open>\<open>DISTINCT ON (vehicle_id)\<close>: the first row of each vehicle in the sorted result.\<close>

fun distinct_on :: "('r \<Rightarrow> 'k) \<Rightarrow> 'r list \<Rightarrow> 'r list" where
  "distinct_on key [] = []"
| "distinct_on key (x # xs) = x # distinct_on key (filter (\<lambda>y. key y \<noteq> key x) xs)"

definition latest_readings :: "database \<Rightarrow> int list \<Rightarrow> int \<rightharpoonup> telemetry_reading" where
  "latest_readings db vehicle_ids =
     (if vehicle_ids = [] then Map.empty
      else map_of (map (\<lambda>r. (tr_vehicle_id r, r)) (distinct_on tr_vehicle_id
        (sort_key tr_vehicle_id (sort_key (\<lambda>r. - tr_recorded_at r)
          (select_rows (\<lambda>r. tr_vehicle_id r \<in> set vehicle_ids) (telemetry_readings db)))))))"

text \<open>One pipeline round trip: a fault loses the whole batch, a reply of the wrong type raises.\<close>

fun hgetall_all :: "redis \<Rightarrow> int list \<Rightarrow> instant \<Rightarrow> (int \<times> (string \<times> redis_text) list) list result" where
  "hgetall_all r [] now = Inr []"
| "hgetall_all r (v # vs) now =
     bind_result (redis_hgetall No_fault r (vehicle_state_key v) now) (\<lambda>h.
       bind_result (hgetall_all r vs now) (\<lambda>hs. Inr ((v, h) # hs)))"

definition cached_states :: "fault \<Rightarrow> redis \<Rightarrow> int list \<Rightarrow> instant \<Rightarrow> (int \<rightharpoonup> (string \<times> redis_text) list) result" where
  "cached_states f r vehicle_ids now = (case fault_exn f of
       Some e \<Rightarrow> Inl e
     | None \<Rightarrow> bind_result (hgetall_all r vehicle_ids now) (\<lambda>hs. Inr (map_of (rev (filter (\<lambda>(v, h). h \<noteq> []) hs)))))"

record vehicle_position_read =
  vp_vehicle_id :: int
  vp_license_plate :: string
  vp_model :: string
  vp_status :: vehicle_status
  vp_station_id :: int
  vp_recorded_at :: instant
  vp_latitude :: rat
  vp_longitude :: rat
  vp_fuel_level :: rat
  vp_is_locked :: bool
  vp_source :: state_source

record fleet_positions_read =
  fp_positions :: "vehicle_position_read list"
  fp_without_telemetry :: "int list"
  fp_degraded :: bool

definition position_of :: "vehicle \<Rightarrow> vehicle_state_read \<Rightarrow> vehicle_position_read" where
  "position_of v s =
     \<lparr>vp_vehicle_id = v_id v, vp_license_plate = v_license_plate v, vp_model = v_model v, vp_status = v_status v,
      vp_station_id = v_station_id v, vp_recorded_at = vs_recorded_at s, vp_latitude = vs_latitude s, vp_longitude = vs_longitude s,
      vp_fuel_level = vs_fuel_level s, vp_is_locked = vs_is_locked s, vp_source = vs_source s\<rparr>"

fun place_vehicles ::
  "(int \<rightharpoonup> (string \<times> redis_text) list) \<Rightarrow> (int \<rightharpoonup> telemetry_reading) \<Rightarrow> bool \<Rightarrow> vehicle list \<Rightarrow> (vehicle_position_read list \<times> int list) result" where
  "place_vehicles cached readings degraded [] = Inr ([], [])"
| "place_vehicles cached readings degraded (v # vs) =
     (case cached (v_id v) of
        Some h \<Rightarrow> bind_result (from_cache (v_id v) h) (\<lambda>s.
          bind_result (place_vehicles cached readings degraded vs) (\<lambda>(ps, ws). Inr (position_of v s # ps, ws)))
      | None \<Rightarrow>
          (case readings (v_id v) of
             Some x \<Rightarrow> bind_result (place_vehicles cached readings degraded vs) (\<lambda>(ps, ws).
               Inr (position_of v (from_reading x degraded) # ps, ws))
           | None \<Rightarrow> bind_result (place_vehicles cached readings degraded vs) (\<lambda>(ps, ws). Inr (ps, v_id v # ws))))"

definition get_fleet_positions :: "database \<Rightarrow> redis \<Rightarrow> fault \<Rightarrow> instant \<Rightarrow> fleet_positions_read result" where
  "get_fleet_positions db r f now =
     (let vs = sort_key v_id (rows (vehicles db));
          ids = map v_id vs;
          cached = (if ids = [] then Inr Map.empty else cached_states f r ids now)
      in case cached of
           Inl e \<Rightarrow>
             if REDIS_TRANSIENT_ERRORS e
             then bind_result (place_vehicles Map.empty (latest_readings db ids) True vs) (\<lambda>(ps, ws).
                    Inr \<lparr>fp_positions = ps, fp_without_telemetry = ws, fp_degraded = True\<rparr>)
             else Inl e
         | Inr c \<Rightarrow>
             bind_result (place_vehicles c (latest_readings db (filter (\<lambda>i. c i = None) ids)) False vs) (\<lambda>(ps, ws).
               Inr \<lparr>fp_positions = ps, fp_without_telemetry = ws, fp_degraded = False\<rparr>))"

section \<open>Reading back what the pipeline wrote\<close>

definition state_of_message :: "telemetry_message \<Rightarrow> vehicle_state_read" where
  "state_of_message m =
     \<lparr>vs_vehicle_id = tm_vehicle_id m, vs_recorded_at = tm_recorded_at m, vs_latitude = tm_latitude m, vs_longitude = tm_longitude m,
      vs_fuel_level = tm_fuel_level m, vs_is_locked = tm_is_locked m, vs_source = Cache_source, vs_degraded = False\<rparr>"

lemma from_cache_state: "from_cache (tm_vehicle_id m) (state_fields m) = Inr (state_of_message m)"
  by (simp add: from_cache_def state_fields_def field_def fromisoformat_def py_float_def state_of_message_def)

lemma cache_ok_cases:
  assumes "cache_ok db r"
  obtains (missing) "r (vehicle_state_key v) = None" "redis_hgetall No_fault r (vehicle_state_key v) now = Inr []" "cached_at r v = None"
  | (hit) m where "r (vehicle_state_key v) = Some (entry_of m)" "tm_vehicle_id m = v" "stored_at db v (tm_recorded_at m)"
      "redis_hgetall No_fault r (vehicle_state_key v) now = Inr (state_fields m)" "cached_at r v = Some (tm_recorded_at m)"
  using assms unfolding cache_ok_def
  by (metis (no_types, lifting) cached_at_entry live_entry redis_hgetall_def fault_exn.simps(1) option.simps(4,5) redis_value.simps(6))

lemma sorted_first:
  assumes "sort_key (\<lambda>r. - f r :: int) xs = y # ys"
  shows "y \<in> set xs" "x \<in> set xs \<Longrightarrow> f x \<le> f y"
proof -
  have set: "set xs = insert y (set ys)" using arg_cong[OF assms, of set] by simp
  then show "y \<in> set xs" by simp
  have "sorted (map (\<lambda>r. - f r) (y # ys))" unfolding assms[symmetric] by simp
  then show "x \<in> set xs \<Longrightarrow> f x \<le> f y" using set by auto
qed

lemma latest_reading_Some:
  assumes "latest_reading db v = Some x"
  shows "x \<in> set (rows (telemetry_readings db))" "tr_vehicle_id x = v"
    "y \<in> set (rows (telemetry_readings db)) \<Longrightarrow> tr_vehicle_id y = v \<Longrightarrow> tr_recorded_at y \<le> tr_recorded_at x"
proof -
  obtain ys where ys: "sort_key (\<lambda>r. - tr_recorded_at r) (select_rows (\<lambda>r. tr_vehicle_id r = v) (telemetry_readings db)) = x # ys"
    using assms by (auto simp: latest_reading_def split: list.splits)
  show "x \<in> set (rows (telemetry_readings db))" "tr_vehicle_id x = v" using sorted_first(1)[OF ys] by (auto simp: select_rows_def)
  show "y \<in> set (rows (telemetry_readings db)) \<Longrightarrow> tr_vehicle_id y = v \<Longrightarrow> tr_recorded_at y \<le> tr_recorded_at x"
    using sorted_first(2)[OF ys, of y] by (auto simp: select_rows_def)
qed

lemma latest_reading_None: "latest_reading db v = None \<longleftrightarrow> (\<forall>x \<in> set (rows (telemetry_readings db)). tr_vehicle_id x \<noteq> v)"
proof -
  have e: "sort_key f xs = [] \<longleftrightarrow> xs = []" for f :: "telemetry_reading \<Rightarrow> int" and xs by (metis length_0_conv length_sort)
  have "latest_reading db v = None \<longleftrightarrow>
      sort_key (\<lambda>r. - tr_recorded_at r) (select_rows (\<lambda>r. tr_vehicle_id r = v) (telemetry_readings db)) = []"
    by (simp add: latest_reading_def split: list.split)
  then show ?thesis unfolding e by (simp add: select_rows_def filter_empty_conv)
qed

text \<open>The bulk query agrees with the query for one vehicle.\<close>

lemma map_of_distinct_on: "map_of (map (\<lambda>r. (key r, r)) (distinct_on key xs)) k = find (\<lambda>r. key r = k) xs"
proof (induction key xs rule: distinct_on.induct)
  case (2 key x xs)
  have "find (\<lambda>r. key r = k) (filter (\<lambda>y. key y \<noteq> key x) xs) = find (\<lambda>r. key r = k) xs" if "key x \<noteq> k"
    using that by (induction xs) auto
  then show ?case using 2 by auto
qed simp

lemma find_as_filter: "find P xs = (case filter P xs of [] \<Rightarrow> None | y # _ \<Rightarrow> Some y)"
  by (induction xs) auto

lemma latest_readings_eq:
  assumes "i \<in> set ids"
  shows "latest_readings db ids i = latest_reading db i"
proof -
  let ?sel = "filter (\<lambda>r. tr_vehicle_id r \<in> set ids) (rows (telemetry_readings db))"
  have "filter (\<lambda>r. tr_vehicle_id r = i) (sort_key tr_vehicle_id (sort_key (\<lambda>r. - tr_recorded_at r) ?sel)) =
      sort_key (\<lambda>r. - tr_recorded_at r) (filter (\<lambda>r. tr_vehicle_id r = i) ?sel)"
    by (simp only: sort_key_stable filter_sort)
  moreover have "filter (\<lambda>r. tr_vehicle_id r = i) ?sel = filter (\<lambda>r. tr_vehicle_id r = i) (rows (telemetry_readings db))"
    using assms by (auto simp: filter_filter intro: filter_cong)
  ultimately show ?thesis using assms
    by (auto simp: latest_readings_def map_of_distinct_on find_as_filter latest_reading_def select_rows_def)
qed

section \<open>The answer for one vehicle\<close>

definition transient_fault :: "fault \<Rightarrow> bool" where
  "transient_fault f = (case fault_exn f of None \<Rightarrow> False | Some e \<Rightarrow> REDIS_TRANSIENT_ERRORS e)"

lemma transient_hgetall:
  "transient_fault f \<Longrightarrow> \<exists>e. redis_hgetall f r key now = Inl e \<and> retryable REDIS_TRANSIENT_ERRORS e"
  by (auto simp: transient_fault_def redis_hgetall_def retryable_def split: option.splits)

definition answer :: "database \<Rightarrow> redis \<Rightarrow> int \<Rightarrow> instant \<Rightarrow> vehicle_state_read result" where
  "answer db r v now = (case redis_hgetall No_fault r (vehicle_state_key v) now of
       Inl e \<Rightarrow> Inl e
     | Inr h \<Rightarrow> if h \<noteq> [] then from_cache v h
         else (case latest_reading db v of
                 None \<Rightarrow> Inl (NotFoundError (''No telemetry for vehicle '' @ str_int v))
               | Some reading \<Rightarrow> Inr (from_reading reading False)))"

lemma answer_spec:
  assumes "cache_ok db r"
  shows "case cached_at r v of
      Some t \<Rightarrow> \<exists>s. answer db r v now = Inr s \<and> vs_vehicle_id s = v \<and> vs_recorded_at s = t \<and> vs_source s = Cache_source \<and>
        \<not> vs_degraded s \<and> stored_at db v t
    | None \<Rightarrow> answer db r v now = (case latest_reading db v of
        None \<Rightarrow> Inl (NotFoundError (''No telemetry for vehicle '' @ str_int v)) | Some x \<Rightarrow> Inr (from_reading x False))"
proof (rule cache_ok_cases[OF assms, of v now])
  fix m
  assume "tm_vehicle_id m = v" "stored_at db v (tm_recorded_at m)"
    "redis_hgetall No_fault r (vehicle_state_key v) now = Inr (state_fields m)" "cached_at r v = Some (tm_recorded_at m)"
  moreover have "state_fields m \<noteq> []" by (simp add: state_fields_def)
  ultimately show ?thesis using from_cache_state[of m] by (simp add: answer_def state_of_message_def)
qed (simp add: answer_def)

lemma get_vehicle_state_answer:
  assumes "cache_ok db r" "1 \<le> n" "n \<le> attempts_made p" "f n = No_fault" "\<And>i. 1 \<le> i \<Longrightarrow> i < n \<Longrightarrow> transient_fault (f i)"
    and p: "at_least_once p = p"
  shows "get_vehicle_state db r f v (Some p) rand now = answer db r v now"
proof -
  let ?op = "\<lambda>i. redis_hgetall (f i) r (vehicle_state_key v) now"
  obtain h where h: "?op n = Inr h" using assms(4) by (auto intro: cache_ok_cases[OF assms(1), of v now])
  have "fst (call_with_retry ?op p REDIS_TRANSIENT_ERRORS ''redis.hgetall'' rand) = ?op n"
    using retrying.decides[where policy = p and retry_on = REDIS_TRANSIENT_ERRORS and operation = ?op and n = n] assms h
      transient_hgetall unfolding p by simp
  then show ?thesis using h assms(4) by (simp add: get_vehicle_state_def answer_def Let_def)
qed

lemma get_vehicle_state_degraded:
  assumes "\<And>i. 1 \<le> i \<Longrightarrow> i \<le> attempts_made p \<Longrightarrow> transient_fault (f i)" and p: "at_least_once p = p"
  shows "get_vehicle_state db r f v (Some p) rand now =
    (if max_attempts p \<le> 1025
     then (case latest_reading db v of
         None \<Rightarrow> Inl (DependencyUnavailableError (''State of vehicle '' @ str_int v @ '' is temporarily unavailable''))
       | Some reading \<Rightarrow> Inr (from_reading reading True))
     else Inl OverflowError)"
proof -
  let ?op = "\<lambda>i. redis_hgetall (f i) r (vehicle_state_key v) now"
  have "\<exists>e. fst (call_with_retry ?op p REDIS_TRANSIENT_ERRORS ''redis.hgetall'' rand) = Inl e \<and> gave_up p e"
    using retrying.gives_up[where policy = p and retry_on = REDIS_TRANSIENT_ERRORS and operation = ?op and name = "''redis.hgetall''" and rand = rand]
      assms(1) transient_hgetall unfolding p by blast
  then show ?thesis by (auto simp: get_vehicle_state_def Let_def gave_up_def split: if_splits)
qed

section \<open>The fleet view\<close>

lemma hgetall_all_ok:
  assumes "cache_ok db r"
  shows "hgetall_all r vs now = Inr (map (\<lambda>v. (v, case r (vehicle_state_key v) of None \<Rightarrow> [] | Some e \<Rightarrow> (case e_value e of Hash h \<Rightarrow> h | Str _ \<Rightarrow> []))) vs)"
proof (induction vs)
  case (Cons v vs)
  then show ?case by (cases rule: cache_ok_cases[OF assms, of v now]) (simp_all add: entry_of_def)
qed simp

lemma map_of_rev_filter:
  "distinct vs \<Longrightarrow> map_of (rev (filter (\<lambda>(v, h). P h) (map (\<lambda>v. (v, g v)) vs))) v = (if v \<in> set vs \<and> P (g v) then Some (g v) else None)"
proof (induction vs)
  case (Cons x xs)
  then show ?case by (auto simp: map_add_def split: option.splits)
qed simp

lemma place_vehicles_spec:
  assumes "\<And>v. v \<in> set vs \<Longrightarrow> (case cached (v_id v) of
      Some h \<Rightarrow> \<exists>s. from_cache (v_id v) h = Inr s \<and> st v = Some s
    | None \<Rightarrow> st v = map_option (\<lambda>x. from_reading x degraded) (readings (v_id v)))"
  shows "place_vehicles cached readings degraded vs =
    Inr (List.map_filter (\<lambda>v. map_option (position_of v) (st v)) vs, map v_id (filter (\<lambda>v. st v = None) vs))"
  using assms
proof (induction vs)
  case (Cons v vs)
  have IH: "place_vehicles cached readings degraded vs =
    Inr (List.map_filter (\<lambda>v. map_option (position_of v) (st v)) vs, map v_id (filter (\<lambda>v. st v = None) vs))"
    using Cons by simp
  show ?case using Cons.prems[of v] by (cases "cached (v_id v)"; cases "readings (v_id v)") (auto simp: IH map_filter_simps)
qed (simp add: map_filter_simps)

section \<open>Properties\<close>

text \<open>
  C14: the state of a vehicle survives a Redis outage. With an accepted policy and
  Redis faults that are connection errors or time-outs, as soon as one of the
  allowed attempts gets through the answer is the cached state (a stored instant)
  or, when nothing is cached, the newest stored reading; when none gets through,
  the answer is the newest stored reading marked as degraded. An error is raised
  only when there is no reading at all: 404 with Redis up, 503 with Redis down. All this
  for the first 1025 attempts; a policy of more, none of which got through, is one whose
  backoff overflows, and then the error of the backoff is the answer.
\<close>

theorem vehicle_state_survives_outage:
  assumes "cache_ok db r" and "RetryPolicy n timeout base longest = Inr p"
    and "\<forall>i. f i = No_fault \<or> transient_fault (f i)"
  shows "(case find (\<lambda>i. f i = No_fault) [1..min 1025 n] of
      Some _ \<Rightarrow> (case cached_at r v of
          Some t \<Rightarrow> \<exists>s. get_vehicle_state db r f v (Some p) rand now = Inr s \<and> vs_vehicle_id s = v \<and> vs_recorded_at s = t \<and>
            vs_source s = Cache_source \<and> \<not> vs_degraded s \<and> stored_at db v t
        | None \<Rightarrow> get_vehicle_state db r f v (Some p) rand now = (case latest_reading db v of
            None \<Rightarrow> Inl (NotFoundError (''No telemetry for vehicle '' @ str_int v)) | Some x \<Rightarrow> Inr (from_reading x False)))
    | None \<Rightarrow> get_vehicle_state db r f v (Some p) rand now =
        (if n \<le> 1025
         then (case latest_reading db v of
             None \<Rightarrow> Inl (DependencyUnavailableError (''State of vehicle '' @ str_int v @ '' is temporarily unavailable''))
           | Some x \<Rightarrow> Inr (from_reading x True))
         else Inl OverflowError)) \<and>
    (case latest_reading db v of
       None \<Rightarrow> \<forall>y \<in> set (rows (telemetry_readings db)). tr_vehicle_id y \<noteq> v
     | Some x \<Rightarrow> x \<in> set (rows (telemetry_readings db)) \<and> tr_vehicle_id x = v \<and>
         (\<forall>y \<in> set (rows (telemetry_readings db)). tr_vehicle_id y = v \<longrightarrow> tr_recorded_at y \<le> tr_recorded_at x))"
proof (intro conjI)
  have p: "at_least_once p = p" "max_attempts p = n" "attempts_made p = min 1025 n" using RetryPolicy_at_least_once[OF assms(2)] assms(2)
    by (auto simp: RetryPolicy_def attempts_made_def split: if_splits)
  show "case find (\<lambda>i. f i = No_fault) [1..min 1025 n] of
      Some _ \<Rightarrow> (case cached_at r v of
          Some t \<Rightarrow> \<exists>s. get_vehicle_state db r f v (Some p) rand now = Inr s \<and> vs_vehicle_id s = v \<and> vs_recorded_at s = t \<and>
            vs_source s = Cache_source \<and> \<not> vs_degraded s \<and> stored_at db v t
        | None \<Rightarrow> get_vehicle_state db r f v (Some p) rand now = (case latest_reading db v of
            None \<Rightarrow> Inl (NotFoundError (''No telemetry for vehicle '' @ str_int v)) | Some x \<Rightarrow> Inr (from_reading x False)))
    | None \<Rightarrow> get_vehicle_state db r f v (Some p) rand now =
        (if n \<le> 1025
         then (case latest_reading db v of
             None \<Rightarrow> Inl (DependencyUnavailableError (''State of vehicle '' @ str_int v @ '' is temporarily unavailable''))
           | Some x \<Rightarrow> Inr (from_reading x True))
         else Inl OverflowError)"
  proof (cases "find (\<lambda>i. f i = No_fault) [1..min 1025 n]")
    case None
    have "transient_fault (f i)" if "1 \<le> i" "i \<le> attempts_made p" for i
      using find_upto_None[OF None, of i] that p(3) assms(3) by auto
    then show ?thesis using None get_vehicle_state_degraded[OF _ p(1), of f db r v rand now] p(2) by simp
  next
    case (Some k)
    have "get_vehicle_state db r f v (Some p) rand now = answer db r v now"
      using find_upto_Some[OF Some] assms(3) p by (intro get_vehicle_state_answer[OF assms(1), of k]) auto
    then show ?thesis using Some answer_spec[OF assms(1), of v now] by (cases "cached_at r v") simp_all
  qed
  show "case latest_reading db v of
       None \<Rightarrow> \<forall>y \<in> set (rows (telemetry_readings db)). tr_vehicle_id y \<noteq> v
     | Some x \<Rightarrow> x \<in> set (rows (telemetry_readings db)) \<and> tr_vehicle_id x = v \<and>
         (\<forall>y \<in> set (rows (telemetry_readings db)). tr_vehicle_id y = v \<longrightarrow> tr_recorded_at y \<le> tr_recorded_at x)"
  proof (cases "latest_reading db v")
    case None
    then show ?thesis using latest_reading_None[of db v] by simp
  next
    case (Some x)
    then show ?thesis using latest_reading_Some[OF Some] by simp
  qed
qed

definition outage_demo_db :: database where
  "outage_demo_db = telemetry_demo_db\<lparr>telemetry_readings := append_row (new_reading (demo_reading 20)) empty_table\<rparr>"

theorem vehicle_state_survives_outage_witness:
  "\<exists>p. RetryPolicy 3 (1 / 4) (1 / 2) 2 = Inr p \<and>
     get_vehicle_state outage_demo_db Map.empty (\<lambda>_. Before RedisConnectionError) 4 (Some p) (\<lambda>_. 0) 7 =
       Inr (from_reading (new_reading (demo_reading 20) 1) True)"
proof -
  have p: "RetryPolicy 3 (1 / 4) (1 / 2) 2 = Inr \<lparr>max_attempts = 3, attempt_timeout = 1 / 4, base_delay = 1 / 2, max_delay = 2\<rparr>"
    by (simp add: RetryPolicy_def)
  have c: "cache_ok outage_demo_db Map.empty" by (simp add: cache_ok_def)
  have l: "latest_reading outage_demo_db 4 = Some (new_reading (demo_reading 20) 1)"
    by (simp add: latest_reading_def outage_demo_db_def select_rows_def rows_append empty_table_def demo_reading_def)
  have n: "find (\<lambda>i :: int. Before RedisConnectionError = No_fault) [1..min 1025 3] = None" by (simp add: find_None_iff)
  show ?thesis
    using p vehicle_state_survives_outage[OF c p, of "\<lambda>_. Before RedisConnectionError" 4 "\<lambda>_. 0" 7] unfolding n l
    by (simp add: transient_fault_def REDIS_TRANSIENT_ERRORS_def)
qed

text \<open>What the single-vehicle endpoint has for a vehicle, and the map made of these answers.\<close>

definition single_state :: "database \<Rightarrow> redis \<Rightarrow> fault \<Rightarrow> retry_policy \<Rightarrow> (int \<Rightarrow> rat) \<Rightarrow> instant \<Rightarrow> vehicle \<Rightarrow> vehicle_state_read option" where
  "single_state db r f p rand now v = (case get_vehicle_state db r (\<lambda>_. f) (v_id v) (Some p) rand now of Inl _ \<Rightarrow> None | Inr s \<Rightarrow> Some s)"

definition positions_one_by_one :: "(vehicle \<Rightarrow> vehicle_state_read option) \<Rightarrow> bool \<Rightarrow> database \<Rightarrow> fleet_positions_read" where
  "positions_one_by_one st degraded db =
     (let vs = sort_key v_id (rows (vehicles db))
      in \<lparr>fp_positions = List.map_filter (\<lambda>v. map_option (position_of v) (st v)) vs,
          fp_without_telemetry = map v_id (filter (\<lambda>v. st v = None) vs), fp_degraded = degraded\<rparr>)"

lemma fleet_positions_up:
  assumes cache: "cache_ok db r" and ids: "map v_id (sort_key v_id (rows (vehicles db))) \<noteq> []" "distinct (map v_id (sort_key v_id (rows (vehicles db))))"
    and p: "at_least_once p = p" "1 \<le> attempts_made p"
  shows "get_fleet_positions db r No_fault now = Inr (positions_one_by_one (single_state db r No_fault p rand now) False db)"
proof -
  let ?vs = "sort_key v_id (rows (vehicles db))"
  define st where "st = single_state db r No_fault p rand now"
  define c where "c = map_of (rev (filter (\<lambda>(v, h). h \<noteq> []) (map (\<lambda>v. (v, case r (vehicle_state_key v) of None \<Rightarrow> []
    | Some e \<Rightarrow> (case e_value e of Hash h \<Rightarrow> h | Str _ \<Rightarrow> []))) (map v_id ?vs))))"
  have cs: "cached_states No_fault r (map v_id ?vs) now = Inr c"
    by (simp add: cached_states_def hgetall_all_ok[OF cache] c_def)
  have "place_vehicles c (latest_readings db (filter (\<lambda>i. c i = None) (map v_id ?vs))) False ?vs =
      Inr (List.map_filter (\<lambda>v. map_option (position_of v) (st v)) ?vs, map v_id (filter (\<lambda>v. st v = None) ?vs))"
  proof (rule place_vehicles_spec)
    fix v assume v: "v \<in> set ?vs"
    have state: "get_vehicle_state db r (\<lambda>_. No_fault) (v_id v) (Some p) rand now = answer db r (v_id v) now"
      using p by (intro get_vehicle_state_answer[OF cache, of 1]) auto
    have cv: "c (v_id v) = (let h = (case r (vehicle_state_key (v_id v)) of None \<Rightarrow> []
        | Some e \<Rightarrow> (case e_value e of Hash h \<Rightarrow> h | Str _ \<Rightarrow> [])) in if h \<noteq> [] then Some h else None)"
      unfolding c_def map_of_rev_filter[OF ids(2)] using v by (simp add: Let_def)
    show "case c (v_id v) of Some h \<Rightarrow> \<exists>s. from_cache (v_id v) h = Inr s \<and> st v = Some s
      | None \<Rightarrow> st v = map_option (\<lambda>x. from_reading x False) (latest_readings db (filter (\<lambda>i. c i = None) (map v_id ?vs)) (v_id v))"
    proof (rule cache_ok_cases[OF cache, of "v_id v" now])
      assume "r (vehicle_state_key (v_id v)) = None" "redis_hgetall No_fault r (vehicle_state_key (v_id v)) now = Inr []"
      moreover from this have "c (v_id v) = None" using cv by simp
      moreover from this have "latest_readings db (filter (\<lambda>i. c i = None) (map v_id ?vs)) (v_id v) = latest_reading db (v_id v)"
        using v by (intro latest_readings_eq) auto
      ultimately show ?thesis by (simp add: st_def single_state_def state answer_def split: option.split)
    next
      fix m assume "r (vehicle_state_key (v_id v)) = Some (entry_of m)" "tm_vehicle_id m = v_id v"
        "redis_hgetall No_fault r (vehicle_state_key (v_id v)) now = Inr (state_fields m)"
      moreover have "state_fields m \<noteq> []" by (simp add: state_fields_def)
      ultimately show ?thesis using cv from_cache_state[of m] by (simp add: st_def single_state_def state answer_def entry_of_def)
    qed
  qed
  then show ?thesis using ids(1) cs by (simp add: get_fleet_positions_def positions_one_by_one_def Let_def st_def)
qed

lemma fleet_positions_down:
  assumes ids: "map v_id (sort_key v_id (rows (vehicles db))) \<noteq> []" and t: "transient_fault f"
    and p: "at_least_once p = p" "max_attempts p \<le> 1025"
  shows "get_fleet_positions db r f now = Inr (positions_one_by_one (single_state db r f p rand now) True db)"
proof -
  let ?vs = "sort_key v_id (rows (vehicles db))"
  define st where "st = single_state db r f p rand now"
  obtain e where e: "cached_states f r (map v_id ?vs) now = Inl e" "REDIS_TRANSIENT_ERRORS e"
    using t by (auto simp: transient_fault_def cached_states_def split: option.splits)
  have "place_vehicles Map.empty (latest_readings db (map v_id ?vs)) True ?vs =
      Inr (List.map_filter (\<lambda>v. map_option (position_of v) (st v)) ?vs, map v_id (filter (\<lambda>v. st v = None) ?vs))"
  proof (rule place_vehicles_spec)
    fix v assume v: "v \<in> set ?vs"
    have "latest_readings db (map v_id ?vs) (v_id v) = latest_reading db (v_id v)" using v by (intro latest_readings_eq) auto
    then show "case Map.empty (v_id v) of Some h \<Rightarrow> \<exists>s. from_cache (v_id v) h = Inr s \<and> st v = Some s
      | None \<Rightarrow> st v = map_option (\<lambda>x. from_reading x True) (latest_readings db (map v_id ?vs) (v_id v))"
      using get_vehicle_state_degraded[OF _ p(1), of "\<lambda>_. f" db r "v_id v" rand now] t p(2)
      by (simp add: st_def single_state_def split: option.split)
  qed
  then show ?thesis using ids e by (simp add: get_fleet_positions_def positions_one_by_one_def Let_def st_def)
qed

lemma one_by_one_eq:
  "positions_one_by_one (single_state db r f p rand now) degraded db =
    \<lparr>fp_positions = List.map_filter (\<lambda>v. case get_vehicle_state db r (\<lambda>_. f) (v_id v) (Some p) rand now of
         Inl _ \<Rightarrow> None | Inr s \<Rightarrow> Some (position_of v s)) (sort_key v_id (rows (vehicles db))),
     fp_without_telemetry = map v_id (filter (\<lambda>v. \<exists>e. get_vehicle_state db r (\<lambda>_. f) (v_id v) (Some p) rand now = Inl e)
         (sort_key v_id (rows (vehicles db)))),
     fp_degraded = degraded\<rparr>"
proof -
  have "map_option (position_of v) (single_state db r f p rand now v) =
      (case get_vehicle_state db r (\<lambda>_. f) (v_id v) (Some p) rand now of Inl _ \<Rightarrow> None | Inr s \<Rightarrow> Some (position_of v s))"
    "(single_state db r f p rand now v = None) = (\<exists>e. get_vehicle_state db r (\<lambda>_. f) (v_id v) (Some p) rand now = Inl e)" for v
    by (auto simp: single_state_def split: sum.split)
  then show ?thesis by (simp add: positions_one_by_one_def Let_def)
qed

lemma rows_ids:
  assumes "wf_table v_id (vehicles db)" "rows (vehicles db) \<noteq> []"
  shows "map v_id (sort_key v_id (rows (vehicles db))) \<noteq> []" "distinct (map v_id (sort_key v_id (rows (vehicles db))))"
  using assms by (auto simp: wf_table_def distinct_map inj_on_def) (metis length_0_conv length_sort)

lemma fleet_positions_one_by_one:
  assumes "cache_ok db r" "wf_table v_id (vehicles db)" "rows (vehicles db) \<noteq> []" "f = No_fault \<or> transient_fault f"
    and p: "at_least_once p = p" "1 \<le> attempts_made p" "f = No_fault \<or> max_attempts p \<le> 1025"
  shows "get_fleet_positions db r f now = Inr
    \<lparr>fp_positions = List.map_filter (\<lambda>v. case get_vehicle_state db r (\<lambda>_. f) (v_id v) (Some p) rand now of
         Inl _ \<Rightarrow> None | Inr s \<Rightarrow> Some (position_of v s)) (sort_key v_id (rows (vehicles db))),
     fp_without_telemetry = map v_id (filter (\<lambda>v. \<exists>e. get_vehicle_state db r (\<lambda>_. f) (v_id v) (Some p) rand now = Inl e)
         (sort_key v_id (rows (vehicles db)))),
     fp_degraded = (f \<noteq> No_fault)\<rparr>"
  unfolding one_by_one_eq[symmetric]
  using fleet_positions_up[OF assms(1) rows_ids[OF assms(2,3)] p(1,2)]
    fleet_positions_down[OF rows_ids(1)[OF assms(2,3)] _ p(1)] assms(4) p(3) by (cases "f = No_fault") auto

text \<open>
  C29: the fleet map shows for every vehicle what the single-vehicle endpoint would
  show. One pipeline and one \<open>DISTINCT ON\<close> query give, in id order, exactly the
  positions obtained vehicle by vehicle, and the vehicles listed as without
  telemetry are exactly those for which the single endpoint has none; when Redis
  is down, the same holds with the degraded single-vehicle answers, and only then
  is the map marked as degraded. The one exception is a policy of more than 1025 attempts with
  Redis down: the backoff of the single-vehicle endpoint then overflows for every
  vehicle, while the map is the one that goes with a single attempt.
\<close>

theorem fleet_positions_agree:
  assumes "cache_ok db r" and "wf_table v_id (vehicles db)" and "f = No_fault \<or> transient_fault f"
    and "RetryPolicy n timeout base longest = Inr p" and "rows (vehicles db) \<noteq> []"
  shows "let single = (\<lambda>q v. get_vehicle_state db r (\<lambda>_. f) (v_id v) (Some q) rand now);
       q = (if f = No_fault \<or> n \<le> 1025 then p else p\<lparr>max_attempts := 1\<rparr>)
    in get_fleet_positions db r f now = Inr
      \<lparr>fp_positions = List.map_filter (\<lambda>v. case single q v of
           Inl _ \<Rightarrow> None | Inr s \<Rightarrow> Some (position_of v s)) (sort_key v_id (rows (vehicles db))),
       fp_without_telemetry = map v_id (filter (\<lambda>v. \<exists>e. single q v = Inl e) (sort_key v_id (rows (vehicles db)))),
       fp_degraded = (f \<noteq> No_fault)\<rparr> \<and>
     (q \<noteq> p \<longrightarrow> (\<forall>v. single p v = Inl OverflowError))"
proof -
  have p: "at_least_once p = p" "1 \<le> attempts_made p" "max_attempts p = n" using RetryPolicy_at_least_once[OF assms(4)] assms(4)
    by (auto simp: RetryPolicy_def attempts_made_def split: if_splits)
  show ?thesis
  proof (cases "f = No_fault \<or> n \<le> 1025")
    case True
    then show ?thesis using fleet_positions_one_by_one[OF assms(1,2,5,3) p(1,2)] p(3) unfolding Let_def by simp
  next
    case False
    let ?q = "p\<lparr>max_attempts := 1\<rparr>"
    have q: "at_least_once ?q = ?q" "1 \<le> attempts_made ?q" "max_attempts ?q \<le> 1025" by (simp_all add: at_least_once_def attempts_made_def)
    have t: "transient_fault f" using False assms(3) by blast
    have "get_vehicle_state db r (\<lambda>_. f) v (Some p) rand now = Inl OverflowError" for v
      using get_vehicle_state_degraded[OF _ p(1), of "\<lambda>_. f"] t p(3) False by simp
    then show ?thesis
      using fleet_positions_one_by_one[OF assms(1,2,5,3) q(1,2)] q(3) False unfolding Let_def by simp
  qed
qed

theorem fleet_positions_agree_witness:
  "\<exists>p. RetryPolicy 3 (1 / 4) (1 / 2) 2 = Inr p \<and>
     (\<exists>ps. get_fleet_positions outage_demo_db Map.empty (Before RedisConnectionError) 7 =
       Inr \<lparr>fp_positions = ps, fp_without_telemetry = [], fp_degraded = True\<rparr>)"
proof -
  let ?p = "\<lparr>max_attempts = 3, attempt_timeout = 1 / 4, base_delay = 1 / 2, max_delay = 2\<rparr>"
  have p: "RetryPolicy 3 (1 / 4) (1 / 2) 2 = Inr ?p" by (simp add: RetryPolicy_def)
  have c: "cache_ok outage_demo_db Map.empty" by (simp add: cache_ok_def)
  have w: "wf_table v_id (vehicles outage_demo_db)" "rows (vehicles outage_demo_db) \<noteq> []"
    by (simp_all add: wf_table_def outage_demo_db_def telemetry_demo_db_def)
  have t: "Before RedisConnectionError = No_fault \<or> transient_fault (Before RedisConnectionError)"
    by (simp add: transient_fault_def REDIS_TRANSIENT_ERRORS_def)
  have l: "latest_reading outage_demo_db 4 = Some (new_reading (demo_reading 20) 1)"
    by (simp add: latest_reading_def outage_demo_db_def select_rows_def rows_append empty_table_def demo_reading_def)
  have "get_vehicle_state outage_demo_db Map.empty (\<lambda>_. Before RedisConnectionError) 4 (Some ?p) (\<lambda>_. 0) 7 =
      Inr (from_reading (new_reading (demo_reading 20) 1) True)"
    using get_vehicle_state_degraded[of ?p "\<lambda>_. Before RedisConnectionError" outage_demo_db Map.empty 4 "\<lambda>_. 0" 7] t
      RetryPolicy_at_least_once[OF p] l by simp
  moreover have "sort_key v_id (rows (vehicles outage_demo_db)) = rows (vehicles outage_demo_db)"
    "map v_id (rows (vehicles outage_demo_db)) = [4]" by (simp_all add: outage_demo_db_def telemetry_demo_db_def)
  ultimately show ?thesis
    using p fleet_positions_agree[OF c w(1) t p w(2), where now = 7 and rand = "\<lambda>_. 0"] by (auto simp: filter_empty_conv Let_def)
qed

end
