(* ===== verification/FleetApi.thy ===== *)
theory FleetApi
  imports Pricing Rentals VehicleState
begin

text \<open>
  The handlers of \<open>api/stations.py\<close>, \<open>api/vehicles.py\<close>, \<open>api/renters.py\<close>,
  \<open>api/rentals.py\<close> and \<open>api/me.py\<close> over the database and Redis, and the step relation
  of the requests that change the fleet. A handler takes the faults of its Redis
  commands; the JSON of the two cached lists is a parameter.
\<close>

section \<open>Stations and vehicles\<close>

definition new_station :: "string \<Rightarrow> int \<Rightarrow> int \<Rightarrow> station" where
  "new_station address capacity i = \<lparr>st_id = i, st_address = address, st_capacity = capacity\<rparr>"

definition create_station :: "fault \<Rightarrow> string \<Rightarrow> int \<Rightarrow> database \<times> redis \<Rightarrow> station result \<times> database \<times> redis" where
  "create_station f address capacity st =
     (case insert_row station_fits (\<lambda>_. True) (new_station address capacity) (stations (fst st)) of
        (Inl e, t) \<Rightarrow> (Inl e, (fst st)\<lparr>stations := t\<rparr>, snd st)
      | (Inr x, t) \<Rightarrow>
          (case invalidate f (snd st) [STATIONS_LIST_KEY] of
             (Inl e, r) \<Rightarrow> (Inl e, (fst st)\<lparr>stations := t\<rparr>, r)
           | (Inr _, r) \<Rightarrow> (Inr x, (fst st)\<lparr>stations := t\<rparr>, r)))"

definition stations_by_id :: "database \<Rightarrow> station list" where
  "stations_by_id db = sort_key st_id (rows (stations db))"

definition list_stations ::
  "settings \<Rightarrow> (station list \<Rightarrow> string) \<Rightarrow> fault \<Rightarrow> fault \<Rightarrow> instant \<Rightarrow> database \<times> redis \<Rightarrow> string result \<times> database \<times> redis" where
  "list_stations s dump f_get f_set now st =
     (case read_through_json s f_get f_set (snd st) STATIONS_LIST_KEY dump (stations_by_id (fst st)) now of
        (res, r) \<Rightarrow> (res, fst st, r))"

definition read_station :: "database \<Rightarrow> int \<Rightarrow> station result" where
  "read_station db station_id = (case get_row st_id (stations db) station_id of
       None \<Rightarrow> Inl (HTTPException 404 ''Station not found'') | Some x \<Rightarrow> Inr x)"

definition new_vehicle :: "string \<Rightarrow> string \<Rightarrow> int \<Rightarrow> int \<Rightarrow> vehicle" where
  "new_vehicle license_plate model station_id i =
     \<lparr>v_id = i, v_license_plate = license_plate, v_model = model, v_status = AVAILABLE, v_station_id = station_id\<rparr>"

definition create_vehicle ::
  "fault \<Rightarrow> string \<Rightarrow> string \<Rightarrow> int \<Rightarrow> database \<times> redis \<Rightarrow> vehicle result \<times> database \<times> redis" where
  "create_vehicle f license_plate model station_id st =
     (case get_station (fst st) station_id of
        Inl e \<Rightarrow> (Inl e, st)
      | Inr _ \<Rightarrow>
          (case insert_row vehicle_fits (vehicle_ok (fst st)) (new_vehicle license_plate model station_id) (vehicles (fst st)) of
             (Inl e, t) \<Rightarrow> (Inl e, (fst st)\<lparr>vehicles := t\<rparr>, snd st)
           | (Inr x, t) \<Rightarrow>
               (case invalidate f (snd st) [VEHICLES_LIST_KEY] of
                  (Inl e, r) \<Rightarrow> (Inl e, (fst st)\<lparr>vehicles := t\<rparr>, r)
                | (Inr _, r) \<Rightarrow> (Inr x, (fst st)\<lparr>vehicles := t\<rparr>, r))))"

definition vehicles_by_id :: "database \<Rightarrow> vehicle list" where
  "vehicles_by_id db = sort_key v_id (rows (vehicles db))"

definition list_vehicles ::
  "settings \<Rightarrow> (vehicle list \<Rightarrow> string) \<Rightarrow> fault \<Rightarrow> fault \<Rightarrow> instant \<Rightarrow> database \<times> redis \<Rightarrow> string result \<times> database \<times> redis" where
  "list_vehicles s dump f_get f_set now st =
     (case read_through_json s f_get f_set (snd st) VEHICLES_LIST_KEY dump (vehicles_by_id (fst st)) now of
        (res, r) \<Rightarrow> (res, fst st, r))"

definition read_vehicle :: "database \<Rightarrow> int \<Rightarrow> vehicle result" where
  "read_vehicle db vehicle_id = (case get_row v_id (vehicles db) vehicle_id of
       None \<Rightarrow> Inl (HTTPException 404 ''Vehicle not found'') | Some x \<Rightarrow> Inr x)"

section \<open>Renters\<close>

definition new_renter :: "string \<Rightarrow> string \<Rightarrow> int option \<Rightarrow> int \<Rightarrow> renter" where
  "new_renter full_name license_number user_id i =
     \<lparr>rt_id = i, rt_full_name = full_name, rt_license_number = license_number, rt_user_id = user_id\<rparr>"

definition create_renter :: "string \<Rightarrow> string \<Rightarrow> database \<Rightarrow> renter result \<times> database" where
  "create_renter full_name license_number db =
     (case insert_row renter_fits (renter_ok db) (new_renter full_name license_number None) (renters db) of
        (res, t) \<Rightarrow> (res, db\<lparr>renters := t\<rparr>))"

definition list_renters :: "database \<Rightarrow> renter list" where
  "list_renters db = rows (renters db)"

definition read_renter :: "database \<Rightarrow> int \<Rightarrow> renter result" where
  "read_renter db renter_id = (case get_row rt_id (renters db) renter_id of
       None \<Rightarrow> Inl (HTTPException 404 ''Renter not found'') | Some x \<Rightarrow> Inr x)"

section \<open>Rentals\<close>

record rental_read =
  rr_rental :: rental
  rr_cost :: "rat option"

definition rental_with_cost :: "instant \<Rightarrow> rental \<Rightarrow> rental_read" where
  "rental_with_cost now r =
     \<lparr>rr_rental = r,
      rr_cost = (if r_status r \<noteq> CANCELLED
        then Some (calculate_cost (r_started_at r) (case r_ended_at r of None \<Rightarrow> now | Some t \<Rightarrow> t) RATE_PER_HOUR) else None)\<rparr>"

definition start_rental_request :: "fault \<Rightarrow> int \<Rightarrow> int \<Rightarrow> instant \<Rightarrow> database \<times> redis \<Rightarrow> rental_read result \<times> database \<times> redis" where
  "start_rental_request f renter_id vehicle_id now st =
     (case start_rental (fst st) renter_id vehicle_id now of
        (Inl e, db) \<Rightarrow> (Inl e, db, snd st)
      | (Inr x, db) \<Rightarrow>
          (case invalidate f (snd st) [VEHICLES_LIST_KEY] of
             (Inl e, r) \<Rightarrow> (Inl e, db, r)
           | (Inr _, r) \<Rightarrow> (Inr \<lparr>rr_rental = x, rr_cost = None\<rparr>, db, r)))"

definition end_rental_request :: "fault \<Rightarrow> int \<Rightarrow> int \<Rightarrow> instant \<Rightarrow> database \<times> redis \<Rightarrow> rental_read result \<times> database \<times> redis" where
  "end_rental_request f rental_id end_station_id now st =
     (case end_rental (fst st) rental_id end_station_id now of
        (Inl e, db) \<Rightarrow> (Inl e, db, snd st)
      | (Inr x, db) \<Rightarrow>
          (case invalidate f (snd st) [VEHICLES_LIST_KEY] of
             (Inl e, r) \<Rightarrow> (Inl e, db, r)
           | (Inr _, r) \<Rightarrow>
               (case r_ended_at x of
                  None \<Rightarrow> (Inl TypeError, db, r)
                | Some t \<Rightarrow> (Inr \<lparr>rr_rental = x, rr_cost = Some (calculate_cost (r_started_at x) t RATE_PER_HOUR)\<rparr>, db, r))))"

definition list_rentals :: "instant \<Rightarrow> database \<Rightarrow> rental_read list" where
  "list_rentals now db = map (rental_with_cost now) (sort_key (\<lambda>r. - r_started_at r) (rows (rentals db)))"

definition completed_rental_revenue :: "rental \<Rightarrow> rat" where
  "completed_rental_revenue r = (case r_ended_at r of None \<Rightarrow> 0 | Some t \<Rightarrow> calculate_cost (r_started_at r) t RATE_PER_HOUR)"

record rentals_summary =
  rs_active :: nat
  rs_completed :: nat
  rs_cancelled :: nat
  rs_total_revenue :: rat

definition rentals_summary :: "database \<Rightarrow> rentals_summary" where
  "rentals_summary db =
     \<lparr>rs_active = count_rows (\<lambda>r. r_status r = ACTIVE) (rentals db),
      rs_completed = count_rows (\<lambda>r. r_status r = COMPLETED) (rentals db),
      rs_cancelled = count_rows (\<lambda>r. r_status r = CANCELLED) (rentals db),
      rs_total_revenue = py_round2 (py_sum (map completed_rental_revenue (select_rows (\<lambda>r. r_status r = COMPLETED) (rentals db))))\<rparr>"

definition read_rental :: "database \<Rightarrow> int \<Rightarrow> rental_read result" where
  "read_rental db rental_id = (case get_row r_id (rentals db) rental_id of
       None \<Rightarrow> Inl (HTTPException 404 ''Rental not found'') | Some x \<Rightarrow> Inr \<lparr>rr_rental = x, rr_cost = None\<rparr>)"

section \<open>The logged-in account\<close>

definition renter_of :: "database \<Rightarrow> user \<Rightarrow> renter option result" where
  "renter_of db u = scalar_one_or_none (select_rows (\<lambda>r. rt_user_id r = Some (u_id u)) (renters db))"

definition my_renter_profile :: "database \<Rightarrow> user \<Rightarrow> renter result" where
  "my_renter_profile db u = bind_result (renter_of db u) (\<lambda>r. case r of
       None \<Rightarrow> Inl (NotFoundError ''Renter profile not found'') | Some x \<Rightarrow> Inr x)"

definition my_rentals :: "instant \<Rightarrow> database \<Rightarrow> user \<Rightarrow> rental_read list result" where
  "my_rentals now db u = bind_result (renter_of db u) (\<lambda>r. case r of
       None \<Rightarrow> Inr []
     | Some x \<Rightarrow> Inr (map (rental_with_cost now)
         (sort_key (\<lambda>r. - r_started_at r) (select_rows (\<lambda>r. r_renter_id r = rt_id x) (rentals db)))))"

section \<open>The requests that change the fleet\<close>

text \<open>Redis got the invalidation, even if its reply was lost.\<close>

definition delivered :: "fault \<Rightarrow> bool" where
  "delivered f = (case f of No_fault \<Rightarrow> True | Before _ \<Rightarrow> False | After e \<Rightarrow> RedisError e)"

inductive fleet_step ::
  "settings \<Rightarrow> (station list \<Rightarrow> string) \<Rightarrow> (vehicle list \<Rightarrow> string) \<Rightarrow> database \<times> redis \<Rightarrow> database \<times> redis \<Rightarrow> bool"
  for s dump_st dump_v where
  station_created: "delivered f \<Longrightarrow> fleet_step s dump_st dump_v st (snd (create_station f address capacity st))"
| vehicle_created: "delivered f \<Longrightarrow> fleet_step s dump_st dump_v st (snd (create_vehicle f plate model station_id st))"
| renter_created: "fleet_step s dump_st dump_v st (snd (create_renter name licence (fst st)), snd st)"
| rental_started: "delivered f \<Longrightarrow> fleet_step s dump_st dump_v st (snd (start_rental_request f renter_id vehicle_id now st))"
| rental_ended: "delivered f \<Longrightarrow> fleet_step s dump_st dump_v st (snd (end_rental_request f rental_id station_id now st))"
| stations_listed: "redis_fault f \<Longrightarrow> redis_fault g \<Longrightarrow> fleet_step s dump_st dump_v st (snd (list_stations s dump_st f g now st))"
| vehicles_listed: "redis_fault f \<Longrightarrow> redis_fault g \<Longrightarrow> fleet_step s dump_st dump_v st (snd (list_vehicles s dump_v f g now st))"

inductive_cases fleet_stepE: "fleet_step s dump_st dump_v st st'"

definition current_entry :: "redis \<Rightarrow> string \<Rightarrow> string \<Rightarrow> bool" where
  "current_entry r key body = (case r key of None \<Rightarrow> True | Some e \<Rightarrow> e_value e = Str body)"

definition fleet_inv :: "(station list \<Rightarrow> string) \<Rightarrow> (vehicle list \<Rightarrow> string) \<Rightarrow> database \<times> redis \<Rightarrow> bool" where
  "fleet_inv dump_st dump_v st =
     (fleet_ok (fst st) \<and>
      current_entry (snd st) STATIONS_LIST_KEY (dump_st (stations_by_id (fst st))) \<and>
      current_entry (snd st) VEHICLES_LIST_KEY (dump_v (vehicles_by_id (fst st))))"

lemma list_keys [simp]: "STATIONS_LIST_KEY \<noteq> VEHICLES_LIST_KEY" "VEHICLES_LIST_KEY \<noteq> STATIONS_LIST_KEY"
  by (simp_all add: STATIONS_LIST_KEY_def VEHICLES_LIST_KEY_def)

lemma current_entry_coherent: "current_entry r key body \<Longrightarrow> coherent r key body now"
  by (auto simp: current_entry_def coherent_def live_def split: option.splits)

lemma invalidate_delivered:
  "delivered f \<Longrightarrow> invalidate f r [key] = (Inr (), r(key := None))"
  by (cases f) (auto simp: delivered_def invalidate_def redis_delete_def redis_write_def)

lemma read_through_entry:
  assumes "redis_fault f" "redis_fault g" "current_entry r key (dump loaded)"
  shows "\<exists>r'. read_through_json s f g r key dump loaded now = (Inr (dump loaded), r') \<and>
    current_entry r' key (dump loaded) \<and> (\<forall>k. k \<noteq> key \<longrightarrow> r' k = r k)"
proof -
  obtain body r' where r: "read_through_json s f g r key dump loaded now = (Inr body, r')"
    "body = dump loaded \<or> live r key now = Some (Str body)"
    "r' = r \<or> (body = dump loaded \<and> 0 < list_cache_ttl_seconds s \<and>
      r' = r(key \<mapsto> \<lparr>e_value = Str body, e_expires = Some (now + seconds (list_cache_ttl_seconds s))\<rparr>))"
    using read_through_spec[OF assms(1,2)] by blast
  have "body = dump loaded" using r(2) current_entry_coherent[OF assms(3), of now] by (auto simp: coherent_def)
  then show ?thesis using r assms(3) by (auto simp: current_entry_def)
qed

section \<open>Every request keeps the invariant\<close>

lemma fleet_ok_grow:
  assumes "fleet_ok db" "wf_table st_id (stations db')" "wf_table rt_id (renters db')"
    and "\<And>i. has_id st_id (stations db) i \<Longrightarrow> has_id st_id (stations db') i"
    and "\<And>i. has_id rt_id (renters db) i \<Longrightarrow> has_id rt_id (renters db') i"
    and "vehicles db' = vehicles db" "rentals db' = rentals db"
  shows "fleet_ok db'"
proof -
  have "rental_ok db' r" if "rental_ok db r" for r
    using that by (rule rental_ok_mono) (simp_all add: assms(4-7))
  then show ?thesis using assms
    by (auto simp: fleet_ok_def keys_ok_def refs_ok_def active_ok_def active_count_def list_all_iff)
qed

lemma fleet_ok_new_vehicle:
  assumes "fleet_ok db" "vehicle_ok db (new_vehicle plate model station_id (next_id (vehicles db)))"
  shows "fleet_ok (db\<lparr>vehicles := append_row (new_vehicle plate model station_id) (vehicles db)\<rparr>)" (is "fleet_ok ?db'")
proof -
  have wf: "wf_table v_id (vehicles db)" using assms(1) by (simp add: fleet_ok_def keys_ok_def)
  have "rental_ok ?db' r" if "rental_ok db r" for r
    using that by (rule rental_ok_mono) (simp_all add: has_id_append)
  moreover have "active_count db (next_id (vehicles db)) = 0"
  proof -
    have "r_vehicle_id r \<noteq> next_id (vehicles db)" if "r \<in> set (rows (rentals db))" for r
    proof -
      have "has_id v_id (vehicles db) (r_vehicle_id r)"
        using that assms(1) by (auto simp: fleet_ok_def refs_ok_def list_all_iff rental_ok_def)
      then show ?thesis using wf by (auto simp: has_id_iff wf_table_def list_all_iff)
    qed
    then show ?thesis by (auto simp: active_count_def count_rows_def select_rows_def filter_empty_conv)
  qed
  moreover have "has_id st_id (stations db) station_id" using assms(2) by (simp add: vehicle_ok_def new_vehicle_def)
  moreover have "wf_table v_id (append_row (new_vehicle plate model station_id) (vehicles db))"
    using wf by (rule wf_table_append) (simp add: new_vehicle_def)
  moreover have "active_count ?db' i = active_count db i" for i by (simp add: active_count_def)
  ultimately show ?thesis using assms(1)
    by (auto simp: fleet_ok_def keys_ok_def refs_ok_def active_ok_def rows_append list_all_iff new_vehicle_def)
qed

lemma fleet_ok_burn_vehicles: "fleet_ok db \<Longrightarrow> fleet_ok (db\<lparr>vehicles := burn_id (vehicles db)\<rparr>)"
proof -
  assume ok: "fleet_ok db"
  have "rental_ok (db\<lparr>vehicles := burn_id (vehicles db)\<rparr>) = rental_ok db"
    by (rule ext) (auto simp: rental_ok_def split: option.split)
  then show ?thesis using ok
    by (simp add: fleet_ok_def keys_ok_def refs_ok_def active_ok_def active_count_def rows_burn wf_table_burn)
qed

lemma create_station_inv:
  assumes "fleet_inv dump_st dump_v st" "delivered f"
  shows "fleet_inv dump_st dump_v (snd (create_station f address capacity st))"
proof -
  let ?mk = "new_station address capacity" and ?db = "fst st"
  have ok: "fleet_ok ?db" and wf: "wf_table st_id (stations ?db)" "wf_table rt_id (renters ?db)"
    using assms(1) by (auto simp: fleet_inv_def fleet_ok_def keys_ok_def)
  have grow: "fleet_ok (?db\<lparr>stations := append_row ?mk (stations ?db)\<rparr>)" "fleet_ok (?db\<lparr>stations := burn_id (stations ?db)\<rparr>)"
    using wf by (auto intro!: fleet_ok_grow[OF ok] has_id_append wf_table_append wf_table_burn simp: new_station_def)
  show ?thesis
    by (rule insert_row_cases[of station_fits "\<lambda>_. True" ?mk "stations ?db"])
       (use assms grow in \<open>auto simp: create_station_def invalidate_delivered fleet_inv_def current_entry_def
          stations_by_id_def vehicles_by_id_def rows_burn\<close>)
qed

lemma create_vehicle_inv:
  assumes "fleet_inv dump_st dump_v st" "delivered f"
  shows "fleet_inv dump_st dump_v (snd (create_vehicle f plate model station_id st))"
proof (cases "get_station (fst st) station_id")
  case (Inl e)
  then show ?thesis using assms(1) by (simp add: create_vehicle_def)
next
  case (Inr x)
  have ok: "fleet_ok (fst st)" using assms(1) by (simp add: fleet_inv_def)
  show ?thesis
    by (rule insert_row_cases[of vehicle_fits "vehicle_ok (fst st)" "new_vehicle plate model station_id" "vehicles (fst st)"])
       (use assms fleet_ok_burn_vehicles[OF ok] fleet_ok_new_vehicle[OF ok, of plate model station_id] Inr in
        \<open>auto simp: create_vehicle_def invalidate_delivered fleet_inv_def current_entry_def stations_by_id_def vehicles_by_id_def rows_burn\<close>)
qed

lemma create_renter_inv:
  assumes "fleet_inv dump_st dump_v st"
  shows "fleet_inv dump_st dump_v (snd (create_renter name licence (fst st)), snd st)"
proof -
  let ?db = "fst st" and ?mk = "new_renter name licence None"
  have ok: "fleet_ok ?db" and wf: "wf_table st_id (stations ?db)" "wf_table rt_id (renters ?db)"
    using assms by (auto simp: fleet_inv_def fleet_ok_def keys_ok_def)
  have grow: "fleet_ok (?db\<lparr>renters := append_row ?mk (renters ?db)\<rparr>)" "fleet_ok (?db\<lparr>renters := burn_id (renters ?db)\<rparr>)"
    using wf by (auto intro!: fleet_ok_grow[OF ok] has_id_append wf_table_append wf_table_burn simp: new_renter_def)
  show ?thesis
    by (rule insert_row_cases[of renter_fits "renter_ok ?db" ?mk "renters ?db"])
       (use assms grow in \<open>auto simp: create_renter_def fleet_inv_def stations_by_id_def vehicles_by_id_def\<close>)
qed

lemma start_rental_frame:
  "stations (snd (start_rental db i v now)) = stations db"
  "fst (start_rental db i v now) = Inl e \<Longrightarrow> vehicles (snd (start_rental db i v now)) = vehicles db"
  by (rule start_rental_cases[of db i v now]; simp)+

lemma end_rental_frame:
  "stations (snd (end_rental db i v now)) = stations db"
  "fst (end_rental db i v now) = Inl e \<Longrightarrow> vehicles (snd (end_rental db i v now)) = vehicles db"
  by (rule end_rental_cases[of db i v now]; simp)+

lemma start_request_inv:
  assumes "fleet_inv dump_st dump_v st" "delivered f"
  shows "fleet_inv dump_st dump_v (snd (start_rental_request f i v now st))"
proof -
  obtain res db where s: "start_rental (fst st) i v now = (res, db)" by (cases "start_rental (fst st) i v now")
  have "fleet_ok db" using start_rental_fleet_ok[of "fst st" i v now] s assms(1) by (simp add: fleet_inv_def)
  then show ?thesis using assms s start_rental_frame[of "fst st" i v now]
    by (cases res) (auto simp: start_rental_request_def invalidate_delivered fleet_inv_def current_entry_def stations_by_id_def vehicles_by_id_def)
qed

lemma end_request_inv:
  assumes "fleet_inv dump_st dump_v st" "delivered f"
  shows "fleet_inv dump_st dump_v (snd (end_rental_request f i v now st))"
proof -
  obtain res db where s: "end_rental (fst st) i v now = (res, db)" by (cases "end_rental (fst st) i v now")
  have "fleet_ok db" using end_rental_fleet_ok[of "fst st" i v now] s assms(1) by (simp add: fleet_inv_def)
  then show ?thesis using assms s end_rental_frame[of "fst st" i v now]
    by (cases res) (auto simp: end_rental_request_def invalidate_delivered fleet_inv_def current_entry_def stations_by_id_def
        vehicles_by_id_def split: option.split)
qed

lemma list_requests_inv:
  assumes "fleet_inv dump_st dump_v st" "redis_fault f" "redis_fault g"
  shows "fleet_inv dump_st dump_v (snd (list_stations s dump_st f g now st))"
    "fleet_inv dump_st dump_v (snd (list_vehicles s dump_v f g now st))"
proof -
  obtain r where "read_through_json s f g (snd st) STATIONS_LIST_KEY dump_st (stations_by_id (fst st)) now = (Inr (dump_st (stations_by_id (fst st))), r)"
    "current_entry r STATIONS_LIST_KEY (dump_st (stations_by_id (fst st)))" "\<forall>k. k \<noteq> STATIONS_LIST_KEY \<longrightarrow> r k = snd st k"
    using read_through_entry[OF assms(2,3)] assms(1) by (metis fleet_inv_def)
  then show "fleet_inv dump_st dump_v (snd (list_stations s dump_st f g now st))"
    using assms(1) by (simp add: fleet_inv_def list_stations_def current_entry_def)
  obtain r where "read_through_json s f g (snd st) VEHICLES_LIST_KEY dump_v (vehicles_by_id (fst st)) now = (Inr (dump_v (vehicles_by_id (fst st))), r)"
    "current_entry r VEHICLES_LIST_KEY (dump_v (vehicles_by_id (fst st)))" "\<forall>k. k \<noteq> VEHICLES_LIST_KEY \<longrightarrow> r k = snd st k"
    using read_through_entry[OF assms(2,3)] assms(1) by (metis fleet_inv_def)
  then show "fleet_inv dump_st dump_v (snd (list_vehicles s dump_v f g now st))"
    using assms(1) by (simp add: fleet_inv_def list_vehicles_def current_entry_def)
qed

interpretation fleet: transition_system "fleet_step s dump_st dump_v" "fleet_inv dump_st dump_v" for s dump_st dump_v
proof
  fix st st'
  assume "fleet_inv dump_st dump_v st" "fleet_step s dump_st dump_v st st'"
  then show "fleet_inv dump_st dump_v st'"
    by (auto elim!: fleet_stepE intro: create_station_inv create_vehicle_inv create_renter_inv start_request_inv end_request_inv list_requests_inv)
qed

lemma count_by_key:
  assumes "distinct ks" "\<And>x. x \<in> set xs \<Longrightarrow> P x \<Longrightarrow> key x \<in> set ks"
  shows "length (filter P xs) = (\<Sum>k\<leftarrow>ks. length (filter (\<lambda>x. key x = k \<and> P x) xs))"
  using assms(2)
proof (induction xs)
  case (Cons x xs)
  have one: "(\<Sum>k\<leftarrow>ks. if key x = k then 1 else 0 :: nat) = 1" if "key x \<in> set ks"
    using assms(1) that by (induction ks) auto
  have split: "(\<Sum>k\<leftarrow>ks. length (filter (\<lambda>y. key y = k \<and> P y) (x # xs))) =
      (\<Sum>k\<leftarrow>ks. if key x = k \<and> P x then 1 else 0) + (\<Sum>k\<leftarrow>ks. length (filter (\<lambda>y. key y = k \<and> P y) xs))"
    unfolding sum_list_addf[symmetric] by (intro arg_cong[of _ _ sum_list] map_cong) auto
  show ?case
  proof (cases "P x")
    case True
    then show ?thesis unfolding split using Cons one by simp
  next
    case False
    then show ?thesis unfolding split using Cons by simp
  qed
qed simp

section \<open>Properties\<close>

text \<open>
  C6: the fleet stays consistent and the public lists current. In every state that
  any sequence of requests reaches from an empty system (stations, vehicles and
  renters created, rentals started and ended, lists read with any Redis faults,
  refused requests included, as long as invalidations get through), the fleet
  invariant holds (unique keys, no dangling reference, a vehicle is rented exactly
  while one active rental holds it), and the two list endpoints answer with the
  current contents of the database, whatever Redis faults hit them.
\<close>

theorem fleet_reachable_consistent:
  assumes "(fleet_step s dump_st dump_v)\<^sup>*\<^sup>* (empty_db, Map.empty) (db, r)" and "redis_fault f" and "redis_fault g"
  shows "fleet_ok db \<and>
    fst (list_stations s dump_st f g now (db, r)) = Inr (dump_st (sort_key st_id (rows (stations db)))) \<and>
    fst (list_vehicles s dump_v f g now (db, r)) = Inr (dump_v (sort_key v_id (rows (vehicles db))))"
proof -
  have "fleet_inv dump_st dump_v (empty_db, Map.empty)" by (simp add: fleet_inv_def fleet_ok_empty current_entry_def)
  then have inv: "fleet_inv dump_st dump_v (db, r)" using fleet.reach_inv[OF assms(1)] by blast
  obtain r1 where "read_through_json s f g r STATIONS_LIST_KEY dump_st (stations_by_id db) now = (Inr (dump_st (stations_by_id db)), r1)"
    using read_through_entry[OF assms(2,3), of r STATIONS_LIST_KEY dump_st "stations_by_id db" s now] inv by (auto simp: fleet_inv_def)
  moreover obtain r2 where "read_through_json s f g r VEHICLES_LIST_KEY dump_v (vehicles_by_id db) now = (Inr (dump_v (vehicles_by_id db)), r2)"
    using read_through_entry[OF assms(2,3), of r VEHICLES_LIST_KEY dump_v "vehicles_by_id db" s now] inv by (auto simp: fleet_inv_def)
  ultimately show ?thesis using inv by (simp add: fleet_inv_def list_stations_def list_vehicles_def stations_by_id_def vehicles_by_id_def)
qed

theorem fleet_reachable_consistent_witness:
  "\<exists>db r. (fleet_step (default_settings ''x'') (\<lambda>xs. ''s'') (\<lambda>xs. ''v''))\<^sup>*\<^sup>* (empty_db, Map.empty) (db, r) \<and>
     rows (stations db) = [new_station ''Main St'' 3 1] \<and> fleet_ok db \<and>
     fst (list_stations (default_settings ''x'') (\<lambda>xs. ''s'') No_fault (Before RedisTimeoutError) 5 (db, r)) = Inr ''s''"
proof -
  let ?st = "snd (create_station No_fault ''Main St'' 3 (empty_db, Map.empty))"
  have "fleet_step (default_settings ''x'') (\<lambda>xs. ''s'') (\<lambda>xs. ''v'') (empty_db, Map.empty) ?st"
    by (rule station_created) (simp add: delivered_def)
  then have reach: "(fleet_step (default_settings ''x'') (\<lambda>xs. ''s'') (\<lambda>xs. ''v''))\<^sup>*\<^sup>* (empty_db, Map.empty) (fst ?st, snd ?st)" by simp
  have rows: "rows (stations (fst ?st)) = [new_station ''Main St'' 3 1]"
    by (simp add: create_station_def insert_row_def Let_def station_fits_def new_station_def int4_def empty_db_def empty_table_def
        append_row_def invalidate_delivered delivered_def)
  show ?thesis
    using reach rows fleet_reachable_consistent[OF reach, of No_fault "Before RedisTimeoutError" 5]
    by (intro exI[of _ "fst ?st"] exI[of _ "snd ?st"]) (simp add: redis_fault_def RedisError_def)
qed

text \<open>
  The rental statistics match the fleet. The three counts of the summary add
  up to the number of rentals, and the number of active rentals it reports is the
  number of vehicles whose status is rented.
\<close>

lemma rentals_summary_matches_fleet:
  assumes "fleet_ok db"
  shows "rs_active (rentals_summary db) + rs_completed (rentals_summary db) + rs_cancelled (rentals_summary db) = length (rows (rentals db)) \<and>
    rs_active (rentals_summary db) = count_rows (\<lambda>v. v_status v = RENTED) (vehicles db)"
proof
  have "length (filter (\<lambda>r. r_status r = ACTIVE) rs) + length (filter (\<lambda>r. r_status r = COMPLETED) rs) +
      length (filter (\<lambda>r. r_status r = CANCELLED) rs) = length rs" for rs
  proof (induction rs)
    case (Cons r rs)
    then show ?case by (cases "r_status r") auto
  qed simp
  then show "rs_active (rentals_summary db) + rs_completed (rentals_summary db) + rs_cancelled (rentals_summary db) = length (rows (rentals db))"
    by (simp add: rentals_summary_def count_rows_def select_rows_def)
  have wf: "distinct (map v_id (rows (vehicles db)))" using assms by (simp add: fleet_ok_def keys_ok_def wf_table_def)
  have "r_vehicle_id r \<in> set (map v_id (rows (vehicles db)))" if "r \<in> set (rows (rentals db))" for r
    using that assms by (force simp: fleet_ok_def refs_ok_def list_all_iff rental_ok_def has_id_iff)
  then have "count_rows (\<lambda>r. r_status r = ACTIVE) (rentals db) = (\<Sum>k\<leftarrow>map v_id (rows (vehicles db)). active_count db k)"
    unfolding count_rows_def select_rows_def active_count_def by (intro count_by_key[OF wf]) blast
  also have "\<dots> = (\<Sum>v\<leftarrow>rows (vehicles db). if v_status v = RENTED then 1 else 0)"
    using assms by (auto simp: fleet_ok_def active_ok_def list_all_iff o_def intro!: arg_cong[of _ _ sum_list] map_cong)
  also have "\<dots> = count_rows (\<lambda>v. v_status v = RENTED) (vehicles db)"
  proof -
    have "(\<Sum>v\<leftarrow>vs. if v_status v = RENTED then 1 else 0) = length (filter (\<lambda>v. v_status v = RENTED) vs)" for vs :: "vehicle list"
      by (induction vs) auto
    then show ?thesis by (simp add: count_rows_def select_rows_def)
  qed
  finally show "rs_active (rentals_summary db) = count_rows (\<lambda>v. v_status v = RENTED) (vehicles db)" by (simp add: rentals_summary_def)
qed

end
