(* ===== verification/PrivacyApi.thy ===== *)
theory PrivacyApi
  imports Export FleetApi
begin

text \<open>
  \<open>privacy/correlation.py\<close>, the handlers of \<open>api/auth.py\<close>, \<open>api/admin.py\<close> and
  \<open>api/privacy.py\<close>, and the error handlers and application factory of \<open>main.py\<close>.
  Request bodies are the validated payloads; \<open>random_values\<close> holds what the erasure
  draws.
\<close>

section \<open>Correlation ids\<close>

definition id_char :: "char \<Rightarrow> bool" where
  "id_char c = (let k = of_char c :: nat in
     (65 \<le> k \<and> k \<le> 90) \<or> (97 \<le> k \<and> k \<le> 122) \<or> (48 \<le> k \<and> k \<le> 57) \<or> c = CHR ''.'' \<or> c = CHR ''_'' \<or> c = CHR ''-'')"

definition well_formed_id :: "string \<Rightarrow> bool" where
  "well_formed_id s = (list_all id_char s \<and> 1 \<le> length s \<and> length s \<le> 64)"

text \<open>
  \<open>_VALID_ID_RE.match\<close>: in Python, \<open>$\<close> matches at the end of the string and also
  just before a newline that ends it.
\<close>

definition VALID_ID_RE_match :: "string \<Rightarrow> bool" where
  "VALID_ID_RE_match s = (well_formed_id s \<or> (s \<noteq> [] \<and> last s = CHR 0x0A \<and> well_formed_id (butlast s)))"

definition accept_or_generate :: "string \<Rightarrow> string option \<Rightarrow> string" where
  "accept_or_generate uuid_hex incoming = (case incoming of
       None \<Rightarrow> uuid_hex
     | Some s \<Rightarrow> if s \<noteq> [] \<and> VALID_ID_RE_match s then s else uuid_hex)"

definition current_correlation_id :: "string \<Rightarrow> string option \<Rightarrow> string" where
  "current_correlation_id uuid_hex var = (case var of None \<Rightarrow> uuid_hex | Some s \<Rightarrow> if s = [] then uuid_hex else s)"

text \<open>A header value holds no newline, so that an id that is in use fits its column.\<close>

lemma accepted_id_length:
  assumes "well_formed_id generated" "case incoming of None \<Rightarrow> True | Some s \<Rightarrow> CHR 0x0A \<notin> set s"
  shows "length (accept_or_generate generated incoming) \<le> 64"
proof -
  have "last s \<in> set s" if "s \<noteq> []" for s :: string using that by simp
  moreover have "CHR 0x0A \<notin> set s" if "incoming = Some s" for s using assms(2) that by simp
  ultimately have "last s \<noteq> CHR 0x0A" if "incoming = Some s" "s \<noteq> []" for s using that by metis
  then show ?thesis using assms(1)
    by (cases incoming) (auto simp: accept_or_generate_def VALID_ID_RE_match_def well_formed_id_def)
qed

section \<open>Accounts over HTTP\<close>

record user_register =
  ur_email :: string
  ur_password :: string
  ur_full_name :: string
  ur_phone :: "string option"

definition register :: "(string \<Rightarrow> string) \<Rightarrow> user_register \<Rightarrow> instant \<Rightarrow> database \<Rightarrow> user result \<times> database" where
  "register hash_password p now db =
     create_user hash_password db (ur_email p) (ur_password p) (ur_full_name p) USER (ur_phone p) now"

text \<open>The router of \<open>api/admin.py\<close> puts \<open>require_admin\<close> before its handlers; \<open>actor\<close> is the user of the token.\<close>

definition create_admin :: "(string \<Rightarrow> string) \<Rightarrow> user \<Rightarrow> user_register \<Rightarrow> instant \<Rightarrow> database \<Rightarrow> user result \<times> database" where
  "create_admin hash_password actor p now db = (case require_admin actor of
       Inl e \<Rightarrow> (Inl e, db)
     | Inr _ \<Rightarrow> create_user hash_password db (ur_email p) (ur_password p) (ur_full_name p) ADMIN None now)"

definition list_users :: "user \<Rightarrow> database \<Rightarrow> user list result" where
  "list_users actor db = bind_result (require_admin actor) (\<lambda>_. Inr (sort_key u_id (rows (users db))))"

fun HOME_URLS :: "user_role \<Rightarrow> string" where
  "HOME_URLS ADMIN = ''/home/admin''"
| "HOME_URLS USER = ''/home/user''"

record 't token =
  tk_access_token :: 't
  tk_role :: user_role
  tk_home_url :: string

definition login ::
  "(string \<Rightarrow> string) \<Rightarrow> (string \<Rightarrow> string \<Rightarrow> bool) \<Rightarrow> (jwt_claims \<Rightarrow> string option \<Rightarrow> string \<Rightarrow> 't result) \<Rightarrow> settings \<Rightarrow>
     string \<Rightarrow> string \<Rightarrow> string option \<Rightarrow> string option \<Rightarrow> instant \<Rightarrow> database \<Rightarrow> 't token result \<times> database" where
  "login hash_password verify_password jwt_encode s username password host user_agent now db =
     (case fst (authenticate hash_password verify_password db username password) of
        Inl e \<Rightarrow> (Inl e, db)
      | Inr None \<Rightarrow> (Inl (HTTPException 401 ''Incorrect email or password''), db)
      | Inr (Some u) \<Rightarrow>
          bind_db (record_activity db (u_id u) ''login'' host user_agent now) (\<lambda>_ db'.
            (bind_result (create_access_token jwt_encode s (u_id u) (role_value (u_role u)) None now)
               (\<lambda>t. Inr \<lparr>tk_access_token = t, tk_role = u_role u, tk_home_url = HOME_URLS (u_role u)\<rparr>), db')))"

section \<open>Privacy endpoints\<close>

record subject_access =
  sa_subject :: user
  sa_actor :: user
  sa_correlation_id :: string

text \<open>An id beyond 32 bits fails in the driver, in \<open>db.get\<close> as in the insertion of the audit row, before any statement runs.\<close>

definition subject_access :: "string \<Rightarrow> int \<Rightarrow> user \<Rightarrow> string \<Rightarrow> instant \<Rightarrow> database \<Rightarrow> subject_access result \<times> database" where
  "subject_access event_type user_id actor correlation_id now db =
     (if \<not> int4 user_id then (Inl DataError, db)
      else let allowed = (u_id actor = user_id \<or> u_role actor = ADMIN);
          subject = (if allowed then get_row u_id (users db) user_id else None)
      in case subject of
           None \<Rightarrow>
             bind_db (record_audit_event event_type (Some (u_id actor)) (Some user_id)
                 (if \<not> allowed then ''denied'' else ''not_found'') correlation_id now db)
               (\<lambda>_ db'. (Inl (NotFoundError ''User not found''), db'))
         | Some u \<Rightarrow> (Inr \<lparr>sa_subject = u, sa_actor = actor, sa_correlation_id = correlation_id\<rparr>, db))"

record consent_state_read =
  csr_purpose :: consent_purpose
  csr_status :: "consent_status option"
  csr_policy_version :: "string option"
  csr_granted_at :: "instant option"
  csr_withdrawn_at :: "instant option"
  csr_updated_at :: "instant option"
  csr_source :: "string option"
  csr_changed :: bool

definition consent_state_of :: "consent_purpose \<Rightarrow> consent_change \<Rightarrow> consent_state_read" where
  "consent_state_of purpose change = (case cc_consent change of
       None \<Rightarrow> \<lparr>csr_purpose = purpose, csr_status = None, csr_policy_version = None, csr_granted_at = None,
         csr_withdrawn_at = None, csr_updated_at = None, csr_source = None, csr_changed = cc_changed change\<rparr>
     | Some c \<Rightarrow> \<lparr>csr_purpose = purpose, csr_status = Some (c_status c), csr_policy_version = Some (c_policy_version c),
         csr_granted_at = c_granted_at c, csr_withdrawn_at = c_withdrawn_at c, csr_updated_at = Some (c_updated_at c),
         csr_source = Some (c_source c), csr_changed = cc_changed change\<rparr>)"

record random_values =
  rv_user_hex :: string
  rv_hashed :: string
  rv_renter_hex :: "int \<Rightarrow> string"

definition export_personal_data :: "subject_access \<Rightarrow> instant \<Rightarrow> database \<Rightarrow> personal_data_export result \<times> database" where
  "export_personal_data access now db =
     (case build_export db (sa_subject access) now of
        Inl e \<Rightarrow> (Inl e, db)
      | Inr export \<Rightarrow>
          bind_db (record_audit_event ''personal_data_export'' (Some (u_id (sa_actor access))) (Some (u_id (sa_subject access))) ''ok''
              (sa_correlation_id access) now db)
            (\<lambda>_ db'. (Inr export, db')))"

record anonymize_result =
  ar_subject_id :: int
  ar_status :: string
  ar_anonymized_at :: instant
  ar_actions :: "(string \<times> nat) list"

definition anonymize :: "random_values \<Rightarrow> subject_access \<Rightarrow> instant \<Rightarrow> instant \<Rightarrow> database \<Rightarrow> anonymize_result result \<times> database" where
  "anonymize rv access now now' db =
     bind_db (anonymize_user (rv_user_hex rv) (rv_hashed rv) (rv_renter_hex rv) db (u_id (sa_subject access)) (u_id (sa_actor access))
         (sa_correlation_id access) now now')
       (\<lambda>(subject, status, actions) db'. (case u_anonymized_at subject of
            None \<Rightarrow> Inl ValidationError
          | Some t \<Rightarrow> Inr \<lparr>ar_subject_id = u_id subject, ar_status = status, ar_anonymized_at = t, ar_actions = actions\<rparr>, db'))"

definition create_renter_profile :: "string \<Rightarrow> string \<Rightarrow> subject_access \<Rightarrow> database \<Rightarrow> int result \<times> database" where
  "create_renter_profile full_name license_number access db =
     (case insert_row renter_fits (renter_ok db) (new_renter full_name license_number (Some (u_id (sa_subject access)))) (renters db) of
        (Inl IntegrityError, t) \<Rightarrow> (Inl (HTTPException 409 ''Renter profile already exists or licence number is taken''), db\<lparr>renters := t\<rparr>)
      | (Inl e, t) \<Rightarrow> (Inl e, db\<lparr>renters := t\<rparr>)
      | (Inr r, t) \<Rightarrow> (Inr (rt_id r), db\<lparr>renters := t\<rparr>))"

definition list_consents :: "subject_access \<Rightarrow> database \<Rightarrow> consents_section" where
  "list_consents access db =
     \<lparr>cs_current = map consent_item_of (list_current db (u_id (sa_subject access))),
      cs_history = map history_item_of (list_history db (u_id (sa_subject access)))\<rparr>"

definition map_fst_result :: "('a \<Rightarrow> 'b) \<Rightarrow> 'a result \<times> database \<Rightarrow> 'b result \<times> database" where
  "map_fst_result f m = bind_db m (\<lambda>x db. (Inr (f x), db))"

definition grant_consent ::
  "consent_purpose \<Rightarrow> string \<Rightarrow> string \<Rightarrow> subject_access \<Rightarrow> instant \<Rightarrow> database \<Rightarrow> consent_state_read result \<times> database" where
  "grant_consent purpose policy_version source access now db =
     map_fst_result (consent_state_of purpose) (grant db (u_id (sa_subject access)) purpose policy_version source now)"

definition revoke_consent ::
  "consent_purpose \<Rightarrow> string option \<Rightarrow> subject_access \<Rightarrow> instant \<Rightarrow> database \<Rightarrow> consent_state_read result \<times> database" where
  "revoke_consent purpose payload_source access now db =
     map_fst_result (consent_state_of purpose)
       (revoke db (u_id (sa_subject access)) purpose (case payload_source of None \<Rightarrow> ''api'' | Some x \<Rightarrow> x) now)"

definition queue_marketing_email :: "string \<Rightarrow> subject_access \<Rightarrow> instant \<Rightarrow> database \<Rightarrow> (int \<times> marketing_status) result \<times> database" where
  "queue_marketing_email campaign access now db =
     map_fst_result (\<lambda>m. (m_id m, m_status m))
       (enqueue_marketing_email db (u_id (sa_subject access)) campaign (u_id (sa_actor access)) (sa_correlation_id access) now)"

definition track_analytics_event :: "string \<Rightarrow> subject_access \<Rightarrow> instant \<Rightarrow> database \<Rightarrow> int result \<times> database" where
  "track_analytics_event event_name access now db =
     map_fst_result an_id
       (record_analytics_event db (u_id (sa_subject access)) event_name (u_id (sa_actor access)) (sa_correlation_id access) now)"

definition dispatch_marketing :: "user \<Rightarrow> instant \<Rightarrow> database \<Rightarrow> dispatch_summary result \<times> database" where
  "dispatch_marketing actor now db = (case require_admin actor of
       Inl e \<Rightarrow> (Inl e, db)
     | Inr _ \<Rightarrow> dispatch_pending_marketing db now)"

text \<open>The requests on \<open>/api/users/{user_id}/...\<close>, each behind its own \<open>subject_access\<close>.\<close>

datatype privacy_request =
    Export_request | Anonymize_request | Renter_profile_request string string | Consents_request
  | Grant_request consent_purpose string string | Revoke_request consent_purpose "string option"
  | Marketing_request string | Analytics_request string

datatype privacy_response =
    Export_response personal_data_export | Anonymize_response anonymize_result | Renter_profile_response int
  | Consents_response consents_section | Consent_response consent_state_read
  | Marketing_response "int \<times> marketing_status" | Analytics_response int

fun event_type_of :: "privacy_request \<Rightarrow> string" where
  "event_type_of Export_request = ''personal_data_export''"
| "event_type_of Anonymize_request = ''user_anonymize''"
| "event_type_of (Renter_profile_request _ _) = ''renter_profile_create''"
| "event_type_of Consents_request = ''consent_list''"
| "event_type_of (Grant_request _ _ _) = ''consent_grant''"
| "event_type_of (Revoke_request _ _) = ''consent_revoke''"
| "event_type_of (Marketing_request _) = ''marketing_email_request''"
| "event_type_of (Analytics_request _) = ''analytics_event_request''"

fun privacy_handler :: "random_values \<Rightarrow> privacy_request \<Rightarrow> subject_access \<Rightarrow> instant \<Rightarrow> instant \<Rightarrow> database \<Rightarrow> privacy_response result \<times> database" where
  "privacy_handler rv Export_request access now now' db = map_fst_result Export_response (export_personal_data access now db)"
| "privacy_handler rv Anonymize_request access now now' db = map_fst_result Anonymize_response (anonymize rv access now now' db)"
| "privacy_handler rv (Renter_profile_request n l) access now now' db =
     map_fst_result Renter_profile_response (create_renter_profile n l access db)"
| "privacy_handler rv Consents_request access now now' db = (Inr (Consents_response (list_consents access db)), db)"
| "privacy_handler rv (Grant_request p v s) access now now' db = map_fst_result Consent_response (grant_consent p v s access now db)"
| "privacy_handler rv (Revoke_request p s) access now now' db = map_fst_result Consent_response (revoke_consent p s access now db)"
| "privacy_handler rv (Marketing_request c) access now now' db = map_fst_result Marketing_response (queue_marketing_email c access now db)"
| "privacy_handler rv (Analytics_request e) access now now' db = map_fst_result Analytics_response (track_analytics_event e access now db)"

definition serve_privacy ::
  "random_values \<Rightarrow> privacy_request \<Rightarrow> int \<Rightarrow> user \<Rightarrow> string \<Rightarrow> instant \<Rightarrow> instant \<Rightarrow> database \<Rightarrow> privacy_response result \<times> database" where
  "serve_privacy rv req user_id actor correlation_id now now' db =
     bind_db (subject_access (event_type_of req) user_id actor correlation_id now db)
       (\<lambda>access db'. privacy_handler rv req access now now' db')"

section \<open>Error handlers and the application\<close>

record http_response =
  hr_status :: nat
  hr_body :: "(string \<times> string) list"
  hr_headers :: "(string \<times> string) list"

definition DEPENDENCY_RETRY_AFTER_SECONDS :: int where
  "DEPENDENCY_RETRY_AFTER_SECONDS = 5"

definition detail_response :: "nat \<Rightarrow> string \<Rightarrow> http_response" where
  "detail_response status detail = \<lparr>hr_status = status, hr_body = [(''detail'', detail)], hr_headers = []\<rparr>"

fun error_response :: "string \<Rightarrow> exn \<Rightarrow> http_response" where
  "error_response request_id (NotFoundError m) = detail_response 404 m"
| "error_response request_id (VehicleNotAvailableError m) = detail_response 409 m"
| "error_response request_id (StationFullError m) = detail_response 409 m"
| "error_response request_id (EmailAlreadyRegisteredError m) = detail_response 409 m"
| "error_response request_id (ConsentDeniedError purpose reason) =
     \<lparr>hr_status = 403, hr_body = [(''decision'', ''DENY''), (''purpose'', purpose), (''reason'', reason)], hr_headers = []\<rparr>"
| "error_response request_id (DependencyUnavailableError m) =
     \<lparr>hr_status = 503, hr_body = [(''detail'', m)], hr_headers = [(''Retry-After'', str_int DEPENDENCY_RETRY_AFTER_SECONDS)]\<rparr>"
| "error_response request_id (HTTPException status m) = detail_response status m"
| "error_response request_id e =
     \<lparr>hr_status = 500, hr_body = [(''detail'', ''Internal server error''), (''request_id'', request_id)], hr_headers = []\<rparr>"

record application =
  app_debug :: bool
  docs_url :: "string option"
  redoc_url :: "string option"
  openapi_url :: "string option"

definition create_app :: "settings \<Rightarrow> application" where
  "create_app cfg =
     (let docs_enabled = \<not> is_production cfg
      in \<lparr>app_debug = debug cfg,
          docs_url = (if docs_enabled then Some ''/docs'' else None),
          redoc_url = (if docs_enabled then Some ''/redoc'' else None),
          openapi_url = (if docs_enabled then Some ''/openapi.json'' else None)\<rparr>)"

definition lifespan_start :: "settings \<Rightarrow> unit result" where
  "lifespan_start cfg = (case jwt_secret_key cfg of
       Some (_ # _) \<Rightarrow> Inr ()
     | _ \<Rightarrow> Inl (RuntimeError ''JWT_SECRET_KEY is not set; the API cannot issue access tokens''))"

section \<open>Properties\<close>

lemma event_type_fits: "length (event_type_of req) \<le> 64"
  by (cases req) simp_all

text \<open>
  C24: a stranger learns nothing about other accounts. On every privacy endpoint, a
  caller who is neither the subject nor an admin gets the 404 that an unknown id
  gets, whether or not the account exists, and the only effect is one audit row
  that records the denial; an admin asking for an id that does not exist gets the
  same response, with \<open>not_found\<close> on record. An id that no account can have, because it
  exceeds 32 bits, is answered with a 500, and nothing is recorded.
\<close>

theorem stranger_learns_nothing:
  assumes "u_id actor \<noteq> user_id \<or> get_row u_id (users db) user_id = None"
    and "u_role actor \<noteq> ADMIN \<or> get_row u_id (users db) user_id = None" and "length correlation_id \<le> 64"
  shows "serve_privacy rv req user_id actor correlation_id now now' db =
      (if int4 user_id
       then (Inl (NotFoundError ''User not found''),
         db\<lparr>audit_events := append_row (audit_row (event_type_of req) (Some (u_id actor)) (Some user_id)
           (if u_id actor \<noteq> user_id \<and> u_role actor \<noteq> ADMIN then ''denied'' else ''not_found'') correlation_id now) (audit_events db)\<rparr>)
       else (Inl DataError, db)) \<and>
    error_response request_id (NotFoundError ''User not found'') =
      \<lparr>hr_status = 404, hr_body = [(''detail'', ''User not found'')], hr_headers = []\<rparr> \<and>
    hr_status (error_response request_id DataError) = 500"
proof -
  have "(if u_id actor = user_id \<or> u_role actor = ADMIN then get_row u_id (users db) user_id else None) = None"
    using assms(1,2) by auto
  then show ?thesis using event_type_fits[of req] assms(3)
    by (auto simp: serve_privacy_def subject_access_def Let_def record_audit_event_def add_audit_event_ok detail_response_def)
qed

definition stranger :: user where
  "stranger = demo_user\<lparr>u_id := 5, u_email := ''eve@example.com''\<rparr>"

definition no_random :: random_values where
  "no_random = \<lparr>rv_user_hex = [], rv_hashed = [], rv_renter_hex = \<lambda>_. []\<rparr>"

theorem stranger_learns_nothing_witness:
  "fst (serve_privacy no_random Export_request 1 stranger ''c-1'' 3 3 erasure_demo_db) = Inl (NotFoundError ''User not found'') \<and>
   fst (serve_privacy no_random Export_request 77 stranger ''c-1'' 3 3 erasure_demo_db) = Inl (NotFoundError ''User not found'')"
  using stranger_learns_nothing[of stranger 1 erasure_demo_db "''c-1''" no_random Export_request 3 3]
    stranger_learns_nothing[of stranger 77 erasure_demo_db "''c-1''" no_random Export_request 3 3]
  by (simp add: stranger_def demo_user_def int4_def)

text \<open>
  What the correlation-id filter lets through. With a well-formed generated
  id, every id in use is well-formed (1 to 64 characters of the allowed set) except
  that a client id with one newline at its end is also accepted, since \<open>$\<close> matches
  before it; an id of 64 characters plus that newline is accepted and then makes
  the audit insert of the request fail with a data error.
\<close>

lemma correlation_id_shape:
  assumes "well_formed_id generated"
  shows "(well_formed_id (accept_or_generate generated incoming) \<or>
      (\<exists>t. well_formed_id t \<and> incoming = Some (t @ [CHR 0x0A]) \<and> accept_or_generate generated incoming = t @ [CHR 0x0A])) \<and>
    accept_or_generate generated (Some (replicate 64 CHR ''a'' @ [CHR 0x0A])) = replicate 64 CHR ''a'' @ [CHR 0x0A] \<and>
    fst (record_audit_event event_type actor subject result (replicate 64 CHR ''a'' @ [CHR 0x0A]) now db) = Inl DataError"
proof (intro conjI)
  show "well_formed_id (accept_or_generate generated incoming) \<or>
      (\<exists>t. well_formed_id t \<and> incoming = Some (t @ [CHR 0x0A]) \<and> accept_or_generate generated incoming = t @ [CHR 0x0A])"
  proof (cases incoming)
    case (Some s)
    show ?thesis
    proof (cases "s \<noteq> [] \<and> last s = CHR 0x0A \<and> well_formed_id (butlast s)")
      case True
      then have "s = butlast s @ [CHR 0x0A]" by (metis append_butlast_last_id)
      then show ?thesis using True Some by (intro disjI2 exI[of _ "butlast s"]) (simp add: accept_or_generate_def VALID_ID_RE_match_def)
    next
      case False
      then show ?thesis using Some assms by (auto simp: accept_or_generate_def VALID_ID_RE_match_def)
    qed
  qed (use assms in \<open>simp add: accept_or_generate_def\<close>)
  have "well_formed_id (replicate 64 CHR ''a'')" by (simp add: well_formed_id_def id_char_def list_all_iff)
  then show "accept_or_generate generated (Some (replicate 64 CHR ''a'' @ [CHR 0x0A])) = replicate 64 CHR ''a'' @ [CHR 0x0A]"
    by (simp add: accept_or_generate_def VALID_ID_RE_match_def)
  show "fst (record_audit_event event_type actor subject result (replicate 64 CHR ''a'' @ [CHR 0x0A]) now db) = Inl DataError"
    by (simp add: record_audit_event_def add_audit_event_def insert_row_def Let_def audit_fits_def audit_row_def)
qed

end
