(* ===== verification/AdminApi.thy ===== *)
theory AdminApi
  imports PrivacyApi
begin

text \<open>
  Who can become an administrator: \<open>cli.py\<close>, which bootstraps the first one from the
  console, the telemetry routes of \<open>api/vehicles.py\<close>, and the step relation of all the
  requests of the API. Lemmas: what each request keeps of the users table.
\<close>

section \<open>The telemetry routes\<close>

definition fleet_positions :: "user \<Rightarrow> database \<Rightarrow> redis \<Rightarrow> fault \<Rightarrow> instant \<Rightarrow> fleet_positions_read result" where
  "fleet_positions actor db r f now = bind_result (require_admin actor) (\<lambda>_. get_fleet_positions db r f now)"

definition vehicle_state_request ::
  "settings \<Rightarrow> database \<Rightarrow> redis \<Rightarrow> (int \<Rightarrow> fault) \<Rightarrow> int \<Rightarrow> (int \<Rightarrow> rat) \<Rightarrow> instant \<Rightarrow> vehicle_state_read result" where
  "vehicle_state_request s db r f vehicle_id rand now =
     bind_result (get_retry_policy s) (\<lambda>policy. get_vehicle_state db r f vehicle_id policy rand now)"

section \<open>The console\<close>

definition MIN_PASSWORD_LENGTH :: nat where "MIN_PASSWORD_LENGTH = 8"

text \<open>
  How the process ends: a line on the output, a message of \<open>sys.exit\<close> with status 1, or
  an exception that nothing catches. \<open>validate_email\<close> is pydantic's \<open>EmailStr\<close>, \<open>prompt\<close>
  what \<open>getpass\<close> reads.
\<close>

datatype console = Printed string | Exit string | Raised exn

definition create_admin_console :: "(string \<Rightarrow> string) \<Rightarrow> string \<Rightarrow> string \<Rightarrow> string \<Rightarrow> instant \<Rightarrow> database \<Rightarrow> string result \<times> database" where
  "create_admin_console hash_password email password full_name now db =
     bind_db (create_user hash_password db email password full_name ADMIN None now)
       (\<lambda>u db'. (Inr (''Admin created: id='' @ str_int (u_id u) @ '' email='' @ u_email u), db'))"

definition cli_main ::
  "(string \<Rightarrow> string option) \<Rightarrow> (string \<Rightarrow> string) \<Rightarrow> string \<Rightarrow> string option \<Rightarrow> string option \<Rightarrow> string \<Rightarrow> instant \<Rightarrow> database \<Rightarrow> console \<times> database" where
  "cli_main validate_email hash_password arg_email arg_full_name env_password prompt now db =
     (case validate_email arg_email of
        None \<Rightarrow> (Exit (''Invalid email address: '' @ arg_email), db)
      | Some email \<Rightarrow>
          (let password = (case env_password of None \<Rightarrow> prompt | Some p \<Rightarrow> if p = [] then prompt else p);
               full_name = (case arg_full_name of None \<Rightarrow> ''Administrator'' | Some n \<Rightarrow> n)
           in if length password < MIN_PASSWORD_LENGTH then (Exit (''Password must be at least 8 characters''), db)
              else (case create_admin_console hash_password email password full_name now db of
                      (Inr line, db') \<Rightarrow> (Printed line, db')
                    | (Inl (EmailAlreadyRegisteredError m), db') \<Rightarrow> (Exit m, db')
                    | (Inl e, db') \<Rightarrow> (Raised e, db'))))"

section \<open>The requests of the API\<close>

text \<open>
  One request on any of the routers. The actor of a request behind a token is what
  \<open>get_current_user\<close> finds for that token in the database of that moment.
\<close>

inductive api_step ::
  "(string \<Rightarrow> string) \<Rightarrow> (string \<Rightarrow> string \<Rightarrow> bool) \<Rightarrow> (jwt_claims \<Rightarrow> string option \<Rightarrow> string \<Rightarrow> 't result) \<Rightarrow>
     ('t \<Rightarrow> string option \<Rightarrow> string \<Rightarrow> instant \<Rightarrow> string result) \<Rightarrow> settings \<Rightarrow> (station list \<Rightarrow> string) \<Rightarrow> (vehicle list \<Rightarrow> string) \<Rightarrow>
     database \<times> redis \<Rightarrow> database \<times> redis \<Rightarrow> bool"
  for hash_password verify_password jwt_encode jwt_decode s dump_st dump_v where
  registered: "api_step hash_password verify_password jwt_encode jwt_decode s dump_st dump_v (db, r)
    (snd (register hash_password p now db), r)"
| logged_in: "api_step hash_password verify_password jwt_encode jwt_decode s dump_st dump_v (db, r)
    (snd (login hash_password verify_password jwt_encode s username password host agent now db), r)"
| admin_created: "get_current_user jwt_decode s db t now = Inr actor \<Longrightarrow>
    api_step hash_password verify_password jwt_encode jwt_decode s dump_st dump_v (db, r)
    (snd (create_admin hash_password actor p now db), r)"
| privacy_served: "get_current_user jwt_decode s db t now = Inr actor \<Longrightarrow>
    api_step hash_password verify_password jwt_encode jwt_decode s dump_st dump_v (db, r)
    (snd (serve_privacy rv req user_id actor correlation_id now now' db), r)"
| dispatched: "get_current_user jwt_decode s db t now = Inr actor \<Longrightarrow>
    api_step hash_password verify_password jwt_encode jwt_decode s dump_st dump_v (db, r)
    (snd (dispatch_marketing actor now db), r)"
| fleet_served: "fleet_step s dump_st dump_v (db, r) st \<Longrightarrow>
    api_step hash_password verify_password jwt_encode jwt_decode s dump_st dump_v (db, r) st"

inductive_cases api_stepE: "api_step hash_password verify_password jwt_encode jwt_decode s dump_st dump_v st st'"

section \<open>What the requests keep of the users\<close>

lemma users_bind_db:
  assumes "users (snd m) = t" "\<And>x db'. users db' = t \<Longrightarrow> users (snd (f x db')) = t"
  shows "users (snd (bind_db m f)) = t"
  using assms by (cases m; cases "fst m") auto

lemma users_map_fst_result: "users (snd m) = t \<Longrightarrow> users (snd (map_fst_result f m)) = t"
  unfolding map_fst_result_def by (rule users_bind_db) auto

lemma users_audit: "users (snd (record_audit_event et a sb res cid now db)) = users db"
  unfolding record_audit_event_def
  by (rule add_audit_event_cases[where et = et and r = res and cid = cid and a = a and s = sb and now = now and db = db]) auto

lemma users_activity: "users (snd (record_activity db u act host agent now)) = users db"
  by (auto simp: record_activity_def split: prod.splits sum.splits)

lemma users_write_consent: "users (snd (write_consent row hist db)) = users db"
  by (auto simp: write_consent_def split: prod.splits sum.splits)

lemma users_grant_once: "users (snd (grant_once seen db u p v src now)) = users db"
  by (auto simp: grant_once_def users_write_consent split: sum.splits option.splits)

lemma users_grant: "users (snd (grant db u p v src now)) = users db"
proof -
  obtain x db' where x: "grant_once db db u p v src now = (x, db')" by (cases "grant_once db db u p v src now")
  then have "users db' = users db" using users_grant_once by (metis snd_conv)
  then show ?thesis using x by (auto simp: grant_def grant_from_def users_grant_once split: sum.splits exn.splits)
qed

lemma users_revoke: "users (snd (revoke db u p src now)) = users db"
  by (auto simp: revoke_def users_write_consent split: sum.splits option.splits)

lemma users_require_consent: "users (snd (require_consent db u p a cid now)) = users db"
  by (auto simp: require_consent_def intro!: users_bind_db simp: users_audit split: sum.splits)

lemma users_enqueue: "users (snd (enqueue_marketing_email db u c a cid now)) = users db"
  unfolding enqueue_marketing_email_def
  by (rule users_bind_db[OF users_require_consent]) (auto split: prod.splits)

lemma users_analytics: "users (snd (record_analytics_event db u e a cid now)) = users db"
  unfolding record_analytics_event_def
  by (rule users_bind_db[OF users_require_consent]) (auto split: prod.splits)

lemma users_dispatch: "users (snd (dispatch_pending_marketing db now)) = users db"
  by (auto simp: dispatch_pending_marketing_def fold_do_apply split: sum.splits)

lemma users_export: "users (snd (export_personal_data access now db)) = users db"
  by (auto simp: export_personal_data_def intro!: users_bind_db simp: users_audit split: sum.splits)

lemma users_renter_profile: "users (snd (create_renter_profile n l access db)) = users db"
  by (auto simp: create_renter_profile_def split: prod.splits sum.splits exn.splits)

lemmas users_handlers = users_grant users_revoke users_enqueue users_analytics users_export users_renter_profile

lemma users_fleet_step:
  assumes "fleet_step s dump_st dump_v st st'"
  shows "users (fst st') = users (fst st)"
  using assms
proof cases
  case (station_created f address capacity)
  then show ?thesis by (auto simp: create_station_def split: prod.splits sum.splits)
next
  case (vehicle_created f plate model station_id)
  then show ?thesis by (auto simp: create_vehicle_def split: prod.splits sum.splits)
next
  case (renter_created name licence)
  then show ?thesis by (auto simp: create_renter_def split: prod.splits)
next
  case (rental_started f renter_id vehicle_id now)
  have "users (snd (start_rental (fst st) renter_id vehicle_id now)) = users (fst st)"
    by (rule start_rental_cases[of "fst st" renter_id vehicle_id now]; simp)
  then show ?thesis using rental_started by (auto simp: start_rental_request_def split: prod.splits sum.splits)
next
  case (rental_ended f rental_id station_id now)
  have "users (snd (end_rental (fst st) rental_id station_id now)) = users (fst st)"
    by (rule end_rental_cases[of "fst st" rental_id station_id now]; simp)
  then show ?thesis using rental_ended by (auto simp: end_rental_request_def split: prod.splits sum.splits option.splits)
next
  case (stations_listed f g now)
  then show ?thesis by (simp add: list_stations_def case_prod_beta)
next
  case (vehicles_listed f g now)
  then show ?thesis by (simp add: list_vehicles_def case_prod_beta)
qed

text \<open>The roles of the stored accounts, in the order of the rows.\<close>

definition roles :: "database \<Rightarrow> user_role list" where
  "roles db = map u_role (rows (users db))"

lemma roles_users: "users db' = users db \<Longrightarrow> roles db' = roles db"
  by (simp add: roles_def)

lemma roles_set_user: "(\<And>u. u_role (f u) = u_role u) \<Longrightarrow> map u_role (rows (set_row u_id i f t)) = map u_role (rows t)"
  by (simp add: rows_set)

lemma roles_anonymize_user: "roles (snd (anonymize_user uh hp rh db i a cid now now')) = roles db"
proof (cases "scalar_one_or_none (select_rows (\<lambda>u. u_id u = i) (users db))")
  case (Inr found)
  show ?thesis
  proof (cases found)
    case (Some u)
    show ?thesis
    proof (cases "u_anonymized_at u \<noteq> None \<or> (\<exists>e. erase uh hp rh now now' u db = Inl e)")
      case True
      have "users (snd (anonymize_user uh hp rh db i a cid now now')) = users db"
        using True Inr Some by (auto simp: anonymize_user_def users_audit intro!: users_bind_db)
      then show ?thesis by (rule roles_users)
    next
      case False
      then obtain actions staged where e: "erase uh hp rh now now' u db = Inr (actions, staged)" "u_anonymized_at u = None"
        by (cases "erase uh hp rh now now' u db") auto
      have "roles staged = roles db"
        using erase_frame(1)[OF e(1)] by (simp add: roles_def roles_set_user anonymize_user_row_def)
      then show ?thesis
        using Inr Some e
        by (cases rule: add_audit_event_cases[where et = EVENT_TYPE and a = "Some a" and s = "Some (u_id u)"
            and r = "''anonymized''" and cid = cid and now = now and db = staged])
           (simp_all add: anonymize_user_def rolled_back_def roles_def)
    qed
  qed (simp add: anonymize_user_def Inr)
qed (simp add: anonymize_user_def)

lemma roles_bind_db:
  assumes "roles (snd m) = t" "\<And>x db'. roles db' = t \<Longrightarrow> roles (snd (f x db')) = t"
  shows "roles (snd (bind_db m f)) = t"
  using assms by (cases m; cases "fst m") auto

lemma roles_anonymize: "roles (snd (anonymize rv access now now' db)) = roles db"
  unfolding anonymize_def by (rule roles_bind_db[OF roles_anonymize_user]) (simp add: case_prod_beta)

lemma roles_privacy_handler: "roles (snd (privacy_handler rv req access now now' db)) = roles db"
proof (cases req)
  case Anonymize_request
  have "roles (snd (map_fst_result Anonymize_response (anonymize rv access now now' db))) = roles db"
    unfolding map_fst_result_def by (rule roles_bind_db[OF roles_anonymize]) simp
  then show ?thesis by (simp add: Anonymize_request)
qed (auto simp: grant_consent_def revoke_consent_def queue_marketing_email_def track_analytics_event_def users_handlers
    intro!: roles_users users_map_fst_result)

lemma roles_serve_privacy: "roles (snd (serve_privacy rv req user_id actor cid now now' db)) = roles db"
proof -
  have "roles (snd (subject_access (event_type_of req) user_id actor cid now db)) = roles db"
    by (auto simp: subject_access_def Let_def intro!: roles_users users_bind_db users_audit split: option.splits)
  then show ?thesis unfolding serve_privacy_def by (rule roles_bind_db) (simp add: roles_privacy_handler)
qed

lemma roles_create_user:
  "roles (snd (create_user h db email pw name role phone now)) \<in> {roles db, roles db @ [role]}"
  by (rule create_user_cases[where h = h and db = db and email = email and pw = pw and name = name and role = role and phone = phone and now = now])
     (auto simp: roles_def rows_append rows_burn new_user_def)

lemma roles_login: "roles (snd (login h v enc s username password host agent now db)) = roles db"
  by (auto simp: login_def intro!: roles_users users_bind_db users_activity split: sum.splits option.splits)

lemma current_user_role:
  assumes "get_current_user jwt_decode s db t now = Inr actor"
  shows "u_role actor \<in> set (roles db)"
  using assms get_row_Some[of u_id "users db"]
  by (auto simp: get_current_user_def roles_def split: sum.splits exn.splits option.splits if_splits)

lemma roles_api_step:
  assumes "api_step hash_password verify_password jwt_encode jwt_decode s dump_st dump_v st st'"
  shows "roles (fst st') = roles (fst st) \<or> roles (fst st') = roles (fst st) @ [USER] \<or>
    (ADMIN \<in> set (roles (fst st)) \<and> roles (fst st') = roles (fst st) @ [ADMIN])"
  using assms
proof cases
  case (registered db r p now)
  then show ?thesis
    using roles_create_user[of hash_password db "ur_email p" "ur_password p" "ur_full_name p" USER "ur_phone p" now] by (auto simp: register_def)
next
  case (logged_in db r username password host agent now)
  then show ?thesis by (simp add: roles_login)
next
  case (admin_created db t now actor r p)
  then show ?thesis
    using current_user_role[OF admin_created(3)] roles_create_user[of hash_password db "ur_email p" "ur_password p" "ur_full_name p" ADMIN None now]
    by (auto simp: create_admin_def require_admin_def require_roles_def)
next
  case (privacy_served db t now actor r rv req user_id cid now')
  then show ?thesis by (simp add: roles_serve_privacy)
next
  case (dispatched db t now actor r)
  then show ?thesis by (auto simp: dispatch_marketing_def roles_def users_dispatch split: sum.splits)
next
  case (fleet_served db r)
  then show ?thesis using users_fleet_step by (fastforce simp: roles_def)
qed

interpretation api: transition_system "api_step hash_password verify_password jwt_encode jwt_decode s dump_st dump_v" "\<lambda>st. ADMIN \<notin> set (roles (fst st))"
  for hash_password verify_password jwt_encode jwt_decode s dump_st dump_v
  by unfold_locales (auto dest!: roles_api_step)

section \<open>The properties\<close>

text \<open>
  C8: no privilege escalation over HTTP. From a database without administrators, no sequence of requests (registrations,
  log-ins, every privacy request, every fleet request) makes one, and so, in every state reached, the live positions,
  the user list, the creation of administrators and the dispatch refuse every token with 403 and change nothing.
\<close>

theorem no_admin_without_admin:
  assumes "(api_step hash_password verify_password jwt_encode jwt_decode s dump_st dump_v)\<^sup>*\<^sup>* st (db, r)"
    and "\<forall>u \<in> set (rows (users (fst st))). u_role u \<noteq> ADMIN"
    and "get_current_user jwt_decode s db t now = Inr actor"
  shows "(\<forall>u \<in> set (rows (users db)). u_role u \<noteq> ADMIN) \<and>
    fleet_positions actor db r f now = Inl (HTTPException 403 ''Insufficient permissions'') \<and>
    list_users actor db = Inl (HTTPException 403 ''Insufficient permissions'') \<and>
    create_admin hash_password actor p now db = (Inl (HTTPException 403 ''Insufficient permissions''), db) \<and>
    dispatch_marketing actor now db = (Inl (HTTPException 403 ''Insufficient permissions''), db)"
proof -
  have none: "ADMIN \<notin> set (roles db)"
    using api.reach_inv[OF assms(1)] assms(2) by (fastforce simp: roles_def)
  then have "u_role actor \<noteq> ADMIN" using current_user_role[OF assms(3)] by auto
  moreover have "\<forall>u \<in> set (rows (users db)). u_role u \<noteq> ADMIN" using none by (force simp: roles_def)
  ultimately show ?thesis
    by (simp add: fleet_positions_def list_users_def create_admin_def dispatch_marketing_def require_admin_def require_roles_def)
qed

theorem no_admin_without_admin_witness:
  "\<exists>actor. get_current_user pair_decode production_settings accounts_demo_db
       (\<lparr>jwt_sub = ''1'', jwt_role = ''admin'', jwt_iat = 0, jwt_exp = minutes 30\<rparr>, ''0123456789012345678901234567890123'') 1000 = Inr actor \<and>
     fleet_positions actor accounts_demo_db Map.empty No_fault 1000 = Inl (HTTPException 403 ''Insufficient permissions'')"
proof -
  let ?p = "\<lparr>ur_email = ''ann@example.com'', ur_password = ''pw'', ur_full_name = ''Ann'', ur_phone = None\<rparr>"
  let ?h = "\<lambda>x. CHR ''h'' # x"
  let ?step = "api_step ?h (\<lambda>x h. h = CHR ''h'' # x) pair_encode pair_decode production_settings (\<lambda>_. []) (\<lambda>_. [])"
  have "?step (empty_db, Map.empty) (snd (register ?h ?p 0 empty_db), Map.empty)" by (rule api_step.registered)
  then have reach: "?step\<^sup>*\<^sup>* (empty_db, Map.empty) (accounts_demo_db, Map.empty)"
    by (simp add: register_def accounts_demo_db_def r_into_rtranclp)
  have none: "\<forall>u \<in> set (rows (users (fst (empty_db, Map.empty)))). u_role u \<noteq> ADMIN" by (simp add: empty_db_def rows_empty)
  have row: "get_row u_id (users accounts_demo_db) 1 = Some (new_user ''ann@example.com'' ''hpw'' ''Ann'' USER None 0 1)" by code_simp
  have tok: "get_current_user pair_decode production_settings accounts_demo_db
      (\<lparr>jwt_sub = str_int 1, jwt_role = ''admin'', jwt_iat = 0, jwt_exp = minutes 30\<rparr>, ''0123456789012345678901234567890123'') 1000 =
      Inr (new_user ''ann@example.com'' ''hpw'' ''Ann'' USER None 0 1)"
    by (simp add: get_current_user_def decode_access_token_def pair_decode_def row production_settings_def default_settings_def minutes_def new_user_def)
  have one: "str_int 1 = ''1''" by code_simp
  show ?thesis using no_admin_without_admin[OF reach none tok] tok unfolding one by blast
qed

text \<open>
  The console is the way to the first administrator, and no backdoor. An address that the API would refuse and a
  password under 8 characters (the environment's, or the typed one when that is unset or empty) end the command with
  nothing stored; a taken address likewise; otherwise the account is stored, found under its address, and an administrator.
\<close>

lemma console_creates_admin:
  assumes "accounts_ok db"
    and "pw = (case env_password of None \<Rightarrow> prompt | Some p \<Rightarrow> if p = [] then prompt else p)"
    and "\<forall>email. validate_email arg_email = Some email \<longrightarrow>
      user_fits (new_user email (hash_password pw) ''Administrator'' ADMIN None now (next_id (users db)))"
  shows "case validate_email arg_email of
      None \<Rightarrow> cli_main validate_email hash_password arg_email None env_password prompt now db = (Exit (''Invalid email address: '' @ arg_email), db)
    | Some email \<Rightarrow>
        if length pw < 8 then cli_main validate_email hash_password arg_email None env_password prompt now db =
          (Exit ''Password must be at least 8 characters'', db)
        else if normalize_email email \<in> u_email ` set (rows (users db))
        then (\<exists>m db'. cli_main validate_email hash_password arg_email None env_password prompt now db = (Exit m, db') \<and>
          rows (users db') = rows (users db))
        else (\<exists>line u db'. cli_main validate_email hash_password arg_email None env_password prompt now db = (Printed line, db') \<and>
          get_user_by_email db' email = Inr (Some u) \<and> require_admin u = Inr u \<and> u_hashed_password u = hash_password pw \<and>
          roles db' = roles db @ [ADMIN])"
proof (cases "validate_email arg_email")
  case None
  then show ?thesis by (simp add: cli_main_def)
next
  case (Some email)
  have fits: "user_fits (new_user email (hash_password pw) ''Administrator'' ADMIN None now (next_id (users db)))"
    using assms(3) Some by simp
  let ?c = "create_user hash_password db email pw ''Administrator'' ADMIN None now"
  have main: "cli_main validate_email hash_password arg_email None env_password prompt now db =
      (if length pw < 8 then (Exit ''Password must be at least 8 characters'', db)
       else case create_admin_console hash_password email pw ''Administrator'' now db of
              (Inr line, db') \<Rightarrow> (Printed line, db')
            | (Inl (EmailAlreadyRegisteredError m), db') \<Rightarrow> (Exit m, db')
            | (Inl e, db') \<Rightarrow> (Raised e, db'))"
    unfolding cli_main_def assms(2) by (simp add: Some MIN_PASSWORD_LENGTH_def Let_def)
  show ?thesis
  proof (rule create_user_cases[where h = hash_password and db = db and email = email and pw = pw and name = "''Administrator''"
        and role = ADMIN and phone = None and now = now])
    let ?u = "new_user email (hash_password pw) ''Administrator'' ADMIN None now"
    let ?db = "db\<lparr>users := append_row ?u (users db)\<rparr>"
    assume c: "?c = (Inr (?u (next_id (users db))), ?db)" and new: "normalize_email email \<notin> u_email ` set (rows (users db))"
    have "accounts_ok ?db"
      using create_user_accounts_ok[OF assms(1), of hash_password email pw "''Administrator''" ADMIN None now] c by simp
    moreover have "find (\<lambda>u. u_email u = normalize_email email) (rows (users ?db)) = Some (?u (next_id (users db)))"
      using find_key_append_new[of u_email "?u (next_id (users db))" "rows (users db)" "normalize_email email"] new
      by (force simp: rows_append new_user_def find_None_iff)
    ultimately have "get_user_by_email ?db email = Inr (Some (?u (next_id (users db))))" using get_user_by_email_ok by simp
    then show ?thesis using Some main c new
      by (simp add: create_admin_console_def roles_def rows_append require_admin_def require_roles_def new_user_def)
  qed (use fits Some main in \<open>auto simp: create_admin_console_def rows_burn\<close>)
qed

end
