(* ===== verification/Requests.thy ===== *)
theory Requests
  imports AdminApi
begin

text \<open>
  The request bodies: the field constraints of \<open>schemas.py\<close> and \<open>schemas_privacy.py\<close>, and the
  endpoints of \<open>api/auth.py\<close>, \<open>api/admin.py\<close> and \<open>api/privacy.py\<close> with the validation that stands
  before their handlers. A body that breaks a constraint is answered with 422, after the
  dependencies of the route (token, role, subject access) had their say. Lemmas: what a
  validated body is worth to the column it ends in. No constraint keeps a NUL character out of
  a text, which PostgreSQL stores in no column: \<open>body_texts\<close> lists the texts of a body for the
  hypothesis that says so.
\<close>

section \<open>Field constraints\<close>

definition text_len :: "nat \<Rightarrow> nat \<Rightarrow> string \<Rightarrow> bool" where
  "text_len lo hi s = (lo \<le> length s \<and> length s \<le> hi)"

text \<open>
  The phone pattern: an optional plus sign, which the class of the digits does not hold,
  then 7 to 20 characters of the class; pydantic's patterns end at the end of the text.
\<close>

definition phone_char :: "char \<Rightarrow> bool" where
  "phone_char c = (digit_val c \<noteq> None \<or> c = CHR '' '' \<or> c = CHR ''('' \<or> c = CHR '')'' \<or> c = CHR ''-'')"

fun phone_pattern :: "string \<Rightarrow> bool" where
  "phone_pattern [] = False"
| "phone_pattern (c # cs) =
     (if c = CHR ''+'' then text_len 7 20 cs \<and> list_all phone_char cs
      else text_len 7 20 (c # cs) \<and> list_all phone_char (c # cs))"

text \<open>FastAPI's answer to a body that does not validate.\<close>

definition UNPROCESSABLE :: exn where
  "UNPROCESSABLE = HTTPException 422 ''Unprocessable Entity''"

text \<open>\<open>validate_email\<close> is pydantic's \<open>EmailStr\<close>: the address as it normalises it, or nothing.\<close>

definition UserRegister :: "(string \<Rightarrow> string option) \<Rightarrow> user_register \<Rightarrow> user_register result" where
  "UserRegister validate_email p =
     (case validate_email (ur_email p) of
        None \<Rightarrow> Inl UNPROCESSABLE
      | Some email \<Rightarrow>
          if text_len 8 128 (ur_password p) \<and> text_len 1 150 (ur_full_name p) \<and>
             (case ur_phone p of None \<Rightarrow> True | Some n \<Rightarrow> phone_pattern n)
          then Inr (p\<lparr>ur_email := email\<rparr>) else Inl UNPROCESSABLE)"

text \<open>Optional fields carry their defaults: \<open>source\<close> is \<open>api\<close> unless the body says otherwise.\<close>

definition source_or_api :: "string option \<Rightarrow> string" where
  "source_or_api s = (case s of None \<Rightarrow> ''api'' | Some x \<Rightarrow> x)"

definition RenterProfileRequest :: "string \<Rightarrow> string \<Rightarrow> bool" where
  "RenterProfileRequest full_name license_number = (text_len 1 150 full_name \<and> text_len 1 50 license_number)"

definition ConsentGrantRequest :: "string \<Rightarrow> string \<Rightarrow> bool" where
  "ConsentGrantRequest policy_version source = (text_len 1 20 policy_version \<and> text_len 1 50 source)"

definition ConsentRevokeRequest :: "string \<Rightarrow> bool" where
  "ConsentRevokeRequest source = text_len 1 50 source"

definition MarketingRequest :: "string \<Rightarrow> bool" where
  "MarketingRequest campaign = text_len 1 64 campaign"

definition AnalyticsRequest :: "string \<Rightarrow> bool" where
  "AnalyticsRequest event_name = text_len 1 64 event_name"

text \<open>A request as it arrives (three of the routes take no body, the revocation may come without
  one), and what it asks for.\<close>

datatype privacy_body =
    Export_body | Anonymize_body | Consents_body
  | Profile_body string string
  | Grant_body consent_purpose string "string option"
  | Revoke_body consent_purpose "string option option"
  | Marketing_body string
  | Analytics_body string

fun body_texts :: "privacy_body \<Rightarrow> string list" where
  "body_texts (Profile_body n l) = [n, l]"
| "body_texts (Grant_body p v s) = [v, source_or_api s]"
| "body_texts (Revoke_body p b) = (case b of None \<Rightarrow> [] | Some s \<Rightarrow> [source_or_api s])"
| "body_texts (Marketing_body c) = [c]"
| "body_texts (Analytics_body e) = [e]"
| "body_texts _ = []"

fun request_of :: "privacy_body \<Rightarrow> privacy_request" where
  "request_of Export_body = Export_request"
| "request_of Anonymize_body = Anonymize_request"
| "request_of Consents_body = Consents_request"
| "request_of (Profile_body n l) = Renter_profile_request n l"
| "request_of (Grant_body p v s) = Grant_request p v (source_or_api s)"
| "request_of (Revoke_body p b) = Revoke_request p (map_option source_or_api b)"
| "request_of (Marketing_body c) = Marketing_request c"
| "request_of (Analytics_body e) = Analytics_request e"

fun request_valid :: "privacy_request \<Rightarrow> bool" where
  "request_valid (Renter_profile_request n l) = RenterProfileRequest n l"
| "request_valid (Grant_request p v s) = ConsentGrantRequest v s"
| "request_valid (Revoke_request p (Some s)) = ConsentRevokeRequest s"
| "request_valid (Marketing_request c) = MarketingRequest c"
| "request_valid (Analytics_request e) = AnalyticsRequest e"
| "request_valid _ = True"

section \<open>The endpoints\<close>

definition register_endpoint ::
  "(string \<Rightarrow> string option) \<Rightarrow> (string \<Rightarrow> string) \<Rightarrow> user_register \<Rightarrow> instant \<Rightarrow> database \<Rightarrow> user result \<times> database" where
  "register_endpoint validate_email hash_password body now db =
     (case UserRegister validate_email body of
        Inl e \<Rightarrow> (Inl e, db)
      | Inr p \<Rightarrow> register hash_password p now db)"

definition create_admin_endpoint ::
  "(string \<Rightarrow> string option) \<Rightarrow> (string \<Rightarrow> string) \<Rightarrow> user \<Rightarrow> user_register \<Rightarrow> instant \<Rightarrow> database \<Rightarrow> user result \<times> database" where
  "create_admin_endpoint validate_email hash_password actor body now db =
     (case require_admin actor of
        Inl e \<Rightarrow> (Inl e, db)
      | Inr _ \<Rightarrow>
          (case UserRegister validate_email body of
             Inl e \<Rightarrow> (Inl e, db)
           | Inr p \<Rightarrow> create_admin hash_password actor p now db))"

definition privacy_endpoint ::
  "random_values \<Rightarrow> privacy_body \<Rightarrow> int \<Rightarrow> user \<Rightarrow> string \<Rightarrow> instant \<Rightarrow> instant \<Rightarrow> database \<Rightarrow> privacy_response result \<times> database" where
  "privacy_endpoint rv body user_id actor correlation_id now now' db =
     (let req = request_of body
      in bind_db (subject_access (event_type_of req) user_id actor correlation_id now db)
           (\<lambda>access db'. if request_valid req then privacy_handler rv req access now now' db' else (Inl UNPROCESSABLE, db')))"

section \<open>Refusals\<close>

text \<open>The answers that say that the client is at fault.\<close>

definition refusal :: "exn \<Rightarrow> bool" where
  "refusal e = (case e of
       NotFoundError _ \<Rightarrow> True
     | ConsentDeniedError _ _ \<Rightarrow> True
     | HTTPException status _ \<Rightarrow> status \<in> {403, 409, 422}
     | EmailAlreadyRegisteredError _ \<Rightarrow> True
     | _ \<Rightarrow> False)"

lemma refusal_status: "refusal e \<Longrightarrow> hr_status (error_response request_id e) \<in> {403, 404, 409, 422}"
  by (cases e) (auto simp: refusal_def detail_response_def)

definition refuses_only :: "'a result \<times> database \<Rightarrow> bool" where
  "refuses_only m = (\<forall>e. fst m = Inl e \<longrightarrow> refusal e)"

lemma refuses_only_Inr [simp]: "refuses_only (Inr x, db)"
  by (simp add: refuses_only_def)

lemma refuses_only_Inl [simp]: "refuses_only (Inl e, db) = refusal e"
  by (simp add: refuses_only_def)

lemma refuses_only_bind:
  assumes "refuses_only m" "\<And>x db. m = (Inr x, db) \<Longrightarrow> refuses_only (f x db)"
  shows "refuses_only (bind_db m f)"
  using assms by (cases m; cases "fst m") auto

lemma refuses_only_map: "refuses_only m \<Longrightarrow> refuses_only (map_fst_result f m)"
  unfolding map_fst_result_def by (rule refuses_only_bind) auto

lemma phone_pattern_length: "phone_pattern s \<Longrightarrow> length s \<le> 21"
  by (cases s) (auto simp: text_len_def split: if_splits)

lemma UserRegister_Inr:
  "UserRegister validate_email body = Inr p \<longleftrightarrow>
     (\<exists>email. validate_email (ur_email body) = Some email \<and> p = body\<lparr>ur_email := email\<rparr>) \<and>
     text_len 8 128 (ur_password body) \<and> text_len 1 150 (ur_full_name body) \<and>
     (case ur_phone body of None \<Rightarrow> True | Some n \<Rightarrow> phone_pattern n)"
  by (auto simp: UserRegister_def split: option.splits)

lemma length_strip: "length (strip s) \<le> length s"
  unfolding strip_def using length_dropWhile_le[of is_space "rev (dropWhile is_space s)"] length_dropWhile_le[of is_space s] by simp

text \<open>A validated registration fits the columns of its row.\<close>

lemma validated_user_fits:
  assumes "UserRegister validate_email body = Inr p" "\<forall>a e. validate_email a = Some e \<longrightarrow> length e \<le> 254"
    and "length (hash_password (ur_password p)) \<le> 255"
  shows "user_fits (new_user (ur_email p) (hash_password (ur_password p)) (ur_full_name p) role (ur_phone p) now i)"
    "user_fits (new_user (ur_email p) (hash_password (ur_password p)) (ur_full_name p) role None now i)"
proof -
  have "length (normalize_email (ur_email p)) \<le> 254"
    using assms(1,2) length_strip[of "ur_email p"] by (auto simp: UserRegister_Inr normalize_email_def lower_def intro: order_trans)
  moreover have "opt_width 32 (ur_phone p)"
    using assms(1) phone_pattern_length by (force simp: UserRegister_Inr opt_width_def split: option.splits)
  ultimately show "user_fits (new_user (ur_email p) (hash_password (ur_password p)) (ur_full_name p) role (ur_phone p) now i)"
    "user_fits (new_user (ur_email p) (hash_password (ur_password p)) (ur_full_name p) role None now i)"
    using assms(1,3) by (auto simp: user_fits_def new_user_def UserRegister_Inr text_len_def opt_width_def)
qed

section \<open>Every handler only refuses\<close>

text \<open>What the handlers rely on: the tables' invariants, an id that fits the audit trail, and the random source.\<close>

definition serving :: "random_values \<Rightarrow> string \<Rightarrow> database \<Rightarrow> bool" where
  "serving rv correlation_id db =
     (consents_ok db \<and> accounts_ok db \<and> length correlation_id \<le> 64 \<and>
      fresh_random (rv_user_hex rv) (rv_hashed rv) (rv_renter_hex rv) db)"

definition access_ok :: "subject_access \<Rightarrow> string \<Rightarrow> database \<Rightarrow> bool" where
  "access_ok access correlation_id db =
     (get_row u_id (users db) (u_id (sa_subject access)) = Some (sa_subject access) \<and> sa_correlation_id access = correlation_id)"

lemma audit_refuses:
  "length et \<le> 64 \<Longrightarrow> length r \<le> 64 \<Longrightarrow> length cid \<le> 64 \<Longrightarrow> refuses_only (record_audit_event et a s r cid now db)"
  by (simp add: record_audit_event_def add_audit_event_ok)

lemma subject_access_refuses:
  "length correlation_id \<le> 64 \<Longrightarrow> int4 user_id \<Longrightarrow>
   refuses_only (subject_access (event_type_of req) user_id actor correlation_id now db)"
  using event_type_fits[of req] by (auto simp: subject_access_def Let_def refusal_def intro!: refuses_only_bind audit_refuses split: option.split)

lemma subject_access_Inr:
  assumes "subject_access event_type user_id actor correlation_id now db = (Inr access, db')"
  shows "db' = db" "access_ok access correlation_id db" "u_id (sa_subject access) = user_id" "sa_actor access = actor"
proof -
  have f: "bind_db (record_audit_event et a s r cid now db) (\<lambda>_ db'. (Inl e, db')) \<noteq> (Inr access, db')" for et a s r cid e
    by (auto simp: bind_db_Inr)
  have g: "db' = db \<and> sa_correlation_id access = correlation_id \<and> sa_actor access = actor \<and> get_row u_id (users db) user_id = Some (sa_subject access)"
    using assms f by (auto simp: subject_access_def Let_def split: option.splits if_splits)
  then have "u_id (sa_subject access) = user_id" using get_row_Some[of u_id "users db" user_id] by blast
  with g show "db' = db" "access_ok access correlation_id db" "u_id (sa_subject access) = user_id" "sa_actor access = actor"
    by (simp_all add: access_ok_def)
qed

lemma access_has_id: "access_ok access cid db \<Longrightarrow> has_id u_id (users db) (u_id (sa_subject access))"
  by (auto simp: access_ok_def get_row_has_id)

lemma export_refuses:
  assumes "serving rv cid db" "access_ok access cid db"
  shows "refuses_only (export_personal_data access now db)"
proof -
  obtain r where "scalar_one_or_none (select_rows (\<lambda>r. rt_user_id r = Some (u_id (sa_subject access))) (renters db)) = Inr r"
    using assms(1) renters_of_user[of "rows (renters db)" "u_id (sa_subject access)"] by (auto simp: select_rows_def serving_def accounts_ok_def)
  then obtain export where "build_export db (sa_subject access) now = Inr export" by (simp add: build_export_def Let_def)
  then show ?thesis using assms
    by (auto simp: export_personal_data_def serving_def access_ok_def intro!: refuses_only_bind audit_refuses)
qed

lemma anonymize_refuses:
  assumes "serving rv cid db" "access_ok access cid db"
  shows "refuses_only (anonymize rv access now now' db)"
proof (cases "u_anonymized_at (sa_subject access)")
  case None
  then show ?thesis
    using assms anonymize_user_ok[of db "rv_user_hex rv" "rv_hashed rv" "rv_renter_hex rv" "u_id (sa_subject access)" "sa_subject access" cid
        "u_id (sa_actor access)" now now']
    by (auto simp: anonymize_def serving_def access_ok_def anonymize_user_row_def)
next
  case (Some t)
  have "wf_table u_id (users db)" using assms(1) by (simp add: serving_def accounts_ok_def)
  then show ?thesis using assms Some
    by (simp add: anonymize_def anonymize_user_def select_by_id access_ok_def serving_def record_audit_event_def add_audit_event_ok EVENT_TYPE_def)
qed

lemma profile_refuses:
  assumes "RenterProfileRequest n l"
  shows "refuses_only (create_renter_profile n l access db)"
  by (rule insert_row_cases[of renter_fits "renter_ok db" "new_renter n l (Some (u_id (sa_subject access)))" "renters db"])
     (use assms in \<open>auto simp: create_renter_profile_def refusal_def renter_fits_def new_renter_def RenterProfileRequest_def text_len_def\<close>)

lemma grant_refuses:
  assumes "serving rv cid db" "access_ok access cid db" "ConsentGrantRequest v s"
  shows "refuses_only (grant_consent p v s access now db)"
  using grant_outcome[where db = db and u = "u_id (sa_subject access)" and p = p and v = v and s = s and now = now] assms access_has_id
  by (cases "grant db (u_id (sa_subject access)) p v s now"; cases "fst (grant db (u_id (sa_subject access)) p v s now)")
     (auto simp: grant_consent_def serving_def ConsentGrantRequest_def text_len_def intro!: refuses_only_map)

lemma revoke_refuses:
  assumes "serving rv cid db" "case b of None \<Rightarrow> True | Some s \<Rightarrow> ConsentRevokeRequest s"
  shows "refuses_only (revoke_consent p b access now db)"
proof -
  let ?s = "case b of None \<Rightarrow> ''api'' | Some x \<Rightarrow> x"
  have "length ?s \<le> 50" using assms(2) by (cases b) (simp_all add: ConsentRevokeRequest_def text_len_def)
  then show ?thesis
    using revoke_outcome[where db = db and u = "u_id (sa_subject access)" and p = p and s = ?s and now = now] assms(1)
    by (cases "revoke db (u_id (sa_subject access)) p ?s now"; cases "fst (revoke db (u_id (sa_subject access)) p ?s now)")
       (auto simp: revoke_consent_def serving_def intro!: refuses_only_map)
qed

lemma consent_required_refuses:
  assumes "serving rv cid db"
  shows "refuses_only (require_consent db u p a cid now)"
    "require_consent db u p a cid now = (Inr x, db') \<Longrightarrow> db' = db"
  by (rule require_consent_cases[of db cid u p a now]; use assms in \<open>simp add: serving_def refusal_def\<close>)+

lemma marketing_refuses:
  assumes "serving rv cid db" "access_ok access cid db" "MarketingRequest c"
  shows "refuses_only (queue_marketing_email c access now db)"
proof -
  have "refuses_only (enqueue_marketing_email db (u_id (sa_subject access)) c a cid now)" for a
    unfolding enqueue_marketing_email_def
    by (rule refuses_only_bind[OF consent_required_refuses(1)[OF assms(1)]], drule consent_required_refuses(2)[OF assms(1)])
       (use assms(3) access_has_id[OF assms(2)] in
        \<open>simp add: insert_row_def Let_def message_fits_def new_message_def MarketingRequest_def text_len_def\<close>)
  then show ?thesis using assms(2) by (auto simp: queue_marketing_email_def access_ok_def intro!: refuses_only_map)
qed

lemma analytics_refuses:
  assumes "serving rv cid db" "access_ok access cid db" "AnalyticsRequest e"
  shows "refuses_only (track_analytics_event e access now db)"
proof -
  have "refuses_only (record_analytics_event db (u_id (sa_subject access)) e a cid now)" for a
    unfolding record_analytics_event_def
    by (rule refuses_only_bind[OF consent_required_refuses(1)[OF assms(1)]], drule consent_required_refuses(2)[OF assms(1)])
       (use assms(3) access_has_id[OF assms(2)] in
        \<open>simp add: insert_row_def Let_def analytics_fits_def new_analytics_def AnalyticsRequest_def text_len_def\<close>)
  then show ?thesis using assms(2) by (auto simp: track_analytics_event_def access_ok_def intro!: refuses_only_map)
qed

lemma handler_refuses:
  assumes "serving rv cid db" "access_ok access cid db" "request_valid req"
  shows "refuses_only (privacy_handler rv req access now now' db)"
  using assms
  by (cases req)
     (auto intro!: refuses_only_map export_refuses anonymize_refuses profile_refuses grant_refuses revoke_refuses
        marketing_refuses analytics_refuses split: option.split)

section \<open>Accounts and the fleet\<close>

text \<open>
  Registration, by a visitor or by an administrator, only refuses as well: with an e-mail
  validator and a hash that keep to the widths of their columns, a body that validates fails
  only because its address is taken.
\<close>

lemma registration_refuses:
  assumes "\<forall>a e. validate_email a = Some e \<longrightarrow> length e \<le> 254" and "\<forall>x. length (hash_password x) \<le> 255"
  shows "refuses_only (register_endpoint validate_email hash_password body now db)"
    "refuses_only (create_admin_endpoint validate_email hash_password actor body now db)"
proof -
  have fits: "user_fits (new_user (ur_email p) (hash_password (ur_password p)) (ur_full_name p) role (ur_phone p) now i)"
    "user_fits (new_user (ur_email p) (hash_password (ur_password p)) (ur_full_name p) role None now i)"
    if "UserRegister validate_email body = Inr p" for p role i
    using validated_user_fits[OF that assms(1), of hash_password] assms(2) by blast+
  have invalid: "refusal e" if "UserRegister validate_email body = Inl e" for e
    using that by (auto simp: UserRegister_def UNPROCESSABLE_def refusal_def split: option.splits if_splits)
  have create: "refuses_only (create_user hash_password db email pw name role phone now)"
    if "user_fits (new_user email (hash_password pw) name role phone now (next_id (users db)))" for email pw name role phone
    by (rule create_user_cases[where h = hash_password and db = db and email = email and pw = pw and name = name
        and role = role and phone = phone and now = now]) (use that in \<open>simp_all add: refusal_def\<close>)
  show "refuses_only (register_endpoint validate_email hash_password body now db)"
    by (cases "UserRegister validate_email body")
       (auto simp: register_endpoint_def register_def invalid intro!: create fits)
  have forbidden: "refusal (HTTPException 403 m)" for m by (simp add: refusal_def)
  show "refuses_only (create_admin_endpoint validate_email hash_password actor body now db)"
    by (cases "UserRegister validate_email body")
       (auto simp: create_admin_endpoint_def create_admin_def require_admin_def require_roles_def invalid forbidden intro!: create fits)
qed

text \<open>
  The bodies of the fleet endpoints have no limits: a text or a number that its column
  does not hold passes validation and ends as a 500.
\<close>

lemma fleet_bodies_unchecked:
  "200 < length address \<or> \<not> int4 capacity \<Longrightarrow>
     \<exists>e. fst (create_station f address capacity st) = Inl e \<and> hr_status (error_response request_id e) = 500"
  "150 < length name \<or> 50 < length licence \<Longrightarrow>
     \<exists>e. fst (create_renter name licence db) = Inl e \<and> hr_status (error_response request_id e) = 500"
  "get_station (fst st) station_id = Inr x \<Longrightarrow> 20 < length plate \<or> 100 < length model \<Longrightarrow>
     \<exists>e. fst (create_vehicle f plate model station_id st) = Inl e \<and> hr_status (error_response request_id e) = 500"
  by (auto simp: create_station_def create_renter_def create_vehicle_def insert_row_def Let_def
      station_fits_def renter_fits_def vehicle_fits_def new_station_def new_renter_def new_vehicle_def)

section \<open>Properties\<close>

text \<open>
  C40: what the privacy API answers when it fails. With the invariants of the tables, a
  correlation id chosen by the middleware (a header value without newline, or a generated
  id) and no NUL character in the texts of the body, a request on the privacy endpoints for a
  target id of 32 bits, whatever its body and its actor, either succeeds or is refused with
  403, 404, 409 or 422: the limits of the request bodies are those of the columns. A target
  id beyond 32 bits is the one that an error of the driver gets through for: every such
  request ends in a 500, and changes nothing.
\<close>

theorem privacy_failures_exact:
  assumes "consents_ok db" and "accounts_ok db"
    and "well_formed_id generated" and "case header of None \<Rightarrow> True | Some s \<Rightarrow> CHR 0x0A \<notin> set s"
    and "fresh_random (rv_user_hex rv) (rv_hashed rv) (rv_renter_hex rv) db"
    and "list_all (\<lambda>t. CHR 0x00 \<notin> set t) (body_texts body)"
  shows "case privacy_endpoint rv body user_id actor (accept_or_generate generated header) now now' db of
      (Inr response, db') \<Rightarrow> int4 user_id
    | (Inl e, db') \<Rightarrow>
        if int4 user_id then hr_status (error_response request_id e) \<in> {403, 404, 409, 422}
        else hr_status (error_response request_id e) = 500 \<and> db' = db"
proof (cases "int4 user_id")
  case True
  let ?cid = "accept_or_generate generated header"
  have l: "length ?cid \<le> 64" using assms(3,4) by (rule accepted_id_length)
  then have s: "serving rv ?cid db" using assms(1,2,5) by (simp add: serving_def)
  have "refuses_only (privacy_endpoint rv body user_id actor ?cid now now' db)"
    unfolding privacy_endpoint_def Let_def
  proof (rule refuses_only_bind[OF subject_access_refuses[OF l True]])
    fix access db1
    assume "subject_access (event_type_of (request_of body)) user_id actor ?cid now db = (Inr access, db1)"
    from subject_access_Inr[OF this]
    show "refuses_only (if request_valid (request_of body) then privacy_handler rv (request_of body) access now now' db1 else (Inl UNPROCESSABLE, db1))"
      using handler_refuses[OF s] by (simp add: UNPROCESSABLE_def refusal_def)
  qed
  then show ?thesis using True refusal_status
    by (cases "privacy_endpoint rv body user_id actor ?cid now now' db";
        cases "fst (privacy_endpoint rv body user_id actor ?cid now now' db)") (auto simp: refuses_only_def)
next
  case False
  then show ?thesis by (simp add: privacy_endpoint_def subject_access_def)
qed

theorem privacy_failures_exact_witness:
  "(\<exists>e db'. privacy_endpoint (\<lparr>rv_user_hex = ''0a1b'', rv_hashed = ''hash'', rv_renter_hex = \<lambda>_. ''2c3d''\<rparr>)
       (Grant_body PERSONALIZATION [] None) 1 demo_user ''c-1'' 70 71 erasure_demo_db = (Inl e, db') \<and>
     hr_status (error_response ''r1'' e) \<in> {403, 404, 409, 422}) \<and>
   (\<exists>e. privacy_endpoint (\<lparr>rv_user_hex = ''0a1b'', rv_hashed = ''hash'', rv_renter_hex = \<lambda>_. ''2c3d''\<rparr>)
       Export_body (2 ^ 31) demo_user ''c-1'' 70 71 erasure_demo_db = (Inl e, erasure_demo_db) \<and>
     hr_status (error_response ''r1'' e) = 500)"
proof -
  let ?rv = "\<lparr>rv_user_hex = ''0a1b'', rv_hashed = ''hash'', rv_renter_hex = \<lambda>_. ''2c3d''\<rparr>"
  have "get_row u_id (users erasure_demo_db) 1 = Some demo_user" by (rule erasure_demo_ok(4))
  then have e: "privacy_endpoint ?rv (Grant_body PERSONALIZATION [] None) 1 demo_user ''c-1'' 70 71 erasure_demo_db =
      (Inl UNPROCESSABLE, erasure_demo_db)"
    by (simp add: privacy_endpoint_def subject_access_def Let_def demo_user_def source_or_api_def ConsentGrantRequest_def text_len_def int4_def)
  have o: "privacy_endpoint ?rv Export_body (2 ^ 31) demo_user ''c-1'' 70 71 erasure_demo_db = (Inl DataError, erasure_demo_db)"
    by (simp add: privacy_endpoint_def subject_access_def int4_def)
  have w: "well_formed_id ''c-1''" by (simp add: well_formed_id_def id_char_def)
  have c: "accept_or_generate ''c-1'' None = ''c-1''" by (simp add: accept_or_generate_def)
  show ?thesis
    using e o privacy_failures_exact[OF erasure_demo_ok(1,3) w, where header = None and rv = ?rv and body = "Grant_body PERSONALIZATION [] None"
        and user_id = 1 and actor = demo_user and now = 70 and now' = 71 and request_id = "''r1''"]
      privacy_failures_exact[OF erasure_demo_ok(1,3) w, where header = None and rv = ?rv and body = Export_body
        and user_id = "2 ^ 31" and actor = demo_user and now = 70 and now' = 71 and request_id = "''r1''"]
      erasure_demo_ok(5) by (simp add: int4_def source_or_api_def c)
qed

end
