(* ===== verification/Scripts.thy ===== *)
theory Scripts
  imports Models
begin

text \<open>
  Programs that change the world around them and may raise: the scripts under \<open>scripts/\<close>. A
  program takes a world to a result (an exception or a value) and a world; \<open>script_finally\<close> is
  \<open>try: ... finally: ...\<close>. Lemmas: what a successful run passes through, and programs that keep
  a preorder between worlds whatever way they end.
\<close>

section \<open>Programs\<close>

type_synonym ('w, 'e, 'a) program = "'w \<Rightarrow> ('e + 'a) \<times> 'w"

definition script_return :: "'a \<Rightarrow> ('w, 'e, 'a) program" where
  "script_return x w = (Inr x, w)"

definition script_raise :: "'e \<Rightarrow> ('w, 'e, 'a) program" where
  "script_raise e w = (Inl e, w)"

definition script_bind :: "('w, 'e, 'a) program \<Rightarrow> ('a \<Rightarrow> ('w, 'e, 'b) program) \<Rightarrow> ('w, 'e, 'b) program" where
  "script_bind m f w = (case m w of (Inl e, w') \<Rightarrow> (Inl e, w') | (Inr x, w') \<Rightarrow> f x w')"

definition script_catch :: "('w, 'd, 'a) program \<Rightarrow> ('d \<Rightarrow> ('w, 'e, 'a) program) \<Rightarrow> ('w, 'e, 'a) program" where
  "script_catch m h w = (case m w of (Inl e, w') \<Rightarrow> h e w' | (Inr x, w') \<Rightarrow> (Inr x, w'))"

fun script_map :: "('a \<Rightarrow> ('w, 'e, 'b) program) \<Rightarrow> 'a list \<Rightarrow> ('w, 'e, 'b list) program" where
  "script_map f [] = script_return []"
| "script_map f (x # xs) = script_bind (f x) (\<lambda>y. script_bind (script_map f xs) (\<lambda>ys. script_return (y # ys)))"

text \<open>An exception of the clean-up replaces the one on its way.\<close>

definition script_finally :: "('w, 'e, 'a) program \<Rightarrow> ('w, 'e, 'b) program \<Rightarrow> ('w, 'e, 'a) program" where
  "script_finally m cleanup w =
     (case m w of (res, w1) \<Rightarrow> (case cleanup w1 of (Inl e, w2) \<Rightarrow> (Inl e, w2) | (Inr _, w2) \<Rightarrow> (res, w2)))"

text \<open>A child process: how it ended, and \<open>check=True\<close>.\<close>

record completed_process =
  returncode :: int
  stdout :: string
  stderr :: string

definition checked :: "('w, exn, completed_process) program \<Rightarrow> ('w, exn, completed_process) program" where
  "checked m = script_bind m (\<lambda>p. if returncode p = 0 then script_return p else script_raise CalledProcessError)"

section \<open>Lines of a text\<close>

text \<open>\<open>str.splitlines\<close> on 8-bit characters: the boundaries below, with carriage return and line feed as one.\<close>

definition line_break :: "char \<Rightarrow> bool" where
  "line_break c = (of_char c \<in> {10, 11, 12, 13, 28, 29, 30, 133 :: nat})"

fun split_lines_from :: "string \<Rightarrow> string \<Rightarrow> string list" where
  "split_lines_from acc [] = (if acc = [] then [] else [rev acc])"
| "split_lines_from acc (c # d # cs) =
     (if of_char c = (13 :: nat) \<and> of_char d = (10 :: nat) then rev acc # split_lines_from [] cs
      else if line_break c then rev acc # split_lines_from [] (d # cs) else split_lines_from (c # acc) (d # cs))"
| "split_lines_from acc [c] = (if line_break c then [rev acc] else [rev (c # acc)])"

definition splitlines :: "string \<Rightarrow> string list" where
  "splitlines s = split_lines_from [] s"

definition NL :: string where
  "NL = [CHR 10]"

definition QUOTE :: string where
  "QUOTE = [CHR 34]"

definition one_line :: "string \<Rightarrow> bool" where
  "one_line s = list_all (\<lambda>c. \<not> line_break c) s"

lemma split_lines_rest: "one_line s \<Longrightarrow> split_lines_from acc (s @ CHR 10 # t) = rev (rev s @ acc) # split_lines_from [] t"
proof (induction s arbitrary: acc)
  case Nil
  then show ?case by (cases t) (simp_all add: line_break_def)
next
  case (Cons c s)
  have nc: "\<not> line_break c" "one_line s" using Cons.prems by (simp_all add: one_line_def)
  then have "of_char c \<noteq> (13 :: nat)" by (auto simp: line_break_def)
  then show ?case using Cons.IH[OF nc(2), of "c # acc"] nc(1) by (cases s) simp_all
qed

lemma splitlines_line: "one_line s \<Longrightarrow> splitlines (s @ CHR 10 # t) = s # splitlines t"
  by (simp add: splitlines_def split_lines_rest)

lemma one_line_rev [simp]: "one_line (rev s) = one_line s"
  by (simp add: one_line_def list_all_iff)

lemma one_line_append [simp]: "one_line (s @ t) = (one_line s \<and> one_line t)"
  by (simp add: one_line_def)

lemma one_line_simps [simp]: "one_line []" "one_line (c # s) = (\<not> line_break c \<and> one_line s)"
  by (simp_all add: one_line_def)

lemma split_lines_are_lines: "one_line acc \<Longrightarrow> list_all one_line (split_lines_from acc s)"
proof (induction acc s rule: split_lines_from.induct)
  case (2 acc c d cs)
  then show ?case by simp
next
  case (3 acc c)
  then show ?case by simp
qed simp

lemma splitlines_one_line: "list_all one_line (splitlines s)"
  by (simp add: splitlines_def split_lines_are_lines one_line_def)

definition starts_with :: "string \<Rightarrow> string \<Rightarrow> bool" where
  "starts_with prefix s = (take (length prefix) s = prefix)"

lemma starts_with_append: "starts_with p (p @ s)"
  by (simp add: starts_with_def)

definition ends_with :: "string \<Rightarrow> string \<Rightarrow> bool" where
  "ends_with suffix s = (length suffix \<le> length s \<and> drop (length s - length suffix) s = suffix)"

definition without_suffix :: "string \<Rightarrow> string \<Rightarrow> string" where
  "without_suffix suffix s = take (length s - length suffix) s"

definition rstrip_char :: "char \<Rightarrow> string \<Rightarrow> string" where
  "rstrip_char c s = rev (dropWhile (\<lambda>x. x = c) (rev s))"

lemma ends_with_append [simp]: "ends_with p (s @ p)" "without_suffix p (s @ p) = s"
  by (simp_all add: ends_with_def without_suffix_def)

definition pad_right :: "nat \<Rightarrow> string \<Rightarrow> string" where
  "pad_right n s = s @ replicate (n - length s) (CHR '' '')"

definition pad_left :: "nat \<Rightarrow> string \<Rightarrow> string" where
  "pad_left n s = replicate (n - length s) (CHR '' '') @ s"

section \<open>Counters\<close>

definition count_of :: "('k \<times> nat) list \<Rightarrow> 'k \<Rightarrow> nat" where
  "count_of counts k = (case map_of counts k of None \<Rightarrow> 0 | Some n \<Rightarrow> n)"

lemma count_of_put: "count_of (dict_put k v d) = (count_of d)(k := v)"
  by (rule ext) (simp add: count_of_def map_of_dict_put)

section \<open>Scripts that respect a relation\<close>

text \<open>
  A script obeys a relation between worlds when every run of it, however it ends, goes
  from a world to a related one. For a preorder this is closed under the ways scripts are
  put together.
\<close>

definition obeys :: "('w \<Rightarrow> 'w \<Rightarrow> bool) \<Rightarrow> ('w, 'e, 'a) program \<Rightarrow> bool" where
  "obeys R m = (\<forall>w. R w (snd (m w)))"

locale script_preorder =
  fixes R :: "'w \<Rightarrow> 'w \<Rightarrow> bool"
  assumes refl: "R w w" and trans: "R u v \<Longrightarrow> R v w \<Longrightarrow> R u w"
begin

lemma return: "obeys R (script_return x)"
  by (simp add: obeys_def script_return_def refl)

lemma raise: "obeys R (script_raise e)"
  by (simp add: obeys_def script_raise_def refl)

lemma bind: "obeys R m \<Longrightarrow> (\<And>x. obeys R (f x)) \<Longrightarrow> obeys R (script_bind m f)"
  by (auto simp: obeys_def script_bind_def split: prod.splits sum.splits) (metis snd_conv trans)+

lemma catch: "obeys R m \<Longrightarrow> (\<And>e. obeys R (h e)) \<Longrightarrow> obeys R (script_catch m h)"
  by (auto simp: obeys_def script_catch_def split: prod.splits sum.splits) (metis snd_conv trans)+

lemma mapped: "(\<And>x. obeys R (f x)) \<Longrightarrow> obeys R (script_map f xs)"
  by (induction xs) (auto intro: return bind)

lemma run: "obeys R m \<Longrightarrow> m w = (x, w') \<Longrightarrow> R w w'"
  by (metis obeys_def snd_conv)

end

text \<open>What a successful run passes through.\<close>

lemma script_bind_Inr:
  "script_bind m f w = (Inr y, w'') \<longleftrightarrow> (\<exists>x w'. m w = (Inr x, w') \<and> f x w' = (Inr y, w''))"
  by (auto simp: script_bind_def split: prod.splits sum.splits)

lemma script_bind_run: "m w = (Inr x, w') \<Longrightarrow> script_bind m f w = f x w'"
  by (simp add: script_bind_def)

lemma script_catch_Inr:
  "script_catch m h w = (Inr y, w'') \<longleftrightarrow>
     m w = (Inr y, w'') \<or> (\<exists>e w'. m w = (Inl e, w') \<and> h e w' = (Inr y, w''))"
  by (auto simp: script_catch_def split: prod.splits sum.splits)

lemma script_return_Inr [simp]: "script_return x w = (Inr y, w') \<longleftrightarrow> y = x \<and> w' = w"
  by (auto simp: script_return_def)

lemma script_raise_Inr [simp]: "script_raise e w \<noteq> (Inr y, w')"
  by (simp add: script_raise_def)

lemma script_finally_Inr:
  "script_finally m c w = (Inr y, w'') \<longleftrightarrow> (\<exists>w' z. m w = (Inr y, w') \<and> c w' = (Inr z, w''))"
  by (auto simp: script_finally_def split: prod.splits sum.splits)

text \<open>What the clean-up establishes from any world holds after the whole, however it ends.\<close>

lemma script_finally_post:
  assumes "\<And>w. Q (snd (c w))"
  shows "Q (snd (script_finally m c w))"
  using assms by (auto simp: script_finally_def split: prod.splits sum.splits) (metis snd_conv)+

lemma checked_Inr: "checked m w = (Inr p, w') \<longleftrightarrow> m w = (Inr p, w') \<and> returncode p = 0"
  by (auto simp: checked_def script_bind_def script_return_def script_raise_def split: prod.splits sum.splits if_splits)

end
