(* ===== verification/SeedDemo.thy ===== *)
theory SeedDemo
  imports Requests Scripts
begin

text \<open>
  \<open>scripts/seed_demo.py\<close>, a client of the whole API: it fills a running stack with stations,
  vehicles, renters and rentals and claims to be safe to re-run. A script is a computation
  on the world (database, Redis, number of calls made) that returns a value or raises; the
  handlers answer its calls. The tables of the script, its environment (clock, Redis
  faults, random values) and the libraries of the service are arguments.
\<close>

section \<open>Scripts\<close>

record world =
  w_db :: database
  w_redis :: redis
  w_calls :: nat

datatype script_error = HTTPError nat | JSONDecodeError | Script_exit string | List_index | Raised exn

type_synonym 'a script = "(world, script_error, 'a) program"

section \<open>The service as the script sees it\<close>

record 't api =
  api_settings :: settings
  api_dump_st :: "station list \<Rightarrow> string"
  api_load_st :: "string \<Rightarrow> station list option"
  api_dump_v :: "vehicle list \<Rightarrow> string"
  api_load_v :: "string \<Rightarrow> vehicle list option"
  api_validate_email :: "string \<Rightarrow> string option"
  api_hash :: "string \<Rightarrow> string"
  api_verify :: "string \<Rightarrow> string \<Rightarrow> bool"
  api_encode :: "jwt_claims \<Rightarrow> string option \<Rightarrow> string \<Rightarrow> 't result"
  api_decode :: "'t \<Rightarrow> string option \<Rightarrow> string \<Rightarrow> instant \<Rightarrow> string result"
  api_host :: "string option"
  api_agent :: "string option"
  api_clock :: "nat \<Rightarrow> instant"
  api_get :: "nat \<Rightarrow> fault"
  api_set :: "nat \<Rightarrow> fault"
  api_del :: "nat \<Rightarrow> fault"
  api_uuid :: "nat \<Rightarrow> string"
  api_random :: "nat \<Rightarrow> random_values"

text \<open>
  \<open>call\<close>: the request goes to the handler, and \<open>urlopen\<close> raises an \<open>HTTPError\<close> for a
  response that is not a success.
\<close>

definition call :: "(nat \<Rightarrow> database \<times> redis \<Rightarrow> 'a result \<times> database \<times> redis) \<Rightarrow> 'a script" where
  "call handler w =
     (case handler (w_calls w) (w_db w, w_redis w) of (res, db, r) \<Rightarrow>
        ((case res of Inl e \<Rightarrow> Inl (HTTPError (hr_status (error_response [] e))) | Inr x \<Rightarrow> Inr x),
         \<lparr>w_db = db, w_redis = r, w_calls = Suc (w_calls w)\<rparr>))"

definition on_db :: "(nat \<Rightarrow> database \<Rightarrow> 'a result \<times> database) \<Rightarrow> nat \<Rightarrow> database \<times> redis \<Rightarrow> 'a result \<times> database \<times> redis" where
  "on_db handler n st = (case handler n (fst st) of (res, db) \<Rightarrow> (res, db, snd st))"

definition json_loads :: "(string \<Rightarrow> 'a option) \<Rightarrow> string \<Rightarrow> ('w, script_error, 'a) program" where
  "json_loads load body = (case load body of None \<Rightarrow> script_raise JSONDecodeError | Some x \<Rightarrow> script_return x)"

definition current_user :: "'t api \<Rightarrow> 't \<Rightarrow> nat \<Rightarrow> database \<Rightarrow> user result" where
  "current_user env token n db = get_current_user (api_decode env) (api_settings env) db token (api_clock env n)"

definition get_stations :: "'t api \<Rightarrow> station list script" where
  "get_stations env = script_bind
     (call (\<lambda>n. list_stations (api_settings env) (api_dump_st env) (api_get env n) (api_set env n) (api_clock env n)))
     (json_loads (api_load_st env))"

definition get_vehicles :: "'t api \<Rightarrow> vehicle list script" where
  "get_vehicles env = script_bind
     (call (\<lambda>n. list_vehicles (api_settings env) (api_dump_v env) (api_get env n) (api_set env n) (api_clock env n)))
     (json_loads (api_load_v env))"

definition post_station :: "'t api \<Rightarrow> string \<Rightarrow> int \<Rightarrow> station script" where
  "post_station env address capacity = call (\<lambda>n. create_station (api_del env n) address capacity)"

definition post_vehicle :: "'t api \<Rightarrow> string \<Rightarrow> string \<Rightarrow> int \<Rightarrow> vehicle script" where
  "post_vehicle env plate model station_id = call (\<lambda>n. create_vehicle (api_del env n) plate model station_id)"

definition registration :: "string \<Rightarrow> string \<Rightarrow> string \<Rightarrow> user_register" where
  "registration email password full_name = \<lparr>ur_email = email, ur_password = password, ur_full_name = full_name, ur_phone = None\<rparr>"

definition post_register :: "'t api \<Rightarrow> string \<Rightarrow> string \<Rightarrow> string \<Rightarrow> user script" where
  "post_register env email password full_name = call (on_db (\<lambda>n.
     register_endpoint (api_validate_email env) (api_hash env) (registration email password full_name) (api_clock env n)))"

definition post_login :: "'t api \<Rightarrow> string \<Rightarrow> string \<Rightarrow> 't token script" where
  "post_login env email password = call (on_db (\<lambda>n.
     login (api_hash env) (api_verify env) (api_encode env) (api_settings env) email password (api_host env) (api_agent env) (api_clock env n)))"

definition get_me :: "'t api \<Rightarrow> 't \<Rightarrow> user script" where
  "get_me env token = call (on_db (\<lambda>n db. (current_user env token n db, db)))"

definition get_my_renter :: "'t api \<Rightarrow> 't \<Rightarrow> renter script" where
  "get_my_renter env token = call (on_db (\<lambda>n db. (bind_result (current_user env token n db) (my_renter_profile db), db)))"

definition get_my_rentals :: "'t api \<Rightarrow> 't \<Rightarrow> rental_read list script" where
  "get_my_rentals env token = call (on_db (\<lambda>n db. (bind_result (current_user env token n db) (my_rentals (api_clock env n) db), db)))"

definition post_renter_profile :: "'t api \<Rightarrow> 't \<Rightarrow> int \<Rightarrow> string \<Rightarrow> string \<Rightarrow> privacy_response script" where
  "post_renter_profile env token user_id full_name licence = call (on_db (\<lambda>n db.
     case current_user env token n db of
       Inl e \<Rightarrow> (Inl e, db)
     | Inr actor \<Rightarrow> privacy_endpoint (api_random env n) (Profile_body full_name licence) user_id actor
         (api_uuid env n) (api_clock env n) (api_clock env n) db))"

definition post_start :: "'t api \<Rightarrow> int \<Rightarrow> int \<Rightarrow> rental_read script" where
  "post_start env renter_id vehicle_id = call (\<lambda>n. start_rental_request (api_del env n) renter_id vehicle_id (api_clock env n))"

definition post_end :: "'t api \<Rightarrow> int \<Rightarrow> int \<Rightarrow> rental_read script" where
  "post_end env rental_id station_id = call (\<lambda>n. end_rental_request (api_del env n) rental_id station_id (api_clock env n))"

section \<open>The script\<close>

text \<open>A later station of the list wins in the dictionary by address.\<close>

definition ensure_stations :: "'t api \<Rightarrow> (string \<times> int) list \<Rightarrow> station list script" where
  "ensure_stations env STATIONS = script_bind (get_stations env) (\<lambda>listed.
     let existing = map_of (rev (map (\<lambda>s. (st_address s, s)) listed))
     in script_map (\<lambda>(address, capacity). case existing address of
          Some s \<Rightarrow> script_return s
        | None \<Rightarrow> post_station env address capacity) STATIONS)"

definition ensure_vehicles :: "'t api \<Rightarrow> (string \<times> string \<times> nat) list \<Rightarrow> station list \<Rightarrow> unit script" where
  "ensure_vehicles env VEHICLES demo_stations = script_bind (get_vehicles env) (\<lambda>listed.
     let plates = map v_license_plate listed
     in script_bind (script_map (\<lambda>(plate, model, station_index).
          if plate \<in> set plates then script_return ()
          else if station_index < length demo_stations
          then script_bind (post_vehicle env plate model (st_id (demo_stations ! station_index))) (\<lambda>_. script_return ())
          else script_raise List_index) VEHICLES) (\<lambda>_. script_return ()))"

definition ensure_renter :: "'t api \<Rightarrow> string \<Rightarrow> string \<Rightarrow> string \<Rightarrow> string \<Rightarrow> ('t \<times> int) script" where
  "ensure_renter env DEMO_PASSWORD email full_name licence =
     script_bind (script_catch
         (script_bind (post_register env email DEMO_PASSWORD full_name) (\<lambda>_. script_return ()))
         (\<lambda>e. if e = HTTPError 409 then script_return () else script_raise e)) (\<lambda>_.
     script_bind (post_login env email DEMO_PASSWORD) (\<lambda>login.
     let token = tk_access_token login in
     script_bind (get_me env token) (\<lambda>me.
     script_bind (script_catch (get_my_renter env token)
         (\<lambda>e. if e \<noteq> HTTPError 404 then script_raise e
              else script_bind (post_renter_profile env token (u_id me) full_name licence) (\<lambda>_. get_my_renter env token))) (\<lambda>renter.
     script_return (token, rt_id renter)))))"

definition available_vehicle :: "'t api \<Rightarrow> vehicle script" where
  "available_vehicle env = script_bind (get_vehicles env) (\<lambda>listed.
     case find (\<lambda>v. v_status v = AVAILABLE) listed of
       None \<Rightarrow> script_raise (Script_exit ''No available vehicles left to rent'')
     | Some v \<Rightarrow> script_return v)"

definition any_status :: "rental_status \<Rightarrow> rental_read list \<Rightarrow> bool" where
  "any_status s reads = list_ex (\<lambda>r. r_status (rr_rental r) = s) reads"

definition start_and_end :: "'t api \<Rightarrow> int \<Rightarrow> int \<Rightarrow> unit script" where
  "start_and_end env renter_id vehicle_id = script_bind (post_start env renter_id vehicle_id) (\<lambda>rental.
     script_bind (post_end env (r_id (rr_rental rental)) (r_start_station_id (rr_rental rental))) (\<lambda>_. script_return ()))"

definition demo_trip :: "'t api \<Rightarrow> int \<Rightarrow> unit script" where
  "demo_trip env renter_id = script_bind (available_vehicle env) (\<lambda>vehicle. start_and_end env renter_id (v_id vehicle))"

definition demo_start :: "'t api \<Rightarrow> int \<Rightarrow> unit script" where
  "demo_start env renter_id = script_bind (available_vehicle env) (\<lambda>vehicle.
     script_bind (post_start env renter_id (v_id vehicle)) (\<lambda>_. script_return ()))"

definition ensure_rentals :: "'t api \<Rightarrow> 't \<Rightarrow> int \<Rightarrow> bool \<Rightarrow> unit script" where
  "ensure_rentals env token renter_id keep_active = script_bind (get_my_rentals env token) (\<lambda>rentals.
     script_bind (if \<not> any_status COMPLETED rentals then demo_trip env renter_id else script_return ()) (\<lambda>_.
     if keep_active \<and> \<not> any_status ACTIVE rentals then demo_start env renter_id else script_return ()))"

text \<open>One row of \<open>RENTERS\<close>: address, name, licence, and whether to keep an active rental.\<close>

type_synonym demo_renter = "string \<times> string \<times> string \<times> bool"

definition seed_renter :: "'t api \<Rightarrow> string \<Rightarrow> demo_renter \<Rightarrow> unit script" where
  "seed_renter env DEMO_PASSWORD x = (case x of (email, full_name, licence, keep_active) \<Rightarrow>
     script_bind (ensure_renter env DEMO_PASSWORD email full_name licence)
       (\<lambda>(token, renter_id). ensure_rentals env token renter_id keep_active))"

text \<open>\<open>main\<close>, with the numbers it prints: stations, vehicles and rented vehicles.\<close>

definition seed_main ::
  "'t api \<Rightarrow> string \<Rightarrow> (string \<times> int) list \<Rightarrow> (string \<times> string \<times> nat) list \<Rightarrow> demo_renter list \<Rightarrow> (nat \<times> nat \<times> nat) script" where
  "seed_main env DEMO_PASSWORD STATIONS VEHICLES RENTERS =
     script_bind (ensure_stations env STATIONS) (\<lambda>demo_stations.
     script_bind (ensure_vehicles env VEHICLES demo_stations) (\<lambda>_.
     script_bind (script_map (seed_renter env DEMO_PASSWORD) RENTERS) (\<lambda>_.
     script_bind (get_vehicles env) (\<lambda>vehicles.
     script_return (length demo_stations, length vehicles, length (filter (\<lambda>v. v_status v = RENTED) vehicles))))))"

context script_preorder begin

lemma loads: "obeys R (json_loads load body)"
  by (auto simp: json_loads_def intro: return raise split: option.split)

end

section \<open>What every call keeps\<close>

text \<open>Renters with the states of their rentals: what the script looks for.\<close>

definition rental_states :: "database \<Rightarrow> (int \<times> rental_status) set" where
  "rental_states db = (\<lambda>r. (r_renter_id r, r_status r)) ` set (rows (rentals db))"

definition grows :: "database \<Rightarrow> database \<Rightarrow> bool" where
  "grows db db' =
     (st_address ` set (rows (stations db)) \<subseteq> st_address ` set (rows (stations db')) \<and>
      v_license_plate ` set (rows (vehicles db)) \<subseteq> v_license_plate ` set (rows (vehicles db')) \<and>
      set (rows (users db)) \<subseteq> set (rows (users db')) \<and> set (rows (renters db)) \<subseteq> set (rows (renters db')) \<and>
      rental_states db \<subseteq> rental_states db')"

definition unchanged :: "database \<Rightarrow> database \<Rightarrow> bool" where
  "unchanged db db' =
     (stations db' = stations db \<and> vehicles db' = vehicles db \<and> renters db' = renters db \<and> rentals db' = rentals db \<and>
      rows (users db') = rows (users db))"

definition sound :: "'t api \<Rightarrow> world \<Rightarrow> bool" where
  "sound env w = (fleet_inv (api_dump_st env) (api_dump_v env) (w_db w, w_redis w) \<and> accounts_ok (w_db w))"

definition kept :: "'t api \<Rightarrow> world \<Rightarrow> world \<Rightarrow> bool" where
  "kept env w w' = (sound env w \<longrightarrow> sound env w' \<and> grows (w_db w) (w_db w') \<and> w_calls w \<le> w_calls w')"

definition still :: "'t api \<Rightarrow> world \<Rightarrow> world \<Rightarrow> bool" where
  "still env w w' = (sound env w \<longrightarrow> sound env w' \<and> unchanged (w_db w) (w_db w') \<and> w_calls w \<le> w_calls w')"

lemma grows_refl [simp]: "grows db db"
  by (simp add: grows_def)

lemma grows_trans: "grows a b \<Longrightarrow> grows b c \<Longrightarrow> grows a c"
  unfolding grows_def by (meson order_trans)

lemma unchanged_refl [simp]: "unchanged db db"
  by (simp add: unchanged_def)

lemma unchanged_grows: "unchanged db db' \<Longrightarrow> grows db db'"
  by (simp add: unchanged_def grows_def rental_states_def)

interpretation kept: script_preorder "kept env" for env
  by unfold_locales (auto simp: kept_def intro: grows_trans)

interpretation still: script_preorder "still env" for env
  by unfold_locales (auto simp: still_def unchanged_def)

lemma still_kept: "obeys (still env) m \<Longrightarrow> obeys (kept env) m"
  by (auto simp: obeys_def still_def kept_def unchanged_grows)

text \<open>What the invariants read of the database.\<close>

lemma fleet_ok_cong:
  assumes "stations db' = stations db" "renters db' = renters db" "vehicles db' = vehicles db" "rentals db' = rentals db"
  shows "fleet_ok db' = fleet_ok db"
proof -
  have "rental_ok db' = rental_ok db" using assms by (auto simp: rental_ok_def fun_eq_iff split: option.split)
  then show ?thesis using assms by (simp add: fleet_ok_def keys_ok_def refs_ok_def active_ok_def active_count_def)
qed

lemma fleet_inv_cong:
  assumes "stations db' = stations db" "renters db' = renters db" "vehicles db' = vehicles db" "rentals db' = rentals db"
  shows "fleet_inv d e (db', r) = fleet_inv d e (db, r)"
  using fleet_ok_cong[OF assms] assms by (simp add: fleet_inv_def stations_by_id_def vehicles_by_id_def)

lemma accounts_ok_cong: "users db' = users db \<Longrightarrow> renters db' = renters db \<Longrightarrow> accounts_ok db' = accounts_ok db"
  by (simp add: accounts_ok_def)

lemma snd_call:
  "snd (call h w) = \<lparr>w_db = fst (snd (h (w_calls w) (w_db w, w_redis w))), w_redis = snd (snd (h (w_calls w) (w_db w, w_redis w))),
     w_calls = Suc (w_calls w)\<rparr>"
  by (simp add: call_def split_beta)

lemma call_Inr:
  "call h w = (Inr x, w') \<longleftrightarrow> (\<exists>db r. h (w_calls w) (w_db w, w_redis w) = (Inr x, db, r) \<and>
     w' = \<lparr>w_db = db, w_redis = r, w_calls = Suc (w_calls w)\<rparr>)"
  by (auto simp: call_def split: prod.splits sum.splits)

lemma call_on_db:
  "call (on_db h) w = (x, w') \<longleftrightarrow>
     (\<exists>res db. h (w_calls w) (w_db w) = (res, db) \<and> w' = w\<lparr>w_db := db, w_calls := Suc (w_calls w)\<rparr> \<and>
       x = (case res of Inl e \<Rightarrow> Inl (HTTPError (hr_status (error_response [] e))) | Inr y \<Rightarrow> Inr y))"
  by (auto simp: call_def on_db_def split: prod.splits)

lemma call_on_db_Inr:
  "call (on_db h) w = (Inr x, w') \<longleftrightarrow> (\<exists>db. h (w_calls w) (w_db w) = (Inr x, db) \<and> w' = w\<lparr>w_db := db, w_calls := Suc (w_calls w)\<rparr>)"
  by (auto simp: call_Inr on_db_def split: prod.splits)

lemma obeys_on_db:
  assumes "\<And>n w. sound env w \<Longrightarrow> P (w_db w) (snd (h n (w_db w))) \<and> sound env (w\<lparr>w_db := snd (h n (w_db w)), w_calls := Suc (w_calls w)\<rparr>)"
  shows "P = grows \<Longrightarrow> obeys (kept env) (call (on_db h))" "P = unchanged \<Longrightarrow> obeys (still env) (call (on_db h))"
proof -
  have "snd (call (on_db h) w) = w\<lparr>w_db := snd (h (w_calls w) (w_db w)), w_calls := Suc (w_calls w)\<rparr>" for w
    by (simp add: snd_call on_db_def split_beta)
  then show "P = grows \<Longrightarrow> obeys (kept env) (call (on_db h))" "P = unchanged \<Longrightarrow> obeys (still env) (call (on_db h))"
    using assms by (auto simp: obeys_def kept_def still_def)
qed

lemma sound_calls: "sound env (w\<lparr>w_db := db, w_calls := n\<rparr>) \<longleftrightarrow>
    fleet_inv (api_dump_st env) (api_dump_v env) (db, w_redis w) \<and> accounts_ok db"
  by (simp add: sound_def)

lemma obeys_same_db:
  assumes "\<And>n db. snd (h n db) = db"
  shows "obeys (still env) (call (on_db h))"
  by (rule obeys_on_db(2)[where P = unchanged]) (simp_all add: assms sound_def)

section \<open>The calls of the script\<close>

text \<open>
  What is relied on: invalidations get through and Redis fails only with its own errors, the
  JSON of the lists reads back, tokens can be issued and stand until the end of the script,
  and the address of the client fits its column.
\<close>

definition api_ok :: "'t api \<Rightarrow> bool" where
  "api_ok env =
     ((\<forall>n. delivered (api_del env n) \<and> redis_fault (api_get env n) \<and> redis_fault (api_set env n)) \<and>
      (\<forall>xs. api_load_st env (api_dump_st env xs) = Some xs) \<and> (\<forall>xs. api_load_v env (api_dump_v env xs) = Some xs) \<and>
      opt_width 45 (api_host env) \<and>
      (\<forall>c. \<exists>tok. api_encode env c (jwt_secret_key (api_settings env)) (jwt_algorithm (api_settings env)) = Inr tok) \<and>
      (\<forall>n m i role tok. n \<le> m \<and> create_access_token (api_encode env) (api_settings env) i role None (api_clock env n) = Inr tok
         \<longrightarrow> decode_access_token (api_decode env) (api_settings env) tok (api_clock env m) = Inr i))"

lemma list_runs:
  assumes "api_ok env" "sound env w"
  shows "\<exists>w'. get_stations env w = (Inr (stations_by_id (w_db w)), w') \<and> w_db w' = w_db w \<and> still env w w'"
    "\<exists>w'. get_vehicles env w = (Inr (vehicles_by_id (w_db w)), w') \<and> w_db w' = w_db w \<and> still env w w'"
proof -
  let ?n = "w_calls w" and ?db = "w_db w" and ?r = "w_redis w"
  have f: "redis_fault (api_get env ?n)" "redis_fault (api_set env ?n)" using assms(1) by (simp_all add: api_ok_def)
  have inv: "fleet_inv (api_dump_st env) (api_dump_v env) (?db, ?r)" using assms(2) by (simp add: sound_def)
  obtain r where r: "list_stations (api_settings env) (api_dump_st env) (api_get env ?n) (api_set env ?n) (api_clock env ?n) (?db, ?r) =
      (Inr (api_dump_st env (stations_by_id ?db)), ?db, r)"
    using read_through_entry[OF f, of ?r STATIONS_LIST_KEY "api_dump_st env" "stations_by_id ?db" "api_settings env" "api_clock env ?n"] inv
    by (auto simp: fleet_inv_def list_stations_def)
  have "fleet_inv (api_dump_st env) (api_dump_v env) (?db, r)"
    using list_requests_inv(1)[OF inv f, of "api_settings env" "api_clock env ?n"] r by simp
  then show "\<exists>w'. get_stations env w = (Inr (stations_by_id (w_db w)), w') \<and> w_db w' = w_db w \<and> still env w w'"
    using assms r by (simp add: get_stations_def script_bind_def call_def json_loads_def api_ok_def still_def sound_def script_return_def)
  obtain r where r: "list_vehicles (api_settings env) (api_dump_v env) (api_get env ?n) (api_set env ?n) (api_clock env ?n) (?db, ?r) =
      (Inr (api_dump_v env (vehicles_by_id ?db)), ?db, r)"
    using read_through_entry[OF f, of ?r VEHICLES_LIST_KEY "api_dump_v env" "vehicles_by_id ?db" "api_settings env" "api_clock env ?n"] inv
    by (auto simp: fleet_inv_def list_vehicles_def)
  have "fleet_inv (api_dump_st env) (api_dump_v env) (?db, r)"
    using list_requests_inv(2)[OF inv f, of "api_settings env" "api_clock env ?n"] r by simp
  then show "\<exists>w'. get_vehicles env w = (Inr (vehicles_by_id (w_db w)), w') \<and> w_db w' = w_db w \<and> still env w w'"
    using assms r by (simp add: get_vehicles_def script_bind_def call_def json_loads_def api_ok_def still_def sound_def script_return_def)
qed

lemma lists_obey:
  assumes "api_ok env"
  shows "obeys (still env) (get_stations env)" "obeys (still env) (get_vehicles env)"
proof -
  have "still env w (snd (get_stations env w)) \<and> still env w (snd (get_vehicles env w))" for w
  proof (cases "sound env w")
    case True
    then show ?thesis using list_runs[OF assms] by (metis snd_conv)
  qed (simp add: still_def)
  then show "obeys (still env) (get_stations env)" "obeys (still env) (get_vehicles env)" by (simp_all add: obeys_def)
qed

lemma call_kept:
  assumes "\<And>n db r. fleet_inv (api_dump_st env) (api_dump_v env) (db, r) \<Longrightarrow> accounts_ok db \<Longrightarrow>
      fleet_inv (api_dump_st env) (api_dump_v env) (snd (h n (db, r))) \<and> accounts_ok (fst (snd (h n (db, r)))) \<and> grows db (fst (snd (h n (db, r))))"
  shows "obeys (kept env) (call h)"
  using assms by (auto simp: obeys_def kept_def snd_call sound_def)

lemma insert_row_keys: "g ` set (rows t) \<subseteq> g ` set (rows (snd (insert_row fits ok mk t)))"
  by (rule insert_row_cases[of fits ok mk t]) (auto simp: rows_append rows_burn)

lemma post_station_kept:
  assumes "api_ok env"
  shows "obeys (kept env) (post_station env address capacity)"
  unfolding post_station_def
proof (intro call_kept conjI)
  fix n db r
  assume s: "fleet_inv (api_dump_st env) (api_dump_v env) (db, r)" "accounts_ok db"
  show "fleet_inv (api_dump_st env) (api_dump_v env) (snd (create_station (api_del env n) address capacity (db, r)))"
    using assms s(1) by (intro create_station_inv) (simp_all add: api_ok_def)
  have "fst (snd (create_station (api_del env n) address capacity (db, r))) =
      db\<lparr>stations := snd (insert_row station_fits (\<lambda>_. True) (new_station address capacity) (stations db))\<rparr>"
    by (simp add: create_station_def split: sum.split prod.split)
  then show "accounts_ok (fst (snd (create_station (api_del env n) address capacity (db, r))))"
    "grows db (fst (snd (create_station (api_del env n) address capacity (db, r))))"
    using s(2) by (simp_all add: accounts_ok_def grows_def rental_states_def insert_row_keys)
qed

lemma post_vehicle_kept:
  assumes "api_ok env"
  shows "obeys (kept env) (post_vehicle env plate model station_id)"
  unfolding post_vehicle_def
proof (intro call_kept conjI)
  fix n db r
  assume s: "fleet_inv (api_dump_st env) (api_dump_v env) (db, r)" "accounts_ok db"
  show "fleet_inv (api_dump_st env) (api_dump_v env) (snd (create_vehicle (api_del env n) plate model station_id (db, r)))"
    using assms s(1) by (intro create_vehicle_inv) (simp_all add: api_ok_def)
  have "fst (snd (create_vehicle (api_del env n) plate model station_id (db, r))) =
      (if \<exists>e. get_station db station_id = Inl e then db
       else db\<lparr>vehicles := snd (insert_row vehicle_fits (vehicle_ok db) (new_vehicle plate model station_id) (vehicles db))\<rparr>)"
    by (simp add: create_vehicle_def split: sum.split prod.split)
  then show "accounts_ok (fst (snd (create_vehicle (api_del env n) plate model station_id (db, r))))"
    "grows db (fst (snd (create_vehicle (api_del env n) plate model station_id (db, r))))"
    using s(2) by (simp_all add: accounts_ok_def grows_def rental_states_def insert_row_keys)
qed

text \<open>Accounts.\<close>

lemma create_user_kept:
  assumes "fleet_inv d e (db, r)" "accounts_ok db"
  shows "fleet_inv d e (snd (create_user h db email pw name role phone now), r)"
    "accounts_ok (snd (create_user h db email pw name role phone now))"
    "grows db (snd (create_user h db email pw name role phone now))"
proof -
  have "snd (create_user h db email pw name role phone now) = db\<lparr>users := burn_id (users db)\<rparr> \<or>
      snd (create_user h db email pw name role phone now) = db\<lparr>users := append_row (new_user email (h pw) name role phone now) (users db)\<rparr>"
    by (rule create_user_cases[where h = h and db = db and email = email and pw = pw and name = name and role = role and phone = phone and now = now])
       simp_all
  then obtain t where t: "snd (create_user h db email pw name role phone now) = db\<lparr>users := t\<rparr>" "set (rows (users db)) \<subseteq> set (rows t)"
    using rows_burn rows_append by (metis Un_upper1 order_refl set_append)
  then show "fleet_inv d e (snd (create_user h db email pw name role phone now), r)"
    using assms(1) fleet_inv_cong[of "db\<lparr>users := t\<rparr>" db d e r] by simp
  show "accounts_ok (snd (create_user h db email pw name role phone now))" using assms(2) by (rule create_user_accounts_ok)
  show "grows db (snd (create_user h db email pw name role phone now))" using t by (simp add: grows_def rental_states_def)
qed

lemma post_register_kept: "obeys (kept env) (post_register env email password full_name)"
  unfolding post_register_def
  by (rule call_kept)
     (auto simp: on_db_def register_endpoint_def register_def split_beta create_user_kept split: sum.split)

lemma login_db:
  "\<exists>t. snd (login h v enc s email pw host agent now db) = db\<lparr>user_activity := t\<rparr>"
proof -
  have act: "\<exists>t. db' = db\<lparr>user_activity := t\<rparr>" if "record_activity db u a host agent now = (x, db')" for u a x db'
    using that by (auto simp: record_activity_def split: prod.splits sum.splits)
  have same: "\<exists>t. db = db\<lparr>user_activity := t\<rparr>" by (rule exI[of _ "user_activity db"]) simp
  show ?thesis using act same by (auto simp: login_def bind_db_def split: sum.split option.split prod.split)
qed

lemma still_db:
  assumes "\<And>n db. \<exists>t. snd (h n db) = db\<lparr>user_activity := t\<rparr>"
  shows "obeys (still env) (call (on_db h))"
proof (rule obeys_on_db(2)[where P = unchanged])
  fix n w
  assume s: "sound env w"
  obtain t where t: "snd (h n (w_db w)) = (w_db w)\<lparr>user_activity := t\<rparr>" using assms by blast
  show "unchanged (w_db w) (snd (h n (w_db w))) \<and> sound env (w\<lparr>w_db := snd (h n (w_db w)), w_calls := Suc (w_calls w)\<rparr>)"
    using s fleet_inv_cong[of "snd (h n (w_db w))" "w_db w"] by (simp add: t unchanged_def sound_def accounts_ok_def)
qed simp

lemma post_login_still: "obeys (still env) (post_login env email password)"
  unfolding post_login_def by (rule still_db) (rule login_db)

lemma reads_still:
  "obeys (still env) (get_me env token)" "obeys (still env) (get_my_renter env token)" "obeys (still env) (get_my_rentals env token)"
  by (simp_all add: get_me_def get_my_renter_def get_my_rentals_def obeys_same_db)

text \<open>The renter profile of an account.\<close>

lemma create_renter_profile_kept:
  assumes "fleet_inv d e (db, r)" "accounts_ok db"
  shows "fleet_inv d e (snd (create_renter_profile n l access db), r)"
    "accounts_ok (snd (create_renter_profile n l access db))" "grows db (snd (create_renter_profile n l access db))"
proof -
  let ?mk = "new_renter n l (Some (u_id (sa_subject access)))"
  let ?db = "db\<lparr>renters := snd (insert_row renter_fits (renter_ok db) ?mk (renters db))\<rparr>"
  have db: "snd (create_renter_profile n l access db) = ?db"
    by (simp add: create_renter_profile_def split: sum.split prod.split exn.split)
  have wf: "wf_table st_id (stations db)" "wf_table rt_id (renters db)" and ok: "fleet_ok db"
    using assms(1) by (simp_all add: fleet_inv_def fleet_ok_def keys_ok_def)
  have "fleet_ok ?db"
  proof (rule fleet_ok_grow[OF ok])
    show "wf_table rt_id (renters ?db)" using insert_row_wf[OF wf(2), of ?mk] by (simp add: new_renter_def)
    show "has_id rt_id (renters ?db) i" if "has_id rt_id (renters db) i" for i
      using has_id_mono[OF insert_row_keys that] by simp
  qed (use wf in simp_all)
  then show "fleet_inv d e (snd (create_renter_profile n l access db), r)"
    using assms(1) by (simp add: db fleet_inv_def stations_by_id_def vehicles_by_id_def)
  show "accounts_ok (snd (create_renter_profile n l access db))"
    unfolding db
    by (rule insert_row_cases[of renter_fits "renter_ok db" ?mk "renters db"])
       (use assms(2) in \<open>auto simp: accounts_ok_def wf_table_burn wf_table_append rows_burn rows_append renter_ok_def new_renter_def list_ex_iff\<close>)
  show "grows db (snd (create_renter_profile n l access db))"
    using insert_row_keys[of id] by (simp add: db grows_def rental_states_def)
qed

text \<open>Audit rows are outside of what the script sees.\<close>

lemma audit_db: "\<exists>t. snd (record_audit_event et a s res cid now db) = db\<lparr>audit_events := t\<rparr>"
  unfolding record_audit_event_def
  by (rule add_audit_event_cases[where et = et and r = res and cid = cid and a = a and s = s and now = now and db = db]) auto

lemma snd_map_fst_result: "snd (map_fst_result f m) = snd m"
  by (cases m; cases "fst m") (auto simp: map_fst_result_def)

lemma subject_access_db: "\<exists>t. snd (subject_access et i actor cid now db) = db\<lparr>audit_events := t\<rparr>"
proof -
  have f: "snd (bind_db m (\<lambda>_ db'. (Inl e, db'))) = snd m" for m :: "unit result \<times> database" and e :: exn
    by (cases m; cases "fst m") auto
  have same: "\<exists>t. db = db\<lparr>audit_events := t\<rparr>" by (rule exI[of _ "audit_events db"]) simp
  show ?thesis using audit_db same by (auto simp: subject_access_def Let_def f split: option.split)
qed

lemma profile_endpoint_db:
  "(\<exists>t. snd (privacy_endpoint rv (Profile_body n l) i actor cid now now' db) = db\<lparr>audit_events := t\<rparr>) \<or>
   (\<exists>access. snd (privacy_endpoint rv (Profile_body n l) i actor cid now now' db) = snd (create_renter_profile n l access db))"
proof -
  obtain res t where acc: "subject_access ''renter_profile_create'' i actor cid now db = (res, db\<lparr>audit_events := t\<rparr>)"
    using subject_access_db by (metis prod.collapse)
  show ?thesis
  proof (cases res)
    case (Inr access)
    then have "db\<lparr>audit_events := t\<rparr> = db" using acc subject_access_Inr(1) by blast
    then show ?thesis using acc Inr by (auto simp: privacy_endpoint_def snd_map_fst_result intro: exI[of _ t])
  qed (use acc in \<open>auto simp: privacy_endpoint_def\<close>)
qed

lemma post_renter_profile_kept: "obeys (kept env) (post_renter_profile env token i name licence)"
  unfolding post_renter_profile_def
proof (rule obeys_on_db(1)[where P = grows])
  fix n and w :: world
  let ?h = "case current_user env token n (w_db w) of Inl e \<Rightarrow> (Inl e, w_db w)
     | Inr actor \<Rightarrow> privacy_endpoint (api_random env n) (Profile_body name licence) i actor (api_uuid env n) (api_clock env n) (api_clock env n) (w_db w)"
  assume "sound env w"
  then have s: "fleet_inv (api_dump_st env) (api_dump_v env) (w_db w, w_redis w)" "accounts_ok (w_db w)" by (simp_all add: sound_def)
  have a: "grows (w_db w) ((w_db w)\<lparr>audit_events := t\<rparr>)" "fleet_inv (api_dump_st env) (api_dump_v env) ((w_db w)\<lparr>audit_events := t\<rparr>, w_redis w)"
    "accounts_ok ((w_db w)\<lparr>audit_events := t\<rparr>)" for t
    using s fleet_inv_cong[of "(w_db w)\<lparr>audit_events := t\<rparr>" "w_db w"] by (simp_all add: grows_def rental_states_def accounts_ok_def)
  show "grows (w_db w) (snd ?h) \<and> sound env (w\<lparr>w_db := snd ?h, w_calls := Suc (w_calls w)\<rparr>)"
  proof (cases "current_user env token n (w_db w)")
    case (Inr actor)
    show ?thesis
      using profile_endpoint_db[of "api_random env n" name licence i actor "api_uuid env n" "api_clock env n" "api_clock env n" "w_db w"]
        a create_renter_profile_kept[OF s] by (auto simp: Inr sound_calls)
  qed (use s in \<open>simp add: sound_def\<close>)
qed simp

section \<open>Rentals\<close>

lemma set_row_keys: "(\<And>x. g (f x) = g x) \<Longrightarrow> g ` set (rows (set_row pk i f t)) = g ` set (rows t)"
proof -
  assume "\<And>x. g (f x) = g x"
  then have "map g (rows (set_row pk i f t)) = map g (rows t)" by (simp add: rows_set)
  then show ?thesis by (metis set_map)
qed

lemma start_rental_grows: "grows db (snd (start_rental db i v now))"
  by (rule start_rental_cases[of db i v now])
     (auto simp: grows_def rental_states_def rows_append rows_burn set_row_keys)

lemma start_rental_accounts: "accounts_ok (snd (start_rental db i v now)) = accounts_ok db"
  by (rule start_rental_cases[of db i v now]) (simp_all add: accounts_ok_def)

lemma start_request_db: "fst (snd (start_rental_request f i v now (db, r))) = snd (start_rental db i v now)"
  by (simp add: start_rental_request_def split: prod.split sum.split)

lemma end_request_db: "fst (snd (end_rental_request f i s now (db, r))) = snd (end_rental db i s now)"
  by (simp add: end_rental_request_def split: prod.split sum.split option.split)

lemma post_start_kept:
  assumes "api_ok env"
  shows "obeys (kept env) (post_start env i v)"
  unfolding post_start_def
proof (intro call_kept conjI)
  fix n db r
  assume s: "fleet_inv (api_dump_st env) (api_dump_v env) (db, r)" "accounts_ok db"
  show "fleet_inv (api_dump_st env) (api_dump_v env) (snd (start_rental_request (api_del env n) i v (api_clock env n) (db, r)))"
    using assms s(1) by (intro start_request_inv) (simp_all add: api_ok_def)
qed (simp_all add: start_request_db start_rental_grows start_rental_accounts)

text \<open>Ending the rental that was just started touches no other rental.\<close>

lemma trip_grows:
  assumes ok: "fleet_ok db" and start: "start_rental db i v now = (Inr x, db1)"
  shows "grows db (snd (end_rental db1 (r_id x) s now'))"
    "fst (end_rental db1 (r_id x) s now') = Inr y \<Longrightarrow> (i, COMPLETED) \<in> rental_states (snd (end_rental db1 (r_id x) s now'))"
proof -
  obtain veh where veh: "x = new_rental i veh now (next_id (rentals db))"
    "db1 = db\<lparr>rentals := append_row (new_rental i veh now) (rentals db),
       vehicles := set_row v_id (v_id veh) (\<lambda>v. v\<lparr>v_status := RENTED\<rparr>) (vehicles db)\<rparr>"
    "start_rental_check db v = Inr veh"
    by (rule start_rental_cases[of db i v now]) (use start in auto)
  have g1: "grows db db1" using start_rental_grows[of db i v now] start by simp
  have wf: "wf_table r_id (rentals db)" using ok by (simp add: fleet_ok_def keys_ok_def)
  have old: "r_id y \<noteq> next_id (rentals db)" if "y \<in> set (rows (rentals db))" for y
    using wf that by (auto simp: wf_table_def list_all_iff)
  consider e where "end_rental db1 (r_id x) s now' = (Inl e, db1)"
    | r u where "end_rental_check db1 (r_id x) s = Inr (r, u)" "end_rental db1 (r_id x) s now' = (Inr (completed s now' r),
        db1\<lparr>rentals := set_row r_id (r_id r) (completed s now') (rentals db1), vehicles := set_row v_id (v_id u) (returned s) (vehicles db1)\<rparr>)"
    by (rule end_rental_cases[of db1 "r_id x" s now']) auto
  then have "grows db (snd (end_rental db1 (r_id x) s now')) \<and>
    (fst (end_rental db1 (r_id x) s now') = Inr y \<longrightarrow> (i, COMPLETED) \<in> rental_states (snd (end_rental db1 (r_id x) s now')))"
  proof cases
    case (2 r u)
    have rid: "r_id r = next_id (rentals db)" using 2(1) veh(1) by (auto simp: end_rental_check_Inr dest: get_row_Some)
    have rows: "rows (rentals (snd (end_rental db1 (r_id x) s now'))) = rows (rentals db) @ [completed s now' (new_rental i veh now (next_id (rentals db)))]"
      unfolding 2(2) using old by (auto simp: rows_set rid veh(2) rows_append intro!: map_idI)
    then have st: "rental_states (snd (end_rental db1 (r_id x) s now')) = insert (i, COMPLETED) (rental_states db)"
      by (simp add: rental_states_def new_rental_def)
    have "grows db (snd (end_rental db1 (r_id x) s now'))"
      using g1 st by (auto simp: grows_def 2(2) set_row_keys returned_def)
    then show ?thesis by (simp add: st)
  qed (use g1 in simp)
  then show "grows db (snd (end_rental db1 (r_id x) s now'))"
    "fst (end_rental db1 (r_id x) s now') = Inr y \<Longrightarrow> (i, COMPLETED) \<in> rental_states (snd (end_rental db1 (r_id x) s now'))" by blast+
qed

lemma end_rental_accounts: "accounts_ok (snd (end_rental db i s now)) = accounts_ok db"
  by (rule end_rental_cases[of db i s now]) (simp_all add: accounts_ok_def)

lemma start_request_Inr:
  assumes "start_rental_request f i v now (db, r) = (Inr rental, db1, r1)"
  shows "start_rental db i v now = (Inr (rr_rental rental), db1)"
  using assms by (auto simp: start_rental_request_def split: prod.splits sum.splits)

lemma end_request_Inr:
  assumes "end_rental_request f i s now (db, r) = (Inr rental, db1, r1)"
  shows "\<exists>y. end_rental db i s now = (Inr y, db1)"
  using assms by (auto simp: end_rental_request_def split: prod.splits sum.splits option.splits)

text \<open>A trip: start and end in a row.\<close>

lemma start_and_end_kept:
  assumes "api_ok env"
  shows "obeys (kept env) (start_and_end env i v)"
    "sound env w \<Longrightarrow> start_and_end env i v w = (Inr (), w') \<Longrightarrow> (i, COMPLETED) \<in> rental_states (w_db w')"
proof -
  have k: "kept env w (snd (start_and_end env i v w)) \<and> (sound env w \<longrightarrow> (\<forall>w'. start_and_end env i v w = (Inr (), w') \<longrightarrow> (i, COMPLETED) \<in> rental_states (w_db w')))" for w
  proof (cases "post_start env i v w")
    case (Pair res w1)
    have k1: "kept env w w1" using kept.run[OF post_start_kept[OF assms] Pair] .
    show ?thesis
    proof (cases res)
      case (Inr rental)
      let ?x = "rr_rental rental"
      let ?E = "end_rental (w_db w1) (r_id ?x) (r_start_station_id ?x) (api_clock env (w_calls w1))"
      let ?S = "end_rental_request (api_del env (w_calls w1)) (r_id ?x) (r_start_station_id ?x) (api_clock env (w_calls w1)) (w_db w1, w_redis w1)"
      obtain b w2 where e: "post_end env (r_id ?x) (r_start_station_id ?x) w1 = (b, w2)" by fastforce
      have w2: "w2 = \<lparr>w_db = snd ?E, w_redis = snd (snd ?S), w_calls = Suc (w_calls w1)\<rparr>"
        using arg_cong[OF e, of snd] by (simp add: post_end_def snd_call end_request_db)
      have t: "start_and_end env i v w = (map_sum id (\<lambda>_. ()) b, w2)"
        using Pair Inr e by (cases b) (simp_all add: start_and_end_def script_bind_def script_return_def)
      have "sound env w2 \<and> grows (w_db w) (w_db w2) \<and> w_calls w \<le> w_calls w2 \<and> (\<not> isl b \<longrightarrow> (i, COMPLETED) \<in> rental_states (w_db w2))"
        if s: "sound env w"
      proof -
        have s1: "sound env w1" "w_calls w \<le> w_calls w1" using k1 s by (simp_all add: kept_def)
        have ok: "fleet_ok (w_db w)" using s by (simp add: sound_def fleet_inv_def)
        obtain n where st: "start_rental (w_db w) i v n = (Inr ?x, w_db w1)"
          using Pair Inr by (auto simp: post_start_def call_Inr dest!: start_request_Inr)
        have "fleet_inv (api_dump_st env) (api_dump_v env) (snd ?S)"
          using assms s1 by (intro end_request_inv) (simp_all add: sound_def api_ok_def)
        moreover have "snd ?S = (snd ?E, snd (snd ?S))" using end_request_db by (metis prod.collapse)
        ultimately have "fleet_inv (api_dump_st env) (api_dump_v env) (snd ?E, snd (snd ?S))" by simp
        then have "sound env w2" using s1 by (simp add: sound_def w2 end_rental_accounts)
        moreover have "(i, COMPLETED) \<in> rental_states (snd ?E)" if nb: "\<not> isl b"
        proof -
          obtain y where "b = Inr y" using nb by (cases b) auto
          then obtain z where "fst ?E = Inr z" using e by (auto simp: post_end_def call_Inr dest!: end_request_Inr)
          then show ?thesis by (rule trip_grows(2)[OF ok st])
        qed
        ultimately show ?thesis using trip_grows(1)[OF ok st] s1 by (simp add: w2)
      qed
      then show ?thesis unfolding t kept_def by (cases b) auto
    qed (use k1 Pair in \<open>simp add: start_and_end_def script_bind_def\<close>)
  qed
  show "obeys (kept env) (start_and_end env i v)" using k by (simp add: obeys_def)
  show "sound env w \<Longrightarrow> start_and_end env i v w = (Inr (), w') \<Longrightarrow> (i, COMPLETED) \<in> rental_states (w_db w')" using k by blast
qed

end
