(* ===== verification/SeedRerun.thy ===== *)
theory SeedRerun
  imports SeedDemo
begin

text \<open>
  \<open>scripts/seed_demo.py\<close> is safe to re-run: what a first run leaves behind, why the second
  run finds it, and that the second run changes nothing the fleet or the accounts consist of.
\<close>

section \<open>What a first run leaves\<close>

lemma available_still:
  assumes "api_ok env"
  shows "obeys (still env) (available_vehicle env)"
  unfolding available_vehicle_def
  by (intro still.bind lists_obey assms) (auto intro: still.return still.raise split: option.split)

lemma demo_trip_kept: "api_ok env \<Longrightarrow> obeys (kept env) (demo_trip env i)"
  unfolding demo_trip_def by (intro kept.bind still_kept available_still start_and_end_kept)

lemma demo_start_kept: "api_ok env \<Longrightarrow> obeys (kept env) (demo_start env i)"
  unfolding demo_start_def by (intro kept.bind still_kept available_still post_start_kept kept.return)

lemma kept_sound: "kept env w w' \<Longrightarrow> sound env w \<Longrightarrow> sound env w' \<and> grows (w_db w) (w_db w') \<and> w_calls w \<le> w_calls w'"
  by (simp add: kept_def)

lemma demo_trip_state:
  assumes "api_ok env" "sound env w" "demo_trip env i w = (Inr (), w')"
  shows "(i, COMPLETED) \<in> rental_states (w_db w')"
proof -
  obtain v w1 where v: "available_vehicle env w = (Inr v, w1)" "start_and_end env i (v_id v) w1 = (Inr (), w')"
    using assms(3) by (auto simp: demo_trip_def script_bind_Inr)
  have "sound env w1" using kept.run[OF still_kept[OF available_still[OF assms(1)]] v(1)] assms(2) by (simp add: kept_def)
  then show ?thesis using start_and_end_kept(2)[OF assms(1) _ v(2)] by blast
qed

lemma start_rental_state: "start_rental db i v now = (Inr x, db') \<Longrightarrow> (i, ACTIVE) \<in> rental_states db'"
  by (rule start_rental_cases[of db i v now]) (auto simp: rental_states_def rows_append new_rental_def)

lemma demo_start_state:
  assumes "demo_start env i w = (Inr (), w')"
  shows "(i, ACTIVE) \<in> rental_states (w_db w')"
  using assms start_rental_state
  by (fastforce simp: demo_start_def script_bind_Inr post_start_def call_Inr dest!: start_request_Inr)

text \<open>The accounts: registered under the normalised address, with a password that logs in.\<close>

definition registered_as :: "'t api \<Rightarrow> string \<Rightarrow> string \<Rightarrow> string \<Rightarrow> database \<Rightarrow> bool" where
  "registered_as env email password full_name db =
     (\<exists>p. UserRegister (api_validate_email env) (registration email password full_name) = Inr p \<and>
        normalize_email (ur_email p) \<in> u_email ` set (rows (users db)) \<and>
        user_fits (new_user (ur_email p) (api_hash env password) full_name USER None 0 0))"

definition account_of :: "'t api \<Rightarrow> string \<Rightarrow> string \<Rightarrow> database \<Rightarrow> user \<Rightarrow> bool" where
  "account_of env email password db u =
     (u \<in> set (rows (users db)) \<and> u_email u = normalize_email email \<and> api_verify env password (u_hashed_password u) \<and> u_is_active u)"

definition token_of :: "'t api \<Rightarrow> user \<Rightarrow> 't \<Rightarrow> nat \<Rightarrow> bool" where
  "token_of env u tok n =
     (\<forall>m \<ge> n. decode_access_token (api_decode env) (api_settings env) tok (api_clock env m) = Inr (u_id u))"

lemma registration_fields [simp]:
  "ur_email (registration e p n) = e" "ur_password (registration e p n) = p" "ur_full_name (registration e p n) = n"
  "ur_phone (registration e p n) = None"
  by (simp_all add: registration_def)

lemma UserRegister_only_422: "UserRegister v b = Inl e \<Longrightarrow> e = UNPROCESSABLE"
  by (auto simp: UserRegister_def split: option.splits if_splits)

lemma post_register_state:
  assumes "post_register env email password full_name w = (res, w')" "res = Inr u \<or> res = Inl (HTTPError 409)"
  shows "registered_as env email password full_name (w_db w')"
proof -
  obtain r db where h: "register_endpoint (api_validate_email env) (api_hash env) (registration email password full_name)
      (api_clock env (w_calls w)) (w_db w) = (r, db)" "w_db w' = db"
    and res: "res = (case r of Inl e \<Rightarrow> Inl (HTTPError (hr_status (error_response [] e))) | Inr y \<Rightarrow> Inr y)"
    using assms(1) by (auto simp: post_register_def call_on_db)
  show ?thesis
  proof (cases "UserRegister (api_validate_email env) (registration email password full_name)")
    case (Inl e)
    then show ?thesis using h res assms(2) UserRegister_only_422[OF Inl]
      by (auto simp: register_endpoint_def UNPROCESSABLE_def detail_response_def)
  next
    case (Inr p)
    then have p: "ur_password p = password" "ur_full_name p = full_name" "ur_phone p = None" by (auto simp: UserRegister_Inr)
    have c: "create_user (api_hash env) (w_db w) (ur_email p) password full_name USER None (api_clock env (w_calls w)) = (r, db)"
      using h(1) Inr p by (simp add: register_endpoint_def register_def)
    let ?n = "new_user (ur_email p) (api_hash env password) full_name USER None"
    have "r = Inl DataError \<or> user_fits (?n (api_clock env (w_calls w)) (next_id (users (w_db w)))) \<and>
        normalize_email (ur_email p) \<in> u_email ` set (rows (users db))"
      by (rule create_user_cases[where h = "api_hash env" and db = "w_db w" and email = "ur_email p" and pw = password
            and name = full_name and role = USER and phone = None and now = "api_clock env (w_calls w)"])
         (use c in \<open>auto simp: rows_burn rows_append new_user_def\<close>)
    then have "user_fits (?n 0 0)" "normalize_email (ur_email p) \<in> u_email ` set (rows (users db))"
      using res assms(2) by (auto simp: user_fits_def new_user_def)
    then show ?thesis unfolding registered_as_def using Inr h(2) by blast
  qed
qed

lemma post_login_state:
  assumes "api_ok env" "sound env w" "post_login env email password w = (Inr tok, w')"
  shows "\<exists>u. account_of env email password (w_db w) u \<and> token_of env u (tk_access_token tok) (w_calls w)"
proof -
  let ?now = "api_clock env (w_calls w)"
  have ok: "accounts_ok (w_db w)" using assms(2) by (simp add: sound_def)
  obtain db where l: "login (api_hash env) (api_verify env) (api_encode env) (api_settings env) email password (api_host env) (api_agent env) ?now (w_db w) = (Inr tok, db)"
    using assms(3) by (auto simp: post_login_def call_on_db_Inr)
  then obtain u where u: "fst (authenticate (api_hash env) (api_verify env) (w_db w) email password) = Inr (Some u)"
    and tok: "create_access_token (api_encode env) (api_settings env) (u_id u) (role_value (u_role u)) None ?now = Inr (tk_access_token tok)"
    by (auto simp: login_def bind_db_Inr bind_result_Inr split: sum.splits option.splits)
  have "account_of env email password (w_db w) u"
    using u find_key_Some[of u_email "normalize_email email"]
    by (auto simp: authenticate_def get_user_by_email_ok[OF ok] account_of_def split: option.splits if_splits)
  moreover have "token_of env u (tk_access_token tok) (w_calls w)"
    unfolding token_of_def using assms(1) tok by (auto simp: api_ok_def)
  ultimately show ?thesis by blast
qed

lemma current_user_known:
  assumes "sound env w" "u \<in> set (rows (users (w_db w)))" "u_is_active u" "token_of env u tok n" "n \<le> m"
  shows "current_user env tok m (w_db w) = Inr u"
proof -
  have "get_row u_id (users (w_db w)) (u_id u) = Some u" using assms(1,2) by (intro get_row_mem) (simp_all add: sound_def accounts_ok_def)
  then show ?thesis using assms(3-5) by (simp add: current_user_def get_current_user_def token_of_def)
qed

lemma token_later: "token_of env u tok n \<Longrightarrow> n \<le> m \<Longrightarrow> token_of env u tok m"
  by (simp add: token_of_def)

lemma account_grows: "account_of env email password db u \<Longrightarrow> grows db db' \<Longrightarrow> account_of env email password db' u"
  by (auto simp: account_of_def grows_def)

text \<open>The unique renter of an account.\<close>

lemma renter_of_known:
  assumes "accounts_ok db" "r \<in> set (rows (renters db))" "rt_user_id r = Some (u_id u)"
  shows "renter_of db u = Inr (Some r)"
proof -
  let ?f = "filter (\<lambda>x. rt_user_id x = Some (u_id u)) (rows (renters db))"
  have "?f = [] \<or> (\<exists>x. ?f = [x])" using assms(1) by (intro renters_of_user) (simp add: accounts_ok_def)
  moreover have "r \<in> set ?f" using assms(2,3) by simp
  ultimately have "?f = [r]" by (metis empty_iff list.set(1) set_ConsD)
  then show ?thesis by (simp add: renter_of_def select_rows_def)
qed

lemma my_renter_Inr: "my_renter_profile db u = Inr r \<Longrightarrow> r \<in> set (rows (renters db)) \<and> rt_user_id r = Some (u_id u)"
proof -
  assume "my_renter_profile db u = Inr r"
  then have "renter_of db u = Inr (Some r)" by (auto simp: my_renter_profile_def bind_result_Inr split: option.splits)
  then have "filter (\<lambda>x. rt_user_id x = Some (u_id u)) (rows (renters db)) = [r]"
    by (cases "filter (\<lambda>x. rt_user_id x = Some (u_id u)) (rows (renters db))" rule: scalar_one_or_none.cases)
       (auto simp: renter_of_def select_rows_def)
  then have "r \<in> set (filter (\<lambda>x. rt_user_id x = Some (u_id u)) (rows (renters db)))" by simp
  then show ?thesis by simp
qed

lemma my_rentals_states:
  assumes "accounts_ok db" "r \<in> set (rows (renters db))" "rt_user_id r = Some (u_id u)"
  shows "\<exists>rs. my_rentals now db u = Inr rs \<and> (\<forall>s. any_status s rs \<longleftrightarrow> (rt_id r, s) \<in> rental_states db)"
  using renter_of_known[OF assms]
  by (auto simp: my_rentals_def any_status_def list_ex_iff rental_with_cost_def select_rows_def rental_states_def image_iff eq_commute[of "rt_id r"])

text \<open>A renter the script has dealt with.\<close>

definition seeded :: "'t api \<Rightarrow> string \<Rightarrow> demo_renter \<Rightarrow> database \<Rightarrow> bool" where
  "seeded env password x db = (case x of (email, full_name, licence, keep_active) \<Rightarrow>
     registered_as env email password full_name db \<and>
     (\<exists>u r. account_of env email password db u \<and> r \<in> set (rows (renters db)) \<and> rt_user_id r = Some (u_id u) \<and>
        (rt_id r, COMPLETED) \<in> rental_states db \<and> (keep_active \<longrightarrow> (rt_id r, ACTIVE) \<in> rental_states db)))"

lemma registered_grows: "registered_as env email password full_name db \<Longrightarrow> grows db db' \<Longrightarrow> registered_as env email password full_name db'"
  unfolding registered_as_def grows_def by (meson image_mono subsetD)

lemma seeded_grows: "seeded env password x db \<Longrightarrow> grows db db' \<Longrightarrow> seeded env password x db'"
proof -
  assume x: "seeded env password x db" and g: "grows db db'"
  have "set (rows (renters db)) \<subseteq> set (rows (renters db'))" "rental_states db \<subseteq> rental_states db'" using g by (simp_all add: grows_def)
  then show ?thesis using x registered_grows[OF _ g] account_grows[OF _ g] by (fastforce simp: seeded_def)
qed

lemma register_step_kept:
  "obeys (kept env) (script_catch (script_bind (post_register env email password full_name) (\<lambda>_. script_return ()))
     (\<lambda>e. if e = HTTPError 409 then script_return () else script_raise e))"
  by (intro kept.catch kept.bind post_register_kept kept.return) (simp add: kept.return kept.raise)

lemma ensure_renter_state:
  assumes ok: "api_ok env" and s: "sound env w" and run: "ensure_renter env password email full_name licence w = (Inr (tok, i), w')"
  shows "kept env w w' \<and> registered_as env email password full_name (w_db w') \<and>
    (\<exists>u r. account_of env email password (w_db w') u \<and> token_of env u tok (w_calls w') \<and>
       r \<in> set (rows (renters (w_db w'))) \<and> rt_user_id r = Some (u_id u) \<and> i = rt_id r)"
proof -
  obtain w1 l w2 me w3 r where
    1: "script_catch (script_bind (post_register env email password full_name) (\<lambda>_. script_return ()))
       (\<lambda>e. if e = HTTPError 409 then script_return () else script_raise e) w = (Inr (), w1)" and
    2: "post_login env email password w1 = (Inr l, w2)" "tok = tk_access_token l" and
    3: "get_me env tok w2 = (Inr me, w3)" and
    4: "script_catch (get_my_renter env tok)
         (\<lambda>e. if e \<noteq> HTTPError 404 then script_raise e
              else script_bind (post_renter_profile env tok (u_id me) full_name licence) (\<lambda>_. get_my_renter env tok)) w3 = (Inr r, w')" and
    i: "i = rt_id r"
    using run by (auto simp: ensure_renter_def script_bind_Inr Let_def)
  have k1: "kept env w w1" by (rule kept.run[OF register_step_kept 1])
  have reg: "registered_as env email password full_name (w_db w1)"
    using 1 by (auto simp: script_catch_Inr script_bind_Inr script_bind_def script_return_def intro: post_register_state split: if_splits sum.splits prod.splits)
  have k2: "kept env w1 w2" by (rule kept.run[OF still_kept[OF post_login_still] 2(1)])
  have k3: "kept env w2 w3" by (rule kept.run[OF still_kept[OF reads_still(1)] 3])
  have s1: "sound env w1" using k1 s by (simp add: kept_def)
  have s3: "sound env w3" "grows (w_db w1) (w_db w3)" "w_calls w1 \<le> w_calls w3"
    using kept.trans[OF k2 k3] s1 by (simp_all add: kept_def)
  obtain u where u: "account_of env email password (w_db w1) u" "token_of env u tok (w_calls w1)"
    using post_login_state[OF ok s1 2(1)] 2(2) by blast
  obtain w4 where w4: "kept env w3 w4" "get_my_renter env tok w4 = (Inr r, w')"
  proof (cases "get_my_renter env tok w3 = (Inr r, w')")
    case False
    then obtain e w5 x w6 where f: "get_my_renter env tok w3 = (Inl e, w5)"
      "post_renter_profile env tok (u_id me) full_name licence w5 = (Inr x, w6)" "get_my_renter env tok w6 = (Inr r, w')"
      using 4 by (auto simp: script_catch_Inr script_bind_Inr split: if_splits)
    show ?thesis
      using that[OF kept.trans[OF kept.run[OF still_kept[OF reads_still(2)] f(1)] kept.run[OF post_renter_profile_kept f(2)]] f(3)] .
  qed (use that[OF kept.refl] in blast)
  have k5: "kept env w4 w'" by (rule kept.run[OF still_kept[OF reads_still(2)] w4(2)])
  have s4: "sound env w4" "grows (w_db w3) (w_db w4)" "w_calls w3 \<le> w_calls w4" using w4(1) s3 by (simp_all add: kept_def)
  have u4: "account_of env email password (w_db w4) u" using account_grows[OF u(1)] s3(2) s4(2) grows_trans by blast
  have "current_user env tok (w_calls w4) (w_db w4) = Inr u"
    using u4 s3(3) s4(3) by (intro current_user_known[OF s4(1) _ _ u(2)]) (simp_all add: account_of_def)
  then have w': "w_db w' = w_db w4" "w_calls w' = Suc (w_calls w4)" and r: "my_renter_profile (w_db w4) u = Inr r"
    using w4(2) by (auto simp: get_my_renter_def call_on_db_Inr)
  have "kept env w w'" using kept.trans[OF k1 kept.trans[OF kept.trans[OF k2 k3] kept.trans[OF w4(1) k5]]] .
  moreover have "registered_as env email password full_name (w_db w')"
    using registered_grows[OF reg] s3(2) s4(2) grows_trans w'(1) by metis
  moreover have "token_of env u tok (w_calls w')" using token_later[OF u(2)] s3(3) s4(3) w'(2) by simp
  ultimately show ?thesis using u4 my_renter_Inr[OF r] i unfolding w'(1) by blast
qed

lemma ensure_rentals_state:
  assumes ok: "api_ok env" and s: "sound env w" and run: "ensure_rentals env tok (rt_id r) keep w = (Inr (), w')"
    and u: "u \<in> set (rows (users (w_db w)))" "u_is_active u" "token_of env u tok (w_calls w)"
    and r: "r \<in> set (rows (renters (w_db w)))" "rt_user_id r = Some (u_id u)"
  shows "kept env w w' \<and> (rt_id r, COMPLETED) \<in> rental_states (w_db w') \<and> (keep \<longrightarrow> (rt_id r, ACTIVE) \<in> rental_states (w_db w'))"
proof -
  obtain rs where rs: "my_rentals (api_clock env (w_calls w)) (w_db w) u = Inr rs" "\<And>s. any_status s rs \<longleftrightarrow> (rt_id r, s) \<in> rental_states (w_db w)"
    using my_rentals_states[of "w_db w" r u] s r by (auto simp: sound_def)
  have cu: "current_user env tok (w_calls w) (w_db w) = Inr u" by (rule current_user_known[OF s u order_refl])
  obtain w1 where w1: "get_my_rentals env tok w = (Inr rs, w1)" "w_db w1 = w_db w"
    using rs(1) cu by (simp add: get_my_rentals_def call_def on_db_def)
  obtain w2 where w2: "(if \<not> any_status COMPLETED rs then demo_trip env (rt_id r) else script_return ()) w1 = (Inr (), w2)"
    "(if keep \<and> \<not> any_status ACTIVE rs then demo_start env (rt_id r) else script_return ()) w2 = (Inr (), w')"
    using run w1(1) by (auto simp: ensure_rentals_def script_bind_Inr)
  have k1: "kept env w w1" by (rule kept.run[OF still_kept[OF reads_still(3)] w1(1)])
  have s1: "sound env w1" using k1 s by (simp add: kept_def)
  have k2: "kept env w1 w2"
    using w2(1) kept.run[OF demo_trip_kept[OF ok]] kept.refl by (auto split: if_splits)
  have c: "(rt_id r, COMPLETED) \<in> rental_states (w_db w2)"
    using w2(1) demo_trip_state[OF ok s1] rs(2) w1(2) by (auto split: if_splits)
  have s2: "sound env w2" "grows (w_db w1) (w_db w2)" using k2 s1 by (simp_all add: kept_def)
  have k3: "kept env w2 w'"
    using w2(2) kept.run[OF demo_start_kept[OF ok]] kept.refl by (auto split: if_splits)
  have g3: "grows (w_db w2) (w_db w')" using k3 s2 by (simp add: kept_def)
  have "(rt_id r, ACTIVE) \<in> rental_states (w_db w')" if "keep"
  proof (cases "any_status ACTIVE rs")
    case True
    then show ?thesis using rs(2) w1(2) s2(2) g3 by (auto simp: grows_def)
  qed (use w2(2) that demo_start_state in auto)
  then show ?thesis using kept.trans[OF k1 kept.trans[OF k2 k3]] c g3 by (auto simp: grows_def)
qed

lemma seed_renter_state:
  assumes ok: "api_ok env" and s: "sound env w" and run: "seed_renter env password x w = (Inr (), w')"
  shows "kept env w w' \<and> seeded env password x (w_db w')"
proof -
  obtain email full_name licence keep where x: "x = (email, full_name, licence, keep)" by (cases x)
  obtain tok i w1 where 1: "ensure_renter env password email full_name licence w = (Inr (tok, i), w1)"
    and 2: "ensure_rentals env tok i keep w1 = (Inr (), w')"
    using run x by (auto simp: seed_renter_def script_bind_Inr)
  obtain u r where f: "kept env w w1" "registered_as env email password full_name (w_db w1)" "account_of env email password (w_db w1) u"
    "token_of env u tok (w_calls w1)" "r \<in> set (rows (renters (w_db w1)))" "rt_user_id r = Some (u_id u)" "i = rt_id r"
    using ensure_renter_state[OF ok s 1] by blast
  have s1: "sound env w1" using f(1) s by (simp add: kept_def)
  have u1: "u \<in> set (rows (users (w_db w1)))" "u_is_active u" using f(3) by (simp_all add: account_of_def)
  note e = ensure_rentals_state[OF ok s1 2[unfolded f(7)] u1 f(4,5,6)]
  have g: "grows (w_db w1) (w_db w')" using e s1 by (simp add: kept_def)
  have "r \<in> set (rows (renters (w_db w')))" using f(5) g by (auto simp: grows_def)
  then have "seeded env password x (w_db w')"
    using registered_grows[OF f(2) g] account_grows[OF f(3) g] f(6) e by (auto simp: seeded_def x)
  then show ?thesis using kept.trans[OF f(1)] e by blast
qed

text \<open>A loop establishes for every element what its body establishes for one.\<close>

lemma script_map_state:
  assumes step: "\<And>x w y w'. x \<in> set xs \<Longrightarrow> sound env w \<Longrightarrow> grows db0 (w_db w) \<Longrightarrow> f x w = (Inr y, w') \<Longrightarrow> kept env w w' \<and> F x (w_db w')"
    and stable: "\<And>x db db'. F x db \<Longrightarrow> grows db db' \<Longrightarrow> F x db'"
    and "sound env w" "grows db0 (w_db w)" "script_map f xs w = (Inr ys, w')"
  shows "kept env w w' \<and> length ys = length xs \<and> (\<forall>x \<in> set xs. F x (w_db w'))"
  using assms(1,3-)
proof (induction xs arbitrary: w ys)
  case Nil
  then show ?case by (simp add: kept.refl)
next
  case (Cons x xs)
  obtain y w1 zs where r: "f x w = (Inr y, w1)" "script_map f xs w1 = (Inr zs, w')" "ys = y # zs"
    using Cons.prems(4) by (auto simp: script_bind_Inr)
  have k: "kept env w w1" "F x (w_db w1)" using Cons.prems(1)[OF _ Cons.prems(2,3) r(1)] by simp_all
  have s: "sound env w1" "grows db0 (w_db w1)" using k(1) Cons.prems(2,3) grows_trans by (auto simp: kept_def)
  have i: "kept env w1 w' \<and> length zs = length xs \<and> (\<forall>x \<in> set xs. F x (w_db w'))"
    by (rule Cons.IH[OF Cons.prems(1) s r(2)]) simp_all
  then have "F x (w_db w')" using stable[OF k(2)] s(1) by (simp add: kept_def)
  then show ?case using kept.trans[OF k(1)] i r(3) by simp
qed

text \<open>After a run: every station and vehicle of the tables exists, and every renter is dealt with.\<close>

definition demo_data ::
  "'t api \<Rightarrow> string \<Rightarrow> (string \<times> int) list \<Rightarrow> (string \<times> string \<times> nat) list \<Rightarrow> demo_renter list \<Rightarrow> database \<Rightarrow> bool" where
  "demo_data env password STATIONS VEHICLES RENTERS db =
     ((\<forall>x \<in> set STATIONS. fst x \<in> st_address ` set (rows (stations db))) \<and>
      (\<forall>x \<in> set VEHICLES. fst x \<in> v_license_plate ` set (rows (vehicles db))) \<and>
      (\<forall>x \<in> set RENTERS. seeded env password x db))"

lemma post_station_state:
  "post_station env a c w = (Inr s, w') \<Longrightarrow> a \<in> st_address ` set (rows (stations (w_db w')))"
  by (auto simp: post_station_def call_Inr create_station_def insert_row_def Let_def rows_append new_station_def
      split: prod.splits sum.splits if_splits)

lemma post_vehicle_state:
  "post_vehicle env p m i w = (Inr v, w') \<Longrightarrow> p \<in> v_license_plate ` set (rows (vehicles (w_db w')))"
  by (auto simp: post_vehicle_def call_Inr create_vehicle_def insert_row_def Let_def rows_append new_vehicle_def
      split: prod.splits sum.splits if_splits)

lemma known_station:
  "map_of (rev (map (\<lambda>s. (st_address s, s)) ss)) a = Some s \<Longrightarrow> s \<in> set ss \<and> st_address s = a"
  by (drule map_of_SomeD) auto

lemma known_station_exists:
  "a \<in> st_address ` set ss \<Longrightarrow> \<exists>s. map_of (rev (map (\<lambda>s. (st_address s, s)) ss)) a = Some s"
  by (cases "map_of (rev (map (\<lambda>s. (st_address s, s)) ss)) a") (auto simp: map_of_eq_None_iff image_iff)

lemma by_id_sets [simp]:
  "set (stations_by_id db) = set (rows (stations db))" "set (vehicles_by_id db) = set (rows (vehicles db))"
  by (simp_all add: stations_by_id_def vehicles_by_id_def)

lemma ensure_stations_state:
  assumes ok: "api_ok env" and s: "sound env w" and run: "ensure_stations env STATIONS w = (Inr ss, w')"
  shows "kept env w w' \<and> length ss = length STATIONS \<and> (\<forall>x \<in> set STATIONS. fst x \<in> st_address ` set (rows (stations (w_db w'))))"
proof -
  obtain w1 where l: "get_stations env w = (Inr (stations_by_id (w_db w)), w1)" "w_db w1 = w_db w" "still env w w1"
    using list_runs(1)[OF ok s] by blast
  let ?f = "\<lambda>(address, capacity). case map_of (rev (map (\<lambda>s. (st_address s, s)) (stations_by_id (w_db w)))) address of
      Some s \<Rightarrow> script_return s | None \<Rightarrow> post_station env address capacity"
  have m: "script_map ?f STATIONS w1 = (Inr ss, w')"
    using run l(1) by (simp add: ensure_stations_def script_bind_run)
  have k1: "kept env w w1" using l(3) by (simp add: still_def kept_def unchanged_grows)
  have "kept env w1 w' \<and> length ss = length STATIONS \<and> (\<forall>x \<in> set STATIONS. fst x \<in> st_address ` set (rows (stations (w_db w'))))"
  proof (rule script_map_state[where f = ?f and ?db0.0 = "w_db w"])
    fix x v y v'
    assume h: "sound env v" "grows (w_db w) (w_db v)" "?f x v = (Inr y, v')"
    show "kept env v v' \<and> fst x \<in> st_address ` set (rows (stations (w_db v')))"
    proof (cases "map_of (rev (map (\<lambda>s. (st_address s, s)) (stations_by_id (w_db w)))) (fst x)")
      case None
      then show ?thesis using h(3) kept.run[OF post_station_kept[OF ok]] post_station_state by (cases x) fastforce
    next
      case (Some t)
      then have "fst x \<in> st_address ` set (rows (stations (w_db w)))" using known_station[OF Some] by (metis by_id_sets(1) image_eqI)
      then show ?thesis using h(2,3) Some by (cases x) (auto simp: kept.refl grows_def)
    qed
  qed (use k1 s m l(2) in \<open>auto simp: grows_def kept_def\<close>)
  then show ?thesis using kept.trans[OF k1] by blast
qed

lemma ensure_vehicles_state:
  assumes ok: "api_ok env" and s: "sound env w" and run: "ensure_vehicles env VEHICLES ss w = (Inr (), w')"
  shows "kept env w w' \<and> (\<forall>x \<in> set VEHICLES. fst x \<in> v_license_plate ` set (rows (vehicles (w_db w'))))"
proof -
  obtain w1 where l: "get_vehicles env w = (Inr (vehicles_by_id (w_db w)), w1)" "w_db w1 = w_db w" "still env w w1"
    using list_runs(2)[OF ok s] by blast
  let ?f = "\<lambda>(plate, model, station_index). if plate \<in> set (map v_license_plate (vehicles_by_id (w_db w))) then script_return ()
      else if station_index < length ss then script_bind (post_vehicle env plate model (st_id (ss ! station_index))) (\<lambda>_. script_return ())
      else script_raise List_index"
  obtain us where m: "script_map ?f VEHICLES w1 = (Inr us, w')"
    using run l(1) by (auto simp: ensure_vehicles_def script_bind_run script_bind_Inr)
  have k1: "kept env w w1" using l(3) by (simp add: still_def kept_def unchanged_grows)
  have "kept env w1 w' \<and> length us = length VEHICLES \<and> (\<forall>x \<in> set VEHICLES. fst x \<in> v_license_plate ` set (rows (vehicles (w_db w'))))"
  proof (rule script_map_state[where f = ?f and ?db0.0 = "w_db w"])
    fix x v y v'
    assume h: "sound env v" "grows (w_db w) (w_db v)" "?f x v = (Inr y, v')"
    obtain p m i where x: "x = (p, m, i)" by (cases x)
    show "kept env v v' \<and> fst x \<in> v_license_plate ` set (rows (vehicles (w_db v')))"
    proof (cases "p \<in> v_license_plate ` set (rows (vehicles (w_db w)))")
      case True
      then show ?thesis using h(2,3) x by (auto simp: kept.refl grows_def)
    next
      case False
      then show ?thesis using h(3) kept.run[OF post_vehicle_kept[OF ok]] post_vehicle_state
        by (auto simp: x script_bind_Inr split: if_splits) blast+
    qed
  qed (use k1 s m l(2) in \<open>auto simp: grows_def kept_def\<close>)
  then show ?thesis using kept.trans[OF k1] by blast
qed

lemma first_run:
  assumes ok: "api_ok env" and s: "sound env w" and run: "seed_main env password STATIONS VEHICLES RENTERS w = (Inr res, w')"
  shows "sound env w' \<and> demo_data env password STATIONS VEHICLES RENTERS (w_db w') \<and>
    res = (length STATIONS, length (rows (vehicles (w_db w'))), length (filter (\<lambda>v. v_status v = RENTED) (vehicles_by_id (w_db w'))))"
proof -
  obtain ss w1 w2 us w3 vs where r: "ensure_stations env STATIONS w = (Inr ss, w1)" "ensure_vehicles env VEHICLES ss w1 = (Inr (), w2)"
    "script_map (seed_renter env password) RENTERS w2 = (Inr us, w3)" "get_vehicles env w3 = (Inr vs, w')"
    "res = (length ss, length vs, length (filter (\<lambda>v. v_status v = RENTED) vs))"
    using run by (auto simp: seed_main_def script_bind_Inr)
  note 1 = ensure_stations_state[OF ok s r(1)]
  have s1: "sound env w1" using 1 s by (simp add: kept_def)
  note 2 = ensure_vehicles_state[OF ok s1 r(2)]
  have s2: "sound env w2" "grows (w_db w1) (w_db w2)" using 2 s1 by (simp_all add: kept_def)
  have 3: "kept env w2 w3 \<and> length us = length RENTERS \<and> (\<forall>x \<in> set RENTERS. seeded env password x (w_db w3))"
  proof (rule script_map_state[OF _ seeded_grows s2(1) grows_refl r(3)])
    fix x v and y :: unit and v'
    assume "sound env v" "seed_renter env password x v = (Inr y, v')"
    then show "kept env v v' \<and> seeded env password x (w_db v')" using seed_renter_state[OF ok, of v password x v'] by simp
  qed
  have s3: "sound env w3" "grows (w_db w2) (w_db w3)" using 3 s2 by (simp_all add: kept_def)
  obtain w4 where 4: "get_vehicles env w3 = (Inr (vehicles_by_id (w_db w3)), w4)" "w_db w4 = w_db w3" "still env w3 w4"
    using list_runs(2)[OF ok s3(1)] by blast
  have w': "w' = w4" "vs = vehicles_by_id (w_db w3)" using r(4) 4(1) by simp_all
  have "sound env w'" using 4(3) s3 w' by (simp add: still_def)
  moreover have "demo_data env password STATIONS VEHICLES RENTERS (w_db w')"
    unfolding demo_data_def w' 4(2)
  proof (intro conjI)
    have "st_address ` set (rows (stations (w_db w1))) \<subseteq> st_address ` set (rows (stations (w_db w3)))"
      using grows_trans[OF s2(2) s3(2)] by (simp add: grows_def)
    then show "\<forall>x \<in> set STATIONS. fst x \<in> st_address ` set (rows (stations (w_db w3)))" using 1 by (metis subsetD)
    have "v_license_plate ` set (rows (vehicles (w_db w2))) \<subseteq> v_license_plate ` set (rows (vehicles (w_db w3)))"
      using s3(2) by (simp add: grows_def)
    then show "\<forall>x \<in> set VEHICLES. fst x \<in> v_license_plate ` set (rows (vehicles (w_db w3)))" using 2 by (metis subsetD)
  qed (use 3 in blast)
  ultimately show ?thesis using r(5) conjunct1[OF conjunct2[OF 1]] by (simp add: w' 4(2) vehicles_by_id_def)
qed

section \<open>What a second run finds\<close>

lemma demo_data_grows:
  assumes "demo_data env password STATIONS VEHICLES RENTERS db" "grows db db'"
  shows "demo_data env password STATIONS VEHICLES RENTERS db'"
  unfolding demo_data_def
proof (intro conjI)
  show "\<forall>x \<in> set RENTERS. seeded env password x db'" using assms seeded_grows by (metis demo_data_def)
qed (use assms in \<open>metis demo_data_def grows_def subsetD\<close>)+

lemma post_register_again:
  assumes "sound env w" "registered_as env email password full_name (w_db w)"
  shows "\<exists>w'. post_register env email password full_name w = (Inl (HTTPError 409), w') \<and> still env w w'"
proof -
  obtain p where p: "UserRegister (api_validate_email env) (registration email password full_name) = Inr p"
    "normalize_email (ur_email p) \<in> u_email ` set (rows (users (w_db w)))"
    "user_fits (new_user (ur_email p) (api_hash env password) full_name USER None 0 0)"
    using assms(2) by (auto simp: registered_as_def)
  have f: "ur_password p = password" "ur_full_name p = full_name" "ur_phone p = None" using p(1) by (auto simp: UserRegister_Inr)
  have "user_fits (new_user (ur_email p) (api_hash env password) full_name USER None now i)" for now i
    using p(3) by (simp add: user_fits_def new_user_def)
  then have c: "\<exists>m. create_user (api_hash env) (w_db w) (ur_email p) password full_name USER None now =
      (Inl (EmailAlreadyRegisteredError m), (w_db w)\<lparr>users := burn_id (users (w_db w))\<rparr>)" for now
    by (cases rule: create_user_cases[where h = "api_hash env" and db = "w_db w" and email = "ur_email p" and pw = password
          and name = full_name and role = USER and phone = None and now = now]) (use p(2) in auto)
  obtain m where "register_endpoint (api_validate_email env) (api_hash env) (registration email password full_name) (api_clock env (w_calls w)) (w_db w) =
      (Inl (EmailAlreadyRegisteredError m), (w_db w)\<lparr>users := burn_id (users (w_db w))\<rparr>)"
    using c[of "api_clock env (w_calls w)"] p(1) f by (auto simp: register_endpoint_def register_def)
  then obtain w' where w': "post_register env email password full_name w = (Inl (HTTPError 409), w')"
    "w_db w' = (w_db w)\<lparr>users := burn_id (users (w_db w))\<rparr>"
    by (simp add: post_register_def call_def on_db_def detail_response_def)
  have "kept env w w'" by (rule kept.run[OF post_register_kept w'(1)])
  then have "still env w w'" by (simp add: kept_def still_def unchanged_def w'(2) rows_burn)
  then show ?thesis using w'(1) by blast
qed

lemma post_login_again:
  assumes ok: "api_ok env" and s: "sound env w" and u: "account_of env email password (w_db w) u"
  shows "\<exists>tok w'. post_login env email password w = (Inr tok, w') \<and> still env w w' \<and> token_of env u (tk_access_token tok) (w_calls w)"
proof -
  let ?now = "api_clock env (w_calls w)"
  have acc: "accounts_ok (w_db w)" using s by (simp add: sound_def)
  have mem: "u \<in> set (rows (users (w_db w)))" using u by (simp add: account_of_def)
  have "find (\<lambda>x. u_email x = normalize_email email) (rows (users (w_db w))) = Some u"
    using acc u find_key_iff[of u_email "rows (users (w_db w))" "normalize_email email" u] by (simp add: accounts_ok_def account_of_def)
  then have a: "fst (authenticate (api_hash env) (api_verify env) (w_db w) email password) = Inr (Some u)"
    using u by (simp add: authenticate_def get_user_by_email_ok[OF acc] account_of_def)
  have r: "record_activity (w_db w) (u_id u) ''login'' (api_host env) (api_agent env) ?now =
      (Inr (), (w_db w)\<lparr>user_activity := append_row (activity_row (u_id u) ''login'' (api_host env) (api_agent env) ?now) (user_activity (w_db w))\<rparr>)"
    using ok mem by (intro record_activity_ok) (auto simp: api_ok_def has_id_iff)
  obtain t where t: "create_access_token (api_encode env) (api_settings env) (u_id u) (role_value (u_role u)) None ?now = Inr t"
  proof -
    have "\<forall>c. \<exists>tok. api_encode env c (jwt_secret_key (api_settings env)) (jwt_algorithm (api_settings env)) = Inr tok"
      using ok by (simp add: api_ok_def)
    then show ?thesis using that unfolding create_access_token_def Let_def by blast
  qed
  obtain tok w' where w': "post_login env email password w = (Inr tok, w')" "tk_access_token tok = t"
    using a r t by (simp add: post_login_def call_def on_db_def login_def)
  moreover have "still env w w'" by (rule still.run[OF post_login_still w'(1)])
  moreover have "token_of env u t (w_calls w)" unfolding token_of_def using ok t by (auto simp: api_ok_def)
  ultimately show ?thesis by blast
qed

lemma still_sound: "still env w w' \<Longrightarrow> sound env w \<Longrightarrow> sound env w' \<and> unchanged (w_db w) (w_db w') \<and> w_calls w \<le> w_calls w'"
  by (simp add: still_def)

lemma unchanged_seeded: "seeded env password x db \<Longrightarrow> unchanged db db' \<Longrightarrow> seeded env password x db'"
  using seeded_grows unchanged_grows by blast

lemma reads_again:
  assumes s: "sound env w" and u: "u \<in> set (rows (users (w_db w)))" "u_is_active u" "token_of env u tok (w_calls w)"
    and r: "r \<in> set (rows (renters (w_db w)))" "rt_user_id r = Some (u_id u)"
  shows "\<exists>w'. get_me env tok w = (Inr u, w') \<and> still env w w' \<and> w_db w' = w_db w"
    "\<exists>w'. get_my_renter env tok w = (Inr r, w') \<and> still env w w' \<and> w_db w' = w_db w"
    "\<exists>w' rs. get_my_rentals env tok w = (Inr rs, w') \<and> still env w w' \<and> w_db w' = w_db w \<and>
       (\<forall>s. any_status s rs \<longleftrightarrow> (rt_id r, s) \<in> rental_states (w_db w))"
proof -
  let ?w = "w\<lparr>w_calls := Suc (w_calls w)\<rparr>"
  have cu: "current_user env tok (w_calls w) (w_db w) = Inr u" by (rule current_user_known[OF s u order_refl])
  have st: "still env w ?w" using s by (simp add: still_def sound_def)
  have acc: "accounts_ok (w_db w)" using s by (simp add: sound_def)
  have "get_me env tok w = (Inr u, ?w)" using cu by (simp add: get_me_def call_def on_db_def)
  then show "\<exists>w'. get_me env tok w = (Inr u, w') \<and> still env w w' \<and> w_db w' = w_db w" using st by simp
  have "get_my_renter env tok w = (Inr r, ?w)"
    using cu renter_of_known[OF acc r] by (simp add: get_my_renter_def call_def on_db_def my_renter_profile_def)
  then show "\<exists>w'. get_my_renter env tok w = (Inr r, w') \<and> still env w w' \<and> w_db w' = w_db w" using st by simp
  obtain rs where rs: "my_rentals (api_clock env (w_calls w)) (w_db w) u = Inr rs" "\<forall>s. any_status s rs \<longleftrightarrow> (rt_id r, s) \<in> rental_states (w_db w)"
    using my_rentals_states[OF acc r] by blast
  then have "get_my_rentals env tok w = (Inr rs, ?w)" using cu by (simp add: get_my_rentals_def call_def on_db_def)
  then show "\<exists>w' rs. get_my_rentals env tok w = (Inr rs, w') \<and> still env w w' \<and> w_db w' = w_db w \<and>
       (\<forall>s. any_status s rs \<longleftrightarrow> (rt_id r, s) \<in> rental_states (w_db w))" using st rs(2) by auto
qed

lemma seed_renter_again:
  assumes ok: "api_ok env" and s: "sound env w" and x: "seeded env password x (w_db w)"
  shows "\<exists>w'. seed_renter env password x w = (Inr (), w') \<and> still env w w'"
proof -
  obtain email full_name licence keep where e: "x = (email, full_name, licence, keep)" by (cases x)
  obtain w1 where 1: "post_register env email password full_name w = (Inl (HTTPError 409), w1)" "still env w w1"
    using post_register_again[OF s] x unfolding e seeded_def prod.case by blast
  note s1 = still_sound[OF 1(2) s]
  obtain u r where f: "account_of env email password (w_db w1) u" "r \<in> set (rows (renters (w_db w1)))" "rt_user_id r = Some (u_id u)"
    "(rt_id r, COMPLETED) \<in> rental_states (w_db w1)" "keep \<longrightarrow> (rt_id r, ACTIVE) \<in> rental_states (w_db w1)"
    using unchanged_seeded[OF x conjunct1[OF conjunct2[OF s1]]] unfolding seeded_def e prod.case by blast
  obtain tok w2 where 2: "post_login env email password w1 = (Inr tok, w2)" "still env w1 w2" "token_of env u (tk_access_token tok) (w_calls w1)"
    using post_login_again[OF ok conjunct1[OF s1] f(1)] by blast
  let ?t = "tk_access_token tok"
  note s2 = still_sound[OF 2(2) conjunct1[OF s1]]
  have d2: "renters (w_db w2) = renters (w_db w1)" "rental_states (w_db w2) = rental_states (w_db w1)" "rows (users (w_db w2)) = rows (users (w_db w1))"
    using s2 by (simp_all add: unchanged_def rental_states_def)
  have u: "u \<in> set (rows (users (w_db w2)))" "u_is_active u" "token_of env u ?t (w_calls w2)"
    using f(1) d2(3) token_later[OF 2(3)] s2 by (simp_all add: account_of_def)
  have r: "r \<in> set (rows (renters (w_db w2)))" using f(2) d2(1) by simp
  obtain w3 where 3: "get_me env ?t w2 = (Inr u, w3)" "still env w2 w3" "w_db w3 = w_db w2"
    using reads_again(1)[OF conjunct1[OF s2] u r f(3)] by blast
  note s3 = still_sound[OF 3(2) conjunct1[OF s2]]
  have t3: "token_of env u ?t (w_calls w3)" using token_later[OF u(3)] s3 by simp
  obtain w4 where 4: "get_my_renter env ?t w3 = (Inr r, w4)" "still env w3 w4" "w_db w4 = w_db w3"
    using reads_again(2)[OF conjunct1[OF s3] _ u(2) t3 _ f(3)] u(1) r 3(3) by auto
  note s4 = still_sound[OF 4(2) conjunct1[OF s3]]
  have t4: "token_of env u ?t (w_calls w4)" using token_later[OF t3] s4 by simp
  obtain w5 rs where 5: "get_my_rentals env ?t w4 = (Inr rs, w5)" "still env w4 w5" "\<forall>s. any_status s rs \<longleftrightarrow> (rt_id r, s) \<in> rental_states (w_db w4)"
    using reads_again(3)[OF conjunct1[OF s4] _ u(2) t4 _ f(3)] u(1) r 3(3) 4(3) by auto
  have "seed_renter env password x w = (Inr (), w5)"
    using 1(1) 2(1) 3 4 5 f(4,5) d2(2)
    by (cases keep) (simp_all add: e seed_renter_def ensure_renter_def ensure_rentals_def script_bind_def script_catch_def script_return_def Let_def)
  moreover have "still env w w5" using still.trans[OF 1(2) still.trans[OF 2(2) still.trans[OF 3(2) still.trans[OF 4(2) 5(2)]]]] .
  ultimately show ?thesis by blast
qed

text \<open>A loop whose body succeeds and leaves things as they are does so as a whole.\<close>

lemma script_map_again:
  assumes "\<And>x w. x \<in> set xs \<Longrightarrow> sound env w \<Longrightarrow> unchanged db0 (w_db w) \<Longrightarrow> \<exists>y w'. f x w = (Inr y, w') \<and> still env w w'"
    and "sound env w" "unchanged db0 (w_db w)"
  shows "\<exists>ys w'. script_map f xs w = (Inr ys, w') \<and> still env w w' \<and> length ys = length xs"
  using assms
proof (induction xs arbitrary: w)
  case Nil
  then show ?case by (simp add: script_return_def still.refl)
next
  case (Cons x xs)
  obtain y w1 where 1: "f x w = (Inr y, w1)" "still env w w1" using Cons.prems(1)[of x w] Cons.prems(2,3) by auto
  have s: "sound env w1" "unchanged db0 (w_db w1)" using 1(2) Cons.prems(2,3) by (simp_all add: still_def unchanged_def)
  obtain ys w' where 2: "script_map f xs w1 = (Inr ys, w')" "still env w1 w'" "length ys = length xs"
    using Cons.IH[OF _ s] Cons.prems(1) by auto
  then show ?case using still.trans[OF 1(2) 2(2)] by (simp add: script_bind_def 1(1) script_return_def)
qed

lemma second_run:
  assumes ok: "api_ok env" and s: "sound env w" and d: "demo_data env password STATIONS VEHICLES RENTERS (w_db w)"
  shows "\<exists>w'. seed_main env password STATIONS VEHICLES RENTERS w =
      (Inr (length STATIONS, length (rows (vehicles (w_db w))), length (filter (\<lambda>v. v_status v = RENTED) (vehicles_by_id (w_db w)))), w') \<and>
    still env w w'"
proof -
  obtain w0 where 0: "get_stations env w = (Inr (stations_by_id (w_db w)), w0)" "w_db w0 = w_db w" "still env w w0"
    using list_runs(1)[OF ok s] by blast
  have s0: "sound env w0" using 0(3) s by (simp add: still_def)
  let ?f = "\<lambda>(address, capacity). case map_of (rev (map (\<lambda>s. (st_address s, s)) (stations_by_id (w_db w)))) address of
      Some s \<Rightarrow> script_return s | None \<Rightarrow> post_station env address capacity"
  have "\<exists>y v'. ?f x v = (Inr y, v') \<and> still env v v'" if "x \<in> set STATIONS" for x v
  proof -
    have "fst x \<in> st_address ` set (stations_by_id (w_db w))" using d that by (simp add: demo_data_def)
    from known_station_exists[OF this] show ?thesis by (cases x) (auto simp: script_return_def still.refl)
  qed
  then obtain ss w1 where 1: "script_map ?f STATIONS w0 = (Inr ss, w1)" "still env w0 w1" "length ss = length STATIONS"
    using script_map_again[of STATIONS env "w_db w0" ?f w0] s0 by auto
  have s1: "sound env w1" "unchanged (w_db w) (w_db w1)" using 1(2) s0 0(2) by (simp_all add: still_def)
  obtain w2 where 2: "get_vehicles env w1 = (Inr (vehicles_by_id (w_db w1)), w2)" "w_db w2 = w_db w1" "still env w1 w2"
    using list_runs(2)[OF ok s1(1)] by blast
  have s2: "sound env w2" using 2(3) s1 by (simp add: still_def)
  let ?g = "\<lambda>(plate, model, station_index). if plate \<in> set (map v_license_plate (vehicles_by_id (w_db w1))) then script_return ()
      else if station_index < length ss then script_bind (post_vehicle env plate model (st_id (ss ! station_index))) (\<lambda>_. script_return ())
      else script_raise List_index"
  have "\<exists>y v'. ?g x v = (Inr y, v') \<and> still env v v'" if "x \<in> set VEHICLES" for x v
  proof -
    have "fst x \<in> v_license_plate ` set (vehicles_by_id (w_db w1))" using d that s1(2) by (simp add: demo_data_def unchanged_def)
    then show ?thesis by (cases x) (auto simp: script_return_def still.refl)
  qed
  then obtain us w3 where 3: "script_map ?g VEHICLES w2 = (Inr us, w3)" "still env w2 w3"
    using script_map_again[of VEHICLES env "w_db w2" ?g w2] s2 by auto
  have s3: "sound env w3" "unchanged (w_db w) (w_db w3)" using 3(2) s2 s1(2) 2(2) by (simp_all add: still_def unchanged_def)
  have "\<exists>y v'. seed_renter env password x v = (Inr y, v') \<and> still env v v'"
    if "x \<in> set RENTERS" "sound env v" "unchanged (w_db w) (w_db v)" for x v
  proof -
    have "seeded env password x (w_db w)" using d that(1) by (simp add: demo_data_def)
    then show ?thesis using seed_renter_again[OF ok that(2) unchanged_seeded[OF _ that(3)]] by blast
  qed
  then obtain rs w4 where 4: "script_map (seed_renter env password) RENTERS w3 = (Inr rs, w4)" "still env w3 w4"
    using script_map_again[of RENTERS env "w_db w" "seed_renter env password" w3] s3 by blast
  have s4: "sound env w4" "unchanged (w_db w) (w_db w4)" using 4(2) s3 by (simp_all add: still_def unchanged_def)
  obtain w5 where 5: "get_vehicles env w4 = (Inr (vehicles_by_id (w_db w4)), w5)" "still env w4 w5"
    using list_runs(2)[OF ok s4(1)] by blast
  have v: "vehicles_by_id (w_db w4) = vehicles_by_id (w_db w)" using s4(2) by (simp add: unchanged_def vehicles_by_id_def)
  have "ensure_stations env STATIONS w = (Inr ss, w1)" using 0(1) 1(1) by (simp add: ensure_stations_def script_bind_run Let_def)
  moreover have "ensure_vehicles env VEHICLES ss w1 = (Inr (), w3)"
    using 2(1) 3(1) by (simp add: ensure_vehicles_def script_bind_def script_return_def Let_def)
  ultimately have "seed_main env password STATIONS VEHICLES RENTERS w =
      (Inr (length STATIONS, length (rows (vehicles (w_db w))), length (filter (\<lambda>v. v_status v = RENTED) (vehicles_by_id (w_db w)))), w5)"
    using 4(1) 5(1) 1(3) v by (simp add: seed_main_def script_bind_def script_return_def) (simp add: vehicles_by_id_def)
  moreover have "still env w w5"
    using still.trans[OF 0(3) still.trans[OF 1(2) still.trans[OF 2(3) still.trans[OF 3(2) still.trans[OF 4(2) 5(2)]]]]] .
  ultimately show ?thesis by blast
qed

section \<open>Properties\<close>

text \<open>The same service later: other times, faults and random values.\<close>

definition later_api ::
  "'t api \<Rightarrow> (nat \<Rightarrow> instant) \<Rightarrow> (nat \<Rightarrow> fault) \<Rightarrow> (nat \<Rightarrow> fault) \<Rightarrow> (nat \<Rightarrow> fault) \<Rightarrow> 't api" where
  "later_api env clock f_get f_set f_del = env\<lparr>api_clock := clock, api_get := f_get, api_set := f_set, api_del := f_del\<rparr>"

text \<open>
  C32: the demo script is safe to re-run. If a run over a consistent system ends normally,
  with any tables of stations, vehicles and renters and any Redis faults that let
  invalidations through, then a second run, with other times and faults, ends normally with
  the same summary; it posts no station, vehicle, profile or rental, and the accounts stay
  the same rows.
\<close>

theorem seed_demo_rerun:
  assumes "api_ok env" and "api_ok (later_api env clock f_get f_set f_del)"
    and "fleet_inv (api_dump_st env) (api_dump_v env) (db0, r0)" and "accounts_ok db0"
    and "seed_main env DEMO_PASSWORD STATIONS VEHICLES RENTERS \<lparr>w_db = db0, w_redis = r0, w_calls = 0\<rparr> = (Inr printed, w1)"
  shows "\<exists>w2. seed_main (later_api env clock f_get f_set f_del) DEMO_PASSWORD STATIONS VEHICLES RENTERS (w1\<lparr>w_calls := 0\<rparr>) = (Inr printed, w2) \<and>
    stations (w_db w2) = stations (w_db w1) \<and> vehicles (w_db w2) = vehicles (w_db w1) \<and>
    renters (w_db w2) = renters (w_db w1) \<and> rentals (w_db w2) = rentals (w_db w1) \<and>
    rows (users (w_db w2)) = rows (users (w_db w1)) \<and> fleet_ok (w_db w2) \<and> accounts_ok (w_db w2)"
proof -
  let ?env = "later_api env clock f_get f_set f_del"
  have "sound env \<lparr>w_db = db0, w_redis = r0, w_calls = 0\<rparr>" using assms(3,4) by (simp add: sound_def)
  note run = first_run[OF assms(1) this assms(5)]
  have s: "sound ?env (w1\<lparr>w_calls := 0\<rparr>)" using run by (simp add: sound_def later_api_def)
  have d: "demo_data ?env DEMO_PASSWORD STATIONS VEHICLES RENTERS (w_db (w1\<lparr>w_calls := 0\<rparr>))"
    using run by (simp add: demo_data_def seeded_def registered_as_def account_of_def later_api_def)
  from second_run[OF assms(2) s d] obtain w2 where
    w2: "seed_main ?env DEMO_PASSWORD STATIONS VEHICLES RENTERS (w1\<lparr>w_calls := 0\<rparr>) = (Inr printed, w2)" "still ?env (w1\<lparr>w_calls := 0\<rparr>) w2"
    using run by auto
  then show ?thesis using s by (auto simp: still_def unchanged_def sound_def fleet_inv_def)
qed

section \<open>A small run\<close>

text \<open>A text format for the lists that reads back: lengths in unary, then the characters.\<close>

type_synonym 'a reader = "string \<Rightarrow> ('a \<times> string) option"

definition put_nat :: "nat \<Rightarrow> string" where
  "put_nat n = replicate n CHR ''1'' @ ''0''"

fun take_nat :: "nat reader" where
  "take_nat [] = None"
| "take_nat (c # cs) = (if c = CHR ''1'' then (case take_nat cs of None \<Rightarrow> None | Some (n, rest) \<Rightarrow> Some (Suc n, rest)) else Some (0, cs))"

definition put_int :: "int \<Rightarrow> string" where
  "put_int i = put_nat (if i < 0 then 1 else 0) @ put_nat (nat \<bar>i\<bar>)"

definition take_int :: "int reader" where
  "take_int s = Option.bind (take_nat s) (\<lambda>(sign, s). Option.bind (take_nat s) (\<lambda>(n, s).
     Some (if sign = 1 then - int n else int n, s)))"

definition put_text :: "string \<Rightarrow> string" where
  "put_text s = put_nat (length s) @ s"

definition take_text :: "string reader" where
  "take_text s = Option.bind (take_nat s) (\<lambda>(n, s). Some (take n s, drop n s))"

definition put_station :: "station \<Rightarrow> string" where
  "put_station s = put_int (st_id s) @ put_text (st_address s) @ put_int (st_capacity s)"

definition take_station :: "station reader" where
  "take_station s = Option.bind (take_int s) (\<lambda>(i, s). Option.bind (take_text s) (\<lambda>(a, s). Option.bind (take_int s) (\<lambda>(c, s).
     Some (\<lparr>st_id = i, st_address = a, st_capacity = c\<rparr>, s))))"

definition put_status :: "vehicle_status \<Rightarrow> string" where
  "put_status s = put_nat (case s of AVAILABLE \<Rightarrow> 0 | RENTED \<Rightarrow> 1 | MAINTENANCE \<Rightarrow> 2)"

definition take_status :: "vehicle_status reader" where
  "take_status s = Option.bind (take_nat s) (\<lambda>(n, s). Some (if n = 0 then AVAILABLE else if n = 1 then RENTED else MAINTENANCE, s))"

definition put_vehicle :: "vehicle \<Rightarrow> string" where
  "put_vehicle v = put_int (v_id v) @ put_text (v_license_plate v) @ put_text (v_model v) @ put_status (v_status v) @ put_int (v_station_id v)"

definition take_vehicle :: "vehicle reader" where
  "take_vehicle s = Option.bind (take_int s) (\<lambda>(i, s). Option.bind (take_text s) (\<lambda>(p, s). Option.bind (take_text s) (\<lambda>(m, s).
     Option.bind (take_status s) (\<lambda>(t, s). Option.bind (take_int s) (\<lambda>(k, s).
     Some (\<lparr>v_id = i, v_license_plate = p, v_model = m, v_status = t, v_station_id = k\<rparr>, s))))))"

fun take_many :: "nat \<Rightarrow> 'a reader \<Rightarrow> 'a list reader" where
  "take_many 0 r s = Some ([], s)"
| "take_many (Suc n) r s = Option.bind (r s) (\<lambda>(x, s). Option.bind (take_many n r s) (\<lambda>(xs, s). Some (x # xs, s)))"

definition put_list :: "('a \<Rightarrow> string) \<Rightarrow> 'a list \<Rightarrow> string" where
  "put_list put xs = put_nat (length xs) @ concat (map put xs)"

definition take_list :: "'a reader \<Rightarrow> string \<Rightarrow> 'a list option" where
  "take_list r s = Option.bind (take_nat s) (\<lambda>(n, s). Option.bind (take_many n r s) (\<lambda>(xs, _). Some xs))"

lemma take_put_nat [simp]: "take_nat (put_nat n @ s) = Some (n, s)"
  by (induction n) (simp_all add: put_nat_def)

lemma take_put_int [simp]: "take_int (put_int i @ s) = Some (i, s)"
  by (simp add: take_int_def put_int_def)

lemma take_put_text [simp]: "take_text (put_text x @ s) = Some (x, s)"
  by (simp add: take_text_def put_text_def)

lemma take_put_station [simp]: "take_station (put_station x @ s) = Some (x, s)"
  by (simp add: take_station_def put_station_def)

lemma take_put_status [simp]: "take_status (put_status x @ s) = Some (x, s)"
  by (cases x) (simp_all add: take_status_def put_status_def)

lemma take_put_vehicle [simp]: "take_vehicle (put_vehicle x @ s) = Some (x, s)"
  by (simp add: take_vehicle_def put_vehicle_def)

lemma take_put_list:
  assumes "\<And>x s. r (put x @ s) = Some (x, s)"
  shows "take_list r (put_list put xs) = Some xs"
proof -
  have "take_many (length xs) r (concat (map put xs) @ s) = Some (xs, s)" for s
    by (induction xs arbitrary: s) (simp_all add: assms)
  from this[of "[]"] show ?thesis by (simp add: take_list_def put_list_def)
qed

definition demo_clock :: "nat \<Rightarrow> instant" where
  "demo_clock n = int (min n 60) * 10 ^ 6"

definition demo_api :: "(jwt_claims \<times> string) api" where
  "demo_api = \<lparr>api_settings = production_settings, api_dump_st = put_list put_station, api_load_st = take_list take_station,
     api_dump_v = put_list put_vehicle, api_load_v = take_list take_vehicle, api_validate_email = Some,
     api_hash = (\<lambda>p. CHR ''h'' # p), api_verify = (\<lambda>p h. h = CHR ''h'' # p), api_encode = pair_encode, api_decode = pair_decode,
     api_host = Some ''127.0.0.1'', api_agent = Some ''Python-urllib/3.13'', api_clock = demo_clock,
     api_get = (\<lambda>_. No_fault), api_set = (\<lambda>_. Before RedisTimeoutError), api_del = (\<lambda>_. No_fault),
     api_uuid = (\<lambda>_. ''c-1''), api_random = (\<lambda>_. no_random)\<rparr>"

definition demo_world :: world where
  "demo_world = \<lparr>w_db = empty_db, w_redis = Map.empty, w_calls = 0\<rparr>"

definition demo_run :: "(script_error + nat \<times> nat \<times> nat) \<times> world" where
  "demo_run = seed_main demo_api ''demo12345'' [(''Maidan'', 2)] [(''AA1'', ''Zoe'', 0)] [(''a@b.ua'', ''Ann'', ''L1'', True)] demo_world"

lemma demo_clock_bounds: "n \<le> m \<Longrightarrow> demo_clock n \<le> demo_clock m" "demo_clock m \<le> 60 * 10 ^ 6" "0 \<le> demo_clock n"
  by (simp_all add: demo_clock_def)

lemma demo_api_ok: "api_ok demo_api" "api_ok (later_api demo_api (\<lambda>n. demo_clock n + 10 ^ 12) (\<lambda>_. Before RedisTimeoutError) (\<lambda>_. No_fault) (\<lambda>_. No_fault))"
proof -
  have tok: "pair_decode (c, k) (Some k) a t = Inr (jwt_sub c)" if "jwt_iat c \<le> t" "t < jwt_exp c div 10 ^ 6 * 10 ^ 6" for c k a t
    using that by (simp add: pair_decode_def)
  have late: "t < (x + minutes 30) div 10 ^ 6 * 10 ^ 6" if "t \<le> x + 60 * 10 ^ 6" for t x :: int
    using that by (simp add: minutes_def)
  have dec: "decode_access_token pair_decode production_settings tok (demo_clock m + k) = Inr i"
    if "create_access_token pair_encode production_settings i role None (demo_clock n + k) = Inr tok" "n \<le> m" for i role n m k tok
  proof -
    have "demo_clock n + k \<le> demo_clock m + k" "demo_clock m + k \<le> (demo_clock n + k) + 60 * 10 ^ 6"
      using demo_clock_bounds(1)[OF that(2)] demo_clock_bounds(2)[of m] demo_clock_bounds(3)[of n] by simp_all
    then show ?thesis using that(1) late
      by (auto simp: create_access_token_def pair_encode_def production_settings_def default_settings_def decode_access_token_def pair_decode_def)
  qed
  have enc: "\<exists>tok. pair_encode c (jwt_secret_key production_settings) (jwt_algorithm production_settings) = Inr tok" for c
    by (simp add: pair_encode_def production_settings_def default_settings_def)
  show "api_ok demo_api"
    using dec[where k = 0] enc
    by (auto simp: api_ok_def demo_api_def take_put_list delivered_def redis_fault_def RedisError_def opt_width_def)
  show "api_ok (later_api demo_api (\<lambda>n. demo_clock n + 10 ^ 12) (\<lambda>_. Before RedisTimeoutError) (\<lambda>_. No_fault) (\<lambda>_. No_fault))"
    using dec[where k = "10 ^ 12"] enc
    by (auto simp: api_ok_def demo_api_def later_api_def take_put_list delivered_def redis_fault_def RedisError_def opt_width_def)
qed

theorem seed_demo_rerun_witness:
  "fst demo_run = Inr (1, 1, 1) \<and>
   (\<exists>w2. seed_main (later_api demo_api (\<lambda>n. demo_clock n + 10 ^ 12) (\<lambda>_. Before RedisTimeoutError) (\<lambda>_. No_fault) (\<lambda>_. No_fault)) ''demo12345''
        [(''Maidan'', 2)] [(''AA1'', ''Zoe'', 0)] [(''a@b.ua'', ''Ann'', ''L1'', True)] ((snd demo_run)\<lparr>w_calls := 0\<rparr>) = (Inr (1, 1, 1), w2) \<and>
      rentals (w_db w2) = rentals (w_db (snd demo_run)))"
proof -
  have run: "fst demo_run = Inr (1, 1, 1)" by code_simp
  then have r: "seed_main demo_api ''demo12345'' [(''Maidan'', 2)] [(''AA1'', ''Zoe'', 0)] [(''a@b.ua'', ''Ann'', ''L1'', True)]
      \<lparr>w_db = empty_db, w_redis = Map.empty, w_calls = 0\<rparr> = (Inr (1, 1, 1), snd demo_run)"
    by (metis demo_run_def demo_world_def prod.collapse)
  have "accounts_ok empty_db" by (simp add: accounts_ok_def empty_db_def wf_table_empty rows_empty)
  moreover have "fleet_inv (api_dump_st demo_api) (api_dump_v demo_api) (empty_db, Map.empty)"
    by (simp add: fleet_inv_def fleet_ok_empty current_entry_def)
  ultimately show ?thesis using run seed_demo_rerun[OF demo_api_ok _ _ r] by blast
qed

end
