(* ===== verification/LoadSeed.thy ===== *)
theory LoadSeed
  imports SeedRerun
begin

text \<open>
  \<open>scripts/seed_loadtest.py\<close>: the vehicles for a load test, one telemetry message for each, and the
  wait until Redis has their states. \<open>ensure_load_vehicles\<close> is a script as in \<open>SeedDemo\<close>; the loop that
  looks for free plates ends because finitely many are taken. Lemmas: the script gives exactly as many
  vehicles as asked for, a second run gives the same ones and creates nothing; which vehicle ids give
  messages that the worker accepts; the wait ends.
\<close>

section \<open>Vehicles\<close>

definition PLATE_PREFIX :: string where
  "PLATE_PREFIX = ''LT-''"

definition load_plate :: "nat \<Rightarrow> string" where
  "load_plate number = PLATE_PREFIX @ pad_zeros 4 (str_nat number)"

definition is_load_vehicle :: "vehicle \<Rightarrow> bool" where
  "is_load_vehicle v = (take (length PLATE_PREFIX) (v_license_plate v) = PLATE_PREFIX)"

text \<open>A slice \<open>xs[:count]\<close>: a negative count cuts from the end.\<close>

definition slice_to :: "int \<Rightarrow> 'a list \<Rightarrow> 'a list" where
  "slice_to count xs = (if 0 \<le> count then take (nat count) xs else take (length xs - nat (- count)) xs)"

lemma load_plate_inj: "load_plate m = load_plate n \<Longrightarrow> m = n"
  by (auto simp: load_plate_def dest: pad_str_nat_inj)

lemma finite_taken: "finite {n. k < n \<and> load_plate n \<in> set taken}"
  by (rule finite_subset[of _ "load_plate -` set taken"]) (auto intro: finite_vimageI injI load_plate_inj)

text \<open>The \<open>while\<close> loop: the next number, skipped when its plate is taken.\<close>

function create_until :: "'t api \<Rightarrow> int \<Rightarrow> int \<Rightarrow> string list \<Rightarrow> nat \<Rightarrow> int list \<Rightarrow> int list script" where
  "create_until env count station_id taken number ids =
     (if count \<le> int (length ids) then script_return ids
      else if load_plate (number + 1) \<in> set taken then create_until env count station_id taken (number + 1) ids
      else script_bind (post_vehicle env (load_plate (number + 1)) ''Renault Zoe'' station_id)
        (\<lambda>vehicle. create_until env count station_id taken (number + 1) (ids @ [v_id vehicle])))"
  by pat_completeness auto
termination
proof (relation "measures [\<lambda>(_, count, _, _, _, ids). nat (count - int (length ids)), \<lambda>(_, _, _, taken, number, _). card {n. number < n \<and> load_plate n \<in> set taken}]")
  fix env :: "'t api" and count station_id taken number and ids :: "int list"
  assume "load_plate (number + 1) \<in> set taken"
  then have "{n. number + 1 < n \<and> load_plate n \<in> set taken} \<subset> {n. number < n \<and> load_plate n \<in> set taken}" by auto
  then have "card {n. number + 1 < n \<and> load_plate n \<in> set taken} < card {n. number < n \<and> load_plate n \<in> set taken}"
    by (rule psubset_card_mono[OF finite_taken])
  then show "((env, count, station_id, taken, number + 1, ids), env, count, station_id, taken, number, ids)
    \<in> measures [\<lambda>(_, count, _, _, _, ids). nat (count - int (length ids)), \<lambda>(_, _, _, taken, number, _). card {n. number < n \<and> load_plate n \<in> set taken}]"
    by simp
qed auto

declare create_until.simps [simp del]

definition ensure_load_vehicles :: "'t api \<Rightarrow> int \<Rightarrow> int list script" where
  "ensure_load_vehicles env count = script_bind (get_vehicles env) (\<lambda>listed.
     let existing = filter is_load_vehicle listed
     in if count \<le> int (length existing) then script_return (map v_id (slice_to count existing))
        else script_bind (post_station env ''Lviv, Load Test 1'' count) (\<lambda>station.
          create_until env count (st_id station) (map v_license_plate existing) 0 (map v_id existing)))"

section \<open>What the requests of the script do\<close>

lemma post_vehicle_runs:
  assumes "api_ok env" "sound env w" "has_id st_id (stations (w_db w)) station_id" "plate \<notin> v_license_plate ` set (rows (vehicles (w_db w)))"
    "length plate \<le> 20" "length model \<le> 100"
  shows "\<exists>w'. post_vehicle env plate model station_id w = (Inr (new_vehicle plate model station_id (next_id (vehicles (w_db w)))), w') \<and>
    w_db w' = (w_db w)\<lparr>vehicles := append_row (new_vehicle plate model station_id) (vehicles (w_db w))\<rparr> \<and> sound env w'"
proof -
  let ?db = "w_db w" and ?mk = "new_vehicle plate model station_id" and ?f = "api_del env (w_calls w)"
  obtain s where s: "get_station ?db station_id = Inr s" using assms(3) by (auto simp: get_station_def get_row_has_id)
  have "insert_row vehicle_fits (vehicle_ok ?db) ?mk (vehicles ?db) = (Inr (?mk (next_id (vehicles ?db))), append_row ?mk (vehicles ?db))"
    using assms(3-6) by (auto simp: insert_row_def vehicle_fits_def vehicle_ok_def new_vehicle_def list_ex_iff Let_def)
  moreover have "delivered ?f" using assms(1) by (simp add: api_ok_def)
  ultimately obtain r where c: "create_vehicle ?f plate model station_id (?db, w_redis w) =
      (Inr (?mk (next_id (vehicles ?db))), ?db\<lparr>vehicles := append_row ?mk (vehicles ?db)\<rparr>, r)"
    using s by (simp add: create_vehicle_def invalidate_delivered)
  let ?w = "\<lparr>w_db = ?db\<lparr>vehicles := append_row ?mk (vehicles ?db)\<rparr>, w_redis = r, w_calls = Suc (w_calls w)\<rparr>"
  have p: "post_vehicle env plate model station_id w = (Inr (?mk (next_id (vehicles ?db))), ?w)"
    using c by (simp add: post_vehicle_def call_def)
  have "sound env ?w" using kept.run[OF post_vehicle_kept[OF assms(1)] p] assms(2) by (simp add: kept_def)
  with p show ?thesis by auto
qed

lemma post_station_runs:
  assumes "api_ok env" "sound env w" "length address \<le> 200" "int4 capacity"
  shows "\<exists>w'. post_station env address capacity w = (Inr (new_station address capacity (next_id (stations (w_db w)))), w') \<and>
    w_db w' = (w_db w)\<lparr>stations := append_row (new_station address capacity) (stations (w_db w))\<rparr> \<and> sound env w'"
proof -
  let ?db = "w_db w" and ?mk = "new_station address capacity" and ?f = "api_del env (w_calls w)"
  have "insert_row station_fits (\<lambda>_. True) ?mk (stations ?db) = (Inr (?mk (next_id (stations ?db))), append_row ?mk (stations ?db))"
    using assms(3,4) by (auto simp: insert_row_def station_fits_def new_station_def Let_def)
  moreover have "delivered ?f" using assms(1) by (simp add: api_ok_def)
  ultimately obtain r where c: "create_station ?f address capacity (?db, w_redis w) =
      (Inr (?mk (next_id (stations ?db))), ?db\<lparr>stations := append_row ?mk (stations ?db)\<rparr>, r)"
    by (simp add: create_station_def invalidate_delivered)
  let ?w = "\<lparr>w_db = ?db\<lparr>stations := append_row ?mk (stations ?db)\<rparr>, w_redis = r, w_calls = Suc (w_calls w)\<rparr>"
  have p: "post_station env address capacity w = (Inr (?mk (next_id (stations ?db))), ?w)"
    using c by (simp add: post_station_def call_def)
  have "sound env ?w" using kept.run[OF post_station_kept[OF assms(1)] p] assms(2) by (simp add: kept_def)
  with p show ?thesis by auto
qed

section \<open>The loop\<close>

lemma length_load_plate: "n < 10 ^ 17 \<Longrightarrow> length (load_plate n) \<le> 20"
  using length_str_nat[of n 17] by (simp add: load_plate_def PLATE_PREFIX_def pad_zeros_def)

lemma load_plate_is_load: "is_load_vehicle (new_vehicle (load_plate n) m s i)"
  by (simp add: is_load_vehicle_def new_vehicle_def load_plate_def)

definition room :: "int \<Rightarrow> string list \<Rightarrow> nat \<Rightarrow> int list \<Rightarrow> nat" where
  "room count taken number ids = number + nat (count - int (length ids)) + card {n. number < n \<and> load_plate n \<in> set taken}"

lemma room_skip:
  assumes "load_plate (number + 1) \<in> set taken"
  shows "room count taken (number + 1) ids \<le> room count taken number ids"
proof -
  have "{n. number < n \<and> load_plate n \<in> set taken} = insert (number + 1) {n. number + 1 < n \<and> load_plate n \<in> set taken}"
    using assms by (auto intro: Suc_lessI)
  then have "card {n. number < n \<and> load_plate n \<in> set taken} = Suc (card {n. number + 1 < n \<and> load_plate n \<in> set taken})"
    using finite_taken[of "number + 1" taken] by simp
  then show ?thesis by (simp add: room_def)
qed

lemma room_use:
  assumes "load_plate (number + 1) \<notin> set taken" "\<not> count \<le> int (length ids)"
  shows "room count taken (number + 1) (ids @ [i]) \<le> room count taken number ids" "number + 1 \<le> room count taken number ids"
proof -
  have "card {n. number + 1 < n \<and> load_plate n \<in> set taken} \<le> card {n. number < n \<and> load_plate n \<in> set taken}"
    by (rule card_mono[OF finite_taken]) auto
  then show "room count taken (number + 1) (ids @ [i]) \<le> room count taken number ids" "number + 1 \<le> room count taken number ids"
    using assms(2) by (simp_all add: room_def)
qed

text \<open>Every number that the loop will still try is free, or known to be taken.\<close>

definition free_or_taken :: "string list \<Rightarrow> nat \<Rightarrow> world \<Rightarrow> bool" where
  "free_or_taken taken number w =
     (\<forall>n. number < n \<longrightarrow> load_plate n \<in> set taken \<or> load_plate n \<notin> v_license_plate ` set (rows (vehicles (w_db w))))"

definition added :: "vehicle list \<Rightarrow> world \<Rightarrow> world \<Rightarrow> bool" where
  "added new w w' = (rows (vehicles (w_db w')) = rows (vehicles (w_db w)) @ new \<and> stations (w_db w') = stations (w_db w) \<and>
     list_all is_load_vehicle new \<and> sorted (map v_id new) \<and> (\<forall>v \<in> set new. next_id (vehicles (w_db w)) \<le> v_id v))"

lemma create_until_runs:
  assumes "api_ok env" "sound env w" "has_id st_id (stations (w_db w)) station_id" "free_or_taken taken number w"
    "room count taken number ids < 10 ^ 17"
  shows "\<exists>new w'. create_until env count station_id taken number ids w = (Inr (ids @ map v_id new), w') \<and> sound env w' \<and>
    added new w w' \<and> length new = nat (count - int (length ids))"
  using assms
proof (induction env count station_id taken number ids arbitrary: w rule: create_until.induct)
  case (1 env count station_id taken number ids)
  consider (enough) "count \<le> int (length ids)" | (skip) "\<not> count \<le> int (length ids)" "load_plate (number + 1) \<in> set taken"
    | (use) "\<not> count \<le> int (length ids)" "load_plate (number + 1) \<notin> set taken" by blast
  then show ?case
  proof cases
    case enough
    then show ?thesis using 1(4) by (intro exI[of _ "[]"] exI[of _ w]) (simp add: create_until.simps script_return_def added_def)
  next
    case skip
    have f: "free_or_taken taken (number + 1) w" using 1(6) by (simp add: free_or_taken_def)
    have "room count taken (number + 1) ids < 10 ^ 17" using room_skip[OF skip(2)] 1(7) by (rule order_le_less_trans)
    from 1(1)[OF skip 1(3-5) f this] show ?thesis using skip by (subst create_until.simps) simp
  next
    case use
    let ?plate = "load_plate (number + 1)" and ?i = "next_id (vehicles (w_db w))"
    let ?v = "new_vehicle ?plate ''Renault Zoe'' station_id ?i"
    have free: "?plate \<notin> v_license_plate ` set (rows (vehicles (w_db w)))" using 1(6)[unfolded free_or_taken_def, rule_format, of "number + 1"] use(2) by simp
    have "number + 1 < 10 ^ 17" using room_use(2)[OF use(2,1)] 1(7) by (rule order_le_less_trans)
    then have len: "length ?plate \<le> 20" by (rule length_load_plate)
    obtain w1 where w1: "post_vehicle env ?plate ''Renault Zoe'' station_id w = (Inr ?v, w1)"
        "w_db w1 = (w_db w)\<lparr>vehicles := append_row (new_vehicle ?plate ''Renault Zoe'' station_id) (vehicles (w_db w))\<rparr>" "sound env w1"
      using post_vehicle_runs[OF 1(3,4,5) free len, of "''Renault Zoe''"] by auto
    have st: "has_id st_id (stations (w_db w1)) station_id" using 1(5) w1(2) by simp
    have pl: "v_license_plate ` set (rows (vehicles (w_db w1))) = insert ?plate (v_license_plate ` set (rows (vehicles (w_db w))))"
      using w1(2) by (auto simp: rows_append new_vehicle_def)
    have f: "free_or_taken taken (number + 1) w1"
      unfolding free_or_taken_def pl
    proof (intro allI impI)
      fix n assume n: "number + 1 < n"
      then have "load_plate n \<noteq> ?plate" using load_plate_inj by fastforce
      then show "load_plate n \<in> set taken \<or> load_plate n \<notin> insert ?plate (v_license_plate ` set (rows (vehicles (w_db w))))"
        using 1(6)[unfolded free_or_taken_def, rule_format, of n] n by simp
    qed
    have r: "room count taken (number + 1) (ids @ [v_id ?v]) < 10 ^ 17"
      using room_use(1)[OF use(2,1)] 1(7) by (rule order_le_less_trans)
    obtain new w' where n: "create_until env count station_id taken (number + 1) (ids @ [v_id ?v]) w1 = (Inr ((ids @ [v_id ?v]) @ map v_id new), w')"
        "sound env w'" "added new w1 w'" "length new = nat (count - int (length (ids @ [v_id ?v])))"
      using 1(2)[OF use 1(3) w1(3) st f r] by blast
    have "create_until env count station_id taken number ids w = (Inr (ids @ map v_id (?v # new)), w')"
      using use w1(1) n(1) by (subst create_until.simps) (simp add: script_bind_run)
    moreover have "added (?v # new) w w'"
      using n(3) w1(2) load_plate_is_load[of "number + 1" "''Renault Zoe''" station_id ?i]
      by (auto simp: added_def rows_append next_id_ops new_vehicle_def)
    moreover have "length (?v # new) = nat (count - int (length ids))" using n(4) use(1) by simp
    ultimately show ?thesis using n(2) by blast
  qed
qed

section \<open>A run and its repetition\<close>

lemma insort_before: "\<forall>y \<in> set ys. f x \<le> f y \<Longrightarrow> insort_key f x (zs @ ys) = insort_key f x zs @ ys"
  by (induction zs) (cases ys; auto)+

lemma sort_key_newer:
  assumes "sorted (map f ys)" "\<forall>x \<in> set xs. \<forall>y \<in> set ys. f x \<le> f y"
  shows "sort_key f (xs @ ys) = sort_key f xs @ ys"
  using assms(2)
proof (induction xs)
  case Nil
  then show ?case using sort_key_id_if_sorted[OF assms(1)] by simp
next
  case (Cons x xs)
  then show ?case by (simp add: insort_before)
qed

lemma load_numbers_taken: "card {n. 0 < n \<and> load_plate n \<in> set taken} \<le> length taken"
proof -
  have "card {n. 0 < n \<and> load_plate n \<in> set taken} \<le> card (set taken)"
    by (rule card_inj_on_le[of load_plate]) (auto intro: inj_onI load_plate_inj)
  also have "\<dots> \<le> length taken" by (rule card_length)
  finally show ?thesis .
qed

lemma sound_keys: "sound env w \<Longrightarrow> wf_table v_id (vehicles (w_db w)) \<and> wf_table st_id (stations (w_db w))"
  by (simp add: sound_def fleet_inv_def fleet_ok_def keys_ok_def)

lemma set_vehicles_by_id: "set (vehicles_by_id db) = set (rows (vehicles db))" "length (vehicles_by_id db) = length (rows (vehicles db))"
  by (simp_all add: vehicles_by_id_def)

lemma distinct_vehicles: "wf_table v_id (vehicles db) \<Longrightarrow> distinct (map v_id (vehicles_by_id db))"
  by (simp add: wf_table_def vehicles_by_id_def distinct_map inj_on_def)

lemma added_listing:
  assumes "added new w w'" "wf_table v_id (vehicles (w_db w))"
  shows "vehicles_by_id (w_db w') = vehicles_by_id (w_db w) @ new"
proof -
  have "\<forall>x \<in> set (rows (vehicles (w_db w))). \<forall>y \<in> set new. v_id x \<le> v_id y"
    using assms by (fastforce simp: added_def wf_table_def list_all_iff)
  then show ?thesis using sort_key_newer[of v_id new "rows (vehicles (w_db w))"] assms(1) by (simp add: added_def vehicles_by_id_def)
qed

text \<open>One run: what it returns, and how the list of the service grew.\<close>

lemma ensure_load_run:
  assumes "api_ok env" "sound env w" "0 \<le> count" "count < 2 ^ 31" "length (rows (vehicles (w_db w))) < 2 ^ 31"
  shows "\<exists>new w'. ensure_load_vehicles env count w = (Inr (map v_id (take (nat count) (filter is_load_vehicle (vehicles_by_id (w_db w'))))), w') \<and>
    sound env w' \<and> vehicles_by_id (w_db w') = vehicles_by_id (w_db w) @ new \<and> list_all is_load_vehicle new \<and>
    length new = nat (count - int (length (filter is_load_vehicle (vehicles_by_id (w_db w)))))"
proof -
  let ?old = "filter is_load_vehicle (vehicles_by_id (w_db w))"
  obtain w1 where w1: "get_vehicles env w = (Inr (vehicles_by_id (w_db w)), w1)" "w_db w1 = w_db w" "sound env w1"
    using list_runs(2)[OF assms(1,2)] assms(2) by (auto simp: still_def)
  show ?thesis
  proof (cases "count \<le> int (length ?old)")
    case True
    have "ensure_load_vehicles env count w = (Inr (map v_id (take (nat count) ?old)), w1)"
      using w1(1) True assms(3) by (simp add: ensure_load_vehicles_def script_bind_run script_return_def slice_to_def)
    then show ?thesis using w1(2,3) True by (intro exI[of _ "[]"] exI[of _ w1]) simp
  next
    case False
    let ?st = "new_station ''Lviv, Load Test 1'' count (next_id (stations (w_db w1)))"
    obtain w2 where w2: "post_station env ''Lviv, Load Test 1'' count w1 = (Inr ?st, w2)"
        "w_db w2 = (w_db w1)\<lparr>stations := append_row (new_station ''Lviv, Load Test 1'' count) (stations (w_db w1))\<rparr>" "sound env w2"
      using post_station_runs[OF assms(1) w1(3), of "''Lviv, Load Test 1''" count] assms(3,4) by (auto simp: int4_def)
    have st: "has_id st_id (stations (w_db w2)) (st_id ?st)" using w2(2) by (simp add: has_id_def rows_append new_station_def)
    have v2: "vehicles (w_db w2) = vehicles (w_db w)" using w2(2) w1(2) by simp
    have free: "free_or_taken (map v_license_plate ?old) 0 w2"
      unfolding free_or_taken_def v2
      by (auto simp: set_vehicles_by_id is_load_vehicle_def load_plate_def image_iff) (metis append_eq_conv_conj)
    have "card {n. 0 < n \<and> load_plate n \<in> set (map v_license_plate ?old)} \<le> length ?old" using load_numbers_taken[of "map v_license_plate ?old"] by simp
    also have "\<dots> \<le> length (rows (vehicles (w_db w)))" using length_filter_le set_vehicles_by_id(2) by metis
    finally have "room count (map v_license_plate ?old) 0 (map v_id ?old) < 10 ^ 17"
      using assms(3-5) by (simp add: room_def)
    from create_until_runs[OF assms(1) w2(3) st free this] obtain new w' where
      n: "create_until env count (st_id ?st) (map v_license_plate ?old) 0 (map v_id ?old) w2 = (Inr (map v_id ?old @ map v_id new), w')"
        "sound env w'" "added new w2 w'" "length new = nat (count - int (length ?old))" by auto
    have l: "vehicles_by_id (w_db w') = vehicles_by_id (w_db w) @ new"
      using added_listing[OF n(3)] sound_keys[OF w2(3)] v2 by (simp add: vehicles_by_id_def)
    have a: "list_all is_load_vehicle new" using n(3) by (simp add: added_def)
    then have f: "filter is_load_vehicle new = new" by (simp add: list_all_iff filter_id_conv)
    have "ensure_load_vehicles env count w = (Inr (map v_id (?old @ new)), w')"
      using w1(1) w2(1) n(1) False by (simp add: ensure_load_vehicles_def script_bind_run Let_def)
    moreover have "take (nat count) (?old @ new) = ?old @ new" using n(4) False assms(3) by simp
    ultimately show ?thesis using l f a n(2,4) by (intro exI[of _ new] exI[of _ w']) simp
  qed
qed

text \<open>
  C36: the load-test vehicles are exactly as many as asked for, and the script can be repeated.
  From any consistent system, with Redis faults that let invalidations through, the script ends,
  returns \<open>count\<close> different vehicles that exist and carry a load-test plate, and has created just those
  that were missing; a second run returns the same vehicles and changes nothing in the database.
\<close>

theorem load_vehicles_exact:
  assumes "api_ok env" and "sound env w" and "0 \<le> count" and "count < 2 ^ 31" and "length (rows (vehicles (w_db w))) < 2 ^ 31"
    and "api_ok env'" and "api_dump_st env' = api_dump_st env" and "api_dump_v env' = api_dump_v env"
  shows "\<exists>ids w' w''. ensure_load_vehicles env count w = (Inr ids, w') \<and> length ids = nat count \<and> distinct ids \<and>
    (\<forall>i \<in> set ids. \<exists>v \<in> set (rows (vehicles (w_db w'))). v_id v = i \<and> is_load_vehicle v) \<and>
    length (rows (vehicles (w_db w'))) = length (rows (vehicles (w_db w))) + nat (count - int (length (filter is_load_vehicle (rows (vehicles (w_db w)))))) \<and>
    ensure_load_vehicles env' count w' = (Inr ids, w'') \<and> w_db w'' = w_db w'"
proof -
  obtain new w' where r: "ensure_load_vehicles env count w = (Inr (map v_id (take (nat count) (filter is_load_vehicle (vehicles_by_id (w_db w'))))), w')"
      "sound env w'" "vehicles_by_id (w_db w') = vehicles_by_id (w_db w) @ new" "list_all is_load_vehicle new"
      "length new = nat (count - int (length (filter is_load_vehicle (vehicles_by_id (w_db w)))))"
    using ensure_load_run[OF assms(1-5)] by blast
  let ?all = "filter is_load_vehicle (vehicles_by_id (w_db w'))" and ?ids = "map v_id (take (nat count) (filter is_load_vehicle (vehicles_by_id (w_db w'))))"
  have enough: "count \<le> int (length ?all)" using r(3-5) by (simp add: list_all_iff filter_id_conv)
  have len: "length ?ids = nat count" using enough by simp
  have "distinct (map v_id ?all)" using distinct_vehicles sound_keys[OF r(2)] by (metis distinct_map_filter)
  then have d: "distinct ?ids" by (metis distinct_take take_map)
  have m: "\<forall>i \<in> set ?ids. \<exists>v \<in> set (rows (vehicles (w_db w'))). v_id v = i \<and> is_load_vehicle v"
    by (auto simp: set_vehicles_by_id dest!: in_set_takeD)
  have f: "length (filter is_load_vehicle (vehicles_by_id (w_db w))) = length (filter is_load_vehicle (rows (vehicles (w_db w))))"
    by (simp add: vehicles_by_id_def filter_sort)
  have g: "length (rows (vehicles (w_db w'))) = length (rows (vehicles (w_db w))) + nat (count - int (length (filter is_load_vehicle (rows (vehicles (w_db w))))))"
    using arg_cong[OF r(3), of length] r(5) f by (simp add: set_vehicles_by_id)
  have "sound env' w'" using r(2) assms(7,8) by (simp add: sound_def)
  then obtain w'' where "get_vehicles env' w' = (Inr (vehicles_by_id (w_db w')), w'')" "w_db w'' = w_db w'"
    using list_runs(2)[OF assms(6)] by blast
  then have "ensure_load_vehicles env' count w' = (Inr ?ids, w'')"
    using enough assms(3) by (simp add: ensure_load_vehicles_def script_bind_run script_return_def slice_to_def)
  with r(1) len d m g \<open>w_db w'' = w_db w'\<close> show ?thesis by blast
qed

theorem load_vehicles_exact_witness:
  "\<exists>ids w' w''. ensure_load_vehicles demo_api 2 demo_world = (Inr ids, w') \<and> length ids = 2 \<and> length (rows (vehicles (w_db w'))) = 2 \<and>
     ensure_load_vehicles demo_api 2 w' = (Inr ids, w'') \<and> w_db w'' = w_db w'"
proof -
  have "accounts_ok empty_db" by (simp add: accounts_ok_def empty_db_def wf_table_empty rows_empty)
  moreover have "fleet_inv (api_dump_st demo_api) (api_dump_v demo_api) (empty_db, Map.empty)"
    by (simp add: fleet_inv_def fleet_ok_empty current_entry_def)
  ultimately have s: "sound demo_api demo_world" by (simp add: sound_def demo_world_def)
  have e: "rows (vehicles (w_db demo_world)) = []" by (simp add: demo_world_def empty_db_def rows_empty)
  have b: "(2::int) < 2 ^ 31" "(0::int) \<le> 2" "length (rows (vehicles (w_db demo_world))) < 2 ^ 31" using e by simp_all
  from load_vehicles_exact[OF demo_api_ok(1) s b(2,1,3) demo_api_ok(1) refl refl] show ?thesis unfolding e by fastforce
qed

section \<open>Telemetry\<close>

text \<open>The payload of \<open>publish_telemetry\<close>, as the worker reads it back: sums of binary64 numbers and an integer fuel level.\<close>

definition load_message :: "int \<Rightarrow> instant \<Rightarrow> telemetry_message" where
  "load_message vehicle_id recorded_at =
     \<lparr>tm_vehicle_id = vehicle_id, tm_recorded_at = recorded_at,
      tm_latitude = fl (fl (4984 / 100) + fl (of_int vehicle_id / 10000)),
      tm_longitude = fl (fl (2403 / 100) + fl (of_int vehicle_id / 10000)),
      tm_fuel_level = of_int (40 + vehicle_id mod 60), tm_is_locked = True\<rparr>"

lemma load_latitude_mono: "i \<le> j \<Longrightarrow> tm_latitude (load_message i t) \<le> tm_latitude (load_message j t)"
  by (simp add: load_message_def fl_mono divide_right_mono)

lemma load_longitude_mono: "i \<le> j \<Longrightarrow> tm_longitude (load_message i t) \<le> tm_longitude (load_message j t)"
  by (simp add: load_message_def fl_mono divide_right_mono)

lemma load_limits:
  "tm_latitude (load_message 401600 t) \<le> 90" "90 < tm_latitude (load_message 401601 t)" "tm_longitude (load_message 401600 t) \<le> 180"
  "0 \<le> tm_latitude (load_message 1 t)" "0 \<le> tm_longitude (load_message 1 t)"
  by (simp_all add: load_message_def) (code_simp+)

text \<open>The worker accepts the message of a vehicle exactly up to id 401600; beyond it the latitude leaves its range.\<close>

lemma load_message_valid: "telemetry_valid (load_message vehicle_id t) \<longleftrightarrow> 1 \<le> vehicle_id \<and> vehicle_id \<le> 401600"
proof -
  have "0 \<le> 40 + vehicle_id mod 60" "40 + vehicle_id mod 60 \<le> 100"
    using pos_mod_bound[of 60 vehicle_id] pos_mod_sign[of 60 vehicle_id] by linarith+
  then have "of_int 0 \<le> (of_int (40 + vehicle_id mod 60) :: rat)" "of_int (40 + vehicle_id mod 60) \<le> (of_int 100 :: rat)"
    by (simp_all only: of_int_le_iff)
  then have fuel: "0 \<le> tm_fuel_level (load_message vehicle_id t)" "tm_fuel_level (load_message vehicle_id t) \<le> 100"
    unfolding load_message_def telemetry_message.simps by simp_all
  show ?thesis
  proof (cases "1 \<le> vehicle_id \<and> vehicle_id \<le> 401600")
    case True
    have "0 \<le> tm_latitude (load_message vehicle_id t)" "0 \<le> tm_longitude (load_message vehicle_id t)"
      "tm_latitude (load_message vehicle_id t) \<le> 90" "tm_longitude (load_message vehicle_id t) \<le> 180"
      using load_latitude_mono[of 1 vehicle_id t] load_latitude_mono[of vehicle_id 401600 t] load_longitude_mono[of 1 vehicle_id t]
        load_longitude_mono[of vehicle_id 401600 t] load_limits True by (meson order_trans)+
    then show ?thesis using True fuel by (simp add: telemetry_valid_def) (simp add: load_message_def)
  next
    case False
    then have "vehicle_id \<le> 0 \<or> 401601 \<le> vehicle_id" by linarith
    then have "tm_vehicle_id (load_message vehicle_id t) \<le> 0 \<or> 90 < tm_latitude (load_message vehicle_id t)"
      using load_latitude_mono[of 401601 vehicle_id t] load_limits(2) order_less_le_trans by (fastforce simp: load_message_def)
    then show ?thesis using False by (auto simp: telemetry_valid_def)
  qed
qed

section \<open>Waiting for Redis\<close>

text \<open>
  \<open>seen n i\<close>: in round \<open>n\<close> the state of vehicle \<open>i\<close> came from the cache (an \<open>HTTPError\<close> leaves the vehicle
  pending); \<open>clock n\<close>: the reading of \<open>time.monotonic()\<close> before round \<open>n\<close>. The loop may run as long as the
  clock stands still.
\<close>

partial_function (option) wait_rounds :: "(nat \<Rightarrow> int \<Rightarrow> bool) \<Rightarrow> (nat \<Rightarrow> rat) \<Rightarrow> rat \<Rightarrow> nat \<Rightarrow> int list \<Rightarrow> int list option" where
  "wait_rounds seen clock deadline n pending =
     (if pending = [] \<or> \<not> clock n < deadline then Some pending
      else wait_rounds seen clock deadline (n + 1) (filter (\<lambda>i. \<not> seen n i) pending))"

definition wait_until_cached :: "(nat \<Rightarrow> int \<Rightarrow> bool) \<Rightarrow> rat \<Rightarrow> (nat \<Rightarrow> rat) \<Rightarrow> rat \<Rightarrow> int list \<Rightarrow> (int list + unit) option" where
  "wait_until_cached seen start clock timeout_seconds vehicle_ids =
     map_option (\<lambda>pending. if pending = [] then Inr () else Inl (sort pending))
       (wait_rounds seen clock (start + timeout_seconds) 0 (remdups vehicle_ids))"

lemma clock_mono:
  fixes clock :: "nat \<Rightarrow> rat"
  assumes "\<And>n. clock n + 1 / 2 \<le> clock (n + 1)"
  shows "n \<le> m \<Longrightarrow> clock n \<le> clock m"
proof (rule lift_Suc_mono_le[of clock])
  show "clock k \<le> clock (Suc k)" for k using assms[of k] by simp
qed

lemma wait_rounds_end:
  assumes "\<And>n. clock n + 1 / 2 \<le> clock (n + 1)"
  shows "deadline - clock n \<le> of_nat k / 2 \<Longrightarrow>
    \<exists>left. wait_rounds seen clock deadline n pending = Some left \<and> set left \<subseteq> set pending \<and> (distinct pending \<longrightarrow> distinct left) \<and>
      (\<forall>i \<in> set pending - set left. \<exists>m. n \<le> m \<and> clock m < deadline \<and> seen m i) \<and>
      (\<forall>i \<in> set left. \<forall>m. n \<le> m \<longrightarrow> clock m < deadline \<longrightarrow> \<not> seen m i)"
proof (induction k arbitrary: n pending)
  case 0
  have later: "\<And>m. n \<le> m \<Longrightarrow> clock n \<le> clock m" using clock_mono[of clock n] assms by blast
  show ?case using 0 later by (subst wait_rounds.simps) (fastforce simp: not_less)
next
  case (Suc k)
  have later: "\<And>m. n \<le> m \<Longrightarrow> clock n \<le> clock m" using clock_mono[of clock n] assms by blast
  show ?case
  proof (cases "pending = [] \<or> \<not> clock n < deadline")
    case True
    then show ?thesis using later by (subst wait_rounds.simps) (fastforce simp: not_less)
  next
    case False
    let ?rest = "filter (\<lambda>i. \<not> seen n i) pending"
    have "deadline - clock (n + 1) \<le> of_nat k / 2" using Suc.prems assms[of n] by (simp add: field_simps)
    from Suc.IH[OF this, of ?rest] obtain left where l: "wait_rounds seen clock deadline (n + 1) ?rest = Some left" "set left \<subseteq> set ?rest"
        "distinct ?rest \<longrightarrow> distinct left" "\<forall>i \<in> set ?rest - set left. \<exists>m. n + 1 \<le> m \<and> clock m < deadline \<and> seen m i"
        "\<forall>i \<in> set left. \<forall>m. n + 1 \<le> m \<longrightarrow> clock m < deadline \<longrightarrow> \<not> seen m i" by blast
    have "wait_rounds seen clock deadline n pending = Some left" using False l(1) by (subst wait_rounds.simps) simp
    moreover have "\<exists>m. n \<le> m \<and> clock m < deadline \<and> seen m i" if "i \<in> set pending - set left" for i
      using that l(4) False by (cases "seen n i") (auto intro: Suc_leD)
    moreover have "\<not> seen m i" if "i \<in> set left" "n \<le> m" "clock m < deadline" for i m
      using that l(2,5) by (cases "n = m") auto
    ultimately show ?thesis using l(2,3) by auto
  qed
qed

text \<open>
  The wait always ends, and it ends well exactly if every vehicle was seen in the cache before the deadline;
  otherwise the error names the vehicles that were not.
\<close>

lemma wait_until_cached_ends:
  assumes "\<And>n. clock n + 1 / 2 \<le> clock (n + 1)"
  shows "\<exists>res. wait_until_cached seen start clock timeout_seconds vehicle_ids = Some res \<and>
    (res = Inr () \<longleftrightarrow> (\<forall>i \<in> set vehicle_ids. \<exists>m. clock m < start + timeout_seconds \<and> seen m i)) \<and>
    (\<forall>left. res = Inl left \<longrightarrow> sorted left \<and> set left = {i \<in> set vehicle_ids. \<forall>m. clock m < start + timeout_seconds \<longrightarrow> \<not> seen m i})"
proof -
  let ?deadline = "start + timeout_seconds"
  obtain k where "?deadline - clock 0 \<le> of_nat k / 2" using real_arch_simple[of "(?deadline - clock 0) * 2"] by (auto simp: field_simps)
  from wait_rounds_end[OF assms this, where pending = "remdups vehicle_ids" and seen = seen] obtain left where
    l: "wait_rounds seen clock ?deadline 0 (remdups vehicle_ids) = Some left" "set left \<subseteq> set vehicle_ids"
      "\<forall>i \<in> set vehicle_ids - set left. \<exists>m. clock m < ?deadline \<and> seen m i"
      "\<forall>i \<in> set left. \<forall>m. clock m < ?deadline \<longrightarrow> \<not> seen m i" by auto
  have s: "set left = {i \<in> set vehicle_ids. \<forall>m. clock m < ?deadline \<longrightarrow> \<not> seen m i}" using l(2-4) by blast
  show ?thesis
  proof (cases "left = []")
    case True
    then have "wait_until_cached seen start clock timeout_seconds vehicle_ids = Some (Inr ())" using l(1) by (simp add: wait_until_cached_def)
    then show ?thesis using l(3) True by auto
  next
    case False
    then have "wait_until_cached seen start clock timeout_seconds vehicle_ids = Some (Inl (sort left))" using l(1) by (simp add: wait_until_cached_def)
    moreover obtain i where "i \<in> set left" using False by (cases left) auto
    then have "\<not> (\<forall>i \<in> set vehicle_ids. \<exists>m. clock m < ?deadline \<and> seen m i)" using l(2,4) by blast
    ultimately show ?thesis using s by (intro exI[of _ "Inl (sort left)"]) simp
  qed
qed

section \<open>The script\<close>

text \<open>\<open>env_value\<close>: the environment first, then the first line \<open>NAME=value\<close> of the file.\<close>

definition partition_eq :: "string \<Rightarrow> string \<times> bool \<times> string" where
  "partition_eq s = (takeWhile (\<lambda>c. c \<noteq> CHR ''='') s, CHR ''='' \<in> set s, drop 1 (dropWhile (\<lambda>c. c \<noteq> CHR ''='') s))"

definition env_value :: "(string \<rightharpoonup> string) \<Rightarrow> string list \<Rightarrow> string \<Rightarrow> string result" where
  "env_value environ dotenv name = (case environ name of
       Some v \<Rightarrow> Inr v
     | None \<Rightarrow> (case find (\<lambda>(key, sep, _). sep \<and> key = name) (map (\<lambda>line. partition_eq (strip line)) dotenv) of
          Some (_, _, v) \<Rightarrow> Inr v
        | None \<Rightarrow> Inl (KeyError (name @ '' is neither set in the environment nor in .env''))))"

definition rabbitmq_auth :: "(string \<Rightarrow> string) \<Rightarrow> (string \<rightharpoonup> string) \<Rightarrow> string list \<Rightarrow> string result" where
  "rabbitmq_auth b64encode environ dotenv =
     bind_result (env_value environ dotenv ''RABBITMQ_DEFAULT_USER'') (\<lambda>user.
     bind_result (env_value environ dotenv ''RABBITMQ_DEFAULT_PASS'') (\<lambda>password. Inr (b64encode (user @ '':'' @ password))))"

text \<open>\<open>publish auth m\<close> posts the message to the broker's HTTP interface, which says whether it was routed.\<close>

definition publish_telemetry :: "string result \<Rightarrow> (string \<Rightarrow> telemetry_message \<Rightarrow> bool script) \<Rightarrow> instant \<Rightarrow> int \<Rightarrow> unit script" where
  "publish_telemetry auth publish recorded_at vehicle_id = (case auth of
       Inl e \<Rightarrow> script_raise (Raised e)
     | Inr a \<Rightarrow> script_bind (publish a (load_message vehicle_id recorded_at)) (\<lambda>routed.
         if \<not> routed then script_raise (Raised (RuntimeError ''Telemetry was not routed: is the telemetry-worker running?''))
         else script_return ()))"

definition load_main ::
  "'t api \<Rightarrow> string result \<Rightarrow> (string \<Rightarrow> telemetry_message \<Rightarrow> bool script) \<Rightarrow> instant \<Rightarrow> (int list \<Rightarrow> unit script) \<Rightarrow> int \<Rightarrow> (nat \<times> int \<times> int) script" where
  "load_main env auth publish recorded_at wait count =
     script_bind (ensure_load_vehicles env count) (\<lambda>vehicle_ids.
     script_bind (script_map (publish_telemetry auth publish recorded_at) vehicle_ids) (\<lambda>_.
     script_bind (wait vehicle_ids) (\<lambda>_.
     case vehicle_ids of
       [] \<Rightarrow> script_raise (Raised (ValueError ''min() arg is an empty sequence''))
     | i # ids \<Rightarrow> script_return (length vehicle_ids, fold min ids i, fold max ids i))))"

text \<open>Asked for no vehicles, the script creates none, waits for none and then ends in a \<open>ValueError\<close>.\<close>

lemma load_main_zero:
  assumes "api_ok env" "sound env w" "\<And>w. wait [] w = (Inr (), w)"
  shows "\<exists>w'. load_main env auth publish recorded_at wait 0 w = (Inl (Raised (ValueError ''min() arg is an empty sequence'')), w') \<and> w_db w' = w_db w"
proof -
  obtain w1 where "get_vehicles env w = (Inr (vehicles_by_id (w_db w)), w1)" "w_db w1 = w_db w" using list_runs(2)[OF assms(1,2)] by blast
  then show ?thesis using assms(3)
    by (simp add: load_main_def ensure_load_vehicles_def script_bind_def script_return_def script_raise_def slice_to_def)
qed

text \<open>The real environment wins over the file, and the first line of the file wins over later ones.\<close>

lemma env_value_order:
  "environ name = Some v \<Longrightarrow> env_value environ dotenv name = Inr v"
  "environ name = None \<Longrightarrow> CHR ''='' \<notin> set name \<Longrightarrow> strip line = name @ CHR ''='' # v \<Longrightarrow> env_value environ (line # dotenv) name = Inr v"
  by (auto simp: env_value_def partition_eq_def takeWhile_append dropWhile_append)

end
