(* ===== verification/ServicePages.thy ===== *)
theory ServicePages
  imports AdminApi
begin

text \<open>
  The home pages (\<open>api/home.py\<close>), the service routes of \<open>main.py\<close>, the root of the browser UI
  (\<open>web/__init__.py\<close>), the shared Redis client (\<open>cache.py\<close>) and the thread pool for password
  hashes (\<open>security.py\<close>). Texts are the bytes of their UTF-8 encoding, so the Ukrainian parts of the
  pages are given as bytes; \<open>html.escape\<close> changes ASCII characters only. Lemmas: user data never
  becomes markup, each role sees its own page, at most one Redis client is open.
\<close>

section \<open>Escaping\<close>

definition replace_char :: "char \<Rightarrow> string \<Rightarrow> string \<Rightarrow> string" where
  "replace_char c t s = concat (map (\<lambda>x. if x = c then t else [x]) s)"

text \<open>\<open>html.escape\<close> with \<open>quote=True\<close>: five replacements, the ampersand first.\<close>

definition html_escape :: "string \<Rightarrow> string" where
  "html_escape s = replace_char (CHR 39) ''&#x27;'' (replace_char (CHR 34) ''&quot;'' (replace_char (CHR ''>'') ''&gt;''
     (replace_char (CHR ''<'') ''&lt;'' (replace_char (CHR ''&'') ''&amp;'' s))))"

section \<open>Pages\<close>

definition utf8 :: "nat list \<Rightarrow> string" where
  "utf8 bytes = map char_of bytes"

definition GREETING :: string where
  "GREETING = utf8 [208, 146, 209, 150, 209, 130, 208, 176, 209, 148, 208, 188, 208, 190] @ '', ''"

definition ROLE_LABEL :: string where
  "ROLE_LABEL = '', '' @ utf8 [209, 128, 208, 190, 208, 187, 209, 140] @ '': ''"

definition STUB_NOTICE :: string where
  "STUB_NOTICE = utf8 [208, 161, 209, 130, 208, 190, 209, 128, 209, 150, 208, 189, 208, 186, 208, 176] @ ''-'' @ utf8 [208, 183, 208, 176, 208,
     179, 208, 187, 209, 131, 209, 136, 208, 186, 208, 176] @ ''. '' @ utf8 [208, 160, 208, 190, 208, 183, 208, 180, 209, 150, 208,
     187, 208, 184, 32, 208, 178, 32, 209, 128, 208, 190, 208, 183, 209, 128, 208, 190, 208, 177, 209, 134, 209, 150] @ '':''"

definition USER_TITLE :: string where
  "USER_TITLE = utf8 [208, 154, 208, 176, 208, 177, 209, 150, 208, 189, 208, 181, 209, 130, 32, 208, 190, 209, 128, 208, 181, 208, 189, 208, 180,
     208, 176, 209, 128, 209, 143]"

definition ADMIN_TITLE :: string where
  "ADMIN_TITLE = utf8 [208, 144, 208, 180, 208, 188, 209, 150, 208, 189] @ ''-'' @ utf8 [208, 191, 208, 176, 208, 189, 208, 181, 208, 187, 209,
     140, 32, 208, 176, 208, 178, 209, 130, 208, 190, 208, 191, 208, 176, 209, 128, 208, 186, 209, 131]"

definition USER_SECTIONS :: "string list" where
  "USER_SECTIONS =
     [utf8 [208, 151, 208, 189, 208, 176, 208, 185, 209, 130, 208, 184, 32, 208, 176, 208, 178, 209, 130, 208, 190, 32, 208, 189, 208,
        176, 32, 209, 129, 209, 130, 208, 176, 208, 189, 209, 134, 209, 150, 209, 151],
      utf8 [208, 156, 208, 190, 209, 151, 32, 208, 176, 208, 186, 209, 130, 208, 184, 208, 178, 208, 189, 209, 150, 32, 208, 190, 209,
        128, 208, 181, 208, 189, 208, 180, 208, 184],
      utf8 [208, 134, 209, 129, 209, 130, 208, 190, 209, 128, 209, 150, 209, 143, 32, 208, 191, 208, 190, 209, 151, 208, 183, 208, 180,
        208, 190, 208, 186, 32, 209, 130, 208, 176, 32, 208, 190, 208, 191, 208, 187, 208, 176, 209, 130]]"

definition ADMIN_SECTIONS :: "string list" where
  "ADMIN_SECTIONS =
     [utf8 [208, 161, 209, 130, 208, 176, 208, 189, 209, 134, 209, 150, 209, 151, 32, 209, 130, 208, 176, 32, 208, 176, 208, 178, 209,
        130, 208, 190, 208, 188, 208, 190, 208, 177, 209, 150, 208, 187, 209, 150],
      utf8 [208, 154, 208, 190, 209, 128, 208, 184, 209, 129, 209, 130, 209, 131, 208, 178, 208, 176, 209, 135, 209, 150, 32, 209, 130,
        208, 176, 32, 209, 128, 208, 190, 208, 187, 209, 150],
      utf8 [208, 162, 208, 181, 208, 187, 208, 181, 208, 188, 208, 181, 209, 130, 209, 128, 209, 150, 209, 143, 32, 209, 130, 208, 176,
        32, 209, 129, 209, 130, 208, 176, 208, 189, 32, 208, 176, 208, 178, 209, 130, 208, 190]]"

definition stub_page :: "string \<Rightarrow> user \<Rightarrow> string list \<Rightarrow> string" where
  "stub_page title u sections =
     (let items = concat (map (\<lambda>section. ''<li>'' @ html_escape section @ ''</li>'') sections)
      in ''<!doctype html><html lang='' @ [CHR 39] @ ''uk'' @ [CHR 39] @ ''><head><meta charset='' @ [CHR 39] @ ''utf-8'' @ [CHR 39] @ ''>'' @
         ''<title>'' @ html_escape title @ ''</title></head><body>'' @
         ''<h1>'' @ html_escape title @ ''</h1>'' @
         ''<p>'' @ GREETING @ html_escape (u_full_name u) @ '' ('' @ html_escape (u_email u) @ '')'' @ ROLE_LABEL @ role_value (u_role u) @ ''.</p>'' @
         ''<p>'' @ STUB_NOTICE @ ''</p><ul>'' @ items @ ''</ul>'' @
         ''</body></html>'')"

definition user_home :: "user \<Rightarrow> string result" where
  "user_home u = bind_result (require_user u) (\<lambda>u. Inr (stub_page USER_TITLE u USER_SECTIONS))"

definition admin_home :: "user \<Rightarrow> string result" where
  "admin_home u = bind_result (require_admin u) (\<lambda>u. Inr (stub_page ADMIN_TITLE u ADMIN_SECTIONS))"

text \<open>The router of \<open>/home\<close>.\<close>

definition home_page :: "string \<Rightarrow> user \<Rightarrow> string result" where
  "home_page path u =
     (if path = ''/home/user'' then user_home u
      else if path = ''/home/admin'' then admin_home u
      else Inl (HTTPException 404 ''Not Found''))"

section \<open>Reading a page\<close>

text \<open>
  A page as a browser sees it: what stands between angle brackets is markup, the rest is text in
  which the entities stand for the characters they name.
\<close>

primrec markup :: "bool \<Rightarrow> string \<Rightarrow> string" where
  "markup inside [] = []"
| "markup inside (c # cs) =
     (if c = CHR ''<'' then c # markup True cs else if c = CHR ''>'' then c # markup False cs
      else if inside then c # markup inside cs else markup inside cs)"

primrec plain :: "bool \<Rightarrow> string \<Rightarrow> string" where
  "plain inside [] = []"
| "plain inside (c # cs) =
     (if c = CHR ''<'' then plain True cs else if c = CHR ''>'' then plain False cs
      else if inside then plain inside cs else c # plain inside cs)"

definition entity :: "string \<Rightarrow> (char \<times> string) option" where
  "entity s =
     (if take 4 s = ''amp;'' then Some (CHR ''&'', drop 4 s)
      else if take 3 s = ''lt;'' then Some (CHR ''<'', drop 3 s)
      else if take 3 s = ''gt;'' then Some (CHR ''>'', drop 3 s)
      else if take 5 s = ''quot;'' then Some (CHR 34, drop 5 s)
      else if take 5 s = ''#x27;'' then Some (CHR 39, drop 5 s)
      else None)"

lemma entity_length: "entity s = Some (c, rest) \<Longrightarrow> length rest \<le> length s"
  by (auto simp: entity_def split: if_splits)

function unescape :: "string \<Rightarrow> string" where
  "unescape [] = []"
| "unescape (c # cs) = (if c = CHR ''&'' then (case entity cs of None \<Rightarrow> c # unescape cs | Some (d, rest) \<Rightarrow> d # unescape rest)
     else c # unescape cs)"
  by pat_completeness auto
termination
  by (relation "measure length") (auto dest: entity_length simp: le_imp_less_Suc)

definition escape_char :: "char \<Rightarrow> string" where
  "escape_char c = (if c = CHR ''&'' then ''&amp;'' else if c = CHR ''<'' then ''&lt;'' else if c = CHR ''>'' then ''&gt;''
     else if c = CHR 34 then ''&quot;'' else if c = CHR 39 then ''&#x27;'' else [c])"

lemma html_escape_simps [simp]: "html_escape [] = []" "html_escape (c # cs) = escape_char c @ html_escape cs"
  by (simp_all add: html_escape_def replace_char_def escape_char_def)

lemma unescape_escape: "unescape (html_escape s @ t) = s @ unescape t"
  by (induction s) (auto simp: escape_char_def entity_def)

lemma unescape_html_escape: "unescape (html_escape s) = s"
  using unescape_escape[of s "[]"] by simp

lemma escape_no_brackets: "CHR ''<'' \<notin> set (html_escape s)" "CHR ''>'' \<notin> set (html_escape s)"
  by (induction s) (auto simp: escape_char_def)

definition bracket_free :: "string \<Rightarrow> bool" where
  "bracket_free s = (CHR ''<'' \<notin> set s \<and> CHR ''>'' \<notin> set s)"

lemma markup_free: "bracket_free s \<Longrightarrow> markup False (s @ t) = markup False t"
  by (induction s) (auto simp: bracket_free_def)

lemma plain_free: "bracket_free s \<Longrightarrow> plain False (s @ t) = s @ plain False t"
  by (induction s) (auto simp: bracket_free_def)

definition amp_free :: "string \<Rightarrow> bool" where
  "amp_free s = (CHR ''&'' \<notin> set s)"

lemma unescape_plain: "amp_free s \<Longrightarrow> unescape (s @ t) = s @ unescape t"
  by (induction s) (auto simp: amp_free_def)

lemma bracket_free_escape [simp]: "bracket_free (html_escape s)"
  by (simp add: bracket_free_def escape_no_brackets)

text \<open>The page without the data: its markup, and the text a reader sees.\<close>

definition HOME_MARKUP :: string where
  "HOME_MARKUP = ''<!doctype html><html lang='' @ [CHR 39] @ ''uk'' @ [CHR 39] @ ''><head><meta charset='' @ [CHR 39] @ ''utf-8'' @ [CHR 39] @
     ''><title></title></head><body><h1></h1><p></p><p></p><ul><li></li><li></li><li></li></ul></body></html>''"

definition home_text :: "string \<Rightarrow> string list \<Rightarrow> user \<Rightarrow> string" where
  "home_text title sections u = title @ title @ GREETING @ u_full_name u @ '' ('' @ u_email u @ '')'' @ ROLE_LABEL @ role_value (u_role u) @ ''.'' @
     STUB_NOTICE @ concat sections"

lemma fixed_texts_free [simp]:
  "bracket_free GREETING" "bracket_free ROLE_LABEL" "bracket_free STUB_NOTICE" "amp_free GREETING" "amp_free ROLE_LABEL" "amp_free STUB_NOTICE"
  by (-, code_simp+)

lemma role_value_free [simp]: "bracket_free (role_value r)" "amp_free (role_value r)"
  by (cases r; simp add: bracket_free_def amp_free_def)+

lemma stub_page_markup: "length sections = 3 \<Longrightarrow> markup False (stub_page title u sections) = HOME_MARKUP"
  by (auto simp: stub_page_def HOME_MARKUP_def markup_free length_Suc_conv eval_nat_numeral)

lemma stub_page_text: "length sections = 3 \<Longrightarrow> unescape (plain False (stub_page title u sections)) = home_text title sections u"
  by (auto simp: stub_page_def home_text_def plain_free unescape_escape unescape_html_escape unescape_plain length_Suc_conv eval_nat_numeral)

section \<open>Service routes\<close>

definition ok_response :: "(string \<times> string) list \<Rightarrow> http_response" where
  "ok_response body = \<lparr>hr_status = 200, hr_body = body, hr_headers = []\<rparr>"

definition liveness_check :: http_response where
  "liveness_check = ok_response [(''status'', ''alive'')]"

definition app_info :: "settings \<Rightarrow> string \<Rightarrow> http_response" where
  "app_info cfg hostname = ok_response [(''app'', app_name cfg), (''version'', app_version cfg), (''pod'', hostname)]"

definition app_version_route :: "settings \<Rightarrow> http_response" where
  "app_version_route cfg = ok_response [(''version'', app_version cfg)]"

text \<open>\<open>ping\<close> is what \<open>SELECT 1\<close> raises, if it does.\<close>

definition health_check :: "exn option \<Rightarrow> http_response result" where
  "health_check ping = (case ping of
       Some e \<Rightarrow> Inl e
     | None \<Rightarrow> Inr (ok_response [(''status'', ''ok''), (''db'', ''connected'')]))"

definition UI_PATH :: string where
  "UI_PATH = ''/app''"

definition root_route :: http_response where
  "root_route = \<lparr>hr_status = 307, hr_body = [], hr_headers = [(''location'', UI_PATH @ ''/'')]\<rparr>"

text \<open>What the probes get: the routes above, with the handlers of errors around them.\<close>

definition service_route :: "settings \<Rightarrow> string \<Rightarrow> string \<Rightarrow> exn option \<Rightarrow> string \<Rightarrow> http_response" where
  "service_route cfg hostname request_id ping path =
     (if path = ''/livez'' then liveness_check
      else if path = ''/info'' then app_info cfg hostname
      else if path = ''/version'' then app_version_route cfg
      else if path = ''/health'' then (case health_check ping of Inl e \<Rightarrow> error_response request_id e | Inr r \<Rightarrow> r)
      else if path = ''/'' then root_route
      else detail_response 404 ''Not Found'')"

text \<open>The liveness probe does not depend on the database; the health probe answers 200 exactly when it is up.\<close>

lemma probes:
  "hr_status (service_route cfg hostname request_id ping ''/livez'') = 200"
  "hr_status (service_route cfg hostname request_id None ''/health'') = 200"
  "e \<in> {OSError, DataError, RuntimeError m} \<Longrightarrow> hr_status (service_route cfg hostname request_id (Some e) ''/health'') = 500"
  by (auto simp: service_route_def liveness_check_def ok_response_def health_check_def)

section \<open>The shared Redis client\<close>

text \<open>The module keeps one client; opened clients are numbered in the order of their creation.\<close>

record redis_options =
  ro_url :: string
  ro_socket_timeout :: "rat option"
  ro_socket_connect_timeout :: "rat option"
  ro_retries :: "nat option"

definition create_client :: "settings \<Rightarrow> redis_options" where
  "create_client s =
     (if \<not> resilience_enabled s
      then \<lparr>ro_url = redis_url s, ro_socket_timeout = None, ro_socket_connect_timeout = None, ro_retries = None\<rparr>
      else (let timeout = fl (of_int (redis_attempt_timeout_ms s) / 1000)
            in \<lparr>ro_url = redis_url s, ro_socket_timeout = Some timeout, ro_socket_connect_timeout = Some timeout, ro_retries = Some 0\<rparr>))"

record redis_clients =
  rc_current :: "nat option"
  rc_opened :: "redis_options list"
  rc_closed :: "nat list"

definition get_redis :: "settings \<Rightarrow> redis_clients \<Rightarrow> nat \<times> redis_clients" where
  "get_redis s st = (case rc_current st of
       Some i \<Rightarrow> (i, st)
     | None \<Rightarrow> (let i = length (rc_opened st) in (i, st\<lparr>rc_current := Some i, rc_opened := rc_opened st @ [create_client s]\<rparr>)))"

definition close_redis :: "redis_clients \<Rightarrow> redis_clients" where
  "close_redis st = (case rc_current st of
       Some i \<Rightarrow> st\<lparr>rc_closed := i # rc_closed st, rc_current := None\<rparr>
     | None \<Rightarrow> st)"

text \<open>The life of the application: the check, the requests, the clean-up.\<close>

definition lifespan :: "settings \<Rightarrow> (redis_clients \<Rightarrow> redis_clients) \<Rightarrow> redis_clients \<Rightarrow> unit result \<times> redis_clients" where
  "lifespan cfg serve st = (case lifespan_start cfg of
       Inl e \<Rightarrow> (Inl e, st)
     | Inr _ \<Rightarrow> (Inr (), close_redis (serve st)))"

definition no_clients :: redis_clients where
  "no_clients = \<lparr>rc_current = None, rc_opened = [], rc_closed = []\<rparr>"

inductive client_step :: "redis_clients \<Rightarrow> redis_clients \<Rightarrow> bool" where
  get: "client_step st (snd (get_redis s st))"
| close: "client_step st (close_redis st)"

definition clients_ok :: "redis_clients \<Rightarrow> bool" where
  "clients_ok st = (distinct (rc_closed st) \<and>
     set (rc_closed st) = {..< length (rc_opened st)} - set_option (rc_current st) \<and> set_option (rc_current st) \<subseteq> {..< length (rc_opened st)})"

lemma get_redis_ok: "clients_ok st \<Longrightarrow> clients_ok (snd (get_redis s st))"
  by (cases "rc_current st") (simp_all add: clients_ok_def get_redis_def Let_def lessThan_Suc)

lemma close_redis_ok: "clients_ok st \<Longrightarrow> clients_ok (close_redis st)"
  by (cases "rc_current st") (auto simp: clients_ok_def close_redis_def)

interpretation clients: transition_system client_step clients_ok
  by unfold_locales (auto elim!: client_step.cases intro: get_redis_ok close_redis_ok)

text \<open>Every client but the one in use has been closed, once; after a close none is open, and a client in use is used again.\<close>

lemma one_client_open:
  assumes "client_step\<^sup>*\<^sup>* no_clients st"
  shows "distinct (rc_closed st) \<and> set (rc_closed st) = {..< length (rc_opened st)} - set_option (rc_current st)"
    "set (rc_closed (close_redis st)) = {..< length (rc_opened (close_redis st))}"
    "fst (get_redis s st') = i \<Longrightarrow> get_redis s' (snd (get_redis s st')) = (i, snd (get_redis s st'))"
proof -
  have ok: "clients_ok st" using clients.reach_inv[OF assms] by (simp add: clients_ok_def no_clients_def lessThan_0)
  then show "distinct (rc_closed st) \<and> set (rc_closed st) = {..< length (rc_opened st)} - set_option (rc_current st)"
    by (simp add: clients_ok_def)
  have "clients_ok (close_redis st)" using ok clients.step_inv client_step.close by blast
  then show "set (rc_closed (close_redis st)) = {..< length (rc_opened (close_redis st))}"
    by (auto simp: clients_ok_def close_redis_def split: option.splits)
  show "fst (get_redis s st') = i \<Longrightarrow> get_redis s' (snd (get_redis s st')) = (i, snd (get_redis s st'))"
    by (auto simp: get_redis_def Let_def split: option.splits)
qed

section \<open>Hashing off the event loop\<close>

datatype runs_on = Event_loop | Hash_thread

definition hash_executor :: "settings \<Rightarrow> nat option" where
  "hash_executor s = (if 0 < password_hash_workers s then Some (nat (password_hash_workers s)) else None)"

definition hash_password_async :: "settings \<Rightarrow> (string \<Rightarrow> string) \<Rightarrow> string \<Rightarrow> runs_on \<times> string" where
  "hash_password_async s hash_password password = (case hash_executor s of
       None \<Rightarrow> (Event_loop, hash_password password)
     | Some _ \<Rightarrow> (Hash_thread, hash_password password))"

definition verify_password_async :: "settings \<Rightarrow> (string \<Rightarrow> string \<Rightarrow> bool) \<Rightarrow> string \<Rightarrow> string \<Rightarrow> runs_on \<times> bool" where
  "verify_password_async s verify_password password hashed_password = (case hash_executor s of
       None \<Rightarrow> (Event_loop, verify_password password hashed_password)
     | Some _ \<Rightarrow> (Hash_thread, verify_password password hashed_password))"

text \<open>The default settings keep every hash off the loop; the answers do not depend on where they are computed.\<close>

lemma default_hashes_off_loop:
  "fst (hash_password_async (default_settings url) h p) = Hash_thread"
  "snd (verify_password_async s v p x) = v p x" "snd (hash_password_async s h p) = h p"
  by (simp_all add: hash_password_async_def verify_password_async_def hash_executor_def default_settings_def)

section \<open>The properties\<close>

text \<open>
  C26: a home page is for its own role and shows data only as text. A page answers exactly at the home
  address of the user's role; its markup is the same for every user, whatever name and address they
  registered with; and the text a browser shows contains the name and the address as they are stored.
\<close>

theorem home_page_shows_data_as_text:
  "case home_page path u of
     Inl e \<Rightarrow> path \<noteq> HOME_URLS (u_role u) \<and> (e = HTTPException 403 ''Insufficient permissions'' \<or> e = HTTPException 404 ''Not Found'')
   | Inr page \<Rightarrow> path = HOME_URLS (u_role u) \<and> markup False page = HOME_MARKUP \<and>
       unescape (plain False page) = (case u_role u of USER \<Rightarrow> home_text USER_TITLE USER_SECTIONS u | ADMIN \<Rightarrow> home_text ADMIN_TITLE ADMIN_SECTIONS u)"
proof -
  have n: "length USER_SECTIONS = 3" "length ADMIN_SECTIONS = 3" by (simp_all add: USER_SECTIONS_def ADMIN_SECTIONS_def)
  show ?thesis
    by (cases "u_role u") (simp_all add: home_page_def user_home_def admin_home_def require_user_def require_admin_def require_roles_def
        stub_page_markup[OF n(1)] stub_page_markup[OF n(2)] stub_page_text[OF n(1)] stub_page_text[OF n(2)])
qed

end
