(* ===== verification/Worker.thy ===== *)
theory Worker
  imports VehicleState "HOL-Library.Multiset"
begin

text \<open>
  \<open>telemetry/worker.py\<close>, \<open>run\<close>: the loop that consumes the queue, as a step relation. The
  broker is a parameter, a record of the operations that the worker and the simulator call; what
  is relied on is \<open>broker_ok\<close>: a delivery takes a message from the queue, at most
  \<open>PREFETCH_COUNT\<close> are out at a time, a settled message is gone, and what was out comes back
  when the connection ends. The worker may stop at any point of a message (\<open>crash_points\<close>), by a
  signal, a crash or a failing acknowledgement, and be started again. Lemmas: nothing that was
  published is lost; without faults everything is settled after a bounded number of steps.
\<close>

section \<open>The broker\<close>

record ('q, 'b) broker =
  br_publish :: "'b \<Rightarrow> 'q \<Rightarrow> 'q"
  br_deliver :: "nat \<Rightarrow> 'q \<Rightarrow> ((nat \<times> 'b) \<times> 'q) option"
  br_ack :: "nat \<Rightarrow> 'q \<Rightarrow> 'q"
  br_drop :: "nat \<Rightarrow> 'q \<Rightarrow> 'q"
  br_requeue :: "nat \<Rightarrow> 'q \<Rightarrow> 'q"
  br_lost :: "'q \<Rightarrow> 'q"
  br_ready :: "'q \<Rightarrow> 'b multiset"
  br_unacked :: "'q \<Rightarrow> (nat \<times> 'b) list"

text \<open>
  \<open>br_ready\<close> and \<open>br_unacked\<close> are what the queue holds: messages to be delivered, and messages
  that the consumer has not settled yet with their delivery tags.
\<close>

definition publishes_ok :: "('q, 'b) broker \<Rightarrow> bool" where
  "publishes_ok br = (\<forall>b q. br_ready br (br_publish br b q) = add_mset b (br_ready br q) \<and>
     br_unacked br (br_publish br b q) = br_unacked br q)"

definition delivers_ok :: "('q, 'b) broker \<Rightarrow> bool" where
  "delivers_ok br = (\<forall>n q. case br_deliver br n q of
       None \<Rightarrow> br_ready br q = {#} \<or> n \<le> length (br_unacked br q)
     | Some (d, q') \<Rightarrow> br_ready br q = add_mset (snd d) (br_ready br q') \<and> br_unacked br q' = br_unacked br q @ [d] \<and>
         length (br_unacked br q) < n)"

definition settles_ok :: "('q, 'b) broker \<Rightarrow> bool" where
  "settles_ok br = (\<forall>q xs tag b ys. br_unacked br q = xs @ (tag, b) # ys \<longrightarrow> tag \<notin> fst ` set xs \<longrightarrow>
     (br_unacked br (br_ack br tag q) = xs @ ys \<and> br_ready br (br_ack br tag q) = br_ready br q) \<and>
     (br_unacked br (br_drop br tag q) = xs @ ys \<and> br_ready br (br_drop br tag q) = br_ready br q) \<and>
     (br_unacked br (br_requeue br tag q) = xs @ ys \<and> br_ready br (br_requeue br tag q) = add_mset b (br_ready br q)))"

definition returns_ok :: "('q, 'b) broker \<Rightarrow> bool" where
  "returns_ok br = (\<forall>q. br_unacked br (br_lost br q) = [] \<and>
     br_ready br (br_lost br q) = br_ready br q + mset (map snd (br_unacked br q)))"

definition broker_ok :: "('q, 'b) broker \<Rightarrow> bool" where
  "broker_ok br = (publishes_ok br \<and> delivers_ok br \<and> settles_ok br \<and> returns_ok br)"

lemma broker_publish:
  "broker_ok br \<Longrightarrow> br_ready br (br_publish br b q) = add_mset b (br_ready br q)"
  "broker_ok br \<Longrightarrow> br_unacked br (br_publish br b q) = br_unacked br q"
  by (simp_all add: broker_ok_def publishes_ok_def)

lemma broker_deliver_cases:
  assumes "broker_ok br"
  shows "case br_deliver br n q of
       None \<Rightarrow> br_ready br q = {#} \<or> n \<le> length (br_unacked br q)
     | Some (d, q') \<Rightarrow> br_ready br q = add_mset (snd d) (br_ready br q') \<and> br_unacked br q' = br_unacked br q @ [d] \<and>
         length (br_unacked br q) < n"
  using assms unfolding broker_ok_def delivers_ok_def by blast

lemma broker_deliver:
  assumes "broker_ok br" "br_deliver br n q = Some (d, q')"
  shows "br_ready br q = add_mset (snd d) (br_ready br q')" "br_unacked br q' = br_unacked br q @ [d]"
    "length (br_unacked br q) < n"
  using broker_deliver_cases[OF assms(1), where n = n and q = q] assms(2) by simp_all

lemma broker_idle: "broker_ok br \<Longrightarrow> br_deliver br n q = None \<Longrightarrow> br_ready br q = {#} \<or> n \<le> length (br_unacked br q)"
  using broker_deliver_cases[where br = br and n = n and q = q] by simp

lemma broker_settle:
  assumes "broker_ok br" "br_unacked br q = (tag, b) # ys"
  shows "br_unacked br (br_ack br tag q) = ys" "br_ready br (br_ack br tag q) = br_ready br q"
    "br_unacked br (br_drop br tag q) = ys" "br_ready br (br_drop br tag q) = br_ready br q"
    "br_unacked br (br_requeue br tag q) = ys" "br_ready br (br_requeue br tag q) = add_mset b (br_ready br q)"
  using assms(1) unfolding broker_ok_def settles_ok_def
  by (metis (no_types, lifting) append_Nil assms(2) empty_iff image_is_empty list.set(1))+

lemma broker_lost:
  "broker_ok br \<Longrightarrow> br_unacked br (br_lost br q) = []"
  "broker_ok br \<Longrightarrow> br_ready br (br_lost br q) = br_ready br q + mset (map snd (br_unacked br q))"
  by (simp_all add: broker_ok_def returns_ok_def)

section \<open>The worker\<close>

definition PREFETCH_COUNT :: nat where
  "PREFETCH_COUNT = 50"

text \<open>
  \<open>tw_buffer\<close> is what the iterator over the queue holds, in the order of delivery; the last three
  fields record what was published and how each message was settled.
\<close>

record ('q, 'b) worker_state =
  tw_queue :: 'q
  tw_buffer :: "(nat \<times> 'b) list"
  tw_running :: bool
  tw_store :: "database \<times> redis"
  tw_published :: "'b list"
  tw_acked :: "'b list"
  tw_dropped :: "'b list"

definition worker_start :: "'q \<Rightarrow> database \<times> redis \<Rightarrow> ('q, 'b) worker_state" where
  "worker_start q st = \<lparr>tw_queue = q, tw_buffer = [], tw_running = False, tw_store = st, tw_published = [], tw_acked = [], tw_dropped = []\<rparr>"

definition settle :: "('q, 'b) broker \<Rightarrow> disposition \<Rightarrow> nat \<Rightarrow> 'b \<Rightarrow> ('q, 'b) worker_state \<Rightarrow> ('q, 'b) worker_state" where
  "settle br d tag b s = (case d of
       Ack \<Rightarrow> s\<lparr>tw_queue := br_ack br tag (tw_queue s), tw_acked := b # tw_acked s\<rparr>
     | Reject \<Rightarrow> s\<lparr>tw_queue := br_drop br tag (tw_queue s), tw_dropped := b # tw_dropped s\<rparr>
     | Nack_requeue \<Rightarrow> s\<lparr>tw_queue := br_requeue br tag (tw_queue s)\<rparr>)"

text \<open>
  One turn of the loop: a message arrives in the iterator, or the first of them is handled
  and settled. \<open>P\<close> says which faults may hit the database and Redis meanwhile.
\<close>

inductive serve_step ::
  "('b \<Rightarrow> telemetry_message option) \<Rightarrow> ('q, 'b) broker \<Rightarrow> (faults \<Rightarrow> bool) \<Rightarrow> ('q, 'b) worker_state \<Rightarrow> ('q, 'b) worker_state \<Rightarrow> bool"
  for parse :: "'b \<Rightarrow> telemetry_message option" and br :: "('q, 'b) broker" and P :: "faults \<Rightarrow> bool" where
  receive: "tw_running s \<Longrightarrow> br_deliver br PREFETCH_COUNT (tw_queue s) = Some (d, q) \<Longrightarrow>
    serve_step parse br P s (s\<lparr>tw_queue := q, tw_buffer := tw_buffer s @ [d]\<rparr>)"
| handle: "tw_running s \<Longrightarrow> tw_buffer s = (tag, b) # rest \<Longrightarrow> P f \<Longrightarrow> handle_message parse f b now (tw_store s) = (d, st) \<Longrightarrow>
    serve_step parse br P s (settle br d tag b (s\<lparr>tw_buffer := rest, tw_store := st\<rparr>))"

inductive_cases serve_stepE: "serve_step parse br P s s'"

text \<open>The stores a worker can leave behind when it stops while it handles a message.\<close>

definition crash_points :: "('b \<Rightarrow> telemetry_message option) \<Rightarrow> faults \<Rightarrow> 'b \<Rightarrow> instant \<Rightarrow> database \<times> redis \<Rightarrow> (database \<times> redis) list" where
  "crash_points parse f b now st =
     [st,
      (case model_validate_json parse b of Inl _ \<Rightarrow> st | Inr m \<Rightarrow> (snd (save_reading (f_db f) (fst st) m), snd st)),
      snd (handle_message parse f b now st)]"

definition stopped_stores :: "('b \<Rightarrow> telemetry_message option) \<Rightarrow> faults \<Rightarrow> instant \<Rightarrow> ('q, 'b) worker_state \<Rightarrow> (database \<times> redis) list" where
  "stopped_stores parse f now s = (case tw_buffer s of [] \<Rightarrow> [tw_store s] | (_, b) # _ \<Rightarrow> crash_points parse f b now (tw_store s))"

text \<open>The drivers of the database and of Redis do not raise the service's own \<open>NotFoundError\<close>.\<close>

definition driver_error :: "exn \<Rightarrow> bool" where
  "driver_error e = (case e of NotFoundError _ \<Rightarrow> False | _ \<Rightarrow> True)"

definition driver_faults :: "faults \<Rightarrow> bool" where
  "driver_faults f = (pred_option driver_error (f_db f) \<and> pred_option driver_error (fault_exn (f_hget f)) \<and>
     pred_option driver_error (fault_exn (f_hset f)))"

inductive worker_step ::
  "('b \<Rightarrow> telemetry_message option) \<Rightarrow> ('q, 'b) broker \<Rightarrow> ('q, 'b) worker_state \<Rightarrow> ('q, 'b) worker_state \<Rightarrow> bool"
  for parse :: "'b \<Rightarrow> telemetry_message option" and br :: "('q, 'b) broker" where
  published: "worker_step parse br s (s\<lparr>tw_queue := br_publish br b (tw_queue s), tw_published := b # tw_published s\<rparr>)"
| connected: "\<not> tw_running s \<Longrightarrow> fst (connect_rabbitmq attempts) = Inr () \<Longrightarrow> worker_step parse br s (s\<lparr>tw_running := True\<rparr>)"
| served: "serve_step parse br driver_faults s s' \<Longrightarrow> worker_step parse br s s'"
| stopped: "tw_running s \<Longrightarrow> driver_faults f \<Longrightarrow> st \<in> set (stopped_stores parse f now s) \<Longrightarrow>
    worker_step parse br s (s\<lparr>tw_queue := br_lost br (tw_queue s), tw_buffer := [], tw_running := False, tw_store := st\<rparr>)"

inductive_cases worker_stepE: "worker_step parse br s s'"

section \<open>What every step keeps\<close>

definition kept :: "('b \<Rightarrow> telemetry_message option) \<Rightarrow> database \<times> redis \<Rightarrow> 'b \<Rightarrow> bool" where
  "kept parse st b = (\<exists>m t. model_validate_json parse b = Inr m \<and> stored_at (fst st) (tm_vehicle_id m) (tm_recorded_at m) \<and>
     cached_at (snd st) (tm_vehicle_id m) = Some t \<and> tm_recorded_at m \<le> t)"

definition unusable :: "('b \<Rightarrow> telemetry_message option) \<Rightarrow> vehicle table \<Rightarrow> 'b \<Rightarrow> bool" where
  "unusable parse vs b = (case model_validate_json parse b of Inl _ \<Rightarrow> True | Inr m \<Rightarrow> \<not> has_id v_id vs (tm_vehicle_id m))"

text \<open>The order in which stores grow: nothing is forgotten and no cached state moves back in time.\<close>

definition store_le :: "database \<times> redis \<Rightarrow> database \<times> redis \<Rightarrow> bool" where
  "store_le st st' = (vehicles (fst st') = vehicles (fst st) \<and> (\<forall>v t. stored_at (fst st) v t \<longrightarrow> stored_at (fst st') v t) \<and>
     (\<forall>v t. cached_at (snd st) v = Some t \<longrightarrow> (\<exists>t'. cached_at (snd st') v = Some t' \<and> t \<le> t')))"

definition store_ok :: "database \<times> redis \<Rightarrow> bool" where
  "store_ok st = (readings_ok (fst st) \<and> cache_ok (fst st) (snd st))"

lemma store_le_refl [simp]: "store_le st st"
  by (auto simp: store_le_def)

lemma store_le_trans: "store_le a b \<Longrightarrow> store_le b c \<Longrightarrow> store_le a c"
  unfolding store_le_def by (simp, meson order_trans)

lemma store_le_vehicles: "store_le st st' \<Longrightarrow> vehicles (fst st') = vehicles (fst st)"
  by (simp add: store_le_def)

lemma kept_mono: "kept parse st b \<Longrightarrow> store_le st st' \<Longrightarrow> kept parse st' b"
  unfolding kept_def store_le_def by (meson order_trans)

lemma save_store:
  assumes "store_ok st" "save_reading f (fst st) m = (res, db')"
  shows "store_ok (db', snd st) \<and> store_le st (db', snd st)"
  using save_ok[OF _ assms(2)] assms(1) cache_ok_mono[of "fst st" "snd st" db'] by (auto simp: store_ok_def store_le_def)

lemma handle_vehicles: "readings_ok db \<Longrightarrow> handle_message parse f b now (db, r) = (d, db', r') \<Longrightarrow> vehicles db' = vehicles db"
  by (auto simp: handle_message_def dest: save_ok(4) split: sum.splits prod.splits exn.splits)

lemma handle_store:
  assumes "store_ok st" "handle_message parse f b now st = (d, st')"
  shows "store_ok st'" "store_le st st'" "d = Ack \<Longrightarrow> kept parse st' b"
proof -
  obtain db r db' r' where p: "st = (db, r)" "st' = (db', r')" by fastforce
  note h = assms(2)[unfolded p]
  have ok: "readings_ok db" "cache_ok db r" using assms(1) p by (simp_all add: store_ok_def)
  note one = handle_message_ok[OF ok h]
  show "store_ok st'" using one p by (simp add: store_ok_def)
  show "store_le st st'" using one handle_vehicles[OF ok(1) h] p by (auto simp: store_le_def)
  show "kept parse st' b" if "d = Ack" using one that p unfolding kept_def by fastforce
qed

lemma crash_store:
  assumes "store_ok st" "st' \<in> set (crash_points parse f b now st)"
  shows "store_ok st' \<and> store_le st st'"
proof -
  obtain d st1 where h: "handle_message parse f b now st = (d, st1)" by (meson prod.exhaust)
  have s: "store_ok (snd (save_reading (f_db f) (fst st) m), snd st) \<and> store_le st (snd (save_reading (f_db f) (fst st) m), snd st)" for m
    using save_store[OF assms(1)] by (metis prod.collapse)
  show ?thesis using assms s handle_store(1,2)[OF assms(1) h] h by (auto simp: crash_points_def split: sum.splits)
qed

lemma stopped_store: "store_ok (tw_store s) \<Longrightarrow> st' \<in> set (stopped_stores parse f now s) \<Longrightarrow> store_ok st' \<and> store_le (tw_store s) st'"
  by (auto simp: stopped_stores_def dest: crash_store split: list.splits)

lemma update_not_found:
  assumes "cache_ok db r" "driver_faults f"
  shows "fst (update_vehicle_state (f_hget f) (f_hset f) r m now) \<noteq> Inl (NotFoundError msg)"
  by (rule update_cases[OF assms(1), of "f_hget f" "f_hset f" m now]) (use assms(2) in \<open>auto simp: driver_faults_def driver_error_def\<close>)

lemma handle_rejects:
  assumes "store_ok st" "handle_message parse f b now st = (Reject, st')" "driver_faults f"
  shows "unusable parse (vehicles (fst st)) b"
proof (cases "model_validate_json parse b")
  case (Inr m)
  obtain res db where s: "save_reading (f_db f) (fst st) m = (res, db)" by fastforce
  have c: "cache_ok db (snd st)" using save_store[OF assms(1) s] by (simp add: store_ok_def)
  have "\<exists>msg. res = Inl (NotFoundError msg)"
    using assms(2) Inr s update_not_found[OF c assms(3), of m now]
    by (auto simp: handle_message_def split: sum.splits prod.splits exn.splits)
  moreover have "\<not> has_id v_id (vehicles (fst st)) (tm_vehicle_id m)" if "res = Inl (NotFoundError msg)" for msg
    by (rule save_reading_cases[of "f_db f" "fst st" m]) (use s that assms(3) in \<open>auto simp: driver_faults_def driver_error_def\<close>)
  ultimately show ?thesis using Inr by (auto simp: unusable_def)
qed (simp add: unusable_def)

section \<open>Nothing is lost\<close>

text \<open>
  Every published message is still held by the broker, or was settled; the iterator holds what
  the broker counts as delivered; settled messages were kept, or dropped for cause.
\<close>

definition accounted :: "('q, 'b) broker \<Rightarrow> ('q, 'b) worker_state \<Rightarrow> bool" where
  "accounted br s = (mset (tw_published s) = br_ready br (tw_queue s) + mset (map snd (tw_buffer s)) + mset (tw_acked s) + mset (tw_dropped s) \<and>
     br_unacked br (tw_queue s) = tw_buffer s \<and> length (tw_buffer s) \<le> PREFETCH_COUNT \<and> (\<not> tw_running s \<longrightarrow> tw_buffer s = []))"

definition settled_rightly :: "('b \<Rightarrow> telemetry_message option) \<Rightarrow> ('q, 'b) worker_state \<Rightarrow> bool" where
  "settled_rightly parse s = (store_ok (tw_store s) \<and> list_all (kept parse (tw_store s)) (tw_acked s) \<and>
     list_all (unusable parse (vehicles (fst (tw_store s)))) (tw_dropped s))"

lemma settle_fields [simp]:
  "tw_buffer (settle br d tag b s) = tw_buffer s" "tw_running (settle br d tag b s) = tw_running s"
  "tw_store (settle br d tag b s) = tw_store s" "tw_published (settle br d tag b s) = tw_published s"
  "tw_acked (settle br d tag b s) = (if d = Ack then b # tw_acked s else tw_acked s)"
  "tw_dropped (settle br d tag b s) = (if d = Reject then b # tw_dropped s else tw_dropped s)"
  by (cases d; simp add: settle_def)+

lemma settle_queue:
  assumes "broker_ok br" "br_unacked br (tw_queue s) = (tag, b) # ys"
  shows "br_unacked br (tw_queue (settle br d tag b s)) = ys"
    "br_ready br (tw_queue (settle br d tag b s)) = (if d = Nack_requeue then add_mset b (br_ready br (tw_queue s)) else br_ready br (tw_queue s))"
  using broker_settle[OF assms] by (cases d; simp add: settle_def)+

lemma serve_accounted:
  assumes "broker_ok br" "serve_step parse br P s s'" "accounted br s"
  shows "accounted br s'"
  using assms(2)
proof (cases rule: serve_step.cases)
  case (receive d q)
  then show ?thesis using assms(3) broker_deliver[OF assms(1) receive(3)] by (simp add: accounted_def)
next
  case (handle tag b rest f now d st)
  let ?s = "s\<lparr>tw_buffer := rest, tw_store := st\<rparr>"
  have u: "br_unacked br (tw_queue ?s) = (tag, b) # rest" using assms(3) handle(3) by (simp add: accounted_def)
  show ?thesis using assms(3) handle(1-3) settle_queue[OF assms(1) u, of d] by (cases d) (auto simp: accounted_def)
qed

lemma serve_settled:
  assumes "serve_step parse br P s s'" "\<And>f. P f \<Longrightarrow> driver_faults f" "settled_rightly parse s"
  shows "settled_rightly parse s'"
  using assms(1)
proof (cases rule: serve_step.cases)
  case (receive d q)
  then show ?thesis using assms(3) by (simp add: settled_rightly_def)
next
  case (handle tag b rest f now d st)
  have ok: "store_ok (tw_store s)" using assms(3) by (simp add: settled_rightly_def)
  note h = handle_store[OF ok handle(5)]
  have v: "vehicles (fst st) = vehicles (fst (tw_store s))" using h(2) by (simp add: store_le_def)
  have r: "unusable parse (vehicles (fst st)) b" if "d = Reject"
    using handle_rejects[OF ok handle(5)[unfolded that] assms(2)[OF handle(4)]] v by simp
  have k: "list_all (kept parse st) (tw_acked s)" using assms(3) by (auto simp: settled_rightly_def list_all_iff intro: kept_mono[OF _ h(2)])
  show ?thesis using handle(1) assms(3) h(1,3) v r k by (cases d) (simp_all add: settled_rightly_def)
qed

lemma settled_stop:
  "settled_rightly parse s \<Longrightarrow> store_ok st \<Longrightarrow> store_le (tw_store s) st \<Longrightarrow> tw_acked s' = tw_acked s \<Longrightarrow> tw_dropped s' = tw_dropped s \<Longrightarrow>
    tw_store s' = st \<Longrightarrow> settled_rightly parse s'"
  by (simp add: settled_rightly_def list_all_iff store_le_vehicles) (blast intro: kept_mono)

interpretation worker: transition_system "worker_step parse br" "\<lambda>s. broker_ok br \<longrightarrow> accounted br s \<and> settled_rightly parse s" for parse br
proof
  fix s s' :: "('b, 'a) worker_state"
  assume inv: "broker_ok br \<longrightarrow> accounted br s \<and> settled_rightly parse s" and step: "worker_step parse br s s'"
  show "broker_ok br \<longrightarrow> accounted br s' \<and> settled_rightly parse s'"
    using step
  proof (cases rule: worker_step.cases)
    case (published b)
    then show ?thesis using inv by (auto simp: accounted_def settled_rightly_def broker_publish)
  next
    case (connected attempts)
    then show ?thesis using inv by (auto simp: accounted_def settled_rightly_def)
  next
    case served
    then show ?thesis using inv serve_accounted serve_settled by blast
  next
    case (stopped f st now)
    have "settled_rightly parse s'" if "settled_rightly parse s"
      using settled_stop[OF that, of st s'] stopped_store[OF _ stopped(4)] that stopped(1) by (auto simp: settled_rightly_def)
    then show ?thesis using inv stopped(1) by (auto simp: accounted_def broker_lost)
  qed
qed

lemma worker_start_ok:
  fixes br :: "('q, 'b) broker" and parse :: "'b \<Rightarrow> telemetry_message option"
  shows "store_ok st \<Longrightarrow> br_ready br q = {#} \<Longrightarrow> br_unacked br q = [] \<Longrightarrow>
    accounted br (worker_start q st) \<and> settled_rightly parse (worker_start q st)"
  by (simp add: accounted_def settled_rightly_def worker_start_def)

definition faultless :: "faults \<Rightarrow> bool" where
  "faultless f = (f = no_faults)"

section \<open>A broker in memory\<close>

text \<open>A first-in first-out queue that satisfies the laws; requeued messages go to its end.\<close>

fun take_tag :: "nat \<Rightarrow> (nat \<times> 'b) list \<Rightarrow> 'b list \<times> (nat \<times> 'b) list" where
  "take_tag tag [] = ([], [])"
| "take_tag tag (d # ds) = (if fst d = tag then ([snd d], ds) else (case take_tag tag ds of (b, rest) \<Rightarrow> (b, d # rest)))"

definition memory_broker :: "('b list \<times> (nat \<times> 'b) list, 'b) broker" where
  "memory_broker = \<lparr>br_publish = (\<lambda>b q. (fst q @ [b], snd q)),
     br_deliver = (\<lambda>n q. case fst q of
         [] \<Rightarrow> None
       | b # bs \<Rightarrow> if length (snd q) < n then (let d = (fold max (map fst (snd q)) 0 + 1, b) in Some (d, (bs, snd q @ [d]))) else None),
     br_ack = (\<lambda>tag q. (fst q, snd (take_tag tag (snd q)))), br_drop = (\<lambda>tag q. (fst q, snd (take_tag tag (snd q)))),
     br_requeue = (\<lambda>tag q. (fst q @ fst (take_tag tag (snd q)), snd (take_tag tag (snd q)))),
     br_lost = (\<lambda>q. (map snd (snd q) @ fst q, [])),
     br_ready = (\<lambda>q. mset (fst q)), br_unacked = snd\<rparr>"

lemma take_tag_found: "tag \<notin> fst ` set xs \<Longrightarrow> take_tag tag (xs @ (tag, b) # ys) = ([b], xs @ ys)"
  by (induction xs) auto

lemma memory_broker_ok: "broker_ok memory_broker"
  by (auto simp: broker_ok_def publishes_ok_def delivers_ok_def settles_ok_def returns_ok_def memory_broker_def take_tag_found Let_def
      split: list.split)

lemma two_steps: "R x y \<Longrightarrow> R y z \<Longrightarrow> R\<^sup>*\<^sup>* x z"
  by (meson r_into_rtranclp rtranclp.rtrancl_into_rtrancl)

text \<open>A worker that serves one message of its queue.\<close>

definition demo_worker :: "(telemetry_message list \<times> (nat \<times> telemetry_message) list, telemetry_message) worker_state" where
  "demo_worker = \<lparr>tw_queue = ([demo_reading 20], []), tw_buffer = [], tw_running = True, tw_store = (telemetry_demo_db, Map.empty),
     tw_published = [demo_reading 20], tw_acked = [], tw_dropped = []\<rparr>"

lemma demo_worker_reached: "(worker_step Some memory_broker)\<^sup>*\<^sup>* (worker_start ([], []) (telemetry_demo_db, Map.empty)) demo_worker"
proof -
  let ?s = "worker_start ([], []) (telemetry_demo_db, Map.empty) :: (telemetry_message list \<times> (nat \<times> telemetry_message) list, telemetry_message) worker_state"
  let ?s1 = "?s\<lparr>tw_queue := br_publish memory_broker (demo_reading 20) (tw_queue ?s), tw_published := demo_reading 20 # tw_published ?s\<rparr>"
  have a: "worker_step Some memory_broker ?s ?s1" by (rule worker_step.published)
  have "worker_step Some memory_broker ?s1 (?s1\<lparr>tw_running := True\<rparr>)"
    by (rule worker_step.connected[where attempts = "\<lambda>_. Inr ()"])
       (simp_all add: worker_start_def connect_rabbitmq_def CONNECT_ATTEMPTS_def eval_nat_numeral)
  then have b: "worker_step Some memory_broker ?s1 demo_worker"
    by (simp add: worker_start_def demo_worker_def memory_broker_def)
  show ?thesis by (rule two_steps[where R = "worker_step Some memory_broker", OF a b])
qed

lemma demo_worker_serves:
  "\<exists>s'. (serve_step Some memory_broker faultless)\<^sup>*\<^sup>* demo_worker s' \<and> tw_acked s' = [demo_reading 20] \<and> (\<nexists>s''. serve_step Some memory_broker faultless s' s'')"
proof -
  let ?s1 = "demo_worker\<lparr>tw_queue := ([], [(1, demo_reading 20)]), tw_buffer := [(1, demo_reading 20)]\<rparr>"
  have "serve_step Some memory_broker faultless demo_worker (demo_worker\<lparr>tw_queue := ([], [(1, demo_reading 20)]), tw_buffer := tw_buffer demo_worker @ [(1, demo_reading 20)]\<rparr>)"
    by (rule serve_step.receive) (simp_all add: demo_worker_def memory_broker_def PREFETCH_COUNT_def Let_def)
  then have r: "serve_step Some memory_broker faultless demo_worker ?s1" by (simp add: demo_worker_def)
  obtain d st where h: "handle_message Some no_faults (demo_reading 20) 1 (tw_store ?s1) = (d, st)" by (meson prod.exhaust)
  have "d = Ack" using telemetry_demo_run h by (auto simp: demo_worker_def split: prod.splits)
  let ?s2 = "settle memory_broker d 1 (demo_reading 20) (?s1\<lparr>tw_buffer := [], tw_store := st\<rparr>)"
  have t: "serve_step Some memory_broker faultless ?s1 ?s2"
    by (rule serve_step.handle[OF _ _ _ h]) (simp_all add: demo_worker_def faultless_def)
  have "tw_acked ?s2 = [demo_reading 20]" using \<open>d = Ack\<close> by (simp add: demo_worker_def)
  moreover have "\<not> serve_step Some memory_broker faultless ?s2 s" for s
    using \<open>d = Ack\<close> by (auto elim!: serve_stepE simp: settle_def demo_worker_def memory_broker_def)
  ultimately show ?thesis using two_steps[where R = "serve_step Some memory_broker faultless", OF r t] by blast
qed

text \<open>
  C11: no published telemetry message is lost. Whatever the broker delivers in which order, and
  however often the worker fails on the database or on Redis, stops in the middle of a message and
  is started again, every message published so far is still on the queue, or out for
  delivery (at most 50 are), or was settled. Every acknowledged one is stored and cached, or a
  newer state of its vehicle is; every dropped one is invalid or names a vehicle that does not exist.
\<close>

theorem published_telemetry_not_lost:
  assumes "broker_ok br" and "readings_ok db" and "cache_ok db r" and "br_ready br q = {#}" and "br_unacked br q = []"
    and "(worker_step parse br)\<^sup>*\<^sup>* (worker_start q (db, r)) s"
  shows "mset (tw_published s) = br_ready br (tw_queue s) + mset (map snd (br_unacked br (tw_queue s))) + mset (tw_acked s) + mset (tw_dropped s) \<and>
    length (br_unacked br (tw_queue s)) \<le> 50 \<and>
    (\<forall>b \<in> set (tw_acked s). \<exists>m t. model_validate_json parse b = Inr m \<and> stored_at (fst (tw_store s)) (tm_vehicle_id m) (tm_recorded_at m) \<and>
       cached_at (snd (tw_store s)) (tm_vehicle_id m) = Some t \<and> tm_recorded_at m \<le> t) \<and>
    (\<forall>b \<in> set (tw_dropped s). \<forall>m. model_validate_json parse b = Inr m \<longrightarrow> \<not> has_id v_id (vehicles (fst (tw_store s))) (tm_vehicle_id m))"
proof -
  have ok: "accounted br s \<and> settled_rightly parse s"
    using worker.reach_inv[OF assms(6)] worker_start_ok[OF _ assms(4,5)] assms(1-3) by (simp add: store_ok_def)
  then have "\<forall>b \<in> set (tw_dropped s). \<forall>m. model_validate_json parse b = Inr m \<longrightarrow> \<not> has_id v_id (vehicles (fst (tw_store s))) (tm_vehicle_id m)"
    by (auto simp: settled_rightly_def list_all_iff unusable_def)
  with ok show ?thesis by (simp add: accounted_def settled_rightly_def list_all_iff kept_def PREFETCH_COUNT_def)
qed

theorem published_telemetry_not_lost_witness:
  "mset (tw_published demo_worker) = br_ready memory_broker (tw_queue demo_worker) +
     mset (map snd (br_unacked memory_broker (tw_queue demo_worker))) + mset (tw_acked demo_worker) + mset (tw_dropped demo_worker)"
  by (rule conjunct1[OF published_telemetry_not_lost[OF memory_broker_ok telemetry_demo_ok _ _ demo_worker_reached]])
     (simp_all add: memory_broker_def)

section \<open>The queue drains\<close>

definition deliverable :: "('b \<Rightarrow> telemetry_message option) \<Rightarrow> 'b \<Rightarrow> bool" where
  "deliverable parse b = (case model_validate_json parse b of Inl _ \<Rightarrow> True | Inr m \<Rightarrow> int4 (tm_vehicle_id m))"

definition work_left :: "('q, 'b) broker \<Rightarrow> ('q, 'b) worker_state \<Rightarrow> nat" where
  "work_left br s = 2 * size (br_ready br (tw_queue s)) + length (tw_buffer s)"

lemma faultless_driver: "faultless f \<Longrightarrow> driver_faults f"
  by (simp add: faultless_def driver_faults_def no_faults_def)

lemma faultless_settles:
  assumes "store_ok st" "deliverable parse b" "handle_message parse no_faults b now st = (d, st')"
  shows "d \<noteq> Nack_requeue"
proof (cases "model_validate_json parse b")
  case (Inl e)
  then show ?thesis using assms(3) by (auto simp: handle_message_def)
next
  case (Inr m)
  obtain res db where s: "save_reading None (fst st) m = (res, db)" by fastforce
  have c: "cache_ok db (snd st)" using save_store[OF assms(1) s] by (simp add: store_ok_def)
  have i: "int4 (tm_vehicle_id m)" using assms(2) Inr by (simp add: deliverable_def)
  have "(\<exists>b. res = Inr b) \<or> (\<exists>msg. res = Inl (NotFoundError msg))"
    by (rule save_reading_cases[of None "fst st" m]) (use s i in auto)
  moreover obtain x r where "update_vehicle_state No_fault No_fault (snd st) m now = (Inr x, r)"
    by (rule update_cases[OF c, of No_fault No_fault m now]) auto
  ultimately show ?thesis using assms(3) Inr s by (auto simp: handle_message_def no_faults_def)
qed

lemma serve_published: "serve_step parse br P s s' \<Longrightarrow> tw_published s' = tw_published s \<and> tw_running s' = tw_running s"
  by (auto elim: serve_stepE)

lemma serve_progress:
  assumes "broker_ok br" "accounted br s" "settled_rightly parse s" "\<forall>b \<in> set (tw_published s). deliverable parse b"
    "serve_step parse br faultless s s'"
  shows "work_left br s' < work_left br s"
  using assms(5)
proof (cases rule: serve_step.cases)
  case (receive d q)
  then show ?thesis using broker_deliver[OF assms(1) receive(3)] by (simp add: work_left_def)
next
  case (handle tag b rest f now d st)
  let ?s = "s\<lparr>tw_buffer := rest, tw_store := st\<rparr>"
  have u: "br_unacked br (tw_queue ?s) = (tag, b) # rest" using assms(2) handle(3) by (simp add: accounted_def)
  have "b \<in># mset (tw_published s)" using assms(2) handle(3) by (simp add: accounted_def)
  then have "deliverable parse b" using assms(4) by simp
  then have "d \<noteq> Nack_requeue"
    using faultless_settles[of "tw_store s" parse b now d st] handle(4,5) assms(3) by (simp add: faultless_def settled_rightly_def)
  then show ?thesis using settle_queue(2)[OF assms(1) u, of d] handle(1,3) by (simp add: work_left_def)
qed

lemma serve_stuck:
  assumes "broker_ok br" "accounted br s" "tw_running s" "\<nexists>s'. serve_step parse br faultless s s'"
  shows "br_ready br (tw_queue s) = {#} \<and> tw_buffer s = []"
proof -
  have b: "tw_buffer s = []"
  proof (rule ccontr)
    assume "tw_buffer s \<noteq> []"
    then obtain tag b rest where "tw_buffer s = (tag, b) # rest" by (metis neq_Nil_conv prod.exhaust)
    moreover obtain d st where "handle_message parse no_faults b 0 (tw_store s) = (d, st)" by (meson prod.exhaust)
    ultimately show False using assms(3,4) serve_step.handle[of s tag b rest faultless no_faults parse 0 d st br] by (auto simp: faultless_def)
  qed
  have "br_deliver br PREFETCH_COUNT (tw_queue s) = None"
    using assms(3,4) serve_step.receive[of s br _ _ parse faultless] by (metis not_None_eq prod.exhaust)
  then have "br_ready br (tw_queue s) = {#}"
    using broker_idle[OF assms(1), of PREFETCH_COUNT "tw_queue s"] assms(2) b by (simp add: accounted_def PREFETCH_COUNT_def)
  with b show ?thesis by simp
qed

definition good_run :: "('b \<Rightarrow> telemetry_message option) \<Rightarrow> ('q, 'b) broker \<Rightarrow> ('q, 'b) worker_state \<Rightarrow> bool" where
  "good_run parse br s = (tw_running s \<and> accounted br s \<and> settled_rightly parse s \<and> list_all (deliverable parse) (tw_published s))"

lemma serve_good:
  assumes "broker_ok br" "serve_step parse br faultless s s'" "good_run parse br s"
  shows "good_run parse br s'"
  using serve_accounted[OF assms(1,2)] serve_settled[OF assms(2) faultless_driver] serve_published[OF assms(2)] assms(3)
  unfolding good_run_def by simp

interpretation serving: transition_system "serve_step parse br faultless" "\<lambda>s. broker_ok br \<longrightarrow> good_run parse br s" for parse br
  by unfold_locales (blast intro: serve_good)

lemma serve_terminates:
  assumes "broker_ok br" "good_run parse br s"
  shows "\<exists>s'. (serve_step parse br faultless)\<^sup>*\<^sup>* s s' \<and> (\<nexists>s''. serve_step parse br faultless s' s'')"
  using assms(2)
proof (induction "work_left br s" arbitrary: s rule: less_induct)
  case less
  show ?case
  proof (cases "\<exists>u. serve_step parse br faultless s u")
    case True
    then obtain u where u: "serve_step parse br faultless s u" by blast
    have "work_left br u < work_left br s"
      using serve_progress[OF assms(1) _ _ _ u] less.prems by (simp add: good_run_def list_all_iff)
    from less.hyps[OF this serve_good[OF assms(1) u less.prems]] u show ?thesis by (meson converse_rtranclp_into_rtranclp)
  qed blast
qed

lemma serve_bounded:
  assumes "broker_ok br" "good_run parse br s" "(serve_step parse br faultless ^^ n) s s'"
  shows "n + work_left br s' \<le> work_left br s"
  using assms(2,3)
proof (induction n arbitrary: s)
  case (Suc n)
  obtain u where u: "serve_step parse br faultless s u" "(serve_step parse br faultless ^^ n) u s'"
    using Suc.prems(2) by (metis relpowp_Suc_E2)
  have "good_run parse br u" using serving.step_inv[OF _ u(1)] assms(1) Suc.prems(1) by blast
  from Suc.IH[OF this u(2)] show ?case
    using serve_progress[OF assms(1) _ _ _ u(1)] Suc.prems(1) by (fastforce simp: good_run_def list_all_iff)
qed simp

lemma serve_reach:
  assumes "broker_ok br" "(serve_step parse br faultless)\<^sup>*\<^sup>* s s'" "good_run parse br s"
  shows "good_run parse br s'" "tw_published s' = tw_published s" "store_le (tw_store s) (tw_store s')"
proof -
  show "good_run parse br s'" using serving.reach_inv[OF assms(2)] assms(1,3) by blast
  show "tw_published s' = tw_published s" using assms(2) by (induction rule: rtranclp_induct) (auto dest: serve_published)
  show "store_le (tw_store s) (tw_store s')"
    using assms(2)
  proof (induction rule: rtranclp_induct)
    case (step t u)
    have "store_ok (tw_store t)" using serving.reach_inv[OF step(1)] assms(1,3) by (auto simp: good_run_def settled_rightly_def)
    then have "store_le (tw_store t) (tw_store u)" using step(2) by (auto elim!: serve_stepE dest: handle_store(2))
    with step.IH show ?case by (rule store_le_trans)
  qed simp
qed

text \<open>What the worker writes to Redis is the state in a message that was published.\<close>

lemma serve_cache_source:
  assumes "broker_ok br" "(serve_step parse br faultless)\<^sup>*\<^sup>* s s'" "good_run parse br s"
  shows "snd (tw_store s') (vehicle_state_key v) = snd (tw_store s) (vehicle_state_key v) \<or>
    (\<exists>b \<in> set (tw_published s). \<exists>m. model_validate_json parse b = Inr m \<and> tm_vehicle_id m = v \<and>
       snd (tw_store s') (vehicle_state_key v) = Some (entry_of m))"
  using assms(2)
proof (induction rule: rtranclp_induct)
  case (step t u)
  note g = serve_reach(1,2)[OF assms(1) step(1) assms(3)]
  have "snd (tw_store u) (vehicle_state_key v) = snd (tw_store t) (vehicle_state_key v) \<or>
    (\<exists>b \<in> set (tw_published s). \<exists>m. model_validate_json parse b = Inr m \<and> tm_vehicle_id m = v \<and>
       snd (tw_store u) (vehicle_state_key v) = Some (entry_of m))"
    using step(2)
  proof (cases rule: serve_step.cases)
    case (handle tag b rest f now d st)
    have "b \<in># mset (tw_published t)" using g(1) handle(3) by (simp add: good_run_def accounted_def)
    then have b: "b \<in> set (tw_published s)" using g(2) by simp
    have ok: "store_ok (tw_store t)" using g(1) by (simp add: good_run_def settled_rightly_def)
    have st: "tw_store u = st" using handle(1) by simp
    show ?thesis
    proof (cases "model_validate_json parse b")
      case (Inr m)
      obtain res db where sv: "save_reading (f_db f) (fst (tw_store t)) m = (res, db)" by fastforce
      have c: "cache_ok db (snd (tw_store t))" using save_store[OF ok sv] by (simp add: store_ok_def)
      obtain ures r where up: "update_vehicle_state (f_hget f) (f_hset f) (snd (tw_store t)) m now = (ures, r)" by fastforce
      have "r = snd (tw_store t) \<or> r = (snd (tw_store t))(vehicle_state_key (tm_vehicle_id m) \<mapsto> entry_of m)"
        by (rule update_cases[OF c, of "f_hget f" "f_hset f" m now]) (use up in auto)
      moreover have "snd st = snd (tw_store t) \<or> snd st = r"
        using handle(5) Inr sv up by (auto simp: handle_message_def split: sum.splits exn.splits)
      moreover have ?thesis if "snd st = (snd (tw_store t))(vehicle_state_key (tm_vehicle_id m) \<mapsto> entry_of m)"
        using st b Inr that by (cases "tm_vehicle_id m = v") (simp_all, blast)
      ultimately show ?thesis using st by auto
    qed (use handle(5) st in \<open>auto simp: handle_message_def\<close>)
  qed simp
  then show ?case using step.IH by metis
qed simp

text \<open>
  C12: without faults the worker empties the queue. From any state that is reached in any way,
  with the worker running and no message whose vehicle id exceeds 32 bits, every run of the loop
  without faults ends after at most two turns per waiting message, one such end is reached, and the run can only end with nothing
  on the queue, nothing out for delivery and every published message acknowledged or dropped.
\<close>

theorem telemetry_queue_drains:
  assumes "broker_ok br" and "readings_ok db" and "cache_ok db r" and "br_ready br q = {#}" and "br_unacked br q = []"
    and "(worker_step parse br)\<^sup>*\<^sup>* (worker_start q (db, r)) s" and "tw_running s"
    and "\<forall>b \<in> set (tw_published s). \<forall>m. parse b = Some m \<longrightarrow> tm_vehicle_id m < 2 ^ 31"
  shows "(\<forall>n s'. (serve_step parse br faultless ^^ n) s s' \<longrightarrow> n \<le> 2 * size (br_ready br (tw_queue s)) + length (tw_buffer s)) \<and>
    (\<exists>s'. (serve_step parse br faultless)\<^sup>*\<^sup>* s s' \<and> (\<nexists>s''. serve_step parse br faultless s' s'')) \<and>
    (\<forall>s'. (serve_step parse br faultless)\<^sup>*\<^sup>* s s' \<longrightarrow> (\<exists>s''. serve_step parse br faultless s' s'') \<or>
       (br_ready br (tw_queue s') = {#} \<and> br_unacked br (tw_queue s') = [] \<and> mset (tw_published s) = mset (tw_acked s') + mset (tw_dropped s')))"
proof -
  have ok: "accounted br s \<and> settled_rightly parse s"
    using worker.reach_inv[OF assms(6)] worker_start_ok[OF _ assms(4,5)] assms(1-3) by (simp add: store_ok_def)
  have "list_all (deliverable parse) (tw_published s)"
    using assms(8) by (auto simp: list_all_iff deliverable_def model_validate_json_def telemetry_valid_def int4_def split: option.splits)
  then have run: "good_run parse br s" using ok assms(7) by (simp add: good_run_def)
  have bound: "n \<le> 2 * size (br_ready br (tw_queue s)) + length (tw_buffer s)" if "(serve_step parse br faultless ^^ n) s s'" for n s'
    using serve_bounded[OF assms(1) run that] by (simp add: work_left_def)
  have drained: "br_ready br (tw_queue s') = {#} \<and> br_unacked br (tw_queue s') = [] \<and> mset (tw_published s) = mset (tw_acked s') + mset (tw_dropped s')"
    if "(serve_step parse br faultless)\<^sup>*\<^sup>* s s'" "\<nexists>s''. serve_step parse br faultless s' s''" for s'
  proof -
    have g: "good_run parse br s'" using serving.reach_inv[OF that(1)] run assms(1) by blast
    have p: "tw_published s' = tw_published s" using that(1) by (induction rule: rtranclp_induct) (auto dest: serve_published)
    show ?thesis using serve_stuck[OF assms(1) _ _ that(2)] g p by (auto simp: good_run_def accounted_def)
  qed
  show ?thesis using bound drained serve_terminates[OF assms(1) run] by blast
qed

theorem telemetry_queue_drains_witness:
  "\<exists>s'. (serve_step Some memory_broker faultless)\<^sup>*\<^sup>* demo_worker s' \<and> br_ready memory_broker (tw_queue s') = {#} \<and>
     mset (tw_published demo_worker) = mset (tw_acked s') + mset (tw_dropped s')"
proof -
  obtain s' where s: "(serve_step Some memory_broker faultless)\<^sup>*\<^sup>* demo_worker s'" "\<nexists>s''. serve_step Some memory_broker faultless s' s''"
    using demo_worker_serves by blast
  have e: "br_ready memory_broker ([], []) = {#}" "br_unacked memory_broker ([], []) = []" "tw_running demo_worker"
    "\<forall>b \<in> set (tw_published demo_worker). \<forall>m. Some b = Some m \<longrightarrow> tm_vehicle_id m < 2 ^ 31"
    by (simp_all add: memory_broker_def demo_worker_def demo_reading_def)
  show ?thesis using telemetry_queue_drains[OF memory_broker_ok telemetry_demo_ok e(1,2) demo_worker_reached e(3,4)] s by blast
qed

end
