(* ===== verification/Simulator.thy ===== *)
theory Simulator
  imports Telemetry
begin

text \<open>
  \<open>telemetry/simulator.py\<close>: the simulated fleet. Arithmetic is binary64 (\<open>fl\<close>);
  the functions of the C mathematics library (\<open>cos\<close>, \<open>sin\<close>, \<open>atan2\<close>, \<open>hypot\<close>,
  \<open>radians\<close>, \<open>degrees\<close>) and the random generator (\<open>random\<close>, and \<open>below n\<close> for the
  index that \<open>choice\<close> draws) are parameters, the generator with its state threaded
  through. The messages go to the worker of \<open>Telemetry\<close>. Lemmas: the fuel level, the
  parked vehicles and the hubs that driving vehicles head for, in every state the loop of
  \<open>run\<close> reaches; and that the simulated fleet follows the API's list.
\<close>

section \<open>Parameters\<close>

record libm =
  m_cos :: "rat \<Rightarrow> rat"
  m_sin :: "rat \<Rightarrow> rat"
  m_atan2 :: "rat \<Rightarrow> rat \<Rightarrow> rat"
  m_hypot :: "rat \<Rightarrow> rat \<Rightarrow> rat"
  m_radians :: "rat \<Rightarrow> rat"
  m_degrees :: "rat \<Rightarrow> rat"

record 'g rng_ops =
  rng_random :: "'g \<Rightarrow> rat \<times> 'g"
  rng_below :: "nat \<Rightarrow> 'g \<Rightarrow> nat \<times> 'g"

definition uniform :: "'g rng_ops \<Rightarrow> rat \<Rightarrow> rat \<Rightarrow> 'g \<Rightarrow> rat \<times> 'g" where
  "uniform ops a b g = (case rng_random ops g of (x, g') \<Rightarrow> (fl (a + fl (fl (b - a) * x)), g'))"

section \<open>Constants\<close>

definition EARTH_RADIUS_M :: rat where "EARTH_RADIUS_M = 6371000"
definition FUEL_USE_PER_KM :: rat where "FUEL_USE_PER_KM = fl (6 / 10)"
definition FUEL_RECHARGE_PER_TICK :: rat where "FUEL_RECHARGE_PER_TICK = fl (5 / 100)"
definition STATION_SPREAD_M :: rat where "STATION_SPREAD_M = 40"
definition ARRIVAL_M :: rat where "ARRIVAL_M = 25"

datatype bank = Right_bank | Left_bank

type_synonym point = "rat \<times> rat"

definition pt :: "int \<Rightarrow> int \<Rightarrow> point" where
  "pt lat lon = (fl (of_int lat / 10000), fl (of_int lon / 10000))"

fun HUBS :: "bank \<Rightarrow> point list" where
  "HUBS Right_bank =
     [pt 504501 305241, pt 504392 305167, pt 504325 305165, pt 504410 304890, pt 504620 304822, pt 504659 305153, pt 504729 305048,
      pt 504864 304979, pt 505013 304983, pt 504549 304459, pt 504588 304199, pt 504277 305389, pt 504130 305244, pt 504049 305167]"
| "HUBS Left_bank =
     [pt 504518 305982, pt 504559 306126, pt 504618 306303, pt 504647 306457, pt 503980 306342, pt 503953 306163, pt 504013 306526]"

definition ALL_HUBS :: "(bank \<times> point) list" where
  "ALL_HUBS = map (Pair Right_bank) (HUBS Right_bank) @ map (Pair Left_bank) (HUBS Left_bank)"

section \<open>Geometry\<close>

definition offset :: "libm \<Rightarrow> rat \<Rightarrow> rat \<Rightarrow> rat \<Rightarrow> rat \<Rightarrow> point" where
  "offset lm lat lon north_m east_m =
     (let dlat = m_degrees lm (fl (north_m / EARTH_RADIUS_M));
          dlon = m_degrees lm (fl (east_m / fl (EARTH_RADIUS_M * m_cos lm (m_radians lm lat))))
      in (fl (lat + dlat), fl (lon + dlon)))"

definition distance_m :: "libm \<Rightarrow> rat \<Rightarrow> rat \<Rightarrow> point \<Rightarrow> rat" where
  "distance_m lm lat1 lon1 p2 =
     (let north = fl (m_radians lm (fl (fst p2 - lat1)) * EARTH_RADIUS_M);
          east = fl (fl (m_radians lm (fl (snd p2 - lon1)) * EARTH_RADIUS_M) * m_cos lm (m_radians lm lat1))
      in m_hypot lm north east)"

definition bearing_rad :: "libm \<Rightarrow> rat \<Rightarrow> rat \<Rightarrow> point \<Rightarrow> rat" where
  "bearing_rad lm lat1 lon1 p2 =
     (let north = m_radians lm (fl (fst p2 - lat1));
          east = fl (m_radians lm (fl (snd p2 - lon1)) * m_cos lm (m_radians lm lat1))
      in m_atan2 lm east north)"

definition station_hub :: "int \<Rightarrow> bank \<times> point" where
  "station_hub station_id = ALL_HUBS ! nat ((station_id - 1) mod int (length ALL_HUBS))"

section \<open>Vehicles\<close>

record sim_vehicle =
  sv_vehicle_id :: int
  sv_station_id :: int
  sv_status :: string
  sv_latitude :: rat
  sv_longitude :: rat
  sv_heading :: rat
  sv_speed :: rat
  sv_fuel_level :: rat
  sv_bank :: bank
  sv_target :: "point option"

definition driving :: "sim_vehicle \<Rightarrow> bool" where
  "driving v = (sv_status v = ''rented'')"

definition park_at_station :: "libm \<Rightarrow> 'g rng_ops \<Rightarrow> sim_vehicle \<Rightarrow> 'g \<Rightarrow> sim_vehicle \<times> 'g" where
  "park_at_station lm ops v g =
     (let (b, (lat, lon)) = station_hub (sv_station_id v);
          (n, g) = uniform ops (- 1) 1 g;
          (e, g) = uniform ops (- 1) 1 g;
          (lat', lon') = offset lm lat lon (fl (n * STATION_SPREAD_M)) (fl (e * STATION_SPREAD_M))
      in (v\<lparr>sv_bank := b, sv_latitude := lat', sv_longitude := lon', sv_speed := 0, sv_target := None\<rparr>, g))"

definition pick_target :: "libm \<Rightarrow> 'g rng_ops \<Rightarrow> sim_vehicle \<Rightarrow> 'g \<Rightarrow> (point \<times> 'g) result" where
  "pick_target lm ops v g =
     (let options = filter (\<lambda>hub. ARRIVAL_M * 4 < distance_m lm (sv_latitude v) (sv_longitude v) hub) (HUBS (sv_bank v))
      in if options = [] then Inl IndexError
         else case rng_below ops (length options) g of (i, g') \<Rightarrow> Inr (options ! i, g'))"

text \<open>\<open>advance\<close>: a driving vehicle first makes sure that it has a target, then drives towards it.\<close>

definition with_target :: "libm \<Rightarrow> 'g rng_ops \<Rightarrow> sim_vehicle \<Rightarrow> 'g \<Rightarrow> (sim_vehicle \<times> point \<times> 'g) result" where
  "with_target lm ops v g = (case sv_target v of
       Some t \<Rightarrow> Inr (v, t, g)
     | None \<Rightarrow> bind_result (pick_target lm ops v g) (\<lambda>(t, g').
         case uniform ops 7 14 g' of (speed, g'') \<Rightarrow> Inr (v\<lparr>sv_target := Some t, sv_speed := speed\<rparr>, t, g'')))"

definition drive_towards :: "libm \<Rightarrow> rat \<Rightarrow> point \<Rightarrow> sim_vehicle \<Rightarrow> sim_vehicle" where
  "drive_towards lm dt t v =
     (let remaining = distance_m lm (sv_latitude v) (sv_longitude v) t;
          step = min (fl (sv_speed v * dt)) remaining;
          heading = bearing_rad lm (sv_latitude v) (sv_longitude v) t;
          moved = offset lm (sv_latitude v) (sv_longitude v) (fl (step * m_cos lm heading)) (fl (step * m_sin lm heading))
      in v\<lparr>sv_heading := heading, sv_latitude := fst moved, sv_longitude := snd moved,
           sv_fuel_level := max 0 (fl (sv_fuel_level v - fl (fl (FUEL_USE_PER_KM * step) / 1000))),
           sv_target := (if fl (remaining - step) \<le> ARRIVAL_M then None else Some t)\<rparr>)"

definition recharge :: "sim_vehicle \<Rightarrow> sim_vehicle" where
  "recharge v = v\<lparr>sv_speed := 0, sv_fuel_level := min 100 (fl (sv_fuel_level v + FUEL_RECHARGE_PER_TICK))\<rparr>"

definition advance :: "libm \<Rightarrow> 'g rng_ops \<Rightarrow> rat \<Rightarrow> sim_vehicle \<Rightarrow> 'g \<Rightarrow> (sim_vehicle \<times> 'g) result" where
  "advance lm ops dt v g =
     (if \<not> driving v then Inr (recharge v, g)
      else bind_result (with_target lm ops v g) (\<lambda>(v', t, g'). Inr (drive_towards lm dt t v', g')))"

definition py_round :: "rat \<Rightarrow> nat \<Rightarrow> rat" where
  "py_round x n = fl (of_int (round_half_even (x * 10 ^ n)) / 10 ^ n)"

definition to_message :: "sim_vehicle \<Rightarrow> instant \<Rightarrow> telemetry_message result" where
  "to_message v now =
     (let m = \<lparr>tm_vehicle_id = sv_vehicle_id v, tm_recorded_at = now, tm_latitude = py_round (sv_latitude v) 6,
               tm_longitude = py_round (sv_longitude v) 6, tm_fuel_level = py_round (sv_fuel_level v) 1, tm_is_locked = (\<not> driving v)\<rparr>
      in if telemetry_valid m then Inr m else Inl ValidationError)"

section \<open>Following the API\<close>

record vehicle_data =
  vd_id :: int
  vd_station_id :: int
  vd_status :: string

text \<open>The fleet is a dict in insertion order; \<open>put\<close> replaces in place or appends.\<close>

fun put :: "sim_vehicle \<Rightarrow> sim_vehicle list \<Rightarrow> sim_vehicle list" where
  "put v [] = [v]"
| "put v (x # xs) = (if sv_vehicle_id x = sv_vehicle_id v then v # xs else x # put v xs)"

definition fleet_get :: "sim_vehicle list \<Rightarrow> int \<Rightarrow> sim_vehicle option" where
  "fleet_get fleet i = find (\<lambda>v. sv_vehicle_id v = i) fleet"

definition two_pi :: rat where "two_pi = 6283185307179586231995926937088370323 / 10 ^ 36"

definition sync_one :: "libm \<Rightarrow> 'g rng_ops \<Rightarrow> vehicle_data \<Rightarrow> sim_vehicle list \<times> 'g \<Rightarrow> sim_vehicle list \<times> 'g" where
  "sync_one lm ops d st =
     (case fleet_get (fst st) (vd_id d) of
        None \<Rightarrow>
          (let (h, g) = uniform ops 0 (fl two_pi) (snd st);
               (fuel, g) = uniform ops 40 100 g;
               (v, g) = park_at_station lm ops
                 \<lparr>sv_vehicle_id = vd_id d, sv_station_id = vd_station_id d, sv_status = vd_status d, sv_latitude = 0, sv_longitude = 0,
                  sv_heading = h, sv_speed = 0, sv_fuel_level = fuel, sv_bank = Right_bank, sv_target = None\<rparr> g
           in (put v (fst st), g))
      | Some sim \<Rightarrow>
          (let sim' = sim\<lparr>sv_status := vd_status d, sv_station_id := vd_station_id d\<rparr>;
               (v, g) = (if driving sim \<and> vd_status d \<noteq> ''rented'' then park_at_station lm ops sim' (snd st) else (sim', snd st))
           in (put v (fst st), g)))"

definition sync_fleet :: "libm \<Rightarrow> 'g rng_ops \<Rightarrow> vehicle_data list \<Rightarrow> sim_vehicle list \<times> 'g \<Rightarrow> sim_vehicle list \<times> 'g" where
  "sync_fleet lm ops ds st = fold (sync_one lm ops) ds st"

section \<open>The loop\<close>

definition REFRESH_EVERY_TICKS :: int where "REFRESH_EVERY_TICKS = 5"

text \<open>
  The loop over \<open>fleet.values()\<close>: each vehicle moves and its message is published. An
  error ends the loop, with the messages before it already published.
\<close>

fun publish_all :: "libm \<Rightarrow> 'g rng_ops \<Rightarrow> rat \<Rightarrow> instant \<Rightarrow> sim_vehicle list \<Rightarrow> 'g \<Rightarrow> telemetry_message list \<times> (sim_vehicle list \<times> 'g) result" where
  "publish_all lm ops dt now [] g = ([], Inr ([], g))"
| "publish_all lm ops dt now (v # vs) g =
     (case advance lm ops dt v g of
        Inl e \<Rightarrow> ([], Inl e)
      | Inr (v', g') \<Rightarrow> (case to_message v' now of
          Inl e \<Rightarrow> ([], Inl e)
        | Inr m \<Rightarrow> (case publish_all lm ops dt now vs g' of
            (ms, r) \<Rightarrow> (m # ms, map_sum id (\<lambda>(vs', g''). (v' # vs', g'')) r))))"

record 'g simulation =
  sim_tick :: int
  sim_fleet :: "sim_vehicle list"
  sim_rng :: 'g

text \<open>
  One turn of \<open>run\<close>; \<open>fetched\<close> is what \<open>fetch_vehicles\<close> gives this time, \<open>None\<close> for an
  \<open>OSError\<close>, which is logged and leaves the fleet as it is.
\<close>

definition run_tick :: "libm \<Rightarrow> 'g rng_ops \<Rightarrow> rat \<Rightarrow> vehicle_data list option \<Rightarrow> instant \<Rightarrow> 'g simulation \<Rightarrow> telemetry_message list \<times> 'g simulation result" where
  "run_tick lm ops dt fetched now s =
     (let (fleet, g) = (if sim_tick s mod REFRESH_EVERY_TICKS = 0
            then (case fetched of None \<Rightarrow> (sim_fleet s, sim_rng s) | Some ds \<Rightarrow> sync_fleet lm ops ds (sim_fleet s, sim_rng s))
            else (sim_fleet s, sim_rng s));
          (ms, r) = publish_all lm ops dt now fleet g
      in (ms, map_sum id (\<lambda>(fleet', g'). \<lparr>sim_tick = sim_tick s + 1, sim_fleet = fleet', sim_rng = g'\<rparr>) r))"

definition sim_start :: "'g \<Rightarrow> 'g simulation" where
  "sim_start g = \<lparr>sim_tick = 0, sim_fleet = [], sim_rng = g\<rparr>"

inductive sim_step :: "libm \<Rightarrow> 'g rng_ops \<Rightarrow> rat \<Rightarrow> 'g simulation \<Rightarrow> 'g simulation \<Rightarrow> bool"
  for lm :: libm and ops :: "'g rng_ops" and dt :: rat where
  tick: "run_tick lm ops dt fetched now s = (ms, Inr s') \<Longrightarrow> sim_step lm ops dt s s'"

section \<open>Random numbers and rounding\<close>

text \<open>
  What the code relies on: \<open>random()\<close> lies in \<open>[0, 1)\<close>, \<open>choice\<close> draws an index of its
  list, \<open>hypot\<close> is not negative, and the interval is not negative.
\<close>

definition sim_params :: "libm \<Rightarrow> 'g rng_ops \<Rightarrow> rat \<Rightarrow> bool" where
  "sim_params lm ops dt =
     (0 \<le> dt \<and> (\<forall>g. 0 \<le> fst (rng_random ops g) \<and> fst (rng_random ops g) < 1) \<and>
      (\<forall>n g. 0 < n \<longrightarrow> fst (rng_below ops n g) < n) \<and> (\<forall>x y. 0 \<le> m_hypot lm x y))"

lemma uniform_bounds:
  assumes "sim_params lm ops dt" "\<bar>a\<bar> \<le> 2 ^ 50" "\<bar>b\<bar> \<le> 2 ^ 50" "a \<le> b"
  shows "of_int a \<le> fst (uniform ops (of_int a) (of_int b) g) \<and> fst (uniform ops (of_int a) (of_int b) g) \<le> of_int b"
proof -
  obtain x g' where x: "rng_random ops g = (x, g')" "0 \<le> x" "x \<le> 1"
    using assms(1) by (metis less_imp_le prod.collapse sim_params_def)
  have d: "fl (of_int b - of_int a) = of_int b - of_int a"
    using fl_of_int[of "b - a"] assms(2,3) by simp
  have "0 \<le> (of_int b - of_int a) * x" "(of_int b - of_int a) * x \<le> of_int b - of_int a"
    using x assms(4) by (auto intro: mult_nonneg_nonneg mult_left_le)
  then have "0 \<le> fl ((of_int b - of_int a) * x)" "fl ((of_int b - of_int a) * x) \<le> of_int b - of_int a"
    using d by (auto intro: fl_ge_float fl_le_float)
  then have "of_int a \<le> fl (of_int a + fl ((of_int b - of_int a) * x)) \<and> fl (of_int a + fl ((of_int b - of_int a) * x)) \<le> of_int b"
    using fl_of_int[of a] fl_of_int[of b] assms(2,3) by (auto intro!: fl_ge_float fl_le_float)
  then show ?thesis using x d by (simp add: uniform_def)
qed

lemma uniform_speed:
  assumes "sim_params lm ops dt"
  shows "0 \<le> fst (uniform ops 7 14 g)"
  using uniform_bounds[OF assms, of 7 14 g] by simp

lemma uniform_fuel:
  assumes "sim_params lm ops dt"
  shows "0 \<le> fst (uniform ops 40 100 g) \<and> fst (uniform ops 40 100 g) \<le> 100"
  using uniform_bounds[OF assms, of 40 100 g] by simp

lemma py_round_between:
  assumes "of_int a \<le> x" "x \<le> of_int b" "\<bar>a\<bar> \<le> 2 ^ 53" "\<bar>b\<bar> \<le> 2 ^ 53"
  shows "of_int a \<le> py_round x n \<and> py_round x n \<le> of_int b"
proof -
  have "of_int (a * 10 ^ n) \<le> x * 10 ^ n" "x * 10 ^ n \<le> of_int (b * 10 ^ n)"
    using assms(1,2) by (simp_all add: mult_right_mono)
  then have "a * 10 ^ n \<le> round_half_even (x * 10 ^ n)" "round_half_even (x * 10 ^ n) \<le> b * 10 ^ n"
    by (auto intro: round_half_even_ge round_half_even_le)
  then have "(of_int (a * 10 ^ n) :: rat) \<le> of_int (round_half_even (x * 10 ^ n))"
    "(of_int (round_half_even (x * 10 ^ n)) :: rat) \<le> of_int (b * 10 ^ n)"
    by (simp_all only: of_int_le_iff)
  then have "of_int a \<le> of_int (round_half_even (x * 10 ^ n)) / (10 ^ n :: rat)"
    "of_int (round_half_even (x * 10 ^ n)) / (10 ^ n :: rat) \<le> of_int b"
    by (simp_all add: field_simps)
  then show ?thesis
    using fl_of_int[OF assms(3)] fl_of_int[OF assms(4)] by (auto simp: py_round_def intro: fl_ge_float fl_le_float)
qed

section \<open>The invariant of a simulated vehicle\<close>

definition sim_ok :: "sim_vehicle \<Rightarrow> bool" where
  "sim_ok v = (0 \<le> sv_fuel_level v \<and> sv_fuel_level v \<le> 100 \<and> 0 \<le> sv_speed v \<and>
     (case sv_target v of None \<Rightarrow> True | Some t \<Rightarrow> driving v \<and> t \<in> set (HUBS (sv_bank v))) \<and>
     (\<not> driving v \<longrightarrow> sv_speed v = 0))"

lemma park_at_station_fields:
  assumes "park_at_station lm ops v g = (v', g')"
  shows "sv_vehicle_id v' = sv_vehicle_id v \<and> sv_station_id v' = sv_station_id v \<and> sv_status v' = sv_status v \<and>
    sv_fuel_level v' = sv_fuel_level v \<and> sv_speed v' = 0 \<and> sv_target v' = None \<and> sv_bank v' = fst (station_hub (sv_station_id v))"
  using assms by (auto simp: park_at_station_def Let_def split: prod.splits)

lemma park_at_station_ok:
  assumes "0 \<le> sv_fuel_level v" "sv_fuel_level v \<le> 100" "park_at_station lm ops v g = (v', g')"
  shows "sim_ok v'"
  using park_at_station_fields[OF assms(3)] assms(1,2) by (simp add: sim_ok_def)

lemma pick_target_hub:
  assumes "sim_params lm ops dt" "pick_target lm ops v g = Inr (t, g')"
  shows "t \<in> set (HUBS (sv_bank v))"
proof -
  let ?o = "filter (\<lambda>hub. ARRIVAL_M * 4 < distance_m lm (sv_latitude v) (sv_longitude v) hub) (HUBS (sv_bank v))"
  obtain i where i: "?o \<noteq> []" "rng_below ops (length ?o) g = (i, g')" "t = ?o ! i"
    using assms(2) by (auto simp: pick_target_def Let_def split: if_splits prod.splits)
  then have "i < length ?o"
    using assms(1) unfolding sim_params_def by (metis fst_conv length_greater_0_conv)
  then have "t \<in> set ?o" using i(3) nth_mem by blast
  then show ?thesis by simp
qed

lemma fuel_after:
  assumes "0 \<le> f" "f \<le> 100" "0 \<le> used"
  shows "0 \<le> max 0 (fl (f - used)) \<and> max 0 (fl (f - used)) \<le> 100"
  using fl_le_float[of "f - used" 100] fl_of_int[of 100] assms by simp

lemma with_target_ok:
  assumes p: "sim_params lm ops dt" and ok: "sim_ok v" "driving v" and t: "with_target lm ops v g = Inr (v', t, g')"
  shows "sim_ok v' \<and> driving v' \<and> t \<in> set (HUBS (sv_bank v'))"
proof (cases "sv_target v")
  case None
  obtain u h where u: "pick_target lm ops v g = Inr (u, h)"
    "(case uniform ops 7 14 h of (speed, g'') \<Rightarrow> Inr (v\<lparr>sv_target := Some u, sv_speed := speed\<rparr>, u, g'')) = (Inr (v', t, g') :: (sim_vehicle \<times> point \<times> 'a) result)"
    using t None by (auto simp: with_target_def bind_result_Inr)
  obtain speed where h: "pick_target lm ops v g = Inr (t, h)" "uniform ops 7 14 h = (speed, g')"
    "v' = v\<lparr>sv_target := Some t, sv_speed := speed\<rparr>"
    using u by (cases "uniform ops 7 14 h") auto
  show ?thesis
    using pick_target_hub[OF p h(1)] uniform_speed[OF p, of h] h(2) ok
    unfolding h(3) by (simp add: sim_ok_def driving_def)
next
  case (Some u)
  then show ?thesis using t ok by (simp add: with_target_def sim_ok_def)
qed

lemma distance_nonneg: "sim_params lm ops dt \<Longrightarrow> 0 \<le> distance_m lm x y p"
  by (simp add: sim_params_def distance_m_def Let_def)

lemma drive_fuel:
  assumes p: "sim_params lm ops dt" and ok: "sim_ok v"
  shows "0 \<le> sv_fuel_level (drive_towards lm dt t v) \<and> sv_fuel_level (drive_towards lm dt t v) \<le> 100"
proof -
  let ?step = "min (fl (sv_speed v * dt)) (distance_m lm (sv_latitude v) (sv_longitude v) t)"
  have "0 \<le> sv_speed v" "0 \<le> dt" using p ok by (simp_all add: sim_ok_def sim_params_def)
  then have "0 \<le> ?step" using distance_nonneg[OF p] by (simp add: fl_nonneg)
  then have "0 \<le> fl (fl (FUEL_USE_PER_KM * ?step) / 1000)"
    by (intro fl_nonneg divide_nonneg_nonneg mult_nonneg_nonneg) (simp_all add: FUEL_USE_PER_KM_def fl_nonneg)
  from fuel_after[OF _ _ this] ok show ?thesis
    by (simp add: sim_ok_def drive_towards_def Let_def)
qed

lemma drive_keeps:
  "sv_vehicle_id (drive_towards lm dt t v) = sv_vehicle_id v" "sv_station_id (drive_towards lm dt t v) = sv_station_id v"
  "sv_status (drive_towards lm dt t v) = sv_status v" "sv_bank (drive_towards lm dt t v) = sv_bank v"
  "sv_speed (drive_towards lm dt t v) = sv_speed v" "sv_target (drive_towards lm dt t v) \<in> {None, Some t}"
  by (simp_all add: drive_towards_def Let_def)

lemma recharge_ok:
  assumes "sim_ok v" "\<not> driving v"
  shows "sim_ok (recharge v)"
proof -
  have "0 \<le> FUEL_RECHARGE_PER_TICK" by (simp add: FUEL_RECHARGE_PER_TICK_def fl_nonneg)
  then have "0 \<le> fl (sv_fuel_level v + FUEL_RECHARGE_PER_TICK)" using assms(1) by (simp add: sim_ok_def fl_nonneg)
  moreover have "sv_target v = None" using assms by (cases "sv_target v") (simp_all add: sim_ok_def)
  ultimately show ?thesis using assms by (simp add: sim_ok_def recharge_def)
qed

lemma advance_ok:
  assumes p: "sim_params lm ops dt" and ok: "sim_ok v" and a: "advance lm ops dt v g = Inr (v', g')"
  shows "sim_ok v'"
proof (cases "driving v")
  case True
  obtain w t where w: "with_target lm ops v g = Inr (w, t, g')" "v' = drive_towards lm dt t w"
    using a True by (auto simp: advance_def bind_result_Inr)
  have wok: "sim_ok w" "driving w" "t \<in> set (HUBS (sv_bank w))"
    using with_target_ok[OF p ok True w(1)] by simp_all
  have "driving v'" using wok(2) drive_keeps(3) by (simp add: w(2) driving_def)
  moreover have "0 \<le> sv_speed v'" using wok(1) drive_keeps(5) by (simp add: w(2) sim_ok_def)
  moreover have "case sv_target v' of None \<Rightarrow> True | Some u \<Rightarrow> u \<in> set (HUBS (sv_bank v'))"
    using drive_keeps(4,6)[of lm dt t w] wok(3) by (auto simp: w(2) split: option.splits)
  ultimately show ?thesis
    using drive_fuel[OF p wok(1)] by (auto simp: sim_ok_def w(2) split: option.splits)
next
  case False
  then show ?thesis using a recharge_ok[OF ok False] by (simp add: advance_def)
qed

section \<open>Following the API\<close>

lemma fleet_get_put: "fleet_get (put v xs) i = (if i = sv_vehicle_id v then Some v else fleet_get xs i)"
  by (induction xs) (auto simp: fleet_get_def)

lemma fleet_get_mem: "fleet_get fleet i = Some v \<Longrightarrow> v \<in> set fleet \<and> sv_vehicle_id v = i"
  by (auto simp: fleet_get_def find_Some_iff)

lemma set_put: "set (put v xs) \<subseteq> insert v (set xs)"
  by (induction xs) auto

lemma sync_one_vehicle:
  assumes "sync_one lm ops d (fleet, g) = (fleet', g')"
  shows "\<exists>v. fleet' = put v fleet \<and> sv_vehicle_id v = vd_id d \<and> sv_station_id v = vd_station_id d \<and> sv_status v = vd_status d \<and>
    ((case fleet_get fleet (vd_id d) of None \<Rightarrow> True | Some w \<Rightarrow> driving w \<and> \<not> driving v) \<longrightarrow>
       sv_speed v = 0 \<and> sv_target v = None \<and> sv_bank v = fst (station_hub (vd_station_id d))) \<and>
    (sim_params lm ops dt \<longrightarrow> (\<forall>w \<in> set fleet. sim_ok w) \<longrightarrow> sim_ok v)"
proof (cases "fleet_get fleet (vd_id d)")
  case None
  obtain h g1 where h: "uniform ops 0 (fl two_pi) g = (h, g1)" by (cases "uniform ops 0 (fl two_pi) g")
  obtain fuel g2 where fuel: "uniform ops 40 100 g1 = (fuel, g2)" by (cases "uniform ops 40 100 g1")
  let ?new = "\<lparr>sv_vehicle_id = vd_id d, sv_station_id = vd_station_id d, sv_status = vd_status d, sv_latitude = 0, sv_longitude = 0,
    sv_heading = h, sv_speed = 0, sv_fuel_level = fuel, sv_bank = Right_bank, sv_target = None\<rparr>"
  obtain v g3 where v: "park_at_station lm ops ?new g2 = (v, g3)" by (cases "park_at_station lm ops ?new g2")
  have f: "fleet' = put v fleet" using assms None h fuel v by (simp add: sync_one_def)
  have "sim_params lm ops dt \<Longrightarrow> sim_ok v"
    using park_at_station_ok[OF _ _ v] uniform_fuel[of lm ops dt g1] fuel by simp
  then show ?thesis using f park_at_station_fields[OF v] None by (intro exI[of _ v]) simp
next
  case (Some w)
  let ?w = "w\<lparr>sv_status := vd_status d, sv_station_id := vd_station_id d\<rparr>"
  have wm: "w \<in> set fleet" "sv_vehicle_id w = vd_id d" using fleet_get_mem[OF Some] by simp_all
  show ?thesis
  proof (cases "driving w \<and> vd_status d \<noteq> ''rented''")
    case True
    obtain v g3 where v: "park_at_station lm ops ?w g = (v, g3)" by (cases "park_at_station lm ops ?w g")
    have f: "fleet' = put v fleet" using assms Some True v by (simp add: sync_one_def)
    have "sim_ok w \<Longrightarrow> sim_ok v" using park_at_station_ok[OF _ _ v] by (simp add: sim_ok_def)
    then show ?thesis using f park_at_station_fields[OF v] Some wm by (intro exI[of _ v]) simp
  next
    case False
    then have f: "fleet' = put ?w fleet" using assms Some by (auto simp: sync_one_def)
    have st: "driving ?w = (vd_status d = ''rented'')" "driving w \<longrightarrow> driving ?w" using False by (simp_all add: driving_def)
    have "sim_ok w \<Longrightarrow> sim_ok ?w"
      using st by (cases "sv_target w") (auto simp: sim_ok_def)
    then show ?thesis using f Some wm st by (intro exI[of _ ?w], simp, blast)
  qed
qed

lemma sync_fleet_ok:
  assumes "sim_params lm ops dt" "\<forall>w \<in> set (fst st). sim_ok w"
  shows "\<forall>w \<in> set (fst (sync_fleet lm ops ds st)). sim_ok w"
  using assms(2)
proof (induction ds arbitrary: st)
  case Nil
  then show ?case by (simp add: sync_fleet_def)
next
  case (Cons d ds)
  obtain fleet' g' where s: "sync_one lm ops d (fst st, snd st) = (fleet', g')" by (cases "sync_one lm ops d (fst st, snd st)")
  then have "\<forall>w \<in> set fleet'. sim_ok w"
    using sync_one_vehicle[OF s, of dt] assms(1) Cons.prems set_put by blast
  then show ?case using Cons.IH[of "(fleet', g')"] s by (simp add: sync_fleet_def)
qed

lemma sync_fleet_untouched:
  assumes "i \<notin> vd_id ` set ds"
  shows "fleet_get (fst (sync_fleet lm ops ds st)) i = fleet_get (fst st) i"
  using assms
proof (induction ds arbitrary: st)
  case Nil
  then show ?case by (simp add: sync_fleet_def)
next
  case (Cons d ds)
  obtain fleet' g' where s: "sync_one lm ops d (fst st, snd st) = (fleet', g')" by (cases "sync_one lm ops d (fst st, snd st)")
  obtain v where "fleet' = put v (fst st)" "sv_vehicle_id v = vd_id d" using sync_one_vehicle[OF s] by blast
  then have "fleet_get fleet' i = fleet_get (fst st) i" using Cons.prems by (simp add: fleet_get_put)
  then show ?case using Cons s by (simp add: sync_fleet_def)
qed

lemma map_sum_Inr: "map_sum id f r = Inr y \<longleftrightarrow> (\<exists>x. r = Inr x \<and> f x = y)"
  by (cases r) auto

lemma publish_all_ok:
  assumes "sim_params lm ops dt" "\<forall>w \<in> set fleet. sim_ok w" "publish_all lm ops dt now fleet g = (ms, Inr (fleet', g'))"
  shows "\<forall>w \<in> set fleet'. sim_ok w"
  using assms(2,3)
proof (induction fleet arbitrary: g ms fleet')
  case (Cons v vs)
  obtain v' h m ns vs' where a: "advance lm ops dt v g = Inr (v', h)" "publish_all lm ops dt now vs h = (ns, Inr (vs', g'))" "fleet' = v' # vs'"
    using Cons.prems(2) by (auto simp: map_sum_Inr split: sum.splits prod.splits)
  show ?case using advance_ok[OF assms(1) _ a(1)] Cons.IH[OF _ a(2)] Cons.prems(1) a(3) by simp
qed simp

lemma run_tick_ok:
  assumes p: "sim_params lm ops dt" and ok: "\<forall>w \<in> set (sim_fleet s). sim_ok w" and r: "run_tick lm ops dt fetched now s = (ms, Inr s')"
  shows "\<forall>w \<in> set (sim_fleet s'). sim_ok w"
proof -
  let ?synced = "if sim_tick s mod REFRESH_EVERY_TICKS = 0
    then (case fetched of None \<Rightarrow> (sim_fleet s, sim_rng s) | Some ds \<Rightarrow> sync_fleet lm ops ds (sim_fleet s, sim_rng s))
    else (sim_fleet s, sim_rng s)"
  have sync: "\<forall>w \<in> set (fst ?synced). sim_ok w"
    using ok sync_fleet_ok[OF p, of "(sim_fleet s, sim_rng s)"] by (simp split: option.splits)
  obtain fleet' g' where f: "publish_all lm ops dt now (fst ?synced) (snd ?synced) = (ms, Inr (fleet', g'))" "sim_fleet s' = fleet'"
    using r by (auto simp: run_tick_def Let_def map_sum_Inr case_prod_beta prod_eq_iff)
  show ?thesis using publish_all_ok[OF p sync f(1)] f(2) by simp
qed

interpretation simulated: transition_system "sim_step lm ops dt" "\<lambda>s. sim_params lm ops dt \<longrightarrow> (\<forall>w \<in> set (sim_fleet s). sim_ok w)" for lm ops dt
  by unfold_locales (auto elim!: sim_step.cases dest: run_tick_ok)

lemma to_message_valid:
  assumes "sim_ok v" "0 < sv_vehicle_id v" "\<bar>sv_latitude v\<bar> \<le> 90" "\<bar>sv_longitude v\<bar> \<le> 180"
  shows "\<exists>m. to_message v now = Inr m \<and> tm_vehicle_id m = sv_vehicle_id v \<and> tm_recorded_at m = now \<and> tm_is_locked m = (\<not> driving v) \<and> telemetry_valid m"
  using assms py_round_between[of "-90" "sv_latitude v" 90 6] py_round_between[of "-180" "sv_longitude v" 180 6]
    py_round_between[of 0 "sv_fuel_level v" 100 1]
  by (simp add: to_message_def Let_def telemetry_valid_def sim_ok_def abs_le_iff)

section \<open>The properties\<close>

definition demo_libm :: libm where
  "demo_libm = \<lparr>m_cos = (\<lambda>_. 1), m_sin = (\<lambda>_. 0), m_atan2 = (\<lambda>_ _. 0), m_hypot = (\<lambda>_ _. 1000), m_radians = id, m_degrees = (\<lambda>_. 0)\<rparr>"

definition demo_rng :: "unit rng_ops" where
  "demo_rng = \<lparr>rng_random = (\<lambda>g. (1 / 2, g)), rng_below = (\<lambda>n g. (0, g))\<rparr>"

definition demo_vehicle_data :: vehicle_data where
  "demo_vehicle_data = \<lparr>vd_id = 7, vd_station_id = 1, vd_status = ''available''\<rparr>"

lemma demo_params: "sim_params demo_libm demo_rng 2"
  by (simp add: sim_params_def demo_libm_def demo_rng_def)

text \<open>
  C37: in every state the simulator's loop reaches, whatever lists the API gave and whichever refreshes failed, every vehicle
  has a fuel level in \<open>[0, 100]\<close>, a vehicle that is not rented stands still without a target, a target is a hub of the
  vehicle's own river bank, and a vehicle at valid coordinates yields a message that the worker accepts, locked exactly
  when it is not being driven.
\<close>
theorem simulated_fleet_sound:
  assumes "sim_params lm ops dt" "(sim_step lm ops dt)\<^sup>*\<^sup>* (sim_start g) s" "v \<in> set (sim_fleet s)"
  shows "0 \<le> sv_fuel_level v \<and> sv_fuel_level v \<le> 100 \<and>
    (sv_status v \<noteq> ''rented'' \<longrightarrow> sv_speed v = 0 \<and> sv_target v = None) \<and>
    (\<forall>t. sv_target v = Some t \<longrightarrow> t \<in> set (HUBS (sv_bank v))) \<and>
    (0 < sv_vehicle_id v \<longrightarrow> \<bar>sv_latitude v\<bar> \<le> 90 \<longrightarrow> \<bar>sv_longitude v\<bar> \<le> 180 \<longrightarrow>
       (\<exists>m. to_message v now = Inr m \<and> model_validate_json Some m = Inr m \<and> tm_is_locked m = (sv_status v \<noteq> ''rented'')))"
proof -
  have ok: "sim_ok v"
    using simulated.reach_inv[OF assms(2)] assms(1,3) by (simp add: sim_start_def)
  then have t: "sv_status v \<noteq> ''rented'' \<longrightarrow> sv_target v = None" "\<forall>t. sv_target v = Some t \<longrightarrow> t \<in> set (HUBS (sv_bank v))"
    by (auto simp: sim_ok_def driving_def split: option.splits)
  show ?thesis using ok t to_message_valid[OF ok, of now] by (auto simp: sim_ok_def driving_def model_validate_json_def)
qed

lemma hub_1: "station_hub 1 = (Right_bank, pt 504501 305241)"
  by (simp add: station_hub_def ALL_HUBS_def)

lemma demo_sync:
  "\<exists>v. sync_fleet demo_libm demo_rng [demo_vehicle_data] ([], ()) = ([v], ()) \<and> sim_ok v \<and> sv_vehicle_id v = 7 \<and> sv_status v = ''available'' \<and>
     \<bar>sv_latitude v\<bar> \<le> 90 \<and> \<bar>sv_longitude v\<bar> \<le> 180"
proof -
  let ?st = "sync_fleet demo_libm demo_rng [demo_vehicle_data] ([], ())"
  obtain v where v: "sync_one demo_libm demo_rng demo_vehicle_data ([], ()) = ([v], ())"
    "sv_latitude v = fl (fst (pt 504501 305241) + 0)" "sv_longitude v = fl (snd (pt 504501 305241) + 0)"
    by (simp add: sync_one_def fleet_get_def uniform_def demo_rng_def park_at_station_def demo_vehicle_data_def hub_1 pt_def offset_def demo_libm_def)
  have "0 \<le> fl (504501 / 10000 :: rat)" "fl (504501 / 10000 :: rat) \<le> 90" "0 \<le> fl (305241 / 10000 :: rat)" "fl (305241 / 10000 :: rat) \<le> 180"
    using fl_of_int[of 90] fl_of_int[of 180] by (simp_all add: fl_nonneg fl_le_float)
  then have b: "\<bar>sv_latitude v\<bar> \<le> 90" "\<bar>sv_longitude v\<bar> \<le> 180" using v(2,3) by (simp_all add: pt_def)
  obtain w where "[v] = put w []" "sv_vehicle_id w = 7" "sv_status w = ''available''" "sim_ok w"
    using sync_one_vehicle[OF v(1), of 2] demo_params by (auto simp: demo_vehicle_data_def)
  then show ?thesis using v(1) b by (simp add: sync_fleet_def)
qed

lemma demo_tick:
  "\<exists>ms s. run_tick demo_libm demo_rng 2 (Some [demo_vehicle_data]) 5 (sim_start ()) = (ms, Inr s) \<and> map sv_vehicle_id (sim_fleet s) = [7]"
proof -
  obtain v where v: "sync_fleet demo_libm demo_rng [demo_vehicle_data] ([], ()) = ([v], ())" "sim_ok v" "sv_vehicle_id v = 7"
    "sv_status v = ''available''" "\<bar>sv_latitude v\<bar> \<le> 90" "\<bar>sv_longitude v\<bar> \<le> 180"
    using demo_sync by blast
  have nd: "\<not> driving v" using v(4) by (simp add: driving_def)
  obtain m where "to_message (recharge v) 5 = Inr m"
    using to_message_valid[OF recharge_ok[OF v(2) nd], of 5] v(3,5,6) by (auto simp: recharge_def)
  then show ?thesis using v(1,3) nd by (simp add: run_tick_def sim_start_def advance_def) (simp add: recharge_def)
qed

theorem simulated_fleet_sound_witness:
  "\<exists>s v. snd (run_tick demo_libm demo_rng 2 (Some [demo_vehicle_data]) 5 (sim_start ())) = Inr s \<and> v \<in> set (sim_fleet s) \<and>
     0 \<le> sv_fuel_level v \<and> sv_fuel_level v \<le> 100"
proof -
  obtain ms s where r: "run_tick demo_libm demo_rng 2 (Some [demo_vehicle_data]) 5 (sim_start ()) = (ms, Inr s)" "map sv_vehicle_id (sim_fleet s) = [7]"
    using demo_tick by (elim exE conjE)
  then have v: "hd (sim_fleet s) \<in> set (sim_fleet s)" by auto
  have "(sim_step demo_libm demo_rng 2)\<^sup>*\<^sup>* (sim_start ()) s" using sim_step.tick[OF r(1)] by blast
  from simulated_fleet_sound[OF demo_params this v] show ?thesis using r(1) v by (intro exI[of _ s] exI[of _ "hd (sim_fleet s)"]) simp
qed

text \<open>
  After \<open>sync_fleet\<close> the simulated fleet follows the list of the API: every vehicle of the list is there with the list's
  status and station; one that is new, or was being driven and no longer is, stands at the hub of its station; and the
  vehicles that the list does not name stay as they were.
\<close>
lemma sync_fleet_follows_api:
  assumes "distinct (map vd_id ds)"
  shows "(\<forall>d \<in> set ds. \<exists>v. fleet_get (fst (sync_fleet lm ops ds st)) (vd_id d) = Some v \<and>
      sv_status v = vd_status d \<and> sv_station_id v = vd_station_id d \<and>
      ((case fleet_get (fst st) (vd_id d) of None \<Rightarrow> True | Some w \<Rightarrow> driving w \<and> \<not> driving v) \<longrightarrow>
         sv_speed v = 0 \<and> sv_target v = None \<and> sv_bank v = fst (station_hub (vd_station_id d)))) \<and>
    (\<forall>i. i \<notin> vd_id ` set ds \<longrightarrow> fleet_get (fst (sync_fleet lm ops ds st)) i = fleet_get (fst st) i)"
  using assms
proof (induction ds arbitrary: st)
  case Nil
  then show ?case by (simp add: sync_fleet_def)
next
  case (Cons e ds)
  obtain fleet' g' where s: "sync_one lm ops e (fst st, snd st) = (fleet', g')" by (cases "sync_one lm ops e (fst st, snd st)")
  obtain w where w: "fleet' = put w (fst st)" "sv_vehicle_id w = vd_id e" "sv_station_id w = vd_station_id e" "sv_status w = vd_status e"
    "(case fleet_get (fst st) (vd_id e) of None \<Rightarrow> True | Some x \<Rightarrow> driving x \<and> \<not> driving w) \<longrightarrow>
       sv_speed w = 0 \<and> sv_target w = None \<and> sv_bank w = fst (station_hub (vd_station_id e))"
    using sync_one_vehicle[OF s] by blast
  have after: "sync_fleet lm ops (e # ds) st = sync_fleet lm ops ds (fleet', g')" using s by (simp add: sync_fleet_def)
  have e: "fleet_get (fst (sync_fleet lm ops ds (fleet', g'))) (vd_id e) = Some w"
    using sync_fleet_untouched[of "vd_id e" ds lm ops "(fleet', g')"] Cons.prems w(1,2) by (simp add: fleet_get_put)
  have other: "\<And>i. i \<noteq> vd_id e \<Longrightarrow> fleet_get fleet' i = fleet_get (fst st) i" using w(1,2) by (simp add: fleet_get_put)
  have d: "\<And>d. d \<in> set ds \<Longrightarrow> vd_id d \<noteq> vd_id e" using Cons.prems by (auto simp: image_iff)
  show ?case
    using Cons.IH[of "(fleet', g')"] Cons.prems e w(3-5) other d unfolding after by auto
qed

end
