(* ===== verification/SimulatedFleet.thy ===== *)
theory SimulatedFleet
  imports Worker Simulator
begin

text \<open>
  The telemetry pipeline end to end: a turn of the simulator's loop publishes its messages
  (\<open>telemetry/simulator.py\<close>), the worker serves the queue (\<open>telemetry/worker.py\<close>) and the fleet map
  reads the result (\<open>services/vehicle_state_service.py\<close>). The JSON of a message is a parameter
  \<open>encode\<close> that the worker's \<open>parse\<close> reads back.
\<close>

section \<open>One message per vehicle\<close>

lemma put_ids: "distinct (map sv_vehicle_id xs) \<Longrightarrow> distinct (map sv_vehicle_id (put v xs))"
proof (induction xs)
  case (Cons x xs)
  have "sv_vehicle_id ` set (put v xs) \<subseteq> insert (sv_vehicle_id v) (sv_vehicle_id ` set xs)" using set_put by blast
  then show ?case using Cons by auto
qed simp

lemma sync_fleet_ids:
  "distinct (map sv_vehicle_id (fst st)) \<Longrightarrow> distinct (map sv_vehicle_id (fst (sync_fleet lm ops ds st)))"
proof (induction ds arbitrary: st)
  case (Cons d ds)
  obtain fleet' g' where s: "sync_one lm ops d (fst st, snd st) = (fleet', g')" by (cases "sync_one lm ops d (fst st, snd st)")
  then have "distinct (map sv_vehicle_id fleet')" using sync_one_vehicle[OF s] Cons.prems put_ids by blast
  then show ?case using Cons.IH[of "(fleet', g')"] s by (simp add: sync_fleet_def)
qed (simp add: sync_fleet_def)

lemma advance_id: "advance lm ops dt v g = Inr (v', g') \<Longrightarrow> sv_vehicle_id v' = sv_vehicle_id v"
  by (auto simp: advance_def recharge_def with_target_def drive_towards_def bind_result_def Let_def
      split: if_splits sum.splits option.splits prod.splits)

lemma to_message_fields: "to_message v now = Inr m \<Longrightarrow> tm_vehicle_id m = sv_vehicle_id v \<and> tm_recorded_at m = now \<and> telemetry_valid m"
  by (auto simp: to_message_def Let_def split: if_splits)

lemma publish_all_messages:
  "publish_all lm ops dt now fleet g = (ms, res) \<Longrightarrow>
    map tm_vehicle_id ms = take (length ms) (map sv_vehicle_id fleet) \<and> (\<forall>m \<in> set ms. tm_recorded_at m = now \<and> telemetry_valid m) \<and>
    (\<forall>fleet' g'. res = Inr (fleet', g') \<longrightarrow> map sv_vehicle_id fleet' = map sv_vehicle_id fleet \<and> length ms = length fleet)"
proof (induction fleet arbitrary: g ms res)
  case (Cons v vs)
  show ?case
  proof (cases "advance lm ops dt v g")
    case a: (Inr x)
    obtain v' h where x: "x = (v', h)" by fastforce
    show ?thesis
    proof (cases "to_message v' now")
      case m: (Inr m)
      obtain ns r where r: "publish_all lm ops dt now vs h = (ns, r)" by fastforce
      show ?thesis using Cons.IH[OF r] Cons.prems a x m r advance_id[of lm ops dt v g v' h] to_message_fields[OF m]
        by (auto simp: map_sum_Inr)
    qed (use Cons.prems a x in auto)
  qed (use Cons.prems in auto)
qed auto

lemma run_tick_messages:
  assumes "run_tick lm ops dt fetched now s = (ms, res)" "distinct (map sv_vehicle_id (sim_fleet s))"
  shows "distinct (map tm_vehicle_id ms) \<and> (\<forall>m \<in> set ms. tm_recorded_at m = now \<and> telemetry_valid m) \<and>
    (\<forall>s'. res = Inr s' \<longrightarrow> distinct (map sv_vehicle_id (sim_fleet s')) \<and> map tm_vehicle_id ms = map sv_vehicle_id (sim_fleet s'))"
proof -
  let ?synced = "if sim_tick s mod REFRESH_EVERY_TICKS = 0
    then (case fetched of None \<Rightarrow> (sim_fleet s, sim_rng s) | Some ds \<Rightarrow> sync_fleet lm ops ds (sim_fleet s, sim_rng s))
    else (sim_fleet s, sim_rng s)"
  obtain r where f: "publish_all lm ops dt now (fst ?synced) (snd ?synced) = (ms, r)"
    and res: "res = map_sum id (\<lambda>(fleet', g'). \<lparr>sim_tick = sim_tick s + 1, sim_fleet = fleet', sim_rng = g'\<rparr>) r"
    using assms(1) by (auto simp: run_tick_def Let_def case_prod_beta prod_eq_iff)
  have d: "distinct (map sv_vehicle_id (fst ?synced))"
    using assms(2) sync_fleet_ids[of "(sim_fleet s, sim_rng s)"] by (auto split: option.split)
  note p = publish_all_messages[OF f]
  have "distinct (map tm_vehicle_id ms)" using p d by (metis distinct_take)
  then show ?thesis using p d res by (auto simp: map_sum_Inr)
qed

interpretation simulated_ids: transition_system "sim_step lm ops dt" "\<lambda>s. distinct (map sv_vehicle_id (sim_fleet s))" for lm ops dt
  by unfold_locales (auto elim!: sim_step.cases dest: run_tick_messages)

section \<open>From the simulator to the map\<close>

definition publish_messages :: "('q, 'b) broker \<Rightarrow> 'b list \<Rightarrow> ('q, 'b) worker_state \<Rightarrow> ('q, 'b) worker_state" where
  "publish_messages br bs s = fold (\<lambda>b s. s\<lparr>tw_queue := br_publish br b (tw_queue s), tw_published := b # tw_published s\<rparr>) bs s"

lemma publish_messages_steps: "(worker_step parse br)\<^sup>*\<^sup>* s (publish_messages br bs s)"
proof (induction bs arbitrary: s)
  case (Cons b bs)
  have "worker_step parse br s (s\<lparr>tw_queue := br_publish br b (tw_queue s), tw_published := b # tw_published s\<rparr>)"
    by (rule worker_step.published)
  from converse_rtranclp_into_rtranclp[of "worker_step parse br", OF this Cons.IH] show ?case by (simp add: publish_messages_def)
qed (simp add: publish_messages_def)

lemma publish_messages_fields:
  "tw_store (publish_messages br bs s) = tw_store s" "tw_running (publish_messages br bs s) = tw_running s"
  "tw_published (publish_messages br bs s) = rev bs @ tw_published s"
  by (induction bs arbitrary: s) (simp_all add: publish_messages_def)

text \<open>A vehicle whose cached state is known is on the map with that state.\<close>

lemma cached_state_on_map:
  assumes "store_ok st" "wf_table v_id (vehicles (fst st))" "has_id v_id (vehicles (fst st)) (tm_vehicle_id m)"
    "snd st (vehicle_state_key (tm_vehicle_id m)) = Some (entry_of m)"
    "get_fleet_positions (fst st) (snd st) No_fault now = Inr fp"
  shows "\<exists>v. position_of v (state_of_message m) \<in> set (fp_positions fp) \<and> v_id v = tm_vehicle_id m"
proof -
  let ?db = "fst st" and ?r = "snd st" and ?i = "tm_vehicle_id m"
  obtain v where v: "v \<in> set (rows (vehicles ?db))" "v_id v = ?i" using assms(3) by (auto simp: has_id_def list_ex_iff)
  have c: "cache_ok ?db ?r" using assms(1) by (simp add: store_ok_def)
  let ?p = "\<lparr>max_attempts = 1, attempt_timeout = 1, base_delay = 1, max_delay = 1\<rparr>"
  have at: "at_least_once ?p = ?p" "1 \<le> attempts_made ?p" by (simp_all add: at_least_once_def attempts_made_def)
  have h: "redis_hgetall No_fault ?r (vehicle_state_key ?i) now = Inr (state_fields m)"
    using assms(4) by (simp add: redis_hgetall_def live_entry)
  have fields: "state_fields m \<noteq> []" by (simp add: state_fields_def)
  have "get_vehicle_state ?db ?r (\<lambda>_. No_fault) ?i (Some ?p) (\<lambda>_. 0) now = answer ?db ?r ?i now"
    using get_vehicle_state_answer[OF c, of 1 ?p "\<lambda>_. No_fault"] at by simp
  then have s: "get_vehicle_state ?db ?r (\<lambda>_. No_fault) (v_id v) (Some ?p) (\<lambda>_. 0) now = Inr (state_of_message m)"
    using h v(2) fields by (simp add: answer_def from_cache_state)
  have "rows (vehicles ?db) \<noteq> []" using v(1) by auto
  from fleet_positions_one_by_one[OF c assms(2) this _ at, of No_fault now "\<lambda>_. 0"]
  have "fp_positions fp = List.map_filter (\<lambda>v. case get_vehicle_state ?db ?r (\<lambda>_. No_fault) (v_id v) (Some ?p) (\<lambda>_. 0) now of
      Inl _ \<Rightarrow> None | Inr s \<Rightarrow> Some (position_of v s)) (sort_key v_id (rows (vehicles ?db)))" using assms(5) by simp
  then show ?thesis using v s by (intro exI[of _ v]) (force simp: List.map_filter_def image_iff)
qed

text \<open>
  C13: the fleet map shows what the simulator published. The worker is in a state that it reaches while it runs and
  in which everything is older than the turn to come: every message published before and every instant in the
  cache lies strictly before the clock of the turn (a newer reading would rightly win). A turn of the
  simulator then publishes its messages, for vehicles that the database knows, with ids below \<open>2^31\<close> and a JSON
  codec that reads back what it wrote, and the worker serves the queue until nothing is left, without
  faults. The map now has, for every vehicle with a message of this turn, exactly its position, fuel level and lock.
\<close>

theorem simulated_fleet_on_map:
  assumes "broker_ok br" and "readings_ok db" and "cache_ok db r" and "br_ready br q = {#}" and "br_unacked br q = []"
    and "(worker_step parse br)\<^sup>*\<^sup>* (worker_start q (db, r)) s" and "tw_running s"
    and "(sim_step lm ops dt)\<^sup>*\<^sup>* (sim_start g) sim" and "run_tick lm ops dt fetched now sim = (messages, outcome)"
    and "\<forall>m \<in> set messages. parse (encode m) = Some m \<and> tm_vehicle_id m < 2 ^ 31 \<and> has_id v_id (vehicles (fst (tw_store s))) (tm_vehicle_id m)"
    and "\<forall>b \<in> set (tw_published s). \<forall>m. parse b = Some m \<longrightarrow> tm_vehicle_id m < 2 ^ 31 \<and> tm_recorded_at m < now"
    and "\<forall>v t. cached_at (snd (tw_store s)) v = Some t \<longrightarrow> t < now"
    and "wf_table v_id (vehicles (fst (tw_store s)))"
    and "(serve_step parse br faultless)\<^sup>*\<^sup>* (publish_messages br (map encode messages) s) s'" and "\<nexists>s''. serve_step parse br faultless s' s''"
    and "get_fleet_positions (fst (tw_store s')) (snd (tw_store s')) No_fault later = Inr fp" and "m \<in> set messages"
  shows "\<exists>p \<in> set (fp_positions fp). vp_vehicle_id p = tm_vehicle_id m \<and> vp_recorded_at p = now \<and> vp_latitude p = tm_latitude m \<and>
    vp_longitude p = tm_longitude m \<and> vp_fuel_level p = tm_fuel_level m \<and> vp_is_locked p = tm_is_locked m \<and> vp_source p = Cache_source"
proof -
  let ?s = "publish_messages br (map encode messages) s"
  have ms: "distinct (map tm_vehicle_id messages)" "\<forall>m \<in> set messages. tm_recorded_at m = now \<and> telemetry_valid m"
    using run_tick_messages[OF assms(9)] simulated_ids.reach_inv[OF assms(8)] by (auto simp: sim_start_def)
  have "(worker_step parse br)\<^sup>*\<^sup>* (worker_start q (db, r)) ?s"
    using assms(6) publish_messages_steps by (rule rtranclp_trans)
  then have ok: "accounted br ?s \<and> settled_rightly parse ?s"
    using worker.reach_inv worker_start_ok[OF _ assms(4,5)] assms(1-3) by (metis store_ok_def fst_conv snd_conv)
  have "list_all (deliverable parse) (tw_published ?s)"
    using assms(10,11) by (auto simp: list_all_iff publish_messages_fields deliverable_def model_validate_json_def telemetry_valid_def int4_def split: option.splits)
  then have good: "good_run parse br ?s" using ok assms(7) by (simp add: good_run_def publish_messages_fields)
  note end_state = serve_reach[OF assms(1,14) good]
  have empty: "br_ready br (tw_queue s') = {#}" "tw_buffer s' = []"
    using serve_stuck[OF assms(1) _ _ assms(15)] end_state(1) by (auto simp: good_run_def)
  have v: "vehicles (fst (tw_store s')) = vehicles (fst (tw_store s))"
    using store_le_vehicles[OF end_state(3)] by (simp add: publish_messages_fields)
  have valid: "model_validate_json parse (encode m) = Inr m"
    using assms(10,17) ms(2) by (simp add: model_validate_json_def)
  have "encode m \<in># mset (tw_published s')" using end_state(2) assms(17) by (simp add: publish_messages_fields)
  moreover have "mset (tw_published s') = mset (tw_acked s') + mset (tw_dropped s')"
    using end_state(1) empty by (simp add: good_run_def accounted_def)
  ultimately have "encode m \<in> set (tw_acked s') \<union> set (tw_dropped s')" by (metis UnI1 UnI2 set_mset_mset union_iff)
  moreover have "encode m \<notin> set (tw_dropped s')"
    using end_state(1) valid v assms(10,17) by (auto simp: good_run_def settled_rightly_def list_all_iff unusable_def)
  ultimately have "kept parse (tw_store s') (encode m)" using end_state(1) by (auto simp: good_run_def settled_rightly_def list_all_iff)
  then obtain t where t: "cached_at (snd (tw_store s')) (tm_vehicle_id m) = Some t" "now \<le> t"
    using valid ms(2) assms(17) by (auto simp: kept_def)
  have fresh: "snd (tw_store s') (vehicle_state_key (tm_vehicle_id m)) \<noteq> snd (tw_store s) (vehicle_state_key (tm_vehicle_id m))"
  proof
    assume "snd (tw_store s') (vehicle_state_key (tm_vehicle_id m)) = snd (tw_store s) (vehicle_state_key (tm_vehicle_id m))"
    then have "cached_at (snd (tw_store s')) (tm_vehicle_id m) = cached_at (snd (tw_store s)) (tm_vehicle_id m)"
      unfolding cached_at_def by (simp only:)
    then have "t < now" using t(1) assms(12) by simp
    then show False using t(2) by simp
  qed
  obtain b m' where b: "b \<in> set (tw_published ?s)" "model_validate_json parse b = Inr m'" "tm_vehicle_id m' = tm_vehicle_id m"
      "snd (tw_store s') (vehicle_state_key (tm_vehicle_id m)) = Some (entry_of m')"
    using serve_cache_source[OF assms(1,14) good, of "tm_vehicle_id m"] fresh by (auto simp: publish_messages_fields)
  have "t = tm_recorded_at m'" using t(1) cached_at_entry(2)[where r = "snd (tw_store s')", OF b(4)] by simp
  then have "b \<in> encode ` set messages"
    using b(1,2) t(2) assms(11) by (auto simp: publish_messages_fields model_validate_json_def split: option.splits if_splits)
  then have "m' \<in> set messages" using b(2) assms(10) by (auto simp: model_validate_json_def split: if_splits)
  then have "m' = m" using ms(1) assms(17) b(3) by (auto simp: distinct_map inj_on_def)
  then obtain v where "position_of v (state_of_message m) \<in> set (fp_positions fp)" "v_id v = tm_vehicle_id m"
    using cached_state_on_map[of "tw_store s'" m later fp] end_state(1) v assms(10,13,16,17) b(4) by (auto simp: good_run_def settled_rightly_def)
  then show ?thesis using ms(2) assms(17) by (intro bexI[of _ "position_of v (state_of_message m)"]) (simp_all add: position_of_def state_of_message_def)
qed

definition map_demo_db :: database where
  "map_demo_db = empty_db\<lparr>vehicles := \<lparr>rows = [\<lparr>v_id = 7, v_license_plate = ''AA'', v_model = ''M'', v_status = AVAILABLE, v_station_id = 1\<rparr>],
     next_id = 8\<rparr>\<rparr>"

theorem simulated_fleet_on_map_witness:
  "\<exists>messages outcome s' fp p. run_tick demo_libm demo_rng 2 (Some [demo_vehicle_data]) 5 (sim_start ()) = (messages, outcome) \<and>
     (serve_step Some memory_broker faultless)\<^sup>*\<^sup>*
       (publish_messages memory_broker messages ((worker_start ([], []) (map_demo_db, Map.empty))\<lparr>tw_running := True\<rparr>)) s' \<and>
     get_fleet_positions (fst (tw_store s')) (snd (tw_store s')) No_fault 9 = Inr fp \<and> p \<in> set (fp_positions fp) \<and>
     vp_vehicle_id p = 7 \<and> vp_recorded_at p = 5 \<and> vp_source p = Cache_source"
proof -
  define s0 where "s0 = (worker_start ([], []) (map_demo_db, Map.empty) :: (telemetry_message list \<times> (nat \<times> telemetry_message) list, telemetry_message) worker_state)"
  let ?s = "s0\<lparr>tw_running := True\<rparr>"
  obtain messages sim' where t: "run_tick demo_libm demo_rng 2 (Some [demo_vehicle_data]) 5 (sim_start ()) = (messages, Inr sim')"
      "map sv_vehicle_id (sim_fleet sim') = [7]" using demo_tick by (elim exE conjE)
  have ids: "map tm_vehicle_id messages = [7]" and now: "\<forall>m \<in> set messages. tm_recorded_at m = 5 \<and> telemetry_valid m"
    using run_tick_messages[OF t(1)] t(2) by (simp_all add: sim_start_def)
  then obtain m where m: "messages = [m]" "tm_vehicle_id m = 7" by auto
  have q: "br_ready memory_broker ([], []) = {#}" "br_unacked memory_broker ([], []) = []" by (simp_all add: memory_broker_def)
  have db: "readings_ok map_demo_db" "cache_ok map_demo_db Map.empty"
    by (simp_all add: readings_ok_def cache_ok_def map_demo_db_def empty_db_def wf_table_empty rows_empty)
  have "worker_step Some memory_broker s0 ?s"
    by (rule worker_step.connected[where attempts = "\<lambda>_. Inr ()"])
       (simp_all add: s0_def worker_start_def connect_rabbitmq_def CONNECT_ATTEMPTS_def eval_nat_numeral)
  then have run: "(worker_step Some memory_broker)\<^sup>*\<^sup>* s0 ?s" by (rule r_into_rtranclp)
  have to: "(worker_step Some memory_broker)\<^sup>*\<^sup>* s0 (publish_messages memory_broker messages ?s)"
    using run publish_messages_steps by (rule rtranclp_trans)
  have "accounted memory_broker s0 \<and> settled_rightly Some s0"
    using worker_start_ok[OF _ q, of "(map_demo_db, Map.empty)" Some] db unfolding s0_def by (simp add: store_ok_def)
  then have ok: "accounted memory_broker (publish_messages memory_broker messages ?s)" "settled_rightly Some (publish_messages memory_broker messages ?s)"
    using worker.reach_inv[OF to] memory_broker_ok by blast+
  have "list_all (deliverable Some) (tw_published (publish_messages memory_broker messages ?s))"
    using m now by (simp add: publish_messages_fields s0_def worker_start_def deliverable_def model_validate_json_def int4_def)
  then have good: "good_run Some memory_broker (publish_messages memory_broker messages ?s)"
    using ok by (simp add: good_run_def publish_messages_fields)
  obtain s' where s': "(serve_step Some memory_broker faultless)\<^sup>*\<^sup>* (publish_messages memory_broker messages ?s) s'"
      "\<nexists>s''. serve_step Some memory_broker faultless s' s''" using serve_terminates[OF memory_broker_ok good] by blast
  note g = serve_reach[OF memory_broker_ok s'(1) good]
  have v: "vehicles (fst (tw_store s')) = vehicles map_demo_db"
    using store_le_vehicles[OF g(3)] by (simp add: publish_messages_fields s0_def worker_start_def)
  have w: "wf_table v_id (vehicles map_demo_db)" "has_id v_id (vehicles map_demo_db) 7" "rows (vehicles map_demo_db) \<noteq> []"
    by (simp_all add: map_demo_db_def wf_table_def has_id_def)
  have p: "at_least_once \<lparr>max_attempts = 1, attempt_timeout = 1, base_delay = 1, max_delay = 1\<rparr> =
      \<lparr>max_attempts = 1, attempt_timeout = 1, base_delay = 1, max_delay = 1\<rparr>"
    "1 \<le> attempts_made \<lparr>max_attempts = 1, attempt_timeout = 1, base_delay = 1, max_delay = 1\<rparr>"
    by (simp_all add: at_least_once_def attempts_made_def)
  obtain fp where fp: "get_fleet_positions (fst (tw_store s')) (snd (tw_store s')) No_fault 9 = Inr fp"
    using fleet_positions_one_by_one[OF _ _ _ _ p, of "fst (tw_store s')" "snd (tw_store s')" No_fault 9 "\<lambda>_. 0"] g(1) v w
    by (auto simp: good_run_def settled_rightly_def store_ok_def)
  have hyps: "\<forall>m \<in> set messages. Some (id m) = Some m \<and> tm_vehicle_id m < 2 ^ 31 \<and> has_id v_id (vehicles (fst (tw_store ?s))) (tm_vehicle_id m)"
    "\<forall>b \<in> set (tw_published ?s). \<forall>m. Some b = Some m \<longrightarrow> tm_vehicle_id m < 2 ^ 31 \<and> tm_recorded_at m < 5"
    "\<forall>v t. cached_at (snd (tw_store ?s)) v = Some t \<longrightarrow> t < 5" "wf_table v_id (vehicles (fst (tw_store ?s)))" "tw_running ?s" "m \<in> set messages"
    using m w by (simp_all add: s0_def worker_start_def cached_at_def)
  have served: "(serve_step Some memory_broker faultless)\<^sup>*\<^sup>* (publish_messages memory_broker (map id messages) ?s) s'" using s'(1) by simp
  have run': "(worker_step Some memory_broker)\<^sup>*\<^sup>* (worker_start ([], []) (map_demo_db, Map.empty)) ?s" using run unfolding s0_def .
  have start: "(sim_step demo_libm demo_rng 2)\<^sup>*\<^sup>* (sim_start ()) (sim_start ())" by simp
  from simulated_fleet_on_map[OF memory_broker_ok db q run' hyps(5) start t(1) hyps(1-4) served s'(2) fp hyps(6)]
  show ?thesis using t(1) s'(1) fp m(2) unfolding s0_def by fastforce
qed

end
