(* ===== verification/Regex.thy ===== *)
theory Regex
  imports Prelude
begin

text \<open>
  The part of Python's \<open>re\<close> that the sources use, on strings of code points below 256:
  character classes, greedy and lazy repetition, groups, a back reference, one-character
  look-around and word boundaries. \<open>matches\<close> lists the ways a pattern can match at a
  position in the order in which the backtracking matcher tries them, so the match that
  Python reports is the first. Lemmas: what a match consumes, and how the first match of a
  sequence is found.
\<close>

section \<open>Patterns\<close>

datatype re =
    Cls "char \<Rightarrow> bool"
  | Eps
  | Seq re re
  | Alt re re
  | Star re
  | Lazy re
  | Group nat re
  | Backref nat
  | Not_behind "char \<Rightarrow> bool"
  | Not_ahead "char \<Rightarrow> bool"
  | Boundary

text \<open>Where the matcher is: the text before (last character first), the text to come, and the groups.\<close>

datatype mstate = At (mbefore: string) (mrest: string) (mcaps: "(nat \<times> string) list")

definition consumed :: "mstate \<Rightarrow> mstate \<Rightarrow> string" where
  "consumed st st' = take (length (mrest st) - length (mrest st')) (mrest st)"

definition word_char :: "char \<Rightarrow> bool" where
  "word_char c = (let k = of_char c :: nat in
     (48 \<le> k \<and> k \<le> 57) \<or> (65 \<le> k \<and> k \<le> 90) \<or> k = 95 \<or> (97 \<le> k \<and> k \<le> 122) \<or> k = 170 \<or> k = 178 \<or> k = 179 \<or> k = 181 \<or> k = 185 \<or>
     k = 186 \<or> (188 \<le> k \<and> k \<le> 190) \<or> (192 \<le> k \<and> k \<noteq> 215 \<and> k \<noteq> 247))"

definition digit :: "char \<Rightarrow> bool" where
  "digit c = (let k = of_char c :: nat in 48 \<le> k \<and> k \<le> 57)"

definition alnum :: "char \<Rightarrow> bool" where
  "alnum c = (let k = of_char c :: nat in (48 \<le> k \<and> k \<le> 57) \<or> (65 \<le> k \<and> k \<le> 90) \<or> (97 \<le> k \<and> k \<le> 122))"

section \<open>Matching\<close>

definition at_boundary :: "mstate \<Rightarrow> bool" where
  "at_boundary st =
     ((case mbefore st of [] \<Rightarrow> False | c # _ \<Rightarrow> word_char c) \<noteq> (case mrest st of [] \<Rightarrow> False | c # _ \<Rightarrow> word_char c))"

definition eat :: "string \<Rightarrow> mstate \<Rightarrow> mstate list" where
  "eat s st = (if take (length s) (mrest st) = s then [At (rev s @ mbefore st) (drop (length s) (mrest st)) (mcaps st)] else [])"

function matches :: "re \<Rightarrow> mstate \<Rightarrow> mstate list" where
  "matches (Cls p) st = (case mrest st of [] \<Rightarrow> [] | c # cs \<Rightarrow> if p c then [At (c # mbefore st) cs (mcaps st)] else [])"
| "matches Eps st = [st]"
| "matches (Seq a b) st = concat (map (matches b) (matches a st))"
| "matches (Alt a b) st = matches a st @ matches b st"
| "matches (Star a) st =
     concat (map (\<lambda>st'. if length (mrest st') < length (mrest st) then matches (Star a) st' else []) (matches a st)) @ [st]"
| "matches (Lazy a) st =
     st # concat (map (\<lambda>st'. if length (mrest st') < length (mrest st) then matches (Lazy a) st' else []) (matches a st))"
| "matches (Group n a) st = map (\<lambda>st'. At (mbefore st') (mrest st') ((n, consumed st st') # mcaps st')) (matches a st)"
| "matches (Backref n) st = (case map_of (mcaps st) n of None \<Rightarrow> [] | Some s \<Rightarrow> eat s st)"
| "matches (Not_behind p) st = (case mbefore st of [] \<Rightarrow> [st] | c # _ \<Rightarrow> if p c then [] else [st])"
| "matches (Not_ahead p) st = (case mrest st of [] \<Rightarrow> [st] | c # _ \<Rightarrow> if p c then [] else [st])"
| "matches Boundary st = (if at_boundary st then [st] else [])"
  by pat_completeness auto
termination
  by (relation "measures [\<lambda>(a, st). size a, \<lambda>(a, st). length (mrest st)]") auto

declare matches.simps(5,6) [simp del]

lemma set_star:
  "st' \<in> set (matches (Star a) st) \<longleftrightarrow>
     st' = st \<or> (\<exists>m \<in> set (matches a st). length (mrest m) < length (mrest st) \<and> st' \<in> set (matches (Star a) m))"
  by (subst matches.simps) auto

lemma set_lazy:
  "st' \<in> set (matches (Lazy a) st) \<longleftrightarrow>
     st' = st \<or> (\<exists>m \<in> set (matches a st). length (mrest m) < length (mrest st) \<and> st' \<in> set (matches (Lazy a) m))"
  by (subst matches.simps) auto

text \<open>The pieces of the pattern syntax that are built from these.\<close>

definition plus :: "re \<Rightarrow> re" where "plus a = Seq a (Star a)"
definition opt :: "re \<Rightarrow> re" where "opt a = Alt a Eps"

fun seqs :: "re list \<Rightarrow> re" where
  "seqs [] = Eps"
| "seqs [a] = a"
| "seqs (a # as) = Seq a (seqs as)"

fun alts :: "re list \<Rightarrow> re" where
  "alts [] = Eps"
| "alts [a] = a"
| "alts (a # as) = Alt a (alts as)"

fun upto_times :: "nat \<Rightarrow> re \<Rightarrow> re" where
  "upto_times 0 a = Eps"
| "upto_times (Suc n) a = opt (Seq a (upto_times n a))"

definition between :: "nat \<Rightarrow> nat \<Rightarrow> re \<Rightarrow> re" where
  "between m n a = foldr Seq (replicate m a) (upto_times (n - m) a)"

definition lit :: "string \<Rightarrow> re" where
  "lit s = seqs (map (\<lambda>c. Cls (\<lambda>x. x = c)) s)"

definition lit_ci :: "string \<Rightarrow> re" where
  "lit_ci s = seqs (map (\<lambda>c. Cls (\<lambda>x. lower_char x = c)) s)"

definition one_of :: "string \<Rightarrow> char \<Rightarrow> bool" where
  "one_of s c = (c \<in> set s)"

text \<open>\<open>match\<close> at a position, \<open>fullmatch\<close>, and \<open>sub\<close> with a function of the groups and the matched text.\<close>

definition match_at :: "re \<Rightarrow> string \<Rightarrow> string \<Rightarrow> mstate option" where
  "match_at a b r = (case matches a (At b r []) of [] \<Rightarrow> None | st # _ \<Rightarrow> Some st)"

definition fullmatch :: "re \<Rightarrow> string \<Rightarrow> bool" where
  "fullmatch a s = list_ex (\<lambda>st. mrest st = []) (matches a (At [] s []))"

fun group :: "(nat \<times> string) list \<Rightarrow> nat \<Rightarrow> string" where
  "group g n = (case map_of g n of None \<Rightarrow> [] | Some s \<Rightarrow> s)"

function sub_from :: "re \<Rightarrow> ((nat \<Rightarrow> string) \<Rightarrow> string \<Rightarrow> string) \<Rightarrow> string \<Rightarrow> string \<Rightarrow> string" where
  "sub_from a f b r = (case match_at a b r of
       Some st \<Rightarrow>
         if length (mrest st) < length r
         then f (group (mcaps st)) (take (length r - length (mrest st)) r) @ sub_from a f (mbefore st) (mrest st)
         else (case r of [] \<Rightarrow> [] | c # cs \<Rightarrow> c # sub_from a f (c # b) cs)
     | None \<Rightarrow> (case r of [] \<Rightarrow> [] | c # cs \<Rightarrow> c # sub_from a f (c # b) cs))"
  by pat_completeness auto
termination
  by (relation "measure (\<lambda>(a, f, b, r). length r)") auto

declare sub_from.simps [simp del]

definition sub :: "re \<Rightarrow> ((nat \<Rightarrow> string) \<Rightarrow> string \<Rightarrow> string) \<Rightarrow> string \<Rightarrow> string" where
  "sub a f s = sub_from a f [] s"

section \<open>What a match consumes\<close>

definition extends :: "mstate \<Rightarrow> mstate \<Rightarrow> bool" where
  "extends st st' = (\<exists>w. mrest st = w @ mrest st' \<and> mbefore st' = rev w @ mbefore st)"

lemma extends_refl [simp]: "extends st st"
  by (simp add: extends_def)

lemma extends_trans: "extends st st' \<Longrightarrow> extends st' st'' \<Longrightarrow> extends st st''"
  by (auto simp: extends_def)

lemma extends_caps: "extends st (At (mbefore st') (mrest st') g) = extends st st'"
  by (simp add: extends_def)

lemma matches_extends: "st' \<in> set (matches a st) \<Longrightarrow> extends st st'"
proof (induction a st arbitrary: st' rule: matches.induct)
  case (1 p st)
  then show ?case by (auto simp: extends_def split: list.splits if_splits)
next
  case (3 a b st)
  then show ?case by (auto intro: extends_trans)
next
  case (5 a st)
  show ?case using iffD1[OF set_star 5(3)] 5(1,2) extends_trans extends_refl by blast
next
  case (6 a st)
  show ?case using iffD1[OF set_lazy 6(3)] 6(1,2) extends_trans extends_refl by blast
next
  case (7 n a st)
  then show ?case by (auto simp: extends_caps)
next
  case (8 n st)
  have "extends st (At (rev s @ mbefore st) (drop (length s) (mrest st)) (mcaps st))" if "take (length s) (mrest st) = s" for s
    unfolding extends_def using that by (intro exI[of _ s]) (simp, metis append_take_drop_id)
  then show ?case using 8 by (auto simp: eat_def split: option.splits if_splits)
qed (auto split: list.splits if_splits)

text \<open>Patterns that never match the empty string.\<close>

fun consumes :: "re \<Rightarrow> bool" where
  "consumes (Cls p) = True"
| "consumes (Seq a b) = (consumes a \<or> consumes b)"
| "consumes (Alt a b) = (consumes a \<and> consumes b)"
| "consumes (Group n a) = consumes a"
| "consumes _ = False"

lemma matches_consumes: "consumes a \<Longrightarrow> st' \<in> set (matches a st) \<Longrightarrow> length (mrest st') < length (mrest st)"
proof (induction a arbitrary: st st' rule: consumes.induct)
  case (1 p)
  then show ?case by (cases "mrest st") (auto split: if_splits)
next
  case (2 a b)
  then obtain s1 where s: "s1 \<in> set (matches a st)" "st' \<in> set (matches b s1)" by auto
  have "length (mrest s1) \<le> length (mrest st)" "length (mrest st') \<le> length (mrest s1)"
    using matches_extends[OF s(1)] matches_extends[OF s(2)] by (auto simp: extends_def)
  then show ?case using 2 s by fastforce
qed (auto split: list.splits if_splits)

section \<open>The matcher and the language of a pattern\<close>

text \<open>
  For patterns without groups and context conditions: the words of the pattern, and that
  the matcher finds exactly the words the text begins with.
\<close>

fun regular :: "re \<Rightarrow> bool" where
  "regular (Cls p) = True"
| "regular Eps = True"
| "regular (Seq a b) = (regular a \<and> regular b)"
| "regular (Alt a b) = (regular a \<and> regular b)"
| "regular (Star a) = regular a"
| "regular (Lazy a) = regular a"
| "regular _ = False"

fun lang :: "re \<Rightarrow> string \<Rightarrow> bool" where
  "lang (Cls p) w = (\<exists>c. w = [c] \<and> p c)"
| "lang Eps w = (w = [])"
| "lang (Seq a b) w = (\<exists>x y. w = x @ y \<and> lang a x \<and> lang b y)"
| "lang (Alt a b) w = (lang a w \<or> lang b w)"
| "lang (Star a) w = (\<exists>ws. w = concat ws \<and> (\<forall>x \<in> set ws. lang a x))"
| "lang (Lazy a) w = (\<exists>ws. w = concat ws \<and> (\<forall>x \<in> set ws. lang a x))"
| "lang _ w = False"

definition moves :: "string \<Rightarrow> mstate \<Rightarrow> mstate \<Rightarrow> bool" where
  "moves w st st' = (mrest st = w @ mrest st' \<and> mbefore st' = rev w @ mbefore st \<and> mcaps st' = mcaps st)"

lemma moves_Nil [simp]: "moves [] st st' \<longleftrightarrow> st' = st"
  by (cases st; cases st') (auto simp: moves_def)

lemma moves_append: "moves (x @ y) st st' \<longleftrightarrow> (\<exists>m. moves x st m \<and> moves y m st')"
proof
  assume "moves (x @ y) st st'"
  then show "\<exists>m. moves x st m \<and> moves y m st'"
    by (intro exI[of _ "At (rev x @ mbefore st) (y @ mrest st') (mcaps st)"]) (simp add: moves_def)
qed (auto simp: moves_def)

lemma moves_shorter: "moves w st st' \<Longrightarrow> w \<noteq> [] \<Longrightarrow> length (mrest st') < length (mrest st)"
  by (simp add: moves_def)

text \<open>Repetition: a predicate \<open>R\<close> that follows the recursion of \<open>Star\<close> and \<open>Lazy\<close> finds the concatenations.\<close>

lemma iterated_words:
  assumes R: "\<And>st st'. R st st' \<longleftrightarrow> st' = st \<or> (\<exists>m \<in> M st. length (mrest m) < length (mrest st) \<and> R m st')"
    and M: "\<And>st m. m \<in> M st \<longleftrightarrow> (\<exists>w. L w \<and> moves w st m)"
  shows "R st st' \<longleftrightarrow> (\<exists>ws. (\<forall>x \<in> set ws. L x) \<and> moves (concat ws) st st')"
proof
  show "R st st' \<Longrightarrow> \<exists>ws. (\<forall>x \<in> set ws. L x) \<and> moves (concat ws) st st'"
  proof (induction "length (mrest st)" arbitrary: st rule: less_induct)
    case less
    show ?case
    proof (cases "st' = st")
      case True
      then show ?thesis by (intro exI[of _ "[]"]) simp
    next
      case False
      then obtain m where m: "m \<in> M st" "length (mrest m) < length (mrest st)" "R m st'" using R[of st st'] less.prems by blast
      obtain ws where ws: "\<forall>x \<in> set ws. L x" "moves (concat ws) m st'" using less.hyps[OF m(2,3)] by blast
      obtain w where w: "L w" "moves w st m" using m(1) M by blast
      show ?thesis using ws w by (intro exI[of _ "w # ws"]) (auto simp: moves_append)
    qed
  qed
next
  assume "\<exists>ws. (\<forall>x \<in> set ws. L x) \<and> moves (concat ws) st st'"
  then obtain ws where "\<forall>x \<in> set ws. L x" "moves (concat ws) st st'" by blast
  then show "R st st'"
  proof (induction ws arbitrary: st)
    case Nil
    then show ?case using R[of st st'] by simp
  next
    case (Cons w ws)
    then obtain m where m: "moves w st m" "moves (concat ws) m st'" by (auto simp: moves_append)
    have rm: "R m st'" using Cons.IH[OF _ m(2)] Cons.prems by simp
    show ?case
    proof (cases "w = []")
      case True
      then show ?thesis using m(1) rm by simp
    next
      case False
      then show ?thesis using R[of st st'] M moves_shorter[OF m(1)] m(1) rm Cons.prems(1) by auto
    qed
  qed
qed

lemma matches_lang: "regular a \<Longrightarrow> st' \<in> set (matches a st) \<longleftrightarrow> (\<exists>w. lang a w \<and> moves w st st')"
proof (induction a arbitrary: st st')
  case (Cls p)
  show ?case by (cases st; cases st'; cases "mrest st") (fastforce simp: moves_def)+
next
  case (Seq a b)
  have "st' \<in> set (matches (Seq a b) st) \<longleftrightarrow> (\<exists>m. (\<exists>x. lang a x \<and> moves x st m) \<and> (\<exists>y. lang b y \<and> moves y m st'))"
    using Seq by (simp add: Bex_def)
  also have "\<dots> \<longleftrightarrow> (\<exists>w. lang (Seq a b) w \<and> moves w st st')"
    unfolding lang.simps using moves_append by blast
  finally show ?case .
next
  case (Star a)
  have "st' \<in> set (matches (Star a) st) \<longleftrightarrow> (\<exists>ws. (\<forall>x \<in> set ws. lang a x) \<and> moves (concat ws) st st')"
    by (rule iterated_words[where R = "\<lambda>st st'. st' \<in> set (matches (Star a) st)" and M = "\<lambda>st. set (matches a st)", OF set_star])
       (use Star in simp)
  then show ?case by auto
next
  case (Lazy a)
  have "st' \<in> set (matches (Lazy a) st) \<longleftrightarrow> (\<exists>ws. (\<forall>x \<in> set ws. lang a x) \<and> moves (concat ws) st st')"
    by (rule iterated_words[where R = "\<lambda>st st'. st' \<in> set (matches (Lazy a) st)" and M = "\<lambda>st. set (matches a st)", OF set_lazy])
       (use Lazy in simp)
  then show ?case by auto
qed auto

lemma fullmatch_lang: "regular a \<Longrightarrow> fullmatch a s \<longleftrightarrow> lang a s"
proof -
  assume r: "regular a"
  have "fullmatch a s \<longleftrightarrow> (\<exists>st'. mrest st' = [] \<and> (\<exists>w. lang a w \<and> moves w (At [] s []) st'))"
    using matches_lang[OF r] by (auto simp: fullmatch_def list_ex_iff)
  also have "\<dots> \<longleftrightarrow> lang a s"
  proof
    assume "lang a s"
    then show "\<exists>st'. mrest st' = [] \<and> (\<exists>w. lang a w \<and> moves w (At [] s []) st')"
      by (intro exI[of _ "At (rev s) [] []"]) (auto simp: moves_def)
  qed (auto simp: moves_def)
  finally show ?thesis .
qed

text \<open>The words of the pieces.\<close>

lemma lang_star_cls: "lang (Star (Cls p)) w \<longleftrightarrow> list_all p w"
proof
  assume "list_all p w"
  then show "lang (Star (Cls p)) w"
    by (auto simp: list_all_iff intro!: exI[of _ "map (\<lambda>c. [c]) w"])
qed (fastforce simp: list_all_iff)

lemma regular_seqs: "regular (seqs as) \<longleftrightarrow> list_all regular as"
  by (induction as rule: seqs.induct) auto

lemma regular_alts: "regular (alts as) \<longleftrightarrow> list_all regular as"
  by (induction as rule: alts.induct) auto

lemma lang_seqs_Cons: "lang (seqs (a # as)) w \<longleftrightarrow> (\<exists>x y. w = x @ y \<and> lang a x \<and> lang (seqs as) y)"
  by (cases as) auto

lemma lang_alts: "as \<noteq> [] \<Longrightarrow> lang (alts as) w \<longleftrightarrow> (\<exists>a \<in> set as. lang a w)"
  by (induction as rule: alts.induct) auto

lemma lang_lit_ci: "lang (lit_ci s) w \<longleftrightarrow> lower w = s"
proof (induction s arbitrary: w)
  case Nil
  show ?case by (simp add: lit_ci_def lower_def)
next
  case (Cons c s)
  have "lang (lit_ci (c # s)) w \<longleftrightarrow> (\<exists>x y. w = [x] @ y \<and> lower_char x = c \<and> lang (lit_ci s) y)"
    by (simp only: lit_ci_def list.map lang_seqs_Cons lang.simps) (metis append_Cons append_Nil)
  also have "\<dots> \<longleftrightarrow> lower w = c # s" using Cons by (cases w) (auto simp: lower_def)
  finally show ?case .
qed

lemma regular_lit_ci [simp]: "regular (lit_ci s)"
  by (simp add: lit_ci_def regular_seqs list_all_iff)

section \<open>The first match\<close>

text \<open>
  Where only one way through the first part of a sequence lets the second part match,
  the sequence's first match is found there; greedy repetition of a class takes the
  longest run first.
\<close>

lemma first_of_concat:
  assumes "\<forall>s \<in> set xs. s = s1 \<or> f s = []" "s1 \<in> set xs" "f s1 = y # ys"
  shows "\<exists>zs. concat (map f xs) = y # zs"
  using assms
proof (induction xs)
  case (Cons x xs)
  show ?case
  proof (cases "f x = []")
    case True
    then have "s1 \<in> set xs" using Cons.prems by auto
    then show ?thesis using Cons True by simp
  next
    case False
    then have "x = s1" using Cons.prems(1) by simp
    then show ?thesis using Cons.prems(3) by simp
  qed
qed simp

lemma first_seq:
  assumes "\<forall>s \<in> set (matches a st). s = s1 \<or> matches b s = []" "s1 \<in> set (matches a st)" "matches b s1 = y # ys"
  shows "\<exists>zs. matches (Seq a b) st = y # zs"
  using first_of_concat[OF assms] by simp

lemma first_seq_hd:
  assumes "matches a st = s1 # ss" "matches b s1 = y # ys"
  shows "\<exists>zs. matches (Seq a b) st = y # zs"
  using assms by simp

lemma first_star_cls:
  "\<exists>ys. matches (Star (Cls p)) st =
     At (rev (takeWhile p (mrest st)) @ mbefore st) (dropWhile p (mrest st)) (mcaps st) # ys"
proof (induction "mrest st" arbitrary: st)
  case Nil
  then show ?case by (cases st) (simp add: matches.simps(5))
next
  case (Cons c cs)
  show ?case
  proof (cases "p c")
    case True
    obtain ys where ys: "matches (Star (Cls p)) (At (c # mbefore st) cs (mcaps st)) =
        At (rev (takeWhile p cs) @ c # mbefore st) (dropWhile p cs) (mcaps st) # ys"
      using Cons.hyps(1)[of "At (c # mbefore st) cs (mcaps st)"] by auto
    show ?thesis by (subst matches.simps) (use Cons.hyps(2)[symmetric] True ys in simp)
  next
    case False
    then show ?thesis by (subst matches.simps) (use Cons.hyps(2)[symmetric] in \<open>cases st; simp\<close>)
  qed
qed

lemma first_plus_cls:
  assumes "mrest st = w @ r" "w \<noteq> []" "list_all p w" "r = [] \<or> \<not> p (hd r)"
  shows "\<exists>ys. matches (plus (Cls p)) st = At (rev w @ mbefore st) r (mcaps st) # ys"
proof -
  obtain c w' where w: "w = c # w'" using assms(2) by (cases w) auto
  have run: "takeWhile p (w' @ r) = w'" "dropWhile p (w' @ r) = r"
    using assms(3,4) w by (cases r; auto simp: list_all_iff takeWhile_append dropWhile_append)+
  obtain ys where "matches (Star (Cls p)) (At (c # mbefore st) (w' @ r) (mcaps st)) = At (rev w' @ c # mbefore st) r (mcaps st) # ys"
    using first_star_cls[of p "At (c # mbefore st) (w' @ r) (mcaps st)"] run by auto
  then show ?thesis using assms(1,3) w by (simp add: plus_def)
qed

lemma matches_opt: "matches (opt a) st = matches a st @ [st]"
  by (simp add: opt_def)

lemma no_match_lang: "regular a \<Longrightarrow> (\<And>w r. lang a w \<Longrightarrow> mrest st \<noteq> w @ r) \<Longrightarrow> matches a st = []"
  using matches_lang[of a _ st] by (metis last_in_set moves_def)

text \<open>A group remembers the word it read.\<close>

lemma group_matches:
  assumes "regular a"
  shows "st' \<in> set (matches (Group n a) st) \<longleftrightarrow>
    (\<exists>w r. lang a w \<and> mrest st = w @ r \<and> st' = At (rev w @ mbefore st) r ((n, w) # mcaps st))"
proof
  assume "st' \<in> set (matches (Group n a) st)"
  then obtain m where m: "m \<in> set (matches a st)" "st' = At (mbefore m) (mrest m) ((n, consumed st m) # mcaps m)" by auto
  then obtain w where "lang a w" "moves w st m" using matches_lang[OF assms] by blast
  then show "\<exists>w r. lang a w \<and> mrest st = w @ r \<and> st' = At (rev w @ mbefore st) r ((n, w) # mcaps st)"
    using m(2) by (intro exI[of _ w] exI[of _ "mrest m"]) (simp add: moves_def consumed_def)
next
  assume "\<exists>w r. lang a w \<and> mrest st = w @ r \<and> st' = At (rev w @ mbefore st) r ((n, w) # mcaps st)"
  then obtain w r where w: "lang a w" "mrest st = w @ r" "st' = At (rev w @ mbefore st) r ((n, w) # mcaps st)" by blast
  let ?m = "At (rev w @ mbefore st) r (mcaps st)"
  have "?m \<in> set (matches a st)" unfolding matches_lang[OF assms] using w by (intro exI[of _ w]) (simp add: moves_def)
  moreover have "consumed st ?m = w" using w by (simp add: consumed_def)
  ultimately show "st' \<in> set (matches (Group n a) st)"
    unfolding matches.simps set_map using w(3) by (intro image_eqI[of _ _ ?m]) simp_all
qed

section \<open>Substitution\<close>

text \<open>Patterns that do not look behind match alike whatever came before.\<close>

fun context_free :: "re \<Rightarrow> bool" where
  "context_free (Seq a b) = (context_free a \<and> context_free b)"
| "context_free (Alt a b) = (context_free a \<and> context_free b)"
| "context_free (Star a) = context_free a"
| "context_free (Lazy a) = context_free a"
| "context_free (Group n a) = context_free a"
| "context_free (Not_behind p) = False"
| "context_free Boundary = False"
| "context_free _ = True"

definition ahead :: "mstate \<Rightarrow> string \<times> (nat \<times> string) list" where
  "ahead st = (mrest st, mcaps st)"

lemma ahead_At [simp]: "ahead (At b r g) = (r, g)"
  by (simp add: ahead_def)

lemma ahead_concat:
  assumes "map ahead xs = map ahead ys" "\<And>x y. x \<in> set xs \<Longrightarrow> ahead x = ahead y \<Longrightarrow> map ahead (f x) = map ahead (g y)"
  shows "map ahead (concat (map f xs)) = map ahead (concat (map g ys))"
  using assms
proof (induction xs arbitrary: ys)
  case (Cons x xs)
  then obtain y ys' where "ys = y # ys'" "ahead x = ahead y" "map ahead xs = map ahead ys'" by (cases ys) auto
  then show ?case using Cons by simp
qed simp

lemma matches_ahead: "context_free a \<Longrightarrow> ahead st = ahead st' \<Longrightarrow> map ahead (matches a st) = map ahead (matches a st')"
proof (induction a st arbitrary: st' rule: matches.induct)
  case (3 a b st)
  show ?case unfolding matches.simps by (rule ahead_concat) (use 3 in auto)
next
  case (5 a st)
  let ?f = "\<lambda>s m. if length (mrest m) < length (mrest s) then matches (Star a) m else []"
  have "map ahead (concat (map (?f st) (matches a st))) = map ahead (concat (map (?f st') (matches a st')))"
  proof (rule ahead_concat)
    show "map ahead (matches a st) = map ahead (matches a st')" using 5(1,3,4) by simp
    fix x y assume x: "x \<in> set (matches a st)" "ahead x = ahead y"
    then have "mrest y = mrest x" "mrest st' = mrest st" using 5(4) by (simp_all add: ahead_def)
    then show "map ahead (?f st x) = map ahead (?f st' y)" using 5(2)[OF x(1) _ 5(3) x(2)] by simp
  qed
  then show ?case by (subst (1 2) matches.simps) (use 5(4) in simp)
next
  case (6 a st)
  let ?f = "\<lambda>s m. if length (mrest m) < length (mrest s) then matches (Lazy a) m else []"
  have "map ahead (concat (map (?f st) (matches a st))) = map ahead (concat (map (?f st') (matches a st')))"
  proof (rule ahead_concat)
    show "map ahead (matches a st) = map ahead (matches a st')" using 6(1,3,4) by simp
    fix x y assume x: "x \<in> set (matches a st)" "ahead x = ahead y"
    then have "mrest y = mrest x" "mrest st' = mrest st" using 6(4) by (simp_all add: ahead_def)
    then show "map ahead (?f st x) = map ahead (?f st' y)" using 6(2)[OF x(1) _ 6(3) x(2)] by simp
  qed
  then show ?case by (subst (1 2) matches.simps) (use 6(4) in simp)
next
  case (7 n a st)
  have r: "mrest st' = mrest st" using 7(3) by (simp add: ahead_def)
  have "map ahead (matches a st) = map ahead (matches a st')" using 7 by simp
  then have "map (\<lambda>p. (fst p, (n, take (length (mrest st) - length (fst p)) (mrest st)) # snd p)) (map ahead (matches a st)) =
      map (\<lambda>p. (fst p, (n, take (length (mrest st) - length (fst p)) (mrest st)) # snd p)) (map ahead (matches a st'))" by simp
  then show ?case by (simp add: comp_def ahead_def consumed_def r)
qed (auto simp: ahead_def eat_def split: list.splits option.splits)

lemma sub_from_match:
  assumes "matches a (At b r []) = st # ys" "length (mrest st) < length r"
  shows "sub_from a f b r = f (group (mcaps st)) (take (length r - length (mrest st)) r) @ sub_from a f (mbefore st) (mrest st)"
  by (subst sub_from.simps) (simp add: match_at_def assms)

lemma sub_from_skip:
  assumes "matches a (At b (c # r) []) = []"
  shows "sub_from a f b (c # r) = c # sub_from a f (c # b) r"
  by (subst sub_from.simps) (simp add: match_at_def assms)

lemma sub_from_Nil: "sub_from a f b [] = []"
  by (subst sub_from.simps) (simp split: option.split)

lemma sub_from_before: "context_free a \<Longrightarrow> sub_from a f b r = sub_from a f b' r"
proof (induction "length r" arbitrary: b b' r rule: less_induct)
  case less
  have m: "map ahead (matches a (At b r [])) = map ahead (matches a (At b' r []))"
    by (rule matches_ahead[OF less.prems]) simp
  show ?case
  proof (cases "matches a (At b r [])")
    case Nil
    then show ?thesis using m less by (cases r) (simp_all add: sub_from_Nil sub_from_skip)
  next
    case (Cons st ys)
    then obtain st' ys' where st': "matches a (At b' r []) = st' # ys'" "mrest st' = mrest st" "mcaps st' = mcaps st"
      using m by (cases "matches a (At b' r [])") (auto simp: ahead_def)
    show ?thesis
    proof (cases "length (mrest st) < length r")
      case True
      then show ?thesis using sub_from_match[OF Cons True] sub_from_match[OF st'(1)] st'(2,3) less by simp
    next
      case False
      then show ?thesis using Cons st' less
        by (subst (1 2) sub_from.simps) (auto simp: match_at_def split: list.split)
    qed
  qed
qed

text \<open>Text in which no position matches stays; what comes after it is treated on its own.\<close>

lemma sub_from_prefix:
  assumes "context_free a" "\<And>x y b. p = x @ y \<Longrightarrow> y \<noteq> [] \<Longrightarrow> matches a (At b (y @ t) []) = []"
  shows "sub_from a f b (p @ t) = p @ sub_from a f [] t"
  using assms(2)
proof (induction p arbitrary: b)
  case Nil
  show ?case using sub_from_before[OF assms(1)] by simp
next
  case (Cons c p)
  have "matches a (At b (c # p @ t) []) = []" using Cons.prems[of "[]" "c # p"] by simp
  moreover have "sub_from a f (c # b) (p @ t) = p @ sub_from a f [] t"
    using Cons.IH Cons.prems[of "c # x" for x] by (metis append_Cons)
  ultimately show ?case by (simp add: sub_from_skip)
qed

end
