(* ===== verification/Sanitizer.thy ===== *)
theory Sanitizer
  imports Regex "HOL-Library.Sublist"
begin

text \<open>
  \<open>privacy/sanitizer.py\<close>: the masking of personal data and the redaction of secrets in
  text and in nested structures. The patterns are those of the source, piece by piece,
  and run on the matcher of \<open>Regex\<close>. Lemmas: which keys count as secret, that the value
  after a secret key cannot influence the output, that no nested structure keeps a
  value under such a key, and how one kind of phone number escapes the mask.
\<close>

section \<open>Patterns\<close>

definition REDACTED :: string where "REDACTED = ''[REDACTED]''"

definition key_char :: "char \<Rightarrow> bool" where
  "key_char c = (word_char c \<or> c = CHR ''-'')"

definition quote_char :: "char \<Rightarrow> bool" where
  "quote_char c = (c = CHR 0x22 \<or> c = CHR 0x27)"

definition SECRET_WORD :: re where
  "SECRET_WORD = alts [lit_ci ''password'', lit_ci ''passwd'', lit_ci ''pwd'', lit_ci ''token'',
     seqs [lit_ci ''api'', opt (Cls (one_of ''_-'')), lit_ci ''key''], lit_ci ''secret'', lit_ci ''authorization'', lit_ci ''credential'']"

definition SECRET_KEY :: re where
  "SECRET_KEY = seqs [Star (Cls key_char), SECRET_WORD, Star (Cls key_char)]"

definition NAME_KEYS :: "string list" where
  "NAME_KEYS = [''full_name'', ''first_name'', ''last_name'', ''license_number'']"

text \<open>Groups: 1 the key, 2 the separator, 3 the value.\<close>

definition SEPARATOR :: re where
  "SEPARATOR = seqs [opt (Cls quote_char), Star (Cls is_space), Cls (one_of '':=''), Star (Cls is_space)]"

definition value_char :: "char \<Rightarrow> bool" where
  "value_char c = (\<not> is_space c \<and> c \<notin> set '',;}&]'')"

definition SECRET_VALUE :: re where
  "SECRET_VALUE = alts
     [seqs [Cls (\<lambda>c. c = CHR 0x22), Star (Cls (\<lambda>c. c \<noteq> CHR 0x22)), Cls (\<lambda>c. c = CHR 0x22)],
      seqs [Cls (\<lambda>c. c = CHR 0x27), Star (Cls (\<lambda>c. c \<noteq> CHR 0x27)), Cls (\<lambda>c. c = CHR 0x27)],
      seqs [opt (Seq (Alt (lit_ci ''bearer'') (lit_ci ''basic'')) (plus (Cls is_space))), plus (Cls value_char)]]"

definition SECRET_KV_RE :: re where
  "SECRET_KV_RE = seqs [Group 1 SECRET_KEY, Group 2 SEPARATOR, Group 3 SECRET_VALUE]"

text \<open>Groups: 1 the key with its separator, 2 the quote, 3 the value.\<close>

definition NAME_KV_RE :: re where
  "NAME_KV_RE = seqs
     [Group 1 (seqs [opt (Cls quote_char), alts (map lit_ci NAME_KEYS), opt (Cls quote_char), Star (Cls is_space), Cls (one_of '':=''), Star (Cls is_space)]),
      Group 2 (Cls quote_char), Group 3 (Lazy (Cls (\<lambda>c. c \<noteq> CHR 0x0A))), Backref 2]"

definition BEARER_RE :: re where
  "BEARER_RE = seqs [Boundary, lit_ci ''bearer'', plus (Cls is_space), plus (Cls (\<lambda>c. alnum c \<or> one_of ''._~+/=-'' c))]"

definition JWT_RE :: re where
  "JWT_RE = (let part = Cls (\<lambda>c. alnum c \<or> one_of ''_-'' c)
     in seqs [Boundary, lit ''eyJ'', plus part, Cls (\<lambda>c. c = CHR ''.''), plus part, Cls (\<lambda>c. c = CHR ''.''), Star part])"

definition HASH_RE :: re where
  "HASH_RE = seqs [lit ''$argon2'', plus (Cls (\<lambda>c. word_char c \<or> one_of ''$=,+/.-'' c))]"

definition local_char :: "char \<Rightarrow> bool" where
  "local_char c = (alnum c \<or> one_of ''._%+-'' c)"

definition EMAIL_RE :: re where
  "EMAIL_RE = (let label = plus (Cls (\<lambda>c. alnum c \<or> c = CHR ''-''))
     in seqs [Group 1 (Cls local_char), Star (Cls local_char), Cls (\<lambda>c. c = CHR 0x40), Group 2 (Seq label (plus (Seq (Cls (\<lambda>c. c = CHR ''.'')) label)))])"

definition PHONE_RE :: re where
  "PHONE_RE = seqs
     [Not_behind (\<lambda>c. word_char c \<or> c = CHR ''+''), opt (Cls (\<lambda>c. c = CHR ''+'')), Cls digit,
      between 8 14 (Seq (opt (Cls (\<lambda>c. is_space c \<or> one_of ''().-'' c))) (Cls digit)), Not_ahead word_char]"

definition ISO_DATE_RE :: re where
  "ISO_DATE_RE = seqs [between 4 4 (Cls digit), Cls (\<lambda>c. c = CHR ''-''), between 2 2 (Cls digit), Cls (\<lambda>c. c = CHR ''-''), between 2 2 (Cls digit)]"

section \<open>Text\<close>

definition mask_email :: "string \<Rightarrow> string" where
  "mask_email email = sub EMAIL_RE (\<lambda>g _. g 1 @ ''***'' @ [CHR 0x40] @ g 2) email"

definition mask_phone_match :: "string \<Rightarrow> string" where
  "mask_phone_match raw =
     (if match_at ISO_DATE_RE [] raw \<noteq> None then raw
      else (let digits = filter digit raw
            in (if take 1 raw = ''+'' then ''+'' else []) @ ''***'' @ drop (length digits - 2) digits))"

definition mask_phone :: "string \<Rightarrow> string" where
  "mask_phone text = sub PHONE_RE (\<lambda>_ raw. mask_phone_match raw) text"

definition mask_name :: "string \<Rightarrow> string" where
  "mask_name value = (case value of [] \<Rightarrow> [] | c # _ \<Rightarrow> c # ''***'')"

definition redact_secret_kv :: "(nat \<Rightarrow> string) \<Rightarrow> string" where
  "redact_secret_kv g =
     (let q = (case g 3 of [] \<Rightarrow> [] | c # _ \<Rightarrow> if quote_char c then [c] else [])
      in g 1 @ g 2 @ q @ REDACTED @ q)"

definition mask_name_kv :: "(nat \<Rightarrow> string) \<Rightarrow> string" where
  "mask_name_kv g = g 1 @ g 2 @ mask_name (g 3) @ g 2"

definition sanitize_text :: "string \<Rightarrow> string" where
  "sanitize_text text =
     (let text = sub SECRET_KV_RE (\<lambda>g _. redact_secret_kv g) text;
          text = sub BEARER_RE (\<lambda>_ _. ''Bearer '' @ REDACTED) text;
          text = sub JWT_RE (\<lambda>_ _. REDACTED) text;
          text = sub HASH_RE (\<lambda>_ _. REDACTED) text;
          text = sub NAME_KV_RE (\<lambda>g _. mask_name_kv g) text;
          text = mask_email text
      in mask_phone text)"

section \<open>Structures\<close>

text \<open>
  The values a log call can carry. A key that is no string is given with its \<open>str()\<close>; an
  exception and any other object with its text. Sets list their elements once.
\<close>

datatype pykey = KStr string | KOther string

fun str_key :: "pykey \<Rightarrow> string" where
  "str_key (KStr s) = s"
| "str_key (KOther s) = s"

datatype pyvalue =
    PStr string
  | PDict "(pykey \<times> pyvalue) list"
  | PList "pyvalue list"
  | PTuple "pyvalue list"
  | PSet "pyvalue list"
  | PFrozenset "pyvalue list"
  | PModel "(string \<times> pyvalue) list"
  | PDataclass "(string \<times> pyvalue) list"
  | PExc string
  | POther string

text \<open>\<open>_sanitize_item\<close>, given what \<open>sanitize_value\<close> makes of the value.\<close>

definition sanitize_item :: "string \<Rightarrow> pyvalue \<Rightarrow> pyvalue \<Rightarrow> pyvalue" where
  "sanitize_item key v cleaned =
     (if fullmatch SECRET_KEY key then PStr REDACTED
      else case v of
          PStr s \<Rightarrow> if lower key \<in> set NAME_KEYS then PStr (mask_name s) else cleaned
        | _ \<Rightarrow> cleaned)"

fun sanitize_value :: "pyvalue \<Rightarrow> pyvalue" where
  "sanitize_value (PStr s) = PStr (sanitize_text s)"
| "sanitize_value (PDict kvs) = PDict (map (\<lambda>(k, v). (k, sanitize_item (str_key k) v (sanitize_value v))) kvs)"
| "sanitize_value (PList vs) = PList (map sanitize_value vs)"
| "sanitize_value (PTuple vs) = PTuple (map sanitize_value vs)"
| "sanitize_value (PSet vs) = PSet (remdups (map sanitize_value vs))"
| "sanitize_value (PFrozenset vs) = PFrozenset (remdups (map sanitize_value vs))"
| "sanitize_value (PModel fs) = PDict (map (\<lambda>(k, v). (KStr k, sanitize_item k v (sanitize_value v))) fs)"
| "sanitize_value (PDataclass fs) = PDict (map (\<lambda>(k, v). (KStr k, sanitize_item k v (sanitize_value v))) fs)"
| "sanitize_value (PExc s) = PExc s"
| "sanitize_value (POther s) = POther s"

section \<open>Secret keys\<close>

text \<open>What the key pattern stands for: a key made of word characters and dashes that contains one of these words in any case.\<close>

definition SECRET_WORDS :: "string list" where
  "SECRET_WORDS = [''password'', ''passwd'', ''pwd'', ''token'', ''apikey'', ''api_key'', ''api-key'', ''secret'', ''authorization'', ''credential'']"

definition secret_name :: "string \<Rightarrow> bool" where
  "secret_name key = (list_all key_char key \<and> list_ex (\<lambda>w. sublist w (lower key)) SECRET_WORDS)"

lemma regular_secret [simp]: "regular SECRET_KEY" "regular SEPARATOR" "regular SECRET_VALUE"
  by (simp_all add: SECRET_KEY_def SECRET_WORD_def SEPARATOR_def SECRET_VALUE_def regular_seqs regular_alts opt_def plus_def)

lemma lower_append: "lower (x @ y) = lower x @ lower y"
  by (simp add: lower_def)

lemma lower_eq_append: "lower w = x @ y \<longleftrightarrow> (\<exists>u v. w = u @ v \<and> lower u = x \<and> lower v = y)"
  by (auto simp: lower_def map_eq_append_conv)

lemma lang_opt: "lang (opt a) w \<longleftrightarrow> lang a w \<or> w = []"
  by (simp add: opt_def)

lemma lower_char_eqD:
  assumes "lower_char c = d" "\<not> (97 \<le> (of_char d :: nat) \<and> of_char d \<le> (122 :: nat))" "(of_char d :: nat) < 224"
  shows "c = d"
proof -
  have k: "(let k = of_char c in if (65 \<le> k \<and> k \<le> 90) \<or> (192 \<le> k \<and> k \<le> 222 \<and> k \<noteq> 215) then k + 32 else k) = (of_char d :: nat)"
    using of_char_lower[of c] assms(1) by simp
  then have "of_char c = (of_char d :: nat)" using assms(2,3) by (auto simp: Let_def split: if_splits)
  then show ?thesis by simp
qed

lemma lower_dash: "lower_char c = CHR ''_'' \<longleftrightarrow> c = CHR ''_''" "lower_char c = CHR ''-'' \<longleftrightarrow> c = CHR ''-''"
  using lower_char_eqD[of c "CHR ''_''"] lower_char_eqD[of c "CHR ''-''"] by (auto simp: lower_char_def)

lemma lower_short: "lower d = [] \<longleftrightarrow> d = []" "lower d = ''_'' \<longleftrightarrow> d = ''_''" "lower d = ''-'' \<longleftrightarrow> d = ''-''"
  by (auto simp: lower_def map_eq_Cons_conv lower_dash)

lemma lang_seqs3: "lang (seqs [a, b, c]) w \<longleftrightarrow> (\<exists>x y z. w = x @ y @ z \<and> lang a x \<and> lang b y \<and> lang c z)"
  by auto

lemma lang_dash: "lang (opt (Cls (one_of ''_-''))) d \<longleftrightarrow> lower d \<in> {[], ''_'', ''-''}"
  by (auto simp: lang_opt one_of_def lower_short)

lemma lang_secret_word: "lang SECRET_WORD w \<longleftrightarrow> lower w \<in> set SECRET_WORDS"
proof -
  have api: "lang (seqs [lit_ci ''api'', opt (Cls (one_of ''_-'')), lit_ci ''key'']) w \<longleftrightarrow>
      lower w \<in> {''apikey'', ''api_key'', ''api-key''}" (is "?l \<longleftrightarrow> ?r")
  proof -
    have "?l \<longleftrightarrow> (\<exists>d \<in> {[], ''_'', ''-''}. lower w = ''api'' @ d @ ''key'')"
      unfolding lang_seqs3 lang_lit_ci lang_dash lower_eq_append by blast
    also have "\<dots> \<longleftrightarrow> ?r" by auto
    finally show ?thesis .
  qed
  show ?thesis
    unfolding SECRET_WORD_def SECRET_WORDS_def by (subst lang_alts) (simp_all only: list.set bex_simps lang_lit_ci api, auto)
qed

definition plain_char :: "char \<Rightarrow> bool" where
  "plain_char d = ((97 \<le> (of_char d :: nat) \<and> of_char d \<le> (122 :: nat)) \<or> d = CHR ''_'' \<or> d = CHR ''-'')"

lemma plain_key_char:
  assumes "plain_char (lower_char c)"
  shows "key_char c"
proof (cases "lower_char c = CHR ''_'' \<or> lower_char c = CHR ''-''")
  case True
  then show ?thesis unfolding lower_dash by (auto simp: key_char_def word_char_def)
next
  case False
  then have "97 \<le> (of_char (lower_char c) :: nat)" "of_char (lower_char c) \<le> (122 :: nat)" using assms by (auto simp: plain_char_def)
  then show ?thesis unfolding of_char_lower by (auto simp: key_char_def word_char_def Let_def split: if_splits)
qed

lemma secret_words_plain: "w \<in> set SECRET_WORDS \<Longrightarrow> list_all plain_char w \<and> w \<noteq> []"
  by (auto simp: SECRET_WORDS_def plain_char_def)

lemma secret_word_chars: "lower y \<in> set SECRET_WORDS \<Longrightarrow> list_all key_char y \<and> y \<noteq> []"
  using secret_words_plain[of "lower y"] plain_key_char by (auto simp: lower_def list_all_iff)

lemma lang_secret_key: "lang SECRET_KEY key \<longleftrightarrow> secret_name key"
proof -
  have "lang SECRET_KEY key \<longleftrightarrow> (\<exists>x y z. key = x @ y @ z \<and> list_all key_char x \<and> lower y \<in> set SECRET_WORDS \<and> list_all key_char z)"
    by (simp only: SECRET_KEY_def lang_seqs3 lang_star_cls lang_secret_word)
  also have "\<dots> \<longleftrightarrow> list_all key_char key \<and> (\<exists>x y z. key = x @ y @ z \<and> lower y \<in> set SECRET_WORDS)"
    using secret_word_chars by (auto simp: list_all_append) (metis list_all_append)
  also have "\<dots> \<longleftrightarrow> secret_name key"
    unfolding secret_name_def sublist_def list_ex_iff lower_eq_append by blast
  finally show ?thesis .
qed

lemma fullmatch_secret: "fullmatch SECRET_KEY key \<longleftrightarrow> secret_name key"
  by (simp add: fullmatch_lang lang_secret_key)

section \<open>Structures keep nothing under a secret key\<close>

fun clean :: "pyvalue \<Rightarrow> bool" where
  "clean (PDict kvs) = (\<forall>(k, v) \<in> set kvs. clean v \<and> (secret_name (str_key k) \<longrightarrow> v = PStr REDACTED) \<and>
     (lower (str_key k) \<in> set NAME_KEYS \<longrightarrow> (case v of PStr s \<Rightarrow> s = [] \<or> (\<exists>c. s = c # ''***'') \<or> s = REDACTED | _ \<Rightarrow> True)))"
| "clean (PList vs) = (\<forall>v \<in> set vs. clean v)"
| "clean (PTuple vs) = (\<forall>v \<in> set vs. clean v)"
| "clean (PSet vs) = (\<forall>v \<in> set vs. clean v)"
| "clean (PFrozenset vs) = (\<forall>v \<in> set vs. clean v)"
| "clean (PModel fs) = False"
| "clean (PDataclass fs) = False"
| "clean _ = True"

lemma sanitize_value_PStr: "sanitize_value v = PStr s \<Longrightarrow> \<exists>t. v = PStr t"
  by (cases v) auto

lemma mask_name_shape: "mask_name s = [] \<or> (\<exists>c. mask_name s = c # ''***'')"
  by (simp add: mask_name_def split: list.split)

lemma sanitize_item_clean:
  assumes "clean (sanitize_value v)"
  shows "clean (sanitize_item key v (sanitize_value v)) \<and> (secret_name key \<longrightarrow> sanitize_item key v (sanitize_value v) = PStr REDACTED) \<and>
    (lower key \<in> set NAME_KEYS \<longrightarrow> (case sanitize_item key v (sanitize_value v) of
       PStr s \<Rightarrow> s = [] \<or> (\<exists>c. s = c # ''***'') \<or> s = REDACTED | _ \<Rightarrow> True))"
proof (cases "\<exists>t. v = PStr t")
  case True
  then obtain t where "v = PStr t" by blast
  then show ?thesis using mask_name_shape[of t] by (auto simp: sanitize_item_def fullmatch_secret)
next
  case False
  then have i: "sanitize_item key v (sanitize_value v) = (if secret_name key then PStr REDACTED else sanitize_value v)"
    by (cases v) (simp_all add: sanitize_item_def fullmatch_secret)
  have "\<forall>s. sanitize_value v \<noteq> PStr s" using False sanitize_value_PStr by blast
  then show ?thesis using assms unfolding i by (auto split: pyvalue.splits)
qed

lemma sanitized_clean: "clean (sanitize_value v)"
proof (induction v rule: sanitize_value.induct)
  case (2 kvs)
  then show ?case using sanitize_item_clean by fastforce
next
  case (7 fs)
  then show ?case using sanitize_item_clean by fastforce
next
  case (8 fs)
  then show ?case using sanitize_item_clean by fastforce
qed auto

section \<open>The value after a secret key\<close>

definition separator :: "string \<Rightarrow> bool" where
  "separator s = (\<exists>q a c b. s = q @ a @ [c] @ b \<and> list_all quote_char q \<and> length q \<le> 1 \<and> list_all is_space a \<and>
     (c = CHR '':'' \<or> c = CHR ''='') \<and> list_all is_space b)"

lemma lang_separator: "lang SEPARATOR s \<longleftrightarrow> separator s"
proof -
  have q: "lang (opt (Cls quote_char)) q \<longleftrightarrow> list_all quote_char q \<and> length q \<le> 1" for q
    by (cases q rule: remdups_adj.cases) (auto simp: lang_opt)
  have c: "lang (Cls (one_of '':='')) x \<longleftrightarrow> (\<exists>c. x = [c] \<and> (c = CHR '':'' \<or> c = CHR ''=''))" for x
    by (simp add: one_of_def)
  show ?thesis unfolding SEPARATOR_def separator_def lang_seqs_Cons[where as = "_ # _"] seqs.simps(2) q c lang_star_cls by blast
qed

text \<open>Spaces, quotes and the separator sign are no key characters.\<close>

lemma separator_char:
  "is_space c \<Longrightarrow> \<not> key_char c" "quote_char c \<Longrightarrow> \<not> key_char c" "c = CHR '':'' \<or> c = CHR ''='' \<Longrightarrow> \<not> key_char c"
  "is_space c \<Longrightarrow> \<not> (c = CHR '':'' \<or> c = CHR ''='')" "quote_char c \<Longrightarrow> \<not> (c = CHR '':'' \<or> c = CHR ''='')" "quote_char c \<Longrightarrow> \<not> is_space c"
  by (auto simp: is_space_def key_char_def word_char_def quote_char_def Let_def)

lemma separator_hd: "separator s \<Longrightarrow> s \<noteq> [] \<and> \<not> key_char (hd s)"
proof -
  assume "separator s"
  then obtain q a c b where s: "s = q @ a @ [c] @ b" "list_all quote_char q" "list_all is_space a" "c = CHR '':'' \<or> c = CHR ''=''"
    by (auto simp: separator_def)
  then have "\<not> key_char (hd (q @ a @ [c] @ b))" using separator_char by (cases q; cases a) auto
  then show ?thesis using s by simp
qed

lemma separator_unique:
  assumes "separator s" "separator (s @ x)"
  shows "list_all is_space x"
proof -
  let ?f = "filter (\<lambda>c. c = CHR '':'' \<or> c = CHR ''='')"
  have one: "length (?f s') = 1" if "separator s'" for s'
  proof -
    obtain q a c b where s': "s' = q @ a @ [c] @ b" "list_all quote_char q" "list_all is_space a" "c = CHR '':'' \<or> c = CHR ''=''" "list_all is_space b"
      using \<open>separator s'\<close> by (auto simp: separator_def)
    have "?f q = []" "?f a = []" "?f b = []"
      using s'(2,3,5) separator_char(4,5) unfolding filter_empty_conv list_all_iff by blast+
    then show ?thesis using s'(1,4) by simp
  qed
  obtain q a c b where sx: "s @ x = (q @ a @ [c]) @ b" "c = CHR '':'' \<or> c = CHR ''=''" "list_all is_space b"
    using assms(2) by (auto simp: separator_def)
  have none: "?f x = []" using one[OF assms(1)] one[OF assms(2)] by simp
  from sx(1) consider u where "s = (q @ a @ [c]) @ u" "u @ x = b" | u where "s @ u = q @ a @ [c]" "x = u @ b"
    by (metis append_eq_append_conv2)
  then show ?thesis
  proof cases
    case 1
    then show ?thesis using sx(3) by auto
  next
    case 2
    then have "u = []" using none sx(2) by (cases u rule: rev_cases) auto
    then show ?thesis using 2 sx(3) by simp
  qed
qed

lemma run_prefix:
  assumes "w @ r = k @ t" "list_all p w" "t = [] \<or> \<not> p (hd t)"
  shows "\<exists>u. k = w @ u"
proof -
  from assms(1) consider u where "k = w @ u" | u where "w = k @ u" "u @ r = t" "u \<noteq> []" by (metis append_eq_append_conv2 append_Nil2)
  then show ?thesis
  proof cases
    case 2
    then have "p (hd u)" "hd t = hd u" "t \<noteq> []" using assms(2) by (auto simp: list_all_iff)
    then show ?thesis using assms(3) by simp
  qed blast
qed

text \<open>
  The values in question: a run of value characters up to a delimiter that begins with no quote and
  is not the name of an authorisation scheme alone; such a name, white space and a run up to a
  delimiter (\<open>Bearer x\<close>, \<open>Basic x\<close>); or a quoted string up to its closing quote.
\<close>

definition scheme :: "string \<Rightarrow> bool" where
  "scheme y = (lower y = ''bearer'' \<or> lower y = ''basic'')"


definition secret_value :: "string \<Rightarrow> string \<Rightarrow> bool" where
  "secret_value v r =
     ((v \<noteq> [] \<and> list_all value_char v \<and> \<not> quote_char (hd v) \<and> \<not> scheme v \<and> (r = [] \<or> \<not> value_char (hd r))) \<or>
      (\<exists>y z w. v = y @ z @ w \<and> scheme y \<and> z \<noteq> [] \<and> list_all is_space z \<and> w \<noteq> [] \<and> list_all value_char w \<and>
         (r = [] \<or> \<not> value_char (hd r))) \<or>
      (\<exists>q w. v = q # w @ [q] \<and> quote_char q \<and> q \<notin> set w))"

definition quote_of :: "string \<Rightarrow> string" where
  "quote_of v = (if quote_char (hd v) then [hd v] else [])"

lemma scheme_hd: "scheme y \<Longrightarrow> y \<noteq> [] \<and> \<not> is_space (hd y) \<and> \<not> quote_char (hd y)"
proof -
  assume "scheme y"
  then obtain c y' where c: "y = c # y'" "lower_char c = CHR ''b''" by (cases y) (auto simp: scheme_def lower_def)
  then have "is_space c = is_space (CHR ''b'')" by (metis is_space_lower)
  moreover have "\<not> quote_char c" using c(2) by (auto simp: quote_char_def lower_char_def split: if_splits)
  ultimately show ?thesis using c(1) by (simp add: is_space_def)
qed

text \<open>The letters of a scheme are value characters, and it ends where white space begins.\<close>

lemma scheme_value_chars: "scheme y \<Longrightarrow> list_all value_char y"
proof -
  assume "scheme y"
  then have "list_all plain_char (lower y)" by (auto simp: scheme_def plain_char_def)
  moreover from this have "list_all key_char y" using plain_key_char by (auto simp: lower_def list_all_iff)
  moreover have "value_char c" if "key_char c" "plain_char (lower_char c)" for c
    using that separator_char(1)[of c] by (auto simp: value_char_def key_char_def word_char_def)
  ultimately show ?thesis by (auto simp: lower_def list_all_iff)
qed

lemma secret_value_hd: "secret_value v r \<Longrightarrow> v \<noteq> [] \<and> \<not> is_space (hd v)"
proof -
  have bare: "v \<noteq> [] \<Longrightarrow> list_all value_char v \<Longrightarrow> v \<noteq> [] \<and> \<not> is_space (hd v)" by (cases v) (simp_all add: value_char_def)
  have quoted: "v = q # w @ [q] \<Longrightarrow> quote_char q \<Longrightarrow> v \<noteq> [] \<and> \<not> is_space (hd v)" for q w using separator_char(6)[of q] by simp
  have named: "v = y @ z @ w \<Longrightarrow> scheme y \<Longrightarrow> v \<noteq> [] \<and> \<not> is_space (hd v)" for y z w using scheme_hd[of y] by simp
  show "secret_value v r \<Longrightarrow> v \<noteq> [] \<and> \<not> is_space (hd v)"
    unfolding secret_value_def using bare quoted named by blast
qed

lemma lang_plus_cls: "lang (plus (Cls p)) z \<longleftrightarrow> z \<noteq> [] \<and> list_all p z"
proof -
  have "lang (plus (Cls p)) z \<longleftrightarrow> (\<exists>c y. z = [c] @ y \<and> p c \<and> list_all p y)"
    unfolding plus_def lang.simps(1,3) lang_star_cls by blast
  then show ?thesis by (cases z) auto
qed

lemma no_scheme:
  assumes "v \<noteq> []" "list_all value_char v" "\<not> scheme v" "r = [] \<or> \<not> value_char (hd r)" "mrest st = v @ r"
  shows "matches (Seq (Alt (lit_ci ''bearer'') (lit_ci ''basic'')) (plus (Cls is_space))) st = []"
proof (rule no_match_lang)
  show "regular (Seq (Alt (lit_ci ''bearer'') (lit_ci ''basic'')) (plus (Cls is_space)))" by (simp add: plus_def)
  fix w r' assume "lang (Seq (Alt (lit_ci ''bearer'') (lit_ci ''basic'')) (plus (Cls is_space))) w"
  then obtain y z where w: "w = y @ z" "scheme y" "z \<noteq> []" "list_all is_space z"
    unfolding lang.simps(3,4) lang_lit_ci lang_plus_cls scheme_def by blast
  have y: "list_all value_char y" using w(2) by (rule scheme_value_chars)
  show "mrest st \<noteq> w @ r'"
  proof
    assume "mrest st = w @ r'"
    then have eq: "y @ z @ r' = v @ r" using assms(5) w(1) by simp
    obtain u where u: "v = y @ u" using run_prefix[OF eq y assms(4)] by blast
    have "\<not> value_char (hd z)" using w(3,4) by (cases z) (auto simp: value_char_def)
    moreover have "u @ r = z @ r'" using eq u by simp
    ultimately have "u = []" using assms(2) u w(3) by (cases u; cases z) auto
    then show False using u w(2) assms(3) by auto
  qed
qed

text \<open>A scheme, the white space after it and the run that follows are one token.\<close>

lemma first_scheme_token:
  assumes "scheme y" "z \<noteq> []" "list_all is_space z" "w \<noteq> []" "list_all value_char w" "r = [] \<or> \<not> value_char (hd r)"
    and st: "mrest st = y @ z @ w @ r"
  shows "\<exists>ys. matches (Seq (Seq (Alt (lit_ci ''bearer'') (lit_ci ''basic'')) (plus (Cls is_space))) (plus (Cls value_char))) st =
    At (rev (y @ z @ w) @ mbefore st) r (mcaps st) # ys"
proof -
  let ?a = "Seq (Alt (lit_ci ''bearer'') (lit_ci ''basic'')) (plus (Cls is_space))"
  let ?s1 = "At (rev (y @ z) @ mbefore st) (w @ r) (mcaps st)"
  have reg: "regular ?a" by (simp add: plus_def)
  have lang: "lang ?a x \<longleftrightarrow> (\<exists>y z. x = y @ z \<and> scheme y \<and> z \<noteq> [] \<and> list_all is_space z)" for x
    unfolding lang.simps(3,4) lang_lit_ci lang_plus_cls scheme_def by blast
  have space: "\<not> value_char (hd t)" if "t \<noteq> []" "list_all is_space t" for t
    using that by (cases t) (auto simp: value_char_def)
  have w: "\<not> is_space (hd (w @ r))" "w @ r \<noteq> []" using assms(4,5) by (cases w; simp add: value_char_def)+
  have here: "?s1 \<in> set (matches ?a st)"
    unfolding matches_lang[OF reg] lang using assms(1-3) st by (intro exI[of _ "y @ z"]) (auto simp: moves_def)
  have "\<forall>s \<in> set (matches ?a st). s = ?s1 \<or> matches (plus (Cls value_char)) s = []"
  proof
    fix s assume "s \<in> set (matches ?a st)"
    then obtain y' z' r' where m: "scheme y'" "z' \<noteq> []" "list_all is_space z'" "mrest st = y' @ z' @ r'"
        "s = At (rev (y' @ z') @ mbefore st) r' (mcaps st)"
      unfolding matches_lang[OF reg] lang moves_def by (cases s) auto
    have eq: "y' @ z' @ r' = y @ z @ w @ r" using st m(4) by simp
    obtain u where u: "y = y' @ u"
      using run_prefix[OF eq scheme_value_chars[OF m(1)]] space[OF assms(2,3)] assms(2) by auto
    obtain u' where u': "y' = y @ u'"
      using run_prefix[OF eq[symmetric] scheme_value_chars[OF assms(1)]] space[OF m(2,3)] m(2) by auto
    have y: "y' = y" using u u' by simp
    then have zs: "z' @ r' = z @ w @ r" using eq by simp
    obtain t where t: "z = z' @ t" using run_prefix[OF zs m(3)] w by auto
    show "s = ?s1 \<or> matches (plus (Cls value_char)) s = []"
    proof (cases "t = []")
      case True
      then show ?thesis using m(5) y t zs by simp
    next
      case False
      then obtain c t' where c: "t = c # t'" "is_space c" using t assms(3) by (cases t) auto
      then have "mrest s = c # t' @ w @ r" using zs t m(5) by simp
      then show ?thesis using c(2) by (auto simp: plus_def value_char_def)
    qed
  qed
  moreover obtain ys where "matches (plus (Cls value_char)) ?s1 = At (rev w @ rev (y @ z) @ mbefore st) r (mcaps st) # ys"
    using first_plus_cls[of ?s1 w r value_char] assms(4-6) by auto
  ultimately show ?thesis using first_seq[OF _ here] by fastforce
qed

lemma first_secret_value:
  assumes "secret_value v r" "mrest st = v @ r"
  shows "\<exists>ys. matches SECRET_VALUE st = At (rev v @ mbefore st) r (mcaps st) # ys"
proof -
  let ?quoted = "\<lambda>q. seqs [Cls (\<lambda>c. c = q), Star (Cls (\<lambda>c. c \<noteq> q)), Cls (\<lambda>c. c = q)]"
  let ?token = "seqs [opt (Seq (Alt (lit_ci ''bearer'') (lit_ci ''basic'')) (plus (Cls is_space))), plus (Cls value_char)]"
  have val: "matches SECRET_VALUE st = matches (?quoted (CHR 0x22)) st @ matches (?quoted (CHR 0x27)) st @ matches ?token st"
    by (simp add: SECRET_VALUE_def)
  have other: "matches (?quoted q) st = []" if "hd v \<noteq> q" for q
    using that assms(2) secret_value_hd[OF assms(1)] by (cases v) auto
  from assms(1) consider (token) "v \<noteq> []" "list_all value_char v" "\<not> quote_char (hd v)" "\<not> scheme v" "r = [] \<or> \<not> value_char (hd r)"
    | (named) y z w where "v = y @ z @ w" "scheme y" "z \<noteq> []" "list_all is_space z" "w \<noteq> []" "list_all value_char w" "r = [] \<or> \<not> value_char (hd r)"
    | (quoted) q w where "v = q # w @ [q]" "quote_char q" "q \<notin> set w" unfolding secret_value_def by blast
  then show ?thesis
  proof cases
    case token
    have "matches ?token st = matches (plus (Cls value_char)) st"
      using no_scheme[OF token(1,2,4,5) assms(2)] by (simp add: matches_opt del: matches.simps(3))  (simp add: matches_opt)
    moreover have "hd v \<noteq> CHR 0x22" "hd v \<noteq> CHR 0x27" using token(3) by (auto simp: quote_char_def)
    ultimately show ?thesis
      unfolding val other[OF \<open>hd v \<noteq> CHR 0x22\<close>] other[OF \<open>hd v \<noteq> CHR 0x27\<close>] append_Nil
      using first_plus_cls[OF assms(2) token(1,2,5)] by simp
  next
    case named
    have "hd v = hd y" "\<not> quote_char (hd y)" using named(1) scheme_hd[OF named(2)] by simp_all
    then have q: "hd v \<noteq> CHR 0x22" "hd v \<noteq> CHR 0x27" by (auto simp: quote_char_def)
    let ?a = "Seq (Alt (lit_ci ''bearer'') (lit_ci ''basic'')) (plus (Cls is_space))"
    have token: "matches ?token st = matches (Seq ?a (plus (Cls value_char))) st @ matches (plus (Cls value_char)) st"
      by (simp add: matches_opt del: matches.simps(3)) (simp add: matches_opt)
    obtain ys where "matches (Seq ?a (plus (Cls value_char))) st = At (rev (y @ z @ w) @ mbefore st) r (mcaps st) # ys"
      using first_scheme_token[OF named(2-7)] assms(2) named(1) by auto
    then show ?thesis unfolding val other[OF q(1)] other[OF q(2)] append_Nil token by (simp add: named(1))
  next
    case quoted
    obtain ys where "matches (Star (Cls (\<lambda>c. c \<noteq> q))) (At (q # mbefore st) (w @ q # r) (mcaps st)) =
        At (rev w @ q # mbefore st) (q # r) (mcaps st) # ys"
      using first_star_cls[of "\<lambda>c. c \<noteq> q" "At (q # mbefore st) (w @ q # r) (mcaps st)"] quoted(3)
      by (auto simp: takeWhile_append dropWhile_append)
    then obtain zs where zs: "matches (?quoted q) st = At (rev v @ mbefore st) r (mcaps st) # zs"
      using assms(2) quoted(1) by auto
    show ?thesis
    proof (cases "q = CHR 0x22")
      case True
      then show ?thesis unfolding val using zs by (simp only: append_Cons) blast
    next
      case False
      then have "q = CHR 0x27" "hd v \<noteq> CHR 0x22" using quoted(1,2) by (auto simp: quote_char_def)
      then show ?thesis unfolding val other[OF \<open>hd v \<noteq> CHR 0x22\<close>] append_Nil using zs by (simp only: append_Cons) blast
    qed
  qed
qed

lemma value_hd: "lang SECRET_VALUE w \<Longrightarrow> w \<noteq> [] \<and> \<not> is_space (hd w)"
proof -
  have q: "\<not> is_space (CHR 0x22)" "\<not> is_space (CHR 0x27)" by (simp_all add: is_space_def)
  have word: "lower y = ''bearer'' \<or> lower y = ''basic'' \<Longrightarrow> y \<noteq> [] \<and> \<not> is_space (hd y)" for y
    using scheme_hd[of y] by (simp add: scheme_def)
  assume "lang SECRET_VALUE w"
  then consider x where "w = CHR 0x22 # x" | x where "w = CHR 0x27 # x"
    | y z where "w = y @ z" "lang (opt (Seq (Alt (lit_ci ''bearer'') (lit_ci ''basic'')) (plus (Cls is_space)))) y" "z \<noteq> []" "list_all value_char z"
    unfolding SECRET_VALUE_def alts.simps seqs.simps lang.simps(1,3,4) lang_plus_cls by auto
  then show ?thesis
  proof cases
    case (3 y z)
    show ?thesis
    proof (cases "y = []")
      case True
      then show ?thesis using 3 by (cases z) (auto simp: value_char_def)
    next
      case False
      then obtain u u' where "y = u @ u'" "lower u = ''bearer'' \<or> lower u = ''basic''" using 3(2) unfolding lang_opt by (auto simp: lang_lit_ci)
      then show ?thesis using 3(1) word[of u] by auto
    qed
  qed (use q in auto)
qed

lemma no_value:
  assumes "mrest st \<noteq> []" "is_space (hd (mrest st))"
  shows "matches (Group 3 SECRET_VALUE) st = []"
proof -
  have "st' \<notin> set (matches (Group 3 SECRET_VALUE) st)" for st'
    using assms value_hd unfolding group_matches[OF regular_secret(3)] by (metis hd_append)
  then show ?thesis by (metis list.set_intros(1) neq_Nil_conv)
qed

lemma no_separator:
  assumes "mrest st \<noteq> []" "key_char (hd (mrest st))"
  shows "matches (Group 2 SEPARATOR) st = []"
proof -
  have "st' \<notin> set (matches (Group 2 SEPARATOR) st)" for st'
    using assms separator_hd unfolding group_matches[OF regular_secret(2)] lang_separator by (metis hd_append)
  then show ?thesis by (metis list.set_intros(1) neq_Nil_conv)
qed

lemma first_separated_value:
  assumes "separator s" "secret_value v r"
  shows "\<exists>ys. matches (Seq (Group 2 SEPARATOR) (Group 3 SECRET_VALUE)) (At b (s @ v @ r) g) =
    At (rev v @ rev s @ b) r ((3, v) # (2, s) # g) # ys"
proof -
  let ?st = "At b (s @ v @ r) g" and ?s1 = "At (rev s @ b) (v @ r) ((2, s) # g)"
  obtain ys where "matches SECRET_VALUE ?s1 = At (rev v @ rev s @ b) r ((2, s) # g) # ys"
    using first_secret_value[OF assms(2), of ?s1] by auto
  then have val: "matches (Group 3 SECRET_VALUE) ?s1 = At (rev v @ rev s @ b) r ((3, v) # (2, s) # g) #
      map (\<lambda>st'. At (mbefore st') (mrest st') ((3, consumed ?s1 st') # mcaps st')) ys"
    by (simp add: consumed_def)
  have here: "?s1 \<in> set (matches (Group 2 SEPARATOR) ?st)"
    unfolding group_matches[OF regular_secret(2)] lang_separator using assms(1) by auto
  have "\<forall>st \<in> set (matches (Group 2 SEPARATOR) ?st). st = ?s1 \<or> matches (Group 3 SECRET_VALUE) st = []"
  proof
    fix st assume "st \<in> set (matches (Group 2 SEPARATOR) ?st)"
    then obtain w r' where w: "separator w" "s @ v @ r = w @ r'" "st = At (rev w @ b) r' ((2, w) # g)"
      unfolding group_matches[OF regular_secret(2)] lang_separator by auto
    from w(2) consider x where "w = s @ x" "v @ r = x @ r'" | x where "s = w @ x" "r' = x @ v @ r" by (metis append_eq_append_conv2)
    then show "st = ?s1 \<or> matches (Group 3 SECRET_VALUE) st = []"
    proof cases
      case 1
      have "list_all is_space x" using separator_unique[OF assms(1)] w(1) 1(1) by simp
      then have "x = []" using 1(2) secret_value_hd[OF assms(2)] by (cases x; cases v) auto
      then show ?thesis using 1 w(3) by simp
    next
      case 2
      have sp: "list_all is_space x" using separator_unique[OF w(1)] assms(1) 2(1) by simp
      show ?thesis
      proof (cases "x = []")
        case True
        then show ?thesis using 2 w(3) by simp
      next
        case False
        then show ?thesis using no_value[of st] w(3) 2(2) sp by (cases x) auto
      qed
    qed
  qed
  from first_seq[OF this here val] show ?thesis .
qed

lemma first_secret_kv:
  assumes "secret_name k" "separator s" "secret_value v r"
  shows "\<exists>ys. matches SECRET_KV_RE (At b (k @ s @ v @ r) []) = At (rev v @ rev s @ rev k @ b) r [(3, v), (2, s), (1, k)] # ys"
  unfolding SECRET_KV_RE_def seqs.simps
proof -
  let ?st = "At b (k @ s @ v @ r) []" and ?s1 = "At (rev k @ b) (s @ v @ r) [(1, k)]"
  obtain ys where ys: "matches (Seq (Group 2 SEPARATOR) (Group 3 SECRET_VALUE)) ?s1 = At (rev v @ rev s @ rev k @ b) r [(3, v), (2, s), (1, k)] # ys"
    using first_separated_value[OF assms(2,3)] by blast
  have here: "?s1 \<in> set (matches (Group 1 SECRET_KEY) ?st)"
    unfolding group_matches[OF regular_secret(1)] lang_secret_key using assms(1) by auto
  have "\<forall>st \<in> set (matches (Group 1 SECRET_KEY) ?st). st = ?s1 \<or> matches (Seq (Group 2 SEPARATOR) (Group 3 SECRET_VALUE)) st = []"
  proof
    fix st assume "st \<in> set (matches (Group 1 SECRET_KEY) ?st)"
    then obtain w r' where w: "secret_name w" "w @ r' = k @ s @ v @ r" "st = At (rev w @ b) r' [(1, w)]"
      unfolding group_matches[OF regular_secret(1)] lang_secret_key by auto
    obtain u where u: "k = w @ u"
      using run_prefix[OF w(2), of key_char] w(1) separator_hd[OF assms(2)] by (auto simp: secret_name_def)
    show "st = ?s1 \<or> matches (Seq (Group 2 SEPARATOR) (Group 3 SECRET_VALUE)) st = []"
    proof (cases u)
      case Nil
      then show ?thesis using u w(2,3) by simp
    next
      case (Cons c u')
      then have "key_char c" using u assms(1) by (simp add: secret_name_def)
      then have "matches (Group 2 SEPARATOR) st = []" using no_separator[of st] w(2,3) u Cons by simp
      then show ?thesis by (simp only: matches.simps(3) list.map concat.simps simp_thms)
    qed
  qed
  from first_seq[OF this here ys] show "\<exists>ys. matches (Seq (Group 1 SECRET_KEY) (Seq (Group 2 SEPARATOR) (Group 3 SECRET_VALUE))) ?st =
      At (rev v @ rev s @ rev k @ b) r [(3, v), (2, s), (1, k)] # ys" .
qed

definition quiet_prefix :: "string \<Rightarrow> bool" where
  "quiet_prefix p = (p = [] \<or> (\<not> key_char (last p) \<and> \<not> list_ex (\<lambda>w. sublist w (lower p)) SECRET_WORDS))"

lemma quiet_prefix_no_match:
  assumes "quiet_prefix p" "p = x @ y" "y \<noteq> []"
  shows "matches SECRET_KV_RE (At b (y @ t) []) = []"
proof -
  obtain y0 c where y: "y = y0 @ [c]" using assms(3) by (cases y rule: rev_cases) auto
  have c: "\<not> key_char c" and free: "\<not> list_ex (\<lambda>w. sublist w (lower p)) SECRET_WORDS"
    using assms y by (auto simp: quiet_prefix_def)
  have "st' \<notin> set (matches (Group 1 SECRET_KEY) (At b (y @ t) []))" for st'
  proof
    assume "st' \<in> set (matches (Group 1 SECRET_KEY) (At b (y @ t) []))"
    then obtain w r where w: "secret_name w" "w @ r = y0 @ c # t"
      unfolding group_matches[OF regular_secret(1)] lang_secret_key using y by auto
    obtain u where "y0 = w @ u" using run_prefix[OF w(2), of key_char] w(1) c by (auto simp: secret_name_def)
    then have "lower p = lower x @ lower w @ lower (u @ [c])" using assms(2) y by (simp add: lower_append)
    then have "sublist (lower w) (lower p)" by (auto simp: sublist_def)
    then show False using w(1) free by (auto simp: secret_name_def list_ex_iff intro: sublist_order.order.trans)
  qed
  then have "matches (Group 1 SECRET_KEY) (At b (y @ t) []) = []" by (metis list.set_intros(1) neq_Nil_conv)
  then show ?thesis unfolding SECRET_KV_RE_def seqs.simps by (simp only: matches.simps(3) list.map concat.simps)
qed

lemma context_free_kv: "context_free SECRET_KV_RE"
  by (simp add: SECRET_KV_RE_def SECRET_KEY_def SECRET_WORD_def SEPARATOR_def SECRET_VALUE_def lit_ci_def opt_def plus_def)

text \<open>Text in which no secret word occurs passes the search for keys as it is.\<close>

lemma sub_no_secret_word:
  assumes "\<not> list_ex (\<lambda>w. sublist w (lower p)) SECRET_WORDS"
  shows "sub SECRET_KV_RE f p = p"
proof -
  have "matches SECRET_KV_RE (At b (y @ []) []) = []" if p: "p = x @ y" for x y b
  proof -
    have "st' \<notin> set (matches (Group 1 SECRET_KEY) (At b y []))" for st'
    proof
      assume "st' \<in> set (matches (Group 1 SECRET_KEY) (At b y []))"
      then obtain w r where w: "secret_name w" "w @ r = y"
        unfolding group_matches[OF regular_secret(1)] lang_secret_key by auto
      then have "lower p = lower x @ lower w @ lower r" using p by (auto simp: lower_append)
      then have "sublist (lower w) (lower p)" by (auto simp: sublist_def)
      then show False using w(1) assms by (auto simp: secret_name_def list_ex_iff intro: sublist_order.order.trans)
    qed
    then have "matches (Group 1 SECRET_KEY) (At b y []) = []" by (metis list.set_intros(1) neq_Nil_conv)
    then show ?thesis unfolding SECRET_KV_RE_def seqs.simps by (simp only: matches.simps(3) list.map concat.simps append_Nil2)
  qed
  then show ?thesis
    using sub_from_prefix[OF context_free_kv, where f = f and p = p and t = "[]" and b = "[]"] by (simp add: sub_def sub_from_Nil)
qed

lemma sub_secret_kv:
  assumes "quiet_prefix p" "secret_name k" "separator s" "secret_value v r"
  shows "sub SECRET_KV_RE (\<lambda>g _. redact_secret_kv g) (p @ k @ s @ v @ r) =
    p @ k @ s @ quote_of v @ REDACTED @ quote_of v @ sub SECRET_KV_RE (\<lambda>g _. redact_secret_kv g) r"
proof -
  let ?f = "\<lambda>g _. redact_secret_kv g"
  have v: "v \<noteq> []" using secret_value_hd[OF assms(4)] by simp
  obtain ys where m: "matches SECRET_KV_RE (At [] (k @ s @ v @ r) []) = At (rev v @ rev s @ rev k @ []) r [(3, v), (2, s), (1, k)] # ys"
    using first_secret_kv[OF assms(2-4)] by blast
  have "sub_from SECRET_KV_RE ?f [] (k @ s @ v @ r) = redact_secret_kv (group [(3, v), (2, s), (1, k)]) @ sub_from SECRET_KV_RE ?f [] r"
    using sub_from_match[OF m, of ?f] v sub_from_before[OF context_free_kv, of ?f "rev v @ rev s @ rev k" r "[]"] by simp
  moreover have "redact_secret_kv (group [(3, v), (2, s), (1, k)]) = k @ s @ quote_of v @ REDACTED @ quote_of v"
    using v by (cases v) (simp_all add: redact_secret_kv_def quote_of_def)
  ultimately show ?thesis
    using sub_from_prefix[OF context_free_kv quiet_prefix_no_match[OF assms(1)], where f = ?f and b = "[]" and t = "k @ s @ v @ r"]
    by (simp add: sub_def)
qed

section \<open>Properties\<close>

lemma sanitize_text_secret:
  assumes "quiet_prefix p" "secret_name k" "separator s" "secret_value v r" "secret_value v' r" "quote_of v = quote_of v'"
  shows "sanitize_text (p @ k @ s @ v @ r) = sanitize_text (p @ k @ s @ v' @ r)"
  unfolding sanitize_text_def Let_def sub_secret_kv[OF assms(1-4)] sub_secret_kv[OF assms(1-3,5)] assms(6) ..

text \<open>
  No nested structure keeps a secret. Whatever a log call is given (dicts, lists, tuples, sets, pydantic models and
  dataclasses, nested in any way), in the result of \<open>sanitize_value\<close> every entry under a secret key is \<open>[REDACTED]\<close>, every
  string under a name key is empty or one character and three stars, and no model or dataclass is left.
\<close>

lemma sanitize_value_clean: "clean (sanitize_value v) \<and> (\<forall>key. fullmatch SECRET_KEY key = secret_name key)"
  by (simp add: sanitized_clean fullmatch_secret)

text \<open>
  What the phone mask leaves. Of a match that does not begin like an ISO date at most two digits stay; but a match
  that begins with four digits, a dash, two digits, a dash and two digits is kept as it is, so a phone number written
  in that grouping passes through the sanitiser unmasked.
\<close>

lemma phone_mask_leaves:
  "(if match_at ISO_DATE_RE [] raw = None then length (filter digit (mask_phone_match raw)) \<le> 2 else mask_phone_match raw = raw) \<and>
   mask_phone ''0671-23-45-67'' = ''0671-23-45-67'' \<and> mask_phone ''067-123-45-67'' = ''***67''"
proof (intro conjI)
  have "length (filter digit (drop (length ds - 2) ds)) \<le> 2" for ds
    using length_filter_le[of digit "drop (length ds - 2) ds"] by simp
  then show "if match_at ISO_DATE_RE [] raw = None then length (filter digit (mask_phone_match raw)) \<le> 2 else mask_phone_match raw = raw"
    by (auto simp: mask_phone_match_def Let_def digit_def)
  show "mask_phone ''0671-23-45-67'' = ''0671-23-45-67''" by code_simp
  show "mask_phone ''067-123-45-67'' = ''***67''" by code_simp
qed

lemma grouped_phone_kept: "sanitize_text ''0671-23-45-67'' = ''0671-23-45-67''"
proof -
  have "sub SECRET_KV_RE f ''0671-23-45-67'' = ''0671-23-45-67''" for f by (rule sub_no_secret_word) code_simp
  moreover have "sub BEARER_RE (\<lambda>_ _. ''Bearer '' @ REDACTED) ''0671-23-45-67'' = ''0671-23-45-67''" by code_simp
  moreover have "sub JWT_RE (\<lambda>_ _. REDACTED) ''0671-23-45-67'' = ''0671-23-45-67''" by code_simp
  moreover have "sub HASH_RE (\<lambda>_ _. REDACTED) ''0671-23-45-67'' = ''0671-23-45-67''" by code_simp
  moreover have "sub NAME_KV_RE (\<lambda>g _. mask_name_kv g) ''0671-23-45-67'' = ''0671-23-45-67''" by code_simp
  moreover have "mask_email ''0671-23-45-67'' = ''0671-23-45-67''" by code_simp
  moreover have "mask_phone ''0671-23-45-67'' = ''0671-23-45-67''" using phone_mask_leaves[of "[]"] by blast
  ultimately show ?thesis unfolding sanitize_text_def Let_def by (simp only:)
qed

end
