(* ===== verification/Logging.thy ===== *)
theory Logging
  imports Sanitizer PrivacyApi
begin

text \<open>
  \<open>privacy/logging_setup.py\<close> and \<open>privacy/middleware.py\<close>: log records and the layer that
  sanitises them in place, the two formatters, the set-up of the handlers, and the ASGI
  middleware that binds a correlation id to each request. The \<open>%\<close> formatting of
  messages, \<open>json.dumps\<close>, the rendering of times and the wrapped application are
  parameters. Lemmas: a record is sanitised once and for all, every handler is covered,
  and the response carries the id that the request ran under.
\<close>

section \<open>Log records\<close>

datatype log_args = Args_tuple "pyvalue list" | Args_dict "(pykey \<times> pyvalue) list"

text \<open>
  A record: \<open>lr_exc_info\<close> is what \<open>formatException\<close> makes of the exception, \<open>lr_extras\<close> are the
  attributes outside \<open>_STANDARD_ATTRS\<close> in the order of their names.
\<close>

record log_record =
  lr_created :: instant
  lr_levelname :: string
  lr_name :: string
  lr_msg :: string
  lr_args :: "log_args option"
  lr_exc_info :: "string option"
  lr_exc_text :: "string option"
  lr_stack_info :: "string option"
  lr_extras :: "(string \<times> pyvalue) list"
  lr_correlation_id :: "string option"
  lr_pii_sanitized :: bool

definition truthy :: "string option \<Rightarrow> bool" where
  "truthy s = (case s of None \<Rightarrow> False | Some t \<Rightarrow> t \<noteq> [])"

definition args_truthy :: "log_args option \<Rightarrow> bool" where
  "args_truthy a = (case a of None \<Rightarrow> False | Some (Args_tuple vs) \<Rightarrow> vs \<noteq> [] | Some (Args_dict kvs) \<Rightarrow> kvs \<noteq> [])"

fun sanitize_args :: "log_args \<Rightarrow> log_args" where
  "sanitize_args (Args_dict kvs) = (case sanitize_value (PDict kvs) of PDict kvs' \<Rightarrow> Args_dict kvs' | _ \<Rightarrow> Args_dict [])"
| "sanitize_args (Args_tuple vs) = Args_tuple (map sanitize_value vs)"

definition sanitize_extra :: "string \<Rightarrow> pyvalue \<Rightarrow> pyvalue" where
  "sanitize_extra key v =
     (case sanitize_value (PDict [(KStr key, v)]) of
        PDict [(_, PExc s)] \<Rightarrow> PStr (sanitize_text s)
      | PDict [(_, cleaned)] \<Rightarrow> cleaned
      | _ \<Rightarrow> v)"

text \<open>\<open>getMessage\<close>: the message itself when there are no arguments.\<close>

definition get_message :: "(string \<Rightarrow> log_args \<Rightarrow> string result) \<Rightarrow> log_record \<Rightarrow> string result" where
  "get_message percent r = (case lr_args r of
       Some a \<Rightarrow> if args_truthy (Some a) then percent (lr_msg r) a else Inr (lr_msg r)
     | None \<Rightarrow> Inr (lr_msg r))"

fun formatting_error :: "exn \<Rightarrow> bool" where
  "formatting_error TypeError = True"
| "formatting_error (ValueError _) = True"
| "formatting_error _ = False"

definition safe_message :: "(string \<Rightarrow> log_args \<Rightarrow> string result) \<Rightarrow> log_record \<Rightarrow> string result" where
  "safe_message percent r = (case get_message percent r of
       Inl e \<Rightarrow> if formatting_error e then Inr (lr_msg r) else Inl e
     | Inr m \<Rightarrow> Inr m)"

definition record_correlation_id :: "string option \<Rightarrow> log_record \<Rightarrow> string" where
  "record_correlation_id var r =
     (if truthy (lr_correlation_id r) then the (lr_correlation_id r) else if truthy var then the var else ''-'')"

text \<open>An error of the formatting leaves the record with its correlation id and sanitised arguments only.\<close>

definition sanitize_record ::
  "(string \<Rightarrow> log_args \<Rightarrow> string result) \<Rightarrow> string option \<Rightarrow> log_record \<Rightarrow> unit result \<times> log_record" where
  "sanitize_record percent var r =
     (let r = r\<lparr>lr_correlation_id := Some (record_correlation_id var r)\<rparr>
      in if lr_pii_sanitized r then (Inr (), r)
         else let r = (if args_truthy (lr_args r) then r\<lparr>lr_args := map_option sanitize_args (lr_args r)\<rparr> else r)
              in case safe_message percent r of
                   Inl e \<Rightarrow> (Inl e, r)
                 | Inr m \<Rightarrow> (Inr (), r\<lparr>lr_msg := sanitize_text m, lr_args := None,
                     lr_exc_text := (if lr_exc_info r \<noteq> None \<or> truthy (lr_exc_text r)
                       then Some (sanitize_text (if truthy (lr_exc_text r) then the (lr_exc_text r) else the (lr_exc_info r)))
                       else lr_exc_text r),
                     lr_stack_info := (if truthy (lr_stack_info r) then map_option sanitize_text (lr_stack_info r) else lr_stack_info r),
                     lr_extras := map (\<lambda>(k, v). (k, sanitize_extra k v)) (lr_extras r),
                     lr_pii_sanitized := True\<rparr>))"

section \<open>Filter and formatters\<close>

definition PiiSanitizingFilter :: "(string \<Rightarrow> log_args \<Rightarrow> string result) \<Rightarrow> string option \<Rightarrow> log_record \<Rightarrow> bool result \<times> log_record" where
  "PiiSanitizingFilter percent var r = (case sanitize_record percent var r of
       (Inl e, r') \<Rightarrow> (Inl e, r') | (Inr _, r') \<Rightarrow> (Inr True, r'))"

text \<open>\<open>logging.Formatter.format\<close> with \<open>TEXT_FORMAT\<close>: a new line before the traceback and the stack unless there is one.\<close>

definition add_block :: "string option \<Rightarrow> string \<Rightarrow> string" where
  "add_block block s = (if truthy block then (if s \<noteq> [] \<and> last s = CHR 0x0A then s else s @ [CHR 0x0A]) @ the block else s)"

definition text_line :: "(instant \<Rightarrow> string) \<Rightarrow> string \<Rightarrow> log_record \<Rightarrow> string" where
  "text_line asctime message r =
     add_block (lr_stack_info r) (add_block (lr_exc_text r)
       (asctime (lr_created r) @ '' '' @ lr_levelname r @ '' '' @ lr_name r @ '' ['' @
        (case lr_correlation_id r of None \<Rightarrow> ''None'' | Some c \<Rightarrow> c) @ '']: '' @ message))"

definition SanitizingFormatter ::
  "(string \<Rightarrow> log_args \<Rightarrow> string result) \<Rightarrow> (instant \<Rightarrow> string) \<Rightarrow> string option \<Rightarrow> log_record \<Rightarrow> string result \<times> log_record" where
  "SanitizingFormatter percent asctime var r = (case sanitize_record percent var r of
       (Inl e, r') \<Rightarrow> (Inl e, r')
     | (Inr _, r') \<Rightarrow> (bind_result (get_message percent r') (\<lambda>m. Inr (text_line asctime m r')), r'))"

definition json_payload :: "(instant \<Rightarrow> string) \<Rightarrow> string \<Rightarrow> log_record \<Rightarrow> (string \<times> pyvalue) list" where
  "json_payload isoformat message r =
     (let base = [(''timestamp'', PStr (isoformat (lr_created r))), (''level'', PStr (lr_levelname r)), (''logger'', PStr (lr_name r)),
                  (''correlation_id'', PStr (case lr_correlation_id r of None \<Rightarrow> ''None'' | Some c \<Rightarrow> c)), (''message'', PStr message)];
          extended = fold (\<lambda>(k, v). dict_put k v) (lr_extras r) base
      in if truthy (lr_exc_text r) then dict_put ''exception'' (PStr (the (lr_exc_text r))) extended else extended)"

definition JsonSanitizingFormatter ::
  "(string \<Rightarrow> log_args \<Rightarrow> string result) \<Rightarrow> (instant \<Rightarrow> string) \<Rightarrow> ((string \<times> pyvalue) list \<Rightarrow> string) \<Rightarrow> string option \<Rightarrow> log_record \<Rightarrow>
     string result \<times> log_record" where
  "JsonSanitizingFormatter percent isoformat dumps var r = (case sanitize_record percent var r of
       (Inl e, r') \<Rightarrow> (Inl e, r')
     | (Inr _, r') \<Rightarrow> (bind_result (get_message percent r') (\<lambda>m. Inr (dumps (json_payload isoformat m r'))), r'))"

section \<open>Set-up\<close>

datatype log_filter = Pii_filter | Other_filter string
datatype log_formatter = Default_formatter | Text_formatter | Json_formatter | Other_formatter string

record handler =
  h_filters :: "log_filter list"
  h_formatter :: log_formatter

definition new_handler :: handler where
  "new_handler = \<lparr>h_filters = [], h_formatter = Default_formatter\<rparr>"

definition add_pii_filter :: "handler \<Rightarrow> handler" where
  "add_pii_filter h = h\<lparr>h_filters := h_filters h @ [Pii_filter]\<rparr>"

definition install :: "handler \<Rightarrow> bool \<Rightarrow> handler" where
  "install h json_format = (add_pii_filter h)\<lparr>h_formatter := (if json_format then Json_formatter else Text_formatter)\<rparr>"

record loggers =
  root_level :: int
  root_handlers :: "handler list"
  uvicorn_handlers :: "handler list"
  uvicorn_error_handlers :: "handler list"
  uvicorn_access_disabled :: bool

definition configure_logging :: "string option \<Rightarrow> int \<Rightarrow> loggers \<Rightarrow> loggers" where
  "configure_logging log_format level lg =
     (let json_format = (lower (case log_format of None \<Rightarrow> ''text'' | Some f \<Rightarrow> f) = ''json'');
          handlers = (if root_handlers lg = [] then [new_handler] else root_handlers lg)
      in lg\<lparr>root_level := level,
            root_handlers := map (\<lambda>h. if Pii_filter \<in> set (h_filters h) then h else install h json_format) handlers,
            uvicorn_handlers := map add_pii_filter (uvicorn_handlers lg),
            uvicorn_error_handlers := map add_pii_filter (uvicorn_error_handlers lg),
            uvicorn_access_disabled := True\<rparr>)"

section \<open>The correlation middleware\<close>

record scope =
  sc_type :: string
  sc_method :: string
  sc_path :: string
  sc_headers :: "(string \<times> string) list"

datatype asgi_message = Start int "(string \<times> string) list" | Body string | Other_message string

definition HEADER_KEY :: string where "HEADER_KEY = ''x-correlation-id''"

record access_log =
  al_method :: string
  al_path :: string
  al_status :: int

definition send_with_header :: "string \<Rightarrow> asgi_message \<Rightarrow> asgi_message" where
  "send_with_header correlation_id m = (case m of
       Start status headers \<Rightarrow> Start status (headers @ [(HEADER_KEY, correlation_id)])
     | _ \<Rightarrow> m)"

fun last_status :: "int \<Rightarrow> asgi_message list \<Rightarrow> int" where
  "last_status s [] = s"
| "last_status s (Start status _ # ms) = last_status status ms"
| "last_status s (_ # ms) = last_status s ms"

text \<open>
  The application: under a value of the context variable it sends messages and then returns or
  raises. The middleware gives what reaches the server, the outcome, the access-log entry and
  the variable afterwards. \<open>dict(headers)\<close> keeps the last of several headers with one name.
\<close>

definition CorrelationIdMiddleware ::
  "(string option \<Rightarrow> asgi_message list \<times> unit result) \<Rightarrow> string \<Rightarrow> scope \<Rightarrow> string option \<Rightarrow>
     asgi_message list \<times> unit result \<times> access_log option \<times> string option" where
  "CorrelationIdMiddleware app uuid_hex sc var =
     (if sc_type sc \<noteq> ''http'' then (fst (app var), snd (app var), None, var)
      else (let incoming = (case map_of (rev (sc_headers sc)) HEADER_KEY of None \<Rightarrow> [] | Some x \<Rightarrow> x);
                correlation_id = accept_or_generate uuid_hex (Some incoming);
                (messages, outcome) = app (Some correlation_id)
            in (map (send_with_header correlation_id) messages, outcome,
                Some \<lparr>al_method = sc_method sc, al_path = sc_path sc, al_status = last_status 500 messages\<rparr>, var)))"

section \<open>Sanitised records\<close>

lemma truthy_simps [simp]: "\<not> truthy None" "truthy (Some s) \<longleftrightarrow> s \<noteq> []"
  by (simp_all add: truthy_def)

lemma truthy_the: "truthy s \<Longrightarrow> s = Some (the s)"
  by (cases s) simp_all

lemma record_correlation_id_fixed [simp]:
  "record_correlation_id var (r\<lparr>lr_correlation_id := Some (record_correlation_id var' r')\<rparr>) = record_correlation_id var' r'"
  by (auto simp: record_correlation_id_def truthy_def split: option.splits)

text \<open>What a successful pass leaves: the flag is set and a correlation id is bound, so that a later pass changes nothing.\<close>

definition settled :: "log_record \<Rightarrow> bool" where
  "settled r = (lr_pii_sanitized r \<and> truthy (lr_correlation_id r))"

lemma settled_stable: "settled r \<Longrightarrow> sanitize_record percent var r = (Inr (), r)"
  by (cases "lr_correlation_id r") (auto simp: settled_def sanitize_record_def record_correlation_id_def)

lemma record_correlation_id_truthy [simp]: "record_correlation_id var r \<noteq> []"
  by (auto simp: record_correlation_id_def truthy_def split: option.splits)

lemma sanitize_record_settles:
  assumes "sanitize_record percent var r = (Inr (), r')"
  shows "settled r'"
  using assms by (auto simp: sanitize_record_def settled_def Let_def split: if_splits sum.splits)

text \<open>The arguments as the formatting sees them.\<close>

definition sanitised_args :: "log_record \<Rightarrow> log_record" where
  "sanitised_args r = (if args_truthy (lr_args r) then r\<lparr>lr_args := map_option sanitize_args (lr_args r)\<rparr> else r)"

lemma safe_message_cong: "lr_msg r = lr_msg r' \<Longrightarrow> lr_args r = lr_args r' \<Longrightarrow> safe_message percent r = safe_message percent r'"
  unfolding safe_message_def get_message_def by (erule ssubst, erule ssubst, rule refl)

lemma safe_message_id:
  "safe_message percent (sanitised_args (r\<lparr>lr_correlation_id := c\<rparr>)) = safe_message percent (sanitised_args r)"
  by (rule safe_message_cong) (simp_all add: sanitised_args_def)

lemma sanitize_record_fresh:
  assumes "sanitize_record percent var r = (Inr (), r')" "\<not> lr_pii_sanitized r"
  obtains m where "safe_message percent (sanitised_args r) = Inr m" "lr_msg r' = sanitize_text m" "lr_args r' = None"
    "lr_extras r' = map (\<lambda>(k, v). (k, sanitize_extra k v)) (lr_extras r)"
    "lr_exc_text r' = (if lr_exc_info r \<noteq> None \<or> truthy (lr_exc_text r)
       then Some (sanitize_text (if truthy (lr_exc_text r) then the (lr_exc_text r) else the (lr_exc_info r))) else lr_exc_text r)"
    "lr_stack_info r' = (if truthy (lr_stack_info r) then map_option sanitize_text (lr_stack_info r) else lr_stack_info r)"
    "lr_correlation_id r' = Some (record_correlation_id var r)" "lr_created r' = lr_created r"
    "lr_levelname r' = lr_levelname r" "lr_name r' = lr_name r"
  using assms that safe_message_id[where r = r]
  by (auto simp: sanitize_record_def Let_def sanitised_args_def split: if_splits sum.splits)

lemma safe_message_error:
  assumes "sanitize_record percent var r = (Inl e, r')" "\<not> lr_pii_sanitized r"
  shows "safe_message percent (sanitised_args r) = Inl e \<and> \<not> formatting_error e"
proof -
  have "safe_message percent x = Inl e \<Longrightarrow> \<not> formatting_error e" for x
    by (auto simp: safe_message_def split: sum.splits if_splits)
  then show ?thesis
    using assms safe_message_id[where r = r] by (auto simp: sanitize_record_def Let_def sanitised_args_def split: if_splits sum.splits)
qed

lemma sanitize_extra_cases:
  "sanitize_extra k v =
     (if secret_name k then PStr REDACTED
      else case v of
          PStr s \<Rightarrow> if lower k \<in> set NAME_KEYS then PStr (mask_name s) else PStr (sanitize_text s)
        | PExc s \<Rightarrow> PStr (sanitize_text s)
        | _ \<Rightarrow> sanitize_value v)"
  by (cases v) (simp_all add: sanitize_extra_def sanitize_item_def fullmatch_secret)

lemma sanitize_extra_secret: "secret_name k \<Longrightarrow> sanitize_extra k v = PStr REDACTED"
  by (simp add: sanitize_extra_cases)

lemma get_message_no_args: "lr_args r = None \<Longrightarrow> get_message percent r = Inr (lr_msg r)"
  by (simp add: get_message_def)

lemma sanitize_record_message:
  assumes "\<not> lr_pii_sanitized r" "\<not> args_truthy (lr_args r)" "sanitize_text m = sanitize_text m'"
  shows "sanitize_record percent var (r\<lparr>lr_msg := m\<rparr>) = sanitize_record percent var (r\<lparr>lr_msg := m'\<rparr>)"
proof -
  have "safe_message percent q = Inr (lr_msg q)" if "\<not> args_truthy (lr_args q)" for q
    using that by (auto simp: safe_message_def get_message_def split: option.splits)
  then show ?thesis
    using assms by (simp add: sanitize_record_def record_correlation_id_def Let_def cong: if_cong)
qed

text \<open>Without arguments nothing can fail.\<close>

lemma sanitize_record_plain:
  assumes "\<not> lr_pii_sanitized r" "\<not> args_truthy (lr_args r)"
  shows "\<exists>r'. sanitize_record percent var r = (Inr (), r') \<and> lr_msg r' = sanitize_text (lr_msg r) \<and> lr_args r' = None \<and>
    lr_extras r' = map (\<lambda>(k, v). (k, sanitize_extra k v)) (lr_extras r)"
proof -
  have "safe_message percent q = Inr (lr_msg q)" if "\<not> args_truthy (lr_args q)" for q
    using that by (auto simp: safe_message_def get_message_def split: option.splits)
  then show ?thesis using assms by (simp add: sanitize_record_def Let_def)
qed

lemma formatters_after_filter:
  assumes "settled r" "lr_args r = None"
  shows "SanitizingFormatter percent asctime var r = (Inr (text_line asctime (lr_msg r) r), r)"
    "JsonSanitizingFormatter percent isoformat dumps var r = (Inr (dumps (json_payload isoformat (lr_msg r) r)), r)"
  using assms by (simp_all add: SanitizingFormatter_def JsonSanitizingFormatter_def settled_stable get_message_no_args)

lemma filter_settles:
  assumes "PiiSanitizingFilter percent var r = (Inr True, r')"
  shows "sanitize_record percent var r = (Inr (), r')"
  using assms by (auto simp: PiiSanitizingFilter_def split: prod.splits sum.splits)

section \<open>Middleware facts\<close>

fun statuses :: "asgi_message list \<Rightarrow> int list" where
  "statuses [] = []"
| "statuses (Start status _ # ms) = status # statuses ms"
| "statuses (_ # ms) = statuses ms"

lemma last_status_last: "last_status s ms = last (s # statuses ms)"
  by (induction ms arbitrary: s rule: statuses.induct) auto

lemma accept_or_generate_nonempty: "uuid_hex \<noteq> [] \<Longrightarrow> accept_or_generate uuid_hex incoming \<noteq> []"
  by (auto simp: accept_or_generate_def split: option.splits)

lemma bound_correlation_id:
  assumes "\<not> truthy (lr_correlation_id r)" "cid \<noteq> []"
  shows "lr_correlation_id (snd (sanitize_record percent (Some cid) r)) = Some cid"
  using assms by (simp add: sanitize_record_def record_correlation_id_def Let_def split: sum.splits)

section \<open>Properties\<close>

text \<open>Sanitising is done once: a later pass by any handler leaves the record as it is, so filter and formatter may both call it.\<close>

lemma sanitize_record_idempotent:
  assumes "sanitize_record percent var r = (Inr (), r')"
  shows "sanitize_record percent' var' r' = (Inr (), r')"
  by (rule settled_stable[OF sanitize_record_settles[OF assms]])

text \<open>
  What both formatters write after the filter has passed a new record. The message is the sanitised text of the
  message formatted from sanitised arguments, a traceback or stack that is written is a sanitised text, and every extra
  under a secret key is \<open>[REDACTED]\<close>. The filter itself raises only what the formatting of the message raises besides
  \<open>TypeError\<close> and \<open>ValueError\<close>.
\<close>

lemma log_line_sanitised:
  assumes "\<not> lr_pii_sanitized r"
  shows "(case PiiSanitizingFilter percent var r of
      (Inl e, _) \<Rightarrow> safe_message percent (sanitised_args r) = Inl e \<and> \<not> formatting_error e
    | (Inr _, r') \<Rightarrow> (\<exists>m. safe_message percent (sanitised_args r) = Inr m \<and>
        SanitizingFormatter percent' asctime var' r' = (Inr (text_line asctime (sanitize_text m) r'), r') \<and>
        JsonSanitizingFormatter percent' isoformat dumps var' r' = (Inr (dumps (json_payload isoformat (sanitize_text m) r')), r')) \<and>
        (truthy (lr_exc_text r') \<longrightarrow> (\<exists>t. lr_exc_text r' = Some (sanitize_text t))) \<and>
        (truthy (lr_stack_info r') \<longrightarrow> (\<exists>t. lr_stack_info r' = Some (sanitize_text t))) \<and>
        list_all (\<lambda>(k, v). secret_name k \<longrightarrow> v = PStr REDACTED) (lr_extras r'))"
proof (cases "PiiSanitizingFilter percent var r")
  case (Pair res r')
  show ?thesis
  proof (cases res)
    case (Inl e)
    then have "sanitize_record percent var r = (Inl e, r')"
      using Pair by (auto simp: PiiSanitizingFilter_def split: prod.splits sum.splits)
    then show ?thesis using Pair Inl safe_message_error[OF _ assms] by simp
  next
    case (Inr b)
    then have "b" using Pair by (auto simp: PiiSanitizingFilter_def split: prod.splits sum.splits)
    then have pass: "sanitize_record percent var r = (Inr (), r')" using Pair Inr filter_settles by simp
    obtain m where m: "safe_message percent (sanitised_args r) = Inr m" "lr_msg r' = sanitize_text m" "lr_args r' = None"
      and x: "lr_extras r' = map (\<lambda>(k, v). (k, sanitize_extra k v)) (lr_extras r)"
      and t: "lr_exc_text r' = (if lr_exc_info r \<noteq> None \<or> truthy (lr_exc_text r)
         then Some (sanitize_text (if truthy (lr_exc_text r) then the (lr_exc_text r) else the (lr_exc_info r))) else lr_exc_text r)"
        "lr_stack_info r' = (if truthy (lr_stack_info r) then map_option sanitize_text (lr_stack_info r) else lr_stack_info r)"
      by (rule sanitize_record_fresh[OF pass assms])
    have "truthy (lr_exc_text r') \<longrightarrow> (\<exists>t. lr_exc_text r' = Some (sanitize_text t))" using t(1) by auto
    moreover have "truthy (lr_stack_info r') \<longrightarrow> (\<exists>t. lr_stack_info r' = Some (sanitize_text t))"
      using t(2) by (cases "lr_stack_info r") auto
    moreover have "list_all (\<lambda>(k, v). secret_name k \<longrightarrow> v = PStr REDACTED) (lr_extras r')"
      by (auto simp: x list_all_iff sanitize_extra_secret)
    ultimately show ?thesis
      using Pair Inr m formatters_after_filter[OF sanitize_record_settles[OF pass] m(3)] by simp
  qed
qed

definition sample_record :: log_record where
  "sample_record = \<lparr>lr_created = 0, lr_levelname = ''INFO'', lr_name = ''app'', lr_msg = ''hi %s'', lr_args = Some (Args_tuple [POther ''3'']),
     lr_exc_info = None, lr_exc_text = None, lr_stack_info = None, lr_extras = [(''api_key'', PStr ''k'')],
     lr_correlation_id = None, lr_pii_sanitized = False\<rparr>"

text \<open>
  C16: the value of the first secret in a message does not reach the log. Take a record that is not sanitised yet and has no arguments,
  and two messages that differ only in the value written after a secret key (\<open>password\<close>, \<open>token\<close>, \<open>api_key\<close> and so on, within any longer
  key, followed by \<open>=\<close> or \<open>:\<close>; the value a bare run up to a delimiter, such a run after \<open>Bearer\<close> or \<open>Basic\<close>, or a quoted string). If no secret
  word occurs before the key and the key begins the message or follows a character that is none of a key, the two
  give the same line in text and in JSON, whatever stands after the value. (Behind another secret key this fails: in
  \<open>password="token=a"b\<close> the quotes end the value of the outer key, and \<open>b\<close> is written.)
\<close>

theorem secret_value_not_logged:
  assumes "quiet_prefix p" "secret_name k" "separator s" "secret_value v e" "secret_value v' e" "quote_of v = quote_of v'"
    and "\<not> lr_pii_sanitized r" "\<not> args_truthy (lr_args r)"
  shows "SanitizingFormatter percent asctime var (r\<lparr>lr_msg := p @ k @ s @ v @ e\<rparr>) = SanitizingFormatter percent asctime var (r\<lparr>lr_msg := p @ k @ s @ v' @ e\<rparr>) \<and>
    JsonSanitizingFormatter percent isoformat dumps var (r\<lparr>lr_msg := p @ k @ s @ v @ e\<rparr>) = JsonSanitizingFormatter percent isoformat dumps var (r\<lparr>lr_msg := p @ k @ s @ v' @ e\<rparr>)"
  using sanitize_record_message[OF assms(7,8) sanitize_text_secret[OF assms(1-6)]]
  by (simp_all add: SanitizingFormatter_def JsonSanitizingFormatter_def)

theorem secret_value_not_logged_witness:
  "JsonSanitizingFormatter (\<lambda>m a. Inr m) (\<lambda>_. ''now'') (\<lambda>_. []) None (sample_record\<lparr>lr_args := None, lr_msg := ''login DB_Password = Basic k, ok''\<rparr>) =
   JsonSanitizingFormatter (\<lambda>m a. Inr m) (\<lambda>_. ''now'') (\<lambda>_. []) None (sample_record\<lparr>lr_args := None, lr_msg := ''login DB_Password = x, ok''\<rparr>) \<and>
   SanitizingFormatter (\<lambda>m a. Inr m) (\<lambda>_. ''now'') None
     \<lparr>lr_created = 0, lr_levelname = ''INFO'', lr_name = ''app'', lr_msg = ''login DB_Password = hunter2, ok'', lr_args = None,
      lr_exc_info = None, lr_exc_text = None, lr_stack_info = None, lr_extras = [], lr_correlation_id = None, lr_pii_sanitized = False\<rparr> =
   SanitizingFormatter (\<lambda>m a. Inr m) (\<lambda>_. ''now'') None
     \<lparr>lr_created = 0, lr_levelname = ''INFO'', lr_name = ''app'', lr_msg = ''login DB_Password = x, ok'', lr_args = None,
      lr_exc_info = None, lr_exc_text = None, lr_stack_info = None, lr_extras = [], lr_correlation_id = None, lr_pii_sanitized = False\<rparr>"
proof -
  have p: "quiet_prefix ''login ''" "secret_name ''DB_Password''"
    by code_simp+
  have s: "separator '' = ''"
    unfolding separator_def by (intro exI[of _ "[]"] exI[of _ "'' ''"] exI[of _ "CHR ''=''"]) (simp add: is_space_def)
  have v: "secret_value ''hunter2'' '', ok''" "secret_value ''x'' '', ok''" "quote_of ''hunter2'' = quote_of ''x''"
    by (simp_all add: secret_value_def scheme_def value_char_def is_space_def quote_char_def lower_def lower_char_def quote_of_def)
  have basic: "scheme ''Basic''" by code_simp
  have "secret_value ''Basic k'' '', ok''" unfolding secret_value_def
    by (rule disjI2, rule disjI1, intro exI[of _ "''Basic''"] exI[of _ "'' ''"] exI[of _ "''k''"])
       (use basic in \<open>simp add: value_char_def is_space_def\<close>)
  moreover have "quote_of ''Basic k'' = quote_of ''x''" by (simp add: quote_of_def quote_char_def)
  ultimately have named: "JsonSanitizingFormatter (\<lambda>m a. Inr m) (\<lambda>_. ''now'') (\<lambda>_. []) None (sample_record\<lparr>lr_args := None, lr_msg := ''login DB_Password = Basic k, ok''\<rparr>) =
    JsonSanitizingFormatter (\<lambda>m a. Inr m) (\<lambda>_. ''now'') (\<lambda>_. []) None (sample_record\<lparr>lr_args := None, lr_msg := ''login DB_Password = x, ok''\<rparr>)"
    using secret_value_not_logged[OF p s _ v(2), of "''Basic k''" "sample_record\<lparr>lr_args := None\<rparr>"] by (simp add: args_truthy_def sample_record_def)
  show ?thesis
    using named secret_value_not_logged[OF p s v, of "\<lparr>lr_created = 0, lr_levelname = ''INFO'', lr_name = ''app'', lr_msg = [], lr_args = None,
      lr_exc_info = None, lr_exc_text = None, lr_stack_info = None, lr_extras = [], lr_correlation_id = None, lr_pii_sanitized = False\<rparr>"]
    by (simp add: args_truthy_def)
qed

text \<open>
  After the set-up every handler sanitises. Whatever handlers there were, the root logger has one, each handler of the
  root logger and of the two uvicorn loggers carries the filter, and setting up again leaves the root handlers as they are.
\<close>

lemma configure_logging_covers:
  "let lg' = configure_logging log_format level lg in
   root_handlers lg' \<noteq> [] \<and>
   list_all (\<lambda>h. Pii_filter \<in> set (h_filters h)) (root_handlers lg' @ uvicorn_handlers lg' @ uvicorn_error_handlers lg') \<and>
   root_handlers (configure_logging log_format' level' lg') = root_handlers lg' \<and> uvicorn_access_disabled lg'"
proof -
  have *: "Pii_filter \<in> set (h_filters (install h j))" "Pii_filter \<in> set (h_filters (add_pii_filter h))" for h j
    by (simp_all add: install_def add_pii_filter_def)
  show ?thesis
    by (auto simp: configure_logging_def Let_def list_all_iff * intro!: map_idI)
qed

text \<open>
  C33: what the sanitiser lets through. Of a digit run that does not begin like an ISO date at most two digits stay, but one that begins
  with four digits, a dash, two digits, a dash and two digits is kept whole: a record without arguments whose message is a phone number
  in that grouping is written by the text formatter with the number as it is. An exception passed as an extra becomes sanitised
  text; one inside a list, and an object without a structure to walk, is kept: the JSON formatter hands a record that carries the two
  under keys that are no secret names to \<open>json.dumps\<close> with both as they are.
\<close>

theorem sanitiser_gaps:
  assumes "\<not> lr_pii_sanitized r" "\<not> args_truthy (lr_args r)" "\<not> secret_name a" "\<not> secret_name b" "a \<noteq> b" "a \<noteq> ''exception''" "b \<noteq> ''exception''"
  shows "(if match_at ISO_DATE_RE [] raw = None then length (filter digit (mask_phone_match raw)) \<le> 2 else mask_phone_match raw = raw) \<and>
   mask_phone ''0671-23-45-67'' = ''0671-23-45-67'' \<and> mask_phone ''067-123-45-67'' = ''***67'' \<and>
   (if secret_name k then sanitize_extra k v = PStr REDACTED
    else sanitize_extra k (PExc s) = PStr (sanitize_text s) \<and> sanitize_extra k (PList [PExc s]) = PList [PExc s] \<and>
         sanitize_extra k (POther s) = POther s) \<and>
   (\<exists>r'. SanitizingFormatter percent asctime var (r\<lparr>lr_msg := ''0671-23-45-67''\<rparr>) = (Inr (text_line asctime ''0671-23-45-67'' r'), r')) \<and>
   (\<exists>r' payload. JsonSanitizingFormatter percent isoformat dumps var (r\<lparr>lr_extras := [(a, PList [PExc s]), (b, POther t)]\<rparr>) =
        (Inr (dumps payload), r') \<and>
      map_of payload a = Some (PList [PExc s]) \<and> map_of payload b = Some (POther t))"
proof -
  note phone = grouped_phone_kept
  obtain r1 where r1: "sanitize_record percent var (r\<lparr>lr_msg := ''0671-23-45-67''\<rparr>) = (Inr (), r1)" "lr_msg r1 = ''0671-23-45-67''" "lr_args r1 = None"
    using sanitize_record_plain[of "r\<lparr>lr_msg := ''0671-23-45-67''\<rparr>" percent var] assms(1,2) phone by auto
  have line: "SanitizingFormatter percent asctime var (r\<lparr>lr_msg := ''0671-23-45-67''\<rparr>) = (Inr (text_line asctime ''0671-23-45-67'' r1), r1)"
    using r1 by (simp add: SanitizingFormatter_def get_message_no_args)
  let ?r = "r\<lparr>lr_extras := [(a, PList [PExc s]), (b, POther t)]\<rparr>"
  obtain r2 where r2: "sanitize_record percent var ?r = (Inr (), r2)" "lr_args r2 = None" "lr_extras r2 = [(a, PList [PExc s]), (b, POther t)]"
    using sanitize_record_plain[of ?r percent var] assms(1-4) by (auto simp: sanitize_extra_cases)
  have "JsonSanitizingFormatter percent isoformat dumps var ?r = (Inr (dumps (json_payload isoformat (lr_msg r2) r2)), r2)"
    using r2 by (simp add: JsonSanitizingFormatter_def get_message_no_args)
  moreover have "map_of (json_payload isoformat (lr_msg r2) r2) a = Some (PList [PExc s])" "map_of (json_payload isoformat (lr_msg r2) r2) b = Some (POther t)"
    using assms(5-7) r2(3) by (auto simp: json_payload_def Let_def map_of_dict_put)
  ultimately show ?thesis using line phone_mask_leaves[of raw] by (simp add: sanitize_extra_cases) blast
qed

theorem sanitiser_gaps_witness:
  "\<exists>payload r'. JsonSanitizingFormatter (\<lambda>m a. Inr m) (\<lambda>_. ''now'') (\<lambda>_. []) None
      (sample_record\<lparr>lr_args := None, lr_extras := [(''error'', PList [PExc ''ann@example.com'']), (''user'', POther ''Ann'')]\<rparr>) = (Inr [], r') \<and>
    map_of payload ''error'' = Some (PList [PExc ''ann@example.com''])"
proof -
  have "\<not> lr_pii_sanitized (sample_record\<lparr>lr_args := None\<rparr>)" "\<not> args_truthy (lr_args (sample_record\<lparr>lr_args := None\<rparr>))"
    by (simp_all add: sample_record_def args_truthy_def)
  moreover have "\<not> secret_name ''error''" "\<not> secret_name ''user''" by code_simp+
  ultimately show ?thesis
    using sanitiser_gaps[of "sample_record\<lparr>lr_args := None\<rparr>" "''error''" "''user''" "''0671-23-45-67''" "''k''" "PStr []" "''ann@example.com''"] by fastforce
qed

text \<open>
  C34: one id per request, in the logs and in the response. While an HTTP request is served, the application runs under the
  id that the client sent when it is valid and under a fresh one otherwise; a record logged under it carries that id, each
  response start carries it as its last header and is otherwise unchanged, all other messages and the outcome pass through
  and the variable has its old value afterwards, also when the application raises.
\<close>

theorem request_correlated:
  assumes "sc_type sc = ''http''" "uuid_hex \<noteq> []" "\<not> truthy (lr_correlation_id r)"
  shows "let incoming = (case map_of (rev (sc_headers sc)) HEADER_KEY of None \<Rightarrow> [] | Some x \<Rightarrow> x);
       cid = accept_or_generate uuid_hex (Some incoming);
       (sent, outcome, log, after) = CorrelationIdMiddleware app uuid_hex sc var
     in lr_correlation_id (snd (sanitize_record percent (Some cid) r)) = Some cid \<and>
        list_all2 (\<lambda>m m'. case m of Start st hs \<Rightarrow> m' = Start st (hs @ [(''x-correlation-id'', cid)]) | _ \<Rightarrow> m' = m) (fst (app (Some cid))) sent \<and>
        outcome = snd (app (Some cid)) \<and> after = var \<and>
        cid = (if VALID_ID_RE_match incoming \<and> incoming \<noteq> [] then incoming else uuid_hex)"
proof -
  have "list_all2 (\<lambda>m m'. case m of Start st hs \<Rightarrow> m' = Start st (hs @ [(''x-correlation-id'', cid)]) | _ \<Rightarrow> m' = m) ms
      (map (send_with_header cid) ms)" for cid ms
    by (induction ms) (auto simp: send_with_header_def HEADER_KEY_def split: asgi_message.splits)
  moreover have "lr_correlation_id (snd (sanitize_record percent (Some (accept_or_generate uuid_hex i)) r)) =
      Some (accept_or_generate uuid_hex i)" for i
    by (rule bound_correlation_id[OF assms(3) accept_or_generate_nonempty[OF assms(2)]])
  moreover have "CorrelationIdMiddleware app uuid_hex sc var = (let cid = accept_or_generate uuid_hex
         (Some (case map_of (rev (sc_headers sc)) HEADER_KEY of None \<Rightarrow> [] | Some x \<Rightarrow> x))
       in (map (send_with_header cid) (fst (app (Some cid))), snd (app (Some cid)),
           Some \<lparr>al_method = sc_method sc, al_path = sc_path sc, al_status = last_status 500 (fst (app (Some cid)))\<rparr>, var))"
    using assms(1) by (simp add: CorrelationIdMiddleware_def Let_def split: prod.splits)
  ultimately show ?thesis
    by (simp only: Let_def prod.case simp_thms) (simp add: accept_or_generate_def)
qed

theorem request_correlated_witness:
  "lr_correlation_id (snd (sanitize_record (\<lambda>m a. Inr m) (Some ''req-0001'') sample_record)) = Some ''req-0001'' \<and>
   CorrelationIdMiddleware (\<lambda>_. ([Start 200 [], Body ''ok''], Inl OSError)) ''0a''
     \<lparr>sc_type = ''http'', sc_method = ''GET'', sc_path = ''/'', sc_headers = [(HEADER_KEY, ''req-0001'')]\<rparr> None =
   ([Start 200 [(''x-correlation-id'', ''req-0001'')], Body ''ok''], Inl OSError, Some \<lparr>al_method = ''GET'', al_path = ''/'', al_status = 200\<rparr>, None)"
proof -
  let ?sc = "\<lparr>sc_type = ''http'', sc_method = ''GET'', sc_path = ''/'', sc_headers = [(HEADER_KEY, ''req-0001'')]\<rparr>"
  let ?app = "\<lambda>_ :: string option. ([Start 200 [], Body ''ok''], Inl OSError :: unit result)"
  have id: "accept_or_generate ''0a'' (Some ''req-0001'') = ''req-0001''"
    by (simp add: accept_or_generate_def VALID_ID_RE_match_def well_formed_id_def id_char_def)
  have "sc_type ?sc = ''http''" "''0a'' \<noteq> []" "\<not> truthy (lr_correlation_id sample_record)" by (simp_all add: sample_record_def)
  from request_correlated[OF this, where percent = "\<lambda>m a. Inr m" and app = ?app and var = None] show ?thesis
    by (simp add: id CorrelationIdMiddleware_def HEADER_KEY_def send_with_header_def Let_def)
qed

text \<open>
  The access log is body-free. It tells method, path and the last status that the application sent, 500 when it sent
  none; two applications that send the same statuses are logged alike, whatever bodies and headers they send and receive.
\<close>

lemma access_log_body_free:
  assumes "sc_type sc = ''http''" "sc_type sc' = ''http''" "sc_method sc = sc_method sc'" "sc_path sc = sc_path sc'"
    "\<And>x y. statuses (fst (app x)) = statuses (fst (app' y))"
  shows "fst (snd (snd (CorrelationIdMiddleware app uuid_hex sc var))) = fst (snd (snd (CorrelationIdMiddleware app' uuid_hex' sc' var'))) \<and>
    (\<exists>cid. fst (snd (snd (CorrelationIdMiddleware app uuid_hex sc var))) =
       Some \<lparr>al_method = sc_method sc, al_path = sc_path sc, al_status = last (500 # statuses (fst (app (Some cid))))\<rparr>)"
  using assms by (auto simp: CorrelationIdMiddleware_def Let_def last_status_last split: prod.splits) (metis fst_conv)+

end
