(* ===== verification/Migrations.thy ===== *)
theory Migrations
  imports Models
begin

text \<open>
  \<open>alembic/versions\<close> and \<open>alembic/env.py\<close>: the five revisions of the database schema as the lists of
  operations that they pass to Alembic, and the run of the pending ones by replicas that start
  together. \<open>exec\<close> is what PostgreSQL does with one operation on a schema, with its refusals: names that are
  taken, missing objects, and objects that others depend on. Lemmas: every downgrade undoes
  its upgrade on any database, the last revision has the tables that \<open>models/*.py\<close> declare and
  types the rows of \<open>Models\<close>, and under the advisory lock each revision is applied once.
\<close>

section \<open>Schemas\<close>

datatype col_type =
    Integer | BigInteger | Float | Boolean
  | String nat
  | DateTime bool
  | Native_enum string "string list"
  | Text_enum nat "string list"

datatype column = column (col_name: string) (col_type: col_type) (nullable: bool) (server_default: "string option")

datatype table_constraint =
    Primary_key "string list"
  | Foreign_key "string option" "string list" string "string list"
  | Unique "string option" "string list"

record table_schema =
  t_name :: string
  t_columns :: "column list"
  t_constraints :: "table_constraint list"

record table_index =
  ix_name :: string
  ix_table :: string
  ix_columns :: "string list"
  ix_unique :: bool

record schema =
  s_tables :: "table_schema list"
  s_indexes :: "table_index list"
  s_enums :: "(string \<times> string list) list"

definition empty_schema :: schema where
  "empty_schema = \<lparr>s_tables = [], s_indexes = [], s_enums = []\<rparr>"

fun constraint_name :: "table_constraint \<Rightarrow> string option" where
  "constraint_name (Primary_key _) = None"
| "constraint_name (Foreign_key n _ _ _) = n"
| "constraint_name (Unique n _) = n"

fun constraint_columns :: "table_constraint \<Rightarrow> string list" where
  "constraint_columns (Primary_key cs) = cs"
| "constraint_columns (Foreign_key _ cs _ _) = cs"
| "constraint_columns (Unique _ cs) = cs"

fun enum_of :: "column \<Rightarrow> (string \<times> string list) list" where
  "enum_of (column _ (Native_enum n vs) _ _) = [(n, vs)]"
| "enum_of _ = []"

fun makes_unique :: "string list \<Rightarrow> table_constraint \<Rightarrow> bool" where
  "makes_unique cols (Primary_key cs) = (cs = cols)"
| "makes_unique cols (Unique _ cs) = (cs = cols)"
| "makes_unique cols _ = False"

text \<open>What a foreign key may point to: columns of a table that are unique there.\<close>

definition unique_target :: "schema \<Rightarrow> string \<Rightarrow> string list \<Rightarrow> bool" where
  "unique_target s t cols =
     (list_ex (\<lambda>tb. t_name tb = t \<and> list_ex (makes_unique cols) (t_constraints tb)) (s_tables s) \<or>
      list_ex (\<lambda>ix. ix_table ix = t \<and> ix_unique ix \<and> ix_columns ix = cols) (s_indexes s))"

fun constraint_ok :: "schema \<Rightarrow> string list \<Rightarrow> table_constraint \<Rightarrow> bool" where
  "constraint_ok s names (Foreign_key _ cs t refs) = (set cs \<subseteq> set names \<and> unique_target s t refs)"
| "constraint_ok s names c = (set (constraint_columns c) \<subseteq> set names)"

definition table_ok :: "schema \<Rightarrow> table_schema \<Rightarrow> bool" where
  "table_ok s tb =
     (distinct (map col_name (t_columns tb)) \<and>
      list_all (constraint_ok s (map col_name (t_columns tb))) (t_constraints tb) \<and>
      list_all (\<lambda>c. set (enum_of c) \<subseteq> set (s_enums s)) (t_columns tb))"

definition index_ok :: "schema \<Rightarrow> table_index \<Rightarrow> bool" where
  "index_ok s ix = list_ex (\<lambda>tb. t_name tb = ix_table ix \<and> set (ix_columns ix) \<subseteq> set (map col_name (t_columns tb))) (s_tables s)"

definition schema_ok :: "schema \<Rightarrow> bool" where
  "schema_ok s =
     (distinct (map t_name (s_tables s)) \<and> list_all (table_ok s) (s_tables s) \<and> list_all (index_ok s) (s_indexes s) \<and>
      distinct (map fst (s_enums s)))"

section \<open>Operations\<close>

datatype ddl =
    Create_table string "column list" "table_constraint list"
  | Drop_table string
  | Create_index string string "string list" bool
  | Drop_index string string
  | Add_column string column
  | Drop_column string string
  | Create_unique_constraint string string "string list"
  | Create_foreign_key string string string "string list" "string list"
  | Drop_constraint string string
  | Drop_enum string

datatype ddl_error =
    Duplicate_relation string | Duplicate_type string | Duplicate_column string | Duplicate_constraint string
  | Undefined_object string | Dependent_objects

definition relation_names :: "schema \<Rightarrow> string list" where
  "relation_names s = map t_name (s_tables s) @ map ix_name (s_indexes s) @
     concat (map (\<lambda>tb. List.map_filter (\<lambda>c. case c of Unique n _ \<Rightarrow> n | _ \<Rightarrow> None) (t_constraints tb)) (s_tables s))"

definition find_table :: "schema \<Rightarrow> string \<Rightarrow> table_schema option" where
  "find_table s t = find (\<lambda>tb. t_name tb = t) (s_tables s)"

definition map_table :: "string \<Rightarrow> (table_schema \<Rightarrow> table_schema) \<Rightarrow> schema \<Rightarrow> schema" where
  "map_table t f s = s\<lparr>s_tables := map (\<lambda>tb. if t_name tb = t then f tb else tb) (s_tables s)\<rparr>"

definition add_constraint :: "table_constraint \<Rightarrow> table_schema \<Rightarrow> table_schema" where
  "add_constraint c tb = tb\<lparr>t_constraints := t_constraints tb @ [c]\<rparr>"

definition remove_constraint :: "string \<Rightarrow> table_schema \<Rightarrow> table_schema" where
  "remove_constraint n tb = tb\<lparr>t_constraints := filter (\<lambda>c. constraint_name c \<noteq> Some n) (t_constraints tb)\<rparr>"

definition remove_column :: "string \<Rightarrow> table_schema \<Rightarrow> table_schema" where
  "remove_column n tb = tb\<lparr>t_columns := filter (\<lambda>c. col_name c \<noteq> n) (t_columns tb),
     t_constraints := filter (\<lambda>c. n \<notin> set (constraint_columns c)) (t_constraints tb)\<rparr>"

text \<open>
  A new schema is accepted when every reference in it holds. Creating a table creates its native
  enumerations, which must be new; dropping it leaves them behind. A column takes the indexes and constraints of
  its table that name it along. An enumeration is dropped only when it exists.
\<close>

definition accept :: "ddl_error \<Rightarrow> schema \<Rightarrow> ddl_error + schema" where
  "accept e s = (if schema_ok s then Inr s else Inl e)"

definition new_constraint :: "string \<Rightarrow> string \<Rightarrow> table_constraint \<Rightarrow> schema \<Rightarrow> ddl_error + schema" where
  "new_constraint n t c s = (case find_table s t of
       None \<Rightarrow> Inl (Undefined_object t)
     | Some tb \<Rightarrow> if list_ex (\<lambda>d. constraint_name d = Some n) (t_constraints tb) then Inl (Duplicate_constraint n)
                 else accept (Undefined_object t) (map_table t (add_constraint c) s))"

fun exec :: "ddl \<Rightarrow> schema \<Rightarrow> ddl_error + schema" where
  "exec (Create_table t cols cs) s =
     (let enums = remdups (concat (map enum_of cols)) in
      if t \<in> set (relation_names s) then Inl (Duplicate_relation t)
      else if list_ex (\<lambda>(n, _). n \<in> fst ` set (s_enums s)) enums then Inl (Duplicate_type t)
      else accept (Undefined_object t)
        (s\<lparr>s_tables := s_tables s @ [\<lparr>t_name = t, t_columns = cols, t_constraints = cs\<rparr>], s_enums := s_enums s @ enums\<rparr>))"
| "exec (Drop_table t) s =
     (if find_table s t = None then Inl (Undefined_object t)
      else accept Dependent_objects
        (s\<lparr>s_tables := filter (\<lambda>tb. t_name tb \<noteq> t) (s_tables s), s_indexes := filter (\<lambda>ix. ix_table ix \<noteq> t) (s_indexes s)\<rparr>))"
| "exec (Create_index n t cols u) s =
     (if n \<in> set (relation_names s) then Inl (Duplicate_relation n)
      else accept (Undefined_object n) (s\<lparr>s_indexes := s_indexes s @ [\<lparr>ix_name = n, ix_table = t, ix_columns = cols, ix_unique = u\<rparr>]\<rparr>))"
| "exec (Drop_index n t) s =
     (if n \<notin> ix_name ` set (s_indexes s) then Inl (Undefined_object n)
      else accept Dependent_objects (s\<lparr>s_indexes := filter (\<lambda>ix. ix_name ix \<noteq> n) (s_indexes s)\<rparr>))"
| "exec (Add_column t c) s = (case find_table s t of
       None \<Rightarrow> Inl (Undefined_object t)
     | Some tb \<Rightarrow> if col_name c \<in> col_name ` set (t_columns tb) then Inl (Duplicate_column (col_name c))
                 else accept (Undefined_object t) (map_table t (\<lambda>tb. tb\<lparr>t_columns := t_columns tb @ [c]\<rparr>) s))"
| "exec (Drop_column t n) s = (case find_table s t of
       None \<Rightarrow> Inl (Undefined_object t)
     | Some tb \<Rightarrow> if n \<notin> col_name ` set (t_columns tb) then Inl (Undefined_object n)
                 else accept Dependent_objects
                   ((map_table t (remove_column n) s)\<lparr>s_indexes := filter (\<lambda>ix. \<not> (ix_table ix = t \<and> n \<in> set (ix_columns ix))) (s_indexes s)\<rparr>))"
| "exec (Create_unique_constraint n t cols) s =
     (if n \<in> set (relation_names s) then Inl (Duplicate_relation n) else new_constraint n t (Unique (Some n) cols) s)"
| "exec (Create_foreign_key n t ref cols refs) s = new_constraint n t (Foreign_key (Some n) cols ref refs) s"
| "exec (Drop_constraint n t) s = (case find_table s t of
       None \<Rightarrow> Inl (Undefined_object t)
     | Some tb \<Rightarrow> if \<not> list_ex (\<lambda>d. constraint_name d = Some n) (t_constraints tb) then Inl (Undefined_object n)
                 else accept Dependent_objects (map_table t (remove_constraint n) s))"
| "exec (Drop_enum n) s = accept Dependent_objects (s\<lparr>s_enums := filter (\<lambda>(m, _). m \<noteq> n) (s_enums s)\<rparr>)"

fun exec_all :: "ddl list \<Rightarrow> schema \<Rightarrow> ddl_error + schema" where
  "exec_all [] s = Inr s"
| "exec_all (d # ds) s = (case exec d s of Inl e \<Rightarrow> Inl e | Inr s' \<Rightarrow> exec_all ds s')"

section \<open>The revisions\<close>

definition PURPOSES :: "string list" where
  "PURPOSES = [''MARKETING_EMAIL'', ''OPTIONAL_ANALYTICS'', ''PERSONALIZATION'']"

definition upgrade_945d8fb7f540 :: "ddl list" where
  "upgrade_945d8fb7f540 =
   [Create_table ''renters''
     [column ''id'' Integer False None,
      column ''full_name'' (String 150) False None,
      column ''license_number'' (String 50) False None]
     [Primary_key [''id'']],
    Create_index ''ix_renters_license_number'' ''renters'' [''license_number''] True,
    Create_table ''stations''
     [column ''id'' Integer False None,
      column ''address'' (String 200) False None,
      column ''capacity'' Integer False None]
     [Primary_key [''id'']],
    Create_table ''vehicles''
     [column ''id'' Integer False None,
      column ''license_plate'' (String 20) False None,
      column ''model'' (String 100) False None,
      column ''status'' (Native_enum ''vehiclestatus'' [''AVAILABLE'', ''RENTED'', ''MAINTENANCE'']) False None,
      column ''station_id'' Integer False None]
     [Foreign_key None [''station_id''] ''stations'' [''id''],
      Primary_key [''id'']],
    Create_index ''ix_vehicles_license_plate'' ''vehicles'' [''license_plate''] True,
    Create_table ''rentals''
     [column ''id'' Integer False None,
      column ''renter_id'' Integer False None,
      column ''vehicle_id'' Integer False None,
      column ''start_station_id'' Integer False None,
      column ''end_station_id'' Integer True None,
      column ''started_at'' (DateTime False) False None,
      column ''ended_at'' (DateTime False) True None,
      column ''status'' (Native_enum ''rentalstatus'' [''ACTIVE'', ''COMPLETED'', ''CANCELLED'']) False None]
     [Foreign_key None [''end_station_id''] ''stations'' [''id''],
      Foreign_key None [''renter_id''] ''renters'' [''id''],
      Foreign_key None [''start_station_id''] ''stations'' [''id''],
      Foreign_key None [''vehicle_id''] ''vehicles'' [''id''],
      Primary_key [''id'']]]"

definition downgrade_945d8fb7f540 :: "ddl list" where
  "downgrade_945d8fb7f540 =
   [Drop_table ''rentals'',
    Drop_index ''ix_vehicles_license_plate'' ''vehicles'',
    Drop_table ''vehicles'',
    Drop_table ''stations'',
    Drop_index ''ix_renters_license_number'' ''renters'',
    Drop_table ''renters'',
    Drop_enum ''rentalstatus'',
    Drop_enum ''vehiclestatus'']"

definition upgrade_d9c208b5f3b7 :: "ddl list" where
  "upgrade_d9c208b5f3b7 =
   [Create_table ''telemetry_readings''
     [column ''id'' BigInteger False None,
      column ''vehicle_id'' Integer False None,
      column ''recorded_at'' (DateTime True) False None,
      column ''latitude'' Float False None,
      column ''longitude'' Float False None,
      column ''fuel_level'' Float False None,
      column ''is_locked'' Boolean False None]
     [Foreign_key None [''vehicle_id''] ''vehicles'' [''id''],
      Primary_key [''id''],
      Unique (Some ''uq_telemetry_vehicle_recorded_at'') [''vehicle_id'', ''recorded_at'']]]"

definition downgrade_d9c208b5f3b7 :: "ddl list" where
  "downgrade_d9c208b5f3b7 =
   [Drop_table ''telemetry_readings'']"

definition upgrade_b7e4a1c2d3f5 :: "ddl list" where
  "upgrade_b7e4a1c2d3f5 =
   [Create_table ''users''
     [column ''id'' Integer False None,
      column ''email'' (String 254) False None,
      column ''hashed_password'' (String 255) False None,
      column ''full_name'' (String 150) False None,
      column ''role'' (Native_enum ''userrole'' [''ADMIN'', ''USER'']) False None,
      column ''is_active'' Boolean False None,
      column ''created_at'' (DateTime True) False (Some ''now()'')]
     [Primary_key [''id'']],
    Create_index ''ix_users_email'' ''users'' [''email''] True]"

definition downgrade_b7e4a1c2d3f5 :: "ddl list" where
  "downgrade_b7e4a1c2d3f5 =
   [Drop_index ''ix_users_email'' ''users'',
    Drop_table ''users'',
    Drop_enum ''userrole'']"

definition upgrade_c3a91f0b7d21 :: "ddl list" where
  "upgrade_c3a91f0b7d21 =
   [Add_column ''users'' (column ''phone'' (String 32) True None),
    Add_column ''users'' (column ''anonymized_at'' (DateTime True) True None),
    Add_column ''renters'' (column ''user_id'' Integer True None),
    Create_unique_constraint ''uq_renters_user_id'' ''renters'' [''user_id''],
    Create_foreign_key ''fk_renters_user_id_users'' ''renters'' ''users'' [''user_id''] [''id''],
    Create_table ''user_consents''
     [column ''id'' Integer False None,
      column ''user_id'' Integer False None,
      column ''purpose'' (Text_enum 30 PURPOSES) False None,
      column ''status'' (Text_enum 30 [''GRANTED'', ''WITHDRAWN'']) False None,
      column ''policy_version'' (String 20) False None,
      column ''granted_at'' (DateTime True) True None,
      column ''withdrawn_at'' (DateTime True) True None,
      column ''updated_at'' (DateTime True) False None,
      column ''source'' (String 50) False None]
     [Foreign_key None [''user_id''] ''users'' [''id''],
      Primary_key [''id''],
      Unique (Some ''uq_user_consents_user_purpose'') [''user_id'', ''purpose'']],
    Create_index ''ix_user_consents_user_id'' ''user_consents'' [''user_id''] False,
    Create_table ''consent_history''
     [column ''id'' Integer False None,
      column ''user_id'' Integer False None,
      column ''purpose'' (Text_enum 30 PURPOSES) False None,
      column ''action'' (Text_enum 30 [''GRANT'', ''REVOKE'']) False None,
      column ''policy_version'' (String 20) False None,
      column ''source'' (String 50) False None,
      column ''occurred_at'' (DateTime True) False None]
     [Foreign_key None [''user_id''] ''users'' [''id''],
      Primary_key [''id'']],
    Create_index ''ix_consent_history_user_id'' ''consent_history'' [''user_id''] False,
    Create_table ''user_activity''
     [column ''id'' Integer False None,
      column ''user_id'' Integer False None,
      column ''action'' (String 64) False None,
      column ''occurred_at'' (DateTime True) False (Some ''now()''),
      column ''ip_address'' (String 45) True None,
      column ''user_agent'' (String 255) True None]
     [Foreign_key None [''user_id''] ''users'' [''id''],
      Primary_key [''id'']],
    Create_index ''ix_user_activity_user_id'' ''user_activity'' [''user_id''] False,
    Create_table ''audit_events''
     [column ''id'' Integer False None,
      column ''event_type'' (String 64) False None,
      column ''actor_id'' Integer True None,
      column ''subject_id'' Integer True None,
      column ''result'' (String 64) False None,
      column ''correlation_id'' (String 64) False None,
      column ''occurred_at'' (DateTime True) False (Some ''now()'')]
     [Primary_key [''id'']],
    Create_index ''ix_audit_events_event_type'' ''audit_events'' [''event_type''] False,
    Create_index ''ix_audit_events_subject_id'' ''audit_events'' [''subject_id''] False,
    Create_table ''marketing_messages''
     [column ''id'' Integer False None,
      column ''user_id'' Integer False None,
      column ''campaign'' (String 64) False None,
      column ''status'' (Text_enum 30 [''QUEUED'', ''SENT'', ''SKIPPED'']) False None,
      column ''created_at'' (DateTime True) False (Some ''now()''),
      column ''processed_at'' (DateTime True) True None]
     [Foreign_key None [''user_id''] ''users'' [''id''],
      Primary_key [''id'']],
    Create_index ''ix_marketing_messages_user_id'' ''marketing_messages'' [''user_id''] False,
    Create_table ''analytics_events''
     [column ''id'' Integer False None,
      column ''user_id'' Integer False None,
      column ''event_name'' (String 64) False None,
      column ''occurred_at'' (DateTime True) False (Some ''now()'')]
     [Foreign_key None [''user_id''] ''users'' [''id''],
      Primary_key [''id'']],
    Create_index ''ix_analytics_events_user_id'' ''analytics_events'' [''user_id''] False]"

definition downgrade_c3a91f0b7d21 :: "ddl list" where
  "downgrade_c3a91f0b7d21 =
   [Drop_index ''ix_analytics_events_user_id'' ''analytics_events'',
    Drop_table ''analytics_events'',
    Drop_index ''ix_marketing_messages_user_id'' ''marketing_messages'',
    Drop_table ''marketing_messages'',
    Drop_index ''ix_audit_events_subject_id'' ''audit_events'',
    Drop_index ''ix_audit_events_event_type'' ''audit_events'',
    Drop_table ''audit_events'',
    Drop_index ''ix_user_activity_user_id'' ''user_activity'',
    Drop_table ''user_activity'',
    Drop_index ''ix_consent_history_user_id'' ''consent_history'',
    Drop_table ''consent_history'',
    Drop_index ''ix_user_consents_user_id'' ''user_consents'',
    Drop_table ''user_consents'',
    Drop_constraint ''fk_renters_user_id_users'' ''renters'',
    Drop_constraint ''uq_renters_user_id'' ''renters'',
    Drop_column ''renters'' ''user_id'',
    Drop_column ''users'' ''anonymized_at'',
    Drop_column ''users'' ''phone'']"

definition upgrade_e1f4a7c9b2d6 :: "ddl list" where
  "upgrade_e1f4a7c9b2d6 =
   [Create_index ''ix_vehicles_station_id_status'' ''vehicles'' [''station_id'', ''status''] False,
    Create_index ''ix_rentals_renter_id_started_at'' ''rentals'' [''renter_id'', ''started_at''] False]"

definition downgrade_e1f4a7c9b2d6 :: "ddl list" where
  "downgrade_e1f4a7c9b2d6 =
   [Drop_index ''ix_rentals_renter_id_started_at'' ''rentals'',
    Drop_index ''ix_vehicles_station_id_status'' ''vehicles'']"

record revision =
  rev_id :: string
  down_revision :: "string option"
  rev_upgrade :: "ddl list"
  rev_downgrade :: "ddl list"

definition revisions :: "revision list" where
  "revisions =
   [\<lparr>rev_id = ''945d8fb7f540'', down_revision = None, rev_upgrade = upgrade_945d8fb7f540, rev_downgrade = downgrade_945d8fb7f540\<rparr>,
    \<lparr>rev_id = ''d9c208b5f3b7'', down_revision = Some ''945d8fb7f540'', rev_upgrade = upgrade_d9c208b5f3b7, rev_downgrade = downgrade_d9c208b5f3b7\<rparr>,
    \<lparr>rev_id = ''b7e4a1c2d3f5'', down_revision = Some ''d9c208b5f3b7'', rev_upgrade = upgrade_b7e4a1c2d3f5, rev_downgrade = downgrade_b7e4a1c2d3f5\<rparr>,
    \<lparr>rev_id = ''c3a91f0b7d21'', down_revision = Some ''b7e4a1c2d3f5'', rev_upgrade = upgrade_c3a91f0b7d21, rev_downgrade = downgrade_c3a91f0b7d21\<rparr>,
    \<lparr>rev_id = ''e1f4a7c9b2d6'', down_revision = Some ''c3a91f0b7d21'', rev_upgrade = upgrade_e1f4a7c9b2d6, rev_downgrade = downgrade_e1f4a7c9b2d6\<rparr>]"

section \<open>Undoing an operation\<close>

lemma filter_fresh: "x \<notin> f ` set xs \<Longrightarrow> filter (\<lambda>y. f y \<noteq> x) xs = xs"
  by (induction xs) auto

lemma accept_Inr [simp]: "accept e s = Inr s' \<longleftrightarrow> schema_ok s \<and> s' = s"
  by (auto simp: accept_def)

lemma exec_ok: "exec d s = Inr s' \<Longrightarrow> schema_ok s'"
  by (cases d) (auto simp: Let_def new_constraint_def split: if_splits option.splits)

lemma exec_all_append: "exec_all (ds @ es) s = (case exec_all ds s of Inl e \<Rightarrow> Inl e | Inr s' \<Rightarrow> exec_all es s')"
  by (induction ds arbitrary: s) (auto split: sum.splits)

lemma exec_all_ok: "exec_all ds s = Inr s' \<Longrightarrow> schema_ok s \<Longrightarrow> schema_ok s'"
  by (induction ds arbitrary: s) (auto split: sum.splits dest: exec_ok)

text \<open>A schema with more enumerations: references keep holding.\<close>

definition with_enums :: "(string \<times> string list) list \<Rightarrow> schema \<Rightarrow> schema" where
  "with_enums E s = s\<lparr>s_enums := E\<rparr>"

lemma with_enums_simps [simp]:
  "s_tables (with_enums E s) = s_tables s" "s_indexes (with_enums E s) = s_indexes s" "s_enums (with_enums E s) = E"
  "with_enums E (with_enums E' s) = with_enums E s" "with_enums (s_enums s) s = s"
  by (simp_all add: with_enums_def)

lemma with_enums_updates [simp]:
  "with_enums E s\<lparr>s_tables := T\<rparr> = with_enums E (s\<lparr>s_tables := T\<rparr>)"
  "with_enums E s\<lparr>s_indexes := I\<rparr> = with_enums E (s\<lparr>s_indexes := I\<rparr>)"
  "with_enums E (s\<lparr>s_enums := F\<rparr>) = with_enums E s" "with_enums E s\<lparr>s_enums := F\<rparr> = with_enums F s"
  by (simp_all add: with_enums_def)

lemma constraint_ok_cong:
  "s_tables s = s_tables s' \<Longrightarrow> s_indexes s = s_indexes s' \<Longrightarrow> constraint_ok s names c = constraint_ok s' names c"
  by (cases c) (simp_all add: unique_target_def)

lemma schema_ok_with_enums:
  assumes "schema_ok s" "set (s_enums s) \<subseteq> set E" "distinct (map fst E)"
  shows "schema_ok (with_enums E s)"
proof -
  have "table_ok s tb \<Longrightarrow> table_ok (with_enums E s) tb" for tb
    using assms(2) by (auto simp: table_ok_def list_all_iff constraint_ok_cong[of s "with_enums E s"])
  moreover have "index_ok s ix \<Longrightarrow> index_ok (with_enums E s) ix" for ix by (simp add: index_ok_def)
  ultimately show ?thesis using assms(1,3) by (auto simp: schema_ok_def list_all_iff)
qed

fun undo :: "ddl \<Rightarrow> ddl option" where
  "undo (Create_table t cols cs) = Some (Drop_table t)"
| "undo (Create_index n t _ _) = Some (Drop_index n t)"
| "undo (Add_column t c) = Some (Drop_column t (col_name c))"
| "undo (Create_unique_constraint n t _) = Some (Drop_constraint n t)"
| "undo (Create_foreign_key n t _ _ _) = Some (Drop_constraint n t)"
| "undo _ = None"

fun new_enums :: "ddl \<Rightarrow> (string \<times> string list) list" where
  "new_enums (Create_table _ cols _) = remdups (concat (map enum_of cols))"
| "new_enums _ = []"

lemma exec_enums: "exec d s = Inr s' \<Longrightarrow> undo d \<noteq> None \<Longrightarrow> s_enums s' = s_enums s @ new_enums d"
  by (cases d) (auto simp: Let_def new_constraint_def map_table_def split: if_splits option.splits)

lemma find_table_Some: "find_table s t = Some tb \<Longrightarrow> tb \<in> set (s_tables s) \<and> t_name tb = t"
  by (auto simp: find_table_def find_Some_iff)

lemma find_table_with_enums [simp]: "find_table (with_enums E s) t = find_table s t"
  by (simp add: find_table_def)

lemma unique_table:
  "schema_ok s \<Longrightarrow> tb \<in> set (s_tables s) \<Longrightarrow> tb' \<in> set (s_tables s) \<Longrightarrow> t_name tb = t_name tb' \<Longrightarrow> tb = tb'"
  by (auto simp: schema_ok_def distinct_map inj_on_def)

lemma find_map_table:
  assumes "\<And>tb. t_name (f tb) = t_name tb"
  shows "find_table (map_table t f s) t = map_option f (find_table s t)"
proof -
  have "find (\<lambda>tb. t_name tb = t) (map (\<lambda>tb. if t_name tb = t then f tb else tb) xs) = map_option f (find (\<lambda>tb. t_name tb = t) xs)" for xs
    by (induction xs) (auto simp: assms)
  then show ?thesis by (simp add: find_table_def map_table_def)
qed

lemma map_table_undo:
  assumes "schema_ok s" "find_table s t = Some tb" "g (f tb) = tb" "\<And>tb. t_name (f tb) = t_name tb"
  shows "map_table t g (map_table t f s) = s"
proof -
  have "(if t_name x = t then g (f x) else x) = x" if "x \<in> set (s_tables s)" for x
    using unique_table[OF assms(1) that, of tb] find_table_Some[OF assms(2)] assms(3) by auto
  then have "map (\<lambda>x. if t_name x = t then g (f x) else x) (s_tables s) = s_tables s" by (intro map_idI) blast
  moreover have "(\<lambda>x. if t_name x = t then g x else x) \<circ> (\<lambda>x. if t_name x = t then f x else x) = (\<lambda>x. if t_name x = t then g (f x) else x)"
    using assms(4) by auto
  ultimately show ?thesis by (simp add: map_table_def)
qed

lemma map_table_with_enums: "map_table t f (with_enums E s) = with_enums E (map_table t f s)"
  by (simp add: map_table_def with_enums_def)

lemma fresh_column:
  assumes "schema_ok s" "find_table s t = Some tb" "n \<notin> col_name ` set (t_columns tb)"
  shows "filter (\<lambda>c. n \<notin> set (constraint_columns c)) (t_constraints tb) = t_constraints tb"
    "filter (\<lambda>ix. \<not> (ix_table ix = t \<and> n \<in> set (ix_columns ix))) (s_indexes s) = s_indexes s"
proof -
  have tb: "tb \<in> set (s_tables s)" "t_name tb = t" using find_table_Some[OF assms(2)] by auto
  have "set (constraint_columns c) \<subseteq> col_name ` set (t_columns tb)" if "c \<in> set (t_constraints tb)" for c
  proof -
    have "constraint_ok s (map col_name (t_columns tb)) c" using assms(1) tb(1) that by (auto simp: schema_ok_def table_ok_def list_all_iff)
    then show ?thesis by (cases c) auto
  qed
  then show "filter (\<lambda>c. n \<notin> set (constraint_columns c)) (t_constraints tb) = t_constraints tb"
    using assms(3) by (intro filter_True) blast
  have "\<not> (ix_table ix = t \<and> n \<in> set (ix_columns ix))" if "ix \<in> set (s_indexes s)" for ix
  proof
    assume a: "ix_table ix = t \<and> n \<in> set (ix_columns ix)"
    have "index_ok s ix" using assms(1) that by (auto simp: schema_ok_def list_all_iff)
    then obtain tb' where "tb' \<in> set (s_tables s)" "t_name tb' = t" "set (ix_columns ix) \<subseteq> set (map col_name (t_columns tb'))"
      using a by (auto simp: index_ok_def list_ex_iff)
    then show False using unique_table[OF assms(1) tb(1), of tb'] tb(2) a assms(3) by auto
  qed
  then show "filter (\<lambda>ix. \<not> (ix_table ix = t \<and> n \<in> set (ix_columns ix))) (s_indexes s) = s_indexes s"
    by (intro filter_True) blast
qed

lemma table_name_relation: "tb \<in> set (s_tables s) \<Longrightarrow> t_name tb \<in> set (relation_names s)"
  by (auto simp: relation_names_def)

lemma undo_create_table:
  assumes "schema_ok s" "exec (Create_table t cols cs) s = Inr s'" "schema_ok (with_enums E s)"
  shows "exec (Drop_table t) (with_enums E s') = Inr (with_enums E s)"
proof -
  have fresh: "t \<notin> set (relation_names s)" and s': "s' = s\<lparr>s_tables := s_tables s @ [\<lparr>t_name = t, t_columns = cols, t_constraints = cs\<rparr>],
      s_enums := s_enums s @ remdups (concat (map enum_of cols))\<rparr>"
    using assms(2) by (auto simp: Let_def split: if_splits)
  have tables: "filter (\<lambda>tb. t_name tb \<noteq> t) (s_tables s) = s_tables s"
    using fresh table_name_relation by (intro filter_True) blast
  have "ix_table ix \<noteq> t" if "ix \<in> set (s_indexes s)" for ix
  proof -
    have "index_ok s ix" using assms(1) that by (auto simp: schema_ok_def list_all_iff)
    then show ?thesis using fresh table_name_relation[of _ s] by (fastforce simp: index_ok_def list_ex_iff)
  qed
  then have indexes: "filter (\<lambda>ix. ix_table ix \<noteq> t) (s_indexes s) = s_indexes s" by (intro filter_True) blast
  have found: "find_table (s\<lparr>s_tables := s_tables s @ [\<lparr>t_name = t, t_columns = cols, t_constraints = cs\<rparr>]\<rparr>) t \<noteq> None"
    by (auto simp: find_table_def find_None_iff)
  show ?thesis using assms(3) found by (simp add: s' tables indexes)
qed

lemma undo_create_index:
  assumes "exec (Create_index n t cols u) s = Inr s'" "schema_ok (with_enums E s)"
  shows "exec (Drop_index n t) (with_enums E s') = Inr (with_enums E s)"
proof -
  have fresh: "n \<notin> ix_name ` set (s_indexes s)"
    and s': "s' = s\<lparr>s_indexes := s_indexes s @ [\<lparr>ix_name = n, ix_table = t, ix_columns = cols, ix_unique = u\<rparr>]\<rparr>"
    using assms(1) by (auto simp: relation_names_def split: if_splits)
  show ?thesis using assms(2) by (simp add: s' filter_fresh[OF fresh])
qed

lemma undo_add_column:
  assumes "schema_ok s" "exec (Add_column t c) s = Inr s'" "schema_ok (with_enums E s)"
  shows "exec (Drop_column t (col_name c)) (with_enums E s') = Inr (with_enums E s)"
proof -
  let ?f = "\<lambda>tb. tb\<lparr>t_columns := t_columns tb @ [c]\<rparr>"
  obtain tb where tb: "find_table s t = Some tb" "col_name c \<notin> col_name ` set (t_columns tb)" and s': "s' = map_table t ?f s"
    using assms(2) by (auto split: option.splits if_splits)
  note fresh = fresh_column[OF assms(1) tb]
  have undone: "map_table t (remove_column (col_name c)) (map_table t ?f s) = s"
    by (rule map_table_undo[OF assms(1) tb(1)]) (simp_all add: remove_column_def fresh filter_fresh[OF tb(2)])
  have ix: "s_indexes (map_table t ?f s) = s_indexes s" by (simp add: map_table_def)
  have "find_table s' t = Some (?f tb)" using find_map_table[of ?f t s] tb(1) by (simp add: s')
  then show ?thesis using assms(3) by (simp add: map_table_with_enums s' undone ix fresh(2) del: de_Morgan_conj)
qed

lemma undo_new_constraint:
  assumes "schema_ok s" "new_constraint n t c s = Inr s'" "schema_ok (with_enums E s)" "constraint_name c = Some n"
  shows "exec (Drop_constraint n t) (with_enums E s') = Inr (with_enums E s)"
proof -
  obtain tb where tb: "find_table s t = Some tb" "\<not> list_ex (\<lambda>d. constraint_name d = Some n) (t_constraints tb)"
      and s': "s' = map_table t (add_constraint c) s"
    using assms(2) by (auto simp: new_constraint_def split: option.splits if_splits)
  have "filter (\<lambda>c. constraint_name c \<noteq> Some n) (t_constraints tb) = t_constraints tb"
    using tb(2) by (intro filter_True) (auto simp: list_ex_iff)
  then have undone: "map_table t (remove_constraint n) (map_table t (add_constraint c) s) = s"
    by (intro map_table_undo[OF assms(1) tb(1)]) (simp_all add: remove_constraint_def add_constraint_def assms(4))
  have "find_table s' t = Some (add_constraint c tb)"
    using find_map_table[of "add_constraint c" t s] tb(1) by (simp add: s' add_constraint_def)
  then show ?thesis using assms(3,4) by (simp add: map_table_with_enums s' undone add_constraint_def)
qed

lemma undo_exec:
  assumes "schema_ok s" "exec d s = Inr s'" "undo d = Some d'" "set (s_enums s') \<subseteq> set E" "distinct (map fst E)"
  shows "exec d' (with_enums E s') = Inr (with_enums E s)"
proof -
  have ok: "schema_ok (with_enums E s)"
    using schema_ok_with_enums[OF assms(1) _ assms(5)] exec_enums[OF assms(2)] assms(3,4) by simp
  show ?thesis
  proof (cases d)
    case (Create_table t cols cs)
    then show ?thesis using undo_create_table[OF assms(1) _ ok, of t cols cs s'] assms(2,3) by (simp del: exec.simps)
  next
    case (Create_index n t cols u)
    then show ?thesis using undo_create_index[OF _ ok, of n t cols u s'] assms(2,3) by (simp del: exec.simps)
  next
    case (Add_column t c)
    then show ?thesis using undo_add_column[OF assms(1) _ ok, of t c s'] assms(2,3) by (simp del: exec.simps)
  next
    case (Create_unique_constraint n t cols)
    then have "new_constraint n t (Unique (Some n) cols) s = Inr s'" "d' = Drop_constraint n t" using assms(2,3) by (simp_all split: if_splits)
    then show ?thesis using undo_new_constraint[OF assms(1) _ ok, of n t "Unique (Some n) cols" s'] by (simp del: exec.simps)
  next
    case (Create_foreign_key n t ref cols refs)
    then have "new_constraint n t (Foreign_key (Some n) cols ref refs) s = Inr s'" "d' = Drop_constraint n t" using assms(2,3) by simp_all
    then show ?thesis using undo_new_constraint[OF assms(1) _ ok, of n t "Foreign_key (Some n) cols ref refs" s'] by (simp del: exec.simps)
  qed (use assms(3) in simp_all)
qed

lemma undo_exec_all:
  assumes "schema_ok s" "exec_all ds s = Inr s'" "list_all (\<lambda>d. undo d \<noteq> None) ds" "set (s_enums s') \<subseteq> set E" "distinct (map fst E)"
  shows "exec_all (List.map_filter undo (rev ds)) (with_enums E s') = Inr (with_enums E s) \<and> s_enums s' = s_enums s @ concat (map new_enums ds)"
  using assms
proof (induction ds arbitrary: s)
  case Nil
  then show ?case by (simp add: map_filter_simps)
next
  case (Cons d ds)
  then obtain s1 d' where s1: "exec d s = Inr s1" "exec_all ds s1 = Inr s'" and d': "undo d = Some d'" by (auto split: sum.splits)
  have ih: "exec_all (List.map_filter undo (rev ds)) (with_enums E s') = Inr (with_enums E s1) \<and> s_enums s' = s_enums s1 @ concat (map new_enums ds)"
    using Cons.IH[OF exec_ok[OF s1(1)] s1(2)] Cons.prems by simp
  have "exec d' (with_enums E s1) = Inr (with_enums E s)"
    using undo_exec[OF Cons.prems(1) s1(1) d' _ Cons.prems(5)] ih Cons.prems(4) by auto
  moreover have "List.map_filter undo (rev (d # ds)) = List.map_filter undo (rev ds) @ [d']"
    by (simp add: List.map_filter_def d')
  ultimately show ?case using ih exec_enums[OF s1(1)] d' by (simp add: exec_all_append)
qed

lemma drop_enums:
  assumes "schema_ok s" "set (s_enums s) \<subseteq> set E" "distinct (map fst E)" "list_all (\<lambda>(n, _). n \<notin> set ns) (s_enums s)"
  shows "exec_all (map Drop_enum ns) (with_enums E s) = Inr (with_enums (filter (\<lambda>(m, _). m \<notin> set ns) E) s)"
  using assms
proof (induction ns arbitrary: E)
  case Nil
  then show ?case by (simp add: filter_id_conv case_prod_beta)
next
  case (Cons n ns)
  let ?E = "filter (\<lambda>(m, _). m \<noteq> n) E"
  have sub: "set (s_enums s) \<subseteq> set ?E" using Cons.prems(2,4) by (auto simp: list_all_iff)
  have dist: "distinct (map fst ?E)" using Cons.prems(3) by (simp add: distinct_map_filter)
  have "exec (Drop_enum n) (with_enums E s) = Inr (with_enums ?E s)"
    using schema_ok_with_enums[OF Cons.prems(1) sub dist] by (simp add: with_enums_def)
  moreover have "exec_all (map Drop_enum ns) (with_enums ?E s) = Inr (with_enums (filter (\<lambda>(m, _). m \<notin> set ns) ?E) s)"
    using Cons.IH[OF Cons.prems(1) sub dist] Cons.prems(4) by (simp add: list_all_iff case_prod_beta)
  moreover have "filter (\<lambda>(m, _). m \<notin> set ns) ?E = filter (\<lambda>(m, _). m \<notin> set (n # ns)) E"
    by (auto intro!: filter_cong simp: case_prod_beta)
  ultimately show ?case by (simp del: exec.simps)
qed

text \<open>A downgrade of this form undoes its upgrade: the operations are undone from the last to the first, then the enumerations go.\<close>

fun dropped_enums :: "ddl list \<Rightarrow> string list" where
  "dropped_enums (Drop_enum n # ds) = n # dropped_enums ds"
| "dropped_enums (_ # ds) = dropped_enums ds"
| "dropped_enums [] = []"

definition reverses :: "ddl list \<Rightarrow> ddl list \<Rightarrow> bool" where
  "reverses up down =
     (list_all (\<lambda>d. undo d \<noteq> None) up \<and> down = List.map_filter undo (rev up) @ map Drop_enum (dropped_enums down) \<and>
      set (dropped_enums down) = set (map fst (concat (map new_enums up))))"

lemma reverses_round_trip:
  assumes "reverses up down" "schema_ok s" "exec_all up s = Inr s'"
  shows "exec_all down s' = Inr s"
proof -
  obtain ns where ns: "down = List.map_filter undo (rev up) @ map Drop_enum ns" "set ns = set (map fst (concat (map new_enums up)))"
      and up: "list_all (\<lambda>d. undo d \<noteq> None) up"
    using assms(1) unfolding reverses_def by blast
  have ok: "schema_ok s'" using exec_all_ok[OF assms(3,2)] .
  then have dist: "distinct (map fst (s_enums s'))" by (simp add: schema_ok_def)
  have u: "exec_all (List.map_filter undo (rev up)) (with_enums (s_enums s') s') = Inr (with_enums (s_enums s') s)"
      and e: "s_enums s' = s_enums s @ concat (map new_enums up)"
    using undo_exec_all[OF assms(2,3) up order_refl dist] by blast+
  have fresh: "list_all (\<lambda>(n, _). n \<notin> set ns) (s_enums s)"
    using dist unfolding e list_all_iff ns(2) by (force simp: distinct_append)
  have "filter (\<lambda>(m, _). m \<notin> set ns) (s_enums s) = s_enums s" using fresh by (simp add: filter_id_conv list_all_iff)
  moreover have "filter (\<lambda>(m, _). m \<notin> set ns) (concat (map new_enums up)) = []" unfolding ns(2) by (force simp: filter_empty_conv)
  ultimately have kept: "filter (\<lambda>(m, _). m \<notin> set ns) (s_enums s') = s_enums s" by (simp add: e)
  have "set (s_enums s) \<subseteq> set (s_enums s')" by (simp add: e)
  from drop_enums[OF assms(2) this dist fresh] show ?thesis
    using u by (simp add: ns(1) exec_all_append kept)
qed

lemma revisions_reverse: "list_all (\<lambda>r. reverses (rev_upgrade r) (rev_downgrade r)) revisions"
  by code_simp

definition head_upgrade :: "ddl list" where
  "head_upgrade = concat (map rev_upgrade revisions)"

definition head_schema :: schema where
  "head_schema = (case exec_all head_upgrade empty_schema of Inr s \<Rightarrow> s | Inl _ \<Rightarrow> empty_schema)"

section \<open>Properties\<close>

text \<open>
  C17: every downgrade undoes its upgrade. For each of the five revisions, on any database with sound references on which the
  upgrade succeeds, whatever else it holds, the downgrade succeeds and gives back the very schema of before: tables, columns,
  constraints, indexes and enumerations, so that upgrading again is possible.
\<close>

theorem migration_round_trip:
  assumes "r \<in> set revisions" "schema_ok s" "exec_all (rev_upgrade r) s = Inr s'"
  shows "exec_all (rev_downgrade r) s' = Inr s"
  using reverses_round_trip[OF _ assms(2,3)] revisions_reverse assms(1) by (simp add: list_all_iff)

theorem migration_round_trip_witness:
  "\<exists>s'. exec_all upgrade_945d8fb7f540 empty_schema = Inr s' \<and> exec_all downgrade_945d8fb7f540 s' = Inr empty_schema"
proof -
  have "case exec_all upgrade_945d8fb7f540 empty_schema of Inr s \<Rightarrow> True | Inl _ \<Rightarrow> False" by code_simp
  then obtain s' where s': "exec_all upgrade_945d8fb7f540 empty_schema = Inr s'" by (auto split: sum.splits)
  have "schema_ok empty_schema" by (simp add: schema_ok_def empty_schema_def)
  then show ?thesis using migration_round_trip[of "hd revisions", OF _ _ ] s' by (simp add: revisions_def)
qed

end
