(* ===== verification/ModelSchema.thy ===== *)
theory ModelSchema
  imports Migrations
begin

text \<open>
  The tables that \<open>models/*.py\<close> declare, as the arguments of \<open>mapped_column\<close> and what SQLAlchemy makes of them,
  and the values that the rows of \<open>Models\<close> put into them. Lemmas: the last migration reaches exactly this
  schema, and its columns take a row just when the width predicates of \<open>Models\<close> hold.
\<close>

section \<open>What the models declare\<close>

text \<open>
  The arguments of \<open>mapped_column\<close> and of \<open>__table_args__\<close>, and the tables that SQLAlchemy makes of them: a column that
  is unique and indexed gets one unique index, a unique column alone a constraint without a name.
\<close>

record mapped_column =
  mc_name :: string
  mc_type :: col_type
  mc_nullable :: bool
  mc_primary_key :: bool
  mc_unique :: bool
  mc_index :: bool
  mc_foreign_key :: "(string \<times> string) option"
  mc_server_default :: "string option"

datatype table_arg = Index_arg string "string list" | Unique_arg string "string list"

record mapped_class =
  mp_table :: string
  mp_columns :: "mapped_column list"
  mp_args :: "table_arg list"

definition plain :: "string \<Rightarrow> col_type \<Rightarrow> mapped_column" where
  "plain n ty = \<lparr>mc_name = n, mc_type = ty, mc_nullable = False, mc_primary_key = False, mc_unique = False, mc_index = False,
     mc_foreign_key = None, mc_server_default = None\<rparr>"

definition primary_key :: "col_type \<Rightarrow> mapped_column" where
  "primary_key ty = (plain ''id'' ty)\<lparr>mc_primary_key := True\<rparr>"

definition refers :: "string \<Rightarrow> string \<Rightarrow> mapped_column" where
  "refers n t = (plain n Integer)\<lparr>mc_foreign_key := Some (t, ''id'')\<rparr>"

definition optional :: "mapped_column \<Rightarrow> mapped_column" where
  "optional c = c\<lparr>mc_nullable := True\<rparr>"

definition indexed :: "mapped_column \<Rightarrow> mapped_column" where
  "indexed c = c\<lparr>mc_index := True\<rparr>"

definition single :: "mapped_column \<Rightarrow> mapped_column" where
  "single c = c\<lparr>mc_unique := True\<rparr>"

definition defaults_now :: "mapped_column \<Rightarrow> mapped_column" where
  "defaults_now c = c\<lparr>mc_server_default := Some ''now()''\<rparr>"

definition text_enum :: "string list \<Rightarrow> col_type" where
  "text_enum = Text_enum 30"

definition Station_class :: mapped_class where
  "Station_class = \<lparr>mp_table = ''stations'',
     mp_columns = [primary_key Integer, plain ''address'' (String 200), plain ''capacity'' Integer], mp_args = []\<rparr>"

definition Renter_class :: mapped_class where
  "Renter_class = \<lparr>mp_table = ''renters'',
     mp_columns = [primary_key Integer, plain ''full_name'' (String 150), indexed (single (plain ''license_number'' (String 50))),
       optional (single (refers ''user_id'' ''users''))], mp_args = []\<rparr>"

definition Vehicle_class :: mapped_class where
  "Vehicle_class = \<lparr>mp_table = ''vehicles'',
     mp_columns = [primary_key Integer, indexed (single (plain ''license_plate'' (String 20))), plain ''model'' (String 100),
       plain ''status'' (Native_enum ''vehiclestatus'' [''AVAILABLE'', ''RENTED'', ''MAINTENANCE'']), refers ''station_id'' ''stations''],
     mp_args = [Index_arg ''ix_vehicles_station_id_status'' [''station_id'', ''status'']]\<rparr>"

definition Rental_class :: mapped_class where
  "Rental_class = \<lparr>mp_table = ''rentals'',
     mp_columns = [primary_key Integer, refers ''renter_id'' ''renters'', refers ''vehicle_id'' ''vehicles'', refers ''start_station_id'' ''stations'',
       optional (refers ''end_station_id'' ''stations''), plain ''started_at'' (DateTime False), optional (plain ''ended_at'' (DateTime False)),
       plain ''status'' (Native_enum ''rentalstatus'' [''ACTIVE'', ''COMPLETED'', ''CANCELLED''])],
     mp_args = [Index_arg ''ix_rentals_renter_id_started_at'' [''renter_id'', ''started_at'']]\<rparr>"

definition TelemetryReading_class :: mapped_class where
  "TelemetryReading_class = \<lparr>mp_table = ''telemetry_readings'',
     mp_columns = [primary_key BigInteger, refers ''vehicle_id'' ''vehicles'', plain ''recorded_at'' (DateTime True), plain ''latitude'' Float,
       plain ''longitude'' Float, plain ''fuel_level'' Float, plain ''is_locked'' Boolean],
     mp_args = [Unique_arg ''uq_telemetry_vehicle_recorded_at'' [''vehicle_id'', ''recorded_at'']]\<rparr>"

definition User_class :: mapped_class where
  "User_class = \<lparr>mp_table = ''users'',
     mp_columns = [primary_key Integer, indexed (single (plain ''email'' (String 254))), plain ''hashed_password'' (String 255),
       plain ''full_name'' (String 150), plain ''role'' (Native_enum ''userrole'' [''ADMIN'', ''USER'']), optional (plain ''phone'' (String 32)),
       plain ''is_active'' Boolean, defaults_now (plain ''created_at'' (DateTime True)), optional (plain ''anonymized_at'' (DateTime True))],
     mp_args = []\<rparr>"

definition UserConsent_class :: mapped_class where
  "UserConsent_class = \<lparr>mp_table = ''user_consents'',
     mp_columns = [primary_key Integer, indexed (refers ''user_id'' ''users''),
       plain ''purpose'' (text_enum [''MARKETING_EMAIL'', ''OPTIONAL_ANALYTICS'', ''PERSONALIZATION'']),
       plain ''status'' (text_enum [''GRANTED'', ''WITHDRAWN'']), plain ''policy_version'' (String 20),
       optional (plain ''granted_at'' (DateTime True)), optional (plain ''withdrawn_at'' (DateTime True)),
       plain ''updated_at'' (DateTime True), plain ''source'' (String 50)],
     mp_args = [Unique_arg ''uq_user_consents_user_purpose'' [''user_id'', ''purpose'']]\<rparr>"

definition ConsentHistory_class :: mapped_class where
  "ConsentHistory_class = \<lparr>mp_table = ''consent_history'',
     mp_columns = [primary_key Integer, indexed (refers ''user_id'' ''users''),
       plain ''purpose'' (text_enum [''MARKETING_EMAIL'', ''OPTIONAL_ANALYTICS'', ''PERSONALIZATION'']),
       plain ''action'' (text_enum [''GRANT'', ''REVOKE'']), plain ''policy_version'' (String 20), plain ''source'' (String 50),
       plain ''occurred_at'' (DateTime True)], mp_args = []\<rparr>"

definition UserActivity_class :: mapped_class where
  "UserActivity_class = \<lparr>mp_table = ''user_activity'',
     mp_columns = [primary_key Integer, indexed (refers ''user_id'' ''users''), plain ''action'' (String 64),
       defaults_now (plain ''occurred_at'' (DateTime True)), optional (plain ''ip_address'' (String 45)),
       optional (plain ''user_agent'' (String 255))], mp_args = []\<rparr>"

definition AuditEvent_class :: mapped_class where
  "AuditEvent_class = \<lparr>mp_table = ''audit_events'',
     mp_columns = [primary_key Integer, indexed (plain ''event_type'' (String 64)), optional (plain ''actor_id'' Integer),
       indexed (optional (plain ''subject_id'' Integer)), plain ''result'' (String 64), plain ''correlation_id'' (String 64),
       defaults_now (plain ''occurred_at'' (DateTime True))], mp_args = []\<rparr>"

definition MarketingMessage_class :: mapped_class where
  "MarketingMessage_class = \<lparr>mp_table = ''marketing_messages'',
     mp_columns = [primary_key Integer, indexed (refers ''user_id'' ''users''), plain ''campaign'' (String 64),
       plain ''status'' (text_enum [''QUEUED'', ''SENT'', ''SKIPPED'']), defaults_now (plain ''created_at'' (DateTime True)),
       optional (plain ''processed_at'' (DateTime True))], mp_args = []\<rparr>"

definition AnalyticsEvent_class :: mapped_class where
  "AnalyticsEvent_class = \<lparr>mp_table = ''analytics_events'',
     mp_columns = [primary_key Integer, indexed (refers ''user_id'' ''users''), plain ''event_name'' (String 64),
       defaults_now (plain ''occurred_at'' (DateTime True))], mp_args = []\<rparr>"

definition mapped_classes :: "mapped_class list" where
  "mapped_classes = [Station_class, Renter_class, Vehicle_class, Rental_class, TelemetryReading_class, User_class, UserConsent_class,
     ConsentHistory_class, UserActivity_class, AuditEvent_class, MarketingMessage_class, AnalyticsEvent_class]"

definition column_constraints :: "mapped_column \<Rightarrow> table_constraint list" where
  "column_constraints c =
     (if mc_primary_key c then [Primary_key [mc_name c]] else []) @
     (case mc_foreign_key c of None \<Rightarrow> [] | Some (t, r) \<Rightarrow> [Foreign_key None [mc_name c] t [r]]) @
     (if mc_unique c \<and> \<not> mc_index c then [Unique None [mc_name c]] else [])"

definition class_table :: "mapped_class \<Rightarrow> table_schema" where
  "class_table m = \<lparr>t_name = mp_table m,
     t_columns = map (\<lambda>c. column (mc_name c) (mc_type c) (mc_nullable c) (mc_server_default c)) (mp_columns m),
     t_constraints = concat (map column_constraints (mp_columns m)) @
       concat (map (\<lambda>a. case a of Unique_arg n cs \<Rightarrow> [Unique (Some n) cs] | _ \<Rightarrow> []) (mp_args m))\<rparr>"

definition class_indexes :: "mapped_class \<Rightarrow> table_index list" where
  "class_indexes m =
     map (\<lambda>c. \<lparr>ix_name = ''ix_'' @ mp_table m @ ''_'' @ mc_name c, ix_table = mp_table m, ix_columns = [mc_name c], ix_unique = mc_unique c\<rparr>)
       (filter mc_index (mp_columns m)) @
     concat (map (\<lambda>a. case a of Index_arg n cs \<Rightarrow> [\<lparr>ix_name = n, ix_table = mp_table m, ix_columns = cs, ix_unique = False\<rparr>] | _ \<Rightarrow> []) (mp_args m))"

definition metadata :: schema where
  "metadata = \<lparr>s_tables = map class_table mapped_classes, s_indexes = concat (map class_indexes mapped_classes),
     s_enums = remdups (concat (map (\<lambda>m. concat (map enum_of (t_columns (class_table m)))) mapped_classes))\<rparr>"

text \<open>Two schemas agree when they differ at most in the order of things and in the names of constraints.\<close>

fun forget_name :: "table_constraint \<Rightarrow> table_constraint" where
  "forget_name (Primary_key cs) = Primary_key cs"
| "forget_name (Foreign_key _ cs t rs) = Foreign_key None cs t rs"
| "forget_name (Unique _ cs) = Unique None cs"

definition same_table :: "table_schema \<Rightarrow> table_schema \<Rightarrow> bool" where
  "same_table a b =
     (t_name a = t_name b \<and> set (t_columns a) = set (t_columns b) \<and> length (t_columns a) = length (t_columns b) \<and>
      set (map forget_name (t_constraints a)) = set (map forget_name (t_constraints b)))"

definition same_schema :: "schema \<Rightarrow> schema \<Rightarrow> bool" where
  "same_schema s s' =
     (list_all (\<lambda>a. list_ex (same_table a) (s_tables s')) (s_tables s) \<and> list_all (\<lambda>b. list_ex (\<lambda>a. same_table a b) (s_tables s)) (s_tables s') \<and>
      set (s_indexes s) = set (s_indexes s') \<and> length (s_indexes s) = length (s_indexes s') \<and> set (s_enums s) = set (s_enums s'))"

section \<open>Rows as cells\<close>

datatype cell = Null | Int_cell int | Real_cell rat | Bool_cell bool | Text_cell string | Time_cell instant

fun cell_ok :: "column \<Rightarrow> cell \<Rightarrow> bool" where
  "cell_ok c Null = nullable c"
| "cell_ok c (Int_cell n) = (case col_type c of Integer \<Rightarrow> int4 n | BigInteger \<Rightarrow> - (2 ^ 63) \<le> n \<and> n < 2 ^ 63 | _ \<Rightarrow> False)"
| "cell_ok c (Real_cell _) = (col_type c = Float)"
| "cell_ok c (Bool_cell _) = (col_type c = Boolean)"
| "cell_ok c (Text_cell s) = (case col_type c of String n \<Rightarrow> length s \<le> n | Native_enum _ vs \<Rightarrow> s \<in> set vs
     | Text_enum n vs \<Rightarrow> s \<in> set vs \<and> length s \<le> n | _ \<Rightarrow> False)"
| "cell_ok c (Time_cell _) = (case col_type c of DateTime _ \<Rightarrow> True | _ \<Rightarrow> False)"

text \<open>A row has a value for every column of the table and for no other, each of the type of its column.\<close>

definition table_takes :: "string \<Rightarrow> (string \<times> cell) list \<Rightarrow> table_schema \<Rightarrow> bool" where
  "table_takes t cells tb = (t_name tb = t \<and> set (map fst cells) = set (map col_name (t_columns tb)) \<and>
     list_all (\<lambda>c. case map_of cells (col_name c) of None \<Rightarrow> False | Some x \<Rightarrow> cell_ok c x) (t_columns tb))"

definition row_typed :: "schema \<Rightarrow> string \<Rightarrow> (string \<times> cell) list \<Rightarrow> bool" where
  "row_typed s t cells = list_ex (table_takes t cells) (s_tables s)"

definition opt_cell :: "('a \<Rightarrow> cell) \<Rightarrow> 'a option \<Rightarrow> cell" where
  "opt_cell f x = (case x of None \<Rightarrow> Null | Some y \<Rightarrow> f y)"

text \<open>A native enumeration stores the name of the member.\<close>

fun vehicle_status_name :: "vehicle_status \<Rightarrow> string" where
  "vehicle_status_name AVAILABLE = ''AVAILABLE''" | "vehicle_status_name RENTED = ''RENTED''" | "vehicle_status_name MAINTENANCE = ''MAINTENANCE''"
fun rental_status_name :: "rental_status \<Rightarrow> string" where
  "rental_status_name ACTIVE = ''ACTIVE''" | "rental_status_name COMPLETED = ''COMPLETED''" | "rental_status_name CANCELLED = ''CANCELLED''"
fun role_name :: "user_role \<Rightarrow> string" where
  "role_name ADMIN = ''ADMIN''" | "role_name USER = ''USER''"
fun consent_status_name :: "consent_status \<Rightarrow> string" where
  "consent_status_name GRANTED = ''GRANTED''" | "consent_status_name WITHDRAWN = ''WITHDRAWN''"
fun consent_action_name :: "consent_action \<Rightarrow> string" where
  "consent_action_name GRANT = ''GRANT''" | "consent_action_name REVOKE = ''REVOKE''"
fun message_status_name :: "marketing_status \<Rightarrow> string" where
  "message_status_name QUEUED = ''QUEUED''" | "message_status_name SENT = ''SENT''" | "message_status_name SKIPPED = ''SKIPPED''"

definition station_cells :: "station \<Rightarrow> (string \<times> cell) list" where
  "station_cells r = [(''id'', Int_cell (st_id r)), (''address'', Text_cell (st_address r)), (''capacity'', Int_cell (st_capacity r))]"

definition renter_cells :: "renter \<Rightarrow> (string \<times> cell) list" where
  "renter_cells r = [(''id'', Int_cell (rt_id r)), (''full_name'', Text_cell (rt_full_name r)),
     (''license_number'', Text_cell (rt_license_number r)), (''user_id'', opt_cell Int_cell (rt_user_id r))]"

definition vehicle_cells :: "vehicle \<Rightarrow> (string \<times> cell) list" where
  "vehicle_cells r = [(''id'', Int_cell (v_id r)), (''license_plate'', Text_cell (v_license_plate r)), (''model'', Text_cell (v_model r)),
     (''status'', Text_cell (vehicle_status_name (v_status r))), (''station_id'', Int_cell (v_station_id r))]"

definition rental_cells :: "rental \<Rightarrow> (string \<times> cell) list" where
  "rental_cells r = [(''id'', Int_cell (r_id r)), (''renter_id'', Int_cell (r_renter_id r)), (''vehicle_id'', Int_cell (r_vehicle_id r)),
     (''start_station_id'', Int_cell (r_start_station_id r)), (''end_station_id'', opt_cell Int_cell (r_end_station_id r)),
     (''started_at'', Time_cell (r_started_at r)), (''ended_at'', opt_cell Time_cell (r_ended_at r)),
     (''status'', Text_cell (rental_status_name (r_status r)))]"

definition reading_cells :: "telemetry_reading \<Rightarrow> (string \<times> cell) list" where
  "reading_cells r = [(''id'', Int_cell (tr_id r)), (''vehicle_id'', Int_cell (tr_vehicle_id r)), (''recorded_at'', Time_cell (tr_recorded_at r)),
     (''latitude'', Real_cell (tr_latitude r)), (''longitude'', Real_cell (tr_longitude r)), (''fuel_level'', Real_cell (tr_fuel_level r)),
     (''is_locked'', Bool_cell (tr_is_locked r))]"

definition user_cells :: "user \<Rightarrow> (string \<times> cell) list" where
  "user_cells r = [(''id'', Int_cell (u_id r)), (''email'', Text_cell (u_email r)), (''hashed_password'', Text_cell (u_hashed_password r)),
     (''full_name'', Text_cell (u_full_name r)), (''role'', Text_cell (role_name (u_role r))), (''phone'', opt_cell Text_cell (u_phone r)),
     (''is_active'', Bool_cell (u_is_active r)), (''created_at'', Time_cell (u_created_at r)),
     (''anonymized_at'', opt_cell Time_cell (u_anonymized_at r))]"

definition consent_cells :: "user_consent \<Rightarrow> (string \<times> cell) list" where
  "consent_cells r = [(''id'', Int_cell (c_id r)), (''user_id'', Int_cell (c_user_id r)), (''purpose'', Text_cell (purpose_value (c_purpose r))),
     (''status'', Text_cell (consent_status_name (c_status r))), (''policy_version'', Text_cell (c_policy_version r)),
     (''granted_at'', opt_cell Time_cell (c_granted_at r)), (''withdrawn_at'', opt_cell Time_cell (c_withdrawn_at r)),
     (''updated_at'', Time_cell (c_updated_at r)), (''source'', Text_cell (c_source r))]"

definition history_cells :: "consent_history_row \<Rightarrow> (string \<times> cell) list" where
  "history_cells r = [(''id'', Int_cell (h_id r)), (''user_id'', Int_cell (h_user_id r)), (''purpose'', Text_cell (purpose_value (h_purpose r))),
     (''action'', Text_cell (consent_action_name (h_action r))), (''policy_version'', Text_cell (h_policy_version r)),
     (''source'', Text_cell (h_source r)), (''occurred_at'', Time_cell (h_occurred_at r))]"

definition activity_cells :: "user_activity_row \<Rightarrow> (string \<times> cell) list" where
  "activity_cells r = [(''id'', Int_cell (a_id r)), (''user_id'', Int_cell (a_user_id r)), (''action'', Text_cell (a_action r)),
     (''occurred_at'', Time_cell (a_occurred_at r)), (''ip_address'', opt_cell Text_cell (a_ip_address r)),
     (''user_agent'', opt_cell Text_cell (a_user_agent r))]"

definition audit_cells :: "audit_event \<Rightarrow> (string \<times> cell) list" where
  "audit_cells r = [(''id'', Int_cell (ae_id r)), (''event_type'', Text_cell (ae_event_type r)), (''actor_id'', opt_cell Int_cell (ae_actor_id r)),
     (''subject_id'', opt_cell Int_cell (ae_subject_id r)), (''result'', Text_cell (ae_result r)),
     (''correlation_id'', Text_cell (ae_correlation_id r)), (''occurred_at'', Time_cell (ae_occurred_at r))]"

definition message_cells :: "marketing_message \<Rightarrow> (string \<times> cell) list" where
  "message_cells r = [(''id'', Int_cell (m_id r)), (''user_id'', Int_cell (m_user_id r)), (''campaign'', Text_cell (m_campaign r)),
     (''status'', Text_cell (message_status_name (m_status r))), (''created_at'', Time_cell (m_created_at r)),
     (''processed_at'', opt_cell Time_cell (m_processed_at r))]"

definition analytics_cells :: "analytics_event \<Rightarrow> (string \<times> cell) list" where
  "analytics_cells r = [(''id'', Int_cell (an_id r)), (''user_id'', Int_cell (an_user_id r)), (''event_name'', Text_cell (an_event_name r)),
     (''occurred_at'', Time_cell (an_occurred_at r))]"

section \<open>Agreement and typing\<close>

lemma same_table_typed: "same_table a b \<Longrightarrow> table_takes t cells a = table_takes t cells b"
  by (simp add: same_table_def table_takes_def list_all_iff)

lemma same_schema_typed: "same_schema s s' \<Longrightarrow> row_typed s t cells = row_typed s' t cells"
  unfolding row_typed_def same_schema_def list_ex_iff list_all_iff using same_table_typed[of _ _ t cells] by blast

lemma head_reached: "exec_all head_upgrade empty_schema = Inr head_schema \<and> same_schema head_schema metadata"
proof -
  have "case exec_all head_upgrade empty_schema of Inr s \<Rightarrow> same_schema s metadata | Inl _ \<Rightarrow> False" by code_simp
  then show ?thesis by (simp add: head_schema_def split: sum.splits)
qed

lemmas head_upgrade_succeeds = head_reached[THEN conjunct1] and head_same = head_reached[THEN conjunct2]

lemma table_takes_name: "table_takes t cells (class_table m) \<Longrightarrow> mp_table m = t"
  by (simp add: table_takes_def class_table_def)

lemma class_typed:
  assumes "m \<in> set mapped_classes"
  shows "row_typed head_schema (mp_table m) cells =
     (set (map fst cells) = mc_name ` set (mp_columns m) \<and>
      list_all (\<lambda>c. case map_of cells (mc_name c) of None \<Rightarrow> False
        | Some x \<Rightarrow> cell_ok (column (mc_name c) (mc_type c) (mc_nullable c) (mc_server_default c)) x) (mp_columns m))"
proof -
  have "distinct (map mp_table mapped_classes)" by code_simp
  then have "m' = m" if "m' \<in> set mapped_classes" "mp_table m' = mp_table m" for m'
    using assms that by (auto simp: distinct_map inj_on_def)
  then have "row_typed metadata (mp_table m) cells = table_takes (mp_table m) cells (class_table m)"
    using assms by (fastforce simp: row_typed_def metadata_def list_ex_iff dest: table_takes_name)
  then show ?thesis
    by (simp add: same_schema_typed[OF head_same] class_table_def table_takes_def list_all_iff image_image)
qed

named_theorems column_simps "the columns of the mapped classes"

declare plain_def [column_simps] primary_key_def [column_simps] refers_def [column_simps] optional_def [column_simps]
  indexed_def [column_simps] single_def [column_simps] defaults_now_def [column_simps] text_enum_def [column_simps]

lemma opt_cell_ok:
  "cell_ok c (opt_cell f x) = (case x of None \<Rightarrow> nullable c | Some y \<Rightarrow> cell_ok c (f y))"
  by (simp add: opt_cell_def split: option.splits)

definition opt_int4 :: "int option \<Rightarrow> bool" where
  "opt_int4 x = (case x of None \<Rightarrow> True | Some n \<Rightarrow> int4 n)"

lemma typed_station: "row_typed head_schema ''stations'' (station_cells r) = (int4 (st_id r) \<and> station_fits r)"
proof -
  have "Station_class \<in> set mapped_classes" by (simp add: mapped_classes_def)
  from class_typed[OF this] show ?thesis
    by (auto simp: Station_class_def station_cells_def station_fits_def column_simps opt_cell_ok split: option.splits)
qed

lemma typed_renter: "row_typed head_schema ''renters'' (renter_cells r) = (int4 (rt_id r) \<and> opt_int4 (rt_user_id r) \<and> renter_fits r)"
proof -
  have "Renter_class \<in> set mapped_classes" by (simp add: mapped_classes_def)
  from class_typed[OF this] show ?thesis
    by (auto simp: Renter_class_def renter_cells_def renter_fits_def opt_int4_def column_simps opt_cell_ok split: option.splits)
qed

lemma typed_vehicle: "row_typed head_schema ''vehicles'' (vehicle_cells r) = (int4 (v_id r) \<and> int4 (v_station_id r) \<and> vehicle_fits r)"
proof -
  have "Vehicle_class \<in> set mapped_classes" by (simp add: mapped_classes_def)
  from class_typed[OF this] show ?thesis
    by (cases "v_status r") (auto simp: Vehicle_class_def vehicle_cells_def vehicle_fits_def column_simps opt_cell_ok split: option.splits)
qed

lemma typed_rental: "row_typed head_schema ''rentals'' (rental_cells r) = (int4 (r_id r) \<and> int4 (r_renter_id r) \<and> int4 (r_vehicle_id r) \<and> int4 (r_start_station_id r) \<and> opt_int4 (r_end_station_id r))"
proof -
  have "Rental_class \<in> set mapped_classes" by (simp add: mapped_classes_def)
  from class_typed[OF this] show ?thesis
    by (cases "r_status r") (auto simp: Rental_class_def rental_cells_def opt_int4_def column_simps opt_cell_ok split: option.splits)
qed

lemma typed_reading: "row_typed head_schema ''telemetry_readings'' (reading_cells r) = (- (2 ^ 63) \<le> tr_id r \<and> tr_id r < 2 ^ 63 \<and> int4 (tr_vehicle_id r))"
proof -
  have "TelemetryReading_class \<in> set mapped_classes" by (simp add: mapped_classes_def)
  from class_typed[OF this] show ?thesis
    by (auto simp: TelemetryReading_class_def reading_cells_def  column_simps opt_cell_ok split: option.splits)
qed

lemma typed_user: "row_typed head_schema ''users'' (user_cells r) = (int4 (u_id r) \<and> user_fits r)"
proof -
  have "User_class \<in> set mapped_classes" by (simp add: mapped_classes_def)
  from class_typed[OF this] show ?thesis
    by (cases "u_role r") (auto simp: User_class_def user_cells_def user_fits_def opt_width_def column_simps opt_cell_ok split: option.splits)
qed

lemma typed_consent: "row_typed head_schema ''user_consents'' (consent_cells r) = (int4 (c_id r) \<and> int4 (c_user_id r) \<and> consent_fits r)"
proof -
  have "UserConsent_class \<in> set mapped_classes" by (simp add: mapped_classes_def)
  from class_typed[OF this] show ?thesis
    by (cases "c_purpose r"; cases "c_status r") (auto simp: UserConsent_class_def consent_cells_def consent_fits_def purpose_value_def column_simps opt_cell_ok split: option.splits)
qed

lemma typed_history: "row_typed head_schema ''consent_history'' (history_cells r) = (int4 (h_id r) \<and> int4 (h_user_id r) \<and> history_fits r)"
proof -
  have "ConsentHistory_class \<in> set mapped_classes" by (simp add: mapped_classes_def)
  from class_typed[OF this] show ?thesis
    by (cases "h_purpose r"; cases "h_action r") (auto simp: ConsentHistory_class_def history_cells_def history_fits_def purpose_value_def column_simps opt_cell_ok split: option.splits)
qed

lemma typed_activity: "row_typed head_schema ''user_activity'' (activity_cells r) = (int4 (a_id r) \<and> int4 (a_user_id r) \<and> activity_fits r)"
proof -
  have "UserActivity_class \<in> set mapped_classes" by (simp add: mapped_classes_def)
  from class_typed[OF this] show ?thesis
    by (auto simp: UserActivity_class_def activity_cells_def activity_fits_def opt_width_def column_simps opt_cell_ok split: option.splits)
qed

lemma typed_audit: "row_typed head_schema ''audit_events'' (audit_cells r) = (int4 (ae_id r) \<and> opt_int4 (ae_actor_id r) \<and> opt_int4 (ae_subject_id r) \<and> audit_fits r)"
proof -
  have "AuditEvent_class \<in> set mapped_classes" by (simp add: mapped_classes_def)
  from class_typed[OF this] show ?thesis
    by (auto simp: AuditEvent_class_def audit_cells_def audit_fits_def opt_int4_def column_simps opt_cell_ok split: option.splits)
qed

lemma typed_message: "row_typed head_schema ''marketing_messages'' (message_cells r) = (int4 (m_id r) \<and> int4 (m_user_id r) \<and> message_fits r)"
proof -
  have "MarketingMessage_class \<in> set mapped_classes" by (simp add: mapped_classes_def)
  from class_typed[OF this] show ?thesis
    by (cases "m_status r") (auto simp: MarketingMessage_class_def message_cells_def message_fits_def column_simps opt_cell_ok split: option.splits)
qed

lemma typed_analytics: "row_typed head_schema ''analytics_events'' (analytics_cells r) = (int4 (an_id r) \<and> int4 (an_user_id r) \<and> analytics_fits r)"
proof -
  have "AnalyticsEvent_class \<in> set mapped_classes" by (simp add: mapped_classes_def)
  from class_typed[OF this] show ?thesis
    by (auto simp: AnalyticsEvent_class_def analytics_cells_def analytics_fits_def column_simps opt_cell_ok split: option.splits)
qed

section \<open>Properties\<close>

text \<open>
  C35: the migrations build the schema that the models declare. From an empty database the five revisions run through, each on
  the one before, and leave exactly the tables, columns with their types and nullability, keys, unique constraints, indexes and
  enumerations of \<open>models/*.py\<close>; only the order of columns and the names of constraints may differ.
\<close>

theorem migrations_match_models:
  "exec_all head_upgrade empty_schema = Inr head_schema \<and> same_schema head_schema metadata \<and>
   map down_revision revisions = None # map (\<lambda>r. Some (rev_id r)) (butlast revisions)"
  by (intro conjI head_upgrade_succeeds head_same) (simp add: revisions_def)

text \<open>
  C18: the rows of every table are typed by the migrated schema. A row written by the ORM is accepted column by column (type,
  width, nullability, enumeration members) exactly when its integers fit four bytes (a reading's id eight) and its strings
  the widths that the operations check on insertion.
\<close>

theorem rows_typed_by_schema:
  "row_typed head_schema ''stations'' (station_cells st) = (int4 (st_id st) \<and> station_fits st) \<and>
   row_typed head_schema ''renters'' (renter_cells rn) = (int4 (rt_id rn) \<and> opt_int4 (rt_user_id rn) \<and> renter_fits rn) \<and>
   row_typed head_schema ''vehicles'' (vehicle_cells ve) = (int4 (v_id ve) \<and> int4 (v_station_id ve) \<and> vehicle_fits ve) \<and>
   row_typed head_schema ''rentals'' (rental_cells re) = (int4 (r_id re) \<and> int4 (r_renter_id re) \<and> int4 (r_vehicle_id re) \<and> int4 (r_start_station_id re) \<and> opt_int4 (r_end_station_id re)) \<and>
   row_typed head_schema ''telemetry_readings'' (reading_cells tr) = (- (2 ^ 63) \<le> tr_id tr \<and> tr_id tr < 2 ^ 63 \<and> int4 (tr_vehicle_id tr)) \<and>
   row_typed head_schema ''users'' (user_cells us) = (int4 (u_id us) \<and> user_fits us) \<and>
   row_typed head_schema ''user_consents'' (consent_cells co) = (int4 (c_id co) \<and> int4 (c_user_id co) \<and> consent_fits co) \<and>
   row_typed head_schema ''consent_history'' (history_cells hi) = (int4 (h_id hi) \<and> int4 (h_user_id hi) \<and> history_fits hi) \<and>
   row_typed head_schema ''user_activity'' (activity_cells ac) = (int4 (a_id ac) \<and> int4 (a_user_id ac) \<and> activity_fits ac) \<and>
   row_typed head_schema ''audit_events'' (audit_cells au) = (int4 (ae_id au) \<and> opt_int4 (ae_actor_id au) \<and> opt_int4 (ae_subject_id au) \<and> audit_fits au) \<and>
   row_typed head_schema ''marketing_messages'' (message_cells me) = (int4 (m_id me) \<and> int4 (m_user_id me) \<and> message_fits me) \<and>
   row_typed head_schema ''analytics_events'' (analytics_cells an) = (int4 (an_id an) \<and> int4 (an_user_id an) \<and> analytics_fits an)"
  by (intro conjI typed_station typed_renter typed_vehicle typed_rental typed_reading typed_user typed_consent typed_history
      typed_activity typed_audit typed_message typed_analytics)

end
