(* ===== verification/Deployment.thy ===== *)
theory Deployment
  imports ModelSchema
begin

text \<open>
  \<open>alembic/env.py\<close>: several replicas of the service start at once and each runs \<open>alembic upgrade head\<close>. The run of
  one replica is split where the database is read and written, and the replicas interleave. Lemmas: behind the
  advisory lock none of them is refused by the database, and one that finishes leaves the last schema.
\<close>

section \<open>Replicas that start together\<close>

text \<open>
  \<open>alembic upgrade head\<close> goes from the recorded revision along \<open>down_revision\<close>; \<open>env.py\<close> runs it in one transaction behind a
  session lock that the end of the connection releases.
\<close>

fun upgrade_path :: "nat \<Rightarrow> revision list \<Rightarrow> string option \<Rightarrow> revision list" where
  "upgrade_path 0 rs cur = []"
| "upgrade_path (Suc n) rs cur = (case find (\<lambda>r. down_revision r = cur) rs of
       None \<Rightarrow> []
     | Some r \<Rightarrow> r # upgrade_path n rs (Some (rev_id r)))"

definition pending :: "string option \<Rightarrow> revision list" where
  "pending cur = upgrade_path (length revisions) revisions cur"

datatype replica_phase = Starting | Locked | Planned "revision list" | Migrated | Refused ddl_error | Crashed

record deployment =
  dp_revision :: "string option"
  dp_schema :: schema
  dp_lock :: "nat option"
  dp_phases :: "replica_phase list"

definition set_phase :: "nat \<Rightarrow> replica_phase \<Rightarrow> deployment \<Rightarrow> deployment" where
  "set_phase i p d = d\<lparr>dp_phases := (dp_phases d)[i := p]\<rparr>"

definition apply_pending :: "revision list \<Rightarrow> deployment \<Rightarrow> ddl_error + deployment" where
  "apply_pending rs d = (case exec_all (concat (map rev_upgrade rs)) (dp_schema d) of
       Inl e \<Rightarrow> Inl e
     | Inr s \<Rightarrow> Inr (d\<lparr>dp_schema := s, dp_revision := (if rs = [] then dp_revision d else Some (rev_id (last rs)))\<rparr>))"

text \<open>The steps of one replica, in any interleaving with the others; it may crash at any point before it is done.\<close>

inductive migrate_step :: "deployment \<Rightarrow> deployment \<Rightarrow> bool" where
  acquire: "\<lbrakk>i < length (dp_phases d); dp_phases d ! i = Starting; dp_lock d = None\<rbrakk> \<Longrightarrow>
     migrate_step d (set_phase i Locked (d\<lparr>dp_lock := Some i\<rparr>))"
| plan: "\<lbrakk>i < length (dp_phases d); dp_phases d ! i = Locked\<rbrakk> \<Longrightarrow>
     migrate_step d (set_phase i (Planned (pending (dp_revision d))) d)"
| commit: "\<lbrakk>i < length (dp_phases d); dp_phases d ! i = Planned rs; apply_pending rs d = Inr d'\<rbrakk> \<Longrightarrow>
     migrate_step d (set_phase i Migrated (d'\<lparr>dp_lock := None\<rparr>))"
| refuse: "\<lbrakk>i < length (dp_phases d); dp_phases d ! i = Planned rs; apply_pending rs d = Inl e\<rbrakk> \<Longrightarrow>
     migrate_step d (set_phase i (Refused e) (d\<lparr>dp_lock := None\<rparr>))"
| crash: "\<lbrakk>i < length (dp_phases d); dp_phases d ! i \<in> {Starting, Locked} \<union> range Planned\<rbrakk> \<Longrightarrow>
     migrate_step d (set_phase i Crashed (if dp_lock d = Some i then d\<lparr>dp_lock := None\<rparr> else d))"

text \<open>A database at the revision that the first \<open>k\<close> upgrades leave.\<close>

definition at_revision :: "nat \<Rightarrow> deployment \<Rightarrow> bool" where
  "at_revision k d =
     (k \<le> length revisions \<and> dp_revision d = (if k = 0 then None else Some (rev_id (revisions ! (k - 1)))) \<and>
      exec_all (concat (map rev_upgrade (take k revisions))) empty_schema = Inr (dp_schema d))"

definition launched :: "nat \<Rightarrow> nat \<Rightarrow> deployment \<Rightarrow> bool" where
  "launched k n d = (at_revision k d \<and> dp_lock d = None \<and> dp_phases d = replicate n Starting)"

lemma pending_at:
  assumes "k \<le> length revisions"
  shows "pending (if k = 0 then None else Some (rev_id (revisions ! (k - 1)))) = drop k revisions"
proof -
  have "k \<in> {0, 1, 2, 3, 4, 5}" using assms by (auto simp: revisions_def)
  then show ?thesis
    by (elim insertE emptyE) (simp_all add: pending_def revisions_def eval_nat_numeral)
qed

lemma apply_at:
  assumes "at_revision k d"
  shows "\<exists>d'. apply_pending (drop k revisions) d = Inr d' \<and> at_revision (length revisions) d' \<and> dp_phases d' = dp_phases d"
proof -
  have "exec_all (concat (map rev_upgrade (take k revisions)) @ concat (map rev_upgrade (drop k revisions))) empty_schema = Inr head_schema"
    using head_upgrade_succeeds unfolding head_upgrade_def concat_append[symmetric] map_append[symmetric] append_take_drop_id .
  then have s: "exec_all (concat (map rev_upgrade (drop k revisions))) (dp_schema d) = Inr head_schema"
    using assms by (simp add: exec_all_append at_revision_def)
  have l: "drop k revisions \<noteq> [] \<Longrightarrow> last (drop k revisions) = revisions ! (length revisions - 1)"
    by (simp add: last_conv_nth)
  have n: "length revisions \<noteq> 0" by (simp add: revisions_def)
  have "\<not> k < length revisions \<Longrightarrow> k = length revisions" using assms by (simp add: at_revision_def)
  then show ?thesis
    using assms l n head_upgrade_succeeds by (auto simp: apply_pending_def s at_revision_def head_upgrade_def)
qed


text \<open>While a replica works it holds the lock, so what it has planned is still what is pending.\<close>

fun phase_ok :: "deployment \<Rightarrow> nat \<Rightarrow> replica_phase \<Rightarrow> bool" where
  "phase_ok d i Locked = (dp_lock d = Some i)"
| "phase_ok d i (Planned rs) = (dp_lock d = Some i \<and> rs = pending (dp_revision d))"
| "phase_ok d i Migrated = (at_revision (length revisions) d \<and> dp_lock d \<noteq> Some i)"
| "phase_ok d i (Refused _) = False"
| "phase_ok d i _ = (dp_lock d \<noteq> Some i)"

definition replicas_ok :: "nat \<Rightarrow> deployment \<Rightarrow> bool" where
  "replicas_ok k d = ((at_revision k d \<or> at_revision (length revisions) d) \<and> (\<forall>i < length (dp_phases d). phase_ok d i (dp_phases d ! i)))"

lemma replicas_ok_update:
  assumes "replicas_ok k d" "dp_phases d' = (dp_phases d)[i := p]" "at_revision k d' \<or> at_revision (length revisions) d'"
    and "phase_ok d' i p" "\<And>j q. j \<noteq> i \<Longrightarrow> phase_ok d j q \<Longrightarrow> phase_ok d' j q"
  shows "replicas_ok k d'"
proof -
  have "phase_ok d' j ((dp_phases d)[i := p] ! j)" if "j < length (dp_phases d)" for j
    using assms(1,4,5) that by (cases "j = i") (simp_all add: replicas_ok_def)
  then show ?thesis using assms(2,3) by (simp add: replicas_ok_def)
qed

lemma replicas_ok_phase: "replicas_ok k d \<Longrightarrow> i < length (dp_phases d) \<Longrightarrow> phase_ok d i (dp_phases d ! i)"
  by (simp add: replicas_ok_def)

lemma replicas_ok_at: "replicas_ok k d \<Longrightarrow> at_revision k d \<or> at_revision (length revisions) d"
  by (simp add: replicas_ok_def)

inductive_cases migrate_stepE: "migrate_step d d'"

lemma at_revision_simps [simp]:
  "at_revision k (set_phase i p d) = at_revision k d" "at_revision k (d\<lparr>dp_lock := l\<rparr>) = at_revision k d"
  by (simp_all add: at_revision_def set_phase_def)

lemma set_phase_simps [simp]:
  "dp_phases (set_phase i p d) = (dp_phases d)[i := p]" "dp_lock (set_phase i p d) = dp_lock d"
  "dp_revision (set_phase i p d) = dp_revision d" "dp_schema (set_phase i p d) = dp_schema d"
  by (simp_all add: set_phase_def)

lemma pending_at_revision: "at_revision k d \<Longrightarrow> pending (dp_revision d) = drop k revisions"
  using pending_at[of k] by (simp add: at_revision_def)

lemma apply_pending_ok:
  assumes "replicas_ok k d"
  shows "\<exists>d'. apply_pending (pending (dp_revision d)) d = Inr d' \<and> at_revision (length revisions) d' \<and> dp_phases d' = dp_phases d"
  using assms apply_at[of _ d] pending_at_revision[of _ d] unfolding replicas_ok_def by metis

lemma replicas_step:
  assumes "replicas_ok k d" "migrate_step d d'"
  shows "replicas_ok k d'"
  using assms(2)
proof (cases rule: migrate_step.cases)
  case (acquire i)
  have "phase_ok d j q \<Longrightarrow> j \<noteq> i \<Longrightarrow> phase_ok d' j q" for j q using acquire by (cases q) simp_all
  then show ?thesis
    using replicas_ok_update[OF assms(1), of d' i Locked] replicas_ok_at[OF assms(1)] acquire by simp
next
  case (plan i)
  have "phase_ok d j q \<Longrightarrow> phase_ok d' j q" for j q using plan by (cases q) simp_all
  then show ?thesis
    using replicas_ok_update[OF assms(1), of d' i] replicas_ok_at[OF assms(1)] replicas_ok_phase[OF assms(1), of i] plan by simp
next
  case (commit i rs e)
  have "rs = pending (dp_revision d)" "dp_lock d = Some i" using replicas_ok_phase[OF assms(1) commit(2)] commit(3) by simp_all
  then have e: "at_revision (length revisions) e" "dp_phases e = dp_phases d"
    using apply_pending_ok[OF assms(1)] commit(4) by auto
  have "phase_ok d j q \<Longrightarrow> j \<noteq> i \<Longrightarrow> phase_ok d' j q" for j q
    using commit(1) e(1) \<open>dp_lock d = Some i\<close> by (cases q) simp_all
  then show ?thesis
    using replicas_ok_update[OF assms(1), of d' i Migrated] commit(1) e by simp
next
  case (refuse i rs e)
  then show ?thesis
    using replicas_ok_phase[OF assms(1) refuse(2)] apply_pending_ok[OF assms(1)] by auto
next
  case (crash i)
  have "phase_ok d j q \<Longrightarrow> j \<noteq> i \<Longrightarrow> phase_ok d' j q" for j q using crash(1) by (cases q) auto
  then show ?thesis
    using replicas_ok_update[OF assms(1), of d' i Crashed] replicas_ok_at[OF assms(1)] crash(1) by (auto split: if_splits)
qed

interpretation replicas: transition_system migrate_step "replicas_ok k" for k
  by unfold_locales (rule replicas_step)

lemma launched_ok: "launched k n d \<Longrightarrow> replicas_ok k d"
  by (auto simp: launched_def replicas_ok_def)

section \<open>Properties\<close>

text \<open>
  C19: replicas that start together migrate the database once. From any revision, whatever the interleaving and whichever
  replicas crash on the way, no migration is ever refused by the database (each is planned from the revision it is then
  applied to), at every moment the schema is the one at the start or the last one, and as soon as one replica is through it is the last.
  It is the advisory lock of \<open>alembic/env.py\<close> that orders them, of which the comment on the \<open>migrate\<close> service in \<open>docker-compose.yml\<close> says nothing.
\<close>

theorem replicas_migrate_once:
  assumes "launched k n d" "migrate_step\<^sup>*\<^sup>* d d'"
  shows "(at_revision k d' \<or> at_revision (length revisions) d') \<and>
    list_all (\<lambda>p. case p of Refused _ \<Rightarrow> False | Planned rs \<Rightarrow> rs = pending (dp_revision d') | _ \<Rightarrow> True) (dp_phases d') \<and>
    (if Migrated \<in> set (dp_phases d') then dp_schema d' = head_schema \<and> dp_revision d' = Some ''e1f4a7c9b2d6'' else True)"
proof -
  have ok: "replicas_ok k d'" using replicas.reach_inv[OF assms(2) launched_ok[OF assms(1)]] .
  have "case p of Refused _ \<Rightarrow> False | Planned rs \<Rightarrow> rs = pending (dp_revision d') | _ \<Rightarrow> True" if p: "p \<in> set (dp_phases d')" for p
  proof -
    obtain i where "i < length (dp_phases d')" "p = dp_phases d' ! i" using p by (auto simp: in_set_conv_nth)
    then have "phase_ok d' i p" using replicas_ok_phase[OF ok, of i] by simp
    then show ?thesis by (cases p) simp_all
  qed
  moreover have "dp_schema d' = head_schema \<and> dp_revision d' = Some ''e1f4a7c9b2d6''" if m: "Migrated \<in> set (dp_phases d')"
  proof -
    obtain i where "i < length (dp_phases d')" "dp_phases d' ! i = Migrated" using m by (auto simp: in_set_conv_nth)
    then have "at_revision (length revisions) d'" using replicas_ok_phase[OF ok, of i] by simp
    then show ?thesis using head_upgrade_succeeds by (simp add: at_revision_def head_upgrade_def) (simp add: revisions_def)
  qed
  ultimately show ?thesis using replicas_ok_at[OF ok] by (simp add: list_all_iff)
qed

theorem replicas_migrate_once_witness:
  "\<exists>d d'. launched 0 2 d \<and> migrate_step\<^sup>*\<^sup>* d d' \<and> dp_phases d' = [Migrated, Starting] \<and> dp_schema d' = head_schema"
proof -
  let ?d = "\<lparr>dp_revision = None, dp_schema = empty_schema, dp_lock = None, dp_phases = [Starting, Starting]\<rparr>"
  have l: "launched 0 2 ?d" by (simp add: launched_def at_revision_def eval_nat_numeral)
  let ?d1 = "set_phase 0 Locked (?d\<lparr>dp_lock := Some 0\<rparr>)"
  let ?d2 = "set_phase 0 (Planned (pending (dp_revision ?d1))) ?d1"
  have s1: "migrate_step ?d ?d1" by (rule migrate_step.acquire) simp_all
  have s2: "migrate_step ?d1 ?d2" by (rule migrate_step.plan) simp_all
  have two: "migrate_step\<^sup>*\<^sup>* ?d ?d2" by (rule converse_rtranclp_into_rtranclp[OF s1 r_into_rtranclp[of migrate_step, OF s2]])
  have ok: "replicas_ok 0 ?d2" by (rule replicas.reach_inv[OF two launched_ok[OF l]])
  obtain e where e: "apply_pending (pending (dp_revision ?d2)) ?d2 = Inr e" "dp_phases e = dp_phases ?d2"
    using apply_pending_ok[OF ok] by blast
  let ?d3 = "set_phase 0 Migrated (e\<lparr>dp_lock := None\<rparr>)"
  have "migrate_step ?d2 ?d3" by (rule migrate_step.commit[OF _ _ e(1)]) simp_all
  with two have r: "migrate_step\<^sup>*\<^sup>* ?d ?d3" by (rule rtranclp.rtrancl_into_rtrancl)
  have p: "dp_phases ?d3 = [Migrated, Starting]" by (simp add: e(2))
  have "dp_schema ?d3 = head_schema" using replicas_migrate_once[OF l r] unfolding p by simp
  then show ?thesis using l r p by blast
qed

end
