(* ===== verification/QualityTools.thy ===== *)
theory QualityTools
  imports Models PyFloat Regex "HOL-Library.Product_Lexorder" "HOL-Library.Multiset"
begin

text \<open>
  The quality tools under \<open>scripts/\<close>: the balanced gate on coverage and mutation score, the complexity gate of the
  pre-commit hook, the hotspot matrix and the complexity of control-flow graphs. The JSON reports they read are data;
  radon and git are parameters. Lemmas: the float thresholds decide exactly, tests without assertions only
  lower the score, no nested function escapes the complexity gate, and the matrix lists each file once by risk.
\<close>

section \<open>Balanced quality gate\<close>

definition MIN_LINE_COVERAGE :: rat where "MIN_LINE_COVERAGE = 90"
definition MIN_MUTATION_SCORE :: rat where "MIN_MUTATION_SCORE = 75"

record file_summary =
  covered_lines :: int
  num_statements :: int

record mutation_stats =
  ms_total :: int
  ms_killed :: int
  ms_survived :: int
  ms_no_tests :: int
  ms_timeout :: int

text \<open>\<open>100.0 * n / d\<close> on Python numbers.\<close>

definition percent_of :: "int \<Rightarrow> int \<Rightarrow> rat result" where
  "percent_of n d = (if d = 0 then Inl ZeroDivisionError else Inr (fl (fl (100 * fl (of_int n)) / fl (of_int d))))"

fun add_summaries :: "(string \<times> file_summary) list \<Rightarrow> string list \<Rightarrow> int \<times> int \<Rightarrow> (int \<times> int) result" where
  "add_summaries files [] acc = Inr acc"
| "add_summaries files (path # scope) (covered, statements) = (case map_of files path of
       None \<Rightarrow> Inl (KeyError path)
     | Some s \<Rightarrow> add_summaries files scope (covered + covered_lines s, statements + num_statements s))"

definition line_coverage :: "(string \<times> file_summary) list \<Rightarrow> string list \<Rightarrow> rat result" where
  "line_coverage files scope = bind_result (add_summaries files scope (0, 0)) (\<lambda>(covered, statements). percent_of covered statements)"

definition executed :: "mutation_stats \<Rightarrow> int" where
  "executed stats = ms_killed stats + ms_survived stats + ms_timeout stats"

definition mutation_score :: "mutation_stats \<Rightarrow> rat result" where
  "mutation_score stats = percent_of (ms_killed stats) (executed stats)"

text \<open>The exit status.\<close>

definition quality_gate :: "(string \<times> file_summary) list \<Rightarrow> string list \<Rightarrow> mutation_stats \<Rightarrow> int result" where
  "quality_gate files scope stats =
     bind_result (line_coverage files scope) (\<lambda>coverage.
     bind_result (mutation_score stats) (\<lambda>score.
       Inr (if MIN_LINE_COVERAGE \<le> coverage \<and> MIN_MUTATION_SCORE \<le> score then 0 else 1)))"

section \<open>Complexity gate\<close>

definition LIMIT :: int where "LIMIT = 10"

text \<open>A block of radon's report; \<open>get\<close> with a default makes a missing list empty.\<close>

datatype block = Block (b_type: string) (b_name: string) (b_lineno: int) (b_complexity: int) (b_rank: string)
  (b_methods: "block list") (b_closures: "block list")

fun walk_blocks :: "block list \<Rightarrow> block list" where
  "walk_blocks [] = []"
| "walk_blocks (Block ty n l c r ms cs # bs) =
     (if ty \<noteq> ''class'' then [Block ty n l c r ms cs] else []) @ walk_blocks (ms @ cs) @ walk_blocks bs"

datatype radon_entry = Blocks "block list" | Unparsable string

definition problem_text :: "string \<Rightarrow> block \<Rightarrow> string" where
  "problem_text file b = file @ '':'' @ str_int (b_lineno b) @ '' '' @ b_name b @ ''() has CC='' @ str_int (b_complexity b) @
     '' (rank '' @ b_rank b @ ''), limit is '' @ str_int LIMIT"

fun file_problems :: "string \<times> radon_entry \<Rightarrow> string list" where
  "file_problems (file, Unparsable error) = [file @ '': cannot analyse ('' @ error @ '')'']"
| "file_problems (file, Blocks bs) = map (problem_text file) (filter (\<lambda>b. LIMIT < b_complexity b) (walk_blocks bs))"

definition find_problems :: "(string \<times> radon_entry) list \<Rightarrow> string list" where
  "find_problems report = concat (map file_problems report)"

definition complexity_gate :: "(string list \<Rightarrow> (string \<times> radon_entry) list result) \<Rightarrow> string list \<Rightarrow> int result" where
  "complexity_gate run_radon files =
     (if files = [] then Inr 0
      else bind_result (run_radon files) (\<lambda>report. Inr (if find_problems report = [] then 0 else 1)))"

section \<open>Hotspots\<close>

record file_risk =
  fr_file :: string
  fr_total_cc :: int
  fr_max_cc :: int
  fr_churn :: int
  fr_category :: string

definition classify :: "int \<Rightarrow> int \<Rightarrow> int \<Rightarrow> int \<Rightarrow> string" where
  "classify total_cc churn cc_threshold churn_threshold =
     (case (cc_threshold \<le> total_cc, churn_threshold \<le> churn) of
        (True, True) \<Rightarrow> ''Hotspot'' | (True, False) \<Rightarrow> ''Sleeping'' | (False, True) \<Rightarrow> ''Active'' | (False, False) \<Rightarrow> ''Stable'')"

definition zone :: "file_risk \<Rightarrow> string" where
  "zone r = (if fr_category r = ''Hotspot'' then ''red'' else if fr_category r = ''Sleeping'' then ''yellow''
     else if fr_category r = ''Active'' then ''green'' else ''grey'')"

definition posix_path :: "string \<Rightarrow> string" where
  "posix_path p = (let q = map (\<lambda>c. if c = CHR 0x5C then CHR ''/'' else c) p in if take 2 q = ''./'' then drop 2 q else q)"

text \<open>A dict built from pairs: a later pair replaces the value of an earlier one with its key.\<close>

definition dict_of :: "('k \<times> 'v) list \<Rightarrow> ('k \<times> 'v) list" where
  "dict_of kvs = fold (\<lambda>(k, v). dict_put k v) kvs []"

definition read_complexity :: "(string \<times> int list) list \<Rightarrow> (string \<times> int \<times> int) list" where
  "read_complexity report = map (\<lambda>(path, cc). (path, sum_list cc, if cc = [] then 0 else Max (set cc)))
     (dict_of (map (\<lambda>(path, cc). (posix_path path, cc)) report))"

definition read_churn :: "string list \<Rightarrow> (string \<times> int) list" where
  "read_churn log_lines = (let names = filter (\<lambda>l. l \<noteq> []) log_lines
     in map (\<lambda>n. (n, int (length (filter (\<lambda>m. m = n) names)))) (remdups names))"

definition churn_of :: "(string \<times> int) list \<Rightarrow> string \<Rightarrow> int" where
  "churn_of churn path = (case map_of churn path of None \<Rightarrow> 0 | Some n \<Rightarrow> n)"

definition risk_key :: "file_risk \<Rightarrow> int \<times> int" where
  "risk_key r = (fr_total_cc r * fr_churn r, fr_total_cc r)"

text \<open>\<open>sorted(..., reverse=True)\<close> keeps the order of equal keys.\<close>

definition build_matrix :: "(string \<times> int \<times> int) list \<Rightarrow> (string \<times> int) list \<Rightarrow> int \<Rightarrow> int \<Rightarrow> file_risk list" where
  "build_matrix complexity churn cc_threshold churn_threshold =
     (let table_rows = map (\<lambda>(path, total_cc, peak). \<lparr>fr_file = path, fr_total_cc = total_cc, fr_max_cc = peak, fr_churn = churn_of churn path,
        fr_category = classify total_cc (churn_of churn path) cc_threshold churn_threshold\<rparr>) complexity
      in rev (sort_key risk_key (rev table_rows)))"

definition join_lines :: "string list \<Rightarrow> string" where
  "join_lines ls = (case ls of [] \<Rightarrow> [] | l # ms \<Rightarrow> l @ concat (map (\<lambda>m. CHR 0x0A # m) ms))"

definition to_markdown :: "file_risk list \<Rightarrow> int \<Rightarrow> int \<Rightarrow> string" where
  "to_markdown table_rows cc_threshold churn_threshold =
     join_lines ([''Thresholds: total CC >= '' @ str_int cc_threshold @ '' is complex; churn >= '' @ str_int churn_threshold @ '' is volatile.'',
       [], ''| File | Total CC | Max CC | Commits (window) | Category |'', ''|---|---:|---:|---:|---|''] @
       map (\<lambda>r. ''| `'' @ fr_file r @ ''` | '' @ str_int (fr_total_cc r) @ '' | '' @ str_int (fr_max_cc r) @ '' | '' @ str_int (fr_churn r) @
         '' | '' @ fr_category r @ '' ('' @ zone r @ '') |'') table_rows) @ [CHR 0x0A]"

definition hotspots :: "(string \<times> int list) list \<Rightarrow> string list \<Rightarrow> int \<Rightarrow> int \<Rightarrow> file_risk list" where
  "hotspots report log_lines cc_threshold churn_threshold =
     build_matrix (read_complexity report) (read_churn log_lines) cc_threshold churn_threshold"

section \<open>Control-flow graphs\<close>

definition EDGE :: re where
  "EDGE = seqs [Star (Cls is_space), Group 1 (plus (Cls word_char)), Star (Cls is_space), alts [lit ''-->'', lit ''-.->''],
     opt (seqs [Cls (\<lambda>c. c = CHR ''|''), Star (Cls (\<lambda>c. c \<noteq> CHR ''|'')), Cls (\<lambda>c. c = CHR ''|'')]),
     Star (Cls is_space), Group 2 (plus (Cls word_char)), Star (Cls is_space), Not_ahead (\<lambda>_. True)]"

definition parse_edges :: "string list \<Rightarrow> (string \<times> string) list" where
  "parse_edges body_lines = List.map_filter (\<lambda>l. map_option (\<lambda>st. (group (mcaps st) 1, group (mcaps st) 2)) (match_at EDGE [] l)) body_lines"

definition cyclomatic_complexity :: "(string \<times> string) list \<Rightarrow> int \<times> int \<times> int" where
  "cyclomatic_complexity edges = (let nodes = remdups (concat (map (\<lambda>(a, b). [a, b]) edges))
     in (int (length edges), int (length nodes), int (length edges) - int (length nodes) + 2))"

section \<open>The thresholds\<close>

lemma percent_of_eq:
  assumes "0 < d" "0 \<le> n" "n < 2 ^ 44" "d < 2 ^ 44"
  shows "percent_of n d = Inr (fl (of_int (100 * n) / of_int d))"
proof -
  have "fl (100 * fl (of_int n)) = of_int (100 * n)"
    using fl_of_int[of n] fl_of_int[of "100 * n"] assms by simp
  then show ?thesis using fl_of_int[of d] assms by (simp add: percent_of_def)
qed

text \<open>A quotient below an integer threshold stays below it by more than half a unit in the last place.\<close>

lemma fl_quotient_ge:
  assumes "0 < d" "0 \<le> n" "d < 2 ^ 44" "0 \<le> t" "t \<le> 100"
  shows "of_int t \<le> fl (of_int n / of_int d) \<longleftrightarrow> t * d \<le> n"
proof
  assume "t * d \<le> n"
  then have "(of_int t :: rat) * of_int d \<le> of_int n" by (metis of_int_le_iff of_int_mult)
  then have "(of_int t :: rat) \<le> of_int n / of_int d" using assms(1) by (simp add: pos_le_divide_eq)
  moreover have "fl (of_int t) = of_int t" using fl_of_int[of t] assms(4,5) by simp
  ultimately show "of_int t \<le> fl (of_int n / of_int d)" by (rule fl_ge_float)
next
  assume ge: "of_int t \<le> fl (of_int n / of_int d)"
  show "t * d \<le> n"
  proof (rule ccontr)
    assume "\<not> t * d \<le> n"
    then have "n + 1 \<le> t * d" by simp
    then have "(of_int n :: rat) + 1 \<le> of_int t * of_int d" by (metis of_int_1 of_int_add of_int_le_iff of_int_mult)
    moreover have d: "(0 :: rat) < of_int d" using assms(1) by simp
    ultimately have "(of_int n + 1) / of_int d \<le> (of_int t :: rat)" by (simp add: pos_divide_le_eq)
    then have below: "of_int n / of_int d + 1 / of_int d \<le> (of_int t :: rat)" by (simp add: add_divide_distrib)
    have "d \<le> 2 ^ 44" using assms(3) by simp
    then have "(of_int d :: rat) \<le> 2 ^ 44" by (metis of_int_le_iff of_int_numeral of_int_power)
    then have gap: "1 / 2 ^ 44 \<le> (1 / of_int d :: rat)" using d by (intro divide_left_mono) simp_all
    have "0 \<le> (of_int n / of_int d :: rat)" using assms(1,2) by simp
    then have up: "fl (of_int n / of_int d) \<le> of_int n / of_int d + of_int n / of_int d / 2 ^ 53"
      using fl_error[of "of_int n / of_int d"] by (simp only: abs_le_iff abs_of_nonneg) linarith
    have "(of_int t :: rat) \<le> 100" using assms(5) by (metis of_int_le_numeral_iff)
    moreover have "(0 :: rat) < 1 / of_int d" using d by simp
    ultimately have "(of_int n / of_int d :: rat) \<le> 100" using below by linarith
    then have "of_int n / of_int d / 2 ^ 53 \<le> (100 / 2 ^ 53 :: rat)" by (intro divide_right_mono) simp_all
    moreover have "(100 / 2 ^ 53 :: rat) < 1 / 2 ^ 44" by simp
    ultimately show False using up below gap ge by linarith
  qed
qed

lemma fl_less:
  assumes "0 \<le> x" "x < y" "(x + y) / 2 ^ 53 < y - x"
  shows "fl x < fl y"
proof -
  have "fl x \<le> x + x / 2 ^ 53" using fl_error[of x] assms(1) by (simp only: abs_le_iff abs_of_nonneg) linarith
  moreover have "y - y / 2 ^ 53 \<le> fl y" using fl_lower[of y] assms(1,2) by simp
  ultimately show ?thesis using assms(3) by (simp add: add_divide_distrib)
qed

text \<open>More executed mutants with as many killed: the score falls, also after rounding.\<close>

lemma score_falls:
  assumes "0 < n" "n \<le> d" "0 < k" "d + k < 2 ^ 44"
  shows "fl (of_int (100 * n) / of_int (d + k)) < fl (of_int (100 * n) / of_int d)"
proof (rule fl_less)
  let ?x = "of_int (100 * n) / of_int (d + k) :: rat" and ?y = "of_int (100 * n) / of_int d :: rat"
  have pos: "(0 :: rat) < of_int d" "(0 :: rat) < of_int (d + k)" "(0 :: rat) < of_int (100 * n)" using assms by simp_all
  show "0 \<le> ?x" using pos by simp
  have diff: "?y - ?x = ?y * (of_int k / of_int (d + k))" using pos by (simp add: field_simps)
  have y: "0 < ?y" using pos by simp
  have "(of_int (d + k) :: rat) \<le> 2 ^ 44" using assms(4) by (metis less_imp_le of_int_le_iff of_int_numeral of_int_power)
  then have "1 / 2 ^ 44 \<le> (1 / of_int (d + k) :: rat)" using pos by (intro divide_left_mono) simp_all
  also have "\<dots> \<le> of_int k / of_int (d + k)" using pos assms(3) by (intro divide_right_mono) simp_all
  finally have q: "1 / 2 ^ 44 \<le> (of_int k / of_int (d + k) :: rat)" .
  then have gap: "?y / 2 ^ 44 \<le> ?y - ?x" unfolding diff using mult_left_mono[OF q, of ?y] y by simp
  have "0 < ?y / 2 ^ 44" using y by simp
  then show less: "?x < ?y" using gap by linarith
  have "(?x + ?y) / 2 ^ 53 < (2 * ?y) / 2 ^ 53" using less by (intro divide_strict_right_mono) simp_all
  also have "\<dots> < ?y / 2 ^ 44" using y by simp
  finally show "(?x + ?y) / 2 ^ 53 < ?y - ?x" using gap by linarith
qed

section \<open>Nested blocks\<close>

text \<open>A block somewhere in a report: listed, or among the methods and closures of one that is.\<close>

inductive inside :: "block \<Rightarrow> block list \<Rightarrow> bool" where
  listed: "b \<in> set bs \<Longrightarrow> inside b bs"
| nested: "inside b (b_methods c @ b_closures c) \<Longrightarrow> c \<in> set bs \<Longrightarrow> inside b bs"

inductive_simps inside_Nil: "inside b []"

lemma inside_mono: "inside b bs \<Longrightarrow> set bs \<subseteq> set bs' \<Longrightarrow> inside b bs'"
  by (cases rule: inside.cases) (auto intro: inside.intros)

lemma inside_Cons: "inside b (c # bs) \<longleftrightarrow> b = c \<or> inside b (b_methods c @ b_closures c) \<or> inside b bs"
proof
  assume "inside b (c # bs)"
  then show "b = c \<or> inside b (b_methods c @ b_closures c) \<or> inside b bs"
    by (cases rule: inside.cases) (auto intro: inside.intros)
next
  assume "b = c \<or> inside b (b_methods c @ b_closures c) \<or> inside b bs"
  then show "inside b (c # bs)"
    using inside_mono[of b bs "c # bs"] by (auto intro: inside.intros)
qed

lemma walk_blocks_inside: "b \<in> set (walk_blocks bs) \<longleftrightarrow> inside b bs \<and> b_type b \<noteq> ''class''"
proof (induction bs rule: walk_blocks.induct)
  case 1
  then show ?case by (simp add: inside_Nil)
next
  case (2 ty n l c r ms cs bs)
  then show ?case by (auto simp: inside_Cons)
qed

lemma find_problems_empty:
  "find_problems report = [] \<longleftrightarrow>
     list_all (\<lambda>(f, entry). case entry of Unparsable _ \<Rightarrow> False
       | Blocks bs \<Rightarrow> \<forall>b. inside b bs \<and> b_type b \<noteq> ''class'' \<longrightarrow> b_complexity b \<le> LIMIT) report"
proof -
  have "file_problems (f, entry) = [] \<longleftrightarrow> (case entry of Unparsable _ \<Rightarrow> False
      | Blocks bs \<Rightarrow> \<forall>b. inside b bs \<and> b_type b \<noteq> ''class'' \<longrightarrow> b_complexity b \<le> LIMIT)" for f entry
    by (cases entry) (auto simp: filter_empty_conv walk_blocks_inside not_less)
  then show ?thesis by (induction report) (auto simp: find_problems_def)
qed

section \<open>The matrix\<close>

lemma build_matrix_files:
  "mset (map fr_file (build_matrix complexity churn cc_t churn_t)) = mset (map fst complexity)"
proof -
  have "fr_file \<circ> (\<lambda>(path, total_cc, peak). \<lparr>fr_file = path, fr_total_cc = total_cc, fr_max_cc = peak, fr_churn = churn_of churn path,
      fr_category = classify total_cc (churn_of churn path) cc_t churn_t\<rparr>) = fst"
    by auto
  then show ?thesis by (simp add: build_matrix_def Let_def multiset.map_comp)
qed

lemma build_matrix_sorted: "sorted_wrt (\<lambda>a b. risk_key b \<le> risk_key a) (build_matrix complexity churn cc_t churn_t)"
proof -
  have "sorted_wrt (\<lambda>a b. risk_key a \<le> risk_key b) (sort_key risk_key xs)" for xs
    using sorted_sort_key[of risk_key xs] by (simp add: sorted_wrt_map)
  then show ?thesis by (simp add: build_matrix_def Let_def sorted_wrt_rev)
qed

lemma cc_complete:
  "set (build_matrix complexity churn cc_t churn_t) =
   (\<lambda>(path, total_cc, peak). \<lparr>fr_file = path, fr_total_cc = total_cc, fr_max_cc = peak, fr_churn = churn_of churn path,
      fr_category = classify total_cc (churn_of churn path) cc_t churn_t\<rparr>) ` set complexity"
  by (simp add: build_matrix_def Let_def)

section \<open>Properties\<close>

text \<open>
  The balanced gate decides exactly, and tests without assertions cannot buy it. With counts below \<open>2^44\<close> the comparison of the
  rounded percentages agrees with the rational one at both thresholds; and when \<open>k\<close> mutants that no test ran become executed survivors,
  the computed mutation score strictly falls, rounding included.
\<close>

lemma quality_gate_exact:
  assumes "add_summaries files scope (0, 0) = Inr (covered, statements)"
    and "0 \<le> covered" "covered < 2 ^ 44" "0 < statements" "statements < 2 ^ 44"
    and "0 \<le> ms_survived stats" "0 \<le> ms_timeout stats" "0 < ms_killed stats" "0 < k" "executed stats + k < 2 ^ 44"
  shows "quality_gate files scope stats =
      Inr (if 90 * statements \<le> 100 * covered \<and> 75 * executed stats \<le> 100 * ms_killed stats then 0 else 1) \<and>
    (\<exists>before after. mutation_score stats = Inr before \<and>
      mutation_score (stats\<lparr>ms_survived := ms_survived stats + k, ms_no_tests := ms_no_tests stats - k\<rparr>) = Inr after \<and> after < before)"
proof -
  let ?e = "executed stats" and ?n = "ms_killed stats"
  let ?stats = "stats\<lparr>ms_survived := ms_survived stats + k, ms_no_tests := ms_no_tests stats - k\<rparr>"
  have e: "?n \<le> ?e" "0 < ?e" "?e < 2 ^ 44" "?n < 2 ^ 44" using assms(6-10) by (simp_all add: executed_def)
  have c: "line_coverage files scope = Inr (fl (of_int (100 * covered) / of_int statements))"
    using percent_of_eq[OF assms(4,2,3,5)] assms(1) by (simp add: line_coverage_def)
  have m: "mutation_score stats = Inr (fl (of_int (100 * ?n) / of_int ?e))"
    using percent_of_eq[OF e(2) _ e(4,3)] assms(8) by (simp add: mutation_score_def)
  have e': "executed ?stats = ?e + k" by (simp add: executed_def)
  have m': "mutation_score ?stats = Inr (fl (of_int (100 * ?n) / of_int (?e + k)))"
    using percent_of_eq[of "?e + k" ?n] e assms(8-10) unfolding mutation_score_def e' by simp
  have "(90 \<le> fl (of_int (100 * covered) / of_int statements :: rat)) = (90 * statements \<le> 100 * covered)"
    using fl_quotient_ge[of statements "100 * covered" 90] assms(2,4,5) by simp
  moreover have "(75 \<le> fl (of_int (100 * ?n) / of_int ?e :: rat)) = (75 * ?e \<le> 100 * ?n)"
    using fl_quotient_ge[of ?e "100 * ?n" 75] assms(8) e by simp
  ultimately have "quality_gate files scope stats = Inr (if 90 * statements \<le> 100 * covered \<and> 75 * ?e \<le> 100 * ?n then 0 else 1)"
    by (simp only: quality_gate_def c m bind_result_simps MIN_LINE_COVERAGE_def MIN_MUTATION_SCORE_def)
  then show ?thesis using m m' score_falls[OF assms(8) e(1) assms(9,10)] by blast
qed

text \<open>
  The complexity gate lets nothing through. It passes exactly when no file is staged or radon read every file and no function or
  method, however deep among methods and closures, has a complexity above 10; otherwise the commit is blocked.
\<close>

lemma complexity_gate_exact:
  assumes "run_radon files = Inr report"
  shows "complexity_gate run_radon files =
    Inr (if files = [] \<or> list_all (\<lambda>(f, entry). case entry of Unparsable _ \<Rightarrow> False
       | Blocks bs \<Rightarrow> \<forall>b. inside b bs \<and> b_type b \<noteq> ''class'' \<longrightarrow> b_complexity b \<le> 10) report then 0 else 1)"
  using assms find_problems_empty[of report] by (simp add: complexity_gate_def LIMIT_def)

end
