(* ===== verification/LoadReport.thy ===== *)
theory LoadReport
  imports Models PyFloat "HOL-Library.Multiset" "HOL-Library.List_Lexorder" "HOL-Library.Char_ord"
begin

text \<open>
  \<open>loadtest/report.py\<close> and \<open>loadtest/compare.py\<close>: a k6 run read back from its CSV rows, its statistics in binary64
  arithmetic, the time line, the load steps and the tables of the report. The charts are in \<open>Charts\<close>; the parsing of the CSV
  file is left out: rows are given with their fields converted. Lemmas: requests are read
  back with their own failure flags, the percentile is the nearest rank, the time line loses no request.
\<close>

section \<open>Reading a run\<close>

record k6_row =
  k6_metric :: string
  k6_timestamp :: rat
  k6_name :: string
  k6_value :: rat

record sample =
  sa_ts :: int
  sa_name :: string
  sa_ms :: rat
  sa_failed :: int

text \<open>\<open>int(x)\<close> of a float: towards zero.\<close>

definition py_trunc :: "rat \<Rightarrow> int" where
  "py_trunc x = (if x < 0 then \<lceil>x\<rceil> else \<lfloor>x\<rfloor>)"

record k6_state =
  ks_durations :: "(int \<times> string \<times> rat) list"
  ks_failures :: "int list"
  ks_vus :: "(int \<times> rat) list"

definition read_row :: "k6_row \<Rightarrow> k6_state \<Rightarrow> k6_state" where
  "read_row r st =
     (let ts = py_trunc (k6_timestamp r) in
      if k6_metric r = ''vus'' then st\<lparr>ks_vus := dict_put ts (k6_value r) (ks_vus st)\<rparr>
      else if k6_name r = ''setup'' then st
      else if k6_metric r = ''http_req_duration'' then st\<lparr>ks_durations := ks_durations st @ [(ts, k6_name r, k6_value r)]\<rparr>
      else if k6_metric r = ''http_req_failed'' then st\<lparr>ks_failures := ks_failures st @ [py_trunc (k6_value r)]\<rparr>
      else st)"

definition load_k6 :: "k6_row list \<Rightarrow> (sample list \<times> (int \<times> rat) list) result" where
  "load_k6 csv =
     (let st = fold read_row csv \<lparr>ks_durations = [], ks_failures = [], ks_vus = []\<rparr> in
      if length (ks_durations st) \<noteq> length (ks_failures st)
      then Inl (ValueError (str_nat (length (ks_durations st)) @ '' durations vs '' @ str_nat (length (ks_failures st)) @ '' failure flags''))
      else Inr (map (\<lambda>((ts, n, ms), failed). \<lparr>sa_ts = ts, sa_name = n, sa_ms = ms, sa_failed = failed\<rparr>)
             (zip (ks_durations st) (ks_failures st)), ks_vus st))"

section \<open>Statistics\<close>

text \<open>\<open>math.ceil(p / 100 * len(values)) - 1\<close>, at least 0; a rank past the end raises.\<close>

definition percentile :: "rat list \<Rightarrow> int \<Rightarrow> rat result" where
  "percentile vals p =
     (if vals = [] then Inr 0
      else let ordered = sort vals;
               rank = max (\<lceil>fl (fl (of_int p / 100) * fl (of_int (int (length ordered))))\<rceil> - 1) 0
           in if nat rank < length ordered then Inr (ordered ! nat rank) else Inl IndexError)"

record stats =
  sx_requests :: int
  sx_rps :: rat
  sx_avg :: rat
  sx_min :: rat
  sx_max :: rat
  sx_p95 :: rat
  sx_errors :: rat

definition summarize :: "sample list \<Rightarrow> int \<Rightarrow> stats result" where
  "summarize samples seconds =
     (let durations = map sa_ms samples; n = of_int (int (length samples)) in
      bind_result (percentile durations 95) (\<lambda>p95. Inr
        \<lparr>sx_requests = int (length samples),
         sx_rps = (if seconds \<noteq> 0 then fl (n / of_int seconds) else 0),
         sx_avg = (if durations \<noteq> [] then fl (py_sum durations / n) else 0),
         sx_min = (if durations = [] then 0 else Min (set durations)),
         sx_max = (if durations = [] then 0 else Max (set durations)),
         sx_p95 = p95,
         sx_errors = (if samples \<noteq> [] then fl (fl (of_int (sum_list (map sa_failed samples)) / n) * 100) else 0)\<rparr>))"

definition BUCKET_SECONDS :: int where "BUCKET_SECONDS = 5"

fun group_by :: "('a \<Rightarrow> 'k) \<Rightarrow> 'a list \<Rightarrow> ('k \<times> 'a list) list \<Rightarrow> ('k \<times> 'a list) list" where
  "group_by f [] d = d"
| "group_by f (x # xs) d = group_by f xs (dict_put (f x) ((case map_of d (f x) of None \<Rightarrow> [] | Some ys \<Rightarrow> ys) @ [x]) d)"

record bucket =
  bk_t :: int
  bk_stats :: stats
  bk_vus :: rat
  bk_errors_per_s :: rat

fun map_result :: "('a \<Rightarrow> 'b result) \<Rightarrow> 'a list \<Rightarrow> 'b list result" where
  "map_result f [] = Inr []"
| "map_result f (x # xs) = bind_result (f x) (\<lambda>y. bind_result (map_result f xs) (\<lambda>ys. Inr (y # ys)))"

definition one_bucket :: "(int \<times> sample list) list \<Rightarrow> (int \<times> rat) list \<Rightarrow> int \<Rightarrow> int \<Rightarrow> bucket result" where
  "one_bucket grouped vus start index =
     (let items = (case map_of grouped index of None \<Rightarrow> [] | Some xs \<Rightarrow> xs);
          t0 = start + index * BUCKET_SECONDS;
          window_vus = List.map_filter (map_of vus) [t0 .. t0 + BUCKET_SECONDS - 1]
      in bind_result (summarize items BUCKET_SECONDS) (\<lambda>st. Inr
           \<lparr>bk_t = index * BUCKET_SECONDS, bk_stats = st, bk_vus = (if window_vus = [] then 0 else Max (set window_vus)),
            bk_errors_per_s = fl (of_int (sum_list (map sa_failed items)) / of_int BUCKET_SECONDS)\<rparr>))"

definition buckets :: "sample list \<Rightarrow> (int \<times> rat) list \<Rightarrow> int \<Rightarrow> bucket list result" where
  "buckets samples vus start =
     (let grouped = group_by (\<lambda>r. (sa_ts r - start) div BUCKET_SECONDS) samples [];
          last_index = (if grouped = [] then -1 else Max (set (map fst grouped)))
      in map_result (one_bucket grouped vus start) [0 .. last_index])"

section \<open>The report\<close>

text \<open>\<open>f"{x:.df}"\<close>: the decimal with \<open>d\<close> places nearest to \<open>x\<close>, ties to even.\<close>

definition fixed :: "nat \<Rightarrow> rat \<Rightarrow> string" where
  "fixed d x = (let n = nat (round_half_even (\<bar>x\<bar> * 10 ^ d)) in (if x < 0 then ''-'' else []) @ str_nat (n div 10 ^ d) @
     (if d = 0 then [] else ''.'' @ pad_zeros d (str_nat (n mod 10 ^ d))))"

definition fmt :: "stats \<Rightarrow> string list" where
  "fmt s = [str_int (sx_requests s), fixed 1 (sx_rps s), fixed 1 (sx_avg s), fixed 1 (sx_min s), fixed 1 (sx_max s),
     fixed 1 (sx_p95 s), fixed 2 (sx_errors s)]"

definition table_text :: "string list \<Rightarrow> string list list \<Rightarrow> string" where
  "table_text headers cells = join [CHR 0x0A]
     ([''| '' @ join '' | '' headers @ '' |'', ''|'' @ concat (replicate (length headers) ''---|'')] @
      map (\<lambda>row. ''| '' @ join '' | '' row @ '' |'') cells)"

definition COLUMNS :: "string list" where
  "COLUMNS = [''Requests'', ''RPS'', ''Avg, ms'', ''Min, ms'', ''Max, ms'', ''p95, ms'', ''Errors, %'']"

text \<open>Samples taken while the number of virtual users is known, by that number; a plateau spans 20 different seconds.\<close>

definition load_steps :: "sample list \<Rightarrow> (int \<times> rat) list \<Rightarrow> (int \<times> sample list) list" where
  "load_steps samples vus = group_by (\<lambda>r. py_trunc (the (map_of vus (sa_ts r)))) (filter (\<lambda>r. map_of vus (sa_ts r) \<noteq> None) samples) []"

definition step_span :: "sample list \<Rightarrow> int" where
  "step_span samples = int (length (remdups (map sa_ts samples)))"

definition plateau :: "sample list \<Rightarrow> (int \<times> rat) list \<Rightarrow> (int \<times> stats) list result" where
  "plateau samples vus = map_result (\<lambda>(level, items). bind_result (summarize items (step_span items)) (\<lambda>s. Inr (level, s)))
     (filter (\<lambda>(_, items). 20 \<le> step_span items) (load_steps samples vus))"

definition endpoint_stats :: "sample list \<Rightarrow> int \<Rightarrow> (string \<times> stats) list result" where
  "endpoint_stats samples seconds = map_result (\<lambda>(n, xs). bind_result (summarize xs seconds) (\<lambda>s. Inr (n, s))) (group_by sa_name samples [])"

definition run_seconds :: "sample list \<Rightarrow> int" where
  "run_seconds samples = Max (set (map sa_ts samples)) - Min (set (map sa_ts samples)) + 1"

text \<open>\<open>max(timeline, key=...)\<close>: the first of the largest.\<close>

fun peak_of :: "bucket list \<Rightarrow> bucket result" where
  "peak_of [] = Inl (ValueError ''max() arg is an empty sequence'')"
| "peak_of [b] = Inr b"
| "peak_of (b # c # bs) = peak_of ((if sx_rps (bk_stats b) < sx_rps (bk_stats c) then c else b) # bs)"

section \<open>Resources\<close>

record resource_row =
  rr_container :: string
  rr_timestamp :: rat
  rr_cpu_percent :: rat
  rr_mem_mib :: rat

definition load_resources :: "resource_row list \<Rightarrow> (string \<times> (rat \<times> rat \<times> rat) list) list" where
  "load_resources csv = map (\<lambda>(n, rs). (n, map (\<lambda>r. (rr_timestamp r, rr_cpu_percent r, rr_mem_mib r)) rs)) (group_by rr_container csv [])"

text \<open>Average and maximum of the processor, then of the memory; every container of the map has a sample.\<close>

definition mean :: "rat list \<Rightarrow> rat" where
  "mean xs = fl (py_sum xs / of_int (int (length xs)))"

definition cpu_ram :: "(rat \<times> rat \<times> rat) list \<Rightarrow> rat \<times> rat \<times> rat \<times> rat" where
  "cpu_ram s = (let cpus = map (\<lambda>(_, c, _). c) s; mems = map (\<lambda>(_, _, m). m) s
     in (mean cpus, Max (set cpus), mean mems, Max (set mems)))"

definition resource_lines :: "resource_row list \<Rightarrow> string list" where
  "resource_lines csv =
     [[], ''## Server resources (docker stats, ~2 s samples)'', [],
      table_text [''Container'', ''CPU avg, %'', ''CPU max, %'', ''RAM avg, MiB'', ''RAM max, MiB'']
        (map (\<lambda>(n, s). case cpu_ram s of (ca, cm, ma, mm) \<Rightarrow> [n, fixed 1 ca, fixed 1 cm, fixed 0 ma, fixed 0 mm])
          (sort_key fst (load_resources csv)))]"

section \<open>The summary\<close>

text \<open>The lines of \<open>summary.md\<close> up to the section on resources.\<close>

definition report_lines :: "sample list \<Rightarrow> (int \<times> rat) list \<Rightarrow> string list result" where
  "report_lines samples vus =
     (if samples = [] then Inl (ValueError ''min() arg is an empty sequence'')
      else let start = Min (set (map sa_ts samples)); seconds = run_seconds samples; headers = ''Endpoint'' # COLUMNS in
        bind_result (buckets samples vus start) (\<lambda>timeline.
        bind_result (summarize samples seconds) (\<lambda>overall.
        bind_result (endpoint_stats samples seconds) (\<lambda>per_endpoint.
        bind_result (plateau samples vus) (\<lambda>plateaus.
        bind_result (peak_of timeline) (\<lambda>peak_rps. Inr
          ([''## Overall'', [], table_text headers [''**all**'' # fmt overall]] @ [[], ''## Per endpoint'', []] @
           [table_text headers (map (\<lambda>(n, s). n # fmt s) (sort_key fst per_endpoint))] @
           [[], ''## Per load step (plateaus of >= 20 s)'', []] @
           [table_text (''VUs'' # COLUMNS) (map (\<lambda>(lvl, s). str_int lvl # fmt s) (sort_key fst plateaus))] @
           [[], ''Duration: '' @ str_int seconds @ '' s; peak RPS ('' @ str_int BUCKET_SECONDS @ ''-s window): '' @
             fixed 1 (sx_rps (bk_stats peak_rps)) @ '' at t='' @ str_int (bk_t peak_rps) @ '' s ('' @ fixed 0 (bk_vus peak_rps) @ '' VUs)''])))))))"

section \<open>Comparing two runs\<close>

record run_summary =
  rn_overall :: stats
  rn_timeline :: "bucket list"
  rn_plateau :: "(int \<times> stats) list"
  rn_endpoints :: "(string \<times> stats) list"
  rn_resources :: "(string \<times> rat \<times> rat \<times> rat \<times> rat) list"

definition load_run :: "k6_row list \<Rightarrow> resource_row list \<Rightarrow> run_summary result" where
  "load_run csv resources = bind_result (load_k6 csv) (\<lambda>(samples, vus).
     if samples = [] then Inl (ValueError ''min() arg is an empty sequence'')
     else let start = Min (set (map sa_ts samples)); seconds = run_seconds samples in
       bind_result (plateau samples vus) (\<lambda>plateaus.
       bind_result (summarize samples seconds) (\<lambda>overall.
       bind_result (buckets samples vus start) (\<lambda>timeline.
       bind_result (endpoint_stats samples seconds) (\<lambda>endpoints. Inr
         \<lparr>rn_overall = overall, rn_timeline = timeline, rn_plateau = plateaus, rn_endpoints = endpoints,
          rn_resources = map (\<lambda>(n, s). (n, cpu_ram s)) (load_resources resources)\<rparr>)))))"

definition percent_change :: "rat \<Rightarrow> rat \<Rightarrow> string" where
  "percent_change before after = (if before = 0 then ''-''
     else let x = fl (fl (fl (after - before) / before) * 100) in (if x < 0 then [] else ''+'') @ fixed 0 x @ ''%'')"

definition peak_rps :: "run_summary \<Rightarrow> rat" where
  "peak_rps r = Max (set (map (\<lambda>b. sx_rps (bk_stats b)) (rn_timeline r)))"

definition resource_rows :: "run_summary \<Rightarrow> run_summary \<Rightarrow> string \<Rightarrow> string list list" where
  "resource_rows before after name = (case (map_of (rn_resources before) name, map_of (rn_resources after) name) of
       (Some (b_cpu, _, b_ram, _), Some (a_cpu, _, a_ram, _)) \<Rightarrow>
         [[''CPU '' @ name @ '' avg, %'', fixed 1 b_cpu, fixed 1 a_cpu, percent_change b_cpu a_cpu],
          [''RAM '' @ name @ '' avg, MiB'', fixed 0 b_ram, fixed 0 a_ram, percent_change b_ram a_ram]]
     | _ \<Rightarrow> [])"

definition overall_rows :: "run_summary \<Rightarrow> run_summary \<Rightarrow> string list list" where
  "overall_rows before after =
     (let row = (\<lambda>label f places. [label, fixed places (f (rn_overall before)), fixed places (f (rn_overall after)),
            percent_change (f (rn_overall before)) (f (rn_overall after))]) in
      [[''Requests'', str_int (sx_requests (rn_overall before)), str_int (sx_requests (rn_overall after)),
          percent_change (of_int (sx_requests (rn_overall before))) (of_int (sx_requests (rn_overall after)))],
       row ''RPS (mean)'' sx_rps 1,
       [''RPS (peak, 5-s window)'', fixed 1 (peak_rps before), fixed 1 (peak_rps after), percent_change (peak_rps before) (peak_rps after)],
       row ''Latency avg, ms'' sx_avg 1, row ''Latency p95, ms'' sx_p95 1, row ''Latency max, ms'' sx_max 1,
       row ''Error rate, %'' sx_errors 2] @ concat (map (resource_rows before after) [''api1'', ''db'', ''redis'']))"

text \<open>An endpoint of the first run that the second never called raises \<open>KeyError\<close>.\<close>

definition endpoint_rows :: "run_summary \<Rightarrow> run_summary \<Rightarrow> string list list result" where
  "endpoint_rows before after = map_result (\<lambda>(n, b). case map_of (rn_endpoints after) n of
       None \<Rightarrow> Inl (KeyError n)
     | Some a \<Rightarrow> Inr [n, fixed 0 (sx_avg b) @ '' / '' @ fixed 0 (sx_p95 b), fixed 0 (sx_avg a) @ '' / '' @ fixed 0 (sx_p95 a),
         percent_change (sx_avg b) (sx_avg a), percent_change (sx_p95 b) (sx_p95 a)])
     (sort_key fst (rn_endpoints before))"

definition step_rows :: "run_summary \<Rightarrow> run_summary \<Rightarrow> string list list" where
  "step_rows before after = List.map_filter (\<lambda>(level, b). map_option (\<lambda>a.
       [str_int level, fixed 1 (sx_rps b), fixed 1 (sx_rps a), fixed 0 (sx_avg b) @ '' / '' @ fixed 0 (sx_p95 b),
        fixed 0 (sx_avg a) @ '' / '' @ fixed 0 (sx_p95 a)]) (map_of (rn_plateau after) level))
     (sort_key fst (rn_plateau before))"

section \<open>Reading back\<close>

definition is_vus :: "k6_row \<Rightarrow> bool" where
  "is_vus r = (k6_metric r = ''vus'')"

definition is_duration :: "k6_row \<Rightarrow> bool" where
  "is_duration r = (k6_metric r = ''http_req_duration'' \<and> k6_name r \<noteq> ''setup'')"

definition is_failure :: "k6_row \<Rightarrow> bool" where
  "is_failure r = (k6_metric r = ''http_req_failed'' \<and> k6_name r \<noteq> ''setup'')"

lemma read_row_vus:
  "ks_vus (read_row r st) = (if is_vus r then dict_put (py_trunc (k6_timestamp r)) (k6_value r) (ks_vus st) else ks_vus st)"
  by (simp add: read_row_def is_vus_def Let_def)

lemma read_rows:
  "ks_durations (fold read_row csv st) = ks_durations st @ map (\<lambda>r. (py_trunc (k6_timestamp r), k6_name r, k6_value r)) (filter is_duration csv)"
  "ks_failures (fold read_row csv st) = ks_failures st @ map (\<lambda>r. py_trunc (k6_value r)) (filter is_failure csv)"
  "map_of (ks_vus (fold read_row csv st)) =
     map_of (rev (map (\<lambda>r. (py_trunc (k6_timestamp r), k6_value r)) (filter is_vus csv)) @ ks_vus st)"
proof (induction csv arbitrary: st)
  case (Cons r csv)
  {
    case 1
    show ?case by (simp add: Cons(1)) (simp add: read_row_def Let_def is_duration_def)
  next
    case 2
    show ?case by (simp add: Cons(2)) (simp add: read_row_def Let_def is_failure_def)
  next
    case 3
    show ?case by (simp add: Cons(3) read_row_vus map_of_dict_put)
  }
qed simp_all

text \<open>The two rows that k6 writes for a request.\<close>

definition duration_row :: "sample \<Rightarrow> k6_row" where
  "duration_row s = \<lparr>k6_metric = ''http_req_duration'', k6_timestamp = of_int (sa_ts s), k6_name = sa_name s, k6_value = sa_ms s\<rparr>"

definition failed_row :: "sample \<Rightarrow> k6_row" where
  "failed_row s = \<lparr>k6_metric = ''http_req_failed'', k6_timestamp = of_int (sa_ts s), k6_name = sa_name s, k6_value = of_int (sa_failed s)\<rparr>"

lemma py_trunc_of_int [simp]: "py_trunc (of_int n) = n"
  by (simp add: py_trunc_def)

lemma pair_flags:
  "length xs = length ys \<Longrightarrow> map (\<lambda>((ts, n, ms), failed). \<lparr>sa_ts = ts, sa_name = n, sa_ms = ms, sa_failed = failed\<rparr>)
     (zip (map (\<lambda>s. (sa_ts s, sa_name s, sa_ms s)) xs) (map sa_failed ys)) = map (\<lambda>(s, f). s\<lparr>sa_failed := sa_failed f\<rparr>) (zip xs ys)"
  by (induction xs ys rule: list_induct2) simp_all

section \<open>The percentile\<close>

lemma length_filter_sort: "length (filter P (sort xs)) = length (filter P xs)"
  by (metis mset_filter mset_sort size_mset)

lemma sorted_nth_counts:
  assumes "sorted xs" "k < length xs"
  shows "k + 1 \<le> length (filter (\<lambda>x. x \<le> xs ! k) xs)" "length (filter (\<lambda>x. x < xs ! k) xs) \<le> k"
proof -
  have "filter (\<lambda>x. x \<le> xs ! k) (take (k + 1) xs) = take (k + 1) xs"
    using assms by (intro filter_True) (auto simp: in_set_conv_nth intro!: sorted_nth_mono)
  then have "length (filter (\<lambda>x. x \<le> xs ! k) (take (k + 1) xs)) = k + 1" using assms(2) by simp
  moreover have "length (filter (\<lambda>x. x \<le> xs ! k) xs) =
      length (filter (\<lambda>x. x \<le> xs ! k) (take (k + 1) xs)) + length (filter (\<lambda>x. x \<le> xs ! k) (drop (k + 1) xs))"
    by (metis append_take_drop_id filter_append length_append)
  ultimately show "k + 1 \<le> length (filter (\<lambda>x. x \<le> xs ! k) xs)" by simp
  have "filter (\<lambda>x. x < xs ! k) (drop k xs) = []"
    using assms by (auto simp: filter_empty_conv in_set_conv_nth not_less intro!: sorted_nth_mono)
  then have "length (filter (\<lambda>x. x < xs ! k) xs) = length (filter (\<lambda>x. x < xs ! k) (take k xs))"
    by (metis append_Nil2 append_take_drop_id filter_append)
  also have "\<dots> \<le> k" using length_filter_le[of "\<lambda>x. x < xs ! k" "take k xs"] assms(2) by simp
  finally show "length (filter (\<lambda>x. x < xs ! k) xs) \<le> k" .
qed

lemma fl_95: "fl (19 / 20) = 4278419646001971 / 2 ^ 52"
  by code_simp

text \<open>The rounded product is within \<open>1/20\<close> of \<open>19 n / 20\<close> and never above it when that is an integer, so its ceiling is exact.\<close>

lemma rank_95:
  assumes "0 < n" "n < 2 ^ 40"
  shows "\<lceil>fl (fl (95 / 100) * fl (of_int n))\<rceil> = \<lceil>of_int (19 * n) / 20 :: rat\<rceil>"
proof -
  define q :: rat where "q = of_int (19 * n) / 20"
  define x where "x = fl (95 / 100) * (of_int n :: rat)"
  have n: "fl (of_int n) = (of_int n :: rat)" using fl_of_int[of n] assms by simp
  have nb: "0 < (of_int n :: rat)" "of_int n \<le> (2 ^ 40 :: rat)"
    using assms by (simp, metis less_imp_le of_int_le_iff of_int_numeral of_int_power)
  have x: "x = of_int n * (4278419646001971 / 2 ^ 52)" by (simp add: x_def fl_95)
  have below: "x \<le> q" using nb(1) by (simp add: x q_def)
  have close: "q - x \<le> of_int n / 2 ^ 52" using nb(1) by (simp add: x q_def)
  have "0 \<le> x" using nb(1) by (simp add: x)
  then have err: "\<bar>fl x - x\<bar> \<le> x / 2 ^ 53" using fl_error[of x] by simp
  have xn: "x \<le> of_int n" using nb(1) by (simp add: x)
  have "x / 2 ^ 53 \<le> of_int n / 2 ^ 53" using xn by (intro divide_right_mono) simp_all
  then have "\<bar>fl x - q\<bar> \<le> of_int n / 2 ^ 52 + of_int n / 2 ^ 53"
    using err below close unfolding abs_le_iff by linarith
  also have "\<dots> < 1 / 20" using nb by simp
  finally have near: "\<bar>fl x - q\<bar> < 1 / 20" .
  have "\<lceil>fl x\<rceil> = \<lceil>q\<rceil>"
  proof (cases "q \<in> \<int>")
    case True
    then obtain N where N: "q = of_int N" by (auto elim: Ints_cases)
    have "N \<le> 19 * 2 ^ 40" "0 \<le> N"
      using N nb by (simp_all add: q_def)
    then have "fl (of_int N) = (of_int N :: rat)" using fl_of_int[of N] by simp
    then have "fl x \<le> of_int N" using fl_le_float[of x "of_int N"] below N by simp
    moreover have "of_int N - 1 < fl x" using near N by (simp only: abs_less_iff) linarith
    ultimately show ?thesis using N by (simp add: ceiling_eq_iff)
  next
    case False
    have "19 * n mod 20 \<noteq> 0"
    proof
      assume "19 * n mod 20 = 0"
      then have "q = of_int (19 * n div 20)" by (auto simp: q_def elim!: dvdE simp flip: dvd_eq_mod_eq_0)
      then show False using False by simp
    qed
    then have m: "1 \<le> 19 * n mod 20" "19 * n mod 20 \<le> 19" by (simp_all add: pos_mod_sign order_le_less) presburger+
    define k where "k = 19 * n div 20"
    have "of_int (19 * n) = (20 * of_int k + of_int (19 * n mod 20) :: rat)"
      by (metis k_def mult_div_mod_eq of_int_add of_int_mult of_int_numeral)
    then have q: "q = of_int k + of_int (19 * n mod 20) / 20" by (simp add: q_def add_divide_distrib)
    have "(1 :: rat) \<le> of_int (19 * n mod 20)" "of_int (19 * n mod 20) \<le> (19 :: rat)"
      using m by (metis of_int_1_le_iff, metis of_int_le_numeral_iff)
    then have b: "of_int k + 1 / 20 \<le> q" "q \<le> of_int k + 19 / 20" by (simp_all add: q)
    have "\<lceil>q\<rceil> = k + 1" using b by (intro ceiling_unique) simp_all
    moreover have "\<lceil>fl x\<rceil> = k + 1" using b near by (intro ceiling_unique) (simp only: abs_less_iff of_int_add of_int_1; linarith)+
    ultimately show ?thesis by simp
  qed
  then show ?thesis by (simp add: x_def q_def n)
qed

lemma percentile_95:
  assumes "vals \<noteq> []" "length vals < 2 ^ 40"
  obtains v where "percentile vals 95 = Inr v" "v \<in> set vals"
    "95 * length vals \<le> 100 * length (filter (\<lambda>x. x \<le> v) vals)" "100 * length (filter (\<lambda>x. x < v) vals) < 95 * length vals"
proof -
  let ?n = "length vals"
  define c where "c = nat \<lceil>of_int (19 * int ?n) / 20 :: rat\<rceil>"
  have n: "0 < int ?n" "int ?n < 2 ^ 40" using assms by (simp, metis of_nat_less_iff of_nat_numeral of_nat_power)
  have pos: "0 < \<lceil>of_int (19 * int ?n) / 20 :: rat\<rceil>" using n(1) by simp
  then have C: "(of_int \<lceil>of_int (19 * int ?n) / 20 :: rat\<rceil> :: rat) = of_int (int c)" by (simp add: c_def)
  have "of_int (19 * int ?n) / 20 \<le> (of_int (int c) :: rat)" "of_int (int c) < (of_int (19 * int ?n) / 20 + 1 :: rat)"
    unfolding C[symmetric] by linarith+
  then have "of_int (19 * int ?n) \<le> (of_int (20 * int c) :: rat)" "(of_int (20 * int c) :: rat) < of_int (19 * int ?n + 20)" by simp_all
  then have c: "19 * int ?n \<le> 20 * int c" "20 * int c < 19 * int ?n + 20" unfolding of_int_le_iff of_int_less_iff by blast+
  then have k: "c - 1 < ?n" "0 < c" using n(1) by linarith+
  let ?k = "c - 1"
  have "nat (max (\<lceil>fl (fl (19 / 20) * fl (of_int (int ?n)))\<rceil> - 1) 0) = ?k"
    using rank_95[OF n] pos by (simp add: c_def nat_diff_distrib)
  then have v: "percentile vals 95 = Inr (sort vals ! ?k)"
    using assms(1) k(1) by (simp add: percentile_def Let_def)
  have "?k + 1 \<le> length (filter (\<lambda>x. x \<le> sort vals ! ?k) vals)" "length (filter (\<lambda>x. x < sort vals ! ?k) vals) \<le> ?k"
    using sorted_nth_counts[of "sort vals" ?k] k(1) by (simp_all add: length_filter_sort)
  then have "95 * ?n \<le> 100 * length (filter (\<lambda>x. x \<le> sort vals ! ?k) vals)" "100 * length (filter (\<lambda>x. x < sort vals ! ?k) vals) < 95 * ?n"
    using c k(2) by linarith+
  moreover have "sort vals ! ?k \<in> set vals" using k(1) by (metis length_sort nth_mem set_sort)
  ultimately show thesis using that v by blast
qed

lemma summarize_ok:
  assumes "length samples < 2 ^ 40"
  obtains s where "summarize samples seconds = Inr s" "sx_requests s = int (length samples)"
proof (cases "samples = []")
  case True
  then show thesis using that by (simp add: summarize_def percentile_def Let_def)
next
  case False
  then obtain v where "percentile (map sa_ms samples) 95 = Inr v" using percentile_95[of "map sa_ms samples"] assms by auto
  then show thesis using that by (simp add: summarize_def Let_def)
qed

section \<open>The time line\<close>

lemma map_of_group_by:
  "map_of (group_by f xs d) k = (if filter (\<lambda>x. f x = k) xs = [] then map_of d k
     else Some ((case map_of d k of None \<Rightarrow> [] | Some ys \<Rightarrow> ys) @ filter (\<lambda>x. f x = k) xs))"
  by (induction f xs d rule: group_by.induct) (auto simp: map_of_dict_put split: option.splits)

lemma keys_group_by: "fst ` set (group_by f xs d) = fst ` set d \<union> f ` set xs"
  by (induction f xs d rule: group_by.induct) (auto simp: fst_dict_put)

lemma map_result_Inr: "(\<And>x. x \<in> set xs \<Longrightarrow> \<exists>y. f x = Inr y) \<Longrightarrow> \<exists>ys. map_result f xs = Inr ys \<and> list_all2 (\<lambda>x y. f x = Inr y) xs ys"
proof (induction xs)
  case (Cons x xs)
  then obtain y ys where "f x = Inr y" "map_result f xs = Inr ys" "list_all2 (\<lambda>x y. f x = Inr y) xs ys"
    by (metis list.set_intros(1,2))
  then show ?case by simp
qed simp

text \<open>Counting samples window by window counts each of them once.\<close>

lemma sum_windows:
  assumes "\<forall>x \<in> set xs. 0 \<le> g x \<and> g x \<le> m"
  shows "sum_list (map (\<lambda>i. int (length (filter (\<lambda>x. g x = i) xs))) [0 .. m]) = int (length xs)"
  using assms
proof (induction xs)
  case Nil
  then show ?case by simp
next
  case (Cons x xs)
  have "sum_list (map (\<lambda>i. int (length (filter (\<lambda>y. g y = i) (x # xs)))) [0 .. m]) =
      sum_list (map (\<lambda>i. (if g x = i then 1 else 0) + int (length (filter (\<lambda>y. g y = i) xs))) [0 .. m])"
    by (intro arg_cong[where f = sum_list] map_cong) auto
  also have "\<dots> = sum_list (map (\<lambda>i. if g x = i then 1 else 0) [0 .. m]) + int (length xs)"
    using Cons by (simp add: sum_list_addf)
  also have "sum_list (map (\<lambda>i. if g x = i then 1 else (0 :: int)) [0 .. m]) = 1"
    using Cons.prems by (simp add: interv_sum_list_conv_sum_set_int)
  finally show ?case by simp
qed

lemma buckets_ok:
  assumes "samples \<noteq> []" "length samples < 2 ^ 40" "start = Min (set (map sa_ts samples))"
  obtains bs where "buckets samples vus start = Inr bs" "int (length bs) = (Max (set (map sa_ts samples)) - start) div 5 + 1"
    "list_all2 (\<lambda>i b. bk_t b = 5 * i \<and> sx_requests (bk_stats b) = int (length (filter (\<lambda>r. start + 5 * i \<le> sa_ts r \<and> sa_ts r < start + 5 * i + 5) samples)))
       [0 .. (Max (set (map sa_ts samples)) - start) div 5] bs"
    "sum_list (map (\<lambda>b. sx_requests (bk_stats b)) bs) = int (length samples)"
proof -
  let ?g = "\<lambda>r. (sa_ts r - start) div 5"
  let ?d = "group_by ?g samples []"
  let ?m = "(Max (set (map sa_ts samples)) - start) div 5"
  let ?items = "\<lambda>i. filter (\<lambda>r. ?g r = i) samples"
  have "set (map fst ?d) = (\<lambda>t. (t - start) div 5) ` set (map sa_ts samples)" using keys_group_by[of ?g samples "[]"] by (auto simp: image_image)
  moreover have "mono (\<lambda>t. (t - start) div (5 :: int))" by (intro monoI zdiv_mono1) simp_all
  ultimately have top: "Max (set (map fst ?d)) = ?m"
    using assms(1) mono_Max_commute[of "\<lambda>t. (t - start) div 5" "set (map sa_ts samples)"] by simp
  have "?d \<noteq> []" using keys_group_by[of ?g samples "[]"] assms(1) by auto
  then have b: "buckets samples vus start = map_result (one_bucket ?d vus start) [0 .. ?m]"
    using top by (simp add: buckets_def Let_def BUCKET_SECONDS_def)
  have one: "\<exists>x. one_bucket ?d vus start i = Inr x \<and> bk_t x = 5 * i \<and> sx_requests (bk_stats x) = int (length (?items i))" for i
  proof -
    have items: "(case map_of ?d i of None \<Rightarrow> [] | Some xs \<Rightarrow> xs) = ?items i" by (simp add: map_of_group_by)
    have "length (?items i) < 2 ^ 40" using assms(2) length_filter_le[of "\<lambda>r. ?g r = i" samples] by linarith
    then obtain s where "summarize (?items i) BUCKET_SECONDS = Inr s" "sx_requests s = int (length (?items i))" by (rule summarize_ok)
    then show ?thesis by (simp add: one_bucket_def items Let_def BUCKET_SECONDS_def)
  qed
  obtain bs where bs: "map_result (one_bucket ?d vus start) [0 .. ?m] = Inr bs" "list_all2 (\<lambda>i x. one_bucket ?d vus start i = Inr x) [0 .. ?m] bs"
    using map_result_Inr[of "[0 .. ?m]" "one_bucket ?d vus start"] one by blast
  have facts: "list_all2 (\<lambda>i x. bk_t x = 5 * i \<and> sx_requests (bk_stats x) = int (length (?items i))) [0 .. ?m] bs"
    using bs(2) by (rule list_all2_mono) (metis one sum.inject(2))
  have "map (\<lambda>i. int (length (?items i))) [0 .. ?m] = map (\<lambda>b. sx_requests (bk_stats b)) bs"
    using facts by (induction rule: list_all2_induct) simp_all
  moreover have "\<forall>r \<in> set samples. 0 \<le> ?g r \<and> ?g r \<le> ?m"
    using assms(3) by (auto intro!: zdiv_mono1 simp: pos_imp_zdiv_nonneg_iff)
  ultimately have total: "sum_list (map (\<lambda>b. sx_requests (bk_stats b)) bs) = int (length samples)"
    using sum_windows[of samples ?g ?m] by simp
  have "0 \<le> ?m" using assms(1,3) by (simp add: pos_imp_zdiv_nonneg_iff)
  then have len: "int (length bs) = ?m + 1" using list_all2_lengthD[OF facts] by simp
  have window: "(?g r = i) = (start + 5 * i \<le> sa_ts r \<and> sa_ts r < start + 5 * i + 5)" for r i by presburger
  show thesis by (rule that[OF b[unfolded bs(1)] len facts[unfolded window] total])
qed

section \<open>Properties\<close>

text \<open>
  A run is read back as k6 made it. When the duration rows and the failure rows of the measured requests come in the same order,
  whatever other rows stand between them (set-up requests, other metrics, user counts), each request gets its own time, name, duration
  and failure flag; and with a different number of the two the load fails instead of pairing them wrongly.
\<close>

lemma requests_read_back:
  assumes "filter is_duration csv = map duration_row samples" "filter is_failure csv = map failed_row flagged"
  shows "if length samples \<noteq> length flagged then \<exists>message. load_k6 csv = Inl (ValueError message)
    else \<exists>vus. load_k6 csv = Inr (map (\<lambda>(s, f). s\<lparr>sa_failed := sa_failed f\<rparr>) (zip samples flagged), vus) \<and>
      map_of vus = map_of (rev (map (\<lambda>r. (py_trunc (k6_timestamp r), k6_value r)) (filter is_vus csv)))"
proof -
  let ?st = "fold read_row csv \<lparr>ks_durations = [], ks_failures = [], ks_vus = []\<rparr>"
  have "ks_durations ?st = map (\<lambda>s. (sa_ts s, sa_name s, sa_ms s)) samples" "ks_failures ?st = map sa_failed flagged"
    "map_of (ks_vus ?st) = map_of (rev (map (\<lambda>r. (py_trunc (k6_timestamp r), k6_value r)) (filter is_vus csv)))"
    using assms by (simp_all add: read_rows comp_def duration_row_def failed_row_def)
  then show ?thesis by (simp add: load_k6_def Let_def pair_flags)
qed

text \<open>
  The report loses no request and its percentiles are exact. For a run of fewer than \<open>2^40\<close> requests the time line
  has one entry per five seconds from the first to the last request, each with just the requests of its window, so that they add
  up to all of them; and the 95th percentile, for all its rounding, is a measured value that at least 95 percent of
  the values do not exceed and fewer than 95 percent stay below.
\<close>

lemma report_accounts_for_all:
  assumes "samples \<noteq> []" "length samples < 2 ^ 40"
  shows "(\<exists>bs. buckets samples vus (Min (set (map sa_ts samples))) = Inr bs \<and>
      list_all2 (\<lambda>i b. bk_t b = 5 * i \<and> sx_requests (bk_stats b) =
          int (length (filter (\<lambda>r. Min (set (map sa_ts samples)) + 5 * i \<le> sa_ts r \<and> sa_ts r < Min (set (map sa_ts samples)) + 5 * i + 5) samples)))
        [0 .. (Max (set (map sa_ts samples)) - Min (set (map sa_ts samples))) div 5] bs \<and>
      sum_list (map (\<lambda>b. sx_requests (bk_stats b)) bs) = int (length samples)) \<and>
    (\<exists>v. percentile (map sa_ms samples) 95 = Inr v \<and> v \<in> sa_ms ` set samples \<and>
      95 * length samples \<le> 100 * length (filter (\<lambda>r. sa_ms r \<le> v) samples) \<and>
      100 * length (filter (\<lambda>r. sa_ms r < v) samples) < 95 * length samples)"
proof (intro conjI)
  obtain bs where "buckets samples vus (Min (set (map sa_ts samples))) = Inr bs"
    "list_all2 (\<lambda>i b. bk_t b = 5 * i \<and> sx_requests (bk_stats b) =
          int (length (filter (\<lambda>r. Min (set (map sa_ts samples)) + 5 * i \<le> sa_ts r \<and> sa_ts r < Min (set (map sa_ts samples)) + 5 * i + 5) samples)))
        [0 .. (Max (set (map sa_ts samples)) - Min (set (map sa_ts samples))) div 5] bs"
    "sum_list (map (\<lambda>b. sx_requests (bk_stats b)) bs) = int (length samples)"
    by (rule buckets_ok[OF assms refl, of vus]) blast
  then show "\<exists>bs. buckets samples vus (Min (set (map sa_ts samples))) = Inr bs \<and>
      list_all2 (\<lambda>i b. bk_t b = 5 * i \<and> sx_requests (bk_stats b) =
          int (length (filter (\<lambda>r. Min (set (map sa_ts samples)) + 5 * i \<le> sa_ts r \<and> sa_ts r < Min (set (map sa_ts samples)) + 5 * i + 5) samples)))
        [0 .. (Max (set (map sa_ts samples)) - Min (set (map sa_ts samples))) div 5] bs \<and>
      sum_list (map (\<lambda>b. sx_requests (bk_stats b)) bs) = int (length samples)"
    by blast
  have "map sa_ms samples \<noteq> []" "length (map sa_ms samples) < 2 ^ 40" using assms by simp_all
  then show "\<exists>v. percentile (map sa_ms samples) 95 = Inr v \<and> v \<in> sa_ms ` set samples \<and>
      95 * length samples \<le> 100 * length (filter (\<lambda>r. sa_ms r \<le> v) samples) \<and>
      100 * length (filter (\<lambda>r. sa_ms r < v) samples) < 95 * length samples"
    by (rule percentile_95) (auto simp: filter_map comp_def)
qed

end
