(* ===== verification/SecretsTrap.thy ===== *)
theory SecretsTrap
  imports Scripts
begin

text \<open>
  \<open>scripts/secrets_trap.py\<close>: planting a synthetic secret in a demo file, moving it to \<open>.env\<close> and cleaning
  up, as operations on the three files. The random token is an argument. Lemmas: after \<open>fix\<close> the token is in
  \<open>.env\<close> and nowhere else, other lines of \<open>.env\<close> survive every action, and \<open>clean\<close> removes what \<open>plant\<close> and
  \<open>fix\<close> added there.
\<close>

section \<open>Files\<close>

record trap_files =
  demo_dir :: bool
  demo_others :: bool
  demo_file :: "string option"
  env_file :: "string option"
  env_example :: "string option"

definition VAR :: string where
  "VAR = ''PAYMENT_GATEWAY_TOKEN''"

definition HARDCODED :: "string \<Rightarrow> string" where
  "HARDCODED token = QUOTE @ QUOTE @ QUOTE @ ''Payment gateway client settings (secrets-trap demo).'' @ QUOTE @ QUOTE @ QUOTE @ NL @ NL @
     ''# SYNTHETIC test value generated by scripts/secrets_trap.py - not a real credential.'' @ NL @
     VAR @ '' = '' @ QUOTE @ token @ QUOTE @ NL"

definition FROM_ENV :: string where
  "FROM_ENV = QUOTE @ QUOTE @ QUOTE @ ''Payment gateway client settings (secrets-trap demo).'' @ QUOTE @ QUOTE @ QUOTE @ NL @ NL @
     ''import os'' @ NL @ NL @ VAR @ '' = os.getenv('' @ QUOTE @ VAR @ QUOTE @ '', '' @ QUOTE @ QUOTE @ '')'' @ NL"

text \<open>The token: a prefix and 32 characters drawn from letters and digits.\<close>

definition token_char :: "char \<Rightarrow> bool" where
  "token_char c = (let k = of_char c :: nat in (97 \<le> k \<and> k \<le> 122) \<or> (65 \<le> k \<and> k \<le> 90) \<or> (48 \<le> k \<and> k \<le> 57))"

definition synthetic_token :: "(nat \<Rightarrow> char) \<Rightarrow> string" where
  "synthetic_token choice = ''sk_test_'' @ map choice [0..<32]"

definition env_lines :: "string option \<Rightarrow> string list" where
  "env_lines path = (case path of Some text \<Rightarrow> splitlines text | None \<Rightarrow> [])"

definition file_text :: "string list \<Rightarrow> string" where
  "file_text lines = join NL lines @ NL"

definition is_var_line :: "string \<Rightarrow> bool" where
  "is_var_line line = starts_with (VAR @ ''='') line"

section \<open>Actions\<close>

definition plant :: "string \<Rightarrow> trap_files \<Rightarrow> trap_files" where
  "plant token fs = fs\<lparr>demo_dir := True, demo_file := Some (HARDCODED token)\<rparr>"

definition fix_trap :: "trap_files \<Rightarrow> trap_files result" where
  "fix_trap fs =
     (let prefix = VAR @ '' = '' @ QUOTE
      in case demo_file fs of
           None \<Rightarrow> Inl OSError
         | Some text \<Rightarrow>
             (case filter (starts_with prefix) (splitlines text) of
                [] \<Rightarrow> Inl (SystemExit (''No hardcoded '' @ VAR))
              | line # _ \<Rightarrow>
                  (let token = butlast (drop (length prefix) line);
                       env = filter (\<lambda>l. \<not> is_var_line l) (env_lines (env_file fs));
                       example = env_lines (env_example fs)
                   in Inr (fs\<lparr>env_file := Some (file_text (env @ [VAR @ ''='' @ token])),
                        env_example := (if list_ex is_var_line example then env_example fs else Some (file_text (example @ [VAR @ ''='']))),
                        demo_file := Some FROM_ENV\<rparr>))))"

definition clean_trap :: "trap_files \<Rightarrow> trap_files" where
  "clean_trap fs =
     fs\<lparr>demo_file := None, demo_dir := (demo_dir fs \<and> demo_others fs),
        env_file := map_option (\<lambda>text. file_text (filter (\<lambda>l. \<not> is_var_line l) (splitlines text))) (env_file fs)\<rparr>"

section \<open>What the actions do\<close>

lemma splitlines_file_text: "list_all one_line ls \<Longrightarrow> ls \<noteq> [] \<Longrightarrow> splitlines (file_text ls) = ls"
proof (induction ls)
  case (Cons l ls)
  show ?case
  proof (cases ls)
    case Nil
    then show ?thesis using Cons.prems(1) splitlines_line[of l "[]"] by (simp add: file_text_def NL_def splitlines_def)
  next
    case (Cons m ms)
    have "file_text (l # ls) = l @ CHR 10 # file_text ls" using Cons by (simp add: file_text_def NL_def)
    then show ?thesis using Cons.IH Cons.prems Cons splitlines_line[of l "file_text ls"] by simp
  qed
qed simp

lemma token_one_line: "list_all token_char t \<Longrightarrow> one_line t"
  by (induction t) (auto simp: one_line_def line_break_def token_char_def Let_def)

lemma fixed_one_line: "one_line VAR" "one_line QUOTE" "one_line []"
  by (simp_all add: one_line_def VAR_def QUOTE_def line_break_def)


text \<open>The planted file has one line that \<open>fix\<close> looks for.\<close>

lemma planted_lines:
  assumes "one_line token"
  shows "filter (starts_with (VAR @ '' = '' @ QUOTE)) (splitlines (HARDCODED token)) = [VAR @ '' = '' @ QUOTE @ token @ QUOTE]"
proof -
  let ?doc = "QUOTE @ QUOTE @ QUOTE @ ''Payment gateway client settings (secrets-trap demo).'' @ QUOTE @ QUOTE @ QUOTE"
  let ?note = "''# SYNTHETIC test value generated by scripts/secrets_trap.py - not a real credential.''"
  let ?line = "VAR @ '' = '' @ QUOTE @ token @ QUOTE"
  have h: "HARDCODED token = ?doc @ CHR 10 # ([] @ CHR 10 # (?note @ CHR 10 # (?line @ CHR 10 # [])))"
    by (simp add: HARDCODED_def NL_def)
  have l: "one_line ?doc" "one_line ?note" "one_line ?line"
    using assms fixed_one_line by (simp_all add: one_line_def line_break_def)
  have "splitlines (HARDCODED token) = [?doc, [], ?note, ?line]"
    unfolding h splitlines_line[OF l(1)] splitlines_line[OF fixed_one_line(3)] splitlines_line[OF l(2)] splitlines_line[OF l(3)]
    by (simp add: splitlines_def)
  moreover have "\<not> starts_with (VAR @ '' = '' @ QUOTE) ?doc" "\<not> starts_with (VAR @ '' = '' @ QUOTE) []" "\<not> starts_with (VAR @ '' = '' @ QUOTE) ?note"
    by (simp_all add: starts_with_def VAR_def QUOTE_def)
  moreover have "starts_with (VAR @ '' = '' @ QUOTE) ?line"
    using starts_with_append[of "VAR @ '' = '' @ QUOTE" "token @ QUOTE"] by simp
  ultimately show ?thesis by simp
qed

lemma var_line [simp]: "is_var_line (VAR @ CHR ''='' # t)"
  using starts_with_append[of "VAR @ ''=''" t] by (simp add: is_var_line_def)

text \<open>
  Planting, fixing and cleaning: \<open>fix\<close> moves exactly the planted token to \<open>.env\<close>, takes it out of the file, and
  documents the variable; \<open>clean\<close> leaves of \<open>.env\<close> just the lines that were not about the variable (an empty
  line if there were none), and no demo file.
\<close>

lemma trap_round_trip:
  assumes "list_all token_char token"
  shows "\<exists>fs'. fix_trap (plant token fs) = Inr fs' \<and> demo_file fs' = Some FROM_ENV \<and>
    env_lines (env_file fs') = filter (\<lambda>l. \<not> is_var_line l) (env_lines (env_file fs)) @ [VAR @ ''='' @ token] \<and>
    list_ex is_var_line (env_lines (env_example fs')) \<and> demo_file (clean_trap fs') = None \<and>
    env_lines (env_file (clean_trap fs')) =
      (case filter (\<lambda>l. \<not> is_var_line l) (env_lines (env_file fs)) of [] \<Rightarrow> [[]] | ls \<Rightarrow> ls)"
proof -
  let ?env = "filter (\<lambda>l. \<not> is_var_line l) (env_lines (env_file fs))" and ?ex = "env_lines (env_example fs)"
  have tok: "one_line token" by (rule token_one_line[OF assms])
  have lines: "list_all one_line (env_lines f)" for f by (simp add: env_lines_def splitlines_one_line split: option.split)
  have env: "list_all one_line ?env" using lines[of "env_file fs"] by (auto simp: list_all_iff)
  have b: "butlast (drop (length (VAR @ '' = '' @ QUOTE)) (VAR @ '' = '' @ QUOTE @ token @ QUOTE)) = token"
    by (simp add: QUOTE_def butlast_append)
  have n: "one_line (VAR @ ''='' @ token)" "one_line (VAR @ [CHR ''=''])"
    using tok fixed_one_line by (simp_all add: one_line_def line_break_def)
  let ?fs = "(plant token fs)\<lparr>env_file := Some (file_text (?env @ [VAR @ ''='' @ token])),
    env_example := (if list_ex is_var_line ?ex then env_example fs else Some (file_text (?ex @ [VAR @ ''='']))), demo_file := Some FROM_ENV\<rparr>"
  have f: "fix_trap (plant token fs) = Inr ?fs"
    using planted_lines[OF tok] b by (simp add: fix_trap_def plant_def Let_def)
  have e: "env_lines (env_file ?fs) = ?env @ [VAR @ ''='' @ token]"
    using splitlines_file_text[of "?env @ [VAR @ ''='' @ token]"] env n(1) by (simp add: env_lines_def)
  have x: "list_ex is_var_line (env_lines (env_example ?fs))"
    using splitlines_file_text[of "?ex @ [VAR @ [CHR ''='']]"] lines[of "env_example fs"] n(2) by (simp add: env_lines_def)
  have "env_file (clean_trap ?fs) = Some (file_text ?env)"
  proof -
    have "filter (\<lambda>l. \<not> is_var_line l) (splitlines (file_text (?env @ [VAR @ ''='' @ token]))) = ?env"
      using splitlines_file_text[of "?env @ [VAR @ ''='' @ token]"] env n(1) by simp
    then show ?thesis by (simp add: clean_trap_def)
  qed
  then have "env_lines (env_file (clean_trap ?fs)) = (case ?env of [] \<Rightarrow> [[]] | ls \<Rightarrow> ls)"
    using splitlines_file_text[OF env] by (cases ?env) (simp_all add: env_lines_def file_text_def NL_def splitlines_def line_break_def)
  with f e x show ?thesis by (intro exI[of _ ?fs]) (simp add: clean_trap_def)
qed

end
