(* ===== verification/Containers.thy ===== *)
theory Containers
  imports Scripts LoadReport
begin

text \<open>
  \<open>scripts/docker_stats.py\<close>, \<open>scripts/lb_check.py\<close> and \<open>scripts/fault.py\<close>: sampling the containers, counting the
  answers of the load balancer and driving the fault proxy. What docker prints, what the balancer
  answers, the clock and the JSON reader are arguments. Lemmas: the sampled containers are those of the
  project, the balancer check counts every request once, a fault command starts from a clean proxy.
\<close>

section \<open>Numbers as text\<close>

text \<open>
  \<open>float(s)\<close>; \<open>None\<close> is the \<open>ValueError\<close>. The words for infinity and not-a-number are left out.
\<close>

definition digits_value :: "string \<Rightarrow> nat option" where
  "digits_value s = (if s = [] then Some 0 else scan_nat s)"

definition text_float :: "string \<Rightarrow> rat option" where
  "text_float s =
     (let t = strip s;
          u = (case t of c # cs \<Rightarrow> if c = CHR ''-'' \<or> c = CHR ''+'' then cs else t | [] \<Rightarrow> t);
          mant = takeWhile (\<lambda>c. c \<noteq> CHR ''e'' \<and> c \<noteq> CHR ''E'') u;
          ex = drop (length mant) u;
          whole = takeWhile (\<lambda>c. c \<noteq> CHR ''.'') mant;
          frac = drop (Suc (length whole)) mant;
          places = length (filter (\<lambda>c. c \<noteq> CHR ''_'') frac)
      in if whole = [] \<and> frac = [] then None
         else (case (digits_value whole, digits_value frac, if ex = [] then Some 0 else
                      (case drop 1 ex of
                         [] \<Rightarrow> None
                       | c # cs \<Rightarrow> if c = CHR ''-'' then map_option (\<lambda>n. - int n) (scan_nat cs)
                           else map_option int (scan_nat (if c = CHR ''+'' then cs else c # cs)))) of
                 (Some a, Some b, Some e) \<Rightarrow>
                   Some (fl ((if t \<noteq> [] \<and> hd t = CHR ''-'' then -1 else 1) * (of_nat (a * 10 ^ places + b) / 10 ^ places) * 10 powi e))
               | _ \<Rightarrow> None))"

definition float_of :: "string \<Rightarrow> rat result" where
  "float_of s = (case text_float s of None \<Rightarrow> Inl (ValueError ''could not convert string to float'') | Some x \<Rightarrow> Inr x)"

section \<open>Sampling docker stats\<close>

text \<open>\<open>sorted(UNITS, key=len, reverse=True)\<close>: the longest first, in their order of the table.\<close>

definition UNITS :: "(string \<times> nat) list" where
  "UNITS = [(''B'', 1), (''KiB'', 1024), (''MiB'', 1024\<^sup>2), (''GiB'', 1024 ^ 3), (''kB'', 1000), (''MB'', 1000\<^sup>2)]"

definition units_by_length :: "(string \<times> nat) list" where
  "units_by_length = sort_key (\<lambda>(u, _). - int (length u)) UNITS"

fun unit_of :: "(string \<times> nat) list \<Rightarrow> string \<Rightarrow> (string \<times> nat) option" where
  "unit_of [] s = None"
| "unit_of ((u, n) # us) s = (if ends_with u s then Some (u, n) else unit_of us s)"

definition to_mib :: "string \<Rightarrow> rat result" where
  "to_mib s = (case unit_of units_by_length s of
       Some (u, n) \<Rightarrow> bind_result (float_of (without_suffix u s)) (\<lambda>x. Inr (fl (fl (x * of_nat n) / 1024\<^sup>2)))
     | None \<Rightarrow> bind_result (float_of s) (\<lambda>x. Inr (fl (x / 1024\<^sup>2))))"

record container_stat =
  cs_name :: string
  cs_cpu :: string
  cs_mem :: string

record stat_row =
  sr_container :: string
  sr_cpu_percent :: rat
  sr_mem_mib :: rat

text \<open>\<open>name.rsplit("-", 1)[0]\<close>.\<close>

definition before_last_dash :: "string \<Rightarrow> string" where
  "before_last_dash s = (if CHR ''-'' \<in> set s then rev (drop 1 (dropWhile (\<lambda>c. c \<noteq> CHR ''-'') (rev s))) else s)"

definition round1 :: "rat \<Rightarrow> rat" where
  "round1 x = fl (of_int (round_half_even (x * 10)) / 10)"

definition stat_of :: "string \<Rightarrow> container_stat \<Rightarrow> stat_row result" where
  "stat_of prefix st =
     bind_result (float_of (rstrip_char (CHR ''%'') (cs_cpu st))) (\<lambda>cpu.
     bind_result (to_mib (strip (takeWhile (\<lambda>c. c \<noteq> CHR ''/'') (cs_mem st)))) (\<lambda>mem. Inr
       \<lparr>sr_container = before_last_dash (drop (length prefix) (cs_name st)), sr_cpu_percent = cpu, sr_mem_mib = round1 mem\<rparr>))"

definition sample_containers :: "(string \<Rightarrow> container_stat result) \<Rightarrow> string \<Rightarrow> string \<Rightarrow> stat_row list result" where
  "sample_containers loads prefix output =
     bind_result (map_result (\<lambda>line. bind_result (loads line) (\<lambda>st.
         if starts_with prefix (cs_name st) then map_sum id (\<lambda>r. [r]) (stat_of prefix st) else Inr []))
       (splitlines output)) (\<lambda>rss. Inr (concat rss))"

text \<open>
  The sampling loop over its turns: the monotonic clock, the time stamp and what docker prints.
  The rows written before an exception stay in the file.
\<close>

fun sample_until :: "(string \<Rightarrow> container_stat result) \<Rightarrow> string \<Rightarrow> rat \<Rightarrow> (rat \<times> rat \<times> string) list \<Rightarrow> (rat \<times> stat_row) list \<times> exn option" where
  "sample_until loads prefix deadline [] = ([], None)"
| "sample_until loads prefix deadline ((clock, now, output) # turns) =
     (if clock < deadline
      then (case sample_containers loads prefix output of
              Inl e \<Rightarrow> ([], Some e)
            | Inr rs \<Rightarrow> (case sample_until loads prefix deadline turns of (out, e) \<Rightarrow> (map (\<lambda>r. (round1 now, r)) rs @ out, e)))
      else ([], None))"

lemma map_result_all: "map_result f xs = Inr ys \<Longrightarrow> list_all2 (\<lambda>x y. f x = Inr y) xs ys"
  by (induction xs arbitrary: ys) (auto simp: bind_result_Inr)

text \<open>Every container of the project gives one row, in the order docker prints them, and no other container does.\<close>

lemma sample_containers_exact:
  assumes "sample_containers loads prefix output = Inr rs"
  shows "\<exists>sts. map loads (splitlines output) = map Inr sts \<and>
    map Inr rs = map (stat_of prefix) (filter (\<lambda>st. starts_with prefix (cs_name st)) sts)"
proof -
  let ?f = "\<lambda>line. bind_result (loads line) (\<lambda>st. if starts_with prefix (cs_name st) then map_sum id (\<lambda>r. [r]) (stat_of prefix st) else Inr [])"
  obtain rss where r: "map_result ?f (splitlines output) = Inr rss" "rs = concat rss"
    using assms by (auto simp: sample_containers_def bind_result_Inr)
  have "list_all2 (\<lambda>x y. ?f x = Inr y) ls rss \<Longrightarrow> \<exists>sts. map loads ls = map Inr sts \<and>
      map Inr (concat rss) = map (stat_of prefix) (filter (\<lambda>st. starts_with prefix (cs_name st)) sts)" for ls rss
  proof (induction ls rss rule: list_all2_induct)
    case (Cons l ls rs1 rss)
    then obtain sts where sts: "map loads ls = map Inr sts"
      "map Inr (concat rss) = map (stat_of prefix) (filter (\<lambda>st. starts_with prefix (cs_name st)) sts)" by blast
    obtain st where st: "loads l = Inr st" "(if starts_with prefix (cs_name st) then map_sum id (\<lambda>r. [r]) (stat_of prefix st) else Inr []) = Inr rs1"
      using Cons(1) by (auto simp: bind_result_Inr)
    then have "map Inr rs1 = map (stat_of prefix) (filter (\<lambda>st. starts_with prefix (cs_name st)) [st])"
      by (cases "stat_of prefix st") (auto split: if_splits)
    then show ?case using sts st(1) by (intro exI[of _ "st # sts"]) (auto split: if_splits)
  qed simp
  from this[OF map_result_all[OF r(1)]] show ?thesis using r(2) by simp
qed

text \<open>Binary units only move the exponent of the number, so they convert it without rounding.\<close>

lemma unit_of_binary:
  "unit_of units_by_length (s @ ''KiB'') = Some (''KiB'', 1024)" "unit_of units_by_length (s @ ''MiB'') = Some (''MiB'', 1024\<^sup>2)"
  "unit_of units_by_length (s @ ''GiB'') = Some (''GiB'', 1024 ^ 3)"
proof -
  have u: "units_by_length = [(''KiB'', 1024), (''MiB'', 1024\<^sup>2), (''GiB'', 1024 ^ 3), (''kB'', 1000), (''MB'', 1000\<^sup>2), (''B'', 1)]"
    by (simp add: units_by_length_def UNITS_def)
  have n: "\<not> ends_with ''KiB'' (s @ ''MiB'')" "\<not> ends_with ''KiB'' (s @ ''GiB'')" "\<not> ends_with ''MiB'' (s @ ''GiB'')"
    by (simp_all add: ends_with_def)
  show "unit_of units_by_length (s @ ''KiB'') = Some (''KiB'', 1024)" "unit_of units_by_length (s @ ''MiB'') = Some (''MiB'', 1024\<^sup>2)"
    "unit_of units_by_length (s @ ''GiB'') = Some (''GiB'', 1024 ^ 3)"
    by (simp_all add: u n)
qed

lemma float_of_is_float: "float_of s = Inr x \<Longrightarrow> fl x = x"
  by (auto simp: float_of_def text_float_def Let_def split: option.splits if_splits list.splits)

lemma fl_down: "fl x = x \<Longrightarrow> fl (x / 2 ^ n) = x / 2 ^ n"
proof (induction n)
  case (Suc n)
  have "x / 2 ^ Suc n = (x / 2 ^ n) / 2" by (simp add: mult.commute)
  then show ?case using fl_half[OF Suc.IH[OF Suc.prems]] by (simp only:)
qed simp

lemma to_mib_binary:
  assumes "float_of s = Inr x"
  shows "to_mib (s @ ''KiB'') = Inr (x / 1024)" "to_mib (s @ ''MiB'') = Inr x" "to_mib (s @ ''GiB'') = Inr (x * 1024)"
proof -
  have f: "fl (x * 2 ^ n) = x * 2 ^ n" for n using fl_scale[OF float_of_is_float[OF assms]] .
  have "fl (x * 2 ^ n / 2 ^ m) = x * 2 ^ n / 2 ^ m" for n m using fl_down[OF f] .
  from this[of 10 20] this[of 20 20] this[of 30 20] f[of 10] f[of 20] f[of 30]
  show "to_mib (s @ ''KiB'') = Inr (x / 1024)" "to_mib (s @ ''MiB'') = Inr x" "to_mib (s @ ''GiB'') = Inr (x * 1024)"
    using assms unit_of_binary[of s] by (simp_all add: to_mib_def)
qed

section \<open>Checking the balancer\<close>

text \<open>
  What a request ends with: a JSON object with its status, \<open>pod\<close> and \<open>X-Upstream-Addr\<close>; another JSON value; a body
  that is no JSON; or no answer (\<open>urlopen\<close> raises for a status that is not a success as well).
\<close>

datatype lb_answer = Answered int "string option" "string option" | Answered_other | Bad_body string | Unreachable string

fun lb_call :: "lb_answer \<Rightarrow> (int \<times> string \<times> string) result" where
  "lb_call (Answered status pod upstream) =
     Inr (status, (case pod of Some p \<Rightarrow> p | None \<Rightarrow> ''?''), (case upstream of Some u \<Rightarrow> u | None \<Rightarrow> ''-''))"
| "lb_call Answered_other = Inl AttributeError"
| "lb_call (Bad_body exc) = Inr (0, ''FAIL ('' @ exc @ '')'', ''-'')"
| "lb_call (Unreachable exc) = Inr (0, ''FAIL ('' @ exc @ '')'', ''-'')"

fun lb_loop :: "lb_answer list \<Rightarrow> (string \<times> nat) list \<times> nat \<Rightarrow> ((string \<times> nat) list \<times> nat) result" where
  "lb_loop [] st = Inr st"
| "lb_loop (a # as) (counts, failures) = bind_result (lb_call a) (\<lambda>(status, replica, upstream).
     lb_loop as (dict_put replica (count_of counts replica + 1) counts, failures + (if status \<noteq> 200 then 1 else 0)))"

text \<open>The summary it prints and the exit status, over the answers of the requests.\<close>

definition lb_main :: "lb_answer list \<Rightarrow> (string list \<times> int) result" where
  "lb_main answers = bind_result (lb_loop answers ([], 0)) (\<lambda>(counts, failures). Inr
     (map (\<lambda>(replica, n). ''  '' @ pad_right 8 replica @ '' '' @ pad_left 3 (str_nat n) @ ''  '' @ replicate n (CHR ''#'')) (sort_key fst counts) @
      [''Failed requests: '' @ str_nat failures @ '' of '' @ str_nat (length answers)],
      if failures \<noteq> 0 then 1 else 0))"

lemma lb_loop_exact:
  "lb_loop as (counts, failures) = Inr (counts', failures') \<Longrightarrow>
     (\<exists>rs. map lb_call as = map Inr rs \<and> failures' = failures + length (filter (\<lambda>(status, _). status \<noteq> 200) rs) \<and>
       (\<forall>k. count_of counts' k = count_of counts k + length (filter (\<lambda>(_, r, _). r = k) rs)))"
proof (induction as arbitrary: counts failures)
  case (Cons a as)
  then obtain status replica upstream where a: "lb_call a = Inr (status, replica, upstream)"
    by (auto simp: bind_result_Inr)
  with Cons.prems obtain rs where rs: "map lb_call as = map Inr rs"
    "failures' = failures + (if status \<noteq> 200 then 1 else 0) + length (filter (\<lambda>(status, _). status \<noteq> 200) rs)"
    "\<forall>k. count_of counts' k = count_of (dict_put replica (count_of counts replica + 1) counts) k + length (filter (\<lambda>(_, r, _). r = k) rs)"
    using Cons.IH[of "dict_put replica (count_of counts replica + 1) counts" "failures + (if status \<noteq> 200 then 1 else 0)"] by auto
  then show ?case using a by (intro exI[of _ "(status, replica, upstream) # rs"]) (auto simp: count_of_put)
qed simp

text \<open>The check counts every request once, under its replica, and succeeds exactly when every answer was a 200.\<close>

lemma lb_main_exact:
  assumes "lb_main answers = Inr (out, code)"
  shows "\<exists>rs counts. map lb_call answers = map Inr rs \<and> lb_loop answers ([], 0) = Inr (counts, length (filter (\<lambda>(status, _). status \<noteq> 200) rs)) \<and>
    (\<forall>k. count_of counts k = length (filter (\<lambda>(_, r, _). r = k) rs)) \<and> (code = 0 \<longleftrightarrow> (\<forall>(status, _) \<in> set rs. status = 200))"
proof -
  obtain counts failures where l: "lb_loop answers ([], 0) = Inr (counts, failures)" "code = (if failures \<noteq> 0 then 1 else 0)"
    using assms by (auto simp: lb_main_def bind_result_Inr)
  from lb_loop_exact[OF l(1)] obtain rs where "map lb_call answers = map Inr rs"
    "failures = length (filter (\<lambda>(status, _). status \<noteq> 200) rs)" "\<forall>k. count_of counts k = length (filter (\<lambda>(_, r, _). r = k) rs)"
    by (auto simp: count_of_def)
  with l show ?thesis by (intro exI[of _ rs] exI[of _ counts]) (auto simp: filter_empty_conv)
qed

section \<open>The fault proxy\<close>

datatype proxy_body = Toxic string "(string \<times> int) list" | Enabled bool

text \<open>The reply of the proxy: whether it is enabled, and its toxics (type, attributes as text).\<close>

type_synonym proxy_state = "bool \<times> (string \<times> string) list"

type_synonym 'w proxy_api = "string \<Rightarrow> string \<Rightarrow> proxy_body option \<Rightarrow> ('w, exn, proxy_state option) program"

definition reset_proxy :: "'w proxy_api \<Rightarrow> ('w, exn, proxy_state option) program" where
  "reset_proxy http = http ''POST'' ''/reset'' None"

definition add_toxic :: "'w proxy_api \<Rightarrow> string \<Rightarrow> (string \<times> int) list \<Rightarrow> ('w, exn, proxy_state option) program" where
  "add_toxic http toxic_type attributes = http ''POST'' ''/proxies/redis/toxics'' (Some (Toxic toxic_type attributes))"

definition proxy_status :: "'w proxy_api \<Rightarrow> ('w, exn, string) program" where
  "proxy_status http = script_bind (http ''GET'' ''/proxies/redis'' None) (\<lambda>reply. case reply of
       None \<Rightarrow> script_raise TypeError
     | Some (enabled, toxics) \<Rightarrow> script_return
         (''proxy 'redis': enabled='' @ (if enabled then ''True'' else ''False'') @ '', toxics: '' @
          (if toxics = [] then ''none'' else join '', '' (map (\<lambda>(t, attrs). t @ '' '' @ attrs) toxics))))"

text \<open>
  \<open>None\<close> is \<open>sys.exit(__doc__)\<close>: the module has no docstring, so it exits with success and prints nothing.
\<close>

definition fault_main :: "'w proxy_api \<Rightarrow> string list \<Rightarrow> ('w, exn, string option) program" where
  "fault_main http argv =
     (let command = (case argv of [] \<Rightarrow> ''status'' | c # _ \<Rightarrow> c);
          report = script_bind (proxy_status http) (\<lambda>line. script_return (Some line))
      in if command = ''latency'' then
           script_bind (reset_proxy http) (\<lambda>_.
           case (if length argv > 1 then py_int (argv ! 1) else Some 3000) of
             None \<Rightarrow> script_raise (ValueError ''invalid literal for int()'')
           | Some ms \<Rightarrow> script_bind (add_toxic http ''latency'' [(''latency'', ms), (''jitter'', 0)]) (\<lambda>_. report))
         else if command = ''timeout'' then
           script_bind (reset_proxy http) (\<lambda>_. script_bind (add_toxic http ''timeout'' [(''timeout'', 0)]) (\<lambda>_. report))
         else if command = ''down'' then
           script_bind (reset_proxy http) (\<lambda>_. script_bind (http ''POST'' ''/proxies/redis'' (Some (Enabled False))) (\<lambda>_. report))
         else if command = ''reset'' then script_bind (reset_proxy http) (\<lambda>_. report)
         else if command \<noteq> ''status'' then script_return None
         else report)"

text \<open>A proxy that records the requests: every command that injects a fault first resets, so no fault is left from before.\<close>

definition recording :: "proxy_state option \<Rightarrow> (string \<times> string \<times> proxy_body option) list proxy_api" where
  "recording reply verb path body reqs = (Inr reply, reqs @ [(verb, path, body)])"

definition faults :: "(string \<times> string \<times> proxy_body option) list \<Rightarrow> proxy_body list" where
  "faults reqs = List.map_filter (\<lambda>(_, _, b). b) reqs"

text \<open>What is left of a request reqs once every reset has taken effect.\<close>

definition in_effect :: "(string \<times> string \<times> proxy_body option) list \<Rightarrow> proxy_body list" where
  "in_effect reqs = faults (rev (takeWhile (\<lambda>(_, path, _). path \<noteq> ''/reset'') (rev reqs)))"

lemma proxy_status_recorded: "snd (proxy_status (recording reply) reqs) = reqs @ [(''GET'', ''/proxies/redis'', None)]"
  by (simp add: proxy_status_def recording_def script_bind_def script_return_def script_raise_def split: option.split prod.split)

lemma report_recorded:
  "script_bind (proxy_status (recording reply)) (\<lambda>line. script_return (Some line)) reqs = (Inr out, reqs') \<Longrightarrow>
     reqs' = reqs @ [(''GET'', ''/proxies/redis'', None)]"
  using proxy_status_recorded[of reply reqs] by (auto simp: script_bind_Inr)

lemma request_recorded [simp]:
  "script_bind (recording reply verb path body) f reqs = f reply (reqs @ [(verb, path, body)])"
  by (simp add: script_bind_def recording_def)

lemma in_effect_after_reset:
  "list_all (\<lambda>(_, path, _). path \<noteq> ''/reset'') reqs \<Longrightarrow> in_effect (before @ (''POST'', ''/reset'', None) # reqs) = faults reqs"
  by (simp add: in_effect_def takeWhile_append list_all_iff)

lemma fault_main_in_effect:
  assumes "argv \<noteq> []" "hd argv \<in> {''latency'', ''timeout'', ''down'', ''reset''}"
    "fault_main (recording reply) argv reqs = (Inr out, reqs')"
  shows "in_effect reqs' =
    (if hd argv = ''latency'' then [Toxic ''latency'' [(''latency'', if length argv > 1 then the (py_int (argv ! 1)) else 3000), (''jitter'', 0)]]
     else if hd argv = ''timeout'' then [Toxic ''timeout'' [(''timeout'', 0)]]
     else if hd argv = ''down'' then [Enabled False] else [])"
proof -
  obtain c cs where argv: "argv = c # cs" using assms(1) by (cases argv) auto
  note d = fault_main_def reset_proxy_def add_toxic_def Let_def
  note e = in_effect_after_reset[of "[(_, _, _), (_, _, _)]"] in_effect_after_reset[of "[(_, _, _)]"]
  consider "c = ''latency''" | "c = ''timeout''" | "c = ''down''" | "c = ''reset''" using assms(2) argv by auto
  then show ?thesis using assms(3) unfolding argv
    by cases (auto simp: d e faults_def script_raise_def dest!: report_recorded split: option.splits if_splits)
qed

lemma fault_main_unknown:
  "c \<notin> {''latency'', ''timeout'', ''down'', ''reset'', ''status''} \<Longrightarrow> fault_main http (c # cs) w = (Inr None, w)"
  by (simp add: fault_main_def script_return_def)

end
