(* ===== verification/Stability.thy ===== *)
theory Stability
  imports Containers
begin

text \<open>
  \<open>scripts/stability_test.py\<close>: the same build measured under different conditions of the host. Docker and k6 are
  child processes, a parameter that takes an argument list to a program over the state of the host;
  \<open>docker_laws\<close> states what the script relies on of them. Lemmas: whatever happens while
  k6 runs, a scenario whose noise started ends with the noise removed and the processor limit restored; a
  noise container that fails to start leaves the earlier ones running; the gate of a row is the exit status of k6; the bars of
  the chart stay inside it.
\<close>

section \<open>Docker\<close>

type_synonym 'w exec = "string list \<Rightarrow> ('w, exn, completed_process) program"

definition NOISE_IMAGE :: string where "NOISE_IMAGE = ''alpine:3.22''"
definition API_CPUS :: string where "API_CPUS = ''2''"
definition THROTTLED_CPUS :: string where "THROTTLED_CPUS = ''0.25''"

definition docker :: "'w exec \<Rightarrow> string list \<Rightarrow> bool \<Rightarrow> ('w, exn, completed_process) program" where
  "docker exec args check = (if check then checked (exec (''docker'' # args)) else exec (''docker'' # args))"

definition mib :: "string \<Rightarrow> rat result" where
  "mib usage =
     (let used = strip (takeWhile (\<lambda>c. c \<noteq> CHR ''/'') usage)
      in if ends_with ''GiB'' used then bind_result (float_of (without_suffix ''GiB'' used)) (\<lambda>x. Inr (fl (x * 1024)))
         else if ends_with ''MiB'' used then bind_result (float_of (without_suffix ''MiB'' used)) (\<lambda>x. Inr (fl (x * 1)))
         else if ends_with ''KiB'' used then bind_result (float_of (without_suffix ''KiB'' used)) (\<lambda>x. Inr (fl (x * (1 / 1024))))
         else bind_result (float_of (rstrip_char (CHR ''B'') used)) (\<lambda>x. Inr (fl (fl (x / 1024) / 1024))))"

definition percent :: "string \<Rightarrow> rat result" where
  "percent value = float_of (rstrip_char (CHR ''%'') value)"

text \<open>
  The sampling thread over the answers of \<open>docker stats\<close> until it is stopped; an exception ends the thread and the
  samples taken so far stay.
\<close>

fun sampler_run :: "(string \<Rightarrow> (string \<times> string) result) \<Rightarrow> completed_process list \<Rightarrow> (rat \<times> rat) list" where
  "sampler_run loads [] = []"
| "sampler_run loads (p # ps) =
     (if returncode p = 0 \<and> strip (stdout p) \<noteq> []
      then (case bind_result (loads (stdout p)) (\<lambda>(cpu, mem). bind_result (percent cpu) (\<lambda>c. bind_result (mib mem) (\<lambda>m. Inr (c, m)))) of
              Inl _ \<Rightarrow> []
            | Inr s \<Rightarrow> s # sampler_run loads ps)
      else sampler_run loads ps)"

section \<open>Noise and k6\<close>

definition noise_names :: "string \<Rightarrow> int \<Rightarrow> string list" where
  "noise_names project workers = map (\<lambda>i. project @ ''-noise-'' @ str_nat i) [0..<nat workers]"

definition noise_args :: "string \<Rightarrow> string list" where
  "noise_args name = [''run'', ''-d'', ''--rm'', ''--name'', name, NOISE_IMAGE, ''sh'', ''-c'',
     ''while :; do head -c 268435456 /dev/urandom | gzip -9 > /dev/null; done'']"

definition start_noise :: "'w exec \<Rightarrow> string \<Rightarrow> int \<Rightarrow> ('w, exn, string list) program" where
  "start_noise exec project workers =
     (let names = noise_names project workers
      in script_bind (script_map (\<lambda>name. docker exec (noise_args name) True) names) (\<lambda>_. script_return names))"

definition remove_args :: "string list \<Rightarrow> string list" where
  "remove_args names = ''rm'' # ''-f'' # names"

definition stop_noise :: "'w exec \<Rightarrow> string list \<Rightarrow> ('w, exn, unit) program" where
  "stop_noise exec names =
     (if names \<noteq> [] then script_bind (docker exec (remove_args names) False) (\<lambda>_. script_return ()) else script_return ())"

definition k6_args :: "string \<Rightarrow> string \<Rightarrow> string \<Rightarrow> int \<Rightarrow> string list" where
  "k6_args project name steady rps =
     [''compose'', ''-p'', project, ''--profile'', ''loadtest'', ''run'', ''--rm'', ''--no-deps'', ''-e'', ''PROFILE=peak'', ''-e'',
      ''PEAK_RPS='' @ str_int rps, ''-e'', ''STEADY='' @ steady, ''k6'', ''run'', ''--quiet'', ''--summary-export'',
      ''/scripts/results/lab5/'' @ name @ ''.json'', ''/scripts/vehicle_state.js'']"

definition run_k6 :: "'w exec \<Rightarrow> string \<Rightarrow> string \<Rightarrow> string \<Rightarrow> int \<Rightarrow> ('w, exn, int) program" where
  "run_k6 exec project name steady rps =
     script_bind (exec (''docker'' # k6_args project name steady rps)) (\<lambda>p. script_return (returncode p))"

section \<open>Results\<close>

text \<open>The k6 summary, as the script reads it.\<close>

record k6_metrics =
  km_requests :: int
  km_avg :: rat
  km_med :: rat
  km_p95 :: rat
  km_p99 :: rat
  km_max :: rat
  km_failed :: rat

record stability_row =
  sb_scenario :: string
  sb_requests :: int
  sb_avg_ms :: rat
  sb_med_ms :: rat
  sb_p95_ms :: rat
  sb_p99_ms :: rat
  sb_max_ms :: rat
  sb_error_rate :: rat
  sb_cpu_median :: rat
  sb_ram_max :: rat
  sb_k6_exit :: int
  sb_gate :: string

definition round_to :: "nat \<Rightarrow> rat \<Rightarrow> rat" where
  "round_to d x = fl (of_int (round_half_even (x * 10 ^ d)) / 10 ^ d)"

definition cpu_median :: "(rat \<times> rat) list \<Rightarrow> rat" where
  "cpu_median samples = (let cpu = (if samples = [] then [0] else sort (map fst samples)) in cpu ! (length cpu div 2))"

definition ram_max :: "(rat \<times> rat) list \<Rightarrow> rat" where
  "ram_max samples = (if samples = [] then 0 else Max (set (map snd samples)))"

definition summarize_run :: "string \<Rightarrow> int \<Rightarrow> (rat \<times> rat) list \<Rightarrow> k6_metrics \<Rightarrow> stability_row" where
  "summarize_run name exit_code samples m =
     \<lparr>sb_scenario = name, sb_requests = km_requests m, sb_avg_ms = round_to 2 (km_avg m), sb_med_ms = round_to 2 (km_med m),
      sb_p95_ms = round_to 2 (km_p95 m), sb_p99_ms = round_to 2 (km_p99 m), sb_max_ms = round_to 2 (km_max m),
      sb_error_rate = round_to 4 (km_failed m), sb_cpu_median = round_to 1 (cpu_median samples), sb_ram_max = round_to 1 (ram_max samples),
      sb_k6_exit = exit_code, sb_gate = (if exit_code = 0 then ''PASS'' else ''FAIL'')\<rparr>"

text \<open>\<open>repr\<close> of a float is an argument.\<close>

definition stability_markdown :: "(rat \<Rightarrow> string) \<Rightarrow> stability_row list \<Rightarrow> string" where
  "stability_markdown num rs =
     ''| Scenario | Requests | avg, ms | median, ms | p95, ms | p99, ms | max, ms | Error rate | api CPU median, % | api RAM max, MiB | Gate (p95<100 AND err<1%) |'' @ NL @
     ''|---|---|---|---|---|---|---|---|---|---|---|'' @ NL @
     join NL (map (\<lambda>r. ''| '' @ join '' | '' [sb_scenario r, str_int (sb_requests r), num (sb_avg_ms r), num (sb_med_ms r), num (sb_p95_ms r),
        num (sb_p99_ms r), num (sb_max_ms r), fixed 2 (fl (sb_error_rate r * 100)) @ ''%'', num (sb_cpu_median r), num (sb_ram_max r),
        ''**'' @ sb_gate r @ ''**''] @ '' |'') rs) @ NL"

text \<open>The chart: a bar for each row, the limit as a line.\<close>

definition chart_top :: "stability_row list \<Rightarrow> rat" where
  "chart_top rs = fl (max (Max (set (map sb_p95_ms rs))) 100 * fl (115 / 100))"

definition chart_y :: "rat \<Rightarrow> rat \<Rightarrow> rat" where
  "chart_y tv v = fl (260 - fl (fl (v / tv) * 230))"

definition chart_bar :: "(rat \<Rightarrow> string) \<Rightarrow> rat \<Rightarrow> rat \<Rightarrow> nat \<times> stability_row \<Rightarrow> string list" where
  "chart_bar num tv step = (\<lambda>(i, r).
     let x = fl (fl (60 + fl (of_nat i * step)) + fl (fl (step - 70) / 2));
         color = (if sb_gate r = ''PASS'' then ''#2e7d32'' else ''#c62828'');
         y = chart_y tv (sb_p95_ms r); y0 = chart_y tv 0; middle = num (fl (x + 35)); q = QUOTE in
     [''<rect x='' @ q @ num x @ q @ '' y='' @ q @ num y @ q @ '' width='' @ q @ ''70'' @ q @ '' height='' @ q @ num (fl (y0 - y)) @ q @
        '' fill='' @ q @ color @ q @ ''/>'',
      ''<text x='' @ q @ middle @ q @ '' y='' @ q @ num (fl (y - 4)) @ q @ '' text-anchor='' @ q @ ''middle'' @ q @ ''>'' @
        num (sb_p95_ms r) @ '' ('' @ sb_gate r @ '')</text>'',
      ''<text x='' @ q @ middle @ q @ '' y='' @ q @ ''276'' @ q @ '' text-anchor='' @ q @ ''middle'' @ q @ ''>'' @ sb_scenario r @ ''</text>''])"

definition stability_svg :: "(rat \<Rightarrow> string) \<Rightarrow> stability_row list \<Rightarrow> string result" where
  "stability_svg num rs =
     (if rs = [] then Inl (ValueError ''max() iterable argument is empty'')
      else let tv = chart_top rs; step = fl (560 / of_nat (length rs)); q = QUOTE; line = num (chart_y tv 0); limit = num (chart_y tv 100) in Inr (join NL (
       [''<svg xmlns='' @ q @ ''http://www.w3.org/2000/svg'' @ q @ '' width='' @ q @ ''640'' @ q @ '' height='' @ q @ ''300'' @ q @
          '' font-family='' @ q @ ''sans-serif'' @ q @ '' font-size='' @ q @ ''12'' @ q @ ''>'',
        ''<rect width='' @ q @ ''100%'' @ q @ '' height='' @ q @ ''100%'' @ q @ '' fill='' @ q @ ''white'' @ q @ ''/>'',
        ''<text x='' @ q @ num 320 @ q @ '' y='' @ q @ ''18'' @ q @ '' text-anchor='' @ q @ ''middle'' @ q @ '' font-size='' @ q @ ''14'' @ q @
          ''>p95 GET /vehicles/{id}/state, ms (same code, different infrastructure)</text>'',
        ''<line x1='' @ q @ ''60'' @ q @ '' y1='' @ q @ line @ q @ '' x2='' @ q @ ''630'' @ q @ '' y2='' @ q @ line @ q @
          '' stroke='' @ q @ ''black'' @ q @ ''/>''] @
       concat (map (chart_bar num tv step) (zip [0..<length rs] rs)) @
       [''<line x1='' @ q @ ''60'' @ q @ '' y1='' @ q @ limit @ q @ '' x2='' @ q @ ''630'' @ q @ '' y2='' @ q @ limit @ q @
          '' stroke='' @ q @ ''#ef6c00'' @ q @ '' stroke-dasharray='' @ q @ ''6 4'' @ q @ ''/>'',
        ''<text x='' @ q @ ''64'' @ q @ '' y='' @ q @ num (fl (chart_y tv 100 - 4)) @ q @ '' fill='' @ q @ ''#ef6c00'' @ q @
          ''>Quality Gate: p95 &lt; 100 ms</text>'',
        ''</svg>'']) @ NL))"

section \<open>The experiment\<close>

definition update_args :: "string \<Rightarrow> string \<Rightarrow> string list" where
  "update_args cpus container = [''update'', ''--cpus'', cpus, container]"

record stability_args =
  ex_project :: string
  ex_steady :: string
  ex_peak_rps :: int
  ex_noise_workers :: int

definition api_container :: "stability_args \<Rightarrow> string" where
  "api_container args = ex_project args @ ''-api-1''"

text \<open>
  One turn of the loop. What the sampling thread sees during the run and the summary that k6 writes are arguments;
  pauses and printing are left out.
\<close>

definition run_scenario :: "'w exec \<Rightarrow> (string \<Rightarrow> (string \<times> string) result) \<Rightarrow> (string \<Rightarrow> completed_process list) \<Rightarrow>
    (string \<Rightarrow> ('w, exn, k6_metrics) program) \<Rightarrow> stability_args \<Rightarrow> string \<times> string \<times> int \<Rightarrow> ('w, exn, stability_row) program" where
  "run_scenario exec loads readings read_metrics args = (\<lambda>(name, cpus, workers).
     script_bind (docker exec (update_args cpus (api_container args)) True) (\<lambda>_.
     script_bind (start_noise exec (ex_project args) workers) (\<lambda>noise.
     script_bind (script_finally (run_k6 exec (ex_project args) name (ex_steady args) (ex_peak_rps args))
       (script_bind (stop_noise exec noise) (\<lambda>_. docker exec (update_args API_CPUS (api_container args)) True))) (\<lambda>exit_code.
     script_bind (read_metrics name) (\<lambda>m. script_return (summarize_run name exit_code (sampler_run loads (readings name)) m))))))"

definition scenarios :: "stability_args \<Rightarrow> (string \<times> string \<times> int) list" where
  "scenarios args = [(''isolated-1'', API_CPUS, 0), (''isolated-2'', API_CPUS, 0), (''noise-gzip'', API_CPUS, ex_noise_workers args),
     (''throttled'', THROTTLED_CPUS, 0)]"

definition stability_main :: "'w exec \<Rightarrow> (string \<Rightarrow> (string \<times> string) result) \<Rightarrow> (string \<Rightarrow> completed_process list) \<Rightarrow>
    (string \<Rightarrow> ('w, exn, k6_metrics) program) \<Rightarrow> stability_args \<Rightarrow> ('w, exn, stability_row list) program" where
  "stability_main exec loads readings read_metrics args =
     script_bind (docker exec [''pull'', ''-q'', NOISE_IMAGE] True) (\<lambda>_.
     script_map (run_scenario exec loads readings read_metrics args) (scenarios args))"

section \<open>What the script relies on\<close>

text \<open>
  \<open>containers\<close> are the running containers of the project's noise, \<open>cpus\<close> the processor limit of the API. A command that
  fails or is interrupted may have had its effect or not.
\<close>

definition docker_laws :: "'w exec \<Rightarrow> ('w \<Rightarrow> string set) \<Rightarrow> ('w \<Rightarrow> string) \<Rightarrow> string \<Rightarrow> bool" where
  "docker_laws exec containers cpus api =
     ((\<forall>name w. containers (snd (exec (''docker'' # noise_args name) w)) \<subseteq> insert name (containers w)) \<and>
      (\<forall>c w. containers (snd (exec (''docker'' # update_args c api) w)) = containers w) \<and>
      (\<forall>c w p w'. exec (''docker'' # update_args c api) w = (Inr p, w') \<and> returncode p = 0 \<longrightarrow> cpus w' = c) \<and>
      (\<forall>project name steady rps w. containers (snd (exec (''docker'' # k6_args project name steady rps) w)) = containers w) \<and>
      (\<forall>w. containers (snd (exec (''docker'' # [''pull'', ''-q'', NOISE_IMAGE]) w)) = containers w))"

text \<open>The daemon answers: removal and the update of the limit succeed.\<close>

definition cleanup_works :: "'w exec \<Rightarrow> ('w \<Rightarrow> string set) \<Rightarrow> string \<Rightarrow> bool" where
  "cleanup_works exec containers api =
     ((\<forall>names w. \<exists>p w'. exec (''docker'' # remove_args names) w = (Inr p, w') \<and> containers w' = containers w - set names) \<and>
      (\<forall>c w. \<exists>p w'. exec (''docker'' # update_args c api) w = (Inr p, w') \<and> returncode p = 0))"

definition noise_starts :: "'w exec \<Rightarrow> bool" where
  "noise_starts exec = (\<forall>name w. \<exists>p w'. exec (''docker'' # noise_args name) w = (Inr p, w') \<and> returncode p = 0)"

section \<open>What a scenario leaves behind\<close>

lemma docker_snd: "snd (docker exec args check w) = snd (exec (''docker'' # args) w)"
  by (simp add: docker_def checked_def script_bind_def script_return_def script_raise_def split: prod.split sum.split)

lemma stop_noise_works:
  assumes "cleanup_works exec containers api"
  shows "\<exists>w'. stop_noise exec names w = (Inr (), w') \<and> containers w' = containers w - set names"
proof (cases "names = []")
  case False
  obtain p w' where "exec (''docker'' # remove_args names) w = (Inr p, w')" "containers w' = containers w - set names"
    using assms unfolding cleanup_works_def by blast
  then show ?thesis using False by (simp add: stop_noise_def docker_def script_bind_def script_return_def)
qed (simp add: stop_noise_def script_return_def)

lemma update_works:
  assumes "docker_laws exec containers cpus api" "cleanup_works exec containers api"
  shows "\<exists>p w'. docker exec (update_args c api) True w = (Inr p, w') \<and> containers w' = containers w \<and> cpus w' = c"
proof -
  obtain p w' where u: "exec (''docker'' # update_args c api) w = (Inr p, w')" "returncode p = 0"
    using assms(2) unfolding cleanup_works_def by blast
  have "containers (snd (exec (''docker'' # update_args c api) w)) = containers w" "cpus w' = c"
    using assms(1) u unfolding docker_laws_def by blast+
  then show ?thesis using u by (simp add: docker_def checked_def script_bind_def script_return_def)
qed

lemma cleanup_restores:
  assumes "docker_laws exec containers cpus api" "cleanup_works exec containers api"
  shows "\<exists>p w'. script_bind (stop_noise exec names) (\<lambda>_. docker exec (update_args c api) True) w = (Inr p, w') \<and>
    containers w' = containers w - set names \<and> cpus w' = c"
proof -
  obtain w1 where w1: "stop_noise exec names w = (Inr (), w1)" "containers w1 = containers w - set names"
    using stop_noise_works[OF assms(2)] by blast
  show ?thesis using update_works[OF assms, of c w1] w1 by (auto simp: script_bind_def)
qed

lemma run_k6_snd: "snd (run_k6 exec project name steady rps w) = snd (exec (''docker'' # k6_args project name steady rps) w)"
  by (simp add: run_k6_def script_bind_def script_return_def split: prod.split sum.split)

lemma start_noise_snd:
  assumes "docker_laws exec containers cpus api"
  shows "containers (snd (start_noise exec project workers w)) \<subseteq> containers w \<union> set (noise_names project workers)"
proof -
  have "containers (snd (script_map (\<lambda>name. docker exec (noise_args name) True) names w)) \<subseteq> containers w \<union> set names" for names
  proof (induction names arbitrary: w)
    case (Cons n names)
    obtain r w1 where r: "docker exec (noise_args n) True w = (r, w1)" by fastforce
    have "containers w1 \<subseteq> insert n (containers w)"
      using assms docker_snd[of exec "noise_args n" True w] r by (auto simp: docker_laws_def)
    with Cons.IH[of w1] show ?case
      by (cases r) (auto simp: script_bind_def script_return_def r split: prod.split sum.split)
  qed (simp add: script_return_def)
  then show ?thesis by (auto simp: start_noise_def Let_def script_bind_def script_return_def split: prod.split sum.split)
     (metis snd_conv in_mono UnE)+
qed

lemma noise_started:
  assumes "docker_laws exec containers cpus api" "noise_starts exec"
  shows "\<exists>w'. start_noise exec project workers w = (Inr (noise_names project workers), w') \<and>
    containers w' \<subseteq> containers w \<union> set (noise_names project workers)"
proof -
  have "\<exists>ps w'. script_map (\<lambda>name. docker exec (noise_args name) True) names w = (Inr ps, w')" for names
  proof (induction names arbitrary: w)
    case (Cons n names)
    obtain p w1 where "exec (''docker'' # noise_args n) w = (Inr p, w1)" "returncode p = 0"
      using assms(2) unfolding noise_starts_def by blast
    then have "docker exec (noise_args n) True w = (Inr p, w1)" by (simp add: docker_def checked_Inr)
    then show ?case using Cons.IH[of w1] by (auto simp: script_bind_def script_return_def)
  qed (simp add: script_return_def)
  then obtain ps w' where "script_map (\<lambda>name. docker exec (noise_args name) True) (noise_names project workers) w = (Inr ps, w')" by blast
  then have r: "start_noise exec project workers w = (Inr (noise_names project workers), w')"
    by (simp add: start_noise_def Let_def script_bind_def script_return_def)
  with start_noise_snd[OF assms(1), of project workers w] show ?thesis by simp
qed

text \<open>
  However k6 ends (also when it is interrupted or cannot be run), a scenario whose noise starts leaves the API with
  its normal limit and none of its noise containers.
\<close>

lemma scenario_cleans_up:
  assumes laws: "docker_laws exec containers cpus (api_container args)" and works: "cleanup_works exec containers (api_container args)"
    and keep: "\<And>n w. containers (snd (read_metrics n w)) = containers w \<and> cpus (snd (read_metrics n w)) = cpus w"
    and started: "noise_starts exec"
  shows "containers (snd (run_scenario exec loads readings read_metrics args (name, limit, workers) w)) \<subseteq> containers w \<and>
    cpus (snd (run_scenario exec loads readings read_metrics args (name, limit, workers) w)) = API_CPUS"
proof -
  let ?names = "noise_names (ex_project args) workers"
  let ?k6 = "run_k6 exec (ex_project args) name (ex_steady args) (ex_peak_rps args)"
  let ?clean = "script_bind (stop_noise exec ?names) (\<lambda>_. docker exec (update_args API_CPUS (api_container args)) True)"
  obtain p1 w1 where u: "docker exec (update_args limit (api_container args)) True w = (Inr p1, w1)" "containers w1 = containers w"
    using update_works[OF laws works] by blast
  obtain w2 where n: "start_noise exec (ex_project args) workers w1 = (Inr ?names, w2)" "containers w2 \<subseteq> containers w1 \<union> set ?names"
    using noise_started[OF laws started] by blast
  obtain r w3 where k: "?k6 w2 = (r, w3)" by fastforce
  have k2: "containers w3 = containers w2"
    using laws run_k6_snd[of exec "ex_project args" name "ex_steady args" "ex_peak_rps args" w2] k unfolding docker_laws_def by simp
  obtain p4 w4 where c: "?clean w3 = (Inr p4, w4)" "containers w4 = containers w3 - set ?names" "cpus w4 = API_CPUS"
    using cleanup_restores[OF laws works] by blast
  have f: "script_finally ?k6 ?clean w2 = (r, w4)" by (simp add: script_finally_def k c(1))
  have "containers w4 \<subseteq> containers w" using u(2) n(2) k2 c(2) by blast
  moreover have "snd (run_scenario exec loads readings read_metrics args (name, limit, workers) w) =
      (case r of Inl e \<Rightarrow> w4 | Inr x \<Rightarrow> snd (read_metrics name w4))"
    by (cases r) (simp_all add: run_scenario_def script_bind_def u(1) n(1) f script_return_def split: prod.split sum.split)
  ultimately show ?thesis using c(3) keep[of name w4] by (cases r) auto
qed

text \<open>So does the whole experiment, which starts from the normal limit.\<close>

lemma stability_main_cleans_up:
  assumes laws: "docker_laws exec containers cpus (api_container args)" and works: "cleanup_works exec containers (api_container args)"
    and keep: "\<And>n w. containers (snd (read_metrics n w)) = containers w \<and> cpus (snd (read_metrics n w)) = cpus w"
    and started: "noise_starts exec"
    and pull: "\<And>w. cpus (snd (exec (''docker'' # [''pull'', ''-q'', NOISE_IMAGE]) w)) = cpus w"
    and "cpus w = API_CPUS"
  shows "containers (snd (stability_main exec loads readings read_metrics args w)) \<subseteq> containers w \<and>
    cpus (snd (stability_main exec loads readings read_metrics args w)) = API_CPUS"
proof -
  let ?R = "\<lambda>u v. cpus u = API_CPUS \<longrightarrow> containers v \<subseteq> containers u \<and> cpus v = API_CPUS"
  have "script_preorder ?R" by unfold_locales auto
  note R = script_preorder.bind[OF this] script_preorder.mapped[OF this]
  have "obeys ?R (run_scenario exec loads readings read_metrics args x)" for x
  proof -
    obtain name limit workers where x: "x = (name, limit, workers)" by (cases x)
    show ?thesis using scenario_cleans_up[where exec = exec and containers = containers and cpus = cpus and args = args and read_metrics = read_metrics
        and loads = loads and readings = readings and name = name and limit = limit and workers = workers, OF laws works _ started] keep
      by (simp add: obeys_def x)
  qed
  moreover have "obeys ?R (docker exec [''pull'', ''-q'', NOISE_IMAGE] True)"
    using pull laws by (auto simp: obeys_def docker_snd docker_laws_def)
  ultimately have "obeys ?R (stability_main exec loads readings read_metrics args)"
    unfolding stability_main_def by (intro R) auto
  then show ?thesis using assms(6) by (auto simp: obeys_def)
qed

lemma run_scenario_row:
  assumes "run_scenario exec loads readings read_metrics args x w = (Inr r, w')"
  shows "\<exists>e samples m. r = summarize_run (fst x) e samples m"
proof -
  obtain name limit workers where x: "x = (name, limit, workers)" by (cases x)
  show ?thesis using assms unfolding run_scenario_def x prod.case script_bind_Inr script_return_Inr by auto
qed

text \<open>The rows: one for each scenario in order, with the exit status of its k6 as the gate.\<close>

lemma stability_rows:
  assumes "stability_main exec loads readings read_metrics args w = (Inr rs, w')"
  shows "map sb_scenario rs = map fst (scenarios args) \<and> (\<forall>r \<in> set rs. sb_gate r = ''PASS'' \<longleftrightarrow> sb_k6_exit r = 0)"
proof -
  have "map sb_scenario rs = map fst xs \<and> (\<forall>r \<in> set rs. sb_gate r = ''PASS'' \<longleftrightarrow> sb_k6_exit r = 0)"
    if "script_map (run_scenario exec loads readings read_metrics args) xs v = (Inr rs, w')" for xs v
    using that
  proof (induction xs arbitrary: rs v)
    case (Cons x xs)
    obtain r ss v1 where r: "run_scenario exec loads readings read_metrics args x v = (Inr r, v1)"
      "script_map (run_scenario exec loads readings read_metrics args) xs v1 = (Inr ss, w')" "rs = r # ss"
      using Cons.prems by (auto simp: script_bind_Inr)
    obtain e ss m where "r = summarize_run (fst x) e ss m" using run_scenario_row[OF r(1)] by blast
    then have "sb_scenario r = fst x" "sb_gate r = ''PASS'' \<longleftrightarrow> sb_k6_exit r = 0" by (simp_all add: summarize_run_def)
    then show ?case using Cons.IH[OF r(2)] r(3) by simp
  qed simp
  then show ?thesis using assms by (auto simp: stability_main_def script_bind_Inr)
qed

section \<open>A noise container that does not start\<close>

text \<open>An engine whose memory holds one container: the second \<open>docker run\<close> fails.\<close>

record engine =
  eg_containers :: "string list"
  eg_cpus :: string

definition small_engine :: "engine exec" where
  "small_engine args w =
     (let done = \<lparr>returncode = 0, stdout = [], stderr = []\<rparr>
      in if take 2 (drop 1 args) = [''run'', ''-d'']
         then (if eg_containers w = [] then (Inr done, w\<lparr>eg_containers := [args ! 5]\<rparr>)
               else (Inr \<lparr>returncode = 125, stdout = [], stderr = ''no memory''\<rparr>, w))
         else if take 1 (drop 1 args) = [''rm''] then (Inr done, w\<lparr>eg_containers := filter (\<lambda>c. c \<notin> set (drop 3 args)) (eg_containers w)\<rparr>)
         else if take 1 (drop 1 args) = [''update''] then (Inr done, w\<lparr>eg_cpus := args ! 3\<rparr>)
         else (Inr done, w))"

text \<open>It keeps the laws and its clean-up works.\<close>

lemma small_engine_ok:
  "docker_laws small_engine (set \<circ> eg_containers) eg_cpus api" "cleanup_works small_engine (set \<circ> eg_containers) api"
  by (auto simp: docker_laws_def cleanup_works_def small_engine_def noise_args_def update_args_def k6_args_def remove_args_def Let_def)

text \<open>
  Two noise workers on it: the second fails, and the script ends with the first still running, because the noise is
  started before the \<open>try\<close> that removes it.
\<close>

lemma noise_leaks:
  "run_scenario small_engine loads readings read_metrics \<lparr>ex_project = ''p'', ex_steady = ''40s'', ex_peak_rps = 300, ex_noise_workers = 2\<rparr>
     (''noise-gzip'', API_CPUS, 2) \<lparr>eg_containers = [], eg_cpus = API_CPUS\<rparr> =
   (Inl CalledProcessError, \<lparr>eg_containers = [''p-noise-0''], eg_cpus = API_CPUS\<rparr>)"
proof -
  have "noise_names ''p'' 2 = [''p-noise-0'', ''p-noise-1'']" by code_simp
  then show ?thesis
    by (simp add: run_scenario_def script_bind_def script_return_def script_raise_def docker_def checked_def start_noise_def Let_def
        small_engine_def update_args_def noise_args_def)
qed

section \<open>The samples\<close>

text \<open>The reported processor use is an upper median: half of the samples or more are at most it, and at most half are below.\<close>

lemma cpu_median_middle:
  assumes "samples \<noteq> []"
  shows "length samples < 2 * length (filter (\<lambda>(c, _). c \<le> cpu_median samples) samples) + 1"
    "2 * length (filter (\<lambda>(c, _). c < cpu_median samples) samples) \<le> length samples"
proof -
  let ?cpu = "sort (map fst samples)" and ?k = "length samples div 2"
  have m: "cpu_median samples = ?cpu ! ?k" using assms by (simp add: cpu_median_def)
  have k: "?k < length ?cpu" using assms by simp
  have len: "length (filter P ?cpu) = length (filter (\<lambda>(c, _). P c) samples)" for P
    unfolding length_filter_sort by (simp add: filter_map comp_def case_prod_unfold)
  from sorted_nth_counts[OF sorted_sort k] show
    "length samples < 2 * length (filter (\<lambda>(c, _). c \<le> cpu_median samples) samples) + 1"
    "2 * length (filter (\<lambda>(c, _). c < cpu_median samples) samples) \<le> length samples"
    unfolding m len by linarith+
qed

text \<open>Both scripts read the memory column of docker alike in binary units; only the other converter knows decimal ones.\<close>

lemma mib_agrees:
  assumes "float_of s = Inr x" "strip (s @ u) = s @ u" "CHR ''/'' \<notin> set s" "u \<in> {''KiB'', ''MiB'', ''GiB''}"
  shows "mib (s @ u) = to_mib (s @ u)"
proof -
  have t: "takeWhile (\<lambda>c. c \<noteq> CHR ''/'') (s @ u) = s @ u"
    using assms(3,4) by (intro takeWhile_eq_all_conv[THEN iffD2]) auto
  have fx: "fl x = x" by (rule float_of_is_float[OF assms(1)])
  have n: "\<not> ends_with ''GiB'' (s @ ''MiB'')" "\<not> ends_with ''GiB'' (s @ ''KiB'')" "\<not> ends_with ''MiB'' (s @ ''KiB'')"
    by (simp_all add: ends_with_def)
  from assms(4) consider "u = ''KiB''" | "u = ''MiB''" | "u = ''GiB''" by auto
  then show ?thesis
  proof cases
    case 1
    then show ?thesis using n t assms to_mib_binary[OF assms(1)] fl_down[OF fx, of 10] by (simp add: mib_def Let_def)
  next
    case 2
    then show ?thesis using n t assms to_mib_binary[OF assms(1)] fx by (simp add: mib_def Let_def)
  next
    case 3
    then show ?thesis using n t assms to_mib_binary[OF assms(1)] fl_scale[OF fx, of 10] by (simp add: mib_def Let_def)
  qed
qed

lemma mib_decimal: "mib ''64kB'' = Inl (ValueError ''could not convert string to float'')"
  by code_simp

section \<open>The chart\<close>

lemma chart_y_range:
  assumes "0 \<le> v" "v \<le> tv"
  shows "30 \<le> chart_y tv v" "chart_y tv v \<le> 260"
proof -
  have ints: "fl 230 = 230" "fl 30 = 30" "fl 260 = 260" "fl 1 = 1"
    using fl_of_int[of 230] fl_of_int[of 30] fl_of_int[of 260] fl_of_int[of 1] by simp_all
  have q: "0 \<le> v / tv" "v / tv \<le> 1" using assms by (auto simp: divide_le_eq_1)
  then have p: "0 \<le> fl (v / tv)" "fl (v / tv) \<le> 1" using fl_nonneg fl_le_float[OF q(2) ints(4)] by auto
  then have "fl (v / tv) * 230 \<le> 230" "0 \<le> fl (v / tv) * 230" by simp_all
  then have "fl (fl (v / tv) * 230) \<le> 230" "0 \<le> fl (fl (v / tv) * 230)"
    using fl_le_float[OF _ ints(1)] fl_nonneg by blast+
  then show "30 \<le> chart_y tv v" "chart_y tv v \<le> 260"
    unfolding chart_y_def using fl_le_float[OF _ ints(3)] fl_ge_float[OF _ ints(2)] by simp_all
qed

lemma chart_y_antimono: "0 < tv \<Longrightarrow> v \<le> w \<Longrightarrow> chart_y tv w \<le> chart_y tv v"
  unfolding chart_y_def by (intro fl_mono diff_left_mono mult_right_mono) (simp_all add: divide_right_mono)

text \<open>Every bar, and the line of the limit, lies inside the plot, and a slower scenario has a taller bar.\<close>

lemma chart_inside:
  assumes "r \<in> set rs" "0 \<le> sb_p95_ms r" "fl (sb_p95_ms r) = sb_p95_ms r"
  shows "30 \<le> chart_y (chart_top rs) (sb_p95_ms r)" "chart_y (chart_top rs) (sb_p95_ms r) \<le> chart_y (chart_top rs) 0" "chart_y (chart_top rs) 0 \<le> 260"
    "30 \<le> chart_y (chart_top rs) 100"
proof -
  let ?m = "max (Max (set (map sb_p95_ms rs))) 100"
  have one: "1 \<le> fl (115 / 100)" using fl_ge_float[of 1 "115 / 100"] fl_of_int[of 1] by simp
  have up: "v \<le> chart_top rs" if "v \<le> ?m" "fl v = v" "0 \<le> v" for v
  proof -
    have "v * 1 \<le> ?m * fl (115 / 100)" using that one by (intro mult_mono) auto
    then show ?thesis using fl_ge_float[OF _ that(2)] by (simp add: chart_top_def)
  qed
  have r: "sb_p95_ms r \<le> ?m" using assms(1) by (auto simp: le_max_iff_disj)
  have h: "100 \<le> chart_top rs" using up[of 100] fl_of_int[of 100] by simp
  show "30 \<le> chart_y (chart_top rs) (sb_p95_ms r)" by (rule chart_y_range(1)[OF assms(2) up[OF r assms(3,2)]])
  show "chart_y (chart_top rs) (sb_p95_ms r) \<le> chart_y (chart_top rs) 0" using h assms(2) by (intro chart_y_antimono) auto
  show "chart_y (chart_top rs) 0 \<le> 260" "30 \<le> chart_y (chart_top rs) 100" using h by (auto intro: chart_y_range)
qed

end
