(* ===== verification/Halstead.thy ===== *)
theory Halstead
  imports Scripts LoadReport
begin

text \<open>
  \<open>scripts/halstead_tokens.py\<close>: Halstead's measures over the tokens of a Python file. The tokens and the syntax
  tree that the standard library reads from the text, and \<open>math.log2\<close>, are arguments. Lemmas: every
  counted token is counted once, measures over consecutive line ranges add up, and the global row counts
  every token of every file over the union of the vocabularies.
\<close>

section \<open>Tokens\<close>

datatype token_type = T_COMMENT | T_NL | T_NEWLINE | T_INDENT | T_DEDENT | T_ENDMARKER | T_ENCODING | T_FSTRING_START |
  T_FSTRING_MIDDLE | T_FSTRING_END | T_NAME | T_NUMBER | T_STRING | T_OP | T_ERRORTOKEN

record token_info =
  tk_type :: token_type
  tk_string :: string
  tk_line :: int

definition SKIPPED_TOKENS :: "token_type list" where
  "SKIPPED_TOKENS = [T_COMMENT, T_NL, T_NEWLINE, T_INDENT, T_DEDENT, T_ENDMARKER, T_ENCODING, T_FSTRING_START, T_FSTRING_END]"

definition OPERAND_TYPES :: "token_type list" where
  "OPERAND_TYPES = [T_NUMBER, T_STRING, T_FSTRING_MIDDLE]"

text \<open>\<open>keyword.kwlist\<close>.\<close>

definition KEYWORDS :: "string list" where
  "KEYWORDS = [''False'', ''None'', ''True'', ''and'', ''as'', ''assert'', ''async'', ''await'', ''break'', ''class'', ''continue'',
     ''def'', ''del'', ''elif'', ''else'', ''except'', ''finally'', ''for'', ''from'', ''global'', ''if'', ''import'', ''in'', ''is'', ''lambda'',
     ''nonlocal'', ''not'', ''or'', ''pass'', ''raise'', ''return'', ''try'', ''while'', ''with'', ''yield'']"

datatype token_class = Operator | Operand

definition classify_token :: "token_info \<Rightarrow> (token_class \<times> string) option" where
  "classify_token tok =
     (if tk_type tok \<in> set SKIPPED_TOKENS then None
      else if tk_type tok = T_OP \<or> tk_type tok = T_NAME \<and> tk_string tok \<in> set KEYWORDS then Some (Operator, tk_string tok)
      else if tk_type tok = T_NAME \<or> tk_type tok \<in> set OPERAND_TYPES then Some (Operand, tk_string tok)
      else None)"

section \<open>The syntax tree\<close>

text \<open>
  A node with its lines; definitions have their body apart from the nodes before and after it (bases,
  arguments, decorators), in the order of the fields.
\<close>

datatype py_ast =
    Py_module "py_ast list"
  | Py_class int int "py_ast list" "py_ast list" "py_ast list"
  | Py_function string int int "py_ast list" "py_ast list" "py_ast list"
  | Py_expr int int py_ast
  | Py_str string
  | Py_other "py_ast list"

fun py_children :: "py_ast \<Rightarrow> py_ast list" where
  "py_children (Py_module body) = body"
| "py_children (Py_class _ _ before body after) = before @ body @ after"
| "py_children (Py_function _ _ _ before body after) = before @ body @ after"
| "py_children (Py_expr _ _ v) = [v]"
| "py_children (Py_str _) = []"
| "py_children (Py_other cs) = cs"

fun py_nodes :: "py_ast \<Rightarrow> nat" where
  "py_nodes (Py_module body) = Suc (sum_list (map py_nodes body))"
| "py_nodes (Py_class _ _ before body after) = Suc (sum_list (map py_nodes before) + sum_list (map py_nodes body) + sum_list (map py_nodes after))"
| "py_nodes (Py_function _ _ _ before body after) = Suc (sum_list (map py_nodes before) + sum_list (map py_nodes body) + sum_list (map py_nodes after))"
| "py_nodes (Py_expr _ _ v) = Suc (py_nodes v)"
| "py_nodes (Py_str _) = 1"
| "py_nodes (Py_other cs) = Suc (sum_list (map py_nodes cs))"

lemma py_nodes_children: "sum_list (map py_nodes (py_children t)) < py_nodes t"
  by (cases t) simp_all

text \<open>\<open>ast.walk\<close>: breadth first, with a queue.\<close>

function walk_ast :: "py_ast list \<Rightarrow> py_ast list" where
  "walk_ast [] = []"
| "walk_ast (t # todo) = t # walk_ast (todo @ py_children t)"
  by pat_completeness auto
termination
  by (relation "measure (\<lambda>ts. sum_list (map py_nodes ts))") (use py_nodes_children in \<open>auto simp: add.commute\<close>)

fun py_body :: "py_ast \<Rightarrow> py_ast list option" where
  "py_body (Py_module body) = Some body"
| "py_body (Py_class _ _ _ body _) = Some body"
| "py_body (Py_function _ _ _ _ body _) = Some body"
| "py_body _ = None"

definition docstring_of :: "py_ast \<Rightarrow> int list" where
  "docstring_of t = (case py_body t of Some (Py_expr lineno end_lineno (Py_str _) # _) \<Rightarrow> [lineno..end_lineno] | _ \<Rightarrow> [])"

definition docstring_lines :: "py_ast \<Rightarrow> int list" where
  "docstring_lines tree = concat (map docstring_of (walk_ast [tree]))"

fun function_range :: "py_ast \<Rightarrow> (string \<times> int \<times> int) list" where
  "function_range (Py_function name lineno end_lineno _ _ _) = [(name, lineno, end_lineno)]"
| "function_range _ = []"

definition function_ranges :: "py_ast \<Rightarrow> (string \<times> int \<times> int) list" where
  "function_ranges tree = sort_key (\<lambda>(_, lineno, _). lineno) (concat (map function_range (walk_ast [tree])))"

section \<open>Measures\<close>

record measures =
  ms_operators :: "(string \<times> nat) list"
  ms_operands :: "(string \<times> nat) list"

definition eta1 :: "measures \<Rightarrow> nat" where "eta1 m = length (ms_operators m)"
definition eta2 :: "measures \<Rightarrow> nat" where "eta2 m = length (ms_operands m)"
definition total_n1 :: "measures \<Rightarrow> nat" where "total_n1 m = sum_list (map snd (ms_operators m))"
definition total_n2 :: "measures \<Rightarrow> nat" where "total_n2 m = sum_list (map snd (ms_operands m))"
definition vocabulary :: "measures \<Rightarrow> nat" where "vocabulary m = eta1 m + eta2 m"
definition program_length :: "measures \<Rightarrow> nat" where "program_length m = total_n1 m + total_n2 m"

definition volume :: "(nat \<Rightarrow> rat) \<Rightarrow> measures \<Rightarrow> rat" where
  "volume log2 m = (if 1 < vocabulary m then fl (of_nat (program_length m) * log2 (vocabulary m)) else 0)"

definition difficulty :: "measures \<Rightarrow> rat" where
  "difficulty m = (if eta2 m \<noteq> 0 then fl (fl (fl (of_nat (eta1 m) / 2) * of_nat (total_n2 m)) / of_nat (eta2 m)) else 0)"

definition effort :: "(nat \<Rightarrow> rat) \<Rightarrow> measures \<Rightarrow> rat" where
  "effort log2 m = fl (volume log2 m * difficulty m)"

definition count_token :: "(token_class \<times> string) option \<Rightarrow> measures \<Rightarrow> measures" where
  "count_token c m = (case c of
       None \<Rightarrow> m
     | Some (Operator, s) \<Rightarrow> m\<lparr>ms_operators := dict_put s (count_of (ms_operators m) s + 1) (ms_operators m)\<rparr>
     | Some (Operand, s) \<Rightarrow> m\<lparr>ms_operands := dict_put s (count_of (ms_operands m) s + 1) (ms_operands m)\<rparr>)"

definition no_measures :: measures where
  "no_measures = \<lparr>ms_operators = [], ms_operands = []\<rparr>"

text \<open>The last line may be missing (or 0): then no token lies past the end of the text.\<close>

definition measure_tokens :: "token_info list \<Rightarrow> py_ast \<Rightarrow> nat \<Rightarrow> int \<Rightarrow> int option \<Rightarrow> measures" where
  "measure_tokens tokens tree newlines first_line last_line =
     (let skip_lines = docstring_lines tree;
          last = (case last_line of None \<Rightarrow> int newlines + 2 | Some l \<Rightarrow> if l = 0 then int newlines + 2 else l)
      in fold (\<lambda>tok m. if tk_line tok \<notin> set skip_lines \<and> first_line \<le> tk_line tok \<and> tk_line tok \<le> last
                then count_token (classify_token tok) m else m) tokens no_measures)"

fun add_counter :: "(string \<times> nat) list \<Rightarrow> (string \<times> nat) list \<Rightarrow> (string \<times> nat) list" where
  "add_counter c [] = c"
| "add_counter c ((k, n) # d) = add_counter (dict_put k (count_of c k + n) c) d"

definition update_total :: "measures \<Rightarrow> measures \<Rightarrow> measures" where
  "update_total m tot = \<lparr>ms_operators = add_counter (ms_operators tot) (ms_operators m),
     ms_operands = add_counter (ms_operands tot) (ms_operands m)\<rparr>"

section \<open>Rows\<close>

definition halstead_row :: "(nat \<Rightarrow> rat) \<Rightarrow> string \<Rightarrow> measures \<Rightarrow> nat option \<Rightarrow> string" where
  "halstead_row log2 label m loc =
     join '' '' ([pad_right 44 label, pad_left 4 (str_nat (eta1 m)), pad_left 4 (str_nat (eta2 m)), pad_left 5 (str_nat (total_n1 m)),
       pad_left 5 (str_nat (total_n2 m)), pad_left 5 (str_nat (vocabulary m)), pad_left 6 (str_nat (program_length m)),
       pad_left 9 (fixed 1 (volume log2 m)), pad_left 7 (fixed 2 (difficulty m)), pad_left 11 (fixed 1 (effort log2 m))]
       @ (case loc of None \<Rightarrow> [] | Some n \<Rightarrow> [pad_left 5 (str_nat n)]))"

definition HALSTEAD_HEADER :: string where
  "HALSTEAD_HEADER = join '' '' [pad_right 44 ''unit'', pad_left 4 ''n1'', pad_left 4 ''n2'', pad_left 5 ''N1'', pad_left 5 ''N2'', pad_left 5 ''n'',
     pad_left 6 ''N'', pad_left 9 ''V'', pad_left 7 ''D'', pad_left 11 ''E'']"

text \<open>A file as the script reads it: its path, tokens, tree, line feeds and lines.\<close>

record py_file =
  pf_path :: string
  pf_tokens :: "token_info list"
  pf_tree :: py_ast
  pf_newlines :: nat
  pf_lines :: nat

definition file_measures :: "py_file \<Rightarrow> measures" where
  "file_measures f = measure_tokens (pf_tokens f) (pf_tree f) (pf_newlines f) 1 None"

definition function_rows :: "(nat \<Rightarrow> rat) \<Rightarrow> py_file \<Rightarrow> string list" where
  "function_rows log2 f = (''# '' @ pf_path f) # map (\<lambda>(name, first, last).
     halstead_row log2 (''  '' @ name @ '' ('' @ str_int first @ ''-'' @ str_int last @ '')'')
       (measure_tokens (pf_tokens f) (pf_tree f) (pf_newlines f) first (Some last)) None) (function_ranges (pf_tree f))"

definition halstead_main :: "(nat \<Rightarrow> rat) \<Rightarrow> bool \<Rightarrow> bool \<Rightarrow> py_file list \<Rightarrow> string list" where
  "halstead_main log2 functions with_total files =
     (if functions then HALSTEAD_HEADER # concat (map (function_rows log2) files)
      else (HALSTEAD_HEADER @ ''   LOC'') # map (\<lambda>f. halstead_row log2 (pf_path f) (file_measures f) (Some (pf_lines f))) files @
        (if with_total then [halstead_row log2 ''TOTAL (global vocabulary)'' (fold (\<lambda>f. update_total (file_measures f)) files no_measures) None] else []))"

section \<open>What is counted\<close>

definition counted :: "token_class \<Rightarrow> token_info list \<Rightarrow> string list" where
  "counted cl tokens = List.map_filter (\<lambda>tok. case classify_token tok of Some (c, s) \<Rightarrow> if c = cl then Some s else None | None \<Rightarrow> None) tokens"

text \<open>A counter over a list of words: each distinct word has its number of occurrences.\<close>

definition counts :: "(string \<times> nat) list \<Rightarrow> string list \<Rightarrow> bool" where
  "counts c ws = (distinct (map fst c) \<and> fst ` set c = set ws \<and> (\<forall>w. count_of c w = count_list ws w))"

lemma counts_Nil [simp]: "counts [] []"
  by (simp add: counts_def count_of_def)

lemma count_list_copies: "count_list (replicate n w) v = (if w = v then n else 0)"
  by (induction n) auto

lemma counts_put: "0 < n \<Longrightarrow> counts c ws \<Longrightarrow> counts (dict_put w (count_of c w + n) c) (ws @ replicate n w)"
  by (auto simp: counts_def distinct_dict_put fst_dict_put count_of_put count_list_append count_list_copies)

lemma counts_sum: "counts c ws \<Longrightarrow> sum_list (map snd c) = length ws"
proof -
  assume c: "counts c ws"
  then have d: "distinct (map fst c)" by (simp add: counts_def)
  have "map snd c = map (count_of c) (map fst c)"
    using d by (auto simp: count_of_def)
  then have "sum_list (map snd c) = sum (count_of c) (set (map fst c))" using d by (metis sum_list_distinct_conv_sum_set)
  also have "\<dots> = sum (count_list ws) (set ws)" using c by (simp add: counts_def)
  also have "\<dots> = length ws" by (rule sum_count_set) simp_all
  finally show ?thesis .
qed

lemma counts_length: "counts c ws \<Longrightarrow> length c = card (set ws)"
  by (metis counts_def distinct_card length_map set_map)

text \<open>Adding one counter to another counts the words of both.\<close>

lemma counts_add:
  assumes "counts c ws" "\<forall>(k, n) \<in> set d. 0 < n"
  shows "\<exists>vs. counts (add_counter c d) (ws @ vs) \<and> vs = concat (map (\<lambda>(k, n). replicate n k) d)"
  using assms
proof (induction c d arbitrary: ws rule: add_counter.induct)
  case (2 c k n d)
  then have "counts (dict_put k (count_of c k + n) c) (ws @ replicate n k)" by (intro counts_put) auto
  from "2.IH"[OF this] "2.prems"(2) show ?case by simp
qed simp

lemma counts_same: "counts c ws \<Longrightarrow> mset ws = mset vs \<Longrightarrow> counts c vs"
  unfolding counts_def using mset_eq_setD[of ws vs] by (simp flip: count_mset)

lemma count_of_Cons: "count_of ((k, n) # c) w = (if w = k then n else count_of c w)"
  by (simp add: count_of_def)

lemma count_of_notin: "w \<notin> fst ` set c \<Longrightarrow> count_of c w = 0"
  by (simp add: count_of_def map_of_eq_None_iff[THEN iffD2] split: option.split)

lemma count_words: "distinct (map fst c) \<Longrightarrow> count_list (concat (map (\<lambda>(k, n). replicate n k) c)) w = count_of c w"
proof (induction c)
  case (Cons x c)
  obtain k n where x: "x = (k, n)" by (cases x)
  then show ?case using Cons count_of_notin[of k c]
    by (auto simp: count_of_Cons count_list_append count_list_copies)
qed (simp add: count_of_def)

lemma counts_words:
  assumes "counts c ws"
  shows "mset (concat (map (\<lambda>(k, n). replicate n k) c)) = mset ws" "\<forall>(k, n) \<in> set c. 0 < n"
proof -
  have d: "distinct (map fst c)" using assms by (simp add: counts_def)
  show "mset (concat (map (\<lambda>(k, n). replicate n k) c)) = mset ws"
    using assms count_words[OF d] by (intro multiset_eqI) (simp add: counts_def count_mset)
  show "\<forall>(k, n) \<in> set c. 0 < n"
  proof clarify
    fix k n assume kn: "(k, n) \<in> set c"
    then have "count_of c k = n" using d by (simp add: count_of_def)
    moreover have "k \<in> set ws" using assms kn by (force simp: counts_def)
    ultimately show "0 < n" using assms by (metis counts_def count_list_0_iff gr0I)
  qed
qed

definition measures_of :: "measures \<Rightarrow> token_info list \<Rightarrow> bool" where
  "measures_of m tokens = (counts (ms_operators m) (counted Operator tokens) \<and> counts (ms_operands m) (counted Operand tokens))"

lemma counted_one: "counted cl [tok] = (case classify_token tok of Some (c, s) \<Rightarrow> if c = cl then [s] else [] | None \<Rightarrow> [])"
  by (simp add: counted_def List.map_filter_simps split: option.split prod.split)

lemma counted_append: "counted cl (xs @ ys) = counted cl xs @ counted cl ys"
  by (simp add: counted_def List.map_filter_def)

lemma measures_of_count:
  assumes "measures_of m tokens"
  shows "measures_of (count_token (classify_token tok) m) (tokens @ [tok])"
proof -
  have one: "counts c ws \<Longrightarrow> counts (dict_put w (count_of c w + 1) c) (ws @ [w])" for c ws w
    using counts_put[of 1 c ws w] by simp
  show ?thesis
  proof (cases "classify_token tok")
    case None
    then show ?thesis using assms by (simp add: measures_of_def counted_append counted_one count_token_def)
  next
    case (Some cs)
    obtain c w where cs: "cs = (c, w)" by (cases cs)
    show ?thesis using assms Some cs one
      by (cases c) (simp_all add: measures_of_def counted_append counted_one count_token_def)
  qed
qed

lemma measures_of_totals:
  assumes "measures_of m ts"
  shows "total_n1 m = length (counted Operator ts)" "total_n2 m = length (counted Operand ts)"
    "eta1 m = card (set (counted Operator ts))" "eta2 m = card (set (counted Operand ts))"
proof -
  have c: "counts (ms_operators m) (counted Operator ts)" "counts (ms_operands m) (counted Operand ts)"
    using assms by (simp_all add: measures_of_def)
  from counts_sum[OF c(1)] counts_sum[OF c(2)] counts_length[OF c(1)] counts_length[OF c(2)]
  show "total_n1 m = length (counted Operator ts)" "total_n2 m = length (counted Operand ts)"
    "eta1 m = card (set (counted Operator ts))" "eta2 m = card (set (counted Operand ts))"
    by (simp_all add: total_n1_def total_n2_def eta1_def eta2_def)
qed

definition in_lines :: "py_ast \<Rightarrow> int \<Rightarrow> int \<Rightarrow> token_info \<Rightarrow> bool" where
  "in_lines tree first final tok = (tk_line tok \<notin> set (docstring_lines tree) \<and> first \<le> tk_line tok \<and> tk_line tok \<le> final)"

lemma measure_tokens_measures:
  "measures_of (measure_tokens tokens tree newlines first (Some final)) (filter (in_lines tree first final) tokens)" if "final \<noteq> 0"
proof -
  have "measures_of (fold (\<lambda>tok m. if in_lines tree first final tok then count_token (classify_token tok) m else m) tokens m)
      (ts @ filter (in_lines tree first final) tokens)" if "measures_of m ts" for m ts
    using that
  proof (induction tokens arbitrary: m ts)
    case (Cons t tokens)
    then show ?case using Cons.IH[OF measures_of_count[OF Cons.prems, of t]] Cons.IH[OF Cons.prems] by simp
  qed simp
  from this[of no_measures "[]"] that show ?thesis
    by (simp add: measure_tokens_def in_lines_def measures_of_def no_measures_def counted_def List.map_filter_simps Let_def)
qed

text \<open>
  The measures of a line range: the numbers of occurrences are those of the counted tokens outside docstrings, and
  the vocabulary is that of their distinct texts.
\<close>

lemma measures_exact:
  assumes "final \<noteq> 0" "ts = filter (in_lines tree first final) tokens" "m = measure_tokens tokens tree newlines first (Some final)"
  shows "total_n1 m = length (counted Operator ts)" "total_n2 m = length (counted Operand ts)"
    "eta1 m = card (set (counted Operator ts))" "eta2 m = card (set (counted Operand ts))"
proof -
  have "measures_of m ts" using measure_tokens_measures assms by blast
  from measures_of_totals[OF this] show "total_n1 m = length (counted Operator ts)" "total_n2 m = length (counted Operand ts)"
    "eta1 m = card (set (counted Operator ts))" "eta2 m = card (set (counted Operand ts))"
    by simp_all
qed

text \<open>The global row: every token of every file, over the union of the vocabularies.\<close>

lemma update_total_measures:
  assumes "measures_of m ts" "measures_of tot us"
  shows "measures_of (update_total m tot) (us @ ts)"
proof -
  have *: "counts (add_counter c d) (vs @ ws)" if "counts c vs" "counts d ws" for c d vs ws
  proof -
    from counts_add[OF that(1) counts_words(2)[OF that(2)]] counts_words(1)[OF that(2)]
    show ?thesis by (auto intro: counts_same)
  qed
  show ?thesis using assms by (simp add: measures_of_def update_total_def counted_append *)
qed

definition file_tokens :: "py_file \<Rightarrow> token_info list" where
  "file_tokens f = filter (in_lines (pf_tree f) 1 (int (pf_newlines f) + 2)) (pf_tokens f)"

lemma file_measures_of: "measures_of (file_measures f) (file_tokens f)"
  using measure_tokens_measures[of "int (pf_newlines f) + 2" "pf_tokens f" "pf_tree f" "pf_newlines f" 1]
  by (simp add: file_measures_def file_tokens_def measure_tokens_def)

lemma halstead_total_exact:
  assumes "tot = fold (\<lambda>f. update_total (file_measures f)) files no_measures" "ts = concat (map file_tokens files)"
  shows "program_length tot = length (counted Operator ts) + length (counted Operand ts)"
    "program_length tot = sum_list (map (program_length \<circ> file_measures) files)"
    "vocabulary tot = card (set (counted Operator ts)) + card (set (counted Operand ts))"
proof -
  have "measures_of (fold (\<lambda>f. update_total (file_measures f)) files m) (us @ concat (map file_tokens files)) \<and>
      program_length (fold (\<lambda>f. update_total (file_measures f)) files m) = program_length m + sum_list (map (program_length \<circ> file_measures) files)"
    if "measures_of m us" for m us
    using that
  proof (induction files arbitrary: m us)
    case (Cons f files)
    have u: "measures_of (update_total (file_measures f) m) (us @ file_tokens f)"
      by (rule update_total_measures[OF file_measures_of Cons.prems])
    have len: "program_length x = length (counted Operator vs) + length (counted Operand vs)" if "measures_of x vs" for x vs
      using measures_of_totals[OF that] by (simp add: program_length_def)
    show ?case using Cons.IH[OF u] len[OF u] len[OF Cons.prems] len[OF file_measures_of[of f]] by (simp add: counted_append)
  qed simp
  moreover have "measures_of no_measures []" by (simp add: measures_of_def no_measures_def counted_def List.map_filter_simps)
  ultimately have m: "measures_of tot ts" "program_length tot = sum_list (map (program_length \<circ> file_measures) files)"
    using assms by (metis append_Nil, fastforce simp: program_length_def total_n1_def total_n2_def no_measures_def)
  show "program_length tot = length (counted Operator ts) + length (counted Operand ts)"
    "vocabulary tot = card (set (counted Operator ts)) + card (set (counted Operand ts))"
    using measures_of_totals[OF m(1)] by (simp_all add: program_length_def vocabulary_def)
  show "program_length tot = sum_list (map (program_length \<circ> file_measures) files)" by (rule m(2))
qed

text \<open>Adjacent line ranges split the tokens between them.\<close>

lemma ranges_add:
  assumes "first \<le> mid" "mid \<le> final" "mid \<noteq> 0" "final \<noteq> 0"
  shows "program_length (measure_tokens tokens tree newlines first (Some final)) =
    program_length (measure_tokens tokens tree newlines first (Some mid)) + program_length (measure_tokens tokens tree newlines (mid + 1) (Some final))"
proof -
  have len: "length (counted cl (filter (in_lines tree a c) ts)) =
      length (counted cl (filter (in_lines tree a b) ts)) + length (counted cl (filter (in_lines tree (b + 1) c) ts))"
    if "a \<le> b" "b \<le> c" for a b c cl ts
  proof (induction ts)
    case (Cons t ts)
    have c: "length (counted cl (x # xs)) = length (counted cl [x]) + length (counted cl xs)" for x xs
      using counted_append[of cl "[x]" xs] by simp
    have s: "in_lines tree a c t \<longleftrightarrow> in_lines tree a b t \<or> in_lines tree (b + 1) c t" "\<not> (in_lines tree a b t \<and> in_lines tree (b + 1) c t)"
      using that by (auto simp: in_lines_def)
    show ?case using Cons.IH s(2) c[of t "filter _ ts"]
      by (cases "in_lines tree a b t"; cases "in_lines tree (b + 1) c t") (simp_all add: s(1))
  qed (simp add: counted_def List.map_filter_simps)
  from assms show ?thesis
    by (simp add: program_length_def measures_exact(1,2)[OF _ refl refl] len[of first mid final])
qed

end
