(* ===== verification/ExplainPlans.thy ===== *)
theory ExplainPlans
  imports Scripts Rentals Cache
begin

text \<open>
  \<open>scripts/explain_lab7.py\<close>: a bulk data set is loaded into the running database, queries are explained without and
  with two indexes, and the data is removed again. The statements act on the tables of \<open>Models\<close>; a run of
  \<open>psql\<close> takes one statement after the other and stops at the first that fails, leaving the earlier ones in effect.
  The plans that PostgreSQL prints, the time and the failing call are arguments. Lemmas: the bulk data always
  loads; whichever call of the experiment fails, the rows of every table and the indexes are as before.
\<close>

section \<open>The database console\<close>

record lab =
  lab_db :: database
  lab_indexes :: "string list"
  lab_faults :: "fault list"

type_synonym sql = "(lab, exn, string) program"

definition on_tables :: "(database \<Rightarrow> exn option \<times> database) \<Rightarrow> sql" where
  "on_tables f w = (case f (lab_db w) of
       (None, db) \<Rightarrow> (Inr [], w\<lparr>lab_db := db\<rparr>)
     | (Some e, db) \<Rightarrow> (Inl e, w\<lparr>lab_db := db\<rparr>))"

fun run_statements :: "sql list \<Rightarrow> sql" where
  "run_statements [] = script_return []"
| "run_statements (s # ss) = script_bind s (\<lambda>out. script_bind (run_statements ss) (\<lambda>rest. script_return (out @ rest)))"

text \<open>The head of \<open>lab_faults\<close> is what happens to this call; without one it reaches the database.\<close>

definition psql :: "sql list \<Rightarrow> sql" where
  "psql ss w =
     (let w1 = w\<lparr>lab_faults := tl (lab_faults w)\<rparr>; f = (if lab_faults w = [] then No_fault else hd (lab_faults w))
      in case f of
           Before e \<Rightarrow> (Inl e, w1)
         | After e \<Rightarrow> (Inl e, snd (run_statements ss w1))
         | No_fault \<Rightarrow> (case run_statements ss w1 of (Inl _, w2) \<Rightarrow> (Inl CalledProcessError, w2) | (Inr out, w2) \<Rightarrow> (Inr out, w2)))"

text \<open>\<open>INSERT ... SELECT\<close>: all rows or none; the keys it drew stay used.\<close>

fun insert_all :: "('r \<Rightarrow> bool) \<Rightarrow> ('r table \<Rightarrow> 'r \<Rightarrow> bool) \<Rightarrow> (int \<Rightarrow> 'r) list \<Rightarrow> 'r table \<Rightarrow> exn option \<times> 'r table" where
  "insert_all fits ok [] t = (None, t)"
| "insert_all fits ok (mk # mks) t = (case insert_row fits (ok t) mk t of
       (Inl e, t') \<Rightarrow> (Some e, t')
     | (Inr _, t') \<Rightarrow> insert_all fits ok mks t')"

definition insert_select :: "('r \<Rightarrow> bool) \<Rightarrow> ('r table \<Rightarrow> 'r \<Rightarrow> bool) \<Rightarrow> (int \<Rightarrow> 'r) list \<Rightarrow> 'r table \<Rightarrow> exn option \<times> 'r table" where
  "insert_select fits ok mks t = (case insert_all fits ok mks t of
       (None, t') \<Rightarrow> (None, t')
     | (Some e, t') \<Rightarrow> (Some e, t\<lparr>next_id := next_id t'\<rparr>))"

text \<open>\<open>DELETE\<close> of rows that a foreign key still uses fails.\<close>

definition delete_checked :: "('r \<Rightarrow> bool) \<Rightarrow> ('r \<Rightarrow> bool) \<Rightarrow> 'r table \<Rightarrow> exn option \<times> 'r table" where
  "delete_checked p referenced t =
     (if list_ex (\<lambda>r. p r \<and> referenced r) (rows t) then (Some IntegrityError, t) else (None, delete_rows p t))"

section \<open>The bulk data\<close>

definition STATIONS :: nat where "STATIONS = 200"
definition VEHICLES :: nat where "VEHICLES = 100000"
definition RENTERS :: nat where "RENTERS = 2000"
definition RENTALS :: nat where "RENTALS = 400000"

definition bulk_station :: "station \<Rightarrow> bool" where
  "bulk_station s = starts_with ''ex-station-'' (st_address s)"

definition bulk_vehicle :: "vehicle \<Rightarrow> bool" where
  "bulk_vehicle v = starts_with ''EX-'' (v_license_plate v)"

definition bulk_renter :: "renter \<Rightarrow> bool" where
  "bulk_renter r = starts_with ''EX-LIC-'' (rt_license_number r)"

definition min_id :: "int list \<Rightarrow> int option" where
  "min_id ids = (if ids = [] then None else Some (Min (set ids)))"

definition first_station :: "database \<Rightarrow> int option" where
  "first_station db = min_id (map st_id (filter bulk_station (rows (stations db))))"

definition first_vehicle :: "database \<Rightarrow> int option" where
  "first_vehicle db = min_id (map v_id (filter bulk_vehicle (rows (vehicles db))))"

definition first_renter :: "database \<Rightarrow> int option" where
  "first_renter db = min_id (map rt_id (filter bulk_renter (rows (renters db))))"

definition ex_station :: "nat \<Rightarrow> int \<Rightarrow> station" where
  "ex_station g i = \<lparr>st_id = i, st_address = ''ex-station-'' @ str_nat g, st_capacity = 1000\<rparr>"

definition ex_vehicle :: "nat \<Rightarrow> int \<Rightarrow> nat \<Rightarrow> int \<Rightarrow> vehicle" where
  "ex_vehicle n base g i = \<lparr>v_id = i, v_license_plate = ''EX-'' @ str_nat g, v_model = ''Bulk Car'',
     v_status = [AVAILABLE, RENTED, MAINTENANCE] ! (g mod 3), v_station_id = base + int (g mod n)\<rparr>"

definition ex_renter :: "nat \<Rightarrow> int \<Rightarrow> renter" where
  "ex_renter g i = \<lparr>rt_id = i, rt_full_name = ''Bulk Renter '' @ str_nat g, rt_license_number = ''EX-LIC-'' @ str_nat g, rt_user_id = None\<rparr>"

definition ex_rental :: "instant \<Rightarrow> nat \<times> nat \<times> nat \<Rightarrow> int \<times> int \<times> int \<Rightarrow> nat \<Rightarrow> int \<Rightarrow> rental" where
  "ex_rental now = (\<lambda>(nr, nv, ns) (renter, vehicle, station) g i.
     let started = now - int g * 60000000 in
     \<lparr>r_id = i, r_renter_id = renter + int (g mod nr), r_vehicle_id = vehicle + int (g mod nv),
      r_start_station_id = station + int (g mod ns), r_end_station_id = None, r_started_at = started,
      r_ended_at = Some (started + 30 * 60000000), r_status = COMPLETED\<rparr>)"

text \<open>
  The four statements, for any sizes. A \<open>min(id)\<close> of no row is null, which the columns refuse.
\<close>

definition seed_stations :: "nat \<Rightarrow> database \<Rightarrow> exn option \<times> database" where
  "seed_stations n db = (case insert_select station_fits (\<lambda>_ _. True) (map ex_station [1..<Suc n]) (stations db) of
     (e, t) \<Rightarrow> (e, db\<lparr>stations := t\<rparr>))"

definition seed_vehicles :: "nat \<Rightarrow> nat \<Rightarrow> database \<Rightarrow> exn option \<times> database" where
  "seed_vehicles ns n db = (case first_station db of
       None \<Rightarrow> (Some IntegrityError, db\<lparr>vehicles := burn_id (vehicles db)\<rparr>)
     | Some base \<Rightarrow> (case insert_select vehicle_fits (\<lambda>t. vehicle_ok (db\<lparr>vehicles := t\<rparr>)) (map (ex_vehicle ns base) [1..<Suc n]) (vehicles db) of
         (e, t) \<Rightarrow> (e, db\<lparr>vehicles := t\<rparr>)))"

definition seed_renters :: "nat \<Rightarrow> database \<Rightarrow> exn option \<times> database" where
  "seed_renters n db = (case insert_select renter_fits (\<lambda>t. renter_ok (db\<lparr>renters := t\<rparr>)) (map ex_renter [1..<Suc n]) (renters db) of
     (e, t) \<Rightarrow> (e, db\<lparr>renters := t\<rparr>))"

definition seed_rentals :: "instant \<Rightarrow> nat \<times> nat \<times> nat \<Rightarrow> nat \<Rightarrow> database \<Rightarrow> exn option \<times> database" where
  "seed_rentals now sizes n db = (case (first_renter db, first_vehicle db, first_station db) of
       (Some r, Some v, Some s) \<Rightarrow>
         (case insert_select (\<lambda>_. True) (\<lambda>t. rental_ok (db\<lparr>rentals := t\<rparr>)) (map (ex_rental now sizes (r, v, s)) [1..<Suc n]) (rentals db) of
            (e, t) \<Rightarrow> (e, db\<lparr>rentals := t\<rparr>))
     | _ \<Rightarrow> (Some IntegrityError, db\<lparr>rentals := burn_id (rentals db)\<rparr>))"

text \<open>\<open>ANALYZE\<close> only refreshes statistics.\<close>

definition SEED :: "instant \<Rightarrow> sql list" where
  "SEED now = [on_tables (seed_stations STATIONS), on_tables (seed_vehicles STATIONS VEHICLES), on_tables (seed_renters RENTERS),
     on_tables (seed_rentals now (RENTERS, VEHICLES, STATIONS) RENTALS)]"

definition drop_rentals :: "database \<Rightarrow> exn option \<times> database" where
  "drop_rentals db = (case delete_checked (\<lambda>r. list_ex (\<lambda>x. bulk_renter x \<and> rt_id x = r_renter_id r) (rows (renters db))) (\<lambda>_. False) (rentals db) of
     (e, t) \<Rightarrow> (e, db\<lparr>rentals := t\<rparr>))"

definition drop_renters :: "database \<Rightarrow> exn option \<times> database" where
  "drop_renters db = (case delete_checked bulk_renter (\<lambda>x. list_ex (\<lambda>r. r_renter_id r = rt_id x) (rows (rentals db))) (renters db) of
     (e, t) \<Rightarrow> (e, db\<lparr>renters := t\<rparr>))"

definition drop_vehicles :: "database \<Rightarrow> exn option \<times> database" where
  "drop_vehicles db = (case delete_checked bulk_vehicle (\<lambda>v. list_ex (\<lambda>r. r_vehicle_id r = v_id v) (rows (rentals db)) \<or>
       list_ex (\<lambda>t. tr_vehicle_id t = v_id v) (rows (telemetry_readings db))) (vehicles db) of
     (e, t) \<Rightarrow> (e, db\<lparr>vehicles := t\<rparr>))"

definition drop_stations :: "database \<Rightarrow> exn option \<times> database" where
  "drop_stations db = (case delete_checked bulk_station (\<lambda>s. list_ex (\<lambda>v. v_station_id v = st_id s) (rows (vehicles db)) \<or>
       list_ex (\<lambda>r. r_start_station_id r = st_id s \<or> r_end_station_id r = Some (st_id s)) (rows (rentals db))) (stations db) of
     (e, t) \<Rightarrow> (e, db\<lparr>stations := t\<rparr>))"

definition CLEANUP :: "sql list" where
  "CLEANUP = [on_tables drop_rentals, on_tables drop_renters, on_tables drop_vehicles, on_tables drop_stations]"

section \<open>The experiment\<close>

definition LAB_INDEXES :: "string list" where
  "LAB_INDEXES = [''ix_vehicles_station_id_status'', ''ix_rentals_renter_id_started_at'']"

definition drop_index :: "string \<Rightarrow> sql" where
  "drop_index i w = (Inr [], w\<lparr>lab_indexes := filter (\<lambda>j. j \<noteq> i) (lab_indexes w)\<rparr>)"

definition create_index :: "string \<Rightarrow> sql" where
  "create_index i w = (Inr [], w\<lparr>lab_indexes := (if i \<in> set (lab_indexes w) then lab_indexes w else lab_indexes w @ [i])\<rparr>)"

definition DROP_INDEXES :: "sql list" where "DROP_INDEXES = map drop_index LAB_INDEXES"
definition CREATE_INDEXES :: "sql list" where "CREATE_INDEXES = map create_index LAB_INDEXES"

text \<open>Title, where it comes from, SQL.\<close>

definition QUERIES :: "(string \<times> string \<times> string) list" where
  "QUERIES =
     [(''Station occupancy: vehicles parked at a station'', ''`station_service.count_parked_vehicles`, called on every rental return'',
       ''SELECT count(*) FROM vehicles WHERE station_id = (SELECT min(id) + 7 FROM stations '' @
       ''WHERE address LIKE 'ex-station-%') AND status != 'RENTED'' @ [CHR 0x27]),
      (''A renter's rentals, newest first'', ''`GET /me/rentals`'',
       ''SELECT * FROM rentals WHERE renter_id = (SELECT min(id) + 7 FROM renters '' @
       ''WHERE license_number LIKE 'EX-LIC-%') ORDER BY started_at DESC'')]"

definition explain_statement :: "(string \<Rightarrow> lab \<Rightarrow> string) \<Rightarrow> string \<Rightarrow> sql" where
  "explain_statement plan q w = (Inr (plan (''EXPLAIN (ANALYZE, BUFFERS) '' @ q @ '';'') w), w)"

definition explain :: "(string \<Rightarrow> lab \<Rightarrow> string) \<Rightarrow> string \<Rightarrow> sql" where
  "explain plan q = script_bind (psql [explain_statement plan q]) (\<lambda>_. script_bind (psql [explain_statement plan q]) (\<lambda>out.
     script_return (rev (dropWhile is_space (rev out)))))"

fun thousands :: "nat \<Rightarrow> string" where
  "thousands n = (if n < 1000 then str_nat n else thousands (n div 1000) @ '','' @ pad_zeros 3 (str_nat (n mod 1000)))"

declare thousands.simps [simp del]

definition explain_report :: "string list \<Rightarrow> string list \<Rightarrow> string" where
  "explain_report before after = join NL
     ([''# EXPLAIN (ANALYZE, BUFFERS): before and after the Lab 7 indexes'', [],
       ''Data set: '' @ str_nat STATIONS @ '' stations, '' @ thousands VEHICLES @ '' vehicles, '' @ thousands RENTERS @ '' renters, '' @
         thousands RENTALS @ '' rentals (PostgreSQL 16, generated by `scripts/explain_lab7.py`).'', []] @
      concat (map (\<lambda>((title, source, q), plan_before, plan_after).
        [''## '' @ title, [], ''Source: '' @ source, [], ''```sql'', q, ''```'', [], ''**Before (no index):**'', [], ''```'', plan_before, ''```'', [],
         ''**After (index):**'', [], ''```'', plan_after, ''```'', []]) (zip QUERIES (zip before after))))"

definition explain_main :: "instant \<Rightarrow> (string \<Rightarrow> lab \<Rightarrow> string) \<Rightarrow> sql" where
  "explain_main now plan =
     script_bind (psql CLEANUP) (\<lambda>_.
     script_bind (psql (SEED now)) (\<lambda>_.
     script_bind (script_finally
       (script_bind (psql DROP_INDEXES) (\<lambda>_.
        script_bind (script_map (\<lambda>(_, _, q). explain plan q) QUERIES) (\<lambda>before.
        script_bind (psql CREATE_INDEXES) (\<lambda>_.
        script_bind (script_map (\<lambda>(_, _, q). explain plan q) QUERIES) (\<lambda>after. script_return (before, after))))))
       (script_bind (psql CREATE_INDEXES) (\<lambda>_. psql CLEANUP))) (\<lambda>(before, after).
     script_return (explain_report before after))))"

section \<open>Tables with bulk rows at the end\<close>

fun inserted :: "(int \<Rightarrow> 'r) list \<Rightarrow> int \<Rightarrow> 'r list" where
  "inserted [] i = []"
| "inserted (mk # mks) i = mk i # inserted mks (i + 1)"

lemma inserted_append: "inserted (xs @ ys) i = inserted xs i @ inserted ys (i + int (length xs))"
  by (induction xs arbitrary: i) (simp_all add: add.assoc)

lemma set_inserted: "x \<in> set (inserted mks i) \<Longrightarrow> \<exists>mk \<in> set mks. \<exists>j. i \<le> j \<and> j < i + int (length mks) \<and> x = mk j"
proof (induction mks i rule: inserted.induct)
  case (2 mk mks i)
  show ?case
  proof (cases "x = mk i")
    case False
    then obtain m j where "m \<in> set mks" "i + 1 \<le> j" "j < i + 1 + int (length mks)" "x = m j" using 2 by auto
    then show ?thesis by (intro bexI[of _ m] exI[of _ j]) auto
  qed force
qed simp

lemma insert_all_outcome:
  "insert_all fits ok mks t = (e, t') \<Longrightarrow> next_id t \<le> next_id t' \<and>
     (e = None \<longrightarrow> rows t' = rows t @ inserted mks (next_id t) \<and> next_id t' = next_id t + int (length mks))"
proof (induction fits ok mks t rule: insert_all.induct)
  case (2 fits ok mk mks t)
  show ?case
  proof (cases rule: insert_row_cases[of fits "ok t" mk t])
    case inserted
    then show ?thesis using "2.IH" "2.prems" by (force simp: append_row_def)
  qed (use "2.prems" in \<open>auto simp: burn_id_def\<close>)
qed simp

text \<open>A table that has the rows of an earlier one, in order, and then rows of a kind with later keys.\<close>

definition extends :: "('r \<Rightarrow> int) \<Rightarrow> ('r \<Rightarrow> bool) \<Rightarrow> 'r table \<Rightarrow> 'r table \<Rightarrow> bool" where
  "extends pk p t0 t = (\<exists>xs. rows t = rows t0 @ xs \<and> list_all (\<lambda>x. p x \<and> next_id t0 \<le> pk x) xs \<and> next_id t0 \<le> next_id t)"

definition makes :: "('r \<Rightarrow> int) \<Rightarrow> ('r \<Rightarrow> bool) \<Rightarrow> (int \<Rightarrow> 'r) list \<Rightarrow> bool" where
  "makes pk p mks = list_all (\<lambda>mk. \<forall>j. pk (mk j) = j \<and> p (mk j)) mks"

lemma extends_inserted:
  assumes "extends pk p t0 t" "makes pk p mks"
  shows "extends pk p t0 \<lparr>rows = rows t @ inserted mks (next_id t), next_id = next_id t + int n\<rparr>"
proof -
  have "list_all (\<lambda>x. p x \<and> next_id t0 \<le> pk x) (inserted mks (next_id t))"
    using assms set_inserted[of _ mks "next_id t"] by (fastforce simp: list_all_iff extends_def makes_def)
  then show ?thesis using assms(1) by (auto simp: extends_def)
qed

lemma extends_delete:
  assumes "extends pk p t0 t" "\<And>x. x \<in> set (rows t0) \<Longrightarrow> \<not> p x"
    "\<And>x. p x \<Longrightarrow> next_id t0 \<le> pk x \<Longrightarrow> x \<in> set (rows t) \<Longrightarrow> \<not> referenced x"
  shows "delete_checked p referenced t = (None, delete_rows p t)" "rows (delete_rows p t) = rows t0" "next_id t0 \<le> next_id (delete_rows p t)"
proof -
  obtain xs where xs: "rows t = rows t0 @ xs" "list_all (\<lambda>x. p x \<and> next_id t0 \<le> pk x) xs" "next_id t0 \<le> next_id t"
    using assms(1) by (auto simp: extends_def)
  have "\<not> (p x \<and> referenced x)" if "x \<in> set (rows t)" for x
    using that assms(2)[of x] assms(3)[of x] xs by (auto simp: list_all_iff)
  then show "delete_checked p referenced t = (None, delete_rows p t)" by (auto simp: delete_checked_def list_ex_iff)
  have "filter (\<lambda>x. \<not> p x) (rows t0) = rows t0" "filter (\<lambda>x. \<not> p x) xs = []"
    using assms(2) xs(2) by (auto simp: filter_empty_conv list_all_iff)
  then show "rows (delete_rows p t) = rows t0" by (simp add: delete_rows_def xs(1))
  show "next_id t0 \<le> next_id (delete_rows p t)" using xs(3) by (simp add: delete_rows_def)
qed

section \<open>The database with its bulk data\<close>

text \<open>No row of the service looks like bulk data, and references point at rows that exist.\<close>

definition lab_base :: "database \<Rightarrow> bool" where
  "lab_base db =
     (keys_ok db \<and> refs_ok db \<and> list_all (\<lambda>t. has_id v_id (vehicles db) (tr_vehicle_id t)) (rows (telemetry_readings db)) \<and>
      list_all (\<lambda>s. \<not> bulk_station s) (rows (stations db)) \<and> list_all (\<lambda>v. \<not> bulk_vehicle v) (rows (vehicles db)) \<and>
      list_all (\<lambda>r. \<not> bulk_renter r) (rows (renters db)))"

definition bulk_rental :: "database \<Rightarrow> rental \<Rightarrow> bool" where
  "bulk_rental db r = list_ex (\<lambda>x. bulk_renter x \<and> rt_id x = r_renter_id r) (rows (renters db))"

definition with_bulk :: "database \<Rightarrow> database \<Rightarrow> bool" where
  "with_bulk db0 db =
     (extends st_id bulk_station (stations db0) (stations db) \<and> extends v_id bulk_vehicle (vehicles db0) (vehicles db) \<and>
      extends rt_id bulk_renter (renters db0) (renters db) \<and> extends r_id (bulk_rental db) (rentals db0) (rentals db) \<and>
      db\<lparr>stations := stations db0, vehicles := vehicles db0, renters := renters db0, rentals := rentals db0\<rparr> = db0)"

text \<open>The same rows in every table; only sequences may have moved.\<close>

definition same_rows :: "database \<Rightarrow> database \<Rightarrow> bool" where
  "same_rows db0 db =
     (rows (stations db) = rows (stations db0) \<and> rows (vehicles db) = rows (vehicles db0) \<and> rows (renters db) = rows (renters db0) \<and>
      rows (rentals db) = rows (rentals db0) \<and> next_id (stations db0) \<le> next_id (stations db) \<and> next_id (vehicles db0) \<le> next_id (vehicles db) \<and>
      next_id (renters db0) \<le> next_id (renters db) \<and> next_id (rentals db0) \<le> next_id (rentals db) \<and>
      db\<lparr>stations := stations db0, vehicles := vehicles db0, renters := renters db0, rentals := rentals db0\<rparr> = db0)"

lemma same_rows_ext: "same_rows db0 db \<Longrightarrow> with_bulk db0 db"
  by (auto simp: same_rows_def with_bulk_def extends_def)

lemma below_next: "wf_table pk t \<Longrightarrow> has_id pk t i \<Longrightarrow> i < next_id t"
  by (auto simp: wf_table_def has_id_iff list_all_iff)

lemma base_below:
  assumes "lab_base db"
  shows "r \<in> set (rows (rentals db)) \<Longrightarrow> r_renter_id r < next_id (renters db) \<and> r_vehicle_id r < next_id (vehicles db) \<and>
      r_start_station_id r < next_id (stations db) \<and> (\<forall>s. r_end_station_id r = Some s \<longrightarrow> s < next_id (stations db))"
    "v \<in> set (rows (vehicles db)) \<Longrightarrow> v_station_id v < next_id (stations db)"
    "t \<in> set (rows (telemetry_readings db)) \<Longrightarrow> tr_vehicle_id t < next_id (vehicles db)"
proof -
  have wf: "wf_table st_id (stations db)" "wf_table rt_id (renters db)" "wf_table v_id (vehicles db)"
    using assms by (simp_all add: lab_base_def keys_ok_def)
  have refs: "\<forall>v \<in> set (rows (vehicles db)). has_id st_id (stations db) (v_station_id v)" "\<forall>r \<in> set (rows (rentals db)). rental_ok db r"
    "\<forall>t \<in> set (rows (telemetry_readings db)). has_id v_id (vehicles db) (tr_vehicle_id t)"
    using assms by (simp_all add: lab_base_def refs_ok_def list_all_iff)
  note b = below_next[OF wf(1)] below_next[OF wf(2)] below_next[OF wf(3)]
  show "r \<in> set (rows (rentals db)) \<Longrightarrow> r_renter_id r < next_id (renters db) \<and> r_vehicle_id r < next_id (vehicles db) \<and>
      r_start_station_id r < next_id (stations db) \<and> (\<forall>s. r_end_station_id r = Some s \<longrightarrow> s < next_id (stations db))"
    using refs(2) b by (auto simp: rental_ok_def)
  show "v \<in> set (rows (vehicles db)) \<Longrightarrow> v_station_id v < next_id (stations db)"
    "t \<in> set (rows (telemetry_readings db)) \<Longrightarrow> tr_vehicle_id t < next_id (vehicles db)"
    using refs(1,3) b by blast+
qed

text \<open>The clean-up removes the bulk data and nothing else.\<close>

lemma cleanup_restores_rows:
  assumes base: "lab_base db0" and ext: "with_bulk db0 (lab_db w)"
  shows "\<exists>db. run_statements CLEANUP w = (Inr [], w\<lparr>lab_db := db\<rparr>) \<and> same_rows db0 db"
proof -
  let ?db = "lab_db w"
  have es: "extends st_id bulk_station (stations db0) (stations ?db)" and ev: "extends v_id bulk_vehicle (vehicles db0) (vehicles ?db)"
    and er: "extends rt_id bulk_renter (renters db0) (renters ?db)" and et: "extends r_id (bulk_rental ?db) (rentals db0) (rentals ?db)"
    and rest: "?db\<lparr>stations := stations db0, vehicles := vehicles db0, renters := renters db0, rentals := rentals db0\<rparr> = db0"
    using ext by (simp_all add: with_bulk_def)
  have clean: "s \<in> set (rows (stations db0)) \<Longrightarrow> \<not> bulk_station s" "v \<in> set (rows (vehicles db0)) \<Longrightarrow> \<not> bulk_vehicle v"
    "r \<in> set (rows (renters db0)) \<Longrightarrow> \<not> bulk_renter r" for s v r
    using base by (auto simp: lab_base_def list_all_iff)
  note below = base_below[OF base]
  have "telemetry_readings (?db\<lparr>stations := stations db0, vehicles := vehicles db0, renters := renters db0, rentals := rentals db0\<rparr>) =
      telemetry_readings db0" by (simp only: rest)
  then have other: "telemetry_readings ?db = telemetry_readings db0" by simp
  have rt0: "\<not> bulk_rental ?db r" if "r \<in> set (rows (rentals db0))" for r
  proof
    assume "bulk_rental ?db r"
    then obtain x where x: "x \<in> set (rows (renters ?db))" "bulk_renter x" "rt_id x = r_renter_id r" by (auto simp: bulk_rental_def list_ex_iff)
    have "next_id (renters db0) \<le> rt_id x" using er clean(3) x(1,2) by (auto simp: extends_def list_all_iff)
    with below(1)[OF that] x(3) show False by simp
  qed
  have d1: "delete_checked (bulk_rental ?db) (\<lambda>_. False) (rentals ?db) = (None, delete_rows (bulk_rental ?db) (rentals ?db))"
    "rows (delete_rows (bulk_rental ?db) (rentals ?db)) = rows (rentals db0)"
    "next_id (rentals db0) \<le> next_id (delete_rows (bulk_rental ?db) (rentals ?db))"
    using extends_delete[OF et, of "\<lambda>_. False"] rt0 by auto
  define db1 where "db1 = ?db\<lparr>rentals := delete_rows (bulk_rental ?db) (rentals ?db)\<rparr>"
  have s1: "drop_rentals ?db = (None, db1)" using d1(1) by (simp add: drop_rentals_def db1_def bulk_rental_def[abs_def])
  let ?u2 = "\<lambda>x. list_ex (\<lambda>r. r_renter_id r = rt_id x) (rows (rentals db1))"
  have d2: "delete_checked bulk_renter ?u2 (renters ?db) = (None, delete_rows bulk_renter (renters ?db))"
    "rows (delete_rows bulk_renter (renters ?db)) = rows (renters db0)" "next_id (renters db0) \<le> next_id (delete_rows bulk_renter (renters ?db))"
    using extends_delete[OF er clean(3), of ?u2] below(1) d1(2) by (fastforce simp: list_ex_iff db1_def)+
  define db2 where "db2 = db1\<lparr>renters := delete_rows bulk_renter (renters ?db)\<rparr>"
  have s2: "drop_renters db1 = (None, db2)" using d2(1) by (simp add: drop_renters_def db2_def) (simp add: db1_def)
  let ?u3 = "\<lambda>v. list_ex (\<lambda>r. r_vehicle_id r = v_id v) (rows (rentals db2)) \<or> list_ex (\<lambda>t. tr_vehicle_id t = v_id v) (rows (telemetry_readings db2))"
  have d3: "delete_checked bulk_vehicle ?u3 (vehicles ?db) = (None, delete_rows bulk_vehicle (vehicles ?db))"
    "rows (delete_rows bulk_vehicle (vehicles ?db)) = rows (vehicles db0)" "next_id (vehicles db0) \<le> next_id (delete_rows bulk_vehicle (vehicles ?db))"
    using extends_delete[OF ev clean(2), of ?u3] below(1,3) d1(2) other by (fastforce simp: list_ex_iff db1_def db2_def)+
  define db3 where "db3 = db2\<lparr>vehicles := delete_rows bulk_vehicle (vehicles ?db)\<rparr>"
  have s3: "drop_vehicles db2 = (None, db3)" using d3(1) by (simp add: drop_vehicles_def db3_def) (simp add: db1_def db2_def)
  let ?u4 = "\<lambda>s. list_ex (\<lambda>v. v_station_id v = st_id s) (rows (vehicles db3)) \<or>
    list_ex (\<lambda>r. r_start_station_id r = st_id s \<or> r_end_station_id r = Some (st_id s)) (rows (rentals db3))"
  have d4: "delete_checked bulk_station ?u4 (stations ?db) = (None, delete_rows bulk_station (stations ?db))"
    "rows (delete_rows bulk_station (stations ?db)) = rows (stations db0)" "next_id (stations db0) \<le> next_id (delete_rows bulk_station (stations ?db))"
    using extends_delete[OF es clean(1), of ?u4] below(1,2) d1(2) d3(2) by (fastforce simp: list_ex_iff db1_def db2_def db3_def)+
  define db4 where "db4 = db3\<lparr>stations := delete_rows bulk_station (stations ?db)\<rparr>"
  have s4: "drop_stations db3 = (None, db4)" using d4(1) by (simp add: drop_stations_def db4_def) (simp add: db1_def db2_def db3_def)
  have "same_rows db0 db4" using d1(2,3) d2(2,3) d3(2,3) d4(2,3) rest by (simp add: same_rows_def db4_def db3_def db2_def db1_def)
  moreover have "run_statements CLEANUP w = (Inr [], w\<lparr>lab_db := db4\<rparr>)"
    by (simp add: CLEANUP_def script_bind_def script_return_def on_tables_def s1 s2 s3 s4)
  ultimately show ?thesis by blast
qed

section \<open>Loading the data\<close>

lemma ids_inserted: "makes pk p mks \<Longrightarrow> map pk (inserted mks i) = map (\<lambda>k. i + int k) [0..<length mks]"
proof (induction mks i rule: inserted.induct)
  case (2 mk mks i)
  then show ?case by (simp add: makes_def map_upt_Suc del: upt_Suc)
qed simp

lemma has_id_inserted:
  assumes "makes pk p mks" "rows t = xs @ inserted mks i" "k < length mks"
  shows "has_id pk t (i + int k)"
proof -
  have "i + int k \<in> set (map pk (inserted mks i))" using assms(3) ids_inserted[OF assms(1), of i] by (simp del: set_map) auto
  then show ?thesis using assms(2) by (auto simp: has_id_iff)
qed

lemma min_id_inserted:
  assumes "makes pk p mks" "list_all (\<lambda>x. \<not> p x) xs" "mks \<noteq> []"
  shows "min_id (map pk (filter p (xs @ inserted mks i))) = Some i"
proof -
  have "list_all p (inserted mks i)"
    using assms(1) set_inserted[of _ mks i] by (fastforce simp: list_all_iff makes_def)
  then have "filter p (inserted mks i) = inserted mks i" by (simp add: filter_id_conv list_all_iff)
  then have m: "map pk (filter p (xs @ inserted mks i)) = map (\<lambda>k. i + int k) [0..<length mks]"
    using ids_inserted[OF assms(1), of i] assms(2) by (simp add: filter_empty_conv list_all_iff)
  have "Min (set (map (\<lambda>k. i + int k) [0..<length mks])) = i" using assms(3) by (intro Min_eqI) (auto simp: image_iff)
  moreover have "map (\<lambda>k. i + int k) [0..<length mks] \<noteq> []" using assms(3) by simp
  ultimately show ?thesis unfolding min_id_def m by (simp only: if_False)
qed

lemma insert_all_succeeds:
  fixes t :: "'r table"
  assumes "\<And>pre mk post t'. mks = pre @ mk # post \<Longrightarrow> rows t' = rows t @ inserted pre (next_id t) \<Longrightarrow>
    next_id t' = next_id t + int (length pre) \<Longrightarrow> fits (mk (next_id t')) \<and> ok t' (mk (next_id t'))"
  shows "fst (insert_all fits ok mks t) = None"
  using assms
proof (induction mks arbitrary: t)
  case (Cons mk mks)
  have "fits (mk (next_id t)) \<and> ok t (mk (next_id t))" using Cons.prems[of "[]" mk mks t] by simp
  then have r: "insert_row fits (ok t) mk t = (Inr (mk (next_id t)), append_row mk t)" by (simp add: insert_row_Inr)
  have "fst (insert_all fits ok mks (append_row mk t)) = None"
  proof (rule Cons.IH)
    fix pre m post and t' :: "'r table"
    assume a: "mks = pre @ m # post" "rows t' = rows (append_row mk t) @ inserted pre (next_id (append_row mk t))"
      "next_id t' = next_id (append_row mk t) + int (length pre)"
    show "fits (m (next_id t')) \<and> ok t' (m (next_id t'))"
      using Cons.prems[of "mk # pre" m post t'] a by (simp add: append_row_def)
  qed
  then show ?case using r by simp
qed simp

lemma insert_range:
  fixes t :: "'r table"
  assumes "\<And>g t'. 1 \<le> g \<Longrightarrow> g \<le> n \<Longrightarrow> rows t' = rows t @ inserted (map f [1..<g]) (next_id t) \<Longrightarrow>
    fits (f g (next_id t + int (g - 1))) \<and> ok t' (f g (next_id t + int (g - 1)))"
  shows "insert_select fits ok (map f [1..<Suc n]) t =
    (None, \<lparr>rows = rows t @ inserted (map f [1..<Suc n]) (next_id t), next_id = next_id t + int n\<rparr>)"
proof -
  let ?mks = "map f [1..<Suc n]"
  have none: "fst (insert_all fits ok ?mks t) = None"
  proof (rule insert_all_succeeds)
    fix pre mk post and t' :: "'r table"
    assume a: "?mks = pre @ mk # post" "rows t' = rows t @ inserted pre (next_id t)" "next_id t' = next_id t + int (length pre)"
    let ?k = "length pre"
    have k: "?k < n" using arg_cong[OF a(1), of length] by (simp del: upt_Suc)
    have "pre = take ?k ?mks" using a(1) by simp
    then have pre: "pre = map f [1..<Suc ?k]" using k by (simp add: take_map take_upt)
    have "mk = ?mks ! ?k" using a(1) by simp
    then have mk: "mk = f (Suc ?k)" using k by (simp del: upt_Suc add: nth_upt)
    show "fits (mk (next_id t')) \<and> ok t' (mk (next_id t'))"
      using assms[of "Suc ?k" t'] a(2,3) k pre mk by simp
  qed
  obtain t' where t': "insert_all fits ok ?mks t = (None, t')" using none by (cases "insert_all fits ok ?mks t") auto
  from insert_all_outcome[OF t'] have "rows t' = rows t @ inserted ?mks (next_id t)" "next_id t' = next_id t + int n" by simp_all
  then have "t' = \<lparr>rows = rows t @ inserted ?mks (next_id t), next_id = next_id t + int n\<rparr>" by (cases t') simp
  then show ?thesis using t' by (simp add: insert_select_def)
qed

lemma set_inserted_range:
  "x \<in> set (inserted (map f [1..<g]) i) \<Longrightarrow> \<exists>h j. 1 \<le> h \<and> h < g \<and> x = f h j"
  using set_inserted[of x "map f [1..<g]" i] by auto

lemma prefix_of: "starts_with p (p @ s)"
  by (rule starts_with_append)

lemma bulk_rows [simp]: "bulk_station (ex_station g i)" "bulk_vehicle (ex_vehicle n b g i)" "bulk_renter (ex_renter g i)"
  by (simp_all add: bulk_station_def bulk_vehicle_def bulk_renter_def ex_station_def ex_vehicle_def ex_renter_def prefix_of del: append.simps)

lemma bulk_keys [simp]: "st_id (ex_station g i) = i" "v_id (ex_vehicle n b g i) = i" "rt_id (ex_renter g i) = i" "r_id (ex_rental now sz bs g i) = i"
  by (simp_all add: ex_station_def ex_vehicle_def ex_renter_def ex_rental_def Let_def split: prod.split)

text \<open>On a database without bulk rows the four statements succeed, for any sizes below a million.\<close>

lemma seed_runs:
  assumes base: "lab_base db0" and same: "same_rows db0 (lab_db w)"
    and n: "0 < ns" "ns < 10 ^ 6" "0 < nv" "nv < 10 ^ 6" "0 < nr" "nr < 10 ^ 6"
  shows "\<exists>db. run_statements [on_tables (seed_stations ns), on_tables (seed_vehicles ns nv), on_tables (seed_renters nr),
      on_tables (seed_rentals now (nr, nv, ns) nt)] w = (Inr [], w\<lparr>lab_db := db\<rparr>) \<and> with_bulk db0 db"
proof -
  let ?db = "lab_db w"
  let ?S = "map ex_station [1..<Suc ns]" and ?s = "next_id (stations ?db)"
  let ?V = "map (ex_vehicle ns ?s) [1..<Suc nv]" and ?v = "next_id (vehicles ?db)"
  let ?R = "map ex_renter [1..<Suc nr]" and ?r = "next_id (renters ?db)"
  let ?T = "map (ex_rental now (nr, nv, ns) (?r, ?v, ?s)) [1..<Suc nt]"
  have len: "length (str_nat g) \<le> 6" if "g < 10 ^ 6" for g using length_str_nat[OF that] by simp
  have clean: "list_all (\<lambda>s. \<not> bulk_station s) (rows (stations ?db))" "list_all (\<lambda>v. \<not> bulk_vehicle v) (rows (vehicles ?db))"
    "list_all (\<lambda>r. \<not> bulk_renter r) (rows (renters ?db))"
    using base same by (simp_all add: lab_base_def same_rows_def)
  have mk: "makes st_id bulk_station ?S" "makes v_id bulk_vehicle ?V" "makes rt_id bulk_renter ?R"
    by (simp_all add: makes_def list_all_iff)
  have len_mk: "length ?S = ns" "length ?V = nv" "length ?R = nr" "?S \<noteq> []" "?V \<noteq> []" "?R \<noteq> []" using n by simp_all
  have i1: "insert_select station_fits (\<lambda>_ _. True) ?S (stations ?db) = (None, \<lparr>rows = rows (stations ?db) @ inserted ?S ?s, next_id = ?s + int ns\<rparr>)"
  proof (rule insert_range)
    fix g t' assume "1 \<le> g" "g \<le> ns"
    then show "station_fits (ex_station g (?s + int (g - 1))) \<and> True"
      using len[of g] n by (simp add: station_fits_def ex_station_def int4_def)
  qed
  define db1 where "db1 = ?db\<lparr>stations := \<lparr>rows = rows (stations ?db) @ inserted ?S ?s, next_id = ?s + int ns\<rparr>\<rparr>"
  have s1: "seed_stations ns ?db = (None, db1)" using i1 by (simp add: seed_stations_def db1_def)
  have f1: "min_id (map st_id (filter bulk_station (rows (stations db1)))) = Some ?s"
    using min_id_inserted[OF mk(1) clean(1) len_mk(4)] by (simp add: db1_def del: upt_Suc)
  have h1: "has_id st_id (stations db1) (?s + int (g mod ns))" for g
    using has_id_inserted[OF mk(1), of "stations db1" "rows (stations ?db)" ?s "g mod ns"] len_mk(1) n by (simp add: db1_def del: upt_Suc)
  have i2: "insert_select vehicle_fits (\<lambda>t. vehicle_ok (db1\<lparr>vehicles := t\<rparr>)) ?V (vehicles ?db) =
      (None, \<lparr>rows = rows (vehicles ?db) @ inserted ?V ?v, next_id = ?v + int nv\<rparr>)"
  proof (rule insert_range)
    fix g and t' :: "vehicle table" assume g: "1 \<le> g" "g \<le> nv" "rows t' = rows (vehicles ?db) @ inserted (map (ex_vehicle ns ?s) [1..<g]) ?v"
    let ?x = "ex_vehicle ns ?s g (?v + int (g - 1))"
    have "vehicle_fits ?x" using len[of g] g n by (simp add: vehicle_fits_def ex_vehicle_def)
    moreover have "v_license_plate y \<noteq> v_license_plate ?x" if y: "y \<in> set (rows t')" for y
    proof
      assume eq: "v_license_plate y = v_license_plate ?x"
      then have "bulk_vehicle y" using bulk_rows(2)[of ns ?s g "?v + int (g - 1)"] by (simp add: bulk_vehicle_def)
      then obtain h j where "h < g" "y = ex_vehicle ns ?s h j" using y g(3) clean(2)[unfolded list_all_iff] set_inserted_range[of y "ex_vehicle ns ?s" g ?v] by auto
      then show False using eq by (simp add: ex_vehicle_def str_nat_inj)
    qed
    moreover have "has_id st_id (stations db1) (v_station_id ?x)" using h1[of g] by (simp add: ex_vehicle_def)
    ultimately show "vehicle_fits ?x \<and> vehicle_ok (db1\<lparr>vehicles := t'\<rparr>) ?x" by (auto simp: vehicle_ok_def list_ex_iff)
  qed
  define db2 where "db2 = db1\<lparr>vehicles := \<lparr>rows = rows (vehicles ?db) @ inserted ?V ?v, next_id = ?v + int nv\<rparr>\<rparr>"
  have s2: "seed_vehicles ns nv db1 = (None, db2)"
    using i2 f1 by (simp add: seed_vehicles_def first_station_def db2_def del: upt_Suc) (simp add: db1_def del: upt_Suc)
  have i3: "insert_select renter_fits (\<lambda>t. renter_ok (db2\<lparr>renters := t\<rparr>)) ?R (renters ?db) =
      (None, \<lparr>rows = rows (renters ?db) @ inserted ?R ?r, next_id = ?r + int nr\<rparr>)"
  proof (rule insert_range)
    fix g and t' :: "renter table" assume g: "1 \<le> g" "g \<le> nr" "rows t' = rows (renters ?db) @ inserted (map ex_renter [1..<g]) ?r"
    let ?x = "ex_renter g (?r + int (g - 1))"
    have "renter_fits ?x" using len[of g] g n by (simp add: renter_fits_def ex_renter_def)
    moreover have "rt_license_number y \<noteq> rt_license_number ?x" if y: "y \<in> set (rows t')" for y
    proof
      assume eq: "rt_license_number y = rt_license_number ?x"
      then have "bulk_renter y" using bulk_rows(3)[of g "?r + int (g - 1)"] by (simp add: bulk_renter_def)
      then obtain h j where "h < g" "y = ex_renter h j" using y g(3) clean(3)[unfolded list_all_iff] set_inserted_range[of y ex_renter g ?r] by auto
      then show False using eq by (simp add: ex_renter_def str_nat_inj)
    qed
    moreover have "rt_user_id ?x = None" by (simp add: ex_renter_def)
    ultimately show "renter_fits ?x \<and> renter_ok (db2\<lparr>renters := t'\<rparr>) ?x" by (auto simp: renter_ok_def list_ex_iff)
  qed
  define db3 where "db3 = db2\<lparr>renters := \<lparr>rows = rows (renters ?db) @ inserted ?R ?r, next_id = ?r + int nr\<rparr>\<rparr>"
  have s3: "seed_renters nr db2 = (None, db3)"
    using i3 by (simp add: seed_renters_def db3_def del: upt_Suc) (simp add: db1_def db2_def del: upt_Suc)
  have f3: "first_renter db3 = Some ?r" "first_vehicle db3 = Some ?v" "first_station db3 = Some ?s"
    using min_id_inserted[OF mk(3) clean(3) len_mk(6)] min_id_inserted[OF mk(2) clean(2) len_mk(5)] f1
    by (simp_all add: first_renter_def first_vehicle_def first_station_def db3_def db2_def del: upt_Suc)
  have h3: "has_id rt_id (renters db3) (?r + int (g mod nr))" "has_id v_id (vehicles db3) (?v + int (g mod nv))" "has_id st_id (stations db3) (?s + int (g mod ns))" for g
    using has_id_inserted[OF mk(3), of "renters db3" "rows (renters ?db)" ?r "g mod nr"] has_id_inserted[OF mk(2), of "vehicles db3" "rows (vehicles ?db)" ?v "g mod nv"]
      h1[of g] len_mk n by (simp_all add: db3_def db2_def del: upt_Suc)
  have i4: "insert_select (\<lambda>_. True) (\<lambda>t. rental_ok (db3\<lparr>rentals := t\<rparr>)) ?T (rentals ?db) =
      (None, \<lparr>rows = rows (rentals ?db) @ inserted ?T (next_id (rentals ?db)), next_id = next_id (rentals ?db) + int nt\<rparr>)"
    by (rule insert_range) (use h3 in \<open>simp add: rental_ok_def ex_rental_def Let_def\<close>)
  define db4 where "db4 = db3\<lparr>rentals := \<lparr>rows = rows (rentals ?db) @ inserted ?T (next_id (rentals ?db)), next_id = next_id (rentals ?db) + int nt\<rparr>\<rparr>"
  have s4: "seed_rentals now (nr, nv, ns) nt db3 = (None, db4)"
    using i4 f3 by (simp add: seed_rentals_def db4_def del: upt_Suc) (simp add: db1_def db2_def db3_def del: upt_Suc)
  have run: "run_statements [on_tables (seed_stations ns), on_tables (seed_vehicles ns nv), on_tables (seed_renters nr),
      on_tables (seed_rentals now (nr, nv, ns) nt)] w = (Inr [], w\<lparr>lab_db := db4\<rparr>)"
    by (simp add: script_bind_def script_return_def on_tables_def s1 s2 s3 s4)
  have start: "with_bulk db0 ?db" by (rule same_rows_ext[OF same])
  have bulk: "bulk_rental db4 x" if x: "x \<in> set (inserted ?T (next_id (rentals ?db)))" for x
  proof -
    obtain g where g: "r_renter_id x = ?r + int (g mod nr)" using set_inserted[OF x] by (auto simp: ex_rental_def Let_def)
    have "?r + int (g mod nr) \<in> set (map rt_id (inserted ?R ?r))"
      using ids_inserted[OF mk(3), of ?r] len_mk n by (simp del: upt_Suc set_map) auto
    then obtain y where y: "y \<in> set (inserted ?R ?r)" "rt_id y = r_renter_id x" using g by auto
    moreover have "bulk_renter y" using set_inserted[OF y(1)] by auto
    ultimately show ?thesis by (auto simp: bulk_rental_def list_ex_iff db4_def db3_def)
  qed
  have "extends st_id bulk_station (stations db0) (stations db4)"
    using extends_inserted[OF _ mk(1), of "stations db0" "stations ?db" ns] start
    by (simp add: with_bulk_def db4_def db3_def db2_def db1_def del: upt_Suc)
  moreover have "extends v_id bulk_vehicle (vehicles db0) (vehicles db4)"
    using extends_inserted[OF _ mk(2), of "vehicles db0" "vehicles ?db" nv] start by (simp add: with_bulk_def db4_def db3_def db2_def del: upt_Suc)
  moreover have "extends rt_id bulk_renter (renters db0) (renters db4)"
    using extends_inserted[OF _ mk(3), of "renters db0" "renters ?db" nr] start by (simp add: with_bulk_def db4_def db3_def del: upt_Suc)
  moreover have "extends r_id (bulk_rental db4) (rentals db0) (rentals db4)"
  proof -
    have r: "rows (rentals ?db) = rows (rentals db0)" "next_id (rentals db0) \<le> next_id (rentals ?db)" using same by (simp_all add: same_rows_def)
    have "next_id (rentals db0) \<le> r_id x" if x: "x \<in> set (inserted ?T (next_id (rentals ?db)))" for x
      using set_inserted[OF x] r(2) by auto
    then show ?thesis using bulk r by (auto simp: extends_def db4_def list_all_iff simp del: upt_Suc)
  qed
  moreover have "db4\<lparr>stations := stations db0, vehicles := vehicles db0, renters := renters db0, rentals := rentals db0\<rparr> = db0"
    using start by (simp add: with_bulk_def db4_def db3_def db2_def db1_def del: upt_Suc)
  ultimately show ?thesis using run by (auto simp: with_bulk_def)
qed

section \<open>The whole experiment\<close>

definition one_fault :: "fault list \<Rightarrow> bool" where
  "one_fault fs = (fs = [] \<or> (\<exists>j f. fs = replicate j No_fault @ [f]))"

lemma one_fault_tl: "one_fault fs \<Longrightarrow> one_fault (tl fs)"
proof -
  have "\<exists>j' f'. tl (replicate j No_fault @ [f]) = replicate j' No_fault @ [f'] \<or> tl (replicate j No_fault @ [f]) = []" for j f
    by (cases j) auto
  then show "one_fault fs \<Longrightarrow> one_fault (tl fs)" by (auto simp: one_fault_def)
qed

lemma one_fault_drop: "one_fault fs \<Longrightarrow> one_fault (drop n fs)"
proof (induction n arbitrary: fs)
  case (Suc n)
  from Suc.IH[OF one_fault_tl[OF Suc.prems]] show ?case by (simp add: drop_Suc)
qed simp

text \<open>
  A program of the \<open>try\<close>: it leaves every row alone and every index but the two, makes a number of calls
  when it returns, and has met the one fault when it raises.
\<close>

definition spends :: "nat \<Rightarrow> (lab, exn, 'a) program \<Rightarrow> bool" where
  "spends n m = (\<forall>w. one_fault (lab_faults w) \<longrightarrow>
     lab_db (snd (m w)) = lab_db w \<and> set (lab_indexes (snd (m w))) \<union> set LAB_INDEXES = set (lab_indexes w) \<union> set LAB_INDEXES \<and>
     lab_faults (snd (m w)) = (case fst (m w) of Inl _ \<Rightarrow> [] | Inr _ \<Rightarrow> drop n (lab_faults w)) \<and>
     (set (lab_faults w) \<subseteq> {No_fault} \<longrightarrow> \<not> isl (fst (m w))))"

lemma spends_return: "spends 0 (script_return x)"
  by (simp add: spends_def script_return_def)

lemma spends_bind:
  assumes "spends a m" "\<And>x. spends b (g x)"
  shows "spends (a + b) (script_bind m g)"
  unfolding spends_def
proof (intro allI impI)
  fix w :: lab assume one: "one_fault (lab_faults w)"
  obtain r w1 where m: "m w = (r, w1)" by fastforce
  have 1: "lab_db w1 = lab_db w" "set (lab_indexes w1) \<union> set LAB_INDEXES = set (lab_indexes w) \<union> set LAB_INDEXES"
    "lab_faults w1 = (case r of Inl _ \<Rightarrow> [] | Inr _ \<Rightarrow> drop a (lab_faults w))" "set (lab_faults w) \<subseteq> {No_fault} \<longrightarrow> \<not> isl r"
    using assms(1)[unfolded spends_def, rule_format, OF one] m by simp_all
  show "lab_db (snd (script_bind m g w)) = lab_db w \<and>
      set (lab_indexes (snd (script_bind m g w))) \<union> set LAB_INDEXES = set (lab_indexes w) \<union> set LAB_INDEXES \<and>
      lab_faults (snd (script_bind m g w)) = (case fst (script_bind m g w) of Inl _ \<Rightarrow> [] | Inr _ \<Rightarrow> drop (a + b) (lab_faults w)) \<and>
      (set (lab_faults w) \<subseteq> {No_fault} \<longrightarrow> \<not> isl (fst (script_bind m g w)))"
  proof (cases r)
    case (Inl e)
    then show ?thesis using 1 m by (simp add: script_bind_def)
  next
    case (Inr x)
    have "one_fault (lab_faults w1)" using one_fault_drop[OF one] 1(3) Inr by simp
    note 2 = assms(2)[unfolded spends_def, rule_format, OF this, of x]
    have "set (lab_faults w) \<subseteq> {No_fault} \<longrightarrow> set (lab_faults w1) \<subseteq> {No_fault}"
      using 1(3) Inr set_drop_subset[of a "lab_faults w"] by auto
    then show ?thesis
      using 1 2 m Inr by (simp add: script_bind_def add.commute split: sum.splits)
  qed
qed

lemma spends_map: "(\<And>x. spends n (g x)) \<Longrightarrow> spends (n * length xs) (script_map g xs)"
proof (induction xs)
  case (Cons x xs)
  have "spends (n + (n * length xs + 0)) (script_map g (x # xs))"
    unfolding script_map.simps by (intro spends_bind Cons.prems Cons.IH[OF Cons.prems] spends_return)
  then show ?case by simp
qed (simp add: spends_return)

lemma psql_cases:
  "lab_faults w = [] \<or> hd (lab_faults w) = No_fault \<Longrightarrow>
     psql ss w = (case run_statements ss (w\<lparr>lab_faults := tl (lab_faults w)\<rparr>) of (Inl _, w2) \<Rightarrow> (Inl CalledProcessError, w2) | (Inr out, w2) \<Rightarrow> (Inr out, w2))"
  by (auto simp: psql_def Let_def)

lemma spends_psql:
  assumes "\<And>w. \<exists>out w'. run_statements ss w = (Inr out, w') \<and> lab_db w' = lab_db w \<and> lab_faults w' = lab_faults w \<and>
    set (lab_indexes w') \<union> set LAB_INDEXES = set (lab_indexes w) \<union> set LAB_INDEXES"
  shows "spends 1 (psql ss)"
  unfolding spends_def
proof (intro allI impI)
  fix w :: lab assume one: "one_fault (lab_faults w)"
  let ?w1 = "w\<lparr>lab_faults := tl (lab_faults w)\<rparr>"
  from assms[of ?w1] obtain out w' where r0: "run_statements ss ?w1 = (Inr out, w')" "lab_db w' = lab_db ?w1" "lab_faults w' = lab_faults ?w1"
    "set (lab_indexes w') \<union> set LAB_INDEXES = set (lab_indexes ?w1) \<union> set LAB_INDEXES" by blast
  then have r: "run_statements ss ?w1 = (Inr out, w')" "lab_db w' = lab_db w" "lab_faults w' = tl (lab_faults w)"
    "set (lab_indexes w') \<union> set LAB_INDEXES = set (lab_indexes w) \<union> set LAB_INDEXES" by simp_all
  have last: "tl (lab_faults w) = []" if ne: "lab_faults w \<noteq> []" "hd (lab_faults w) \<noteq> No_fault"
  proof -
    obtain j f where f: "lab_faults w = replicate j No_fault @ [f]" using one ne(1) by (auto simp: one_fault_def)
    then show ?thesis using ne(2) by (cases j) auto
  qed
  show "lab_db (snd (psql ss w)) = lab_db w \<and> set (lab_indexes (snd (psql ss w))) \<union> set LAB_INDEXES = set (lab_indexes w) \<union> set LAB_INDEXES \<and>
      lab_faults (snd (psql ss w)) = (case fst (psql ss w) of Inl _ \<Rightarrow> [] | Inr _ \<Rightarrow> drop 1 (lab_faults w)) \<and>
      (set (lab_faults w) \<subseteq> {No_fault} \<longrightarrow> \<not> isl (fst (psql ss w)))"
    using r last by (cases "hd (lab_faults w)"; cases "lab_faults w") (simp_all add: psql_def Let_def drop_Suc)
qed

lemma run_index_statements:
  "\<exists>w'. run_statements DROP_INDEXES w = (Inr [], w') \<and> lab_db w' = lab_db w \<and> lab_faults w' = lab_faults w \<and>
     set (lab_indexes w') \<union> set LAB_INDEXES = set (lab_indexes w) \<union> set LAB_INDEXES"
  "\<exists>w'. run_statements CREATE_INDEXES w = (Inr [], w') \<and> lab_db w' = lab_db w \<and> lab_faults w' = lab_faults w \<and>
     set (lab_indexes w') = set (lab_indexes w) \<union> set LAB_INDEXES"
  by (auto simp: DROP_INDEXES_def CREATE_INDEXES_def LAB_INDEXES_def drop_index_def create_index_def script_bind_def script_return_def)

lemma spends_explain: "spends 2 (explain plan q)"
proof -
  have p: "spends 1 (psql [explain_statement plan q])"
    by (rule spends_psql) (simp add: explain_statement_def[abs_def] script_bind_def script_return_def)
  have "spends (1 + (1 + 0)) (explain plan q)" unfolding explain_def by (intro spends_bind p spends_return)
  then show ?thesis by (simp add: numeral_2_eq_2)
qed

text \<open>
  The experiment on a database that may still hold the bulk data of an interrupted run: whichever of its ten calls
  between loading and clean-up fails, before or after its effect, every table has the rows of the service again
  and both indexes exist; without a fault it returns its report.
\<close>

lemma explain_restores:
  assumes base: "lab_base db0" and ext: "with_bulk db0 (lab_db w)"
    and faults: "lab_faults w = No_fault # No_fault # replicate j No_fault @ [f]" "j < 10"
    and main: "explain_main now plan w = (r, w')"
  shows "same_rows db0 (lab_db w') \<and> set (lab_indexes w') = set (lab_indexes w) \<union> set LAB_INDEXES \<and> (f = No_fault \<longrightarrow> (\<exists>out. r = Inr out))"
proof -
  let ?w1 = "w\<lparr>lab_faults := No_fault # replicate j No_fault @ [f]\<rparr>"
  obtain db1 where c: "run_statements CLEANUP ?w1 = (Inr [], ?w1\<lparr>lab_db := db1\<rparr>)" "same_rows db0 db1"
    using cleanup_restores_rows[OF base, of ?w1] ext by auto
  have p1: "psql CLEANUP w = (Inr [], ?w1\<lparr>lab_db := db1\<rparr>)" using psql_cases[of w CLEANUP] faults c(1) by simp
  let ?w2 = "w\<lparr>lab_db := db1, lab_faults := replicate j No_fault @ [f]\<rparr>"
  obtain db2 where s: "run_statements (SEED now) ?w2 = (Inr [], ?w2\<lparr>lab_db := db2\<rparr>)" "with_bulk db0 db2"
    using seed_runs[OF base, of ?w2 STATIONS VEHICLES RENTERS now RENTALS] c(2)
    by (auto simp: SEED_def STATIONS_def VEHICLES_def RENTERS_def simp del: run_statements.simps)
  have p2: "psql (SEED now) (?w1\<lparr>lab_db := db1\<rparr>) = (Inr [], ?w2\<lparr>lab_db := db2\<rparr>)"
    using psql_cases[of "?w1\<lparr>lab_db := db1\<rparr>" "SEED now"] s(1) by simp
  let ?w3 = "?w2\<lparr>lab_db := db2\<rparr>"
  let ?qs = "script_map (\<lambda>(_, _, q). explain plan q) QUERIES"
  let ?body = "script_bind (psql DROP_INDEXES) (\<lambda>_. script_bind ?qs (\<lambda>before. script_bind (psql CREATE_INDEXES) (\<lambda>_.
    script_bind ?qs (\<lambda>after. script_return (before, after)))))"
  have qs: "spends (2 * length QUERIES) ?qs" by (rule spends_map) (use spends_explain in \<open>simp split: prod.split\<close>)
  have d: "spends 1 (psql DROP_INDEXES)" using run_index_statements(1) by (intro spends_psql) blast
  have cr: "spends 1 (psql CREATE_INDEXES)"
    by (rule spends_psql) (use run_index_statements(2) in \<open>metis Un_assoc Un_absorb\<close>)
  have "spends (1 + (2 * length QUERIES + (1 + (2 * length QUERIES + 0)))) ?body"
    by (intro spends_bind d qs cr spends_return)
  then have b10: "spends 10 ?body" by (simp add: QUERIES_def)
  obtain rb w4 where b: "?body ?w3 = (rb, w4)" by fastforce
  have one: "one_fault (lab_faults ?w3)" by (auto simp: one_fault_def)
  from b10[unfolded spends_def, rule_format, OF one] b faults(2)
  have w4: "lab_db w4 = db2" "lab_faults w4 = []" "set (lab_indexes w4) \<union> set LAB_INDEXES = set (lab_indexes w) \<union> set LAB_INDEXES"
    by (simp_all split: sum.splits)
  obtain w5 where w5: "run_statements CREATE_INDEXES (w4\<lparr>lab_faults := []\<rparr>) = (Inr [], w5)" "lab_db w5 = db2" "lab_faults w5 = []"
    "set (lab_indexes w5) = set (lab_indexes w) \<union> set LAB_INDEXES"
    using run_index_statements(2)[of "w4\<lparr>lab_faults := []\<rparr>"] w4 by auto
  have p4: "psql CREATE_INDEXES w4 = (Inr [], w5)" using psql_cases[of w4 CREATE_INDEXES] w4(2) w5(1) by simp
  obtain db5 where db5: "run_statements CLEANUP (w5\<lparr>lab_faults := []\<rparr>) = (Inr [], w5\<lparr>lab_faults := [], lab_db := db5\<rparr>)" "same_rows db0 db5"
    using cleanup_restores_rows[OF base, of "w5\<lparr>lab_faults := []\<rparr>"] w5(2) s(2) by auto
  have p5: "psql CLEANUP w5 = (Inr [], w5\<lparr>lab_faults := [], lab_db := db5\<rparr>)" using psql_cases[of w5 CLEANUP] w5(3) db5(1) by simp
  have f: "script_finally ?body (script_bind (psql CREATE_INDEXES) (\<lambda>_. psql CLEANUP)) ?w3 = (rb, w5\<lparr>lab_faults := [], lab_db := db5\<rparr>)"
    unfolding script_finally_def b by (simp add: script_bind_def p4 p5)
  have m: "explain_main now plan w = (case rb of Inl e \<Rightarrow> Inl e | Inr (before, after) \<Rightarrow> Inr (explain_report before after), w5\<lparr>lab_faults := [], lab_db := db5\<rparr>)"
    unfolding explain_main_def script_bind_run[of "psql CLEANUP", OF p1] script_bind_run[of "psql (SEED now)", OF p2] script_bind_def[of "script_finally _ _"] f
    by (cases rb) (simp_all add: script_return_def split: prod.split)
  have "\<exists>out. rb = Inr out" if "f = No_fault"
    using b10[unfolded spends_def, rule_format, OF one] b that by (cases rb) auto
  then show ?thesis using main m db5(2) w5(4) by (auto split: prod.splits)
qed

end
