(* ===== verification/Reliability.thy ===== *)
theory Reliability
  imports Scripts QualityTools LoadReport
begin

text \<open>
  \<open>scripts/reliability_test.py\<close>, \<open>scripts/metrics_probe.py\<close> and \<open>scripts/check_analyzable.py\<close>: the byte forms in which one source file is
  given to the analysers, the probe that runs them, and the guard that came out of the experiment. The
  analysers, the JSON and CSV readers and docker are arguments. Lemmas: every UTF-8 form is read back as the same
  program, a probe always answers, the guard passes exactly when every file was analysed.
\<close>

section \<open>Byte forms\<close>

text \<open>Texts are lists of code points, bytes are numbers below 256. A surrogate has no UTF-8 form.\<close>

definition utf8_char :: "nat \<Rightarrow> nat list option" where
  "utf8_char c =
     (if c < 0x80 then Some [c]
      else if c < 0x800 then Some [0xC0 + c div 64, 0x80 + c mod 64]
      else if 0xD800 \<le> c \<and> c < 0xE000 then None
      else if c < 0x10000 then Some [0xE0 + c div 4096, 0x80 + c div 64 mod 64, 0x80 + c mod 64]
      else if c < 0x110000 then Some [0xF0 + c div 262144, 0x80 + c div 4096 mod 64, 0x80 + c div 64 mod 64, 0x80 + c mod 64]
      else None)"

fun encode_with :: "(nat \<Rightarrow> nat list option) \<Rightarrow> nat list \<Rightarrow> nat list option" where
  "encode_with f [] = Some []"
| "encode_with f (c # cs) = (case (f c, encode_with f cs) of (Some x, Some y) \<Rightarrow> Some (x @ y) | _ \<Rightarrow> None)"

definition CP1251_HIGH :: "nat list" where
  "CP1251_HIGH =
     [0x402, 0x403, 0x201A, 0x453, 0x201E, 0x2026, 0x2020, 0x2021, 0x20AC, 0x2030, 0x409, 0x2039, 0x40A, 0x40C, 0x40B, 0x40F,
      0x452, 0x2018, 0x2019, 0x201C, 0x201D, 0x2022, 0x2013, 0x2014, 0x110000, 0x2122, 0x459, 0x203A, 0x45A, 0x45C, 0x45B, 0x45F,
      0xA0, 0x40E, 0x45E, 0x408, 0xA4, 0x490, 0xA6, 0xA7, 0x401, 0xA9, 0x404, 0xAB, 0xAC, 0xAD, 0xAE, 0x407,
      0xB0, 0xB1, 0x406, 0x456, 0x491, 0xB5, 0xB6, 0xB7, 0x451, 0x2116, 0x454, 0xBB, 0x458, 0x405, 0x455, 0x457] @ [0x410..<0x450]"

text \<open>Byte 98 (hexadecimal) of the code page is unassigned, written above as a number that is no code point.\<close>

definition cp1251_char :: "nat \<Rightarrow> nat list option" where
  "cp1251_char c = (if c < 0x80 then Some [c]
     else if c < 0x110000 then map_option (\<lambda>(i, _). [0x80 + i]) (find (\<lambda>(_, d). d = c) (zip [0..<128] CP1251_HIGH)) else None)"

definition replace_newline :: "nat list \<Rightarrow> nat list \<Rightarrow> nat list" where
  "replace_newline by text = concat (map (\<lambda>c. if c = 10 then by else [c]) text)"

definition VARIANTS :: "(string \<times> (nat list \<Rightarrow> nat list option)) list" where
  "VARIANTS =
     [(''utf8-lf'', encode_with utf8_char),
      (''utf8-crlf'', \<lambda>t. encode_with utf8_char (replace_newline [13, 10] t)),
      (''utf8-cr'', \<lambda>t. encode_with utf8_char (replace_newline [13] t)),
      (''utf8-bom-lf'', \<lambda>t. map_option (\<lambda>b. [0xEF, 0xBB, 0xBF] @ b) (encode_with utf8_char t)),
      (''cp1251-lf'', encode_with cp1251_char)]"

definition PINNED_TOOLS :: string where
  "PINNED_TOOLS = ''radon==6.0.1 lizard==1.24.1 complexipy==8.0.1''"

definition ENVIRONMENTS :: "(string \<times> string \<times> string) list" where
  "ENVIRONMENTS =
     [(''py3.9 + pinned tools'', ''python:3.9-slim'', PINNED_TOOLS), (''py3.13 + pinned tools'', ''python:3.13.16-slim'', PINNED_TOOLS),
      (''py3.14 + pinned tools'', ''python:3.14-slim'', PINNED_TOOLS), (''py3.13 + old tools'', ''python:3.13.16-slim'', ''radon==5.1.0 lizard==1.17.10'')]"

section \<open>The matrix\<close>

definition probe_script :: "string \<Rightarrow> string" where
  "probe_script tools =
     ''pip install -q --root-user-action=ignore '' @ tools @ '' >/dev/null 2>&1; '' @
     join '' '' (map (\<lambda>(name, _). ''echo '' @ [CHR 0x27] @ name @ [CHR 0x27] @ ''; python /work/metrics_probe.py /work/'' @ name @ ''.py;'') VARIANTS)"

text \<open>The output is read as pairs of lines, a name and a JSON text; an odd line at the end raises.\<close>

fun read_pairs :: "(string \<Rightarrow> 'j result) \<Rightarrow> string list \<Rightarrow> (string \<times> 'j) list \<Rightarrow> (string \<times> 'j) list result" where
  "read_pairs loads [] d = Inr d"
| "read_pairs loads [n] d = Inl IndexError"
| "read_pairs loads (n # j # ls) d = bind_result (loads j) (\<lambda>x. read_pairs loads ls (dict_put n x d))"

definition scan_image :: "(string list \<Rightarrow> ('w, exn, completed_process) program) \<Rightarrow> (string \<Rightarrow> 'j result) \<Rightarrow> string \<Rightarrow> string \<Rightarrow> string \<Rightarrow>
    ('w, exn, (string \<times> 'j) list) program" where
  "scan_image exec loads workdir img tools =
     script_bind (checked (exec [''docker'', ''run'', ''--rm'', ''-v'', workdir @ '':/work'', img, ''sh'', ''-c'', probe_script tools])) (\<lambda>p.
     (case read_pairs loads (splitlines (stdout p)) [] of Inl e \<Rightarrow> script_raise e | Inr d \<Rightarrow> script_return d))"

text \<open>
  \<open>main\<close>: the files of the work directory are written first; a text that a form cannot express raises, and no image
  is scanned. The source comes from git, an argument.
\<close>

definition work_files :: "nat list \<Rightarrow> (string \<times> nat list) list result" where
  "work_files source = map_result (\<lambda>(name, encode). case encode source of
       None \<Rightarrow> Inl (ValueError ''character maps to <undefined>'')
     | Some bytes \<Rightarrow> Inr (name @ ''.py'', bytes)) VARIANTS"

definition reliability_main :: "(string list \<Rightarrow> ('w, exn, completed_process) program) \<Rightarrow> (string \<Rightarrow> 'j result) \<Rightarrow>
    ((string \<times> nat list) list \<Rightarrow> ('w, exn, string) program) \<Rightarrow> nat list \<Rightarrow> ('w, exn, (string \<times> string \<times> (string \<times> 'j) list) list) program" where
  "reliability_main exec loads write_files source =
     (case work_files source of
        Inl e \<Rightarrow> script_raise e
      | Inr files \<Rightarrow> script_bind (write_files files) (\<lambda>workdir.
          script_map (\<lambda>(env, img, tools). script_bind (scan_image exec loads workdir img tools) (\<lambda>d. script_return (env, img, d))) ENVIRONMENTS))"

section \<open>The probe\<close>

definition ANSI_ESCAPE :: re where
  "ANSI_ESCAPE = seqs [Cls (\<lambda>c. c = CHR 27), Cls (\<lambda>c. c = CHR ''[''), Star (Cls (\<lambda>c. digit c \<or> c = CHR '';'')), Cls (\<lambda>c. c = CHR ''m'')]"

type_synonym tool_exec = "string list \<Rightarrow> completed_process"

definition run_tool :: "tool_exec \<Rightarrow> string list \<Rightarrow> string result" where
  "run_tool exec cmd =
     (let p = exec cmd
      in if returncode p \<noteq> 0
         then (case splitlines (strip (if stderr p \<noteq> [] then stderr p else stdout p)) of
                 [] \<Rightarrow> Inl IndexError
               | ls \<Rightarrow> Inl (RuntimeError (sub ANSI_ESCAPE (\<lambda>_ _. []) (last ls))))
         else Inr (stdout p))"

text \<open>What the JSON of radon says of the file.\<close>

datatype raw_entry = Raw_metrics int int int int int | Raw_error string

record radon_readers =
  read_raw :: "string \<Rightarrow> raw_entry result"
  read_cc :: "string \<Rightarrow> radon_entry result"
  read_mi :: "string \<Rightarrow> rat result"

record radon_result =
  rr_loc :: int
  rr_sloc :: int
  rr_lloc :: int
  rr_comments :: int
  rr_blank :: int
  rr_cc_max :: int
  rr_cc_sum :: int
  rr_mi :: rat

definition radon_metrics :: "tool_exec \<Rightarrow> radon_readers \<Rightarrow> string \<Rightarrow> radon_result result" where
  "radon_metrics exec readers path =
     bind_result (run_tool exec [''radon'', ''raw'', ''-j'', path]) (\<lambda>out1. bind_result (read_raw readers out1) (\<lambda>raw.
     case raw of Raw_error e \<Rightarrow> Inl (RuntimeError e) | Raw_metrics loc sloc lloc comments blank \<Rightarrow>
     bind_result (run_tool exec [''radon'', ''cc'', ''-j'', path]) (\<lambda>out2. bind_result (read_cc readers out2) (\<lambda>entry.
     case entry of Unparsable e \<Rightarrow> Inl (RuntimeError e) | Blocks blocks \<Rightarrow>
     bind_result (run_tool exec [''radon'', ''mi'', ''-j'', path]) (\<lambda>out3. bind_result (read_mi readers out3) (\<lambda>mi.
     if blocks = [] then Inl (ValueError ''max() iterable argument is empty'')
     else Inr \<lparr>rr_loc = loc, rr_sloc = sloc, rr_lloc = lloc, rr_comments = comments, rr_blank = blank,
       rr_cc_max = Max (set (map b_complexity blocks)), rr_cc_sum = sum_list (map b_complexity blocks), rr_mi = py_round2 mi\<rparr>))))))"

definition cell_int :: "string list \<Rightarrow> nat \<Rightarrow> int result" where
  "cell_int r i = (if i < length r then (case py_int (r ! i) of None \<Rightarrow> Inl (ValueError ''invalid literal for int()'') | Some n \<Rightarrow> Inr n) else Inl IndexError)"

definition sum_column :: "string list list \<Rightarrow> nat \<Rightarrow> int result" where
  "sum_column csv i = bind_result (map_result (\<lambda>r. cell_int r i) csv) (\<lambda>ns. Inr (sum_list ns))"

text \<open>Functions, lines, complexity and tokens of the file.\<close>

definition lizard_metrics :: "tool_exec \<Rightarrow> (string \<Rightarrow> string list list) \<Rightarrow> string \<Rightarrow> (nat \<times> int \<times> int \<times> int) result" where
  "lizard_metrics exec read_csv path =
     bind_result (run_tool exec [''lizard'', ''--csv'', path]) (\<lambda>out. let csv = read_csv out in
     bind_result (sum_column csv 0) (\<lambda>nloc. bind_result (sum_column csv 1) (\<lambda>ccn. bind_result (sum_column csv 2) (\<lambda>tokens.
     Inr (length csv, nloc, ccn, tokens)))))"

definition complexipy_metrics :: "tool_exec \<Rightarrow> bool \<Rightarrow> (unit \<Rightarrow> int list result) \<Rightarrow> string \<Rightarrow> string \<Rightarrow> int result" where
  "complexipy_metrics exec installed read_report report path =
     (if \<not> installed then Inl (RuntimeError ''complexipy not installed'')
      else bind_result (run_tool exec [''complexipy'', path, ''-q'', ''-i'', ''--output-format'', ''json'', ''--output'', report]) (\<lambda>_.
           bind_result (read_report ()) (\<lambda>cs. Inr (sum_list cs))))"

text \<open>\<open>str(exc)\<close> is an argument.\<close>

definition safely :: "(exn \<Rightarrow> string) \<Rightarrow> 'a result \<Rightarrow> string + 'a" where
  "safely text_of r = (case r of Inl e \<Rightarrow> Inl (take 160 (text_of e)) | Inr x \<Rightarrow> Inr x)"

record probe =
  pb_python :: string
  pb_tools :: "(string \<times> string) list"
  pb_radon :: "string + radon_result"
  pb_lizard :: "string + nat \<times> int \<times> int \<times> int"
  pb_complexipy :: "string + int"

definition package_version :: "(string \<Rightarrow> string option) \<Rightarrow> string \<Rightarrow> string" where
  "package_version installed package = (case installed package of None \<Rightarrow> ''-'' | Some v \<Rightarrow> v)"

record host =
  ho_exec :: tool_exec
  ho_readers :: radon_readers
  ho_csv :: "string \<Rightarrow> string list list"
  ho_report :: "unit \<Rightarrow> int list result"
  ho_has_complexipy :: bool
  ho_versions :: "string \<Rightarrow> string option"
  ho_python :: string
  ho_text :: "exn \<Rightarrow> string"
  ho_tmp :: string

definition probe_main :: "host \<Rightarrow> string \<Rightarrow> probe" where
  "probe_main h path =
     \<lparr>pb_python = ho_python h, pb_tools = map (\<lambda>t. (t, package_version (ho_versions h) t)) [''radon'', ''lizard'', ''complexipy''],
      pb_radon = safely (ho_text h) (radon_metrics (ho_exec h) (ho_readers h) path),
      pb_lizard = safely (ho_text h) (lizard_metrics (ho_exec h) (ho_csv h) path),
      pb_complexipy = safely (ho_text h) (complexipy_metrics (ho_exec h) (ho_has_complexipy h) (ho_report h) (ho_tmp h) path)\<rparr>"

section \<open>The guard\<close>

definition broken_files :: "(string \<times> radon_entry) list \<Rightarrow> (string \<times> string) list" where
  "broken_files report = List.map_filter (\<lambda>(path, b). case b of Unparsable e \<Rightarrow> Some (path, e) | Blocks _ \<Rightarrow> None) report"

definition check_analyzable :: "(string list \<Rightarrow> (string \<times> radon_entry) list result) \<Rightarrow> string list \<Rightarrow> (string list \<times> int) result" where
  "check_analyzable run_radon argv =
     bind_result (run_radon (if argv = [] then [''src''] else argv)) (\<lambda>report. let broken = broken_files report in Inr
       (map (\<lambda>(path, e). ''NOT ANALYZABLE '' @ path @ '': '' @ e) broken @
          [str_nat (length report - length broken) @ ''/'' @ str_nat (length report) @ '' files analyzable''],
        if broken = [] then 0 else 1))"

section \<open>Reading a form back\<close>

text \<open>Strict UTF-8, and the lines of a source text: a carriage return, alone or before a line feed, ends a line.\<close>

definition continuation :: "nat \<Rightarrow> bool" where
  "continuation b = (0x80 \<le> b \<and> b < 0xC0)"

fun utf8_decode :: "nat list \<Rightarrow> nat list option" where
  "utf8_decode [] = Some []"
| "utf8_decode (b # bs) =
     (if b < 0x80 then map_option (Cons b) (utf8_decode bs)
      else if 0xC2 \<le> b \<and> b < 0xE0 then
        (case bs of x # bs' \<Rightarrow> if continuation x then map_option (Cons ((b - 0xC0) * 64 + (x - 0x80))) (utf8_decode bs') else None | _ \<Rightarrow> None)
      else if 0xE0 \<le> b \<and> b < 0xF0 then
        (case bs of x # y # bs' \<Rightarrow> let c = (b - 0xE0) * 4096 + (x - 0x80) * 64 + (y - 0x80) in
           if continuation x \<and> continuation y \<and> 0x800 \<le> c \<and> \<not> (0xD800 \<le> c \<and> c < 0xE000) then map_option (Cons c) (utf8_decode bs') else None
         | _ \<Rightarrow> None)
      else if 0xF0 \<le> b \<and> b < 0xF5 then
        (case bs of x # y # z # bs' \<Rightarrow> let c = (b - 0xF0) * 262144 + (x - 0x80) * 4096 + (y - 0x80) * 64 + (z - 0x80) in
           if continuation x \<and> continuation y \<and> continuation z \<and> 0x10000 \<le> c \<and> c < 0x110000 then map_option (Cons c) (utf8_decode bs') else None
         | _ \<Rightarrow> None)
      else None)"

fun norm_newlines :: "nat list \<Rightarrow> nat list" where
  "norm_newlines [] = []"
| "norm_newlines [c] = [if c = 13 then 10 else c]"
| "norm_newlines (c # d # cs) = (if c = 13 then (if d = 10 then 10 # norm_newlines cs else 10 # norm_newlines (d # cs)) else c # norm_newlines (d # cs))"

definition BOM :: "nat list" where
  "BOM = [0xEF, 0xBB, 0xBF]"

definition read_source :: "nat list \<Rightarrow> nat list option" where
  "read_source bytes = map_option norm_newlines (utf8_decode (if take 3 bytes = BOM then drop 3 bytes else bytes))"

lemma digits_64:
  fixes c :: nat
  shows "c div 64 * 64 + c mod 64 = c" "c div 4096 * 4096 + c div 64 mod 64 * 64 + c mod 64 = c"
    "c div 262144 * 262144 + c div 4096 mod 64 * 4096 + c div 64 mod 64 * 64 + c mod 64 = c"
proof -
  have d: "c div 4096 = c div 64 div 64" "c div 262144 = c div 4096 div 64" by (simp_all add: div_mult2_eq[symmetric])
  show "c div 64 * 64 + c mod 64 = c" by simp
  have e1: "c div 64 = c div 4096 * 64 + c div 64 mod 64" using d(1) by simp
  have e2: "c div 4096 = c div 262144 * 64 + c div 4096 mod 64" using d(2) by simp
  have "c div 64 * 64 + c mod 64 = c" by simp
  with e1 show f: "c div 4096 * 4096 + c div 64 mod 64 * 64 + c mod 64 = c" by linarith
  with e2 show "c div 262144 * 262144 + c div 4096 mod 64 * 4096 + c div 64 mod 64 * 64 + c mod 64 = c" by linarith
qed

lemma utf8_decode_char:
  assumes "utf8_char c = Some bs"
  shows "utf8_decode (bs @ rest) = map_option (Cons c) (utf8_decode rest)"
proof -
  have m: "continuation (0x80 + x mod 64)" for x :: nat using mod_less_divisor[of 64 x] by (simp add: continuation_def)
  consider "c < 0x80" | "0x80 \<le> c" "c < 0x800" | "0x800 \<le> c" "c < 0x10000" "\<not> (0xD800 \<le> c \<and> c < 0xE000)" | "0x10000 \<le> c" "c < 0x110000"
    using assms by (fastforce simp: utf8_char_def split: if_splits)
  then show ?thesis
  proof cases
    case 1
    then show ?thesis using assms by (auto simp: utf8_char_def)
  next
    case 2
    have "2 \<le> c div 64" "c div 64 < 32" using 2 by (simp_all add: div_le_mono[of 128 c 64, simplified] less_mult_imp_div_less)
    then show ?thesis using assms 2 m digits_64(1)[of c] by (auto simp: utf8_char_def)
  next
    case 3
    have "c div 4096 < 16" using 3 by (simp add: less_mult_imp_div_less)
    then show ?thesis using assms 3 m digits_64(2)[of c] by (auto simp: utf8_char_def Let_def)
  next
    case 4
    have "c div 262144 < 5" using 4 by (simp add: less_mult_imp_div_less)
    then show ?thesis using assms 4 m digits_64(3)[of c] by (auto simp: utf8_char_def Let_def)
  qed
qed

lemma utf8_round_trip: "encode_with utf8_char t = Some bytes \<Longrightarrow> utf8_decode (bytes @ rest) = map_option ((@) t) (utf8_decode rest)"
proof (induction t arbitrary: bytes)
  case (Cons c cs)
  then obtain x y where xy: "utf8_char c = Some x" "encode_with utf8_char cs = Some y" "bytes = x @ y"
    by (auto split: option.splits)
  then show ?case using utf8_decode_char[OF xy(1), of "y @ rest"] Cons.IH[OF xy(2)] by (simp add: option.map_comp comp_def)
next
  case Nil
  then show ?case by (cases "utf8_decode rest") simp_all
qed

lemma norm_plain: "13 \<notin> set t \<Longrightarrow> norm_newlines t = t"
  by (induction t rule: norm_newlines.induct) auto

lemma norm_crlf: "13 \<notin> set t \<Longrightarrow> norm_newlines (replace_newline [13, 10] t) = t"
proof (induction t)
  case (Cons c t)
  have "norm_newlines (c # ys) = c # norm_newlines ys" if "c \<noteq> 13" for c ys using that by (cases ys) simp_all
  then show ?case using Cons by (simp add: replace_newline_def)
qed (simp add: replace_newline_def)

lemma norm_cr: "13 \<notin> set t \<Longrightarrow> norm_newlines (replace_newline [13] t) = t"
proof (induction t)
  case (Cons c t)
  have other: "norm_newlines (c # ys) = c # norm_newlines ys" if "c \<noteq> 13" for c ys using that by (cases ys) simp_all
  have "10 \<notin> set (replace_newline [13] t)" by (auto simp: replace_newline_def)
  then have "norm_newlines (13 # replace_newline [13] t) = 10 # norm_newlines (replace_newline [13] t)"
    by (cases "replace_newline [13] t") auto
  then show ?case using Cons other by (simp add: replace_newline_def)
qed (simp add: replace_newline_def)

lemma BOM_utf8: "utf8_char 0xFEFF = Some BOM"
  by (simp add: utf8_char_def BOM_def)

lemma read_source_utf8:
  assumes "encode_with utf8_char u = Some bytes" "u = [] \<or> hd u \<noteq> 0xFEFF"
  shows "read_source bytes = Some (norm_newlines u)" "read_source (BOM @ bytes) = Some (norm_newlines u)"
proof -
  have d: "utf8_decode bytes = Some u" using utf8_round_trip[OF assms(1), of "[]"] by simp
  have "take 3 bytes \<noteq> BOM"
  proof
    assume "take 3 bytes = BOM"
    then have "bytes = BOM @ drop 3 bytes" by (metis append_take_drop_id)
    then have "utf8_decode bytes = map_option (Cons 0xFEFF) (utf8_decode (drop 3 bytes))" using utf8_decode_char[OF BOM_utf8] by metis
    then show False using d assms(2) by (cases "utf8_decode (drop 3 bytes)") auto
  qed
  then show "read_source bytes = Some (norm_newlines u)" using d by (simp add: read_source_def)
  show "read_source (BOM @ bytes) = Some (norm_newlines u)" using d by (simp add: read_source_def BOM_def)
qed

text \<open>The four UTF-8 forms of a text with line feeds are one and the same program.\<close>

lemma utf8_forms_same_program:
  assumes "13 \<notin> set t" "t = [] \<or> hd t \<noteq> 0xFEFF" "map_of VARIANTS name = Some form" "name \<noteq> ''cp1251-lf''" "form t = Some bytes"
  shows "read_source bytes = Some t"
proof -
  have hd: "replace_newline by t = [] \<or> hd (replace_newline by t) \<noteq> 0xFEFF" if "by \<in> {[13, 10], [13]}" for "by"
    using assms(2) that by (cases t) (auto simp: replace_newline_def)
  consider "form = encode_with utf8_char" | "form = (\<lambda>t. encode_with utf8_char (replace_newline [13, 10] t))"
    | "form = (\<lambda>t. encode_with utf8_char (replace_newline [13] t))" | "form = (\<lambda>t. map_option (\<lambda>b. BOM @ b) (encode_with utf8_char t))"
    using assms(3,4) by (auto simp: VARIANTS_def BOM_def split: if_splits)
  then show ?thesis
  proof cases
    case 1
    then show ?thesis using assms read_source_utf8(1) norm_plain by simp
  next
    case 2
    then show ?thesis using assms read_source_utf8(1)[OF _ hd] norm_crlf by simp
  next
    case 3
    then show ?thesis using assms read_source_utf8(1)[OF _ hd] norm_cr by simp
  next
    case 4
    then obtain b where b: "encode_with utf8_char t = Some b" "bytes = BOM @ b" using assms(5) by auto
    show ?thesis unfolding b(2) read_source_utf8(2)[OF b(1) assms(2)] norm_plain[OF assms(1)] ..
  qed
qed

text \<open>In the code page a text whose first character outside ASCII has a byte below 192 is no UTF-8 at all.\<close>

lemma cp1251_unreadable:
  assumes "list_all (\<lambda>c. c < 0x80) pre" "cp1251_char c = Some [b]" "0x80 \<le> c" "b < 0xC0" "encode_with cp1251_char (pre @ c # post) = Some bytes"
  shows "utf8_decode bytes = None"
  using assms(1,5)
proof (induction pre arbitrary: bytes)
  case Nil
  have "0x80 \<le> b" using assms(2,3) by (auto simp: cp1251_char_def split: if_splits)
  then show ?case using Nil assms(2,4) by (auto split: option.splits)
next
  case (Cons a pre)
  then show ?case by (auto simp: cp1251_char_def split: option.splits)
qed

section \<open>What the scripts report\<close>

lemma read_pairs_all:
  assumes "\<And>n. n \<in> set names \<Longrightarrow> loads (js n) = Inr (x n)" "distinct names"
  shows "read_pairs loads (concat (map (\<lambda>n. [n, js n]) names)) [] = Inr (map (\<lambda>n. (n, x n)) names)"
proof -
  have put: "k \<notin> fst ` set d \<Longrightarrow> dict_put k v d = d @ [(k, v)]" for k v and d :: "(string \<times> 'a) list"
    by (induction k v d rule: dict_put.induct) auto
  have "read_pairs loads (concat (map (\<lambda>n. [n, js n]) ns)) d = Inr (d @ map (\<lambda>n. (n, x n)) ns)"
    if "\<And>n. n \<in> set ns \<Longrightarrow> loads (js n) = Inr (x n)" "distinct ns" "fst ` set d \<inter> set ns = {}" for ns d
    using that
  proof (induction ns arbitrary: d)
    case (Cons n ns)
    have "fst ` set (d @ [(n, x n)]) \<inter> set ns = {}" using Cons.prems(2,3) by auto
    from Cons.IH[OF _ _ this] Cons.prems put[of n d "x n"] show ?case by auto
  qed simp
  from this[of names "[]"] assms show ?thesis by simp
qed

text \<open>
  A file that radon analyses but that has no function or class has no metrics in the report: the largest of no
  numbers raises.
\<close>

lemma radon_metrics_blocks:
  assumes "radon_metrics exec readers path = Inr r" "run_tool exec [''radon'', ''cc'', ''-j'', path] = Inr out"
  shows "\<exists>bs. read_cc readers out = Inr (Blocks bs) \<and> bs \<noteq> [] \<and> rr_cc_max r = Max (set (map b_complexity bs)) \<and>
    rr_cc_sum r = sum_list (map b_complexity bs)"
proof -
  obtain out1 raw where raw: "run_tool exec [''radon'', ''raw'', ''-j'', path] = Inr out1" "read_raw readers out1 = Inr raw"
    using assms(1) unfolding radon_metrics_def bind_result_Inr by blast
  then obtain a b c d e where m: "raw = Raw_metrics a b c d e" using assms(1) by (cases raw) (simp_all add: radon_metrics_def)
  obtain entry where cc: "read_cc readers out = Inr entry"
    using assms raw m by (cases "read_cc readers out") (simp_all add: radon_metrics_def)
  then obtain bs where bs: "entry = Blocks bs" using assms raw m by (cases entry) (simp_all add: radon_metrics_def)
  show ?thesis using assms raw m cc bs by (auto simp: radon_metrics_def bind_result_Inr split: if_splits)
qed

lemma radon_max_sum:
  assumes "radon_metrics exec readers path = Inr r" "run_tool exec [''radon'', ''cc'', ''-j'', path] = Inr out"
    "read_cc readers out = Inr (Blocks bs)" "list_all (\<lambda>b. 0 \<le> b_complexity b) bs"
  shows "rr_cc_max r \<le> rr_cc_sum r"
proof -
  have r: "rr_cc_max r = Max (set (map b_complexity bs))" "rr_cc_sum r = sum_list (map b_complexity bs)" "bs \<noteq> []"
    using radon_metrics_blocks[OF assms(1,2)] assms(3) by simp_all
  have "Max (set (map b_complexity bs)) \<in> set (map b_complexity bs)" using r(3) by (intro Max_in) auto
  then show ?thesis using assms(4) unfolding r by (intro member_le_sum_list) (auto simp: list_all_iff)
qed

text \<open>The guard passes exactly when radon could analyse every file, and a report that passes the complexity gate passes it too.\<close>

lemma check_analyzable_exact:
  assumes "run_radon (if argv = [] then [''src''] else argv) = Inr report"
  shows "\<exists>out. check_analyzable run_radon argv = Inr (out, if \<forall>(path, b) \<in> set report. \<exists>bs. b = Blocks bs then 0 else 1)"
proof -
  have "broken_files report = [] \<longleftrightarrow> (\<forall>(path, b) \<in> set report. \<exists>bs. b = Blocks bs)"
    by (induction report) (auto simp: broken_files_def List.map_filter_simps split: radon_entry.splits)
  then show ?thesis using assms by (simp add: check_analyzable_def Let_def)
qed

lemma gate_implies_analyzable:
  assumes "find_problems report = []"
  shows "broken_files report = []"
  using assms by (induction report) (auto simp: find_problems_def broken_files_def List.map_filter_simps split: radon_entry.splits)

end
