(* ===== verification/Charts.thy ===== *)
theory Charts
  imports Scripts LoadReport
begin

text \<open>
  The charts of \<open>loadtest/report.py\<close> and both command lines, \<open>report.py\<close> and \<open>compare.py\<close>, with the files they
  write. \<open>num\<close> stands for the printing of a float (\<open>repr\<close>). Lemmas: every point of a series is one point of its
  line and lies inside the plot; five entries of a legend fit the picture and a sixth does not; the summary is written last.
\<close>

section \<open>SVG\<close>

definition attrs :: "(string \<times> string) list \<Rightarrow> string" where
  "attrs as = concat (map (\<lambda>(n, v). '' '' @ n @ ''='' @ QUOTE @ v @ QUOTE) as)"

definition svg_empty :: "string \<Rightarrow> (string \<times> string) list \<Rightarrow> string" where
  "svg_empty tag as = ''<'' @ tag @ attrs as @ ''/>''"

definition svg_text :: "(string \<times> string) list \<Rightarrow> string \<Rightarrow> string" where
  "svg_text as content = ''<text'' @ attrs as @ ''>'' @ content @ ''</text>''"

definition COLORS :: "string list" where
  "COLORS = [''#2563eb'', ''#dc2626'', ''#16a34a'', ''#9333ea'', ''#ea580c'']"

definition svg_width :: int where "svg_width = 900"
definition svg_height :: int where "svg_height = 380"
definition plot_left :: int where "plot_left = 70"
definition plot_top :: int where "plot_top = 40"
definition plot_w :: int where "plot_w = svg_width - plot_left - 70"
definition plot_h :: int where "plot_h = svg_height - plot_top - 50"

type_synonym chart_series = "string \<times> (rat \<times> rat) list"

text \<open>The arguments of \<open>svg_chart\<close>; no second axis is the empty list.\<close>

record chart =
  ch_title :: string
  ch_x_label :: string
  ch_series :: "chart_series list"
  ch_y_label :: "string \<times> string"
  ch_right :: "chart_series list"

definition points_of :: "chart_series list \<Rightarrow> (rat \<times> rat) list" where
  "points_of groups = concat (map snd groups)"

definition axis_max :: "chart_series list \<Rightarrow> rat" where
  "axis_max groups =
     (let ys = map snd (points_of groups); m = (if ys = [] then 1 else Max (set ys)); top_value = (if m = 0 then 1 else m)
      in fl (top_value * fl (11 / 10)))"

definition x_max :: "chart_series list \<Rightarrow> rat" where
  "x_max groups =
     (let xs = map fst (points_of groups); m = Max (set (if xs = [] then [0, 1] else xs)) in if m = 0 then 1 else m)"

definition sx :: "rat \<Rightarrow> rat \<Rightarrow> rat" where
  "sx xm x = fl (of_int plot_left + fl (fl (x / xm) * of_int plot_w))"

definition sy :: "rat \<Rightarrow> rat \<Rightarrow> rat" where
  "sy scale y = fl (of_int (plot_top + plot_h) - fl (fl (y / scale) * of_int plot_h))"

definition polyline_coords :: "rat \<Rightarrow> rat \<Rightarrow> (rat \<times> rat) list \<Rightarrow> string list" where
  "polyline_coords xm scale points = map (\<lambda>(x, y). fixed 1 (sx xm x) @ '','' @ fixed 1 (sy scale y)) points"

definition dash_attr :: "bool \<Rightarrow> (string \<times> string) list" where
  "dash_attr dashed = (if dashed then [(''stroke-dasharray'', ''6 4'')] else [])"

definition polyline :: "rat \<Rightarrow> (rat \<times> rat) list \<Rightarrow> rat \<Rightarrow> string \<Rightarrow> bool \<Rightarrow> string" where
  "polyline xm points scale color dashed = svg_empty ''polyline''
     ([(''points'', join '' '' (polyline_coords xm scale points)), (''fill'', ''none''), (''stroke'', color), (''stroke-width'', ''2'')] @ dash_attr dashed)"

definition color_of :: "nat \<Rightarrow> string" where
  "color_of i = COLORS ! (i mod length COLORS)"

definition chart_legend :: "chart \<Rightarrow> (string \<times> string \<times> bool) list" where
  "chart_legend c = map (\<lambda>(i, label, _). (label, color_of i, False)) (zip [0..<length (ch_series c)] (ch_series c)) @
     map (\<lambda>(label, _). (label, ''#6b7280'', True)) (ch_right c)"

definition legend_x :: "nat \<Rightarrow> int" where
  "legend_x i = plot_left + 10 + int i * 170"

definition legend_entry :: "nat \<times> string \<times> string \<times> bool \<Rightarrow> string" where
  "legend_entry = (\<lambda>(i, label, color, dashed). let x = legend_x i in
     svg_empty ''line'' ([(''x1'', str_int x), (''y1'', str_int (plot_top + 8)), (''x2'', str_int (x + 24)), (''y2'', str_int (plot_top + 8)),
       (''stroke'', color), (''stroke-width'', ''2'')] @ dash_attr dashed) @
     svg_text [(''x'', str_int (x + 30)), (''y'', str_int (plot_top + 12))] label)"

definition y_ticks :: "(rat \<Rightarrow> string) \<Rightarrow> chart \<Rightarrow> nat \<Rightarrow> string list" where
  "y_ticks num c i =
     (let y = fl (of_int (plot_top + plot_h) - fl (of_nat i * of_int plot_h / 5)) in
      [svg_empty ''line'' [(''x1'', str_int plot_left), (''y1'', num y), (''x2'', str_int (plot_left + plot_w)), (''y2'', num y), (''stroke'', ''#e5e7eb'')],
       svg_text [(''x'', str_int (plot_left - 6)), (''y'', num (fl (y + 4))), (''text-anchor'', ''end'')]
         (fixed 0 (fl (fl (axis_max (ch_series c) * of_nat i) / 5)))] @
      (if ch_right c = [] then []
       else [svg_text [(''x'', str_int (plot_left + plot_w + 6)), (''y'', num (fl (y + 4))), (''fill'', ''#6b7280'')]
               (fixed 0 (fl (fl (axis_max (ch_right c) * of_nat i) / 5)))]))"

definition x_tick :: "(rat \<Rightarrow> string) \<Rightarrow> rat \<Rightarrow> nat \<Rightarrow> string" where
  "x_tick num xm i = svg_text [(''x'', num (fl (of_int plot_left + fl (of_nat i * of_int plot_w / 6)))), (''y'', str_int (plot_top + plot_h + 18)),
     (''text-anchor'', ''middle'')] (fixed 0 (fl (fl (xm * of_nat i) / 6)))"

definition axis_labels :: "(rat \<Rightarrow> string) \<Rightarrow> chart \<Rightarrow> string list" where
  "axis_labels num c =
     (let middle = num (fl (of_int plot_top + fl (of_int plot_h / 2))) in
      [svg_text [(''x'', num (fl (of_int plot_left + fl (of_int plot_w / 2)))), (''y'', str_int (svg_height - 10)), (''text-anchor'', ''middle'')] (ch_x_label c),
       svg_text [(''transform'', ''translate(16 '' @ middle @ '') rotate(-90)''), (''text-anchor'', ''middle'')] (fst (ch_y_label c))] @
      (if ch_right c = [] then []
       else [svg_text [(''transform'', ''translate('' @ str_int (svg_width - 14) @ '' '' @ middle @ '') rotate(90)''), (''text-anchor'', ''middle''),
               (''fill'', ''#6b7280'')] (snd (ch_y_label c))]))"

definition chart_lines :: "chart \<Rightarrow> string list" where
  "chart_lines c =
     (let xm = x_max (ch_series c @ ch_right c) in
      map (\<lambda>(i, _, points). polyline xm points (axis_max (ch_series c)) (color_of i) False) (zip [0..<length (ch_series c)] (ch_series c)) @
      map (\<lambda>(_, points). polyline xm points (axis_max (ch_right c)) ''#6b7280'' True) (ch_right c))"

definition svg_chart :: "(rat \<Rightarrow> string) \<Rightarrow> chart \<Rightarrow> string" where
  "svg_chart num c = join NL (
     [''<svg'' @ attrs [(''xmlns'', ''http://www.w3.org/2000/svg''), (''width'', str_int svg_width), (''height'', str_int svg_height),
        (''font-family'', ''sans-serif''), (''font-size'', ''12'')] @ ''>'',
      svg_empty ''rect'' [(''width'', str_int svg_width), (''height'', str_int svg_height), (''fill'', ''white'')],
      svg_text [(''x'', num (fl (of_int svg_width / 2))), (''y'', ''22''), (''text-anchor'', ''middle''), (''font-size'', ''15''), (''font-weight'', ''bold'')]
        (ch_title c)] @
     concat (map (y_ticks num c) [0..<6]) @ map (x_tick num (x_max (ch_series c @ ch_right c))) [0..<7] @ axis_labels num c @ chart_lines c @
     map legend_entry (zip [0..<length (chart_legend c)] (chart_legend c)) @ [''</svg>''])"

section \<open>The report\<close>

type_synonym written = "(string \<times> string) list"

definition timeline_points :: "(bucket \<Rightarrow> rat) \<Rightarrow> bucket list \<Rightarrow> (rat \<times> rat) list" where
  "timeline_points f timeline = map (\<lambda>b. (of_int (bk_t b), f b)) timeline"

definition vus_line :: "bucket list \<Rightarrow> chart_series list" where
  "vus_line timeline = [(''VUs'', timeline_points bk_vus timeline)]"

definition latency_chart :: "bucket list \<Rightarrow> chart" where
  "latency_chart timeline = \<lparr>ch_title = ''Response time over time'', ch_x_label = ''time since start, s'',
     ch_series = [(''avg, ms'', timeline_points (\<lambda>b. sx_avg (bk_stats b)) timeline), (''p95, ms'', timeline_points (\<lambda>b. sx_p95 (bk_stats b)) timeline)],
     ch_y_label = (''latency, ms'', ''virtual users''), ch_right = vus_line timeline\<rparr>"

definition throughput_chart :: "bucket list \<Rightarrow> chart" where
  "throughput_chart timeline = \<lparr>ch_title = ''Throughput over time'', ch_x_label = ''time since start, s'',
     ch_series = [(''requests/s'', timeline_points (\<lambda>b. sx_rps (bk_stats b)) timeline), (''errors/s'', timeline_points bk_errors_per_s timeline)],
     ch_y_label = (''requests per second'', ''virtual users''), ch_right = vus_line timeline\<rparr>"

text \<open>The samples of the containers on the time axis of k6: those taken before its start are left out.\<close>

definition first_sample :: "resource_row list \<Rightarrow> rat" where
  "first_sample resources = Min (set (map rr_timestamp resources))"

definition shift_time :: "int \<Rightarrow> rat \<Rightarrow> rat \<Rightarrow> rat" where
  "shift_time start t0 t = fl (fl (t - t0) - fl (of_int start - t0))"

definition shifted :: "int \<Rightarrow> resource_row list \<Rightarrow> (rat \<times> rat \<times> rat \<Rightarrow> rat) \<Rightarrow> chart_series list" where
  "shifted start resources f =
     (let shift = shift_time start (first_sample resources) in
      map (\<lambda>(name, samples). (name, map (\<lambda>s. (shift (fst s), f s)) (filter (\<lambda>s. 0 \<le> shift (fst s)) samples)))
        (sort_key fst (load_resources resources)))"

definition cpu_chart :: "int \<Rightarrow> resource_row list \<Rightarrow> chart" where
  "cpu_chart start resources = \<lparr>ch_title = ''CPU usage per container'', ch_x_label = ''time since start, s'',
     ch_series = shifted start resources (\<lambda>(_, cpu, _). cpu), ch_y_label = (''CPU, % of one core'', []), ch_right = []\<rparr>"

definition memory_chart :: "int \<Rightarrow> resource_row list \<Rightarrow> chart" where
  "memory_chart start resources = \<lparr>ch_title = ''Memory usage per container'', ch_x_label = ''time since start, s'',
     ch_series = shifted start resources (\<lambda>(_, _, mem). mem), ch_y_label = (''RAM, MiB'', []), ch_right = []\<rparr>"

text \<open>\<open>main\<close> of \<open>report.py\<close>: the exception it ends with, if any, and the files written until then.\<close>

definition report_main :: "(rat \<Rightarrow> string) \<Rightarrow> k6_row list \<Rightarrow> resource_row list option \<Rightarrow> exn option \<times> written" where
  "report_main num csv resources =
     (case bind_result (load_k6 csv) (\<lambda>(samples, vus). bind_result (report_lines samples vus) (\<lambda>lines.
             let start = Min (set (map sa_ts samples)) in
             bind_result (buckets samples vus start) (\<lambda>timeline. Inr (start, lines, timeline)))) of
        Inl e \<Rightarrow> (Some e, [])
      | Inr (start, lines, timeline) \<Rightarrow>
          let charts = [(''latency.svg'', svg_chart num (latency_chart timeline)), (''throughput.svg'', svg_chart num (throughput_chart timeline))];
              summary = (\<lambda>lines. (''summary.md'', join NL lines @ NL))
          in case resources of
               None \<Rightarrow> (None, charts @ [summary lines])
             | Some res \<Rightarrow>
                 if res = [] then (Some (ValueError ''min() iterable argument is empty''), charts)
                 else (None, charts @ [(''cpu.svg'', svg_chart num (cpu_chart start res)), (''memory.svg'', svg_chart num (memory_chart start res)),
                        summary (lines @ resource_lines res)]))"

section \<open>The comparison\<close>

definition comparison_lines :: "run_summary \<Rightarrow> run_summary \<Rightarrow> string list result" where
  "comparison_lines before after =
     bind_result (endpoint_rows before after) (\<lambda>ep. Inr
       ([''## Overall'', [], table_text [''Metric'', ''Before'', ''After'', ''Change''] (overall_rows before after), [],
         ''## Per endpoint (avg / p95, ms)'', []] @
        [table_text [''Endpoint'', ''Before'', ''After'', ''avg'', ''p95''] ep] @
        [[], ''## Per load step (RPS; avg / p95, ms)'', []] @
        [table_text [''VUs'', ''RPS before'', ''RPS after'', ''Before'', ''After''] (step_rows before after)]))"

definition run_series :: "run_summary \<Rightarrow> (stats \<Rightarrow> rat) \<Rightarrow> string \<Rightarrow> chart_series" where
  "run_series run key label = (label, timeline_points (\<lambda>b. key (bk_stats b)) (rn_timeline run))"

definition compare_latency_chart :: "run_summary \<Rightarrow> run_summary \<Rightarrow> chart" where
  "compare_latency_chart before after = \<lparr>ch_title = ''Latency: before vs after'', ch_x_label = ''time since start, s'',
     ch_series = [run_series before sx_avg ''avg before'', run_series after sx_avg ''avg after'',
       run_series before sx_p95 ''p95 before'', run_series after sx_p95 ''p95 after''],
     ch_y_label = (''latency, ms'', ''virtual users''), ch_right = vus_line (rn_timeline before)\<rparr>"

definition compare_throughput_chart :: "run_summary \<Rightarrow> run_summary \<Rightarrow> chart" where
  "compare_throughput_chart before after = \<lparr>ch_title = ''Throughput: before vs after'', ch_x_label = ''time since start, s'',
     ch_series = [run_series before sx_rps ''RPS before'', run_series after sx_rps ''RPS after''],
     ch_y_label = (''requests per second'', ''virtual users''), ch_right = vus_line (rn_timeline before)\<rparr>"

definition compare_main :: "(rat \<Rightarrow> string) \<Rightarrow> k6_row list \<times> resource_row list \<Rightarrow> k6_row list \<times> resource_row list \<Rightarrow> exn option \<times> written" where
  "compare_main num before_run after_run =
     (case bind_result (load_run (fst before_run) (snd before_run)) (\<lambda>before. bind_result (load_run (fst after_run) (snd after_run)) (\<lambda>after.
             bind_result (comparison_lines before after) (\<lambda>lines. Inr (before, after, lines)))) of
        Inl e \<Rightarrow> (Some e, [])
      | Inr (before, after, lines) \<Rightarrow> (None,
          [(''comparison.md'', join NL lines @ NL), (''compare_latency.svg'', svg_chart num (compare_latency_chart before after)),
           (''compare_throughput.svg'', svg_chart num (compare_throughput_chart before after))]))"

section \<open>Inside the picture\<close>

lemma plot_numbers [simp]: "svg_width = 900" "svg_height = 380" "plot_left = 70" "plot_top = 40" "plot_w = 760" "plot_h = 290"
  by (simp_all add: svg_width_def svg_height_def plot_left_def plot_top_def plot_w_def plot_h_def)

lemma fl_numeral [simp]: "numeral n \<le> (2 ^ 53 :: int) \<Longrightarrow> fl (numeral n) = numeral n"
  using fl_of_int[of "numeral n"] by simp

lemma scaled_range:
  fixes n :: rat
  assumes "0 \<le> x" "x \<le> m" "fl n = n" "0 \<le> n"
  shows "0 \<le> fl (fl (x / m) * n)" "fl (fl (x / m) * n) \<le> n"
proof -
  have q: "0 \<le> x / m" "x / m \<le> 1" using assms(1,2) by (auto simp: divide_le_eq_1)
  have "fl 1 = 1" using fl_of_int[of 1] by simp
  then have f: "0 \<le> fl (x / m)" "fl (x / m) \<le> 1" using q fl_nonneg fl_le_float by blast+
  then have "fl (x / m) * n \<le> n" "0 \<le> fl (x / m) * n" using assms(4) by (simp_all add: mult_left_le_one_le)
  then show "0 \<le> fl (fl (x / m) * n)" "fl (fl (x / m) * n) \<le> n" using assms(3) fl_nonneg fl_le_float by blast+
qed

lemma sx_range: "0 \<le> x \<Longrightarrow> x \<le> xm \<Longrightarrow> 70 \<le> sx xm x \<and> sx xm x \<le> 830"
  using scaled_range[of x xm 760] by (auto simp: sx_def intro!: fl_ge_float fl_le_float)

lemma sy_range: "0 \<le> y \<Longrightarrow> y \<le> scale \<Longrightarrow> 40 \<le> sy scale y \<and> sy scale y \<le> 330"
  using scaled_range[of y scale 290] by (auto simp: sy_def intro!: fl_ge_float fl_le_float)

lemma x_max_covers:
  assumes "(x, y) \<in> set (points_of groups)" "0 \<le> x"
  shows "x \<le> x_max groups"
proof -
  have "x \<in> set (map fst (points_of groups))" using assms(1) by force
  then have m: "map fst (points_of groups) \<noteq> []" "x \<le> Max (set (map fst (points_of groups)))" by (auto simp del: set_map)
  then show ?thesis unfolding x_max_def Let_def using assms(2) by (simp del: set_map map_is_Nil_conv)
qed

lemma axis_max_covers:
  assumes "(x, y) \<in> set (points_of groups)" "0 \<le> y" "fl y = y"
  shows "y \<le> axis_max groups"
proof -
  have "y \<in> set (map snd (points_of groups))" using assms(1) by force
  then have m: "map snd (points_of groups) \<noteq> []" "y \<le> Max (set (map snd (points_of groups)))" by (auto simp del: set_map)
  have one: "1 \<le> fl (11 / 10)" using fl_ge_float[of 1 "11 / 10"] fl_of_int[of 1] by simp
  have h: "y \<le> fl (t * fl (11 / 10))" if "y \<le> t" for t
  proof -
    have "y * 1 \<le> t * fl (11 / 10)" using that one assms(2) by (intro mult_mono) auto
    then show ?thesis using fl_ge_float[OF _ assms(3)] by simp
  qed
  show ?thesis unfolding axis_max_def Let_def using m h by (simp del: set_map map_is_Nil_conv)
qed

text \<open>Points with coordinates that are not negative lie inside the plot, those of the second axis too.\<close>

lemma chart_points_inside:
  assumes "groups = ch_series c \<or> groups = ch_right c" "(label, points) \<in> set groups" "(x, y) \<in> set points" "0 \<le> x" "0 \<le> y" "fl y = y"
  shows "70 \<le> sx (x_max (ch_series c @ ch_right c)) x \<and> sx (x_max (ch_series c @ ch_right c)) x \<le> 830"
    "40 \<le> sy (axis_max groups) y \<and> sy (axis_max groups) y \<le> 330"
proof -
  have m: "(x, y) \<in> set (points_of groups)" using assms(2,3) by (force simp: points_of_def)
  then have "(x, y) \<in> set (points_of (ch_series c @ ch_right c))" using assms(1) by (auto simp: points_of_def)
  then show "70 \<le> sx (x_max (ch_series c @ ch_right c)) x \<and> sx (x_max (ch_series c @ ch_right c)) x \<le> 830"
    by (intro sx_range x_max_covers assms)
  show "40 \<le> sy (axis_max groups) y \<and> sy (axis_max groups) y \<le> 330" by (intro sy_range axis_max_covers[OF m] assms)
qed

text \<open>A later or larger value is never drawn to the left of or below an earlier or smaller one.\<close>

lemma sx_mono: "0 < xm \<Longrightarrow> x \<le> x' \<Longrightarrow> sx xm x \<le> sx xm x'"
  unfolding sx_def by (intro fl_mono add_left_mono mult_right_mono) (simp_all add: divide_right_mono)

lemma sy_antimono: "0 < scale \<Longrightarrow> y \<le> y' \<Longrightarrow> sy scale y' \<le> sy scale y"
  unfolding sy_def by (intro fl_mono diff_left_mono mult_right_mono) (simp_all add: divide_right_mono)

text \<open>Five entries of the legend fit, a sixth begins beyond the right edge; and its line has the colour of the first.\<close>

lemma legend_fits: "legend_x i + 24 < svg_width \<longleftrightarrow> i < 5" "svg_width < legend_x i \<longleftrightarrow> 5 \<le> i"
  by (auto simp: legend_x_def)

lemma colors_repeat: "color_of i = color_of j \<longleftrightarrow> i mod 5 = j mod 5"
proof -
  have "distinct COLORS" "length COLORS = 5" by (simp_all add: COLORS_def)
  then show ?thesis unfolding color_of_def by (simp add: nth_eq_iff_index_eq)
qed

lemma sixth_entry:
  "legend_entry (5, ''nginx'', color_of 5, False) =
     ''<line x1='' @ QUOTE @ ''930'' @ QUOTE @ '' y1='' @ QUOTE @ ''48'' @ QUOTE @ '' x2='' @ QUOTE @ ''954'' @ QUOTE @ '' y2='' @ QUOTE @ ''48'' @ QUOTE @
     '' stroke='' @ QUOTE @ ''#2563eb'' @ QUOTE @ '' stroke-width='' @ QUOTE @ ''2'' @ QUOTE @ ''/><text x='' @ QUOTE @ ''960'' @ QUOTE @
     '' y='' @ QUOTE @ ''52'' @ QUOTE @ ''>nginx</text>''"
  by code_simp

section \<open>The files that are written\<close>

lemma distinct_group_by: "distinct (map fst d) \<Longrightarrow> distinct (map fst (group_by f xs d))"
  by (induction f xs d rule: group_by.induct) (simp_all add: distinct_dict_put)

lemma group_by_member: "(k, v) \<in> set (group_by f xs []) \<Longrightarrow> v = filter (\<lambda>x. f x = k) xs"
proof -
  assume "(k, v) \<in> set (group_by f xs [])"
  then have "map_of (group_by f xs []) k = Some v" using distinct_group_by[of "[]" f xs] by simp
  then show "v = filter (\<lambda>x. f x = k) xs" by (simp add: map_of_group_by split: if_splits)
qed

lemma map_result_summaries:
  assumes "\<And>k xs. (k, xs) \<in> set groups \<Longrightarrow> length xs < 2 ^ 40"
  shows "\<exists>ys. map_result (\<lambda>(k, xs). bind_result (summarize xs (secs k xs)) (\<lambda>s. Inr (k, s))) groups = Inr ys"
proof -
  have "\<exists>y. (case g of (k, xs) \<Rightarrow> bind_result (summarize xs (secs k xs)) (\<lambda>s. Inr (k, s))) = Inr y" if "g \<in> set groups" for g
  proof (cases g)
    case (Pair k xs)
    then have "length xs < 2 ^ 40" using assms that by blast
    then obtain s where "summarize xs (secs k xs) = Inr s" by (rule summarize_ok)
    then show ?thesis using Pair by simp
  qed
  then show ?thesis using map_result_Inr[of groups "\<lambda>(k, xs). bind_result (summarize xs (secs k xs)) (\<lambda>s. Inr (k, s))"] by blast
qed

lemma group_summaries:
  assumes "length xs < 2 ^ 40"
  shows "\<exists>ys. map_result (\<lambda>(k, xs). bind_result (summarize xs (secs k xs)) (\<lambda>s. Inr (k, s))) (filter P (group_by f xs [])) = Inr ys"
  using assms by (intro map_result_summaries) (auto dest!: group_by_member intro: le_less_trans[OF length_filter_le])

lemma peak_of_Inr: "bs \<noteq> [] \<Longrightarrow> \<exists>b \<in> set bs. peak_of bs = Inr b"
  by (induction bs rule: peak_of.induct) (force split: if_splits)+

text \<open>A run with a sample always has a summary.\<close>

lemma report_lines_total:
  assumes "samples \<noteq> []" "length samples < 2 ^ 40"
  obtains lines bs where "report_lines samples vus = Inr lines" "buckets samples vus (Min (set (map sa_ts samples))) = Inr bs"
proof -
  obtain bs where bs: "buckets samples vus (Min (set (map sa_ts samples))) = Inr bs"
    "sum_list (map (\<lambda>b. sx_requests (bk_stats b)) bs) = int (length samples)"
    using buckets_ok[OF assms refl, where vus = vus] by metis
  then have "bs \<noteq> []" using assms(1) by auto
  then obtain peak where peak: "peak_of bs = Inr peak" using peak_of_Inr by blast
  obtain overall where overall: "summarize samples (run_seconds samples) = Inr overall" using summarize_ok[OF assms(2)] .
  obtain per_endpoint where ep: "endpoint_stats samples (run_seconds samples) = Inr per_endpoint"
    using group_summaries[OF assms(2), of "\<lambda>_ _. run_seconds samples" "\<lambda>_. True" sa_name] by (auto simp: endpoint_stats_def)
  let ?known = "filter (\<lambda>r. map_of vus (sa_ts r) \<noteq> None) samples"
  have "length ?known < 2 ^ 40" using assms(2) length_filter_le le_less_trans by blast
  from group_summaries[OF this, of "\<lambda>_ xs. step_span xs" "\<lambda>(_, items). 20 \<le> step_span items" "\<lambda>r. py_trunc (the (map_of vus (sa_ts r)))"]
  obtain plateaus where "plateau samples vus = Inr plateaus" by (auto simp: plateau_def load_steps_def)
  with bs(1) overall ep peak assms(1) that show thesis by (simp add: report_lines_def Let_def)
qed

lemma report_main_files:
  assumes "load_k6 csv = Inr (samples, vus)" "samples \<noteq> []" "length samples < 2 ^ 40"
  shows "fst (report_main num csv None) = None" "map fst (snd (report_main num csv None)) = [''latency.svg'', ''throughput.svg'', ''summary.md'']"
    "res \<noteq> [] \<Longrightarrow> fst (report_main num csv (Some res)) = None"
    "res \<noteq> [] \<Longrightarrow> map fst (snd (report_main num csv (Some res))) = [''latency.svg'', ''throughput.svg'', ''cpu.svg'', ''memory.svg'', ''summary.md'']"
    "fst (report_main num csv (Some [])) = Some (ValueError ''min() iterable argument is empty'')"
    "map fst (snd (report_main num csv (Some []))) = [''latency.svg'', ''throughput.svg'']"
proof -
  obtain lines bs where l: "report_lines samples vus = Inr lines" and b: "buckets samples vus (Min (set (map sa_ts samples))) = Inr bs"
    using report_lines_total[OF assms(2,3)] .
  note s = report_main_def assms(1) l b[simplified] Let_def
  show "fst (report_main num csv None) = None" "map fst (snd (report_main num csv None)) = [''latency.svg'', ''throughput.svg'', ''summary.md'']"
    "fst (report_main num csv (Some [])) = Some (ValueError ''min() iterable argument is empty'')"
    "map fst (snd (report_main num csv (Some []))) = [''latency.svg'', ''throughput.svg'']"
    by (simp_all add: s)
  show "fst (report_main num csv (Some res)) = None"
    "map fst (snd (report_main num csv (Some res))) = [''latency.svg'', ''throughput.svg'', ''cpu.svg'', ''memory.svg'', ''summary.md'']" if "res \<noteq> []"
    using that by (simp_all add: s)
qed

text \<open>The charts of the containers begin with the run, and keep the order of the samples.\<close>

lemma shift_mono: "t \<le> t' \<Longrightarrow> shift_time start t0 t \<le> shift_time start t0 t'"
  unfolding shift_time_def by (intro fl_mono diff_right_mono)

lemma shifted_points:
  assumes "(name, points) \<in> set (shifted start resources f)" "(x, y) \<in> set points"
  shows "0 \<le> x" "\<exists>r \<in> set resources. rr_container r = name \<and> y = f (rr_timestamp r, rr_cpu_percent r, rr_mem_mib r) \<and>
    x = shift_time start (first_sample resources) (rr_timestamp r)"
proof -
  obtain samples where m: "(name, samples) \<in> set (load_resources resources)"
    "points = map (\<lambda>s. (shift_time start (first_sample resources) (fst s), f s)) (filter (\<lambda>s. 0 \<le> shift_time start (first_sample resources) (fst s)) samples)"
    using assms(1) by (auto simp: shifted_def Let_def)
  then show "0 \<le> x" using assms(2) by auto
  obtain rs where rs: "(name, rs) \<in> set (group_by rr_container resources [])"
    "samples = map (\<lambda>r. (rr_timestamp r, rr_cpu_percent r, rr_mem_mib r)) rs"
    using m(1) by (auto simp: load_resources_def)
  obtain q where q: "q \<in> set samples" "y = f q" "x = shift_time start (first_sample resources) (fst q)"
    using assms(2) unfolding m(2) by auto
  obtain r where r: "r \<in> set rs" "q = (rr_timestamp r, rr_cpu_percent r, rr_mem_mib r)" using q(1) rs(2) by auto
  then have "r \<in> set resources" "rr_container r = name" using group_by_member[OF rs(1)] by simp_all
  then show "\<exists>r \<in> set resources. rr_container r = name \<and> y = f (rr_timestamp r, rr_cpu_percent r, rr_mem_mib r) \<and>
      x = shift_time start (first_sample resources) (rr_timestamp r)"
    using q(2,3) r(2) by auto
qed

section \<open>A run against itself\<close>

definition unchanged :: "string \<Rightarrow> bool" where
  "unchanged cell = (cell = ''-'' \<or> cell = ''+0%'')"

lemma percent_change_same [simp]: "unchanged (percent_change x x)"
proof -
  have "fixed 0 0 = ''0''" by code_simp
  then show ?thesis by (simp add: unchanged_def percent_change_def Let_def)
qed

lemma resource_rows_same: "row \<in> set (resource_rows r r name) \<Longrightarrow> unchanged (last row) \<and> row ! 1 = row ! 2"
  by (cases "map_of (rn_resources r) name") (auto simp: resource_rows_def)

lemma overall_rows_same:
  assumes "row \<in> set (overall_rows r r)"
  shows "unchanged (last row) \<and> row ! 1 = row ! 2"
proof -
  have "\<exists>name. row \<in> set (resource_rows r r name)" if "row \<in> set (concat (map (resource_rows r r) names))" for names
    using that by auto
  moreover have "unchanged (last row) \<and> row ! 1 = row ! 2" if "row \<notin> set (concat (map (resource_rows r r) [''api1'', ''db'', ''redis'']))"
    using assms that unfolding overall_rows_def Let_def set_append Un_iff by fastforce
  ultimately show ?thesis using resource_rows_same by blast
qed

lemma map_result_keys:
  "map_result (\<lambda>(k, xs). bind_result (summarize xs (secs k xs)) (\<lambda>s. Inr (k, s))) groups = Inr ys \<Longrightarrow> map fst ys = map fst groups"
  by (induction groups arbitrary: ys) (auto simp: bind_result_Inr)

lemma load_run_endpoints: "load_run csv resources = Inr r \<Longrightarrow> distinct (map fst (rn_endpoints r))"
  using map_result_keys[where secs = "\<lambda>_ _. run_seconds samples" for samples] distinct_group_by[of "[]"]
  by (fastforce simp: load_run_def endpoint_stats_def bind_result_Inr Let_def split: prod.splits if_splits)

lemma endpoint_rows_same:
  assumes "distinct (map fst (rn_endpoints r))"
  shows "\<exists>ep. endpoint_rows r r = Inr ep \<and> list_all (\<lambda>row. row ! 1 = row ! 2 \<and> unchanged (row ! 3) \<and> unchanged (row ! 4)) ep"
proof -
  have "\<exists>ep. map_result (\<lambda>(n, b). case map_of (rn_endpoints r) n of
         None \<Rightarrow> Inl (KeyError n)
       | Some a \<Rightarrow> Inr [n, fixed 0 (sx_avg b) @ '' / '' @ fixed 0 (sx_p95 b), fixed 0 (sx_avg a) @ '' / '' @ fixed 0 (sx_p95 a),
           percent_change (sx_avg b) (sx_avg a), percent_change (sx_p95 b) (sx_p95 a)]) es = Inr ep \<and>
       list_all (\<lambda>row. row ! 1 = row ! 2 \<and> unchanged (row ! 3) \<and> unchanged (row ! 4)) ep" if "set es \<subseteq> set (rn_endpoints r)" for es
    using that
  proof (induction es)
    case (Cons e es)
    obtain n b where e: "e = (n, b)" by (cases e)
    then have "map_of (rn_endpoints r) n = Some b" using assms Cons.prems by simp
    then show ?case using Cons e by auto
  qed simp
  then show ?thesis unfolding endpoint_rows_def by simp
qed

text \<open>A run compared with itself is reported in full, and as unchanged.\<close>

lemma compare_same_run:
  assumes "load_run (fst run) (snd run) = Inr r"
  obtains lines where "comparison_lines r r = Inr lines"
    "compare_main num run run = (None, [(''comparison.md'', join NL lines @ NL), (''compare_latency.svg'', svg_chart num (compare_latency_chart r r)),
       (''compare_throughput.svg'', svg_chart num (compare_throughput_chart r r))])"
  using endpoint_rows_same[OF load_run_endpoints[OF assms]] assms that by (auto simp: comparison_lines_def compare_main_def)

text \<open>An endpoint that the second run never called ends the comparison before anything is written.\<close>

lemma map_result_raises:
  assumes "x \<in> set xs" "f x = Inl e"
  shows "\<exists>e'. map_result f xs = Inl e'"
  using assms by (induction xs) (auto simp: bind_result_def split: sum.splits)

lemma compare_missing_endpoint:
  assumes "load_run (fst run1) (snd run1) = Inr before" "load_run (fst run2) (snd run2) = Inr after"
    and "n \<in> fst ` set (rn_endpoints before)" "n \<notin> fst ` set (rn_endpoints after)"
  shows "\<exists>e. compare_main num run1 run2 = (Some e, [])"
proof -
  obtain b where b: "(n, b) \<in> set (sort_key fst (rn_endpoints before))" using assms(3) by auto
  have "map_of (rn_endpoints after) n = None" using assms(4) by (simp add: map_of_eq_None_iff)
  then have "\<exists>e. endpoint_rows before after = Inl e"
    unfolding endpoint_rows_def by (intro map_result_raises[OF b, of _ "KeyError n"]) simp
  then show ?thesis using assms(1,2) by (auto simp: compare_main_def comparison_lines_def)
qed

end
