(* ===== verification/Responses.thy ===== *)
theory Responses
  imports PrivacyApi
begin

text \<open>
  The response models of \<open>schemas.py\<close> and the handlers that answer with them, as JSON values, the bodies of the
  fleet requests, and \<open>_as_utc\<close> of \<open>schemas_privacy.py\<close>. A datetime is kept symbolic (\<open>J_time\<close>). Lemmas: what
  the answers leave out (password hashes, the account of a renter), that what was created is read back, and that
  \<open>_as_utc\<close> keeps the instant.
\<close>

section \<open>JSON values\<close>

datatype json = J_null | J_bool bool | J_int int | J_real rat | J_text string | J_time instant | J_list "json list" | J_obj "(string \<times> json) list"

definition J_opt :: "('a \<Rightarrow> json) \<Rightarrow> 'a option \<Rightarrow> json" where
  "J_opt f x = (case x of None \<Rightarrow> J_null | Some y \<Rightarrow> f y)"

fun vehicle_status_value :: "vehicle_status \<Rightarrow> string" where
  "vehicle_status_value AVAILABLE = ''available''"
| "vehicle_status_value RENTED = ''rented''"
| "vehicle_status_value MAINTENANCE = ''maintenance''"

fun state_source_value :: "state_source \<Rightarrow> string" where
  "state_source_value Cache_source = ''cache''"
| "state_source_value Database_source = ''database''"

section \<open>Response models\<close>

definition StationRead :: "station \<Rightarrow> json" where
  "StationRead x = J_obj [(''id'', J_int (st_id x)), (''address'', J_text (st_address x)), (''capacity'', J_int (st_capacity x))]"

definition RenterRead :: "renter \<Rightarrow> json" where
  "RenterRead x = J_obj [(''id'', J_int (rt_id x)), (''full_name'', J_text (rt_full_name x)), (''license_number'', J_text (rt_license_number x))]"

definition VehicleRead :: "vehicle \<Rightarrow> json" where
  "VehicleRead x = J_obj [(''id'', J_int (v_id x)), (''license_plate'', J_text (v_license_plate x)), (''model'', J_text (v_model x)),
     (''status'', J_text (vehicle_status_value (v_status x))), (''station_id'', J_int (v_station_id x))]"

definition RentalRead :: "rental_read \<Rightarrow> json" where
  "RentalRead x = (let r = rr_rental x in J_obj
     [(''id'', J_int (r_id r)), (''renter_id'', J_int (r_renter_id r)), (''vehicle_id'', J_int (r_vehicle_id r)),
      (''start_station_id'', J_int (r_start_station_id r)), (''end_station_id'', J_opt J_int (r_end_station_id r)),
      (''started_at'', J_time (r_started_at r)), (''ended_at'', J_opt J_time (r_ended_at r)),
      (''status'', J_text (rental_status_value (r_status r))), (''cost'', J_opt J_real (rr_cost x))])"

definition VehicleStateRead :: "vehicle_state_read \<Rightarrow> json" where
  "VehicleStateRead x = J_obj
     [(''vehicle_id'', J_int (vs_vehicle_id x)), (''recorded_at'', J_time (vs_recorded_at x)), (''latitude'', J_real (vs_latitude x)),
      (''longitude'', J_real (vs_longitude x)), (''fuel_level'', J_real (vs_fuel_level x)), (''is_locked'', J_bool (vs_is_locked x)),
      (''source'', J_text (state_source_value (vs_source x))), (''degraded'', J_bool (vs_degraded x))]"

definition VehiclePositionRead :: "vehicle_position_read \<Rightarrow> json" where
  "VehiclePositionRead x = J_obj
     [(''vehicle_id'', J_int (vp_vehicle_id x)), (''license_plate'', J_text (vp_license_plate x)), (''model'', J_text (vp_model x)),
      (''status'', J_text (vehicle_status_value (vp_status x))), (''station_id'', J_int (vp_station_id x)),
      (''recorded_at'', J_time (vp_recorded_at x)), (''latitude'', J_real (vp_latitude x)), (''longitude'', J_real (vp_longitude x)),
      (''fuel_level'', J_real (vp_fuel_level x)), (''is_locked'', J_bool (vp_is_locked x)),
      (''source'', J_text (state_source_value (vp_source x)))]"

definition FleetPositionsRead :: "fleet_positions_read \<Rightarrow> json" where
  "FleetPositionsRead x = J_obj
     [(''positions'', J_list (map VehiclePositionRead (fp_positions x))), (''without_telemetry'', J_list (map J_int (fp_without_telemetry x))),
      (''degraded'', J_bool (fp_degraded x))]"

definition UserRead :: "user \<Rightarrow> json" where
  "UserRead x = J_obj [(''id'', J_int (u_id x)), (''email'', J_text (u_email x)), (''full_name'', J_text (u_full_name x)),
     (''phone'', J_opt J_text (u_phone x)), (''role'', J_text (role_value (u_role x))), (''is_active'', J_bool (u_is_active x)),
     (''created_at'', J_time (u_created_at x))]"

definition Token :: "('t \<Rightarrow> string) \<Rightarrow> 't token \<Rightarrow> json" where
  "Token text_of x = J_obj [(''access_token'', J_text (text_of (tk_access_token x))), (''token_type'', J_text ''bearer''),
     (''role'', J_text (role_value (tk_role x))), (''home_url'', J_text (tk_home_url x))]"

definition RentalsSummary :: "rentals_summary \<Rightarrow> json" where
  "RentalsSummary x = J_obj [(''active'', J_int (int (rs_active x))), (''completed'', J_int (int (rs_completed x))),
     (''cancelled'', J_int (int (rs_cancelled x))), (''total_revenue'', J_real (rs_total_revenue x))]"

section \<open>Request bodies\<close>

record StationCreate =
  sc_address :: string
  sc_capacity :: int

record RenterCreate =
  rc_full_name :: string
  rc_license_number :: string

record VehicleCreate =
  vc_license_plate :: string
  vc_model :: string
  vc_station_id :: int

record RentalStart =
  rs_renter_id :: int
  rs_vehicle_id :: int

record RentalEnd =
  re_end_station_id :: int

section \<open>Handlers with their response models\<close>

definition answer_with :: "('a \<Rightarrow> json) \<Rightarrow> 'a result \<Rightarrow> json result" where
  "answer_with f r = bind_result r (\<lambda>x. Inr (f x))"

text \<open>The requests that read; \<open>actor\<close> is the user of the token where the handler asks for one.\<close>

datatype get_request =
    Get_station int | Get_vehicle int | Get_renters | Get_renter int | Get_rentals | Get_rental int | Get_rentals_summary
  | Get_me | Get_my_renter | Get_my_rentals | Get_users

fun get_answer :: "get_request \<Rightarrow> user \<Rightarrow> instant \<Rightarrow> database \<Rightarrow> json result" where
  "get_answer (Get_station i) actor now db = answer_with StationRead (read_station db i)"
| "get_answer (Get_vehicle i) actor now db = answer_with VehicleRead (read_vehicle db i)"
| "get_answer Get_renters actor now db = Inr (J_list (map RenterRead (list_renters db)))"
| "get_answer (Get_renter i) actor now db = answer_with RenterRead (read_renter db i)"
| "get_answer Get_rentals actor now db = Inr (J_list (map RentalRead (list_rentals now db)))"
| "get_answer (Get_rental i) actor now db = answer_with RentalRead (read_rental db i)"
| "get_answer Get_rentals_summary actor now db = Inr (RentalsSummary (rentals_summary db))"
| "get_answer Get_me actor now db = Inr (UserRead actor)"
| "get_answer Get_my_renter actor now db = answer_with RenterRead (my_renter_profile db actor)"
| "get_answer Get_my_rentals actor now db = answer_with (\<lambda>rs. J_list (map RentalRead rs)) (my_rentals now db actor)"
| "get_answer Get_users actor now db = answer_with (\<lambda>us. J_list (map UserRead us)) (list_users actor db)"

datatype fleet_request =
    Post_station StationCreate | Post_vehicle VehicleCreate | Post_renter RenterCreate | Post_start RentalStart | Post_end int RentalEnd

fun fleet_answer :: "fault \<Rightarrow> fleet_request \<Rightarrow> instant \<Rightarrow> database \<times> redis \<Rightarrow> json result \<times> database \<times> redis" where
  "fleet_answer f (Post_station p) now st = map_prod (answer_with StationRead) id (create_station f (sc_address p) (sc_capacity p) st)"
| "fleet_answer f (Post_vehicle p) now st =
     map_prod (answer_with VehicleRead) id (create_vehicle f (vc_license_plate p) (vc_model p) (vc_station_id p) st)"
| "fleet_answer f (Post_renter p) now st =
     (case create_renter (rc_full_name p) (rc_license_number p) (fst st) of (r, db) \<Rightarrow> (answer_with RenterRead r, db, snd st))"
| "fleet_answer f (Post_start p) now st = map_prod (answer_with RentalRead) id (start_rental_request f (rs_renter_id p) (rs_vehicle_id p) now st)"
| "fleet_answer f (Post_end i p) now st = map_prod (answer_with RentalRead) id (end_rental_request f i (re_end_station_id p) now st)"

definition register_answer :: "(string \<Rightarrow> string) \<Rightarrow> user_register \<Rightarrow> instant \<Rightarrow> database \<Rightarrow> json result \<times> database" where
  "register_answer hash_password p now db = map_prod (answer_with UserRead) id (register hash_password p now db)"

section \<open>Times\<close>

text \<open>A \<open>datetime\<close>: its wall clock in microseconds since 1970, and its offset from UTC when it has one.\<close>

record py_datetime =
  dt_wall :: int
  dt_offset :: "int option"

definition MIN_DATETIME :: int where "MIN_DATETIME = - 62135596800 * 10 ^ 6"
definition MAX_DATETIME :: int where "MAX_DATETIME = 253402300800 * 10 ^ 6 - 1"

text \<open>\<open>astimezone(UTC)\<close> of a wall clock at an offset: the years 1 to 9999 bound the result.\<close>

definition astimezone_utc :: "int \<Rightarrow> int \<Rightarrow> py_datetime option" where
  "astimezone_utc wall offset = (if MIN_DATETIME \<le> wall - offset \<and> wall - offset \<le> MAX_DATETIME
     then Some \<lparr>dt_wall = wall - offset, dt_offset = Some 0\<rparr> else None)"

definition as_utc :: "py_datetime \<Rightarrow> py_datetime option" where
  "as_utc t = (case dt_offset t of None \<Rightarrow> astimezone_utc (dt_wall t) 0 | Some d \<Rightarrow> astimezone_utc (dt_wall t) d)"

section \<open>What the answers leave out\<close>

definition no_hash :: "user \<Rightarrow> user" where
  "no_hash u = u\<lparr>u_hashed_password := []\<rparr>"

definition erase_hashes :: "database \<Rightarrow> database" where
  "erase_hashes db = db\<lparr>users := update_rows (\<lambda>_. True) no_hash (users db)\<rparr>"

lemma no_hash_fields [simp]: "u_id (no_hash u) = u_id u" "u_role (no_hash u) = u_role u" "UserRead (no_hash u) = UserRead u"
  by (simp_all add: no_hash_def UserRead_def)

lemma erase_hashes_fields [simp]:
  "stations (erase_hashes db) = stations db" "vehicles (erase_hashes db) = vehicles db" "renters (erase_hashes db) = renters db"
  "rentals (erase_hashes db) = rentals db" "users (erase_hashes db) = update_rows (\<lambda>_. True) no_hash (users db)"
  by (simp_all add: erase_hashes_def)

lemma sort_key_map: "(\<And>x. k (f x) = k x) \<Longrightarrow> sort_key k (map f xs) = map f (sort_key k xs)"
proof (induction xs)
  case (Cons x xs)
  have "insort_key k (f x) (map f ys) = map f (insort_key k x ys)" for ys by (induction ys) (simp_all add: Cons.prems)
  then show ?case using Cons by simp
qed simp

lemma list_users_erased: "list_users (no_hash actor) (erase_hashes db) = bind_result (list_users actor db) (\<lambda>us. Inr (map no_hash us))"
  by (simp add: list_users_def require_admin_def require_roles_def rows_update sort_key_map)

text \<open>No answer to a request that reads depends on a stored password hash.\<close>

lemma answers_ignore_hashes: "get_answer q (no_hash actor) now (erase_hashes db) = get_answer q actor now db"
  by (cases q; cases "list_users actor db") (simp_all add: read_station_def read_vehicle_def list_renters_def read_renter_def list_rentals_def read_rental_def
      rentals_summary_def my_renter_profile_def my_rentals_def renter_of_def answer_with_def list_users_erased comp_def
      split: sum.split cong: option.case_cong)

lemma equal_but_hashes:
  assumes "erase_hashes db = erase_hashes db'" "no_hash actor = no_hash actor'"
  shows "get_answer q actor now db = get_answer q actor' now db'"
  by (metis assms answers_ignore_hashes)

text \<open>The public list of renters does not say which account a renter belongs to.\<close>

definition unlink :: "renter \<Rightarrow> renter" where
  "unlink r = r\<lparr>rt_user_id := None\<rparr>"

lemma renters_unlinked:
  "RenterRead (unlink r) = RenterRead r"
  "get_answer Get_renters actor now (db\<lparr>renters := update_rows (\<lambda>_. True) unlink (renters db)\<rparr>) = get_answer Get_renters actor now db"
  by (simp_all add: RenterRead_def unlink_def list_renters_def rows_update)

section \<open>What was created is read back\<close>

lemma created_station_reads_back:
  assumes "wf_table st_id (stations (fst st))" "fleet_answer f (Post_station p) now st = (Inr body, st')"
  shows "\<exists>i. body = J_obj [(''id'', J_int i), (''address'', J_text (sc_address p)), (''capacity'', J_int (sc_capacity p))] \<and>
    get_answer (Get_station i) actor now' (fst st') = Inr body"
  using assms get_append_new[of st_id "stations (fst st)" "new_station (sc_address p) (sc_capacity p)"]
  by (auto simp: create_station_def answer_with_def bind_result_Inr insert_row_def Let_def read_station_def StationRead_def new_station_def
      split: prod.splits sum.splits if_splits)

lemma created_vehicle_reads_back:
  assumes "wf_table v_id (vehicles (fst st))" "fleet_answer f (Post_vehicle p) now st = (Inr body, st')"
  shows "\<exists>i. body = J_obj [(''id'', J_int i), (''license_plate'', J_text (vc_license_plate p)), (''model'', J_text (vc_model p)),
      (''status'', J_text ''available''), (''station_id'', J_int (vc_station_id p))] \<and>
    get_answer (Get_vehicle i) actor now' (fst st') = Inr body"
  using assms get_append_new[of v_id "vehicles (fst st)" "new_vehicle (vc_license_plate p) (vc_model p) (vc_station_id p)"]
  by (auto simp: create_vehicle_def answer_with_def bind_result_Inr insert_row_def Let_def read_vehicle_def VehicleRead_def new_vehicle_def
      split: prod.splits sum.splits if_splits)

lemma created_renter_reads_back:
  assumes "wf_table rt_id (renters (fst st))" "fleet_answer f (Post_renter p) now st = (Inr body, st')"
  shows "\<exists>i. body = J_obj [(''id'', J_int i), (''full_name'', J_text (rc_full_name p)), (''license_number'', J_text (rc_license_number p))] \<and>
    get_answer (Get_renter i) actor now' (fst st') = Inr body"
  using assms get_append_new[of rt_id "renters (fst st)" "new_renter (rc_full_name p) (rc_license_number p) None"]
  by (auto simp: create_renter_def answer_with_def bind_result_Inr insert_row_def Let_def read_renter_def RenterRead_def new_renter_def
      split: prod.splits sum.splits if_splits)

section \<open>UTC\<close>

definition instant_of :: "py_datetime \<Rightarrow> int" where
  "instant_of t = dt_wall t - (case dt_offset t of None \<Rightarrow> 0 | Some d \<Rightarrow> d)"

text \<open>The same instant, in UTC; a second conversion changes nothing; a naive time always converts, being UTC already.\<close>

lemma as_utc_instant: "as_utc t = Some t' \<Longrightarrow> instant_of t' = instant_of t \<and> dt_offset t' = Some 0 \<and> as_utc t' = Some t'"
  by (auto simp: as_utc_def astimezone_utc_def instant_of_def split: option.splits if_splits)

lemma as_utc_naive: "dt_offset t = None \<Longrightarrow> MIN_DATETIME \<le> dt_wall t \<Longrightarrow> dt_wall t \<le> MAX_DATETIME \<Longrightarrow>
    as_utc t = Some (t\<lparr>dt_offset := Some 0\<rparr>)"
  by (simp add: as_utc_def astimezone_utc_def)

lemma as_utc_fails: "as_utc t = None \<longleftrightarrow> instant_of t < MIN_DATETIME \<or> MAX_DATETIME < instant_of t"
  by (auto simp: as_utc_def astimezone_utc_def instant_of_def split: option.splits)

end
