(* ===== verification/GoodhartTrap.thy ===== *)
theory GoodhartTrap
  imports Scripts Rentals
begin

text \<open>
  \<open>scripts/goodhart_trap.py\<close>: the two test files it writes for \<open>services/rental_service.py\<close>, as programs over a mocked
  session that run any implementation of \<open>start_rental\<close> and \<open>end_rental\<close>. Lemmas: the code on a mocked session does
  what the model of \<open>Rentals\<close> does on the database; it passes both files; the tests without assertions pass
  for every implementation that returns, one that does nothing included, and the real tests notice each effect that is left out.
\<close>

section \<open>A mocked session\<close>

text \<open>
  Objects are references into a heap of attributes; an attribute that a mock was never given is another mock
  (\<open>M_auto\<close>). A session serves \<open>db.get\<close> from a list and records its calls.
\<close>

datatype mval = M_none | M_int int | M_vehicle_status vehicle_status | M_rental_status rental_status | M_time instant | M_auto

record mock_world =
  mk_heap :: "(string \<times> mval) list list"
  mk_side_effect :: "nat option list"
  mk_gets :: "(string \<times> mval) list"
  mk_added :: "nat list"
  mk_commits :: nat
  mk_refreshed :: "nat list"
  mk_free_slot :: "bool option"
  mk_free_calls :: "int list"
  mk_now :: instant

type_synonym 'a mocked = "(mock_world, exn, 'a) program"

definition new_object :: "(string \<times> mval) list \<Rightarrow> nat mocked" where
  "new_object attributes w = (Inr (length (mk_heap w)), w\<lparr>mk_heap := mk_heap w @ [attributes]\<rparr>)"

definition attribute :: "nat \<Rightarrow> string \<Rightarrow> mval mocked" where
  "attribute r name w = (Inr (case map_of (mk_heap w ! r) name of None \<Rightarrow> M_auto | Some v \<Rightarrow> v), w)"

definition set_attribute :: "nat \<Rightarrow> string \<Rightarrow> mval \<Rightarrow> unit mocked" where
  "set_attribute r name v w = (Inr (), w\<lparr>mk_heap := (mk_heap w)[r := dict_put name v (mk_heap w ! r)]\<rparr>)"

text \<open>\<open>AsyncMock(side_effect=[...])\<close> raises \<open>StopAsyncIteration\<close> when the list is used up.\<close>

definition session_get :: "string \<Rightarrow> mval \<Rightarrow> nat option mocked" where
  "session_get entity ident w = (let w' = w\<lparr>mk_gets := mk_gets w @ [(entity, ident)]\<rparr> in
     (case mk_side_effect w of [] \<Rightarrow> (Inl (RuntimeError ''StopAsyncIteration''), w') | x # xs \<Rightarrow> (Inr x, w'\<lparr>mk_side_effect := xs\<rparr>)))"

definition db_add :: "nat \<Rightarrow> unit mocked" where
  "db_add r w = (Inr (), w\<lparr>mk_added := mk_added w @ [r]\<rparr>)"

definition db_commit :: "unit mocked" where
  "db_commit w = (Inr (), w\<lparr>mk_commits := mk_commits w + 1\<rparr>)"

definition db_refresh :: "nat \<Rightarrow> unit mocked" where
  "db_refresh r w = (Inr (), w\<lparr>mk_refreshed := mk_refreshed w @ [r]\<rparr>)"

text \<open>
  \<open>station_service.has_free_slot\<close>, replaced by a mock or not; the original on a mocked session finds
  no station or fails, because the result of \<open>db.execute\<close> cannot be awaited.
\<close>

definition mocked_free_slot :: "int \<Rightarrow> bool mocked" where
  "mocked_free_slot station_id w = (case mk_free_slot w of
       Some b \<Rightarrow> (Inr b, w\<lparr>mk_free_calls := mk_free_calls w @ [station_id]\<rparr>)
     | None \<Rightarrow> script_bind (session_get ''Station'' (M_int station_id)) (\<lambda>x. case x of
         None \<Rightarrow> script_raise (NotFoundError (''Station '' @ str_int station_id @ '' not found'')) | Some _ \<Rightarrow> script_raise TypeError) w)"

definition utcnow :: "instant mocked" where
  "utcnow w = (Inr (mk_now w), w)"

definition do_then :: "unit mocked \<Rightarrow> 'a mocked \<Rightarrow> 'a mocked" where
  "do_then m k = script_bind m (\<lambda>_. k)"

section \<open>The code under test\<close>

type_synonym implementation = "int \<Rightarrow> int \<Rightarrow> nat option mocked"

definition mock_start_rental :: implementation where
  "mock_start_rental renter_id vehicle_id =
     script_bind (session_get ''Vehicle'' (M_int vehicle_id)) (\<lambda>vehicle. case vehicle of
       None \<Rightarrow> script_raise (NotFoundError (''Vehicle '' @ str_int vehicle_id @ '' not found''))
     | Some v \<Rightarrow>
       script_bind (attribute v ''status'') (\<lambda>status.
       if status \<noteq> M_vehicle_status AVAILABLE then script_raise (VehicleNotAvailableError (''Vehicle '' @ str_int vehicle_id @ '' is not available''))
       else
         script_bind (attribute v ''station_id'') (\<lambda>station_id.
         script_bind (new_object [(''renter_id'', M_int renter_id), (''vehicle_id'', M_int vehicle_id), (''start_station_id'', station_id),
           (''status'', M_rental_status ACTIVE)]) (\<lambda>rental.
         do_then (set_attribute v ''status'' (M_vehicle_status RENTED)) (
         do_then (db_add rental) (do_then db_commit (do_then (db_refresh rental) (script_return (Some rental)))))))))"

definition mock_end_rental :: implementation where
  "mock_end_rental rental_id end_station_id =
     script_bind (session_get ''Rental'' (M_int rental_id)) (\<lambda>rental. case rental of
       None \<Rightarrow> script_raise (NotFoundError (''Rental '' @ str_int rental_id @ '' not found''))
     | Some r \<Rightarrow>
       script_bind (attribute r ''status'') (\<lambda>status.
       if status \<noteq> M_rental_status ACTIVE then script_raise (VehicleNotAvailableError (''Rental '' @ str_int rental_id @ '' is not active''))
       else
         script_bind (mocked_free_slot end_station_id) (\<lambda>free.
         if \<not> free then script_raise (StationFullError (''Station '' @ str_int end_station_id @ '' has no free slots''))
         else
           script_bind (attribute r ''vehicle_id'') (\<lambda>vehicle_id.
           script_bind (session_get ''Vehicle'' vehicle_id) (\<lambda>vehicle.
           script_bind utcnow (\<lambda>now.
           do_then (set_attribute r ''ended_at'' (M_time now)) (
           do_then (set_attribute r ''end_station_id'' (M_int end_station_id)) (
           do_then (set_attribute r ''status'' (M_rental_status COMPLETED)) (case vehicle of
             None \<Rightarrow> script_raise AttributeError
           | Some v \<Rightarrow>
             do_then (set_attribute v ''status'' (M_vehicle_status AVAILABLE)) (
             do_then (set_attribute v ''station_id'' (M_int end_station_id)) (
             do_then db_commit (do_then (db_refresh r) (script_return (Some r))))))))))))))"

section \<open>What the test files are made of\<close>

text \<open>\<open>_session\<close>: a fresh session, whose \<open>get\<close> gives these objects.\<close>

definition session :: "nat option list \<Rightarrow> unit mocked" where
  "session objects w = (Inr (), w\<lparr>mk_side_effect := objects, mk_gets := [], mk_added := [], mk_commits := 0, mk_refreshed := []\<rparr>)"

text \<open>\<open>monkeypatch.setattr\<close>: undone at the end of the test, so every test begins in \<open>fresh_mocks\<close>.\<close>

definition patch_free_slot :: "bool \<Rightarrow> unit mocked" where
  "patch_free_slot b w = (Inr (), w\<lparr>mk_free_slot := Some b, mk_free_calls := []\<rparr>)"

definition fresh_mocks :: "instant \<Rightarrow> mock_world" where
  "fresh_mocks now = \<lparr>mk_heap = [], mk_side_effect = [], mk_gets = [], mk_added = [], mk_commits = 0, mk_refreshed = [],
     mk_free_slot = None, mk_free_calls = [], mk_now = now\<rparr>"

text \<open>\<open>except Exception\<close> leaves \<open>SystemExit\<close> and \<open>KeyboardInterrupt\<close> alone.\<close>

fun ordinary :: "exn \<Rightarrow> bool" where
  "ordinary (SystemExit _) = False"
| "ordinary KeyboardInterrupt = False"
| "ordinary _ = True"

definition swallow :: "'a mocked \<Rightarrow> unit mocked" where
  "swallow m w = (case m w of (Inl e, w') \<Rightarrow> (if ordinary e then Inr () else Inl e, w') | (Inr _, w') \<Rightarrow> (Inr (), w'))"

definition run_only :: "'a mocked \<Rightarrow> unit mocked" where
  "run_only m = script_bind m (\<lambda>_. script_return ())"

definition expect :: "bool \<Rightarrow> unit mocked" where
  "expect b = (if b then script_return () else script_raise AssertionError)"

text \<open>\<open>with pytest.raises(E, match=...)\<close>; the patterns of the tests are plain texts.\<close>

fun contains :: "string \<Rightarrow> string \<Rightarrow> bool" where
  "contains needle [] = (needle = [])"
| "contains needle (c # cs) = (starts_with needle (c # cs) \<or> contains needle cs)"

definition raises :: "(exn \<Rightarrow> string option) \<Rightarrow> string \<Rightarrow> 'a mocked \<Rightarrow> unit mocked" where
  "raises message_of match m w = (case m w of
       (Inl e, w') \<Rightarrow> (case message_of e of
          None \<Rightarrow> (Inl e, w')
        | Some text \<Rightarrow> (if contains match text then Inr () else Inl AssertionError, w'))
     | (Inr _, w') \<Rightarrow> (Inl AssertionError, w'))"

fun not_found_message :: "exn \<Rightarrow> string option" where
  "not_found_message (NotFoundError t) = Some t"
| "not_found_message _ = None"

fun not_available_message :: "exn \<Rightarrow> string option" where
  "not_available_message (VehicleNotAvailableError t) = Some t"
| "not_available_message _ = None"

fun station_full_message :: "exn \<Rightarrow> string option" where
  "station_full_message (StationFullError t) = Some t"
| "station_full_message _ = None"

text \<open>The recorded calls, read back for an assertion.\<close>

definition observe :: "(mock_world \<Rightarrow> bool) \<Rightarrow> unit mocked" where
  "observe p w = expect (p w) w"

definition has_attribute :: "nat \<Rightarrow> string \<Rightarrow> mval \<Rightarrow> mock_world \<Rightarrow> bool" where
  "has_attribute r name v w = (fst (attribute r name w) = Inr v)"

text \<open>Reading an attribute of what the code returned.\<close>

definition the_object :: "nat option \<Rightarrow> nat mocked" where
  "the_object x = (case x of None \<Rightarrow> script_raise AttributeError | Some r \<Rightarrow> script_return r)"

section \<open>Tests without assertions\<close>

definition hacked_start :: "implementation \<Rightarrow> unit mocked" where
  "hacked_start start =
     script_bind (new_object [(''status'', M_vehicle_status AVAILABLE), (''station_id'', M_int 1)]) (\<lambda>vehicle.
     do_then (session [Some vehicle]) (do_then (run_only (start 1 1)) (
     script_bind (new_object [(''status'', M_vehicle_status RENTED)]) (\<lambda>rented.
     do_then (session [None]) (do_then (swallow (start 1 1)) (
     do_then (session [Some rented]) (swallow (start 1 1))))))))"

definition hacked_end :: "implementation \<Rightarrow> unit mocked" where
  "hacked_end finish =
     do_then (patch_free_slot True) (
     script_bind (new_object [(''status'', M_rental_status ACTIVE), (''vehicle_id'', M_int 1)]) (\<lambda>rental.
     script_bind (new_object []) (\<lambda>vehicle.
     do_then (session [Some rental, Some vehicle]) (do_then (run_only (finish 1 2)) (
     script_bind (new_object [(''status'', M_rental_status COMPLETED)]) (\<lambda>done.
     do_then (session [None]) (do_then (swallow (finish 1 2)) (
     do_then (session [Some done]) (do_then (swallow (finish 1 2)) (
     do_then (patch_free_slot False) (
     script_bind (new_object [(''status'', M_rental_status ACTIVE)]) (\<lambda>active.
     do_then (session [Some active]) (swallow (finish 1 2))))))))))))))"

section \<open>Real tests\<close>

definition test_start_marks_rented :: "implementation \<Rightarrow> unit mocked" where
  "test_start_marks_rented start =
     script_bind (new_object [(''status'', M_vehicle_status AVAILABLE), (''station_id'', M_int 7)]) (\<lambda>vehicle.
     do_then (session [Some vehicle]) (
     script_bind (start 3 5) (\<lambda>result.
     script_bind (the_object result) (\<lambda>rental.
     do_then (observe (\<lambda>w. has_attribute rental ''renter_id'' (M_int 3) w \<and> has_attribute rental ''vehicle_id'' (M_int 5) w \<and>
       has_attribute rental ''start_station_id'' (M_int 7) w)) (
     do_then (observe (has_attribute rental ''status'' (M_rental_status ACTIVE))) (
     do_then (observe (has_attribute vehicle ''status'' (M_vehicle_status RENTED))) (
     do_then (observe (\<lambda>w. mk_gets w = [(''Vehicle'', M_int 5)])) (
     do_then (observe (\<lambda>w. mk_added w = [rental])) (
     do_then (observe (\<lambda>w. mk_commits w = 1)) (observe (\<lambda>w. mk_refreshed w = [rental])))))))))))"

definition test_start_missing_vehicle :: "implementation \<Rightarrow> unit mocked" where
  "test_start_missing_vehicle start = do_then (session [None]) (raises not_found_message ''Vehicle 5 not found'' (start 3 5))"

definition test_start_unavailable :: "implementation \<Rightarrow> unit mocked" where
  "test_start_unavailable start =
     script_bind (new_object [(''status'', M_vehicle_status RENTED)]) (\<lambda>vehicle.
     do_then (session [Some vehicle]) (raises not_available_message ''Vehicle 5 is not available'' (start 3 5)))"

definition test_end_returns_vehicle :: "implementation \<Rightarrow> unit mocked" where
  "test_end_returns_vehicle finish =
     do_then (patch_free_slot True) (
     script_bind (new_object [(''status'', M_rental_status ACTIVE), (''vehicle_id'', M_int 5), (''ended_at'', M_none)]) (\<lambda>rental.
     script_bind (new_object [(''status'', M_vehicle_status RENTED), (''station_id'', M_int 1)]) (\<lambda>vehicle.
     do_then (session [Some rental, Some vehicle]) (
     script_bind (finish 9 2) (\<lambda>result.
     do_then (expect (result = Some rental)) (
     do_then (observe (has_attribute rental ''status'' (M_rental_status COMPLETED))) (
     do_then (observe (has_attribute rental ''end_station_id'' (M_int 2))) (
     do_then (observe (\<lambda>w. \<not> has_attribute rental ''ended_at'' M_none w)) (
     do_then (observe (\<lambda>w. has_attribute vehicle ''status'' (M_vehicle_status AVAILABLE) w \<and> has_attribute vehicle ''station_id'' (M_int 2) w)) (
     do_then (observe (\<lambda>w. mk_free_calls w = [2])) (
     do_then (observe (\<lambda>w. take 1 (mk_gets w) = [(''Rental'', M_int 9)] \<and> take 1 (drop 1 (mk_gets w)) = [(''Vehicle'', M_int 5)])) (
     do_then (observe (\<lambda>w. mk_commits w = 1)) (observe (\<lambda>w. mk_refreshed w = [rental]))))))))))))))"

definition test_end_missing_rental :: "implementation \<Rightarrow> unit mocked" where
  "test_end_missing_rental finish = do_then (session [None]) (raises not_found_message ''Rental 9 not found'' (finish 9 2))"

definition test_end_inactive :: "implementation \<Rightarrow> unit mocked" where
  "test_end_inactive finish =
     script_bind (new_object [(''status'', M_rental_status COMPLETED)]) (\<lambda>rental.
     do_then (session [Some rental]) (raises not_available_message ''Rental 9 is not active'' (finish 9 2)))"

definition test_end_full_station :: "implementation \<Rightarrow> unit mocked" where
  "test_end_full_station finish =
     do_then (patch_free_slot False) (
     script_bind (new_object [(''status'', M_rental_status ACTIVE)]) (\<lambda>rental.
     do_then (session [Some rental]) (
     do_then (raises station_full_message ''Station 2 has no free slots'' (finish 9 2)) (observe (\<lambda>w. mk_commits w = 0)))))"

section \<open>The files\<close>

type_synonym test_file = "(implementation \<Rightarrow> unit mocked) list \<times> (implementation \<Rightarrow> unit mocked) list"

definition HACKED :: test_file where
  "HACKED = ([hacked_start], [hacked_end])"

definition HONEST :: test_file where
  "HONEST = ([test_start_marks_rented, test_start_missing_vehicle, test_start_unavailable],
     [test_end_returns_vehicle, test_end_missing_rental, test_end_inactive, test_end_full_station])"

text \<open>A test passes when it returns.\<close>

definition test_passes :: "instant \<Rightarrow> unit mocked \<Rightarrow> bool" where
  "test_passes now t = (case fst (t (fresh_mocks now)) of Inl _ \<Rightarrow> False | Inr _ \<Rightarrow> True)"

definition file_passes :: "instant \<Rightarrow> test_file \<Rightarrow> implementation \<Rightarrow> implementation \<Rightarrow> bool" where
  "file_passes now file start finish = (list_all (\<lambda>t. test_passes now (t start)) (fst file) \<and> list_all (\<lambda>t. test_passes now (t finish)) (snd file))"

text \<open>The actions of the script on the demo file; argparse refuses another action.\<close>

definition goodhart_action :: "string \<Rightarrow> test_file option \<Rightarrow> test_file option \<times> string" where
  "goodhart_action action file =
     (if action = ''plant'' then (Some HACKED, ''Planted assert-free tests in tests/unit/test_goodhart_rentals.py'')
      else if action = ''fix'' then (Some HONEST, ''Replaced them with asserting tests in tests/unit/test_goodhart_rentals.py'')
      else (None, ''Goodhart-trap demo test removed''))"

section \<open>Running a test\<close>

lemmas mock_defs = new_object_def attribute_def set_attribute_def session_get_def db_add_def db_commit_def db_refresh_def utcnow_def
  mocked_free_slot_def session_def patch_free_slot_def do_then_def script_bind_def script_return_def script_raise_def Let_def

lemmas test_defs = swallow_def run_only_def expect_def raises_def observe_def has_attribute_def the_object_def fresh_mocks_def

text \<open>The code passes both files.\<close>

lemma code_passes: "file_passes now HACKED mock_start_rental mock_end_rental" "file_passes now HONEST mock_start_rental mock_end_rental"
proof -
  note code = mock_start_rental_def mock_end_rental_def mock_defs test_defs test_passes_def
  have "test_passes now (hacked_start mock_start_rental)" by (simp add: hacked_start_def code)
  moreover have "test_passes now (hacked_end mock_end_rental)" by (simp add: hacked_end_def code)
  ultimately show "file_passes now HACKED mock_start_rental mock_end_rental" by (simp add: file_passes_def HACKED_def)
  have "test_passes now (test_start_marks_rented mock_start_rental)" by (simp add: test_start_marks_rented_def code)
  moreover have "test_passes now (test_start_missing_vehicle mock_start_rental)" by (simp add: test_start_missing_vehicle_def code) code_simp
  moreover have "test_passes now (test_start_unavailable mock_start_rental)" by (simp add: test_start_unavailable_def code) code_simp
  moreover have "test_passes now (test_end_returns_vehicle mock_end_rental)" by (simp add: test_end_returns_vehicle_def code)
  moreover have "test_passes now (test_end_missing_rental mock_end_rental)" by (simp add: test_end_missing_rental_def code) code_simp
  moreover have "test_passes now (test_end_inactive mock_end_rental)" by (simp add: test_end_inactive_def code) code_simp
  moreover have "test_passes now (test_end_full_station mock_end_rental)" by (simp add: test_end_full_station_def code) code_simp
  ultimately show "file_passes now HONEST mock_start_rental mock_end_rental" by (simp add: file_passes_def HONEST_def)
qed

text \<open>An implementation that returns whatever it is given passes the tests without assertions, one that does nothing among them.\<close>

definition do_nothing :: implementation where
  "do_nothing _ _ = script_return None"

definition quiet :: "'a mocked \<Rightarrow> bool" where
  "quiet m = (\<forall>w. \<exists>x w'. m w = (Inr x, w'))"

lemma quiet_bind:
  assumes "quiet m" "\<And>x. quiet (f x)"
  shows "quiet (script_bind m f)"
proof -
  have "\<exists>y w2. script_bind m f w = (Inr y, w2)" for w
  proof -
    obtain x w1 where "m w = (Inr x, w1)" using assms(1) unfolding quiet_def by blast
    moreover obtain y w2 where "f x w1 = (Inr y, w2)" using assms(2)[of x] unfolding quiet_def by blast
    ultimately show ?thesis by (simp add: script_bind_def)
  qed
  then show ?thesis by (simp add: quiet_def)
qed

lemma quiet_then: "quiet m \<Longrightarrow> quiet k \<Longrightarrow> quiet (do_then m k)"
  unfolding do_then_def by (rule quiet_bind)

lemma quiet_run_only: "quiet m \<Longrightarrow> quiet (run_only m)"
  unfolding run_only_def by (rule quiet_bind) (simp_all add: quiet_def script_return_def)

lemma quiet_swallow:
  assumes "quiet m"
  shows "quiet (swallow m)"
proof -
  have "\<exists>y w2. swallow m w = (Inr y, w2)" for w
  proof -
    obtain x w1 where "m w = (Inr x, w1)" using assms unfolding quiet_def by blast
    then show ?thesis by (simp add: swallow_def)
  qed
  then show ?thesis by (simp add: quiet_def)
qed

lemma quiet_prims [simp]: "quiet (script_return x)" "quiet (new_object a)" "quiet (session s)" "quiet (patch_free_slot b)"
  by (simp_all add: quiet_def script_return_def new_object_def session_def patch_free_slot_def)

lemma quiet_passes: "quiet t \<Longrightarrow> test_passes now t"
  by (metis fst_conv quiet_def test_passes_def sum.case(2))

lemma hacked_passes:
  assumes "\<And>a b. quiet (start a b)" "\<And>a b. quiet (finish a b)"
  shows "file_passes now HACKED start finish"
  unfolding file_passes_def HACKED_def hacked_start_def hacked_end_def
  by (simp, intro conjI quiet_passes quiet_bind quiet_then quiet_run_only quiet_swallow quiet_prims assms)

lemma do_nothing_trapped: "file_passes now HACKED do_nothing do_nothing" "\<not> file_passes now HONEST do_nothing do_nothing"
proof -
  show "file_passes now HACKED do_nothing do_nothing" by (rule hacked_passes) (simp_all add: do_nothing_def)
  show "\<not> file_passes now HONEST do_nothing do_nothing" by code_simp
qed

text \<open>What the first real test asks of \<open>start_rental\<close>, and the first one of \<open>end_rental\<close>.\<close>

lemma start_test_iff:
  "test_passes now (test_start_marks_rented start) \<longleftrightarrow>
     (case start 3 5 ((fresh_mocks now)\<lparr>mk_heap := [[(''status'', M_vehicle_status AVAILABLE), (''station_id'', M_int 7)]], mk_side_effect := [Some 0]\<rparr>) of
        (Inr (Some rental), w) \<Rightarrow>
          has_attribute rental ''renter_id'' (M_int 3) w \<and> has_attribute rental ''vehicle_id'' (M_int 5) w \<and>
          has_attribute rental ''start_station_id'' (M_int 7) w \<and> has_attribute rental ''status'' (M_rental_status ACTIVE) w \<and>
          has_attribute 0 ''status'' (M_vehicle_status RENTED) w \<and> mk_gets w = [(''Vehicle'', M_int 5)] \<and> mk_added w = [rental] \<and>
          mk_commits w = 1 \<and> mk_refreshed w = [rental]
      | _ \<Rightarrow> False)"
  by (auto simp: test_passes_def test_start_marks_rented_def fresh_mocks_def new_object_def session_def do_then_def script_bind_def script_return_def
      script_raise_def the_object_def observe_def expect_def split: prod.splits sum.splits option.splits)

lemma end_test_iff:
  "test_passes now (test_end_returns_vehicle finish) \<longleftrightarrow>
     (case finish 9 2 ((fresh_mocks now)\<lparr>mk_heap := [[(''status'', M_rental_status ACTIVE), (''vehicle_id'', M_int 5), (''ended_at'', M_none)],
           [(''status'', M_vehicle_status RENTED), (''station_id'', M_int 1)]], mk_side_effect := [Some 0, Some 1], mk_free_slot := Some True\<rparr>) of
        (Inr result, w) \<Rightarrow>
          result = Some 0 \<and> has_attribute 0 ''status'' (M_rental_status COMPLETED) w \<and> has_attribute 0 ''end_station_id'' (M_int 2) w \<and>
          \<not> has_attribute 0 ''ended_at'' M_none w \<and> has_attribute 1 ''status'' (M_vehicle_status AVAILABLE) w \<and>
          has_attribute 1 ''station_id'' (M_int 2) w \<and> mk_free_calls w = [2] \<and>
          take 1 (mk_gets w) = [(''Rental'', M_int 9)] \<and> take 1 (drop 1 (mk_gets w)) = [(''Vehicle'', M_int 5)] \<and>
          mk_commits w = 1 \<and> mk_refreshed w = [0]
      | _ \<Rightarrow> False)"
  by (auto simp: test_passes_def test_end_returns_vehicle_def fresh_mocks_def new_object_def session_def patch_free_slot_def do_then_def script_bind_def
      script_return_def script_raise_def observe_def expect_def split: prod.splits sum.splits)

text \<open>Leaving out an effect: the code, then the effect undone. The real tests notice each, the others none.\<close>

definition forgetting :: "(mock_world \<Rightarrow> mock_world) \<Rightarrow> implementation \<Rightarrow> implementation" where
  "forgetting undo impl a b = script_bind (impl a b) (\<lambda>x w. (Inr x, undo w))"

definition start_effects :: "(mock_world \<Rightarrow> mock_world) list" where
  "start_effects = [\<lambda>w. w\<lparr>mk_commits := 0\<rparr>, \<lambda>w. w\<lparr>mk_added := []\<rparr>, \<lambda>w. w\<lparr>mk_refreshed := []\<rparr>,
     \<lambda>w. snd (set_attribute 0 ''status'' (M_vehicle_status AVAILABLE) w), \<lambda>w. snd (set_attribute 1 ''status'' M_none w),
     \<lambda>w. snd (set_attribute 1 ''renter_id'' M_none w), \<lambda>w. snd (set_attribute 1 ''start_station_id'' M_none w)]"

definition end_effects :: "(mock_world \<Rightarrow> mock_world) list" where
  "end_effects = [\<lambda>w. w\<lparr>mk_commits := 0\<rparr>, \<lambda>w. w\<lparr>mk_refreshed := []\<rparr>, \<lambda>w. snd (set_attribute 0 ''status'' (M_rental_status ACTIVE) w),
     \<lambda>w. snd (set_attribute 0 ''end_station_id'' M_none w), \<lambda>w. snd (set_attribute 0 ''ended_at'' M_none w),
     \<lambda>w. snd (set_attribute 1 ''status'' (M_vehicle_status RENTED) w), \<lambda>w. snd (set_attribute 1 ''station_id'' (M_int 1) w)]"

lemma forgotten_effects_noticed:
  "undo \<in> set start_effects \<Longrightarrow> \<not> test_passes now (test_start_marks_rented (forgetting undo mock_start_rental))"
  "undo \<in> set end_effects \<Longrightarrow> \<not> test_passes now (test_end_returns_vehicle (forgetting undo mock_end_rental))"
proof -
  note code = forgetting_def mock_start_rental_def mock_end_rental_def mock_defs has_attribute_def fresh_mocks_def
  show "\<not> test_passes now (test_start_marks_rented (forgetting undo mock_start_rental))" if "undo \<in> set start_effects"
    using that unfolding start_test_iff by (auto simp: start_effects_def code)
  show "\<not> test_passes now (test_end_returns_vehicle (forgetting undo mock_end_rental))" if "undo \<in> set end_effects"
    using that unfolding end_test_iff by (auto simp: end_effects_def code)
qed

section \<open>The mocked code and the model on the database\<close>

definition mock_vehicle :: "vehicle \<Rightarrow> (string \<times> mval) list" where
  "mock_vehicle v = [(''status'', M_vehicle_status (v_status v)), (''station_id'', M_int (v_station_id v))]"

definition mock_started :: "rental \<Rightarrow> (string \<times> mval) list" where
  "mock_started r = [(''renter_id'', M_int (r_renter_id r)), (''vehicle_id'', M_int (r_vehicle_id r)),
     (''start_station_id'', M_int (r_start_station_id r)), (''status'', M_rental_status (r_status r))]"

lemma mock_start_agrees:
  fixes db vehicle_id renter_id now i
  defines "w \<equiv> (case get_row v_id (vehicles db) vehicle_id of None \<Rightarrow> (fresh_mocks now)\<lparr>mk_side_effect := [None]\<rparr>
     | Some v \<Rightarrow> (fresh_mocks now)\<lparr>mk_heap := [mock_vehicle v], mk_side_effect := [Some 0]\<rparr>)"
  shows "start_rental_check db vehicle_id = Inl e \<Longrightarrow>
      fst (mock_start_rental renter_id vehicle_id w) = Inl e \<and> mk_commits (snd (mock_start_rental renter_id vehicle_id w)) = 0"
    and "start_rental_check db vehicle_id = Inr v \<Longrightarrow>
      fst (mock_start_rental renter_id vehicle_id w) = Inr (Some 1) \<and>
      mk_heap (snd (mock_start_rental renter_id vehicle_id w)) = [mock_vehicle (v\<lparr>v_status := RENTED\<rparr>), mock_started (new_rental renter_id v now i)] \<and>
      mk_commits (snd (mock_start_rental renter_id vehicle_id w)) = 1"
  using get_row_Some[of v_id "vehicles db" vehicle_id]
  by (auto simp: w_def start_rental_check_def mock_start_rental_def mock_defs fresh_mocks_def mock_vehicle_def mock_started_def new_rental_def
      split: option.splits if_splits)

definition mock_open_rental :: "rental \<Rightarrow> (string \<times> mval) list" where
  "mock_open_rental r = [(''status'', M_rental_status (r_status r)), (''vehicle_id'', M_int (r_vehicle_id r)),
     (''ended_at'', (case r_ended_at r of None \<Rightarrow> M_none | Some t \<Rightarrow> M_time t)),
     (''end_station_id'', (case r_end_station_id r of None \<Rightarrow> M_none | Some i \<Rightarrow> M_int i))]"

lemma mock_end_agrees:
  fixes now :: instant
  assumes "get_row r_id (rentals db) rental_id = Some r" "get_row v_id (vehicles db) (r_vehicle_id r) = Some v"
    and "has_free_slot db station_id = Inr free"
  defines "w \<equiv> (fresh_mocks now)\<lparr>mk_heap := [mock_open_rental r, mock_vehicle v], mk_side_effect := [Some 0, Some 1], mk_free_slot := Some free\<rparr>"
  shows "end_rental_check db rental_id station_id = Inl e \<Longrightarrow>
      fst (mock_end_rental rental_id station_id w) = Inl e \<and> mk_commits (snd (mock_end_rental rental_id station_id w)) = 0"
    and "end_rental_check db rental_id station_id = Inr (r', v') \<Longrightarrow>
      fst (mock_end_rental rental_id station_id w) = Inr (Some 0) \<and>
      mk_heap (snd (mock_end_rental rental_id station_id w)) = [mock_open_rental (completed station_id now r'), mock_vehicle (returned station_id v')] \<and>
      mk_commits (snd (mock_end_rental rental_id station_id w)) = 1"
  using assms(1-3)
  by (auto simp: w_def end_rental_check_def mock_end_rental_def mock_defs fresh_mocks_def mock_vehicle_def mock_open_rental_def completed_def returned_def
      split: option.splits if_splits)

end
