(* ===== verification/QualityReports.thy ===== *)
theory QualityReports
  imports QualityTools LoadReport Scripts
begin

text \<open>
  What the quality tools read and write around the decisions of \<open>QualityTools\<close>: the reports of \<open>hotspots.py\<close>, the graphs of a
  Markdown file (\<open>cfg_cc.py\<close>), radon and the printed lines of \<open>complexity_gate.py\<close>, the printed pass_fail
  of \<open>quality_gate.py\<close> and the files that \<open>halstead_tokens.py\<close> is run on. Child processes, the JSON library
  and the file system are arguments. Lemmas: the CSV of the hotspots is read back, a gate prints what it decides, every graph
  block is found once.
\<close>

section \<open>Hotspot reports\<close>

text \<open>An entry of the radon report that is an error has no blocks to index.\<close>

definition read_report :: "(string \<times> radon_entry) list \<Rightarrow> (string \<times> int list) list result" where
  "read_report report = map_result (\<lambda>(path, e). case e of
       Unparsable _ \<Rightarrow> Inl TypeError | Blocks bs \<Rightarrow> Inr (path, map b_complexity bs)) report"

definition churn_command :: "string \<Rightarrow> string \<Rightarrow> string list" where
  "churn_command since revision = [''git'', ''log'', revision, ''--since='' @ since, ''--format=format:'', ''--name-only'']"

text \<open>A field of a CSV row: quoted when it holds a comma, a quote or the end of a line, with quotes doubled.\<close>

definition csv_special :: "char \<Rightarrow> bool" where
  "csv_special c = (c = CHR '','' \<or> c = CHR 34 \<or> c = CHR 10 \<or> c = CHR 13)"

definition csv_field :: "string \<Rightarrow> string" where
  "csv_field s = (if list_ex csv_special s then QUOTE @ concat (map (\<lambda>c. if c = CHR 34 then [c, c] else [c]) s) @ QUOTE else s)"

definition csv_line :: "string list \<Rightarrow> string" where
  "csv_line cells = join '','' (map csv_field cells)"

definition risk_fields :: "file_risk \<Rightarrow> string list" where
  "risk_fields r = [fr_file r, str_int (fr_total_cc r), str_int (fr_max_cc r), str_int (fr_churn r), fr_category r, zone r]"

definition hotspots_csv :: "file_risk list \<Rightarrow> string" where
  "hotspots_csv table_rows = concat (map (\<lambda>cells. csv_line cells @ [CHR 13, CHR 10])
     ([''file'', ''total_cc'', ''max_cc'', ''churn'', ''category'', ''zone''] # map risk_fields table_rows))"

definition write_reports :: "(file_risk list \<Rightarrow> string) \<Rightarrow> file_risk list \<Rightarrow> int \<Rightarrow> int \<Rightarrow> (string \<times> string) list \<times> string" where
  "write_reports dump_json table_rows cc_threshold churn_threshold =
     (let markdown = to_markdown table_rows cc_threshold churn_threshold in
      ([(''hotspots.json'', dump_json table_rows @ NL), (''hotspots.csv'', hotspots_csv table_rows), (''hotspots.md'', markdown)], markdown))"

definition hotspots_main :: "(string list \<Rightarrow> completed_process) \<Rightarrow> (file_risk list \<Rightarrow> string) \<Rightarrow> (string \<times> radon_entry) list \<Rightarrow> string \<Rightarrow> int \<Rightarrow> int \<Rightarrow>
    ((string \<times> string) list \<times> string) result" where
  "hotspots_main exec dump_json radon_json since cc_threshold churn_threshold =
     bind_result (read_report radon_json) (\<lambda>report.
       let p = exec (churn_command since ''HEAD'') in
       if returncode p \<noteq> 0 then Inl CalledProcessError
       else Inr (write_reports dump_json (hotspots report (splitlines (stdout p)) cc_threshold churn_threshold) cc_threshold churn_threshold))"

section \<open>Graphs of a Markdown file\<close>

definition GRAPH_BLOCK :: re where
  "GRAPH_BLOCK = seqs [lit (''```mermaid'' @ NL @ ''%% cfg: ''), Group 1 (plus (Cls (\<lambda>c. word_char c \<or> c = CHR ''-''))), lit NL,
     Group 2 (Lazy (Cls (\<lambda>_. True))), lit ''```'']"

text \<open>\<open>finditer\<close>, for a pattern that never matches the empty text.\<close>

function find_iter :: "re \<Rightarrow> string \<Rightarrow> string \<Rightarrow> (nat \<times> string) list list" where
  "find_iter a before [] = []"
| "find_iter a before (c # cs) = (case match_at a before (c # cs) of
       Some st \<Rightarrow> if length (mrest st) < length (c # cs) then mcaps st # find_iter a (mbefore st) (mrest st) else find_iter a (c # before) cs
     | None \<Rightarrow> find_iter a (c # before) cs)"
  by pat_completeness auto
termination
  by (relation "measure (\<lambda>(_, _, r). length r)") auto

definition graph_line :: "(nat \<times> string) list \<Rightarrow> string" where
  "graph_line caps = (case cyclomatic_complexity (parse_edges (splitlines (group caps 2))) of (e, v, cc) \<Rightarrow>
     group caps 1 @ '': E='' @ str_int e @ '' V='' @ str_int v @ '' CC=E-V+2='' @ str_int cc)"

definition cfg_main :: "string \<Rightarrow> string list" where
  "cfg_main text = map graph_line (find_iter GRAPH_BLOCK [] text)"

section \<open>The complexity gate\<close>

definition RED :: string where "RED = CHR 27 # ''[1;31m''"
definition RESET :: string where "RESET = CHR 27 # ''[0m''"

definition run_radon :: "(string list \<Rightarrow> completed_process) \<Rightarrow> (string \<Rightarrow> (string \<times> radon_entry) list result) \<Rightarrow> string \<Rightarrow> string list \<Rightarrow>
    (string \<times> radon_entry) list result" where
  "run_radon exec loads executable files =
     (let p = exec ([executable, ''-m'', ''radon'', ''cc'', ''-j''] @ files) in
      if returncode p \<noteq> 0 then Inl (SystemExit (RED @ ''radon failed:'' @ RESET @ '' '' @ strip (stderr p)))
      else loads (if stdout p = [] then ''{}'' else stdout p))"

definition complexity_output :: "(string \<times> radon_entry) list \<Rightarrow> string list \<Rightarrow> string list" where
  "complexity_output report files =
     (let problems = find_problems report in
      if problems = [] then [''complexity gate: OK, every function in '' @ str_nat (length files) @ '' file(s) has CC <= '' @ str_int LIMIT]
      else (RED @ ''COMPLEXITY GATE FAILED: commit blocked'' @ RESET) # map (\<lambda>p. RED @ ''  '' @ p @ RESET) problems @
        [''Refactor (e.g. replace if/else chains with a lookup table) to get CC <= '' @ str_int LIMIT @ ''.''])"

definition complexity_main :: "(string list \<Rightarrow> completed_process) \<Rightarrow> (string \<Rightarrow> (string \<times> radon_entry) list result) \<Rightarrow> string \<Rightarrow> string list \<Rightarrow>
    (string list \<times> int) result" where
  "complexity_main exec loads executable files =
     (if files = [] then Inr ([], 0)
      else bind_result (run_radon exec loads executable files) (\<lambda>report.
        Inr (complexity_output report files, if find_problems report = [] then 0 else 1)))"

section \<open>The files of the Halstead script\<close>

definition python_files :: "(string \<Rightarrow> bool) \<Rightarrow> (string \<Rightarrow> string list) \<Rightarrow> string list \<Rightarrow> string list" where
  "python_files is_dir rglob paths = concat (map (\<lambda>path. if is_dir path then sort (rglob path) else [path]) paths)"

section \<open>The balanced gate\<close>

definition pass_fail :: "bool \<Rightarrow> string" where
  "pass_fail ok = (if ok then ''PASS'' else ''FAIL'')"

definition quality_main :: "(string \<times> file_summary) list \<Rightarrow> string list \<Rightarrow> mutation_stats \<Rightarrow> (string list \<times> int) result" where
  "quality_main files scope stats =
     bind_result (line_coverage files scope) (\<lambda>coverage.
     bind_result (mutation_score stats) (\<lambda>score.
       let coverage_ok = MIN_LINE_COVERAGE \<le> coverage; score_ok = MIN_MUTATION_SCORE \<le> score; passed = coverage_ok \<and> score_ok in Inr
       ([''Scope: '' @ join '', '' scope,
         ''Mutants: total='' @ str_int (ms_total stats) @ '' killed='' @ str_int (ms_killed stats) @ '' survived='' @ str_int (ms_survived stats) @
           '' no_tests='' @ str_int (ms_no_tests stats) @ '' timeout='' @ str_int (ms_timeout stats),
         ''Line Coverage  '' @ pad_left 6 (fixed 2 coverage) @ '' %  (>= '' @ fixed 0 MIN_LINE_COVERAGE @ '')  '' @ pass_fail coverage_ok,
         ''Mutation Score '' @ pad_left 6 (fixed 2 score) @ '' %  (>= '' @ fixed 0 MIN_MUTATION_SCORE @ '')  '' @ pass_fail score_ok,
         ''Balanced Quality Gate: '' @ pass_fail passed], if passed then 0 else 1)))"

text \<open>The status is the decision of \<open>QualityTools\<close>, and the last line says the same.\<close>

lemma quality_main_decides: "bind_result (quality_main files scope stats) (\<lambda>(_, status). Inr status) = quality_gate files scope stats"
  by (cases "line_coverage files scope"; cases "mutation_score stats") (simp_all add: quality_main_def quality_gate_def Let_def)

lemma quality_main_prints:
  assumes "quality_main files scope stats = Inr (out, status)"
  shows "last out = ''Balanced Quality Gate: '' @ pass_fail (status = 0)"
  using assms by (auto simp: quality_main_def bind_result_Inr Let_def)

lemma complexity_main_decides:
  "bind_result (complexity_main exec loads executable files) (\<lambda>(_, status). Inr status) = complexity_gate (run_radon exec loads executable) files"
  by (cases "run_radon exec loads executable files") (simp_all add: complexity_main_def complexity_gate_def)

text \<open>Every problem is printed.\<close>

lemma complexity_main_prints:
  assumes "complexity_main exec loads executable files = Inr (out, 1)" "run_radon exec loads executable files = Inr report" "p \<in> set (find_problems report)"
  shows "RED @ ''  '' @ p @ RESET \<in> set out"
  using assms by (auto simp: complexity_main_def complexity_output_def Let_def split: if_splits)

section \<open>One broken file stops the hotspots\<close>

lemma hotspots_broken_file:
  assumes "(path, Unparsable e) \<in> set radon_json"
  shows "hotspots_main exec dump_json radon_json since cc churn = Inl TypeError"
proof -
  have "read_report radon_json = Inl TypeError"
    using assms unfolding read_report_def by (induction radon_json) (auto simp: bind_result_def split: sum.splits radon_entry.splits)
  then show ?thesis by (simp add: hotspots_main_def)
qed

lemma hotspots_main_writes:
  assumes "read_report radon_json = Inr report" "returncode (exec (churn_command since ''HEAD'')) = 0"
  shows "\<exists>files out. hotspots_main exec dump_json radon_json since cc churn = Inr (files, out) \<and>
    map fst files = [''hotspots.json'', ''hotspots.csv'', ''hotspots.md''] \<and> map_of files ''hotspots.md'' = Some out"
  using assms by (simp add: hotspots_main_def write_reports_def Let_def)

section \<open>Reading a CSV row\<close>

text \<open>A reader of one row: plain cells up to a comma, quoted cells with doubled quotes.\<close>

function (sequential) csv_fields :: "bool \<Rightarrow> string \<Rightarrow> string \<Rightarrow> string list" where
  "csv_fields True acc (c # d # cs) =
     (if c = CHR 34 then (if d = CHR 34 then csv_fields True (c # acc) cs else csv_fields False acc (d # cs)) else csv_fields True (c # acc) (d # cs))"
| "csv_fields True acc [c] = (if c = CHR 34 then [rev acc] else [rev (c # acc)])"
| "csv_fields False acc (c # cs) =
     (if c = CHR '','' then rev acc # (case cs of d # ds \<Rightarrow> if d = CHR 34 then csv_fields True [] ds else csv_fields False [] cs | [] \<Rightarrow> [[]])
      else csv_fields False (c # acc) cs)"
| "csv_fields q acc [] = [rev acc]"
  by pat_completeness auto
termination
  by (relation "measure (\<lambda>(_, _, s). length s)") auto

definition csv_read :: "string \<Rightarrow> string list" where
  "csv_read s = (case s of c # cs \<Rightarrow> if c = CHR 34 then csv_fields True [] cs else csv_fields False [] s | [] \<Rightarrow> [[]])"

definition doubled :: "string \<Rightarrow> string" where
  "doubled s = concat (map (\<lambda>c. if c = CHR 34 then [c, c] else [c]) s)"

lemma csv_quoted:
  assumes "rest = [] \<or> hd rest = CHR '',''"
  shows "csv_fields True acc (doubled s @ CHR 34 # rest) = csv_fields False (rev s @ acc) rest"
proof (induction s arbitrary: acc)
  case Nil
  then show ?case using assms by (cases rest) (auto simp: doubled_def)
next
  case (Cons c s)
  have step: "csv_fields True acc (c # ys) = csv_fields True (c # acc) ys" if "c \<noteq> CHR 34" "ys \<noteq> []" for ys
    using that by (cases ys) simp_all
  show ?case
  proof (cases "c = CHR 34")
    case True
    then show ?thesis using Cons by (simp add: doubled_def)
  next
    case False
    then have "csv_fields True acc (doubled (c # s) @ CHR 34 # rest) = csv_fields True (c # acc) (doubled s @ CHR 34 # rest)"
      using step by (simp add: doubled_def)
    then show ?thesis using Cons by simp
  qed
qed

lemma csv_plain: "\<not> list_ex csv_special s \<Longrightarrow> csv_fields False acc (s @ rest) = csv_fields False (rev s @ acc) rest"
proof (induction s arbitrary: acc)
  case (Cons c s)
  then have "\<not> csv_special c" "\<not> list_ex csv_special s" by simp_all
  moreover from this(1) have "c \<noteq> CHR '',''" by (simp add: csv_special_def)
  ultimately show ?case using Cons.IH by simp
qed simp

lemma csv_read_comma: "csv_fields False acc (CHR '','' # cs) = rev acc # csv_read cs"
  by (simp add: csv_read_def split: list.split)

lemma csv_read_field:
  assumes "rest = [] \<or> hd rest = CHR '',''"
  shows "csv_read (csv_field s @ rest) = csv_fields False (rev s) rest"
proof (cases "list_ex csv_special s")
  case True
  then show ?thesis using csv_quoted[OF assms, of "[]" s] by (simp add: csv_field_def csv_read_def QUOTE_def doubled_def)
next
  case False
  show ?thesis
  proof (cases s)
    case Nil
    then show ?thesis using assms by (cases rest) (auto simp: csv_field_def csv_read_def)
  next
    case (Cons c cs)
    then have "c \<noteq> CHR 34" using False by (auto simp: csv_special_def)
    then show ?thesis using csv_plain[OF False, of "[]" rest] False Cons by (simp add: csv_field_def csv_read_def)
  qed
qed

text \<open>Every row of the hotspot report is read back, whatever the name of the file holds.\<close>

lemma csv_round_trip: "cells \<noteq> [] \<Longrightarrow> csv_read (csv_line cells) = cells"
proof (induction cells)
  case (Cons s cells)
  show ?case
  proof (cases cells)
    case Nil
    then show ?thesis using csv_read_field[of "[]" s] by (simp add: csv_line_def)
  next
    case (Cons t ts)
    then have "csv_line (s # cells) = csv_field s @ CHR '','' # csv_line cells" by (simp add: csv_line_def)
    then have "csv_read (csv_line (s # cells)) = s # csv_read (csv_line cells)"
      using csv_read_field[of "CHR '','' # csv_line cells" s] by (simp only: csv_read_comma list.sel rev_rev_ident simp_thms)
    then show ?thesis using Cons.IH Cons by simp
  qed
qed simp

lemma hotspot_row_read_back: "csv_read (csv_line (risk_fields r)) = risk_fields r"
  by (rule csv_round_trip) (simp add: risk_fields_def)

section \<open>A graph in a text\<close>

lemma cfg_main_example:
  "cfg_main (join NL [''# Audit'', ''```mermaid'', ''%% cfg: start-rental'', ''a --> b'', ''b -->|yes| c'', ''b -.-> d'', ''c --> d'', ''```'', ''end'']) =
     [''start-rental: E=4 V=4 CC=E-V+2=2'']"
  by code_simp

end
