(* ===== verification/Spec2Isabelle.thy ===== *)
theory Spec2Isabelle
  imports ReturnRace LoadSeed ServicePages SimulatedFleet Logging ModelSchema Deployment QualityTools LoadReport
    SecretsTrap Stability Halstead ExplainPlans Reliability Charts Responses GoodhartTrap
    QualityReports
begin

text \<open>
  The Fleet-management service: a FastAPI application over PostgreSQL and Redis that
  rents vehicles parked at stations, with a telemetry worker fed through RabbitMQ, a
  simulator that feeds it, and a privacy layer (consents, export, erasure, audit). The
  code is Python, under \<open>src/src/fleet_management\<close>; the paths below are relative to it.

  \<^bold>\<open>How the parts fit together.\<close> Handlers (\<open>api/\<close>) call services (\<open>services/\<close>), which read and
  write the tables of \<open>models/\<close> in one transaction; list handlers go through the Redis cache
  (\<open>cache.py\<close>), invalidated by the handlers that change the lists. Telemetry goes
  simulator \<open>\<rightarrow>\<close> queue \<open>\<rightarrow>\<close> worker \<open>\<rightarrow>\<close> table and Redis hash \<open>\<rightarrow>\<close> vehicle-state service. The privacy
  handlers sit behind a per-subject access check that audits refusals.

  \<^bold>\<open>Theories and the code they model.\<close>
  \<^item> \<open>Prelude\<close>: lists, options, decimal text, trimming and lower-casing, and the locale
    \<open>transition_system\<close> (reachable states keep what every step keeps).
  \<^item> \<open>Tables\<close>: a table as its rows with a key sequence, which a failed insertion still moves on. The
    locale \<open>repository\<close> states what lookups return after each operation; it is interpreted for seven tables.
  \<^item> \<open>Models\<close>: \<open>exceptions.py\<close>, \<open>models/*.py\<close>: rows as records, enums as datatypes, column widths
    and constraints as predicates, and \<open>result\<close> for code that raises; \<open>insert_row\<close> checks column
    widths, then constraints, and burns a key when it fails, as PostgreSQL does.
  \<^item> \<open>PyFloat\<close>: binary64 as rationals with the rounding \<open>fl\<close> (53 bits, ties to even; no
    subnormals and no upper bound: where a huge setting can overflow, \<open>Resilience\<close> models the
    \<open>OverflowError\<close> of Python or a property names the bound), \<open>round\<close> and the compensated
    \<open>sum\<close> of Python 3.12 and later.
  \<^item> \<open>Stations\<close>, \<open>Pricing\<close>, \<open>Rentals\<close>, \<open>RentalRace\<close>, \<open>ReturnRace\<close>: \<open>services/station_service.py\<close> and
    \<open>services/rental_service.py\<close>: capacity, cost, discounts and eligibility (with the legacy
    versions of \<open>tests/unit\<close> as references), starting and ending a rental, and sessions that
    interleave at the await points of \<open>start_rental\<close> and (\<open>ReturnRace\<close>) of \<open>end_rental\<close>.
  \<^item> \<open>AuditLog\<close>, \<open>Consent\<close>, \<open>Marketing\<close>, \<open>Erasure\<close>, \<open>Export\<close>: \<open>services/audit_service.py\<close>,
    \<open>consent_service.py\<close>, \<open>marketing_service.py\<close>, \<open>erasure_service.py\<close>, \<open>export_service.py\<close>, with
    the export schema of \<open>schemas_privacy.py\<close>. The abstract specification of the consent table is
    the replay of its history; the locale \<open>consent_gate\<close> is what marketing relies on.
  \<^item> \<open>Config\<close>, \<open>Users\<close>: \<open>config.py\<close>, \<open>security.py\<close>, \<open>auth.py\<close>, \<open>services/user_service.py\<close>.
  \<^item> \<open>Resilience\<close>, \<open>Cache\<close>: \<open>resilience.py\<close> and \<open>cache.py\<close>. A Redis command takes a \<open>fault\<close>: none,
    an error before it, or an error after it took effect.
  \<^item> \<open>Telemetry\<close>, \<open>VehicleState\<close>, \<open>Simulator\<close>: \<open>telemetry/*.py\<close> and
    \<open>services/vehicle_state_service.py\<close>: the worker with its ack, reject and requeue, the reads
    with their fallback, the simulated fleet and the loop that publishes it. \<open>Worker\<close>: the loop of
    \<open>telemetry/worker.py\<close> over a broker, stopped and restarted at any point (\<open>worker_step\<close>);
    \<open>SimulatedFleet\<close>: simulator, queue, worker and fleet map together.
  \<^item> \<open>FleetApi\<close>, \<open>PrivacyApi\<close>, \<open>AdminApi\<close>: the handlers of \<open>api/*.py\<close>, \<open>privacy/correlation.py\<close>, the
    error handlers and the factory of \<open>main.py\<close>, and \<open>cli.py\<close>; \<open>fleet_step\<close> and \<open>api_step\<close> are the
    step relations of the requests. \<open>Requests\<close>: the constraints of \<open>schemas.py\<close> and
    \<open>schemas_privacy.py\<close> on request bodies, and the endpoints behind them.
    \<open>Responses\<close>: the response models as JSON values and the handlers that answer with them.
  \<^item> \<open>SeedDemo\<close>, \<open>SeedRerun\<close>: \<open>scripts/seed_demo.py\<close> as a client of these endpoints, in a monad of
    requests, answers and exceptions (\<open>Scripts\<close>); the locale \<open>script_preorder\<close> carries a relation between the
    worlds before and after a script through every request of it. \<open>LoadSeed\<close>: \<open>scripts/seed_loadtest.py\<close>
    on the same monad.
  \<^item> \<open>Scripts\<close>: the monad of the scripts (state, exceptions, \<open>finally\<close>, child processes), lines of a text and
    counters. On it: \<open>SecretsTrap\<close> (\<open>scripts/secrets_trap.py\<close>), \<open>Containers\<close> (\<open>docker_stats.py\<close>, \<open>lb_check.py\<close>,
    \<open>fault.py\<close>), \<open>Stability\<close> (\<open>stability_test.py\<close>), \<open>Halstead\<close> (\<open>halstead_tokens.py\<close>), \<open>ExplainPlans\<close>
    (\<open>explain_lab7.py\<close>: bulk rows in the tables of \<open>Models\<close>) and \<open>Reliability\<close> (\<open>reliability_test.py\<close>,
    \<open>metrics_probe.py\<close>, \<open>check_analyzable.py\<close>) and \<open>GoodhartTrap\<close> (\<open>goodhart_trap.py\<close>: its test files, run
    on any implementation of \<open>start_rental\<close> and \<open>end_rental\<close> over a mocked session).
  \<^item> \<open>ServicePages\<close>: \<open>api/home.py\<close>, the service routes and the life of the application in \<open>main.py\<close>,
    \<open>web/__init__.py\<close>, and the shared Redis client of \<open>cache.py\<close>.
  \<^item> \<open>Regex\<close>, \<open>Sanitizer\<close>, \<open>Logging\<close>: Python's \<open>re\<close> as an executable matcher with a language semantics, then
    \<open>privacy/sanitizer.py\<close>, \<open>privacy/logging_setup.py\<close> and \<open>privacy/middleware.py\<close> on it.
  \<^item> \<open>Migrations\<close>, \<open>ModelSchema\<close>, \<open>Deployment\<close>: the revisions under \<open>alembic/versions\<close> as lists of operations on
    a schema, the tables that \<open>models/*.py\<close> declare, and \<open>alembic/env.py\<close> run by several replicas
    (\<open>migrate_step\<close>).
  \<^item> \<open>QualityTools\<close>, \<open>QualityReports\<close>, \<open>LoadReport\<close>, \<open>Charts\<close>: \<open>scripts/quality_gate.py\<close>, \<open>complexity_gate.py\<close>, \<open>hotspots.py\<close>, \<open>cfg_cc.py\<close>, and
    \<open>loadtest/report.py\<close>, \<open>compare.py\<close>.
  \<^item> This theory: the properties that span components.

  \<^bold>\<open>What is shown.\<close>
  \<^item> Rentals: starting and ending on every branch; a return never overfills a station; the fleet
    stays consistent and the public lists current over every sequence of requests; the summary
    agrees with the fleet; and, without a lock on the vehicle row, two requests that interleave
    can book one vehicle twice and two returns overfill a station, which sessions that lock cannot.
  \<^item> Prices: the exact cost in binary64 arithmetic; the table-driven discount and eligibility rules
    equal the originals on all inputs.
  \<^item> Consent: rows are the replay of the history; a withdrawal holds at once, also for queued
    messages; grants are idempotent; racing first grants end as one row; refusals are audited.
  \<^item> Erasure and export: complete, atomic, touching nothing else, repeatable; what it denies stays denied until
    somebody grants it again; the export is exactly the subject's own data, and identifies nobody after an erasure.
  \<^item> Accounts: unique addresses, exact log-in, tokens until expiry, environments kept apart, no
    administrator without an administrator or the console, strangers learn nothing.
  \<^item> Requests: the privacy API fails with a server error exactly for target ids beyond 32 bits (for texts
    without NUL characters), while the fleet endpoints pass on values wider than their columns. No answer to a reading request depends on a
    stored password hash, and what was created is read back.
  \<^item> Pages: each role has its own home page, and no name or address becomes markup in it.
  \<^item> Load-test data: exactly as many vehicles as asked for, none twice, none new in a second run;
    the wait for Redis ends.
  \<^item> Demo data: after a run of the seeding script, a second run ends normally and changes no row
    but those that record the log-ins.
  \<^item> Telemetry: an acknowledged message is stored and the newest reading cached, redelivery changes
    nothing, reads survive a Redis outage (with up to 1025 attempts, where the backoff overflows), the fleet map agrees with the single-vehicle read; a
    vehicle id beyond 32 bits is requeued for ever. No published message is lost by faults,
    crashes and restarts of the worker; without faults the queue drains in a bounded number of
    steps, and then the map shows what the simulator published.
  \<^item> Simulator: fuel, parking and targets in every reachable state.
  \<^item> Logs: what the filter leaves of a record and both formatters write; two messages that differ in the value
    after a secret key give one line; the id in the logs of a request is the id in its response; two
    ways in which personal data passes the sanitiser.
  \<^item> Schema: each downgrade undoes its upgrade on any database; the migrations build what the models
    declare, which types the rows that the operations insert; replicas that start together migrate once.
  \<^item> Tools: the gates decide exactly in spite of rounding and nesting; the load report loses no request
    and its 95th percentile is the nearest rank, its charts hold every point; the stability test restores the host whatever k6 does, but not
    when its noise fails to start; token counts add up over line ranges and files; the EXPLAIN experiment
    leaves every table with the rows it had; the UTF-8 forms of a source file are one program; tests without
    assertions pass for every implementation that returns, while the real ones notice each effect left out.

  \<^bold>\<open>Modelling decisions.\<close> An instant is an integer of microseconds UTC. A transaction is one step
  except where a theory says otherwise (\<open>RentalRace\<close>, \<open>grant_from\<close>). Keys that come from a request
  are taken to fit their 32-bit column, except in \<open>Telemetry\<close> and on the privacy endpoints
  (\<open>subject_access\<close>), where the driver's refusal is modelled. Texts hold no NUL character, which
  PostgreSQL stores in no column; the property on the failures of the privacy API has this as a hypothesis. Redis values are symbolic texts (\<open>redis_text\<close>), which abstracts the printing and parsing
  of numbers and timestamps. Password hashing, token signing, the JSON of lists and messages, the
  URL parser, the e-mail validator, the mathematics library and the random generator are arguments;
  what is relied on is stated as hypotheses, each with a witness. Loops are structural
  recursions or recursions with a measure, or, where only the clock ends them, a partial function that is proved
  to return; no fuel is used. \<open>error_response\<close> is
  the answer outside debug mode.

  The effect of one Alembic operation on a schema (\<open>exec\<close>) follows PostgreSQL's documented behaviour. Characters
  are 8 bits wide, so the patterns of the sanitiser are read as on ASCII texts.

  The message broker is an argument too (\<open>broker_ok\<close> says what is relied on); a stop of the worker takes
  effect between its calls to the database and to Redis.

  \<^bold>\<open>Not modelled.\<close> The static UI, engine and connection set-up (\<open>database.py\<close>), the clients of Redis,
  RabbitMQ and HTTP themselves, deployment files, the parsing of arguments, CSV and JSON, the demo texts of
  \<open>seed_demo.py\<close> (not ASCII; lists of any texts stand for them) and \<open>privacy_log_demo.py\<close>, which logs sample records
  through what \<open>Logging\<close> models.
\<close>

section \<open>Consent from the queue to the dispatch\<close>

lemma enqueue_consents:
  assumes "consents_ok db" "length cid \<le> 64" "enqueue_marketing_email db u campaign a cid now = (Inr m, db1)"
  shows "consents_ok db1" "m \<in> set (rows (marketing_messages db1))" "m_status m = QUEUED" "m_user_id m = u"
    "wf_table m_id (marketing_messages db) \<Longrightarrow> wf_table m_id (marketing_messages db1)"
proof -
  have "require_consent db u MARKETING_EMAIL a cid now = (Inr (), db)"
    by (rule require_consent_cases[OF assms(1,2), of u MARKETING_EMAIL a now])
       (use assms(3) in \<open>simp_all only: enqueue_marketing_email_def bind_db_simps prod.inject sum.distinct simp_thms\<close>)
  then have i: "insert_row message_fits (\<lambda>m. has_id u_id (users db) (m_user_id m)) (new_message u campaign now) (marketing_messages db) =
      (Inr m, marketing_messages db1)" and db1: "db1 = db\<lparr>marketing_messages := marketing_messages db1\<rparr>"
    using assms(3) by (auto simp: enqueue_marketing_email_def split: prod.splits)
  then have t: "marketing_messages db1 = append_row (new_message u campaign now) (marketing_messages db)"
    "m = new_message u campaign now (next_id (marketing_messages db))"
    unfolding insert_row_Inr by blast+
  show "consents_ok db1" using assms(1) by (subst db1) (simp add: consents_ok_def)
  show "m \<in> set (rows (marketing_messages db1))" using t by (simp add: rows_append)
  show "m_status m = QUEUED" "m_user_id m = u" using t(2) by (simp_all add: new_message_def)
  show "wf_table m_id (marketing_messages db) \<Longrightarrow> wf_table m_id (marketing_messages db1)"
    unfolding t(1) by (rule wf_table_append) (simp_all add: new_message_def)
qed

lemma revoke_messages: "marketing_messages (snd (revoke db u p s now)) = marketing_messages db"
  by (auto simp: revoke_def write_consent_def split: sum.splits option.splits prod.splits)

text \<open>
  C20: withdrawing consent stops messages that are already queued. A message that
  was accepted while consent was given and is still queued when the user revokes
  is marked SKIPPED, never SENT, by the next dispatch, and at that dispatch no
  other queued message of this user is sent either.
\<close>

theorem withdrawal_stops_queued_messages:
  assumes "consents_ok db" and "wf_table m_id (marketing_messages db)" and "length correlation_id \<le> 64"
    and "enqueue_marketing_email db user_id campaign actor_id correlation_id t1 = (Inr message, db1)"
    and "revoke db1 user_id MARKETING_EMAIL source t2 = (Inr change, db2)"
  shows "\<exists>tally db3. dispatch_pending_marketing db2 t3 = (Inr tally, db3) \<and>
    message\<lparr>m_status := SKIPPED, m_processed_at := Some t3\<rparr> \<in> set (rows (marketing_messages db3)) \<and>
    select_rows (\<lambda>m. m_user_id m = user_id \<and> m_status m = SENT) (marketing_messages db3) =
      select_rows (\<lambda>m. m_user_id m = user_id \<and> m_status m = SENT) (marketing_messages db1)"
proof -
  note q = enqueue_consents[OF assms(1,3,4)]
  have ok2: "consents_ok db2" using consent_op_ok[OF q(1), of "RevokeOp user_id MARKETING_EMAIL source t2"] assms(5) by simp
  have m2: "marketing_messages db2 = marketing_messages db1" using revoke_messages[of db1 user_id MARKETING_EMAIL source t2] assms(5) by simp
  have deny: "\<not> gate_allows db2 user_id MARKETING_EMAIL CURRENT_POLICY_VERSION" using revoke_denies[OF q(1) assms(5)] .
  obtain tally t where t: "dispatch_pending_marketing db2 t3 = (Inr tally, db2\<lparr>marketing_messages := t\<rparr>)"
    "rows t = map (\<lambda>m. if m_status m = QUEUED then dispatched db2 t3 m else m) (rows (marketing_messages db1))"
    using dispatch_rows[OF ok2, of t3] q(5)[OF assms(2)] m2 by auto
  have skipped: "dispatched db2 t3 x = x\<lparr>m_status := SKIPPED, m_processed_at := Some t3\<rparr>" if "m_user_id x = user_id" for x
    using deny that by (simp add: dispatched_def)
  have "message\<lparr>m_status := SKIPPED, m_processed_at := Some t3\<rparr> \<in> set (rows t)"
    unfolding t(2) set_map using q(2-4) skipped by (intro image_eqI[of _ _ message]) simp_all
  moreover have "filter (\<lambda>m. m_user_id m = user_id \<and> m_status m = SENT) (map (\<lambda>m. if m_status m = QUEUED then dispatched db2 t3 m else m) ms) =
      filter (\<lambda>m. m_user_id m = user_id \<and> m_status m = SENT) ms" for ms
  proof (induction ms)
    case (Cons x xs)
    have "m_user_id (dispatched db2 t3 x) = m_user_id x" by (simp add: dispatched_def)
    then show ?case using Cons skipped[of x] by auto
  qed simp
  ultimately show ?thesis using t by (auto simp: select_rows_def)
qed

theorem withdrawal_stops_queued_messages_witness:
  "\<exists>message db1 change db2 tally db3.
     enqueue_marketing_email consent_demo_db 1 ''spring'' 1 ''c-1'' 60 = (Inr message, db1) \<and>
     revoke db1 1 MARKETING_EMAIL ''web'' 70 = (Inr change, db2) \<and> dispatch_pending_marketing db2 80 = (Inr tally, db3) \<and>
     message\<lparr>m_status := SKIPPED, m_processed_at := Some 80\<rparr> \<in> set (rows (marketing_messages db3))"
proof -
  have wf: "wf_table m_id (marketing_messages consent_demo_db)" by (simp add: consent_demo_simps wf_table_def)
  have "require_consent consent_demo_db 1 MARKETING_EMAIL 1 ''c-1'' 60 = (Inr (), consent_demo_db)"
    by (rule require_consent_cases[OF consent_demo_ok(1), of "''c-1''" 1 MARKETING_EMAIL 1 60])
       (use consent_demo_state(1) in \<open>simp_all only: gate_allows_iff[OF consent_demo_ok(1)] CURRENT_POLICY_VERSION_def, simp_all\<close>)
  then obtain message db1 where e: "enqueue_marketing_email consent_demo_db 1 ''spring'' 1 ''c-1'' 60 = (Inr message, db1)"
    using consent_demo_user by (auto simp: enqueue_marketing_email_def insert_row_def Let_def message_fits_def new_message_def)
  have ok1: "consents_ok db1" using enqueue_consents(1)[OF consent_demo_ok(1) _ e] by simp
  obtain change db2 where r: "revoke db1 1 MARKETING_EMAIL ''web'' 70 = (Inr change, db2)"
    using revoke_outcome[OF ok1, where u = 1 and p = MARKETING_EMAIL and s = "''web''" and now = 70]
    by (cases "revoke db1 1 MARKETING_EMAIL ''web'' 70"; cases "fst (revoke db1 1 MARKETING_EMAIL ''web'' 70)") auto
  show ?thesis
    using e r withdrawal_stops_queued_messages[OF consent_demo_ok(1) wf _ e r, of 80] by fastforce
qed

section \<open>From registration to a session\<close>

text \<open>
  C21: registering, logging in and using the token fit together. For a new address
  and values that fit, with a password scheme that verifies what it hashed and a
  token library that keeps its contract for the configured key, the account that
  \<open>register\<close> creates can log in under any spelling of its address with the same
  normal form, the login leaves one activity row, and the token it returns
  identifies exactly this account until it expires.
\<close>

theorem registered_user_can_log_in:
  assumes "accounts_ok db" and "normalize_email (ur_email p) \<notin> u_email ` set (rows (users db))"
    and "user_fits (new_user (ur_email p) (hash_password (ur_password p)) (ur_full_name p) USER (ur_phone p) t0 (next_id (users db)))"
    and "\<forall>x. verify_password x (hash_password x)" and "opt_width 45 host"
    and "\<forall>c. \<exists>tok. jwt_encode c (jwt_secret_key s) (jwt_algorithm s) = Inr tok"
    and "\<forall>c tok t. jwt_encode c (jwt_secret_key s) (jwt_algorithm s) = Inr tok \<and> jwt_iat c \<le> t \<and> t < jwt_exp c div 10 ^ 6 * 10 ^ 6
      \<longrightarrow> jwt_decode tok (jwt_secret_key s) (jwt_algorithm s) t = Inr (jwt_sub c)"
    and "normalize_email spelling = normalize_email (ur_email p)"
    and "t1 \<le> t" and "t < (t1 + minutes (access_token_expire_minutes s)) div 10 ^ 6 * 10 ^ 6"
  shows "\<exists>u db1 tok db2. register hash_password p t0 db = (Inr u, db1) \<and>
    login hash_password verify_password jwt_encode s spelling (ur_password p) host user_agent t1 db1 = (Inr tok, db2) \<and>
    tk_role tok = USER \<and> tk_home_url tok = ''/home/user'' \<and>
    user_activity db2 = append_row (activity_row (u_id u) ''login'' host user_agent t1) (user_activity db1) \<and>
    get_current_user jwt_decode s db2 (tk_access_token tok) t = Inr u \<and> require_user u = Inr u \<and>
    require_admin u = Inl (HTTPException 403 ''Insufficient permissions'')"
proof -
  let ?u = "new_user (ur_email p) (hash_password (ur_password p)) (ur_full_name p) USER (ur_phone p) t0"
  let ?i = "next_id (users db)"
  define db1 where "db1 = db\<lparr>users := append_row ?u (users db)\<rparr>"
  have reg: "register hash_password p t0 db = (Inr (?u ?i), db1)"
    by (rule create_user_cases[where h = hash_password and db = db and email = "ur_email p" and pw = "ur_password p"
        and name = "ur_full_name p" and role = USER and phone = "ur_phone p" and now = t0])
       (use assms(2,3) in \<open>simp_all add: register_def db1_def\<close>)
  have ok1: "accounts_ok db1"
    using create_user_accounts_ok[OF assms(1), of hash_password "ur_email p" "ur_password p" "ur_full_name p" USER "ur_phone p" t0] reg
    by (simp add: register_def)
  have mem: "?u ?i \<in> set (rows (users db1))" by (simp add: db1_def rows_append)
  have "find (\<lambda>u. u_email u = normalize_email spelling) (rows (users db1)) = Some (?u ?i)"
    using ok1 mem assms(8) find_key_iff[of u_email "rows (users db1)" "normalize_email spelling" "?u ?i"]
    by (simp add: accounts_ok_def new_user_def)
  then have auth: "fst (authenticate hash_password verify_password db1 spelling (ur_password p)) = Inr (Some (?u ?i))"
    using assms(4) by (simp add: authenticate_def get_user_by_email_ok[OF ok1] new_user_def)
  have id: "u_id (?u ?i) = ?i" "u_role (?u ?i) = USER" "u_is_active (?u ?i)" by (simp_all add: new_user_def)
  have "has_id u_id (users db1) ?i" using mem id(1) unfolding has_id_iff by blast
  note act = record_activity_ok[OF this assms(5), of "''login''" user_agent t1]
  let ?db2 = "db1\<lparr>user_activity := append_row (activity_row ?i ''login'' host user_agent t1) (user_activity db1)\<rparr>"
  obtain tok where tok: "create_access_token jwt_encode s ?i (role_value USER) None t1 = Inr tok"
    using assms(6) by (auto simp: create_access_token_def Let_def)
  have log: "login hash_password verify_password jwt_encode s spelling (ur_password p) host user_agent t1 db1 =
      (Inr \<lparr>tk_access_token = tok, tk_role = USER, tk_home_url = ''/home/user''\<rparr>, ?db2)"
    using auth act tok by (simp add: login_def id)
  have "decode_access_token jwt_decode s tok t = Inr ?i"
    using tok assms(7)[rule_format, of "\<lparr>jwt_sub = str_int ?i, jwt_role = role_value USER, jwt_iat = t1,
        jwt_exp = t1 + minutes (access_token_expire_minutes s)\<rparr>" tok t] assms(9,10)
    by (simp add: create_access_token_def decode_access_token_def)
  moreover have "get_row u_id (users ?db2) ?i = Some (?u ?i)"
    using get_row_mem[of u_id "users db1" "?u ?i"] ok1 mem id(1) by (simp add: accounts_ok_def)
  ultimately have "get_current_user jwt_decode s ?db2 tok t = Inr (?u ?i)" using id(3) by (simp add: get_current_user_def)
  then show ?thesis using reg log id
    by (intro exI[of _ "?u ?i"] exI[of _ db1] exI[of _ "\<lparr>tk_access_token = tok, tk_role = USER, tk_home_url = ''/home/user''\<rparr>"] exI[of _ ?db2])
       (simp add: require_user_def require_admin_def require_roles_def)
qed

theorem registered_user_can_log_in_witness:
  "\<exists>u db1 tok db2.
     register (\<lambda>x. CHR ''h'' # x) \<lparr>ur_email = ''Ann@example.com'', ur_password = ''pw'', ur_full_name = ''Ann'', ur_phone = None\<rparr> 0 empty_db = (Inr u, db1) \<and>
     login (\<lambda>x. CHR ''h'' # x) (\<lambda>x h. h = CHR ''h'' # x) pair_encode production_settings ''ann@EXAMPLE.com'' ''pw'' None None 5 db1 = (Inr tok, db2) \<and>
     get_current_user pair_decode production_settings db2 (tk_access_token tok) 1000 = Inr u"
proof -
  let ?p = "\<lparr>ur_email = ''Ann@example.com'', ur_password = ''pw'', ur_full_name = ''Ann'', ur_phone = None\<rparr>"
  have a: "accounts_ok empty_db" "normalize_email (ur_email ?p) \<notin> u_email ` set (rows (users empty_db))"
    by (simp_all add: accounts_ok_def empty_db_def wf_table_empty rows_empty)
  have f: "user_fits (new_user (ur_email ?p) ((\<lambda>x. CHR ''h'' # x) (ur_password ?p)) (ur_full_name ?p) USER (ur_phone ?p) 0 (next_id (users empty_db)))"
    by code_simp
  have n: "normalize_email ''ann@EXAMPLE.com'' = normalize_email (ur_email ?p)" by code_simp
  have k: "jwt_secret_key production_settings = Some ''0123456789012345678901234567890123''" "access_token_expire_minutes production_settings = 30"
    by (simp_all add: production_settings_def default_settings_def)
  show ?thesis
    using registered_user_can_log_in[OF a, where hash_password = "\<lambda>x. CHR ''h'' # x" and verify_password = "\<lambda>x h. h = CHR ''h'' # x"
        and jwt_encode = pair_encode and jwt_decode = pair_decode and s = production_settings and host = None and user_agent = None
        and spelling = "''ann@EXAMPLE.com''" and ?t1.0 = 5 and t = 1000 and ?t0.0 = 0, OF f _ _ _ _ n]
    by (auto simp: k pair_encode_def pair_decode_def minutes_def opt_width_def)
qed

end
